(* ===== verification/NtxPrelude.thy ===== *)
theory NtxPrelude
  imports Main "HOL-Library.Word" "HOL-Library.Monad_Syntax"
begin

text \<open>
  Shared vocabulary of the NTX kernel development: fixed-width integers, the status codes of
  \<^verbatim>\<open>kernel/include/kstatus.h\<close>, the bounded slot scan that every pool of the kernel uses,
  C strings and character buffers, intrusive singly linked queues, and the interfaces (locales)
  that several components implement.
\<close>

unbundle bit_operations_syntax

section \<open>Machine integers and status codes\<close>

type_synonym u8 = "8 word"
type_synonym u16 = "16 word"
type_synonym u32 = "32 word"
type_synonym u64 = "64 word"

datatype KSTATUS =
    KSTATUS_SUCCESS
  | KSTATUS_NOT_IMPLEMENTED
  | KSTATUS_INVALID_PARAMETER
  | KSTATUS_INIT_FAILED
  | KSTATUS_NOT_FOUND
  | KSTATUS_ALREADY_INITIALIZED
  | KSTATUS_ACCESS_DENIED
  | KSTATUS_WOULD_BLOCK

primrec kstatus_value :: "KSTATUS \<Rightarrow> int" where
  "kstatus_value KSTATUS_SUCCESS = 0"
| "kstatus_value KSTATUS_NOT_IMPLEMENTED = -1"
| "kstatus_value KSTATUS_INVALID_PARAMETER = -2"
| "kstatus_value KSTATUS_INIT_FAILED = -3"
| "kstatus_value KSTATUS_NOT_FOUND = -4"
| "kstatus_value KSTATUS_ALREADY_INITIALIZED = -5"
| "kstatus_value KSTATUS_ACCESS_DENIED = -6"
| "kstatus_value KSTATUS_WOULD_BLOCK = -7"

text \<open>The C cast \<^verbatim>\<open>(uint64_t)(int64_t)Status\<close>: sign extension to 64 bits.\<close>

definition kstatus_u64 :: "KSTATUS \<Rightarrow> u64" where
  "kstatus_u64 st = word_of_int (kstatus_value st)"

text \<open>
  Pointers.  A pointer into a static pool is the index of the slot it points at
  (\<open>None\<close> is the null pointer).  An out-parameter is a flag that says whether the caller passed a
  non-null pointer; the value written through it is part of the result.
\<close>

type_synonym ptr = "nat option"
type_synonym outptr = bool

section \<open>Scanning a pool\<close>

text \<open>
  \<open>scan P i k\<close> is the loop \<^verbatim>\<open>for (Index = i; Index < i + k; Index++) if (P(Index)) ...\<close>:
  the first index for which the test succeeds.
\<close>

fun scan :: "(nat \<Rightarrow> bool) \<Rightarrow> nat \<Rightarrow> nat \<Rightarrow> nat option" where
  "scan P i 0 = None"
| "scan P i (Suc k) = (if P i then Some i else scan P (Suc i) k)"

text \<open>A loop that stores \<open>v\<close> into the first \<open>n\<close> elements of an array.\<close>

definition array_fill :: "nat \<Rightarrow> 'a \<Rightarrow> (nat \<Rightarrow> 'a) \<Rightarrow> nat \<Rightarrow> 'a" where
  "array_fill n v f = (\<lambda>i. if i < n then v else f i)"

text \<open>\<open>n\<close> successive calls of an allocator that returns a slot number or fails.\<close>

fun alloc_many :: "('s \<Rightarrow> nat option \<times> 's) \<Rightarrow> nat \<Rightarrow> 's \<Rightarrow> nat option list \<times> 's" where
  "alloc_many al 0 s = ([], s)"
| "alloc_many al (Suc n) s =
     (case al s of (r, s1) \<Rightarrow> (case alloc_many al n s1 of (rs, s2) \<Rightarrow> (r # rs, s2)))"

section \<open>C strings\<close>

abbreviation NUL :: char where
  "NUL \<equiv> CHR 0x00"

text \<open>\<open>c_char src i\<close> is \<^verbatim>\<open>src[i]\<close> for a string constant: past its last character it is NUL.\<close>

definition c_char :: "string \<Rightarrow> nat \<Rightarrow> char" where
  "c_char src i = (if i < length src then src ! i else NUL)"

text \<open>The C string stored in a character buffer: everything before the first NUL.\<close>

definition c_str :: "char list \<Rightarrow> string" where
  "c_str buf = takeWhile (\<lambda>c. c \<noteq> NUL) buf"

section \<open>Intrusive singly linked queues\<close>

primrec chain :: "(nat \<Rightarrow> ptr) \<Rightarrow> ptr \<Rightarrow> nat list \<Rightarrow> bool" where
  "chain nxt p [] \<longleftrightarrow> p = None"
| "chain nxt p (x # xs) \<longleftrightarrow> p = Some x \<and> chain nxt (nxt x) xs"

definition queue_list :: "(nat \<Rightarrow> ptr) \<Rightarrow> ptr \<Rightarrow> ptr \<Rightarrow> nat list \<Rightarrow> bool" where
  "queue_list nxt hp tp xs \<longleftrightarrow>
     chain nxt hp xs \<and> tp = (if xs = [] then None else Some (last xs)) \<and> distinct xs"

section \<open>Lemmas on scans, fills and strings\<close>

named_theorems ntx_frame \<open>what an operation leaves unchanged\<close>

lemma scan_numeral [simp]:
  "scan P i (numeral v) = (if P i then Some i else scan P (Suc i) (pred_numeral v))"
  by (simp add: numeral_eq_Suc)

lemma scan_SomeD:
  "scan P i k = Some j \<Longrightarrow> i \<le> j \<and> j < i + k \<and> P j \<and> (\<forall>m. i \<le> m \<and> m < j \<longrightarrow> \<not> P m)"
proof (induction P i k rule: scan.induct)
  case (2 P i k)
  then show ?case
    by (auto split: if_splits) (metis Suc_leI le_neq_implies_less)
qed simp

lemma scan_None_iff: "scan P i k = None \<longleftrightarrow> (\<forall>m. i \<le> m \<and> m < i + k \<longrightarrow> \<not> P m)"
proof (induction P i k rule: scan.induct)
  case (2 P i k)
  show ?case
  proof (cases "P i")
    case True
    then show ?thesis by (auto intro: exI [of _ i])
  next
    case False
    have "(\<forall>m. Suc i \<le> m \<and> m < Suc i + k \<longrightarrow> \<not> P m) \<longleftrightarrow> (\<forall>m. i \<le> m \<and> m < i + Suc k \<longrightarrow> \<not> P m)"
      using False by (metis Suc_leD add_Suc add_Suc_right le_antisym not_less_eq_eq)
    with "2.IH" [OF False] False show ?thesis by simp
  qed
qed auto

lemma scan_first:
  assumes "j < n" and "P j" and "\<And>m. m < j \<Longrightarrow> \<not> P m"
  shows "scan P 0 n = Some j"
proof (cases "scan P 0 n")
  case None
  with assms show ?thesis by (auto simp: scan_None_iff)
next
  case (Some i)
  from scan_SomeD [OF this] assms show ?thesis
    using Some by (metis le0 linorder_neqE_nat)
qed

lemma scan_total: "(\<exists>j. scan P 0 n = Some j) \<longleftrightarrow> (\<exists>j<n. P j)"
  by (metis add.left_neutral le0 not_None_eq scan_None_iff scan_SomeD)

lemma scan0_SomeD: "scan P 0 n = Some j \<Longrightarrow> j < n \<and> P j"
  using scan_SomeD [of P 0 n j] by simp

lemma scan_cong: "(\<And>m. i \<le> m \<Longrightarrow> m < i + k \<Longrightarrow> P m = Q m) \<Longrightarrow> scan P i k = scan Q i k"
  by (induction P i k rule: scan.induct) auto

lemma array_fill_apply [simp]: "array_fill n v f i = (if i < n then v else f i)"
  by (simp add: array_fill_def)

lemma chain_upd_notin [simp]: "a \<notin> set xs \<Longrightarrow> chain (nxt(a := q)) p xs = chain nxt p xs"
  by (induction xs arbitrary: p) auto

lemma chain_append_one:
  "chain nxt p xs \<Longrightarrow> xs \<noteq> [] \<Longrightarrow> t \<notin> set xs \<Longrightarrow> distinct xs \<Longrightarrow>
   chain (nxt(t := None, last xs := Some t)) p (xs @ [t])"
proof (induction xs arbitrary: p)
  case (Cons x xs)
  then show ?case
    by (cases "xs = []") (auto simp: fun_upd_twist)
qed simp

lemma chain_unique: "chain nxt p xs \<Longrightarrow> chain nxt p ys \<Longrightarrow> xs = ys"
proof (induction xs arbitrary: p ys)
  case Nil
  then show ?case by (cases ys) auto
next
  case (Cons x xs)
  then show ?case by (cases ys) auto
qed

lemma queue_list_nil [simp]: "queue_list nxt hp tp [] \<longleftrightarrow> hp = None \<and> tp = None"
  by (auto simp: queue_list_def)

lemma queue_list_unique: "queue_list nxt hp tp xs \<Longrightarrow> queue_list nxt hp tp ys \<Longrightarrow> xs = ys"
  by (auto simp: queue_list_def intro: chain_unique)

lemma queue_list_cong_set:
  assumes "queue_list nxt hp tp xs" and "\<And>x. x \<in> set xs \<Longrightarrow> nxt' x = nxt x"
  shows "queue_list nxt' hp tp xs"
proof -
  have "chain nxt p xs \<Longrightarrow> \<forall>x\<in>set xs. nxt' x = nxt x \<Longrightarrow> chain nxt' p xs" for p
    by (induction xs arbitrary: p) auto
  with assms show ?thesis by (auto simp: queue_list_def)
qed

lemma c_char_less [simp]: "i < length src \<Longrightarrow> c_char src i = src ! i"
  by (simp add: c_char_def)

lemma c_char_ge [simp]: "length src \<le> i \<Longrightarrow> c_char src i = NUL"
  by (simp add: c_char_def)

lemma c_str_terminated: "NUL \<notin> set xs \<Longrightarrow> c_str (xs @ NUL # ys) = xs"
  by (induction xs) (auto simp: c_str_def)

section \<open>Masks\<close>

definition mask_subset :: "'a::len word \<Rightarrow> 'a word \<Rightarrow> bool" where
  "mask_subset a b \<longleftrightarrow> (b AND a) = a"

lemma mask_subset_refl [simp]: "mask_subset a a"
  by (simp add: mask_subset_def)

lemma mask_subset_zero [simp]: "mask_subset 0 b"
  by (simp add: mask_subset_def)

lemma mask_subset_iff_bits: "mask_subset a b \<longleftrightarrow> (\<forall>n. bit a n \<longrightarrow> bit b n)"
  by (metis (no_types, lifting) bit_and_iff bit_word_eqI mask_subset_def)

lemma mask_subset_trans: "mask_subset a b \<Longrightarrow> mask_subset b c \<Longrightarrow> mask_subset a c"
  by (auto simp: mask_subset_iff_bits)

section \<open>Words\<close>

lemma unat_ucast_u32 [simp]: "unat (ucast (x :: u32) :: u64) = unat x"
proof -
  have "unat x < 2 ^ 64" using unsigned_less [of x, where 'a = nat] by simp
  then show ?thesis by (simp add: unsigned_ucast_eq take_bit_nat_eq_self)
qed

lemma unat_ucast_32: "unat (x :: u64) < 2 ^ 32 \<Longrightarrow> unat (ucast x :: u32) = unat x"
  by (simp add: unsigned_ucast_eq take_bit_nat_eq_self)

lemma and_not_mask: "x AND NOT (mask n) = push_bit n (drop_bit n (x :: u64))"
  by (rule bit_word_eqI) (auto simp: bit_simps)

lemma unat_align:
  "unat (x AND NOT (mask n) :: u64) = unat x div 2 ^ n * 2 ^ n" if "n < 64"
proof -
  have p: "unat (2 ^ n :: u64) = 2 ^ n"
    using that unat_of_nat [of "2 ^ n", where 'a = 64] power_strict_increasing [of n 64 "2 :: nat"] by simp
  have d: "unat (drop_bit n x) = unat x div 2 ^ n"
    by (simp add: drop_bit_eq_div unat_div_distrib p)
  have "unat x div 2 ^ n * 2 ^ n \<le> unat x" by (simp add: mult.commute)
  then have "unat (drop_bit n x) * unat (2 ^ n :: u64) < 2 ^ LENGTH(64)"
    unfolding d p using unsigned_less [of x, where 'a = nat] by (rule le_less_trans)
  then have "unat (drop_bit n x * 2 ^ n) = unat x div 2 ^ n * 2 ^ n"
    unfolding unat_mult_lem by (simp only: d p)
  then show ?thesis
    by (simp add: and_not_mask push_bit_eq_mult)
qed

section \<open>Interfaces\<close>

text \<open>
  A pool of a bounded number of slots with an in-use flag per slot: what the
  \<^verbatim>\<open>...Allocate...Slot\<close> routines of the kernel and its page allocator promise, in states that
  satisfy the component's own invariant.
\<close>

locale slot_pool =
  fixes inv :: "'s \<Rightarrow> bool"
    and used :: "'s \<Rightarrow> nat \<Rightarrow> bool"
    and cap :: "'s \<Rightarrow> nat"
    and alloc :: "'s \<Rightarrow> nat option \<times> 's"
  assumes alloc_Some: "inv s \<Longrightarrow> alloc s = (Some i, t) \<Longrightarrow>
      i < cap s \<and> \<not> used s i \<and> used t = (used s)(i := True) \<and> cap t = cap s \<and> inv t"
    and alloc_None: "inv s \<Longrightarrow> alloc s = (None, t) \<Longrightarrow> t = s \<and> (\<forall>i<cap s. used s i)"
begin

definition population :: "'s \<Rightarrow> nat" where
  "population s = card {j. j < cap s \<and> used s j}"

lemma population_bound: "population s \<le> cap s"
proof -
  have "population s \<le> card {j. j < cap s}"
    unfolding population_def by (rule card_mono) auto
  then show ?thesis by simp
qed

lemma alloc_count:
  assumes "inv s" "alloc s = (Some i, t)"
  shows "population t = Suc (population s)"
proof -
  from alloc_Some [OF assms] have "{j. j < cap t \<and> used t j} = insert i {j. j < cap s \<and> used s j}"
    and "i \<notin> {j. j < cap s \<and> used s j}" by auto
  then show ?thesis by (simp add: population_def)
qed

lemma alloc_fails_iff_full: "inv s \<Longrightarrow> fst (alloc s) = None \<longleftrightarrow> (\<forall>i<cap s. used s i)"
  by (cases "alloc s") (metis alloc_None alloc_Some fst_conv not_Some_eq)

lemma alloc_keeps_live: "inv s \<Longrightarrow> alloc s = (r, t) \<Longrightarrow> used s j \<Longrightarrow> used t j"
  by (cases r) (auto dest: alloc_Some alloc_None)

text \<open>As long as there is room every call succeeds, and no slot is handed out twice.\<close>

lemma alloc_many_distinct:
  assumes "inv s" "n + population s \<le> cap s"
  shows "\<exists>xs. fst (alloc_many alloc n s) = map Some xs \<and> length xs = n \<and> distinct xs \<and>
    (\<forall>x\<in>set xs. x < cap s \<and> \<not> used s x)"
  using assms
proof (induction n arbitrary: s)
  case (Suc n)
  obtain r t where a: "alloc s = (r, t)" by fastforce
  have "r \<noteq> None"
  proof
    assume "r = None"
    with a alloc_None [OF Suc.prems(1)] have "\<forall>i<cap s. used s i" by auto
    then have "{j. j < cap s \<and> used s j} = {..<cap s}" by auto
    then have "population s = cap s" by (simp add: population_def)
    with Suc.prems(2) show False by simp
  qed
  then obtain i where i: "r = Some i" by blast
  note e = alloc_Some [OF Suc.prems(1) a [unfolded i]]
  moreover have "population t = Suc (population s)"
    using alloc_count Suc.prems(1) a i by blast
  ultimately obtain xs where "fst (alloc_many alloc n t) = map Some xs" "length xs = n" "distinct xs"
    "\<forall>x\<in>set xs. x < cap t \<and> \<not> used t x"
    using Suc.IH [of t] Suc.prems(2) by auto
  with a i e show ?case
    by (intro exI [of _ "i # xs"]) (auto split: prod.splits if_splits)
qed simp

lemma alloc_fresh: "inv s \<Longrightarrow> alloc s = (Some i, t) \<Longrightarrow> used s j \<Longrightarrow> i \<noteq> j"
  by (auto dest: alloc_Some)

end

text \<open>A pool whose slots can be given back.\<close>

locale slot_pool_free = slot_pool inv used cap alloc
  for inv :: "'s \<Rightarrow> bool" and used :: "'s \<Rightarrow> nat \<Rightarrow> bool" and cap :: "'s \<Rightarrow> nat"
    and alloc :: "'s \<Rightarrow> nat option \<times> 's" +
  fixes free :: "nat \<Rightarrow> 's \<Rightarrow> 's"
  assumes free_used: "inv s \<Longrightarrow> i < cap s \<Longrightarrow> used s i \<Longrightarrow>
      used (free i s) = (used s)(i := False) \<and> cap (free i s) = cap s \<and> inv (free i s)"
begin

lemma free_count:
  assumes "inv s" "i < cap s" "used s i"
  shows "Suc (population (free i s)) = population s"
proof -
  from free_used [OF assms] assms(2,3)
  have "{j. j < cap (free i s) \<and> used (free i s) j} = {j. j < cap s \<and> used s j} - {i}"
    and "i \<in> {j. j < cap s \<and> used s j}" by auto
  then show ?thesis
    using card_Suc_Diff1 [of "{j. j < cap s \<and> used s j}" i] by (simp add: population_def)
qed

lemma free_then_alloc: "inv s \<Longrightarrow> i < cap s \<Longrightarrow> used s i \<Longrightarrow> fst (alloc (free i s)) \<noteq> None"
  using free_used [of s i] alloc_fails_iff_full [of "free i s"] by auto

end

text \<open>An intrusive queue: a next pointer in each node, head and tail pointers outside.\<close>

locale linked_queue =
  fixes nxt :: "'s \<Rightarrow> nat \<Rightarrow> ptr"
    and head tail :: "'s \<Rightarrow> ptr"
    and push :: "nat \<Rightarrow> 's \<Rightarrow> 's"
    and pop :: "'s \<Rightarrow> ptr \<times> 's"
  assumes push_head: "head (push t s) = (if tail s = None then Some t else head s)"
    and push_tail: "tail (push t s) = Some t"
    and push_nxt: "nxt (push t s) =
      (case tail s of None \<Rightarrow> (nxt s)(t := None) | Some l \<Rightarrow> (nxt s)(t := None, l := Some t))"
    and pop_empty: "head s = None \<Longrightarrow> pop s = (None, s)"
    and pop_result: "head s = Some t \<Longrightarrow> fst (pop s) = Some t"
    and pop_head: "head s = Some t \<Longrightarrow> head (snd (pop s)) = nxt s t"
    and pop_tail: "head s = Some t \<Longrightarrow>
      tail (snd (pop s)) = (if nxt s t = None then None else tail s)"
    and pop_nxt: "head s = Some t \<Longrightarrow> nxt (snd (pop s)) = (nxt s)(t := None)"
begin

lemma push_queue:
  assumes "queue_list (nxt s) (head s) (tail s) xs" and "t \<notin> set xs"
  shows "queue_list (nxt (push t s)) (head (push t s)) (tail (push t s)) (xs @ [t])"
proof (cases "xs = []")
  case True
  with assms show ?thesis
    by (simp add: queue_list_def push_head push_tail push_nxt)
next
  case False
  with assms have "tail s = Some (last xs)" and "chain (nxt s) (head s) xs" and "distinct xs"
    by (auto simp: queue_list_def)
  with False assms(2) show ?thesis
    by (simp add: queue_list_def push_head push_tail push_nxt chain_append_one)
qed

lemma pop_queue:
  assumes "queue_list (nxt s) (head s) (tail s) (x # xs)"
  shows "fst (pop s) = Some x \<and>
    queue_list (nxt (snd (pop s))) (head (snd (pop s))) (tail (snd (pop s))) xs"
proof -
  from assms have h: "head s = Some x" and c: "chain (nxt s) (nxt s x) xs"
    and d: "distinct xs" "x \<notin> set xs" and t: "tail s = Some (last (x # xs))"
    by (auto simp: queue_list_def)
  have "nxt s x = None \<longleftrightarrow> xs = []"
    using c by (cases xs) auto
  with h c d t show ?thesis
    by (simp add: queue_list_def pop_result pop_head pop_tail pop_nxt)
qed

lemma pop_queue_Nil: "queue_list (nxt s) (head s) (tail s) [] \<Longrightarrow> pop s = (None, s)"
  by (simp add: pop_empty)

end

end
