(* ===== verification/NtxText.thy ===== *)
theory NtxText
  imports NtxPrelude
begin

text \<open>
  The text helpers that every component carries its own copy of: the hexadecimal formatter
  (\<^verbatim>\<open>ObpHex64\<close>, \<^verbatim>\<open>MmpHex64\<close>, ...), the line writer on a fixed stack buffer
  (\<^verbatim>\<open>ObpWriteHexLine\<close>, ...), the bounded string copies \<^verbatim>\<open>ObpCopyName\<close> and
  \<^verbatim>\<open>IopCopyString\<close>, the comparisons \<^verbatim>\<open>IopStringEquals\<close> and \<^verbatim>\<open>KipStartsWith\<close>, and
  the hexadecimal parser \<^verbatim>\<open>KipParseHex64\<close> of the debug shell.  A store outside a stack buffer
  is the value \<open>None\<close>.
\<close>

section \<open>Definitions\<close>

subsection \<open>Formatting\<close>

definition hex_digits :: string where
  "hex_digits = ''0123456789ABCDEF''"

definition ObpHex64 :: "u64 \<Rightarrow> string" where
  "ObpHex64 Value =
     map (\<lambda>i. hex_digits ! unat (drop_bit ((15 - i) * 4) Value AND 0xF)) [0..<16]"

text \<open>A store \<^verbatim>\<open>Buffer[Pos++] = Ch\<close> into a stack buffer of \<open>n\<close> bytes.\<close>

type_synonym line_buffer = "char list"

definition put_char :: "nat \<Rightarrow> char \<Rightarrow> line_buffer \<Rightarrow> line_buffer option" where
  "put_char n ch buf = (if length buf < n then Some (buf @ [ch]) else None)"

text \<open>
  The loop \<^verbatim>\<open>while (Prefix[i] != 0 && Pos + 1u < sizeof(Buffer)) Buffer[Pos++] = Prefix[i++];\<close>
  and the loop over the sixteen digits have the same shape.
\<close>

fun put_guarded :: "nat \<Rightarrow> string \<Rightarrow> line_buffer \<Rightarrow> line_buffer option" where
  "put_guarded n [] buf = Some buf"
| "put_guarded n (ch # src) buf =
     (if length buf + 1 < n then put_char n ch buf \<bind> put_guarded n src else Some buf)"

definition ObpWriteHexLine :: "nat \<Rightarrow> string \<Rightarrow> u64 \<Rightarrow> string option" where
  "ObpWriteHexLine size_of_Buffer Prefix Value = do {
     b1 \<leftarrow> put_guarded size_of_Buffer (c_str Prefix) [];
     b2 \<leftarrow> put_char size_of_Buffer (CHR ''0'') b1;
     b3 \<leftarrow> put_char size_of_Buffer (CHR ''x'') b2;
     b4 \<leftarrow> put_guarded size_of_Buffer (ObpHex64 Value) b3;
     b5 \<leftarrow> put_char size_of_Buffer (CHR 0x0A) b4;
     b6 \<leftarrow> put_char size_of_Buffer NUL b5;
     Some (c_str b6) }"

subsection \<open>Bounded copies and comparisons\<close>

fun ObpCopyName_loop :: "nat \<Rightarrow> nat \<Rightarrow> char list \<Rightarrow> string \<Rightarrow> char list" where
  "ObpCopyName_loop Index 0 Destination Source = Destination[Index := NUL]"
| "ObpCopyName_loop Index (Suc k) Destination Source =
     (let Ch = c_char Source Index; Destination' = Destination[Index := Ch] in
      if Ch = NUL then Destination' else ObpCopyName_loop (Suc Index) k Destination' Source)"

definition ObpCopyName ::
    "char list option \<Rightarrow> u32 \<Rightarrow> string option \<Rightarrow> KSTATUS + char list" where
  "ObpCopyName Destination DestinationBytes Source =
     (case (Destination, Source) of
        (Some d, Some src) \<Rightarrow>
          if DestinationBytes < 1 then Inl KSTATUS_INVALID_PARAMETER
          else Inr (ObpCopyName_loop 0 (unat (DestinationBytes - 1)) d src)
      | _ \<Rightarrow> Inl KSTATUS_INVALID_PARAMETER)"

fun IopCopyString_loop :: "nat \<Rightarrow> nat \<Rightarrow> char list \<Rightarrow> string \<Rightarrow> bool \<times> char list" where
  "IopCopyString_loop Index 0 Destination Source = (False, Destination[Index := NUL])"
| "IopCopyString_loop Index (Suc k) Destination Source =
     (let Destination' = Destination[Index := c_char Source Index] in
      if c_char Source Index = NUL then (True, Destination')
      else IopCopyString_loop (Suc Index) k Destination' Source)"

definition IopCopyString ::
    "char list option \<Rightarrow> u32 \<Rightarrow> string option \<Rightarrow> bool \<times> char list option" where
  "IopCopyString Destination DestinationBytes Source =
     (case (Destination, Source) of
        (Some d, Some src) \<Rightarrow>
          if DestinationBytes = 0 then (False, Destination)
          else (case IopCopyString_loop 0 (unat (DestinationBytes - 1)) d src of
                  (r, d') \<Rightarrow> (r, Some d'))
      | _ \<Rightarrow> (False, Destination))"

text \<open>The comparison loop has no bound of its own: it stops at the first difference or NUL.\<close>

function IopStringEquals_loop :: "nat \<Rightarrow> string \<Rightarrow> string \<Rightarrow> bool" where
  "IopStringEquals_loop Index LeftStr RightStr =
     (if c_char LeftStr Index \<noteq> c_char RightStr Index then False
      else if c_char LeftStr Index = NUL then True
      else IopStringEquals_loop (Suc Index) LeftStr RightStr)"
  by pat_completeness auto
termination
  by (relation "measure (\<lambda>(i, l, r). length l - i)") (auto simp: c_char_def split: if_splits)

definition IopStringEquals :: "string option \<Rightarrow> string option \<Rightarrow> bool" where
  "IopStringEquals LeftStr RightStr =
     (case (LeftStr, RightStr) of
        (Some l, Some r) \<Rightarrow> IopStringEquals_loop 0 l r
      | _ \<Rightarrow> False)"

function KipStartsWith_loop :: "nat \<Rightarrow> string \<Rightarrow> string \<Rightarrow> bool" where
  "KipStartsWith_loop Index Txt Prefix =
     (if c_char Prefix Index \<noteq> NUL then
        (if c_char Txt Index \<noteq> c_char Prefix Index then False
         else KipStartsWith_loop (Suc Index) Txt Prefix)
      else True)"
  by pat_completeness auto
termination
  by (relation "measure (\<lambda>(i, t, p). length p - i)") (auto simp: c_char_def split: if_splits)

definition KipStartsWith :: "string \<Rightarrow> string \<Rightarrow> bool" where
  "KipStartsWith Txt Prefix = KipStartsWith_loop 0 Txt Prefix"

subsection \<open>Parsing\<close>

definition hex_nibble :: "char \<Rightarrow> u64 option" where
  "hex_nibble Ch =
     (let c = of_char Ch :: nat in
      if 48 \<le> c \<and> c \<le> 57 then Some (of_nat (c - 48))
      else if 97 \<le> c \<and> c \<le> 102 then Some (of_nat (10 + c - 97))
      else if 65 \<le> c \<and> c \<le> 70 then Some (of_nat (10 + c - 65))
      else None)"

definition hex_stop :: "char \<Rightarrow> bool" where
  "hex_stop Ch \<longleftrightarrow> Ch = NUL \<or> Ch = CHR '' '' \<or> Ch = CHR 0x0A \<or> Ch = CHR 0x0D"

function KipParseHex64_loop :: "nat \<Rightarrow> u32 \<Rightarrow> u64 \<Rightarrow> string \<Rightarrow> (u32 \<times> u64) option" where
  "KipParseHex64_loop Index Digits Value Txt =
     (if \<not> hex_stop (c_char Txt Index) then
        (case hex_nibble (c_char Txt Index) of
           None \<Rightarrow> None
         | Some Nibble \<Rightarrow>
             KipParseHex64_loop (Suc Index) (Digits + 1) (push_bit 4 Value OR Nibble) Txt)
      else Some (Digits, Value))"
  by pat_completeness auto
termination
  by (relation "measure (\<lambda>(i, d, v, t). length t - i)")
    (auto simp: c_char_def hex_stop_def split: if_splits)

definition KipParseHex64 :: "string option \<Rightarrow> outptr \<Rightarrow> u64 option" where
  "KipParseHex64 Txt OutValue =
     (case Txt of
        None \<Rightarrow> None
      | Some t \<Rightarrow>
          if \<not> OutValue then None
          else
            let Index = (if c_char t 0 = CHR ''0'' \<and> (c_char t 1 = CHR ''x'' \<or> c_char t 1 = CHR ''X'')
                         then 2 else 0)
            in case KipParseHex64_loop Index 0 0 t of
                 None \<Rightarrow> None
               | Some (Digits, Value) \<Rightarrow> if Digits = 0 then None else Some Value)"

declare IopStringEquals_loop.simps [simp del]
declare KipStartsWith_loop.simps [simp del]
declare KipParseHex64_loop.simps [simp del]

section \<open>Line writer\<close>

lemma put_guarded_fits:
  "length buf + length src < n \<Longrightarrow> put_guarded n src buf = Some (buf @ src)"
  by (induction n src buf rule: put_guarded.induct) (auto simp: put_char_def)

lemma put_guarded_full:
  "length buf < n \<Longrightarrow> n \<le> length buf + length src \<Longrightarrow>
   put_guarded n src buf = Some (buf @ take (n - 1 - length buf) src)"
proof (induction n src buf rule: put_guarded.induct)
  case (2 n ch src buf)
  show ?case
  proof (cases "length buf + 1 < n")
    case True
    with "2.prems" have "put_guarded n src (buf @ [ch]) =
        Some ((buf @ [ch]) @ take (n - 1 - length (buf @ [ch])) src)"
      using "2.IH" [of "buf @ [ch]"] by (simp add: put_char_def)
    moreover have "n - 1 - length buf = Suc (n - 1 - length (buf @ [ch]))"
      using True by simp
    ultimately show ?thesis using True by (simp add: put_char_def)
  next
    case False
    with "2.prems" show ?thesis by simp
  qed
qed simp

lemma length_ObpHex64 [simp]: "length (ObpHex64 v) = 16"
  by (simp add: ObpHex64_def)

lemma nibble_less: "unat (w AND 0xF :: u64) < 16"
proof -
  have "unat (w AND 0xF) \<le> unat (0xF :: u64)"
    by (rule word_and_le1 [THEN word_le_nat_alt [THEN iffD1]])
  then show ?thesis by simp
qed

lemma hex_digit_table:
  "list_all (\<lambda>n. hex_nibble (hex_digits ! n) = Some (of_nat n) \<and> \<not> hex_stop (hex_digits ! n)
      \<and> hex_digits ! n \<noteq> CHR ''x'' \<and> hex_digits ! n \<noteq> CHR ''X'') [0..<16]"
  by code_simp

lemma hex_digit:
  assumes "n < 16"
  shows "hex_nibble (hex_digits ! n) = Some (of_nat n)" and "\<not> hex_stop (hex_digits ! n)"
    and "hex_digits ! n \<noteq> CHR ''x''" and "hex_digits ! n \<noteq> CHR ''X''"
  using hex_digit_table assms by (auto simp: list_all_iff)

lemma ObpHex64_chars: "c \<in> set (ObpHex64 v) \<Longrightarrow> \<exists>n<16. c = hex_digits ! n"
  by (auto simp: ObpHex64_def intro: nibble_less)

lemma NUL_not_in_hex [simp]: "NUL \<notin> set (ObpHex64 v)"
  using ObpHex64_chars hex_digit(2) by (fastforce simp: hex_stop_def)

lemma c_str_append: "NUL \<notin> set xs \<Longrightarrow> c_str (xs @ ys) = xs @ c_str ys"
  by (induction xs) (auto simp: c_str_def)

lemma NUL_not_in_c_str [simp]: "NUL \<notin> set (c_str xs)"
  by (auto simp: c_str_def dest: set_takeWhileD)

lemma c_str_id [simp]: "NUL \<notin> set xs \<Longrightarrow> c_str xs = xs"
  by (induction xs) (auto simp: c_str_def)

lemma c_str_nul [simp]: "c_str (NUL # xs) = []"
  by (simp add: c_str_def)

lemma c_str_Cons: "c \<noteq> NUL \<Longrightarrow> c_str (c # xs) = c # c_str xs"
  by (simp add: c_str_def)

text \<open>
  The writer stays inside its buffer exactly when the prefix leaves room for the two characters
  of the marker, the sixteen digits, the newline and the terminator; then it emits all of them.
\<close>

lemma WriteHexLine_ok:
  assumes "length (c_str Prefix) + 19 < n"
  shows "ObpWriteHexLine n Prefix v = Some (c_str Prefix @ ''0x'' @ ObpHex64 v @ [CHR 0x0A])"
  using assms
  by (simp add: ObpWriteHexLine_def put_guarded_fits put_char_def c_str_append c_str_Cons)

lemma put_guarded_stop: "n \<le> length buf + 1 \<Longrightarrow> put_guarded n src buf = Some buf"
  by (cases src) auto

lemma WriteHexLine_overflow:
  assumes n: "0 < n" and big: "n \<le> length (c_str Prefix) + 19"
  shows "ObpWriteHexLine n Prefix v = None"
proof (cases "length (c_str Prefix) + 2 < n")
  case False
  let ?b = "if length (c_str Prefix) < n then c_str Prefix else take (n - 1) (c_str Prefix)"
  have "put_guarded n (c_str Prefix) [] = Some ?b"
    using n by (simp add: put_guarded_fits put_guarded_full)
  moreover have "n \<le> length ?b + 2 \<and> length ?b < n"
    using False n by auto
  ultimately show ?thesis
    using n by (auto simp: ObpWriteHexLine_def put_char_def put_guarded_stop split: if_splits)
next
  case True
  let ?p = "c_str Prefix @ ''0x''"
  show ?thesis
  proof (cases "length ?p + 16 < n")
    case True
    with big show ?thesis
      by (simp add: ObpWriteHexLine_def put_guarded_fits put_char_def)
  next
    case False
    with True have "put_guarded n (ObpHex64 v) ?p = Some (?p @ take (n - 1 - length ?p) (ObpHex64 v))"
      by (intro put_guarded_full) auto
    with True False show ?thesis
      by (simp add: ObpWriteHexLine_def put_guarded_fits put_char_def)
  qed
qed

section \<open>Parser\<close>

lemma nibble_step: "push_bit 4 (drop_bit (m + 4) v) OR (drop_bit m v AND 0xF) = drop_bit m (v :: u64)"
proof -
  have "(0xF :: u64) = mask 4" by (simp add: mask_eq_exp_minus_1)
  then show ?thesis
    by (simp only: bit_eq_iff bit_or_iff bit_and_iff bit_push_bit_iff bit_drop_bit_eq bit_mask_iff)
      (auto simp: ac_simps)
qed

lemma fold_nibbles:
  "k \<le> 16 \<Longrightarrow>
   foldl (\<lambda>v n. push_bit 4 v OR n) 0 (map (\<lambda>i. drop_bit ((15 - i) * 4) v AND 0xF) [0..<k])
     = drop_bit (64 - 4 * k) (v :: u64)"
proof (induction k)
  case 0
  then show ?case
    by (auto simp: bit_eq_iff bit_drop_bit_eq dest: bit_imp_le_length)
next
  case (Suc k)
  then have "64 - 4 * k = (15 - k) * 4 + 4" and "64 - 4 * Suc k = (15 - k) * 4" by auto
  with Suc nibble_step [of "(15 - k) * 4" v] show ?case by simp
qed

lemma parse_loop_digits:
  assumes "\<forall>n\<in>set ns. n < 16"
  shows "KipParseHex64_loop (length pre) d v (pre @ map ((!) hex_digits) ns) =
    Some (d + of_nat (length ns), foldl (\<lambda>v n. push_bit 4 v OR n) v (map of_nat ns))"
  using assms
proof (induction ns arbitrary: pre d v)
  case Nil
  then show ?case
    by (subst KipParseHex64_loop.simps) (simp add: hex_stop_def)
next
  case (Cons n ns)
  let ?t = "pre @ map ((!) hex_digits) (n # ns)"
  have ch: "c_char ?t (length pre) = hex_digits ! n"
    by (simp add: c_char_def nth_append)
  have "KipParseHex64_loop (length (pre @ [hex_digits ! n])) (d + 1) (push_bit 4 v OR of_nat n)
      ((pre @ [hex_digits ! n]) @ map ((!) hex_digits) ns) =
    Some (d + 1 + of_nat (length ns),
      foldl (\<lambda>v n. push_bit 4 v OR n) (push_bit 4 v OR of_nat n) (map of_nat ns))"
    using Cons.prems by (intro Cons.IH) simp
  with Cons.prems show ?case
    by (subst KipParseHex64_loop.simps) (simp add: ch hex_digit add.commute add.left_commute)
qed

lemma ObpHex64_alt:
  "ObpHex64 v = map ((!) hex_digits) (map (\<lambda>i. unat (drop_bit ((15 - i) * 4) v AND 0xF)) [0..<16])"
  by (simp add: ObpHex64_def)

lemma parse_loop_hex:
  "KipParseHex64_loop (length pre) 0 0 (pre @ ObpHex64 v) = Some (16, v)"
proof -
  let ?ns = "map (\<lambda>i. unat (drop_bit ((15 - i) * 4) v AND 0xF)) [0..<16]"
  have "KipParseHex64_loop (length pre) 0 0 (pre @ map ((!) hex_digits) ?ns) =
      Some (0 + of_nat (length ?ns), foldl (\<lambda>v n. push_bit 4 v OR n) 0 (map of_nat ?ns))"
    by (rule parse_loop_digits) (auto intro: nibble_less)
  moreover have "map of_nat ?ns = map (\<lambda>i. drop_bit ((15 - i) * 4) v AND 0xF) [0..<16]"
    by simp
  ultimately show ?thesis
    using fold_nibbles [of 16 v] by (simp add: ObpHex64_alt comp_def)
qed

lemma ObpHex64_second_not_x: "c_char (ObpHex64 v) 1 \<noteq> CHR ''x'' \<and> c_char (ObpHex64 v) 1 \<noteq> CHR ''X''"
  using hex_digit(3,4) [OF nibble_less] by (simp add: c_char_def ObpHex64_def)

section \<open>Copies and comparisons\<close>

lemma ObpCopyName_loop_length [simp]: "length (ObpCopyName_loop i k d src) = length d"
  by (induction i k d src rule: ObpCopyName_loop.induct) (auto simp: Let_def)

lemma copy_loop_result:
  assumes "NUL \<notin> set src" and "i + k < length d" and "i \<le> length src" and "take i d = take i src"
  shows "c_str (ObpCopyName_loop i k d src) = take (i + k) src"
  using assms
proof (induction i k d src rule: ObpCopyName_loop.induct)
  case (1 i d src)
  then have "d[i := NUL] = take i src @ NUL # drop (Suc i) d"
    by (simp add: upd_conv_take_nth_drop)
  moreover have "NUL \<notin> set (take i src)" using 1 by (meson in_set_takeD)
  ultimately show ?case by (simp add: c_str_append)
next
  case (2 i k d src)
  let ?ch = "c_char src i"
  show ?case
  proof (cases "i < length src")
    case True
    then have ch: "?ch = src ! i" "?ch \<noteq> NUL" using "2.prems"(1) nth_mem by fastforce+
    have "take (Suc i) (d[i := ?ch]) = take (Suc i) src"
      using "2.prems" True ch by (simp add: take_Suc_conv_app_nth)
    with "2.IH" [OF refl refl ch(2)] "2.prems" True ch show ?thesis by simp
  next
    case False
    with "2.prems" have i: "i = length src" "?ch = NUL" by auto
    then have "d[i := NUL] = src @ NUL # drop (Suc i) d"
      using "2.prems" by (simp add: upd_conv_take_nth_drop)
    with i "2.prems" show ?thesis by (simp add: c_str_append)
  qed
qed

lemma iop_copy_same_buffer: "snd (IopCopyString_loop i k d src) = ObpCopyName_loop i k d src"
  by (induction i k d src rule: IopCopyString_loop.induct) (auto simp: Let_def)

lemma iop_copy_fits:
  "NUL \<notin> set src \<Longrightarrow> i \<le> length src \<Longrightarrow> fst (IopCopyString_loop i k d src) \<longleftrightarrow> length src < i + k"
proof (induction i k d src rule: IopCopyString_loop.induct)
  case (2 i k d src)
  show ?case
  proof (cases "i < length src")
    case True
    then have "c_char src i \<noteq> NUL" using "2.prems"(1) nth_mem by fastforce
    with "2.IH" [OF refl this] "2.prems" True show ?thesis by simp
  next
    case False
    with "2.prems" show ?thesis by simp
  qed
qed simp

lemma string_equals_loop:
  assumes "NUL \<notin> set l" "NUL \<notin> set r" "i \<le> length l" "i \<le> length r"
  shows "IopStringEquals_loop i l r \<longleftrightarrow> drop i l = drop i r"
  using assms
proof (induction i l r rule: IopStringEquals_loop.induct)
  case (1 i l r)
  have l: "i < length l \<Longrightarrow> l ! i \<noteq> NUL" and r: "i < length r \<Longrightarrow> r ! i \<noteq> NUL"
    using "1.prems" nth_mem by fastforce+
  consider "i < length l" "i < length r" "l ! i = r ! i" | "i < length l" "i < length r" "l ! i \<noteq> r ! i"
    | "length l = i" "length r = i" | "length l = i" "i < length r" | "i < length l" "length r = i"
    using "1.prems" by force
  then show ?case
  proof cases
    case 1
    with "1.IH" "1.prems" l show ?thesis
      by (simp add: IopStringEquals_loop.simps [of i l r] Cons_nth_drop_Suc [symmetric])
  qed (use l r in \<open>simp_all add: IopStringEquals_loop.simps [of i l r] Cons_nth_drop_Suc [symmetric]\<close>)
qed

lemma starts_with_loop:
  assumes "NUL \<notin> set p" "i \<le> length p"
  shows "KipStartsWith_loop i t p \<longleftrightarrow> (\<forall>j. i \<le> j \<and> j < length p \<longrightarrow> c_char t j = p ! j)"
  using assms
proof (induction i t p rule: KipStartsWith_loop.induct)
  case (1 i t p)
  show ?case
  proof (cases "i < length p")
    case True
    then have ne: "c_char p i \<noteq> NUL" using "1.prems" nth_mem by fastforce
    have split: "(\<forall>j. i \<le> j \<and> j < length p \<longrightarrow> c_char t j = p ! j) \<longleftrightarrow>
        c_char t i = p ! i \<and> (\<forall>j. Suc i \<le> j \<and> j < length p \<longrightarrow> c_char t j = p ! j)"
      using True by (metis Suc_le_eq le_eq_less_or_eq)
    show ?thesis
      using "1.IH" [OF ne] "1.prems" True ne
      by (subst KipStartsWith_loop.simps) (auto simp: split)
  next
    case False
    with "1.prems" show ?thesis by (subst KipStartsWith_loop.simps) auto
  qed
qed

section \<open>Properties\<close>

text \<open>
  The line writer that \<^verbatim>\<open>Ob\<close>, \<^verbatim>\<open>Mm\<close>, \<^verbatim>\<open>Ps\<close>, \<^verbatim>\<open>Io\<close>, \<^verbatim>\<open>Lpc\<close>, \<^verbatim>\<open>Nk\<close>,
  \<^verbatim>\<open>Ex\<close> and the HAL share writes prefix, \<^verbatim>\<open>0x\<close>, sixteen digits and a newline when the prefix
  has at most \<open>n - 20\<close> characters, and stores outside its \<open>n\<close>-byte stack buffer for every longer
  prefix: the guards \<^verbatim>\<open>Pos + 1u < sizeof(Buffer)\<close> do not cover the stores after the loops.
\<close>

theorem ObpWriteHexLine_bounds:
  "ObpWriteHexLine n Prefix Value =
     (if length (c_str Prefix) + 19 < n
      then Some (c_str Prefix @ ''0x'' @ ObpHex64 Value @ [CHR 0x0A]) else None)"
proof (cases "n = 0")
  case True
  then show ?thesis by (simp add: ObpWriteHexLine_def put_guarded_stop put_char_def)
next
  case False
  then show ?thesis using WriteHexLine_ok WriteHexLine_overflow by simp
qed

text \<open>
  The debug shell's parser reads back every number the kernel's formatter prints, with and
  without the \<^verbatim>\<open>0x\<close> marker, at full 64-bit width.
\<close>

theorem KipParseHex64_ObpHex64:
  "KipParseHex64 (Some (ObpHex64 v)) True = Some v \<and>
   KipParseHex64 (Some (''0x'' @ ObpHex64 v)) True = Some v"
proof
  have prefixed: "KipParseHex64_loop 2 0 0 (''0x'' @ ObpHex64 v) = Some (16, v)"
    using parse_loop_hex [of "''0x''" v] by (simp add: numeral_2_eq_2)
  show "KipParseHex64 (Some (ObpHex64 v)) True = Some v"
    using ObpHex64_second_not_x [of v] parse_loop_hex [of "[]" v]
    by (simp add: KipParseHex64_def)
  show "KipParseHex64 (Some (''0x'' @ ObpHex64 v)) True = Some v"
    using prefixed by (simp add: KipParseHex64_def)
qed

text \<open>
  The path comparison of the file table decides equality of C strings, and the bounded copy
  reports success exactly when the whole string and its terminator fit, in which case the
  copy compares equal to the original.
\<close>

theorem IopCopyString_IopStringEquals:
  assumes "NUL \<notin> set src" and "length d = n" and "0 < n" and "n < 2 ^ 32"
  shows "\<exists>ok d'. IopCopyString (Some d) (of_nat n) (Some src) = (ok, Some d') \<and>
     ok = (length src < n - 1) \<and> length d' = n \<and> c_str d' = take (n - 1) src \<and>
     (\<forall>t. NUL \<notin> set t \<longrightarrow> IopStringEquals (Some (c_str d')) (Some t) = (take (n - 1) src = t))"
proof -
  let ?r = "IopCopyString_loop 0 (n - 1) d src"
  have bytes: "(of_nat n :: u32) \<noteq> 0" "unat ((of_nat n :: u32) - 1) = n - 1"
    using assms(3,4) by (auto simp: unat_minus_one unat_of_nat word_of_nat_eq_0_iff nat_dvd_not_less)
  obtain ok d' where r: "?r = (ok, d')" by fastforce
  have d': "d' = ObpCopyName_loop 0 (n - 1) d src"
    using iop_copy_same_buffer [of 0 "n - 1" d src] r by simp
  have str: "c_str d' = take (n - 1) src"
    using copy_loop_result [of src 0 "n - 1" d] assms d' by simp
  have ok: "ok = (length src < n - 1)"
    using iop_copy_fits [of src 0 "n - 1" d] assms(1) r by simp
  have "NUL \<notin> set (take (n - 1) src)" using assms(1) by (meson in_set_takeD)
  then have "\<forall>t. NUL \<notin> set t \<longrightarrow> IopStringEquals (Some (c_str d')) (Some t) = (take (n - 1) src = t)"
    using string_equals_loop [of "take (n - 1) src" _ 0] by (simp add: IopStringEquals_def str)
  with r bytes str ok d' assms(2) show ?thesis by (auto simp: IopCopyString_def)
qed

theorem IopCopyString_IopStringEquals_witness:
  "\<exists>ok d'. IopCopyString (Some (replicate 4 NUL)) (of_nat 4) (Some ''ab'') = (ok, Some d') \<and>
     ok = (length ''ab'' < 4 - 1) \<and> length d' = 4 \<and> c_str d' = take (4 - 1) ''ab'' \<and>
     (\<forall>t. NUL \<notin> set t \<longrightarrow> IopStringEquals (Some (c_str d')) (Some t) = (take (4 - 1) ''ab'' = t))"
  by (rule IopCopyString_IopStringEquals) auto

end
