(* ===== verification/NtxHal.thy ===== *)
theory NtxHal
  imports NtxText
begin

text \<open>
  The boot protocol (\<^verbatim>\<open>boot/include/bootproto.h\<close>) and the part of the HAL that the executive
  calls (\<^verbatim>\<open>hal/inc/hal.h\<close>, \<^verbatim>\<open>hal/aur64/hal_aur64.c\<close>): platform information, the
  registered interrupt routines, the interrupt flag and the kernel stack pointer of the TSS.

  The globals of the kernel are one record per component, each extending the one before
  (\<open>HAL_GLOBALS\<close>, \<open>NK_GLOBALS\<close>, \<open>OB_GLOBALS\<close>, \<open>MM_GLOBALS\<close>, ...), so that an operation
  of a component is a function on every state that has the component's globals.  The fields
  \<open>hw_...\<close> are the machine: control register 3, the interrupt flag, physical memory as
  64-bit cells indexed by their physical address, and the callee-saved register file.
\<close>

section \<open>Boot protocol\<close>

definition BOOTINFO_MAGIC :: u32 where "BOOTINFO_MAGIC = 0x49425441"
definition BOOTINFO_VERSION :: u16 where "BOOTINFO_VERSION = 1"
definition BOOTINFO_FLAG_VALIDATE :: u32 where "BOOTINFO_FLAG_VALIDATE = 0x1"
definition BOOTINFO_FLAG_INIT_IMAGE_PRESENT :: u32 where "BOOTINFO_FLAG_INIT_IMAGE_PRESENT = 0x2"
definition BOOTINFO_FLAG_VERBOSE_BOOT :: u32 where "BOOTINFO_FLAG_VERBOSE_BOOT = 0x4"

record PHYSICAL_MEMORY_RANGE =
  pmr_Base :: u64
  pmr_Length :: u64
  pmr_Type :: u32
  pmr_Attributes :: u32

record BOOT_VIDEO_INFO =
  bv_FrameBufferBase :: u64
  bv_FrameBufferSize :: u32
  bv_Width :: u32
  bv_Height :: u32
  bv_PixelsPerScanLine :: u32
  bv_PixelFormat :: u32

record BOOT_INFO =
  bi_Magic :: u32
  bi_Version :: u16
  bi_Size :: u16
  bi_Flags :: u32
  bi_FirmwareType :: u64
  bi_LoaderBase :: u64
  bi_KernelBase :: u64
  bi_KernelSize :: u64
  bi_KernelEntry :: u64
  bi_InitImageBase :: u64
  bi_InitImageSize :: u64
  bi_MemoryMap :: u64
  bi_MemoryMapEntryCount :: u32
  bi_MemoryMapEntrySize :: u32
  bi_Video :: BOOT_VIDEO_INFO

text \<open>\<^verbatim>\<open>sizeof(BOOT_INFO)\<close> and \<^verbatim>\<open>sizeof(PHYSICAL_MEMORY_RANGE)\<close> under the natural alignment of
  the x86-64 ABI (the two structures are not packed).\<close>

definition sizeof_BOOT_INFO :: u64 where "sizeof_BOOT_INFO = 120"
definition sizeof_PHYSICAL_MEMORY_RANGE :: u64 where "sizeof_PHYSICAL_MEMORY_RANGE = 24"

section \<open>HAL state\<close>

record HAL_PLATFORM_INFO =
  hpi_ProcessorCount :: u32
  hpi_TimerFrequencyHz :: u32
  hpi_PhysicalMemoryTop :: u64

text \<open>The routines the executive registers with the HAL.\<close>

datatype HAL_TIMER_TICK_ROUTINE = PsOnTimerTick_ptr
datatype HAL_PAGE_FAULT_ROUTINE = MmpOnPageFault_ptr

record AUR64_CONTEXT =
  ctx_Rbx :: u64
  ctx_Rbp :: u64
  ctx_R12 :: u64
  ctx_R13 :: u64
  ctx_R14 :: u64
  ctx_R15 :: u64
  ctx_Rsp :: u64
  ctx_Rip :: u64
  ctx_Rflags :: u64

record HAL_GLOBALS =
  gHalBootInfo :: "BOOT_INFO option"
  gHalPlatformInfo :: HAL_PLATFORM_INFO
  gHalTimerTickRoutine :: "HAL_TIMER_TICK_ROUTINE option"
  gHalPageFaultRoutine :: "HAL_PAGE_FAULT_ROUTINE option"
  gAur64Tss_Rsp0 :: u64
  hw_cr3 :: u64
  hw_if :: bool
  hw_mem :: "u64 \<Rightarrow> u64"
  hw_cpu :: AUR64_CONTEXT
  hw_ranges :: "u64 \<Rightarrow> PHYSICAL_MEMORY_RANGE"

text \<open>
  \<open>hw_ranges a\<close> is the memory descriptor that the boot loader left at address \<open>a\<close>; the kernel only
  reads these.
\<close>

subsection \<open>Operations\<close>

fun highest_end :: "(nat \<Rightarrow> PHYSICAL_MEMORY_RANGE) \<Rightarrow> nat \<Rightarrow> u64 \<Rightarrow> nat \<Rightarrow> u64" where
  "highest_end Ranges Index Top 0 = Top"
| "highest_end Ranges Index Top (Suc k) =
     (let End = pmr_Base (Ranges Index) + pmr_Length (Ranges Index) in
      highest_end Ranges (Suc Index) (if End > Top then End else Top) k)"

text \<open>\<^verbatim>\<open>HalInitializePhase0\<close> up to the platform information (lines 451 to 471).\<close>

definition HalInitializePhase0_platform ::
    "BOOT_INFO option \<Rightarrow> 'a HAL_GLOBALS_scheme \<Rightarrow> 'a HAL_GLOBALS_scheme" where
  "HalInitializePhase0_platform BootInfo s =
     (let s1 = s\<lparr>gHalBootInfo := BootInfo,
                 gHalPlatformInfo := \<lparr>hpi_ProcessorCount = 1, hpi_TimerFrequencyHz = 1000000,
                                      hpi_PhysicalMemoryTop = 0\<rparr>\<rparr>
      in case BootInfo of
           None \<Rightarrow> s1
         | Some bi \<Rightarrow>
             if bi_MemoryMap bi \<noteq> 0 \<and> bi_MemoryMapEntryCount bi > 0 then
               let Ranges = (\<lambda>i. hw_ranges s (bi_MemoryMap bi + of_nat i * sizeof_PHYSICAL_MEMORY_RANGE));
                   Top = highest_end Ranges 0 0 (unat (bi_MemoryMapEntryCount bi))
               in s1\<lparr>gHalPlatformInfo := (gHalPlatformInfo s1)\<lparr>hpi_PhysicalMemoryTop := Top\<rparr>\<rparr>
             else s1)"

definition HalQueryPlatformInfo :: "outptr \<Rightarrow> 'a HAL_GLOBALS_scheme \<Rightarrow> HAL_PLATFORM_INFO option" where
  "HalQueryPlatformInfo OutInfo s = (if \<not> OutInfo then None else Some (gHalPlatformInfo s))"

text \<open>\<^verbatim>\<open>HalTriggerSyntheticTimerTick\<close>, with the routine the pointer names as an argument.\<close>

definition HalTriggerSyntheticTimerTick ::
    "(HAL_TIMER_TICK_ROUTINE \<Rightarrow> 'a HAL_GLOBALS_scheme \<Rightarrow> 'a HAL_GLOBALS_scheme) \<Rightarrow>
     'a HAL_GLOBALS_scheme \<Rightarrow> 'a HAL_GLOBALS_scheme" where
  "HalTriggerSyntheticTimerTick call s =
     (case gHalTimerTickRoutine s of Some r \<Rightarrow> call r s | None \<Rightarrow> s)"

text \<open>\<^verbatim>\<open>HalHandlePageFaultTrap\<close>: \<open>None\<close> is the halted machine.\<close>

definition HalHandlePageFaultTrap ::
    "(HAL_PAGE_FAULT_ROUTINE \<Rightarrow> u64 \<Rightarrow> u64 \<Rightarrow> u64 \<Rightarrow> 'a HAL_GLOBALS_scheme \<Rightarrow> 'a HAL_GLOBALS_scheme option) \<Rightarrow>
     u64 \<Rightarrow> u64 \<Rightarrow> u64 \<Rightarrow> 'a HAL_GLOBALS_scheme \<Rightarrow> 'a HAL_GLOBALS_scheme option" where
  "HalHandlePageFaultTrap call FaultAddress ErrorCode InstructionPointer s =
     (case gHalPageFaultRoutine s of
        Some r \<Rightarrow> call r FaultAddress ErrorCode InstructionPointer s
      | None \<Rightarrow> None)"

definition HalRegisterTimerTickRoutine ::
    "HAL_TIMER_TICK_ROUTINE option \<Rightarrow> 'a HAL_GLOBALS_scheme \<Rightarrow> 'a HAL_GLOBALS_scheme" where
  "HalRegisterTimerTickRoutine Routine s = s\<lparr>gHalTimerTickRoutine := Routine\<rparr>"

definition HalRegisterPageFaultRoutine ::
    "HAL_PAGE_FAULT_ROUTINE option \<Rightarrow> 'a HAL_GLOBALS_scheme \<Rightarrow> 'a HAL_GLOBALS_scheme" where
  "HalRegisterPageFaultRoutine Routine s = s\<lparr>gHalPageFaultRoutine := Routine\<rparr>"

definition HalpSetKernelRsp0 :: "u64 \<Rightarrow> 'a HAL_GLOBALS_scheme \<Rightarrow> 'a HAL_GLOBALS_scheme" where
  "HalpSetKernelRsp0 StackTop s = s\<lparr>gAur64Tss_Rsp0 := StackTop\<rparr>"

definition HalSetKernelStackPointer :: "u64 \<Rightarrow> 'a HAL_GLOBALS_scheme \<Rightarrow> 'a HAL_GLOBALS_scheme" where
  "HalSetKernelStackPointer StackTop s = HalpSetKernelRsp0 StackTop s"

definition HalDisableInterrupts :: "'a HAL_GLOBALS_scheme \<Rightarrow> 'a HAL_GLOBALS_scheme" where
  "HalDisableInterrupts s = s\<lparr>hw_if := False\<rparr>"

definition HalEnableInterrupts :: "'a HAL_GLOBALS_scheme \<Rightarrow> 'a HAL_GLOBALS_scheme" where
  "HalEnableInterrupts s = s\<lparr>hw_if := True\<rparr>"

text \<open>The globals as the loader leaves them: zeroed.  The witnesses start from this state.\<close>

definition hal_bss :: HAL_GLOBALS where
  "hal_bss = \<lparr>gHalBootInfo = None,
     gHalPlatformInfo = \<lparr>hpi_ProcessorCount = 0, hpi_TimerFrequencyHz = 0, hpi_PhysicalMemoryTop = 0\<rparr>,
     gHalTimerTickRoutine = None, gHalPageFaultRoutine = None, gAur64Tss_Rsp0 = 0, hw_cr3 = 0, hw_if = False,
     hw_mem = (\<lambda>_. 0), hw_cpu = \<lparr>ctx_Rbx = 0, ctx_Rbp = 0, ctx_R12 = 0, ctx_R13 = 0, ctx_R14 = 0,
       ctx_R15 = 0, ctx_Rsp = 0, ctx_Rip = 0, ctx_Rflags = 0\<rparr>,
     hw_ranges = (\<lambda>_. \<lparr>pmr_Base = 0, pmr_Length = 0, pmr_Type = 0, pmr_Attributes = 0\<rparr>)\<rparr>"

section \<open>The memory top\<close>

lemma highest_end_max:
  "highest_end R i t k = Max (insert t ((\<lambda>j. pmr_Base (R j) + pmr_Length (R j)) ` {i..<i + k}))"
proof (induction k arbitrary: i t)
  case (Suc k)
  let ?e = "\<lambda>j. pmr_Base (R j) + pmr_Length (R j)"
  have set: "{i..<i + Suc k} = insert i {Suc i..<Suc i + k}" by auto
  have "highest_end R i t (Suc k) = Max (insert (max t (?e i)) (?e ` {Suc i..<Suc i + k}))"
    by (auto simp: Suc.IH max_def Let_def)
  also have "\<dots> = Max (insert t (insert (?e i) (?e ` {Suc i..<Suc i + k})))"
    by (cases "{Suc i..<Suc i + k} = {}") (auto simp: Max_insert ac_simps)
  finally show ?case by (simp only: set image_insert)
qed simp

end
