(* ===== verification/NtxNk.thy ===== *)
theory NtxNk
  imports NtxHal
begin

text \<open>
  The nucleus IPC core, \<^verbatim>\<open>kernel/nk/core.c\<close>: message ports as ring buffers of
  \<open>NK_PORT_QUEUE_DEPTH\<close> messages, and service endpoints on top of them.  A port refines a bounded
  queue of messages (\<open>bounded_fifo\<close>).
\<close>

section \<open>Definitions\<close>

definition NK_PORT_QUEUE_DEPTH :: u32 where "NK_PORT_QUEUE_DEPTH = 32"
definition NK_MESSAGE_PAYLOAD_BYTES :: u32 where "NK_MESSAGE_PAYLOAD_BYTES = 64"
definition NK_SERVICE_NAME_MAX :: nat where "NK_SERVICE_NAME_MAX = 31"

record NK_MESSAGE =
  msg_Opcode :: u32
  msg_Length :: u32
  msg_Payload :: "u8 list"

record NK_PORT =
  port_Queue :: "NK_MESSAGE list"
  port_Head :: u32
  port_Tail :: u32
  port_Count :: u32

record NK_SERVICE_ENDPOINT =
  ep_Name :: "char list"
  ep_BaseOpcode :: u32
  ep_Flags :: u32
  ep_Port :: NK_PORT

record NK_GLOBALS = HAL_GLOBALS +
  gNkBootInfo :: "(u64 \<times> BOOT_INFO) option"
  gNkPortCount :: u32
  gNkServiceEndpointCount :: u32

text \<open>\<open>gNkBootInfo\<close> is the pointer the loader passed: its address and what it points at.\<close>

definition NkInitializeCore ::
    "(u64 \<times> BOOT_INFO) option \<Rightarrow> 'a NK_GLOBALS_scheme \<Rightarrow> KSTATUS \<times> 'a NK_GLOBALS_scheme" where
  "NkInitializeCore BootInfo s =
     (case BootInfo of
        None \<Rightarrow> (KSTATUS_INVALID_PARAMETER, s)
      | Some (a, bi) \<Rightarrow>
          if bi_Magic bi \<noteq> BOOTINFO_MAGIC then (KSTATUS_INVALID_PARAMETER, s)
          else (KSTATUS_SUCCESS,
                s\<lparr>gNkBootInfo := BootInfo, gNkPortCount := 0, gNkServiceEndpointCount := 0\<rparr>))"

definition NkGetBootInfo :: "'a NK_GLOBALS_scheme \<Rightarrow> (u64 \<times> BOOT_INFO) option" where
  "NkGetBootInfo s = gNkBootInfo s"

definition NkPortInitialize ::
    "NK_PORT option \<Rightarrow> 'a NK_GLOBALS_scheme \<Rightarrow> (KSTATUS \<times> NK_PORT option) \<times> 'a NK_GLOBALS_scheme"
  where
  "NkPortInitialize Port s =
     (case Port of
        None \<Rightarrow> ((KSTATUS_INVALID_PARAMETER, None), s)
      | Some p \<Rightarrow>
          ((KSTATUS_SUCCESS,
            Some (p\<lparr>port_Queue := map (\<lambda>m. m\<lparr>msg_Opcode := 0, msg_Length := 0\<rparr>) (port_Queue p),
                    port_Head := 0, port_Tail := 0, port_Count := 0\<rparr>)),
           s\<lparr>gNkPortCount := gNkPortCount s + 1\<rparr>))"

definition NkPortSend :: "NK_PORT option \<Rightarrow> NK_MESSAGE option \<Rightarrow> KSTATUS \<times> NK_PORT option" where
  "NkPortSend Port Message =
     (case (Port, Message) of
        (Some p, Some m) \<Rightarrow>
          if msg_Length m > NK_MESSAGE_PAYLOAD_BYTES then (KSTATUS_INVALID_PARAMETER, Port)
          else if port_Count p \<ge> NK_PORT_QUEUE_DEPTH then (KSTATUS_INIT_FAILED, Port)
          else (KSTATUS_SUCCESS,
                Some (p\<lparr>port_Queue := (port_Queue p)[unat (port_Tail p) := m],
                        port_Tail := (port_Tail p + 1) mod NK_PORT_QUEUE_DEPTH,
                        port_Count := port_Count p + 1\<rparr>))
      | _ \<Rightarrow> (KSTATUS_INVALID_PARAMETER, Port))"

definition NkPortReceive ::
    "NK_PORT option \<Rightarrow> outptr \<Rightarrow> (KSTATUS + NK_MESSAGE) \<times> NK_PORT option" where
  "NkPortReceive Port Message =
     (case Port of
        None \<Rightarrow> (Inl KSTATUS_INVALID_PARAMETER, Port)
      | Some p \<Rightarrow>
          if \<not> Message then (Inl KSTATUS_INVALID_PARAMETER, Port)
          else if port_Count p = 0 then (Inl KSTATUS_INIT_FAILED, Port)
          else (Inr (port_Queue p ! unat (port_Head p)),
                Some (p\<lparr>port_Head := (port_Head p + 1) mod NK_PORT_QUEUE_DEPTH,
                        port_Count := port_Count p - 1\<rparr>)))"

text \<open>
  The copy loop of \<^verbatim>\<open>NkServiceEndpointInitialize\<close>: it runs to \<open>NK_SERVICE_NAME_MAX\<close> inclusive
  and the caller overwrites the last character when the loop ran off the end.
\<close>

fun NkCopyServiceName :: "nat \<Rightarrow> nat \<Rightarrow> char list \<Rightarrow> string \<Rightarrow> char list" where
  "NkCopyServiceName Index 0 dst src = dst[NK_SERVICE_NAME_MAX := NUL]"
| "NkCopyServiceName Index (Suc k) dst src =
     (let Ch = c_char src Index; dst' = dst[Index := Ch] in
      if Ch = NUL then dst' else NkCopyServiceName (Suc Index) k dst' src)"

definition NkServiceEndpointInitialize ::
    "NK_SERVICE_ENDPOINT option \<Rightarrow> string option \<Rightarrow> u32 \<Rightarrow> u32 \<Rightarrow> 'a NK_GLOBALS_scheme \<Rightarrow>
     (KSTATUS \<times> NK_SERVICE_ENDPOINT option) \<times> 'a NK_GLOBALS_scheme" where
  "NkServiceEndpointInitialize Endpoint Name BaseOpcode Flags s =
     (case (Endpoint, Name) of
        (Some ep, Some nm) \<Rightarrow>
          if BaseOpcode = 0 then ((KSTATUS_INVALID_PARAMETER, Endpoint), s)
          else
            let ep1 = ep\<lparr>ep_Name := NkCopyServiceName 0 (NK_SERVICE_NAME_MAX + 1) (ep_Name ep) nm,
                         ep_BaseOpcode := BaseOpcode, ep_Flags := Flags\<rparr>
            in (case NkPortInitialize (Some (ep_Port ep1)) s of
                  ((Status, p), s1) \<Rightarrow>
                    let ep2 = (case p of None \<Rightarrow> ep1 | Some p' \<Rightarrow> ep1\<lparr>ep_Port := p'\<rparr>) in
                    if Status \<noteq> KSTATUS_SUCCESS then ((Status, Some ep2), s1)
                    else ((KSTATUS_SUCCESS, Some ep2),
                          s1\<lparr>gNkServiceEndpointCount := gNkServiceEndpointCount s1 + 1\<rparr>))
      | _ \<Rightarrow> ((KSTATUS_INVALID_PARAMETER, Endpoint), s))"

definition NkServiceSend ::
    "NK_SERVICE_ENDPOINT option \<Rightarrow> NK_MESSAGE option \<Rightarrow> KSTATUS \<times> NK_SERVICE_ENDPOINT option" where
  "NkServiceSend Endpoint Message =
     (case (Endpoint, Message) of
        (Some ep, Some m) \<Rightarrow>
          (case NkPortSend (Some (ep_Port ep)) Message of
             (st, p) \<Rightarrow> (st, Some (case p of None \<Rightarrow> ep | Some p' \<Rightarrow> ep\<lparr>ep_Port := p'\<rparr>)))
      | _ \<Rightarrow> (KSTATUS_INVALID_PARAMETER, Endpoint))"

definition NkServiceReceive ::
    "NK_SERVICE_ENDPOINT option \<Rightarrow> outptr \<Rightarrow> (KSTATUS + NK_MESSAGE) \<times> NK_SERVICE_ENDPOINT option"
  where
  "NkServiceReceive Endpoint Message =
     (case Endpoint of
        None \<Rightarrow> (Inl KSTATUS_INVALID_PARAMETER, Endpoint)
      | Some ep \<Rightarrow>
          if \<not> Message then (Inl KSTATUS_INVALID_PARAMETER, Endpoint)
          else (case NkPortReceive (Some (ep_Port ep)) Message of
                  (r, p) \<Rightarrow> (r, Some (case p of None \<Rightarrow> ep | Some p' \<Rightarrow> ep\<lparr>ep_Port := p'\<rparr>))))"

definition nk_bss :: NK_GLOBALS where
  "nk_bss = HAL_GLOBALS.extend hal_bss (NK_GLOBALS.fields None 0 0)"

subsection \<open>Specification\<close>

definition port_wf :: "NK_PORT \<Rightarrow> bool" where
  "port_wf p \<longleftrightarrow> length (port_Queue p) = 32 \<and> unat (port_Head p) < 32 \<and> unat (port_Count p) \<le> 32 \<and>
     unat (port_Tail p) = (unat (port_Head p) + unat (port_Count p)) mod 32"

definition port_contents :: "NK_PORT \<Rightarrow> NK_MESSAGE list" where
  "port_contents p =
     map (\<lambda>k. port_Queue p ! ((unat (port_Head p) + k) mod 32)) [0..<unat (port_Count p)]"

definition msg_valid :: "NK_MESSAGE \<Rightarrow> bool" where
  "msg_valid m \<longleftrightarrow> msg_Length m \<le> NK_MESSAGE_PAYLOAD_BYTES"

definition port_send :: "NK_PORT \<Rightarrow> NK_MESSAGE \<Rightarrow> KSTATUS \<times> NK_PORT" where
  "port_send p m = (case NkPortSend (Some p) (Some m) of (st, q) \<Rightarrow> (st, the q))"

definition port_receive :: "NK_PORT \<Rightarrow> (KSTATUS + NK_MESSAGE) \<times> NK_PORT" where
  "port_receive p = (case NkPortReceive (Some p) True of (r, q) \<Rightarrow> (r, the q))"

text \<open>The abstract queue and the two ways of running a sequence of operations on a queue.\<close>

datatype 'm fifo_op = Fifo_Send 'm | Fifo_Receive

fun fifo_step :: "('m \<Rightarrow> bool) \<Rightarrow> nat \<Rightarrow> 'm fifo_op \<Rightarrow> 'm list \<Rightarrow> (KSTATUS + 'm) \<times> 'm list" where
  "fifo_step valid depth (Fifo_Send m) xs =
     (if \<not> valid m then (Inl KSTATUS_INVALID_PARAMETER, xs)
      else if length xs = depth then (Inl KSTATUS_INIT_FAILED, xs)
      else (Inl KSTATUS_SUCCESS, xs @ [m]))"
| "fifo_step valid depth Fifo_Receive [] = (Inl KSTATUS_INIT_FAILED, [])"
| "fifo_step valid depth Fifo_Receive (m # xs) = (Inr m, xs)"

fun run_ops :: "('op \<Rightarrow> 'q \<Rightarrow> 'r \<times> 'q) \<Rightarrow> 'op list \<Rightarrow> 'q \<Rightarrow> 'r list \<times> 'q" where
  "run_ops stp [] q = ([], q)"
| "run_ops stp (a # as) q =
     (case stp a q of (r, q1) \<Rightarrow> (case run_ops stp as q1 of (rs, q2) \<Rightarrow> (r # rs, q2)))"

abbreviation fifo_run :: "('m \<Rightarrow> bool) \<Rightarrow> nat \<Rightarrow> 'm fifo_op list \<Rightarrow> 'm list \<Rightarrow> (KSTATUS + 'm) list \<times> 'm list"
  where "fifo_run valid depth \<equiv> run_ops (fifo_step valid depth)"

fun queue_step ::
    "('q \<Rightarrow> 'm \<Rightarrow> KSTATUS \<times> 'q) \<Rightarrow> ('q \<Rightarrow> (KSTATUS + 'm) \<times> 'q) \<Rightarrow> 'm fifo_op \<Rightarrow> 'q \<Rightarrow> (KSTATUS + 'm) \<times> 'q"
  where
  "queue_step enq deq (Fifo_Send m) q = (case enq q m of (st, q1) \<Rightarrow> (Inl st, q1))"
| "queue_step enq deq Fifo_Receive q = deq q"

definition port_run :: "NK_MESSAGE fifo_op list \<Rightarrow> NK_PORT \<Rightarrow> (KSTATUS + NK_MESSAGE) list \<times> NK_PORT" where
  "port_run = run_ops (queue_step port_send port_receive)"

section \<open>Bounded queues\<close>

locale bounded_fifo =
  fixes wf :: "'q \<Rightarrow> bool"
    and contents :: "'q \<Rightarrow> 'm list"
    and valid :: "'m \<Rightarrow> bool"
    and depth :: nat
    and enqueue :: "'q \<Rightarrow> 'm \<Rightarrow> KSTATUS \<times> 'q"
    and dequeue :: "'q \<Rightarrow> (KSTATUS + 'm) \<times> 'q"
  assumes bounded: "wf q \<Longrightarrow> length (contents q) \<le> depth"
    and enqueue_ok: "wf q \<Longrightarrow> valid m \<Longrightarrow> length (contents q) < depth \<Longrightarrow>
      fst (enqueue q m) = KSTATUS_SUCCESS \<and> wf (snd (enqueue q m)) \<and>
      contents (snd (enqueue q m)) = contents q @ [m]"
    and enqueue_full: "wf q \<Longrightarrow> valid m \<Longrightarrow> length (contents q) = depth \<Longrightarrow>
      enqueue q m = (KSTATUS_INIT_FAILED, q)"
    and enqueue_invalid: "\<not> valid m \<Longrightarrow> enqueue q m = (KSTATUS_INVALID_PARAMETER, q)"
    and dequeue_ok: "wf q \<Longrightarrow> contents q = m # ms \<Longrightarrow>
      fst (dequeue q) = Inr m \<and> wf (snd (dequeue q)) \<and> contents (snd (dequeue q)) = ms"
    and dequeue_empty: "wf q \<Longrightarrow> contents q = [] \<Longrightarrow> dequeue q = (Inl KSTATUS_INIT_FAILED, q)"
begin

lemma enqueue_wf: "wf q \<Longrightarrow> wf (snd (enqueue q m))"
  by (metis bounded enqueue_full enqueue_invalid enqueue_ok le_neq_implies_less snd_conv)

lemma dequeue_wf: "wf q \<Longrightarrow> wf (snd (dequeue q))"
  by (cases "contents q") (simp_all add: dequeue_empty dequeue_ok)

lemma step_refines:
  assumes "wf q"
  shows "case queue_step enqueue dequeue a q of (r, q1) \<Rightarrow>
    wf q1 \<and> fifo_step valid depth a (contents q) = (r, contents q1)"
proof (cases a)
  case (Fifo_Send m)
  with assms enqueue_ok [of q m] enqueue_full [of q m] enqueue_invalid [of m q] bounded [of q]
  show ?thesis
    by (cases "enqueue q m") (auto simp: le_less)
next
  case Fifo_Receive
  with assms dequeue_ok [of q] dequeue_empty [of q] show ?thesis
    by (cases "contents q"; cases "dequeue q") auto
qed

lemma run_refines:
  assumes "wf q"
  shows "case run_ops (queue_step enqueue dequeue) as q of (rs, q1) \<Rightarrow>
    wf q1 \<and> fifo_run valid depth as (contents q) = (rs, contents q1)"
  using assms
proof (induction as arbitrary: q)
  case (Cons a as)
  obtain r q1 where st: "queue_step enqueue dequeue a q = (r, q1)" by fastforce
  with step_refines [OF Cons.prems, of a] have q1: "wf q1"
    and f: "fifo_step valid depth a (contents q) = (r, contents q1)" by auto
  obtain rs q2 where run: "run_ops (queue_step enqueue dequeue) as q1 = (rs, q2)" by fastforce
  with Cons.IH [OF q1] st f show ?case by simp
qed simp

end

section \<open>Ports are bounded queues\<close>

lemma length_port_contents [simp]: "length (port_contents p) = unat (port_Count p)"
  by (simp add: port_contents_def)

lemma ring_succ:
  fixes x :: u32
  assumes "unat x < 32"
  shows "unat ((x + 1) mod NK_PORT_QUEUE_DEPTH) = Suc (unat x) mod 32"
proof -
  have "unat (x + 1) = Suc (unat x)"
    using assms by (simp add: unat_word_ariths)
  then show ?thesis by (simp add: NK_PORT_QUEUE_DEPTH_def unat_mod_distrib)
qed

lemma ring_count_inc:
  fixes c :: u32
  assumes "unat c < 32"
  shows "unat (c + 1) = Suc (unat c)"
  using assms by (simp add: unat_word_ariths)

lemma ring_count_dec:
  fixes c :: u32
  assumes "c \<noteq> 0"
  shows "Suc (unat (c - 1)) = unat c"
  using assms by (metis Suc_pred' unat_gt_0 unat_minus_one)

lemma port_full_iff: "port_Count p \<ge> NK_PORT_QUEUE_DEPTH \<longleftrightarrow> unat (port_Count p) \<ge> 32"
  by (simp add: NK_PORT_QUEUE_DEPTH_def word_le_nat_alt)

lemma mod32_cancel: "k < c \<Longrightarrow> c < 32 \<Longrightarrow> (h + c) mod 32 \<noteq> (h + k) mod (32::nat)"
  using mod_eq_dvd_iff_nat [of "h + k" "h + c" 32] by (auto dest: dvd_imp_le)

lemma port_send_ok:
  assumes wf: "port_wf p" and v: "msg_valid m" and room: "unat (port_Count p) < 32"
  shows "fst (port_send p m) = KSTATUS_SUCCESS \<and> port_wf (snd (port_send p m)) \<and>
    port_contents (snd (port_send p m)) = port_contents p @ [m]"
proof -
  let ?h = "unat (port_Head p)" and ?c = "unat (port_Count p)"
  from wf have len: "length (port_Queue p) = 32" and t: "unat (port_Tail p) = (?h + ?c) mod 32"
    by (simp_all add: port_wf_def)
  then have tl: "unat (port_Tail p) < 32" by simp
  from v room have s: "port_send p m = (KSTATUS_SUCCESS,
      p\<lparr>port_Queue := (port_Queue p)[unat (port_Tail p) := m],
        port_Tail := (port_Tail p + 1) mod NK_PORT_QUEUE_DEPTH, port_Count := port_Count p + 1\<rparr>)"
    using port_full_iff [of p] by (simp add: port_send_def NkPortSend_def msg_valid_def not_less)
  have "(?h + ?c) mod 32 \<noteq> (?h + k) mod 32" if "k < ?c" for k
    using mod32_cancel [of k ?c ?h] that room by simp
  then have "map (\<lambda>k. (port_Queue p)[unat (port_Tail p) := m] ! ((?h + k) mod 32)) [0..<?c] = port_contents p"
    by (simp add: port_contents_def t)
  moreover have "Suc ((?h + ?c) mod 32) mod 32 = (?h + Suc ?c) mod 32"
    by (simp add: mod_Suc_eq)
  ultimately show ?thesis
    using wf room tl t len
    by (simp add: s port_wf_def port_contents_def ring_succ ring_count_inc)
qed

lemma port_receive_ok:
  assumes wf: "port_wf p" and c: "port_contents p = m # ms"
  shows "fst (port_receive p) = Inr m \<and> port_wf (snd (port_receive p)) \<and>
    port_contents (snd (port_receive p)) = ms"
proof -
  let ?h = "unat (port_Head p)" and ?c = "unat (port_Count p)"
  from c have c0: "?c = Suc (length ms)" by (metis length_Cons length_port_contents)
  then have nz: "port_Count p \<noteq> 0" by auto
  from wf have h: "?h < 32" by (simp add: port_wf_def)
  have r: "port_receive p = (Inr (port_Queue p ! ?h),
      p\<lparr>port_Head := (port_Head p + 1) mod NK_PORT_QUEUE_DEPTH, port_Count := port_Count p - 1\<rparr>)"
    using nz by (simp add: port_receive_def NkPortReceive_def)
  have d: "unat (port_Count p - 1) = length ms"
    using ring_count_dec [OF nz] c0 by simp
  have "m # ms = map (\<lambda>k. port_Queue p ! ((?h + k) mod 32)) (0 # map Suc [0..<length ms])"
    using c by (simp only: port_contents_def c0 map_Suc_upt upt_conv_Cons [OF zero_less_Suc])
  then have m: "m = port_Queue p ! ?h"
    and ms: "ms = map (\<lambda>k. port_Queue p ! ((?h + Suc k) mod 32)) [0..<length ms]"
    using h by (simp_all add: comp_def)
  have "(Suc ?h mod 32 + k) mod 32 = (?h + Suc k) mod 32" for k
    by (simp add: mod_simps)
  then show ?thesis
    using wf h d c0 m ms
    by (simp add: r port_wf_def port_contents_def ring_succ mod_simps)
qed

interpretation nk: bounded_fifo port_wf port_contents msg_valid 32 port_send port_receive
proof
  show "port_wf q \<Longrightarrow> length (port_contents q) \<le> 32" for q
    by (simp add: port_wf_def)
  show "port_wf q \<Longrightarrow> msg_valid m \<Longrightarrow> length (port_contents q) < 32 \<Longrightarrow>
      fst (port_send q m) = KSTATUS_SUCCESS \<and> port_wf (snd (port_send q m)) \<and>
      port_contents (snd (port_send q m)) = port_contents q @ [m]" for q m
    by (simp add: port_send_ok)
  show "port_wf q \<Longrightarrow> msg_valid m \<Longrightarrow> length (port_contents q) = 32 \<Longrightarrow>
      port_send q m = (KSTATUS_INIT_FAILED, q)" for q m
    using port_full_iff [of q] by (simp add: port_send_def NkPortSend_def msg_valid_def)
  show "\<not> msg_valid m \<Longrightarrow> port_send q m = (KSTATUS_INVALID_PARAMETER, q)" for q m
    by (simp add: port_send_def NkPortSend_def msg_valid_def)
  show "port_wf q \<Longrightarrow> port_contents q = m # ms \<Longrightarrow>
      fst (port_receive q) = Inr m \<and> port_wf (snd (port_receive q)) \<and>
      port_contents (snd (port_receive q)) = ms" for q m ms
    by (rule port_receive_ok)
  show "port_receive q = (Inl KSTATUS_INIT_FAILED, q)" if "port_wf q" "port_contents q = []" for q
  proof -
    from that(2) have "unat (port_Count q) = 0" by (metis length_0_conv length_port_contents)
    then have "port_Count q = 0" by (simp add: unat_eq_zero)
    then show ?thesis by (simp add: port_receive_def NkPortReceive_def)
  qed
qed

lemma NkPortInitialize_wf:
  assumes "length (port_Queue p) = 32" and "NkPortInitialize (Some p) s = ((st, Some q), t)"
  shows "st = KSTATUS_SUCCESS \<and> port_wf q \<and> port_contents q = []"
  using assms by (auto simp: NkPortInitialize_def port_wf_def port_contents_def)

text \<open>The name copy, with the invariant that the first \<open>Index\<close> characters are already in place.\<close>

lemma copy_service_name_aux:
  assumes "Index \<le> length src" "NUL \<notin> set src" "length dst = 32" "Index + k = 32"
    "take Index dst = take Index src"
  shows "length (NkCopyServiceName Index k dst src) = 32 \<and>
    c_str (NkCopyServiceName Index k dst src) = take 31 src"
  using assms
proof (induction Index k dst src rule: NkCopyServiceName.induct)
  case (1 Index dst src)
  then have "take 31 dst = take 31 src"
    using arg_cong [of "take Index dst" "take Index src" "take 31"] by (simp add: min_def)
  moreover have "dst[31 := NUL] = take 31 dst @ [NUL]"
    using 1 by (simp add: upd_conv_take_nth_drop)
  moreover have "NUL \<notin> set (take 31 src)" using 1 by (meson in_set_takeD)
  ultimately show ?case using 1 c_str_terminated [of "take 31 src" "[]"]
    by (simp add: NK_SERVICE_NAME_MAX_def)
next
  case (2 Index k dst src)
  show ?case
  proof (cases "Index < length src")
    case True
    with 2 have nz: "src ! Index \<noteq> NUL" by (metis nth_mem)
    moreover have "take (Suc Index) (dst[Index := src ! Index]) = take (Suc Index) src"
      using 2 True by (simp add: take_Suc_conv_app_nth)
    ultimately show ?thesis using 2 True by (simp add: Let_def)
  next
    case False
    with 2 have i: "Index = length src" and t: "take Index dst = src" by auto
    then have "dst[Index := NUL] = src @ NUL # drop (Suc Index) dst"
      using 2 by (simp add: upd_conv_take_nth_drop)
    then show ?thesis using 2 i by (simp add: c_str_terminated Let_def)
  qed
qed

lemma copy_service_name:
  assumes "NUL \<notin> set src" "length dst = 32"
  shows "length (NkCopyServiceName 0 32 dst src) = 32" "c_str (NkCopyServiceName 0 32 dst src) = take 31 src"
  using copy_service_name_aux [of 0 src dst 32] assms by simp_all

section \<open>Properties\<close>

text \<open>C8: a port refines a bounded queue.  For every interleaving of sends and receives, starting
  from any well-formed port, the statuses and messages the ring buffer returns are those of a list
  of at most \<open>NK_PORT_QUEUE_DEPTH\<close> messages, and the port stays well formed: messages come out in
  the order they went in, none is lost, duplicated or invented, and only a full queue refuses.\<close>

theorem NkPort_refines_fifo:
  assumes "port_wf p"
  shows "case port_run ops p of (rs, q) \<Rightarrow>
    port_wf q \<and> fifo_run msg_valid 32 ops (port_contents p) = (rs, port_contents q)"
  using nk.run_refines [OF assms, of ops] unfolding port_run_def by simp

definition empty_port :: NK_PORT where
  "empty_port = \<lparr>port_Queue = replicate 32 \<lparr>msg_Opcode = 0, msg_Length = 0, msg_Payload = replicate 64 0\<rparr>,
     port_Head = 30, port_Tail = 30, port_Count = 0\<rparr>"

lemma empty_port_wf: "port_wf empty_port" "port_contents empty_port = []"
  by (simp_all add: port_wf_def port_contents_def empty_port_def)

theorem NkPort_refines_fifo_witness:
  "let m = (\<lambda>k. \<lparr>msg_Opcode = k, msg_Length = 64, msg_Payload = replicate 64 0\<rparr>) in
   fst (port_run [Fifo_Send (m 1), Fifo_Send (m 2), Fifo_Receive, Fifo_Send (m 3), Fifo_Receive,
                  Fifo_Receive, Fifo_Receive] empty_port)
   = [Inl KSTATUS_SUCCESS, Inl KSTATUS_SUCCESS, Inr (m 1), Inl KSTATUS_SUCCESS, Inr (m 2),
      Inr (m 3), Inl KSTATUS_INIT_FAILED]"
proof -
  let ?m = "\<lambda>k. \<lparr>msg_Opcode = k, msg_Length = 64, msg_Payload = replicate 64 0\<rparr>"
  from NkPort_refines_fifo [OF empty_port_wf(1), of "[Fifo_Send (?m 1), Fifo_Send (?m 2), Fifo_Receive,
      Fifo_Send (?m 3), Fifo_Receive, Fifo_Receive, Fifo_Receive]"]
  show ?thesis
    by (simp add: empty_port_wf msg_valid_def NK_MESSAGE_PAYLOAD_BYTES_def split_beta prod_eq_iff)
qed

text \<open>Every branch of \<^verbatim>\<open>NkPortSend\<close>: an oversized message is refused, a full port
  returns \<open>KSTATUS_INIT_FAILED\<close>, and in both cases the port is untouched; otherwise the message is
  appended to the contents.\<close>

theorem NkPortSend_cases:
  assumes "port_wf p"
  shows "(case NkPortSend (Some p) (Some m) of
      (st, q) \<Rightarrow>
        if msg_Length m > NK_MESSAGE_PAYLOAD_BYTES then st = KSTATUS_INVALID_PARAMETER \<and> q = Some p
        else if length (port_contents p) = 32 then st = KSTATUS_INIT_FAILED \<and> q = Some p
        else st = KSTATUS_SUCCESS \<and> (\<exists>p'. q = Some p' \<and> port_wf p' \<and>
               port_contents p' = port_contents p @ [m]))"
proof -
  have "unat (port_Count p) \<le> 32" using assms by (simp add: port_wf_def)
  with assms port_send_ok [of p m] port_full_iff [of p] show ?thesis
    by (auto simp: NkPortSend_def msg_valid_def port_send_def not_less split: if_splits)
qed

theorem NkPortSend_cases_witness:
  "fst (NkPortSend (Some empty_port) (Some \<lparr>msg_Opcode = 1, msg_Length = 65, msg_Payload = []\<rparr>))
     = KSTATUS_INVALID_PARAMETER"
proof -
  have "port_wf empty_port" by (simp add: port_wf_def empty_port_def)
  from NkPortSend_cases [OF this, of "\<lparr>msg_Opcode = 1, msg_Length = 65, msg_Payload = []\<rparr>"]
  show ?thesis by (simp add: NK_MESSAGE_PAYLOAD_BYTES_def split: prod.splits)
qed

text \<open>Initialising a service endpoint gives it an empty well-formed port, whatever the memory
  held before, and the name asked for, cut to \<open>NK_SERVICE_NAME_MAX\<close> characters; the endpoint
  count grows by one.\<close>

theorem NkServiceEndpointInitialize_ok:
  assumes "length (ep_Name ep) = 32" and "length (port_Queue (ep_Port ep)) = 32"
    and "NUL \<notin> set nm" and "base \<noteq> 0"
  shows "case NkServiceEndpointInitialize (Some ep) (Some nm) base fl s of ((st, r), t) \<Rightarrow>
    st = KSTATUS_SUCCESS \<and> gNkServiceEndpointCount t = gNkServiceEndpointCount s + 1 \<and>
    (\<exists>e. r = Some e \<and> c_str (ep_Name e) = take 31 nm \<and> length (ep_Name e) = 32 \<and> ep_BaseOpcode e = base \<and>
         ep_Flags e = fl \<and> port_wf (ep_Port e) \<and> port_contents (ep_Port e) = [])"
  using assms copy_service_name [of nm "ep_Name ep"]
  by (auto simp: NkServiceEndpointInitialize_def NkPortInitialize_def port_wf_def port_contents_def
      NK_SERVICE_NAME_MAX_def)

theorem NkServiceEndpointInitialize_ok_witness:
  "\<exists>ep. \<forall>s :: NK_GLOBALS. \<exists>e t. NkServiceEndpointInitialize (Some ep) (Some ''sysmgr'') 0x1000 0 s =
      ((KSTATUS_SUCCESS, Some e), t) \<and> c_str (ep_Name e) = ''sysmgr'' \<and> port_contents (ep_Port e) = []"
proof -
  let ?ep = "\<lparr>ep_Name = replicate 32 NUL, ep_BaseOpcode = 0, ep_Flags = 0, ep_Port = empty_port\<rparr>"
  have "length (port_Queue (ep_Port ?ep)) = 32" by (simp add: empty_port_def)
  from NkServiceEndpointInitialize_ok [OF _ this, of "''sysmgr''" "0x1000"]
  show ?thesis by (intro exI [of _ ?ep]) (fastforce split: prod.splits)
qed

end
