(* ===== verification/NtxOb.thy ===== *)
theory NtxOb
  imports NtxNk
begin

text \<open>
  The object manager, \<^verbatim>\<open>kernel/ob/init.c\<close>: the pools of object types and object headers, the
  kernel handle table, reference counts and delete routines.  A pointer to a type or to an object
  header is its index in the pool.  The only handle table of the program is
  \<^verbatim>\<open>gObKernelHandleTable\<close>, so a handle-table pointer is either null or that table.  The flags
  \<^verbatim>\<open>InUse\<close>, \<^verbatim>\<open>gObReady\<close> and so on only ever hold 0 and 1 and are booleans.

  A delete routine is a function pointer stored in the type.  \<open>ObDereferenceObject\<close> takes the
  function that runs the routine a pointer names; the interface \<open>ob_delete_routines\<close> states what the
  object manager needs of it, and the kernel's dispatcher is shown to provide it.
\<close>

section \<open>Definitions\<close>

definition OB_MAX_OBJECTS :: nat where "OB_MAX_OBJECTS = 256"
definition OB_MAX_HANDLES :: nat where "OB_MAX_HANDLES = 512"
definition OB_MAX_TYPE_NAME :: u32 where "OB_MAX_TYPE_NAME = 31"
definition OB_MAX_OBJECT_NAME :: u32 where "OB_MAX_OBJECT_NAME = 31"

definition OB_ACCESS_READ :: u32 where "OB_ACCESS_READ = 0x1"
definition OB_ACCESS_WRITE :: u32 where "OB_ACCESS_WRITE = 0x2"
definition OB_ACCESS_EXECUTE :: u32 where "OB_ACCESS_EXECUTE = 0x4"
definition OB_ACCESS_DUPLICATE :: u32 where "OB_ACCESS_DUPLICATE = 0x8"
definition OB_ACCESS_ALL :: u32 where "OB_ACCESS_ALL = 0xFFFFFFFF"

definition OB_FLAG_WAITABLE :: u32 where "OB_FLAG_WAITABLE = 1"
definition OB_WAIT_STATE_CLEAR :: u32 where "OB_WAIT_STATE_CLEAR = 0"

text \<open>The delete routines the executive registers.\<close>

datatype OB_DELETE_ROUTINE =
    MmpDeleteSectionObject_ptr
  | LpcpDeletePortObject_ptr
  | IopDeleteFileObject_ptr
  | PspProcessDeleteRoutine_ptr
  | PspThreadDeleteRoutine_ptr

record OB_OBJECT_TYPE =
  ty_TypeId :: u32
  ty_Name :: "char list"
  ty_DeleteRoutine :: "OB_DELETE_ROUTINE option"

record OB_OBJECT_HEADER =
  oh_ObjectId :: u64
  oh_Type :: ptr
  oh_RefCount :: u32
  oh_Flags :: u32
  oh_DefaultAccessMask :: u32
  oh_WaitState :: u32
  oh_Name :: "char list"

record OB_HANDLE_TABLE_ENTRY =
  he_HandleValue :: u32
  he_Object :: ptr
  he_GrantedAccess :: u32
  he_InUse :: bool

record OB_HANDLE_TABLE =
  ht_Entries :: "nat \<Rightarrow> OB_HANDLE_TABLE_ENTRY"
  ht_NextHandle :: u32

type_synonym handle_table_ptr = "unit option"

record OB_GLOBALS = NK_GLOBALS +
  gObTypePool :: "nat \<Rightarrow> OB_OBJECT_TYPE"
  gObObjectPool :: "nat \<Rightarrow> OB_OBJECT_HEADER"
  gObTypeInUse :: "nat \<Rightarrow> bool"
  gObObjectInUse :: "nat \<Rightarrow> bool"
  gObKernelHandleTable :: OB_HANDLE_TABLE
  gObNextObjectId :: u64
  gObReady :: bool

abbreviation ob_entry :: "'a OB_GLOBALS_scheme \<Rightarrow> nat \<Rightarrow> OB_HANDLE_TABLE_ENTRY" where
  "ob_entry s i \<equiv> ht_Entries (gObKernelHandleTable s) i"

abbreviation ob_object :: "'a OB_GLOBALS_scheme \<Rightarrow> nat \<Rightarrow> OB_OBJECT_HEADER" where
  "ob_object s o1 \<equiv> gObObjectPool s o1"

text \<open>Stores through a pointer to an entry or to an object header.\<close>

definition set_entry ::
    "nat \<Rightarrow> OB_HANDLE_TABLE_ENTRY \<Rightarrow> 'a OB_GLOBALS_scheme \<Rightarrow> 'a OB_GLOBALS_scheme" where
  "set_entry i e s = s\<lparr>gObKernelHandleTable :=
     (gObKernelHandleTable s)\<lparr>ht_Entries := (ht_Entries (gObKernelHandleTable s))(i := e)\<rparr>\<rparr>"

definition set_object ::
    "nat \<Rightarrow> OB_OBJECT_HEADER \<Rightarrow> 'a OB_GLOBALS_scheme \<Rightarrow> 'a OB_GLOBALS_scheme" where
  "set_object i h s = s\<lparr>gObObjectPool := (gObObjectPool s)(i := h)\<rparr>"

subsection \<open>Operations\<close>

definition ObpZeroHandleTable :: "OB_HANDLE_TABLE \<Rightarrow> OB_HANDLE_TABLE" where
  "ObpZeroHandleTable HandleTable = HandleTable\<lparr>
     ht_Entries := array_fill OB_MAX_HANDLES
       \<lparr>he_HandleValue = 0, he_Object = None, he_GrantedAccess = 0, he_InUse = False\<rparr>
       (ht_Entries HandleTable),
     ht_NextHandle := 4\<rparr>"

definition ObpFindHandleEntry ::
    "handle_table_ptr \<Rightarrow> u32 \<Rightarrow> outptr \<Rightarrow> 'a OB_GLOBALS_scheme \<Rightarrow> KSTATUS + nat" where
  "ObpFindHandleEntry HandleTable HandleValue OutEntry s =
     (if HandleTable = None \<or> \<not> OutEntry then Inl KSTATUS_INVALID_PARAMETER
      else case scan (\<lambda>i. he_InUse (ob_entry s i) \<and> he_HandleValue (ob_entry s i) = HandleValue)
                  0 OB_MAX_HANDLES of
             Some i \<Rightarrow> Inr i
           | None \<Rightarrow> Inl KSTATUS_NOT_FOUND)"

definition ObInitialize :: "'a OB_GLOBALS_scheme \<Rightarrow> KSTATUS \<times> 'a OB_GLOBALS_scheme" where
  "ObInitialize s =
     (if gObReady s then (KSTATUS_ALREADY_INITIALIZED, s)
      else (KSTATUS_SUCCESS,
            s\<lparr>gObTypeInUse := array_fill OB_MAX_OBJECTS False (gObTypeInUse s),
              gObObjectInUse := array_fill OB_MAX_OBJECTS False (gObObjectInUse s),
              gObKernelHandleTable := ObpZeroHandleTable (gObKernelHandleTable s),
              gObNextObjectId := 1,
              gObReady := True\<rparr>))"

definition ObCreateType ::
    "string option \<Rightarrow> OB_DELETE_ROUTINE option \<Rightarrow> outptr \<Rightarrow> 'a OB_GLOBALS_scheme \<Rightarrow>
     (KSTATUS + nat) \<times> 'a OB_GLOBALS_scheme" where
  "ObCreateType Name DeleteRoutine OutType s =
     (if \<not> gObReady s \<or> Name = None \<or> \<not> OutType then (Inl KSTATUS_INVALID_PARAMETER, s)
      else case scan (\<lambda>i. \<not> gObTypeInUse s i) 0 OB_MAX_OBJECTS of
        None \<Rightarrow> (Inl KSTATUS_INIT_FAILED, s)
      | Some Index \<Rightarrow>
          let s1 = s\<lparr>gObTypeInUse := (gObTypeInUse s)(Index := True),
                     gObTypePool := (gObTypePool s)
                       (Index := (gObTypePool s Index)\<lparr>ty_TypeId := of_nat Index + 1\<rparr>)\<rparr>
          in case ObpCopyName (Some (ty_Name (gObTypePool s1 Index))) (OB_MAX_TYPE_NAME + 1) Name of
               Inl Status \<Rightarrow>
                 (Inl Status, s1\<lparr>gObTypeInUse := (gObTypeInUse s1)(Index := False)\<rparr>)
             | Inr nm \<Rightarrow>
                 (Inr Index, s1\<lparr>gObTypePool := (gObTypePool s1)
                    (Index := (gObTypePool s1 Index)\<lparr>ty_Name := nm, ty_DeleteRoutine := DeleteRoutine\<rparr>)\<rparr>))"

definition ObCreateObject ::
    "ptr \<Rightarrow> string option \<Rightarrow> u32 \<Rightarrow> u32 \<Rightarrow> outptr \<Rightarrow> 'a OB_GLOBALS_scheme \<Rightarrow>
     (KSTATUS + nat) \<times> 'a OB_GLOBALS_scheme" where
  "ObCreateObject Type Name DefaultAccessMask Flags OutObject s =
     (if \<not> gObReady s \<or> Type = None \<or> Name = None \<or> \<not> OutObject then (Inl KSTATUS_INVALID_PARAMETER, s)
      else case scan (\<lambda>i. \<not> gObObjectInUse s i) 0 OB_MAX_OBJECTS of
        None \<Rightarrow> (Inl KSTATUS_INIT_FAILED, s)
      | Some Index \<Rightarrow>
          let h = (ob_object s Index)\<lparr>oh_ObjectId := gObNextObjectId s, oh_Type := Type, oh_RefCount := 1,
                     oh_Flags := Flags, oh_DefaultAccessMask := DefaultAccessMask,
                     oh_WaitState := OB_WAIT_STATE_CLEAR\<rparr>;
              s1 = set_object Index h
                     (s\<lparr>gObObjectInUse := (gObObjectInUse s)(Index := True),
                        gObNextObjectId := gObNextObjectId s + 1\<rparr>)
          in case ObpCopyName (Some (oh_Name h)) (OB_MAX_OBJECT_NAME + 1) Name of
               Inl Status \<Rightarrow>
                 (Inl Status, s1\<lparr>gObObjectInUse := (gObObjectInUse s1)(Index := False)\<rparr>)
             | Inr nm \<Rightarrow> (Inr Index, set_object Index (h\<lparr>oh_Name := nm\<rparr>) s1))"

definition ObInsertHandle ::
    "handle_table_ptr \<Rightarrow> ptr \<Rightarrow> u32 \<Rightarrow> outptr \<Rightarrow> 'a OB_GLOBALS_scheme \<Rightarrow>
     (KSTATUS + u32) \<times> 'a OB_GLOBALS_scheme" where
  "ObInsertHandle HandleTable Object GrantedAccess OutHandle s =
     (if \<not> gObReady s \<or> HandleTable = None \<or> \<not> OutHandle then (Inl KSTATUS_INVALID_PARAMETER, s)
      else case Object of
        None \<Rightarrow> (Inl KSTATUS_INVALID_PARAMETER, s)
      | Some obj \<Rightarrow>
          if (GrantedAccess AND oh_DefaultAccessMask (ob_object s obj)) \<noteq> GrantedAccess
          then (Inl KSTATUS_ACCESS_DENIED, s)
          else case scan (\<lambda>i. \<not> he_InUse (ob_entry s i)) 0 OB_MAX_HANDLES of
            None \<Rightarrow> (Inl KSTATUS_INIT_FAILED, s)
          | Some Index \<Rightarrow>
              let ht = gObKernelHandleTable s;
                  e = (ob_entry s Index)\<lparr>he_InUse := True, he_Object := Object,
                        he_GrantedAccess := GrantedAccess, he_HandleValue := ht_NextHandle ht\<rparr>;
                  s1 = (set_entry Index e s);
                  s2 = s1\<lparr>gObKernelHandleTable :=
                          (gObKernelHandleTable s1)\<lparr>ht_NextHandle := ht_NextHandle ht + 4\<rparr>\<rparr>;
                  h = ob_object s2 obj
              in (Inr (he_HandleValue e), set_object obj (h\<lparr>oh_RefCount := oh_RefCount h + 1\<rparr>) s2))"

text \<open>\<open>the (he_Object e)\<close> is the dereference of the entry's object pointer: an entry in use never holds
  a null pointer (part of \<open>ob_inv\<close> below).\<close>

definition ObReferenceObjectByHandle ::
    "handle_table_ptr \<Rightarrow> u32 \<Rightarrow> u32 \<Rightarrow> ptr \<Rightarrow> outptr \<Rightarrow> 'a OB_GLOBALS_scheme \<Rightarrow>
     (KSTATUS + nat) \<times> 'a OB_GLOBALS_scheme" where
  "ObReferenceObjectByHandle HandleTable HandleValue DesiredAccess ExpectedType OutObject s =
     (if \<not> gObReady s \<or> HandleTable = None \<or> \<not> OutObject \<or> HandleValue = 0
      then (Inl KSTATUS_INVALID_PARAMETER, s)
      else case ObpFindHandleEntry HandleTable HandleValue True s of
        Inl Status \<Rightarrow> (Inl Status, s)
      | Inr i \<Rightarrow>
          let e = ob_entry s i; obj = the (he_Object e); h = ob_object s obj in
          if (he_GrantedAccess e AND DesiredAccess) \<noteq> DesiredAccess then (Inl KSTATUS_ACCESS_DENIED, s)
          else if ExpectedType \<noteq> None \<and> oh_Type h \<noteq> ExpectedType then (Inl KSTATUS_NOT_FOUND, s)
          else (Inr obj, set_object obj (h\<lparr>oh_RefCount := oh_RefCount h + 1\<rparr>) s))"

definition ObDereferenceObject ::
    "(OB_DELETE_ROUTINE \<Rightarrow> nat \<Rightarrow> 'a OB_GLOBALS_scheme \<Rightarrow> 'a OB_GLOBALS_scheme) \<Rightarrow> ptr \<Rightarrow>
     'a OB_GLOBALS_scheme \<Rightarrow> KSTATUS \<times> 'a OB_GLOBALS_scheme" where
  "ObDereferenceObject del Object s =
     (case Object of
        None \<Rightarrow> (KSTATUS_INVALID_PARAMETER, s)
      | Some obj \<Rightarrow>
          if \<not> gObReady s \<or> oh_RefCount (ob_object s obj) = 0 then (KSTATUS_INVALID_PARAMETER, s)
          else
            let h = ob_object s obj;
                s1 = set_object obj (h\<lparr>oh_RefCount := oh_RefCount h - 1\<rparr>) s
            in if oh_RefCount (ob_object s1 obj) \<noteq> 0 then (KSTATUS_SUCCESS, s1)
               else
                 let s2 = (case oh_Type (ob_object s1 obj) of
                             None \<Rightarrow> s1
                           | Some ty \<Rightarrow> (case ty_DeleteRoutine (gObTypePool s1 ty) of
                                          None \<Rightarrow> s1
                                        | Some routine \<Rightarrow> del routine obj s1))
                 in case scan (\<lambda>i. i = obj) 0 OB_MAX_OBJECTS of
                      None \<Rightarrow> (KSTATUS_NOT_FOUND, s2)
                    | Some Index \<Rightarrow>
                        (KSTATUS_SUCCESS,
                         set_object obj
                           ((ob_object s2 obj)\<lparr>oh_Type := None, oh_Flags := 0, oh_DefaultAccessMask := 0,
                              oh_WaitState := OB_WAIT_STATE_CLEAR,
                              oh_Name := (oh_Name (ob_object s2 obj))[0 := NUL]\<rparr>)
                           (s2\<lparr>gObObjectInUse := (gObObjectInUse s2)(Index := False)\<rparr>)))"

definition ObCloseHandle ::
    "(OB_DELETE_ROUTINE \<Rightarrow> nat \<Rightarrow> 'a OB_GLOBALS_scheme \<Rightarrow> 'a OB_GLOBALS_scheme) \<Rightarrow>
     handle_table_ptr \<Rightarrow> u32 \<Rightarrow> 'a OB_GLOBALS_scheme \<Rightarrow> KSTATUS \<times> 'a OB_GLOBALS_scheme" where
  "ObCloseHandle del HandleTable HandleValue s =
     (if \<not> gObReady s \<or> HandleTable = None \<or> HandleValue = 0 then (KSTATUS_INVALID_PARAMETER, s)
      else case ObpFindHandleEntry HandleTable HandleValue True s of
        Inl Status \<Rightarrow> (Status, s)
      | Inr i \<Rightarrow>
          (case ObDereferenceObject del (he_Object (ob_entry s i)) s of
             (Status, s1) \<Rightarrow>
               (Status, set_entry i ((ob_entry s1 i)\<lparr>he_InUse := False, he_HandleValue := 0,
                                       he_Object := None, he_GrantedAccess := 0\<rparr>) s1)))"

definition ObGetKernelHandleTable :: "'a OB_GLOBALS_scheme \<Rightarrow> handle_table_ptr" where
  "ObGetKernelHandleTable s = (if \<not> gObReady s then None else Some ())"

subsection \<open>Diagnostics\<close>

text \<open>The dumps return the text they write; \<open>None\<close> is a store outside the line buffer.\<close>

definition ob_line :: "string \<Rightarrow> u64 \<Rightarrow> string option" where
  "ob_line Prefix Value = ObpWriteHexLine 128 Prefix Value"

definition ob_type_name :: "'a OB_GLOBALS_scheme \<Rightarrow> nat \<Rightarrow> string" where
  "ob_type_name s obj =
     (case oh_Type (ob_object s obj) of None \<Rightarrow> ''<null>'' | Some ty \<Rightarrow> c_str (ty_Name (gObTypePool s ty)))"

fun concat_lines :: "(nat \<Rightarrow> string option) \<Rightarrow> nat list \<Rightarrow> string option" where
  "concat_lines f [] = Some []"
| "concat_lines f (i # is) = do { a \<leftarrow> f i; b \<leftarrow> concat_lines f is; Some (a @ b) }"

definition ObDumpObjects :: "'a OB_GLOBALS_scheme \<Rightarrow> string option" where
  "ObDumpObjects s =
     (if \<not> gObReady s then Some []
      else do {
        body \<leftarrow> concat_lines (\<lambda>i.
          if \<not> gObObjectInUse s i then Some []
          else do {
            l1 \<leftarrow> ob_line ''[OBDBG] object.id='' (oh_ObjectId (ob_object s i));
            l2 \<leftarrow> ob_line ''[OBDBG] object.ref='' (ucast (oh_RefCount (ob_object s i)));
            l3 \<leftarrow> ob_line ''[OBDBG] object.flags='' (ucast (oh_Flags (ob_object s i)));
            l4 \<leftarrow> ob_line ''[OBDBG] object.default_access='' (ucast (oh_DefaultAccessMask (ob_object s i)));
            Some (''[OBDBG] object name='' @ c_str (oh_Name (ob_object s i)) @ '' type='' @
                  ob_type_name s i @ [CHR 0x0A] @ l1 @ l2 @ l3 @ l4) }) [0..<OB_MAX_OBJECTS];
        Some (''[OBDBG] objects begin'' @ [CHR 0x0A] @ body @ ''[OBDBG] objects end'' @ [CHR 0x0A]) })"

definition ObDumpHandles :: "'a OB_GLOBALS_scheme \<Rightarrow> string option" where
  "ObDumpHandles s =
     (if \<not> gObReady s then Some []
      else do {
        body \<leftarrow> concat_lines (\<lambda>i.
          if \<not> he_InUse (ob_entry s i) then Some []
          else do {
            l1 \<leftarrow> ob_line ''[OBDBG] handle.value='' (ucast (he_HandleValue (ob_entry s i)));
            l2 \<leftarrow> ob_line ''[OBDBG] handle.granted='' (ucast (he_GrantedAccess (ob_entry s i)));
            l3 \<leftarrow> (case he_Object (ob_entry s i) of
                     None \<Rightarrow> Some []
                   | Some obj \<Rightarrow> do {
                       l \<leftarrow> ob_line ''[OBDBG] handle.object.id='' (oh_ObjectId (ob_object s obj));
                       Some (''[OBDBG] handle.object.name='' @ c_str (oh_Name (ob_object s obj)) @ [CHR 0x0A] @
                             ''[OBDBG] handle.object.type='' @ ob_type_name s obj @ [CHR 0x0A] @ l) });
            Some (l1 @ l2 @ l3) }) [0..<OB_MAX_HANDLES];
        Some (''[OBDBG] handles begin'' @ [CHR 0x0A] @ body @ ''[OBDBG] handles end'' @ [CHR 0x0A]) })"

definition ob_bss :: OB_GLOBALS where
  "ob_bss = NK_GLOBALS.extend nk_bss (OB_GLOBALS.fields
     (\<lambda>_. \<lparr>ty_TypeId = 0, ty_Name = replicate 32 NUL, ty_DeleteRoutine = None\<rparr>)
     (\<lambda>_. \<lparr>oh_ObjectId = 0, oh_Type = None, oh_RefCount = 0, oh_Flags = 0, oh_DefaultAccessMask = 0,
           oh_WaitState = 0, oh_Name = replicate 32 NUL\<rparr>)
     (\<lambda>_. False) (\<lambda>_. False)
     \<lparr>ht_Entries = (\<lambda>_. \<lparr>he_HandleValue = 0, he_Object = None, he_GrantedAccess = 0, he_InUse = False\<rparr>),
      ht_NextHandle = 0\<rparr> 0 False)"

section \<open>The invariant\<close>

text \<open>
  \<open>ext o\<close> counts the references to object \<open>o\<close> that are held outside the handle table: the creator's
  and those taken by \<^verbatim>\<open>ObReferenceObjectByHandle\<close>.
\<close>

definition live_entries :: "'a OB_GLOBALS_scheme \<Rightarrow> nat set" where
  "live_entries s = {i. i < OB_MAX_HANDLES \<and> he_InUse (ob_entry s i)}"

definition handle_count :: "'a OB_GLOBALS_scheme \<Rightarrow> nat \<Rightarrow> nat" where
  "handle_count s obj = card {i \<in> live_entries s. he_Object (ob_entry s i) = Some obj}"

definition handles_inv :: "'a OB_GLOBALS_scheme \<Rightarrow> bool" where
  "handles_inv s \<longleftrightarrow> (\<forall>i\<in>live_entries s. \<exists>obj<OB_MAX_OBJECTS. he_Object (ob_entry s i) = Some obj \<and>
     gObObjectInUse s obj \<and> mask_subset (he_GrantedAccess (ob_entry s i)) (oh_DefaultAccessMask (ob_object s obj)))"

definition refs_inv :: "(nat \<Rightarrow> nat) \<Rightarrow> 'a OB_GLOBALS_scheme \<Rightarrow> bool" where
  "refs_inv ext s \<longleftrightarrow> (\<forall>obj<OB_MAX_OBJECTS.
     if gObObjectInUse s obj
     then unat (oh_RefCount (ob_object s obj)) = handle_count s obj + ext obj \<and> oh_RefCount (ob_object s obj) \<noteq> 0
     else handle_count s obj = 0 \<and> ext obj = 0)"

definition values_inv :: "'a OB_GLOBALS_scheme \<Rightarrow> bool" where
  "values_inv s \<longleftrightarrow> 4 \<le> ht_NextHandle (gObKernelHandleTable s) \<and>
     (\<forall>i\<in>live_entries s. 4 \<le> he_HandleValue (ob_entry s i) \<and>
        he_HandleValue (ob_entry s i) < ht_NextHandle (gObKernelHandleTable s)) \<and>
     inj_on (\<lambda>i. he_HandleValue (ob_entry s i)) (live_entries s)"

definition ob_inv :: "(nat \<Rightarrow> nat) \<Rightarrow> 'a OB_GLOBALS_scheme \<Rightarrow> bool" where
  "ob_inv ext s \<longleftrightarrow> gObReady s \<and> handles_inv s \<and> refs_inv ext s \<and> values_inv s"


text \<open>
  The steps of the object manager's clients.  A client may dereference only an object it holds a
  reference to (\<open>0 < ext o\<close>) and insert only a live object; the guards on the counters say that the
  32-bit reference count and handle counter have not reached their maximum, where they would wrap.
\<close>

type_synonym 'a ob_state = "(nat \<Rightarrow> nat) \<times> 'a OB_GLOBALS_scheme"

inductive ob_step ::
    "(OB_DELETE_ROUTINE \<Rightarrow> nat \<Rightarrow> 'a OB_GLOBALS_scheme \<Rightarrow> 'a OB_GLOBALS_scheme) \<Rightarrow>
     'a ob_state \<Rightarrow> 'a ob_state \<Rightarrow> bool"
  for del where
  create: "ObCreateObject ty nm msk fl True s = (Inr obj, t) \<Longrightarrow> ob_step del (ext, s) (ext(obj := 1), t)"
| insert: "ObInsertHandle (Some ()) (Some obj) acc True s = (Inr v, t) \<Longrightarrow>
    obj < OB_MAX_OBJECTS \<Longrightarrow> gObObjectInUse s obj \<Longrightarrow>
    unat (oh_RefCount (ob_object s obj)) < 2 ^ 32 - 1 \<Longrightarrow>
    unat (ht_NextHandle (gObKernelHandleTable s)) < 2 ^ 32 - 4 \<Longrightarrow> ob_step del (ext, s) (ext, t)"
| reference: "ObReferenceObjectByHandle (Some ()) v acc ty True s = (Inr obj, t) \<Longrightarrow>
    unat (oh_RefCount (ob_object s obj)) < 2 ^ 32 - 1 \<Longrightarrow>
    ob_step del (ext, s) (ext(obj := Suc (ext obj)), t)"
| dereference: "ObDereferenceObject del (Some obj) s = (st, t) \<Longrightarrow> obj < OB_MAX_OBJECTS \<Longrightarrow> 0 < ext obj \<Longrightarrow>
    ob_step del (ext, s) (ext(obj := ext obj - 1), t)"
| close: "ObCloseHandle del (Some ()) v s = (st, t) \<Longrightarrow> ob_step del (ext, s) (ext, t)"

inductive_cases ob_step_cases: "ob_step del (ext, s) (ext', t)"

section \<open>Stores and counts\<close>

lemma set_entry_simps [simp]:
  "ob_entry (set_entry i e s) = (ht_Entries (gObKernelHandleTable s))(i := e)"
  "ht_NextHandle (gObKernelHandleTable (set_entry i e s)) = ht_NextHandle (gObKernelHandleTable s)"
  "gObObjectPool (set_entry i e s) = gObObjectPool s"
  "gObObjectInUse (set_entry i e s) = gObObjectInUse s"
  "gObTypePool (set_entry i e s) = gObTypePool s"
  "gObReady (set_entry i e s) = gObReady s"
  by (simp_all add: set_entry_def fun_eq_iff)

lemma set_object_simps [simp]:
  "gObKernelHandleTable (set_object o1 h s) = gObKernelHandleTable s"
  "gObObjectPool (set_object o1 h s) = (gObObjectPool s)(o1 := h)"
  "gObObjectInUse (set_object o1 h s) = gObObjectInUse s"
  "gObTypePool (set_object o1 h s) = gObTypePool s"
  "gObReady (set_object o1 h s) = gObReady s"
  by (simp_all add: set_object_def)

lemma finite_live [simp]: "finite (live_entries s)"
  by (simp add: live_entries_def)

lemma live_entries_cong:
  "gObKernelHandleTable t = gObKernelHandleTable s \<Longrightarrow> live_entries t = live_entries s"
  by (simp add: live_entries_def)

lemma handle_count_cong:
  "gObKernelHandleTable t = gObKernelHandleTable s \<Longrightarrow> handle_count t = handle_count s"
  by (simp add: handle_count_def live_entries_def fun_eq_iff)

lemma handle_count_pos: "i \<in> live_entries s \<Longrightarrow> he_Object (ob_entry s i) = Some obj \<Longrightarrow> 0 < handle_count s obj"
  by (auto simp: handle_count_def card_gt_0_iff)

text \<open>Filling a free entry and emptying a live one.\<close>

lemma handle_count_insert:
  assumes "i < OB_MAX_HANDLES" "\<not> he_InUse (ob_entry s i)"
    "ht_Entries (gObKernelHandleTable t) = (ht_Entries (gObKernelHandleTable s))(i := e)"
    "he_InUse e" "he_Object e = Some obj"
  shows "live_entries t = insert i (live_entries s)" "i \<notin> live_entries s"
    "handle_count t = (handle_count s)(obj := Suc (handle_count s obj))"
proof -
  show l: "live_entries t = insert i (live_entries s)" and n: "i \<notin> live_entries s"
    using assms by (auto simp: live_entries_def)
  have "{j \<in> live_entries t. he_Object (ob_entry t j) = Some o'} =
      (if o' = obj then insert i {j \<in> live_entries s. he_Object (ob_entry s j) = Some o'}
       else {j \<in> live_entries s. he_Object (ob_entry s j) = Some o'})" for o'
    using assms n by (auto simp: l)
  then show "handle_count t = (handle_count s)(obj := Suc (handle_count s obj))"
    using n by (auto simp: handle_count_def fun_eq_iff)
qed

lemma handle_count_remove:
  assumes "i \<in> live_entries s" "he_Object (ob_entry s i) = Some obj"
    "ht_Entries (gObKernelHandleTable t) = (ht_Entries (gObKernelHandleTable s))(i := e)" "\<not> he_InUse e"
  shows "live_entries t = live_entries s - {i}"
    "handle_count t = (handle_count s)(obj := handle_count s obj - 1)"
proof -
  show l: "live_entries t = live_entries s - {i}"
    using assms by (auto simp: live_entries_def)
  have "{j \<in> live_entries t. he_Object (ob_entry t j) = Some o'} =
      (if o' = obj then {j \<in> live_entries s. he_Object (ob_entry s j) = Some o'} - {i}
       else {j \<in> live_entries s. he_Object (ob_entry s j) = Some o'})" for o'
    using assms by (auto simp: l)
  then show "handle_count t = (handle_count s)(obj := handle_count s obj - 1)"
    using assms(1,2) by (auto simp: handle_count_def fun_eq_iff)
qed

lemma handle_count_bound: "handle_count s obj \<le> OB_MAX_HANDLES"
proof -
  have "handle_count s obj \<le> card {i. i < OB_MAX_HANDLES}"
    unfolding handle_count_def by (rule card_mono) (auto simp: live_entries_def)
  then show ?thesis by simp
qed

lemma unat_inc: "unat (x :: u32) < 2 ^ 32 - 1 \<Longrightarrow> unat (x + 1) = Suc (unat x)"
  by (simp add: unat_word_ariths)

section \<open>What each operation does\<close>

lemma ObpFindHandleEntry_Inr:
  assumes "ObpFindHandleEntry ht v out s = Inr i"
  shows "i \<in> live_entries s \<and> he_HandleValue (ob_entry s i) = v"
  using assms scan0_SomeD
  by (fastforce simp: ObpFindHandleEntry_def live_entries_def split: if_splits option.splits)

lemma ObpFindHandleEntry_live:
  assumes "values_inv s" "i \<in> live_entries s"
  shows "ObpFindHandleEntry (Some ()) (he_HandleValue (ob_entry s i)) True s = Inr i"
proof -
  have "scan (\<lambda>j. he_InUse (ob_entry s j) \<and> he_HandleValue (ob_entry s j) = he_HandleValue (ob_entry s i))
      0 OB_MAX_HANDLES = Some i"
  proof (rule scan_first)
    show "\<not> (he_InUse (ob_entry s m) \<and> he_HandleValue (ob_entry s m) = he_HandleValue (ob_entry s i))"
      if "m < i" for m
    proof
      assume m: "he_InUse (ob_entry s m) \<and> he_HandleValue (ob_entry s m) = he_HandleValue (ob_entry s i)"
      with assms(2) that have "m \<in> live_entries s" by (simp add: live_entries_def)
      with assms m have "m = i" unfolding values_inv_def by (metis (mono_tags, lifting) inj_onD)
      with that show False by simp
    qed
  qed (use assms in \<open>auto simp: live_entries_def\<close>)
  then show ?thesis by (simp add: ObpFindHandleEntry_def)
qed

lemma ObpFindHandleEntry_Inl:
  "ObpFindHandleEntry (Some ()) v True s = Inl st \<longleftrightarrow>
   st = KSTATUS_NOT_FOUND \<and> (\<forall>i\<in>live_entries s. he_HandleValue (ob_entry s i) \<noteq> v)"
  by (auto simp: ObpFindHandleEntry_def live_entries_def scan_None_iff split: option.splits dest: scan0_SomeD)

lemma ObInsertHandle_Inr:
  assumes "ObInsertHandle ht (Some obj) acc out s = (Inr v, t)"
  obtains i where "gObReady s" "i < OB_MAX_HANDLES" "\<not> he_InUse (ob_entry s i)"
    "v = ht_NextHandle (gObKernelHandleTable s)"
    "mask_subset acc (oh_DefaultAccessMask (ob_object s obj))"
    "ht_Entries (gObKernelHandleTable t) = (ht_Entries (gObKernelHandleTable s))
       (i := \<lparr>he_HandleValue = v, he_Object = Some obj, he_GrantedAccess = acc, he_InUse = True\<rparr>)"
    "ht_NextHandle (gObKernelHandleTable t) = v + 4"
    "gObObjectPool t = (gObObjectPool s)(obj := (ob_object s obj)\<lparr>oh_RefCount := oh_RefCount (ob_object s obj) + 1\<rparr>)"
    "gObObjectInUse t = gObObjectInUse s" "gObReady t" "gObTypePool t = gObTypePool s"
proof -
  from assms obtain i where i: "scan (\<lambda>i. \<not> he_InUse (ob_entry s i)) 0 OB_MAX_HANDLES = Some i"
    and "gObReady s" "mask_subset acc (oh_DefaultAccessMask (ob_object s obj))"
    by (auto simp: ObInsertHandle_def mask_subset_def and.commute split: if_splits option.splits)
  moreover from assms i have "v = ht_NextHandle (gObKernelHandleTable s)"
    "ht_Entries (gObKernelHandleTable t) = (ht_Entries (gObKernelHandleTable s))
       (i := \<lparr>he_HandleValue = v, he_Object = Some obj, he_GrantedAccess = acc, he_InUse = True\<rparr>)"
    "ht_NextHandle (gObKernelHandleTable t) = v + 4"
    "gObObjectPool t = (gObObjectPool s)(obj := (ob_object s obj)\<lparr>oh_RefCount := oh_RefCount (ob_object s obj) + 1\<rparr>)"
    "gObObjectInUse t = gObObjectInUse s" "gObReady t" "gObTypePool t = gObTypePool s"
    by (auto simp: ObInsertHandle_def Let_def split: if_splits)
  ultimately show thesis using that [of i] scan0_SomeD [OF i] by blast
qed

lemma ObReferenceObjectByHandle_Inr:
  assumes "ObReferenceObjectByHandle ht v acc ty out s = (Inr obj, t)"
  obtains i where "gObReady s" "i \<in> live_entries s" "he_HandleValue (ob_entry s i) = v"
    "obj = the (he_Object (ob_entry s i))" "mask_subset acc (he_GrantedAccess (ob_entry s i))"
    "ty \<noteq> None \<longrightarrow> oh_Type (ob_object s obj) = ty"
    "t = set_object obj ((ob_object s obj)\<lparr>oh_RefCount := oh_RefCount (ob_object s obj) + 1\<rparr>) s"
  using assms that ObpFindHandleEntry_Inr
  by (fastforce simp: ObReferenceObjectByHandle_def mask_subset_def Let_def split: if_splits sum.splits)

lemma ObCreateObject_Inr:
  assumes "ObCreateObject ty nm msk fl out s = (Inr obj, t)"
  shows "gObReady s \<and> obj < OB_MAX_OBJECTS \<and> \<not> gObObjectInUse s obj \<and> gObReady t \<and>
    gObKernelHandleTable t = gObKernelHandleTable s \<and> gObObjectInUse t = (gObObjectInUse s)(obj := True) \<and>
    (\<forall>o'. o' \<noteq> obj \<longrightarrow> gObObjectPool t o' = gObObjectPool s o') \<and>
    oh_RefCount (gObObjectPool t obj) = 1 \<and> oh_DefaultAccessMask (gObObjectPool t obj) = msk \<and>
    oh_Type (gObObjectPool t obj) = ty \<and> gObTypePool t = gObTypePool s"
  using assms scan0_SomeD
  by (fastforce simp: ObCreateObject_def Let_def split: if_splits option.splits sum.splits)

lemma ObCreateObject_Inl:
  assumes "ObCreateObject ty nm msk fl out s = (Inl st, t)" "OB_MAX_OBJECT_NAME + 1 \<ge> 1"
  shows "t = s"
  using assms
  by (auto simp: ObCreateObject_def Let_def ObpCopyName_def OB_MAX_OBJECT_NAME_def
      split: if_splits option.splits sum.splits)

section \<open>Dropping a reference\<close>

text \<open>
  The effect on the object pool of giving up one reference to \<open>obj\<close>, and the one argument that both
  \<^verbatim>\<open>ObDereferenceObject\<close> and \<^verbatim>\<open>ObCloseHandle\<close> need.
\<close>

definition drops_ref :: "nat \<Rightarrow> 'a OB_GLOBALS_scheme \<Rightarrow> 'a OB_GLOBALS_scheme \<Rightarrow> bool" where
  "drops_ref obj s t \<longleftrightarrow> gObReady t \<and> gObTypePool t = gObTypePool s \<and>
    oh_RefCount (ob_object t obj) = oh_RefCount (ob_object s obj) - 1 \<and>
    (\<forall>o'. o' \<noteq> obj \<longrightarrow> gObObjectPool t o' = gObObjectPool s o') \<and>
    (if oh_RefCount (ob_object s obj) = 1 then gObObjectInUse t = (gObObjectInUse s)(obj := False)
     else gObObjectInUse t = gObObjectInUse s \<and> oh_Type (ob_object t obj) = oh_Type (ob_object s obj) \<and>
          oh_DefaultAccessMask (ob_object t obj) = oh_DefaultAccessMask (ob_object s obj))"

lemma ob_inv_drops_ref:
  assumes inv: "ob_inv ext s" and obj: "obj < OB_MAX_OBJECTS" "gObObjectInUse s obj" and e: "drops_ref obj s t"
    and live: "live_entries t \<subseteq> live_entries s" "\<And>i. i \<in> live_entries t \<Longrightarrow> ob_entry t i = ob_entry s i"
    and next_h: "ht_NextHandle (gObKernelHandleTable t) = ht_NextHandle (gObKernelHandleTable s)"
    and cnt: "Suc (handle_count t obj + ext' obj) = handle_count s obj + ext obj"
    and oth: "\<And>o'. o' \<noteq> obj \<Longrightarrow> handle_count t o' = handle_count s o' \<and> ext' o' = ext o'"
  shows "ob_inv ext' t"
proof -
  from inv obj have r: "unat (oh_RefCount (ob_object s obj)) = handle_count s obj + ext obj"
    "oh_RefCount (ob_object s obj) \<noteq> 0"
    by (auto simp: ob_inv_def refs_inv_def)
  have dec: "unat (oh_RefCount (ob_object t obj)) = handle_count t obj + ext' obj"
    using e r cnt unat_minus_one [of "oh_RefCount (ob_object s obj)"] by (simp add: drops_ref_def)
  have one: "oh_RefCount (ob_object s obj) = 1 \<longleftrightarrow> handle_count t obj + ext' obj = 0"
    using r cnt by (metis Suc_inject One_nat_def unat_1 unsigned_word_eqI)
  have "refs_inv ext' t"
  proof (unfold refs_inv_def, intro allI impI)
    fix o' assume o': "o' < OB_MAX_OBJECTS"
    show "if gObObjectInUse t o' then unat (oh_RefCount (ob_object t o')) = handle_count t o' + ext' o' \<and>
        oh_RefCount (ob_object t o') \<noteq> 0 else handle_count t o' = 0 \<and> ext' o' = 0"
    proof (cases "o' = obj")
      case True
      then show ?thesis using e one dec obj by (auto simp: drops_ref_def unat_eq_zero split: if_splits)
    next
      case False
      with e have "gObObjectInUse t o' = gObObjectInUse s o'" "ob_object t o' = ob_object s o'"
        by (auto simp: drops_ref_def split: if_splits)
      with False show ?thesis using inv o' oth [OF False] by (simp add: ob_inv_def refs_inv_def)
    qed
  qed
  moreover have "handles_inv t"
  proof (unfold handles_inv_def, intro ballI)
    fix i assume i: "i \<in> live_entries t"
    with inv live obtain o' where o': "o' < OB_MAX_OBJECTS" "he_Object (ob_entry t i) = Some o'" "gObObjectInUse s o'"
      "mask_subset (he_GrantedAccess (ob_entry t i)) (oh_DefaultAccessMask (ob_object s o'))"
      by (fastforce simp: ob_inv_def handles_inv_def)
    have "o' = obj \<Longrightarrow> oh_RefCount (ob_object s obj) \<noteq> 1"
      using one handle_count_pos [OF i] o' by auto
    with o' e show "\<exists>o'<OB_MAX_OBJECTS. he_Object (ob_entry t i) = Some o' \<and> gObObjectInUse t o' \<and>
        mask_subset (he_GrantedAccess (ob_entry t i)) (oh_DefaultAccessMask (ob_object t o'))"
      by (cases "o' = obj") (auto simp: drops_ref_def split: if_splits)
  qed
  moreover have "values_inv t"
    using inv live next_h by (auto simp: ob_inv_def values_inv_def inj_on_def subset_eq)
  ultimately show ?thesis
    using e by (simp add: ob_inv_def drops_ref_def)
qed

lemma create_inv:
  assumes inv: "ob_inv ext s" and c: "ObCreateObject ty nm msk fl out s = (Inr obj, t)"
  shows "ob_inv (ext(obj := 1)) t"
proof -
  note e = ObCreateObject_Inr [OF c]
  from e have lc: "live_entries t = live_entries s" "handle_count t = handle_count s"
    by (simp_all add: live_entries_cong [of t s] handle_count_cong [of t s])
  from inv e have z: "handle_count s obj = 0"
    by (auto simp: ob_inv_def refs_inv_def)
  have "refs_inv (ext(obj := 1)) t"
    using inv e lc z by (auto simp: ob_inv_def refs_inv_def)
  moreover have "handles_inv t"
    using inv e lc by (fastforce simp: ob_inv_def handles_inv_def)
  ultimately show ?thesis
    using inv e lc by (auto simp: ob_inv_def values_inv_def)
qed

lemma insert_inv:
  assumes inv: "ob_inv ext s" and obj: "obj < OB_MAX_OBJECTS" "gObObjectInUse s obj"
    and i: "ObInsertHandle ht (Some obj) acc out s = (Inr v, t)"
    and room: "unat (oh_RefCount (ob_object s obj)) < 2 ^ 32 - 1"
      "unat (ht_NextHandle (gObKernelHandleTable s)) < 2 ^ 32 - 4"
  shows "ob_inv ext t"
proof -
  obtain k where k: "k < OB_MAX_HANDLES" "\<not> he_InUse (ob_entry s k)"
    "v = ht_NextHandle (gObKernelHandleTable s)" "mask_subset acc (oh_DefaultAccessMask (ob_object s obj))"
    and tbl: "ht_Entries (gObKernelHandleTable t) = (ht_Entries (gObKernelHandleTable s))
       (k := \<lparr>he_HandleValue = v, he_Object = Some obj, he_GrantedAccess = acc, he_InUse = True\<rparr>)"
    and t: "ht_NextHandle (gObKernelHandleTable t) = v + 4"
    "gObObjectPool t = (gObObjectPool s)(obj := (ob_object s obj)\<lparr>oh_RefCount := oh_RefCount (ob_object s obj) + 1\<rparr>)"
    "gObObjectInUse t = gObObjectInUse s" "gObReady t"
    using ObInsertHandle_Inr [OF i] by metis
  from handle_count_insert [OF k(1,2) tbl]
  have l: "live_entries t = insert k (live_entries s)" "k \<notin> live_entries s"
    and hc: "handle_count t = (handle_count s)(obj := Suc (handle_count s obj))" by auto
  have "handles_inv t"
    using inv obj k tbl t l by (fastforce simp: ob_inv_def handles_inv_def)
  moreover have "refs_inv ext t"
    using inv obj t hc unat_inc [OF room(1)] by (auto simp: ob_inv_def refs_inv_def simp flip: unat_eq_zero)
  moreover have "values_inv t"
  proof -
    have "unat (v + 4) = unat v + 4" using room(2) k(3) by (simp add: unat_word_ariths)
    then have up: "v < v + 4" "4 \<le> v + 4" by (simp_all add: word_less_nat_alt word_le_nat_alt)
    have old: "\<forall>j\<in>live_entries s. 4 \<le> he_HandleValue (ob_entry t j) \<and> he_HandleValue (ob_entry t j) < v"
      using inv l(2) tbl k(3) by (auto simp: ob_inv_def values_inv_def)
    have "4 \<le> v" using inv k(3) by (simp add: ob_inv_def values_inv_def)
    moreover have "inj_on (\<lambda>j. he_HandleValue (ob_entry t j)) (live_entries s)"
      using inv l(2) tbl by (auto simp: ob_inv_def values_inv_def inj_on_def)
    ultimately show ?thesis
      using old up l tbl t by (auto simp: values_inv_def inj_on_insert dest: less_trans)
  qed
  ultimately show ?thesis using t by (simp add: ob_inv_def)
qed

lemma reference_inv:
  assumes inv: "ob_inv ext s" and r: "ObReferenceObjectByHandle ht v acc ty out s = (Inr obj, t)"
    and room: "unat (oh_RefCount (ob_object s obj)) < 2 ^ 32 - 1"
  shows "obj < OB_MAX_OBJECTS \<and> gObObjectInUse s obj \<and> ob_inv (ext(obj := Suc (ext obj))) t"
proof -
  obtain i where i: "i \<in> live_entries s" "obj = the (he_Object (ob_entry s i))"
    and t: "t = set_object obj ((ob_object s obj)\<lparr>oh_RefCount := oh_RefCount (ob_object s obj) + 1\<rparr>) s"
    using ObReferenceObjectByHandle_Inr [OF r] by metis
  from inv i have obj: "obj < OB_MAX_OBJECTS" "gObObjectInUse s obj"
    by (auto simp: ob_inv_def handles_inv_def)
  have lc: "live_entries t = live_entries s" "handle_count t = handle_count s"
    by (simp_all add: t live_entries_cong [of t s] handle_count_cong [of t s] live_entries_def handle_count_def fun_eq_iff)
  have "refs_inv (ext(obj := Suc (ext obj))) t"
    using inv obj lc unat_inc [OF room]
    by (auto simp: ob_inv_def refs_inv_def t simp flip: unat_eq_zero)
  moreover have "handles_inv t"
    using inv lc by (fastforce simp: ob_inv_def handles_inv_def t)
  ultimately show ?thesis
    using inv obj lc by (auto simp: ob_inv_def values_inv_def t)
qed

lemma live_object:
  assumes "ob_inv ext s" "i \<in> live_entries s"
  obtains obj where "obj < OB_MAX_OBJECTS" "he_Object (ob_entry s i) = Some obj" "gObObjectInUse s obj"
    "oh_RefCount (ob_object s obj) \<noteq> 0" "0 < handle_count s obj"
  using assms handle_count_pos by (fastforce simp: ob_inv_def handles_inv_def refs_inv_def)

lemma ObInitialize_inv:
  assumes "\<not> gObReady s"
  shows "ob_inv (\<lambda>_. 0) (snd (ObInitialize s))"
  using assms
  by (auto simp: ObInitialize_def ObpZeroHandleTable_def ob_inv_def handles_inv_def refs_inv_def values_inv_def
      live_entries_def handle_count_def)

section \<open>Delete routines\<close>

text \<open>What the object manager relies on: a delete routine leaves the object manager's own globals
  alone.\<close>

definition ob_part ::
    "'a OB_GLOBALS_scheme \<Rightarrow> (nat \<Rightarrow> OB_OBJECT_TYPE) \<times> (nat \<Rightarrow> OB_OBJECT_HEADER) \<times> (nat \<Rightarrow> bool) \<times>
       (nat \<Rightarrow> bool) \<times> OB_HANDLE_TABLE \<times> u64 \<times> bool" where
  "ob_part s = (gObTypePool s, gObObjectPool s, gObTypeInUse s, gObObjectInUse s, gObKernelHandleTable s,
     gObNextObjectId s, gObReady s)"

locale ob_delete_routines =
  fixes del :: "OB_DELETE_ROUTINE \<Rightarrow> nat \<Rightarrow> 'a OB_GLOBALS_scheme \<Rightarrow> 'a OB_GLOBALS_scheme"
  assumes del_keeps: "ob_part (del r obj s) = ob_part s"
begin

lemma del_simps [simp]:
  "gObObjectPool (del r obj s) = gObObjectPool s" "gObObjectInUse (del r obj s) = gObObjectInUse s"
  "gObKernelHandleTable (del r obj s) = gObKernelHandleTable s" "gObReady (del r obj s) = gObReady s"
  "gObTypePool (del r obj s) = gObTypePool s"
  using del_keeps [of r obj s] by (simp_all add: ob_part_def)

lemma deref_effect:
  assumes "gObReady s" "obj < OB_MAX_OBJECTS" "oh_RefCount (ob_object s obj) \<noteq> 0"
    and "ObDereferenceObject del (Some obj) s = (st, t)"
  shows "st = KSTATUS_SUCCESS \<and> drops_ref obj s t \<and> gObKernelHandleTable t = gObKernelHandleTable s"
proof -
  have "scan (\<lambda>i. i = obj) 0 OB_MAX_OBJECTS = Some obj"
    using assms by (intro scan_first) auto
  with assms show ?thesis
    by (auto simp: ObDereferenceObject_def drops_ref_def Let_def split: option.splits if_splits)
qed

lemma deref_inv:
  assumes inv: "ob_inv ext s" and obj: "obj < OB_MAX_OBJECTS" "0 < ext obj"
    and d: "ObDereferenceObject del (Some obj) s = (st, t)"
  shows "st = KSTATUS_SUCCESS \<and> ob_inv (ext(obj := ext obj - 1)) t"
proof -
  from inv obj have use: "gObObjectInUse s obj"
    by (metis not_less_zero ob_inv_def refs_inv_def)
  with inv obj have "oh_RefCount (ob_object s obj) \<noteq> 0" "gObReady s"
    by (auto simp: ob_inv_def refs_inv_def)
  note e = deref_effect [OF this(2) obj(1) this(1) d]
  from e have c: "live_entries t = live_entries s" "handle_count t = handle_count s"
    by (simp_all add: live_entries_cong [of t s] handle_count_cong [of t s])
  have "ob_inv (ext(obj := ext obj - 1)) t"
    by (rule ob_inv_drops_ref [OF inv obj(1) use]) (use e c obj in auto)
  with e show ?thesis by simp
qed

lemma close_inv:
  assumes inv: "ob_inv ext s" and live: "i \<in> live_entries s"
    and c: "ObCloseHandle del (Some ()) (he_HandleValue (ob_entry s i)) s = (st, t)"
  shows "st = KSTATUS_SUCCESS \<and> ob_inv ext t \<and> live_entries t = live_entries s - {i} \<and>
    drops_ref (the (he_Object (ob_entry s i))) s t \<and> (\<forall>j. j \<noteq> i \<longrightarrow> ob_entry t j = ob_entry s j)"
proof -
  obtain obj where obj: "obj < OB_MAX_OBJECTS" "he_Object (ob_entry s i) = Some obj" "gObObjectInUse s obj"
    "oh_RefCount (ob_object s obj) \<noteq> 0" and pos: "0 < handle_count s obj"
    using live_object [OF inv live] by metis
  from inv live have v: "values_inv s" "gObReady s" "he_HandleValue (ob_entry s i) \<noteq> 0"
    by (auto simp: ob_inv_def values_inv_def word_le_nat_alt)
  obtain st1 s1 where d: "ObDereferenceObject del (Some obj) s = (st1, s1)" by fastforce
  note e = deref_effect [OF v(2) obj(1,4) d]
  from c d e v obj have st: "st = KSTATUS_SUCCESS" and t: "t = set_entry i ((ob_entry s i)\<lparr>he_InUse := False,
      he_HandleValue := 0, he_Object := None, he_GrantedAccess := 0\<rparr>) s1"
    by (auto simp: ObCloseHandle_def ObpFindHandleEntry_live [OF v(1) live])
  have dr: "drops_ref obj s t" using e by (simp add: t drops_ref_def)
  have tbl: "ht_Entries (gObKernelHandleTable t) = (ht_Entries (gObKernelHandleTable s))(i := (ob_entry s i)\<lparr>he_InUse := False,
      he_HandleValue := 0, he_Object := None, he_GrantedAccess := 0\<rparr>)" using e by (simp add: t fun_eq_iff)
  note hc = handle_count_remove [OF live obj(2) tbl]
  have "ob_inv ext t"
    by (rule ob_inv_drops_ref [OF inv obj(1,3) dr]) (use hc pos tbl e t in auto)
  with st dr hc obj tbl show ?thesis by auto
qed

lemma close_inv_any:
  assumes "ob_inv ext s" "ObCloseHandle del (Some ()) v s = (st, t)"
  shows "ob_inv ext t"
proof (cases "v = 0 \<or> (\<forall>i\<in>live_entries s. he_HandleValue (ob_entry s i) \<noteq> v)")
  case True
  with assms ObpFindHandleEntry_Inl [of v s KSTATUS_NOT_FOUND] show ?thesis
    by (auto simp: ObCloseHandle_def ob_inv_def split: if_splits)
next
  case False
  with assms close_inv show ?thesis by blast
qed

lemma step_inv: "ob_step del (ext, s) (ext', t) \<Longrightarrow> ob_inv ext s \<Longrightarrow> ob_inv ext' t"
  by (erule ob_step_cases) (auto intro: create_inv [unfolded One_nat_def] insert_inv dest: reference_inv deref_inv close_inv_any)

lemma reachable_inv:
  assumes "\<not> gObReady s0" and "(ob_step del)\<^sup>*\<^sup>* (\<lambda>_. 0, snd (ObInitialize s0)) (ext, s)"
  shows "ob_inv ext s"
  using assms(2)
proof (induction "(ext, s)" arbitrary: ext s rule: rtranclp_induct)
  case base
  with assms(1) show ?case using ObInitialize_inv by blast
next
  case (step y)
  then show ?case by (metis prod.exhaust step_inv)
qed

text \<open>A handle is gone once it is closed, and closing the last reference frees the object.\<close>

lemma close_then_reference:
  assumes "ob_inv ext s" "i \<in> live_entries s" "v = he_HandleValue (ob_entry s i)"
    "ObCloseHandle del (Some ()) v s = (st, t)"
  shows "ObReferenceObjectByHandle (Some ()) v acc ty True t = (Inl KSTATUS_NOT_FOUND, t)"
proof -
  from close_inv [OF assms(1,2)] assms(3,4) have c: "ob_inv ext t" "live_entries t = live_entries s - {i}"
    "\<forall>j. j \<noteq> i \<longrightarrow> ob_entry t j = ob_entry s j" by auto
  from assms(1,2,3) have "v \<noteq> 0" "inj_on (\<lambda>i. he_HandleValue (ob_entry s i)) (live_entries s)"
    by (auto simp: ob_inv_def values_inv_def word_le_nat_alt)
  then have "\<forall>j\<in>live_entries t. he_HandleValue (ob_entry t j) \<noteq> v"
    using c assms(2,3) by (auto dest: inj_onD)
  with c(1) \<open>v \<noteq> 0\<close> show ?thesis
    using ObpFindHandleEntry_Inl [of v t KSTATUS_NOT_FOUND]
    by (simp add: ObReferenceObjectByHandle_def ob_inv_def)
qed

end

text \<open>A small run: initialise, create one object that allows read and write, insert a read handle.\<close>

definition ob_demo :: OB_GLOBALS where
  "ob_demo = snd (ObCreateObject (Some 0) (Some ''demo'') 3 0 True (snd (ObInitialize ob_bss)))"

definition ob_demo_handle :: OB_GLOBALS where
  "ob_demo_handle = snd (ObInsertHandle (Some ()) (Some 0) 1 True ob_demo)"

lemma ob_bss_ready: "\<not> gObReady ob_bss"
  by (simp add: ob_bss_def nk_bss_def hal_bss_def NK_GLOBALS.defs HAL_GLOBALS.defs OB_GLOBALS.defs)

lemmas ob_demo_eval = ob_bss_def nk_bss_def hal_bss_def NK_GLOBALS.defs HAL_GLOBALS.defs OB_GLOBALS.defs
  ObInitialize_def ObpZeroHandleTable_def ObCreateObject_def ObInsertHandle_def ObpCopyName_def
  OB_MAX_OBJECTS_def OB_MAX_HANDLES_def OB_MAX_OBJECT_NAME_def OB_WAIT_STATE_CLEAR_def set_object_def set_entry_def

lemma ob_demo_create:
  "ObCreateObject (Some 0) (Some ''demo'') 3 0 True (snd (ObInitialize ob_bss)) = (Inr 0, ob_demo)"
  unfolding ob_demo_def by (rule prod_eqI) (simp_all add: ob_demo_eval)

lemma ob_demo_inv: "ob_inv ((\<lambda>_. 0)(0 := 1)) ob_demo"
  by (rule create_inv [OF ObInitialize_inv [OF ob_bss_ready] ob_demo_create])

lemma ob_demo_facts:
  "gObObjectInUse ob_demo 0" "oh_RefCount (ob_object ob_demo 0) = 1" "oh_Type (ob_object ob_demo 0) = Some 0"
  "ht_NextHandle (gObKernelHandleTable ob_demo) = 4" "oh_DefaultAccessMask (ob_object ob_demo 0) = 3"
  by (simp_all add: ob_demo_def ob_demo_eval)

lemma ob_demo_insert: "ObInsertHandle (Some ()) (Some 0) 1 True ob_demo = (Inr 4, ob_demo_handle)"
  unfolding ob_demo_handle_def by (rule prod_eqI) (simp_all add: ob_demo_def ob_demo_eval)

lemma ob_demo_handle_inv: "ob_inv ((\<lambda>_. 0)(0 := 1)) ob_demo_handle"
  by (rule insert_inv [OF ob_demo_inv _ _ ob_demo_insert]) (simp_all add: ob_demo_facts OB_MAX_OBJECTS_def)

section \<open>Properties\<close>

text \<open>C3: the functional behaviour of handle lookup.  In every state of the object manager a lookup by
  handle either fails and changes nothing, or returns the object of the one live entry with that
  value, with no more access than was granted and of the expected type, and takes one reference
  on an object that is still in use.\<close>

theorem ObReferenceObjectByHandle_spec:
  assumes "ob_inv ext s" and "h \<noteq> 0"
  shows "case ObReferenceObjectByHandle (Some ()) h acc ty True s of
      (Inl st, t) \<Rightarrow> t = s \<and>
        ((\<nexists>i. i \<in> live_entries s \<and> he_HandleValue (ob_entry s i) = h) \<and> st = KSTATUS_NOT_FOUND \<or>
         (\<exists>i obj. i \<in> live_entries s \<and> he_HandleValue (ob_entry s i) = h \<and> he_Object (ob_entry s i) = Some obj \<and>
            (\<not> mask_subset acc (he_GrantedAccess (ob_entry s i)) \<and> st = KSTATUS_ACCESS_DENIED \<or>
             ty \<noteq> None \<and> oh_Type (ob_object s obj) \<noteq> ty \<and> st = KSTATUS_NOT_FOUND)))
    | (Inr obj, t) \<Rightarrow>
        (\<exists>i. i \<in> live_entries s \<and> he_HandleValue (ob_entry s i) = h \<and> he_Object (ob_entry s i) = Some obj \<and>
             mask_subset acc (he_GrantedAccess (ob_entry s i)) \<and>
             mask_subset acc (oh_DefaultAccessMask (ob_object s obj))) \<and>
        (ty = None \<or> oh_Type (ob_object s obj) = ty) \<and> gObObjectInUse s obj \<and>
        oh_RefCount (ob_object t obj) = oh_RefCount (ob_object s obj) + 1"
proof (cases "ObpFindHandleEntry (Some ()) h True s")
  case (Inl st)
  with assms ObpFindHandleEntry_Inl [of h s st] show ?thesis
    by (auto simp: ObReferenceObjectByHandle_def ob_inv_def)
next
  case (Inr i)
  from ObpFindHandleEntry_Inr [OF this] have i: "i \<in> live_entries s" "he_HandleValue (ob_entry s i) = h" by auto
  with assms(1) obtain obj where "he_Object (ob_entry s i) = Some obj" "gObObjectInUse s obj"
    "mask_subset (he_GrantedAccess (ob_entry s i)) (oh_DefaultAccessMask (ob_object s obj))"
    by (auto simp: ob_inv_def handles_inv_def)
  with Inr i assms show ?thesis
    by (auto simp: ObReferenceObjectByHandle_def ob_inv_def Let_def mask_subset_def [symmetric] split: if_splits
        intro: mask_subset_trans)
qed

theorem ObReferenceObjectByHandle_spec_witness:
  "fst (ObReferenceObjectByHandle (Some ()) 4 3 None True ob_demo_handle) \<noteq> Inr 0"
proof
  assume a: "fst (ObReferenceObjectByHandle (Some ()) 4 3 None True ob_demo_handle) = Inr 0"
  have e: "ht_Entries (gObKernelHandleTable ob_demo_handle) = (ht_Entries (gObKernelHandleTable ob_demo))
      (0 := \<lparr>he_HandleValue = 4, he_Object = Some 0, he_GrantedAccess = 1, he_InUse = True\<rparr>)"
    "\<forall>i<512. \<not> he_InUse (ob_entry ob_demo i)"
    by (simp_all add: ob_demo_handle_def ob_demo_def ob_demo_eval fun_eq_iff)
  from ObReferenceObjectByHandle_spec [OF ob_demo_handle_inv, of 4 3 None] a
  obtain i where "i \<in> live_entries ob_demo_handle" "mask_subset 3 (he_GrantedAccess (ob_entry ob_demo_handle i))"
    by (auto split: prod.splits sum.splits)
  with e show False by (auto simp: live_entries_def OB_MAX_HANDLES_def mask_subset_def split: if_splits)
qed

text \<open>C4: a handle just inserted resolves to its object, with exactly the access granted, and every
  handle that was valid before still resolves to the same entry.\<close>

theorem ObInsertHandle_lookup:
  assumes "ob_inv ext s" and "obj < OB_MAX_OBJECTS" and "gObObjectInUse s obj"
    and "ObInsertHandle (Some ()) (Some obj) acc True s = (Inr h, t)"
    and "unat (oh_RefCount (ob_object s obj)) < 2 ^ 32 - 1"
    and "unat (ht_NextHandle (gObKernelHandleTable s)) < 2 ^ 32 - 4"
  shows "ob_inv ext t \<and>
    fst (ObReferenceObjectByHandle (Some ()) h want ty True t) =
      (if \<not> mask_subset want acc then Inl KSTATUS_ACCESS_DENIED
       else if ty \<noteq> None \<and> ty \<noteq> oh_Type (ob_object s obj) then Inl KSTATUS_NOT_FOUND else Inr obj) \<and>
    (\<forall>i\<in>live_entries s. ObpFindHandleEntry (Some ()) (he_HandleValue (ob_entry s i)) True t = Inr i)"
proof -
  have inv: "ob_inv ext t" using insert_inv assms by blast
  obtain k where k: "k < OB_MAX_HANDLES" "\<not> he_InUse (ob_entry s k)"
    and tbl: "ht_Entries (gObKernelHandleTable t) = (ht_Entries (gObKernelHandleTable s))
       (k := \<lparr>he_HandleValue = h, he_Object = Some obj, he_GrantedAccess = acc, he_InUse = True\<rparr>)"
    and t: "gObObjectPool t = (gObObjectPool s)
       (obj := (ob_object s obj)\<lparr>oh_RefCount := oh_RefCount (ob_object s obj) + 1\<rparr>)" "gObReady t"
    using ObInsertHandle_Inr [OF assms(4)] by metis
  from handle_count_insert [OF k tbl] have l: "live_entries t = insert k (live_entries s)" "k \<notin> live_entries s"
    by auto
  from inv have v: "values_inv t" by (simp add: ob_inv_def)
  have fnd: "ObpFindHandleEntry (Some ()) h True t = Inr k"
    using ObpFindHandleEntry_live [OF v, of k] l tbl by simp
  have "h \<noteq> 0" using v l tbl by (auto simp: values_inv_def word_le_nat_alt)
  with fnd tbl t have "fst (ObReferenceObjectByHandle (Some ()) h want ty True t) =
      (if \<not> mask_subset want acc then Inl KSTATUS_ACCESS_DENIED
       else if ty \<noteq> None \<and> ty \<noteq> oh_Type (ob_object s obj) then Inl KSTATUS_NOT_FOUND else Inr obj)"
    by (auto simp: ObReferenceObjectByHandle_def mask_subset_def Let_def)
  moreover have "\<forall>i\<in>live_entries s. ObpFindHandleEntry (Some ()) (he_HandleValue (ob_entry s i)) True t = Inr i"
    using ObpFindHandleEntry_live [OF v] l tbl by (metis fun_upd_other insertCI)
  ultimately show ?thesis using inv by blast
qed

theorem ObInsertHandle_lookup_witness:
  "fst (ObReferenceObjectByHandle (Some ()) 4 1 (Some 0) True ob_demo_handle) = Inr 0 \<and>
   fst (ObReferenceObjectByHandle (Some ()) 4 2 (Some 0) True ob_demo_handle) = Inl KSTATUS_ACCESS_DENIED"
  using ObInsertHandle_lookup [OF ob_demo_inv _ _ ob_demo_insert]
  by (simp add: ob_demo_facts OB_MAX_OBJECTS_def mask_subset_def)

text \<open>Handle values are not unique for ever.  The 32-bit counter wraps after \<open>2\<^sup>3\<^sup>0 - 1\<close> insertions,
  and the next handle handed out is 0, a value every handle operation refuses: the entry and its
  reference can never be released through the handle.\<close>

theorem ObInsertHandle_wrap:
  assumes "gObReady s" and "ht_NextHandle (gObKernelHandleTable s) = 0"
    and "mask_subset acc (oh_DefaultAccessMask (ob_object s obj))"
    and "i < OB_MAX_HANDLES" and "\<not> he_InUse (ob_entry s i)"
  shows "\<exists>t. ObInsertHandle (Some ()) (Some obj) acc True s = (Inr 0, t) \<and>
    oh_RefCount (ob_object t obj) = oh_RefCount (ob_object s obj) + 1 \<and>
    ObCloseHandle del (Some ()) 0 t = (KSTATUS_INVALID_PARAMETER, t) \<and>
    ObReferenceObjectByHandle (Some ()) 0 want ty True t = (Inl KSTATUS_INVALID_PARAMETER, t)"
proof -
  obtain k where "scan (\<lambda>i. \<not> he_InUse (ob_entry s i)) 0 OB_MAX_HANDLES = Some k"
    using scan_total [of "\<lambda>i. \<not> he_InUse (ob_entry s i)" OB_MAX_HANDLES] assms(4,5) by auto
  with assms show ?thesis
    by (simp add: ObInsertHandle_def mask_subset_def and.commute ObCloseHandle_def ObReferenceObjectByHandle_def Let_def)
qed

theorem ObInsertHandle_wrap_witness:
  "\<exists>s :: OB_GLOBALS. \<exists>t. ObInsertHandle (Some ()) (Some 0) 0 True s = (Inr 0, t) \<and>
     ObCloseHandle (\<lambda>_ _ s. s) (Some ()) 0 t = (KSTATUS_INVALID_PARAMETER, t)"
proof -
  let ?s = "ob_bss\<lparr>gObReady := True\<rparr>"
  have "ht_NextHandle (gObKernelHandleTable ?s) = 0" "\<not> he_InUse (ob_entry ?s 0)"
    by (simp_all add: ob_demo_eval)
  from ObInsertHandle_wrap [OF _ this(1) _ _ this(2), of 0 0 "\<lambda>_ _ s. s"]
  show ?thesis by (simp add: OB_MAX_HANDLES_def) blast
qed

end
