(* ===== verification/NtxMmPhys.thy ===== *)
theory NtxMmPhys
  imports NtxOb
begin

text \<open>
  The physical memory manager of \<^verbatim>\<open>kernel/mm/init.c\<close>: the page bitmap, the per-page reference
  counts, the page allocator, and the marking of the boot memory map.  The globals and the
  structures of the whole memory manager are declared here.

  The bitmap refines the set of allocated page numbers (\<open>page_alloc\<close>).
\<close>

section \<open>Structures and globals\<close>

definition MM_PAGE_SIZE :: u64 where "MM_PAGE_SIZE = 4096"
definition MM_MAX_TRACKED_PAGES :: nat where "MM_MAX_TRACKED_PAGES = 262144"
definition MM_MAX_ADDRESS_SPACES :: nat where "MM_MAX_ADDRESS_SPACES = 64"
definition MM_MAX_VA_REGIONS :: u32 where "MM_MAX_VA_REGIONS = 128"
definition MM_FAULT_TRACE_DEPTH :: u32 where "MM_FAULT_TRACE_DEPTH = 64"
definition MM_MAX_SECTION_OBJECTS :: nat where "MM_MAX_SECTION_OBJECTS = 64"
definition MM_MAX_SECTION_PAGES :: u32 where "MM_MAX_SECTION_PAGES = 256"
definition MM_BITMAP_WORD_BITS :: u32 where "MM_BITMAP_WORD_BITS = 64"
definition MM_BITMAP_WORD_COUNT :: nat where "MM_BITMAP_WORD_COUNT = 4096"

definition MM_USER_TOP :: u64 where "MM_USER_TOP = 0x0000800000000000"
definition MM_USER_BASE :: u64 where "MM_USER_BASE = 0x0000000040000000"
definition MM_PHYSMAP_BASE :: u64 where "MM_PHYSMAP_BASE = 0xFFFF900000000000"

definition MM_PTE_PRESENT :: u64 where "MM_PTE_PRESENT = 0x001"
definition MM_PTE_WRITABLE :: u64 where "MM_PTE_WRITABLE = 0x002"
definition MM_PTE_USER :: u64 where "MM_PTE_USER = 0x004"
definition MM_PTE_LARGE :: u64 where "MM_PTE_LARGE = 0x080"
definition MM_PTE_SOFT_COW :: u64 where "MM_PTE_SOFT_COW = 0x200"
definition MM_PTE_NX :: u64 where "MM_PTE_NX = push_bit 63 1"
definition MM_PTE_ADDR_MASK :: u64 where "MM_PTE_ADDR_MASK = 0x000FFFFFFFFFF000"

record MM_VA_REGION =
  reg_Base :: u64
  reg_Size :: u64
  reg_Type :: u32
  reg_Protection :: u32
  reg_Flags :: u32
  reg_CommittedPages :: u32
  reg_BackingPhysicalBase :: u64
  reg_BackingObject :: ptr
  reg_BackingOffset :: u64

text \<open>\<^verbatim>\<open>BackingObject\<close> is an object header's address stored as an integer: here the header's index.\<close>

record MM_ADDRESS_SPACE =
  as_AddressSpaceId :: u64
  as_OwnerProcessId :: u64
  as_RootTablePhysical :: u64
  as_NextUserBase :: u64
  as_RegionCount :: u32
  as_Regions :: "nat \<Rightarrow> MM_VA_REGION"

record MM_FAULT_TRACE =
  ft_FaultAddress :: u64
  ft_InstructionPointer :: u64
  ft_ErrorCode :: u64
  ft_ProcessId :: u64
  ft_AddressSpaceId :: u64
  ft_Outcome :: KSTATUS

record MM_SECTION_OBJECT =
  sec_Header :: ptr
  sec_PageCount :: u32
  sec_Pages :: "nat \<Rightarrow> u64"

record MM_GLOBALS = OB_GLOBALS +
  gMmPageBitmap :: "nat \<Rightarrow> u64"
  gMmPageRefCount :: "nat \<Rightarrow> u32"
  gMmTrackedPages :: u32
  gMmNextScanPage :: u32
  gMmReady :: bool
  gMmAddressSpacePool :: "nat \<Rightarrow> MM_ADDRESS_SPACE"
  gMmAddressSpaceInUse :: "nat \<Rightarrow> bool"
  gMmNextAddressSpaceId :: u64
  gMmKernelRootTablePhysical :: u64
  gMmSectionType :: ptr
  gMmSectionPool :: "nat \<Rightarrow> MM_SECTION_OBJECT"
  gMmSectionInUse :: "nat \<Rightarrow> bool"
  gMmFaultTrace :: "nat \<Rightarrow> MM_FAULT_TRACE"
  gMmFaultTraceNext :: u32
  gMmPhysmapBase :: u64
  gMmPhysmapBytes :: u64
  gMmPhysmapReady :: bool

section \<open>Definitions\<close>

subsection \<open>Bitmap\<close>

definition MmpSetPageAllocated :: "u32 \<Rightarrow> 'a MM_GLOBALS_scheme \<Rightarrow> 'a MM_GLOBALS_scheme" where
  "MmpSetPageAllocated PageIndex s =
     (let Word = PageIndex div MM_BITMAP_WORD_BITS; Bit = PageIndex mod MM_BITMAP_WORD_BITS in
      s\<lparr>gMmPageBitmap := (gMmPageBitmap s)
          (unat Word := gMmPageBitmap s (unat Word) OR push_bit (unat Bit) 1)\<rparr>)"

definition MmpSetPageFree :: "u32 \<Rightarrow> 'a MM_GLOBALS_scheme \<Rightarrow> 'a MM_GLOBALS_scheme" where
  "MmpSetPageFree PageIndex s =
     (let Word = PageIndex div MM_BITMAP_WORD_BITS; Bit = PageIndex mod MM_BITMAP_WORD_BITS in
      s\<lparr>gMmPageBitmap := (gMmPageBitmap s)
          (unat Word := gMmPageBitmap s (unat Word) AND NOT (push_bit (unat Bit) 1))\<rparr>)"

definition MmpIsPageAllocated :: "u32 \<Rightarrow> 'a MM_GLOBALS_scheme \<Rightarrow> bool" where
  "MmpIsPageAllocated PageIndex s =
     (let Word = PageIndex div MM_BITMAP_WORD_BITS; Bit = PageIndex mod MM_BITMAP_WORD_BITS in
      (gMmPageBitmap s (unat Word) AND push_bit (unat Bit) 1) \<noteq> 0)"

subsection \<open>Alignment\<close>

definition MmpAlignUp :: "u64 \<Rightarrow> u64 \<Rightarrow> u64" where
  "MmpAlignUp Value Alignment =
     (if Alignment = 0 then Value else (Value + Alignment - 1) AND NOT (Alignment - 1))"

definition MmpAlignDown :: "u64 \<Rightarrow> u64 \<Rightarrow> u64" where
  "MmpAlignDown Value Alignment =
     (if Alignment = 0 then Value else Value AND NOT (Alignment - 1))"

definition MmpAlignSizeToPage :: "u64 \<Rightarrow> u64" where
  "MmpAlignSizeToPage Size = (if Size = 0 then MM_PAGE_SIZE else MmpAlignUp Size MM_PAGE_SIZE)"

subsection \<open>Allocation and reference counts\<close>

definition MmpAllocPageInternal ::
    "outptr \<Rightarrow> u32 \<Rightarrow> 'a MM_GLOBALS_scheme \<Rightarrow> (KSTATUS + u64) \<times> 'a MM_GLOBALS_scheme" where
  "MmpAllocPageInternal OutPhysicalAddress InitialRefCount s =
     (if \<not> OutPhysicalAddress \<or> gMmTrackedPages s = 0 then (Inl KSTATUS_INVALID_PARAMETER, s)
      else
        case scan (\<lambda>ScanCount. \<not> MmpIsPageAllocated
                     ((gMmNextScanPage s + of_nat ScanCount) mod gMmTrackedPages s) s)
               0 (unat (gMmTrackedPages s)) of
          None \<Rightarrow> (Inl KSTATUS_INIT_FAILED, s)
        | Some ScanCount \<Rightarrow>
            let Page = (gMmNextScanPage s + of_nat ScanCount) mod gMmTrackedPages s;
                s1 = MmpSetPageAllocated Page s
            in (Inr (ucast Page * MM_PAGE_SIZE),
                s1\<lparr>gMmPageRefCount := (gMmPageRefCount s1)(unat Page := InitialRefCount),
                   gMmNextScanPage := (Page + 1) mod gMmTrackedPages s1\<rparr>))"

definition MmpRetainPage :: "u64 \<Rightarrow> 'a MM_GLOBALS_scheme \<Rightarrow> 'a MM_GLOBALS_scheme" where
  "MmpRetainPage PhysicalAddress s =
     (let Page = unat (PhysicalAddress div MM_PAGE_SIZE) in
      if Page < MM_MAX_TRACKED_PAGES \<and> gMmPageRefCount s Page \<noteq> 0
      then s\<lparr>gMmPageRefCount := (gMmPageRefCount s)(Page := gMmPageRefCount s Page + 1)\<rparr>
      else s)"

definition MmpReleasePage :: "u64 \<Rightarrow> 'a MM_GLOBALS_scheme \<Rightarrow> 'a MM_GLOBALS_scheme" where
  "MmpReleasePage PhysicalAddress s =
     (let Page = unat (PhysicalAddress div MM_PAGE_SIZE) in
      if Page \<ge> MM_MAX_TRACKED_PAGES \<or> gMmPageRefCount s Page = 0 then s
      else
        let s1 = s\<lparr>gMmPageRefCount := (gMmPageRefCount s)(Page := gMmPageRefCount s Page - 1)\<rparr>
        in if gMmPageRefCount s1 Page = 0 then MmpSetPageFree (of_nat Page) s1 else s1)"

definition MmAllocPage :: "outptr \<Rightarrow> 'a MM_GLOBALS_scheme \<Rightarrow> (KSTATUS + u64) \<times> 'a MM_GLOBALS_scheme" where
  "MmAllocPage OutPhysicalAddress s =
     (if \<not> gMmReady s \<or> \<not> OutPhysicalAddress then (Inl KSTATUS_INVALID_PARAMETER, s)
      else MmpAllocPageInternal OutPhysicalAddress 1 s)"

definition MmFreePage :: "u64 \<Rightarrow> 'a MM_GLOBALS_scheme \<Rightarrow> KSTATUS \<times> 'a MM_GLOBALS_scheme" where
  "MmFreePage PhysicalAddress s =
     (if \<not> gMmReady s \<or> PhysicalAddress mod MM_PAGE_SIZE \<noteq> 0 then (KSTATUS_INVALID_PARAMETER, s)
      else
        let Page = PhysicalAddress div MM_PAGE_SIZE in
        if Page \<ge> ucast (gMmTrackedPages s) then (KSTATUS_INVALID_PARAMETER, s)
        else if \<not> MmpIsPageAllocated (ucast Page) s then (KSTATUS_INVALID_PARAMETER, s)
        else (KSTATUS_SUCCESS,
              MmpSetPageFree (ucast Page) (s\<lparr>gMmPageRefCount := (gMmPageRefCount s)(unat Page := 0)\<rparr>)))"

subsection \<open>The boot memory map\<close>

definition MmpIsRangeUsable :: "PHYSICAL_MEMORY_RANGE option \<Rightarrow> bool" where
  "MmpIsRangeUsable Rng =
     (case Rng of None \<Rightarrow> False
      | Some r \<Rightarrow> pmr_Type r = 7 \<or> pmr_Type r = 3 \<or> pmr_Type r = 4 \<or> pmr_Type r = 1 \<or> pmr_Type r = 2)"

text \<open>The loop of \<^verbatim>\<open>MmpMarkRange\<close>; the last argument is the number of iterations left.\<close>

fun MmpMarkRange_loop :: "u64 \<Rightarrow> bool \<Rightarrow> nat \<Rightarrow> 'a MM_GLOBALS_scheme \<Rightarrow> 'a MM_GLOBALS_scheme" where
  "MmpMarkRange_loop Page Allocated 0 s = s"
| "MmpMarkRange_loop Page Allocated (Suc k) s =
     (if Page \<ge> ucast (gMmTrackedPages s) then s
      else MmpMarkRange_loop (Page + 1) Allocated k
             (if Allocated then MmpSetPageAllocated (ucast Page) s else MmpSetPageFree (ucast Page) s))"

definition MmpMarkRange :: "u64 \<Rightarrow> u64 \<Rightarrow> bool \<Rightarrow> 'a MM_GLOBALS_scheme \<Rightarrow> 'a MM_GLOBALS_scheme" where
  "MmpMarkRange Base Len Allocated s =
     (if Len = 0 \<or> gMmTrackedPages s = 0 then s
      else
        let Start = MmpAlignUp Base MM_PAGE_SIZE;
            End = MmpAlignDown (Base + Len) MM_PAGE_SIZE
        in if End \<le> Start then s
           else MmpMarkRange_loop (Start div MM_PAGE_SIZE) Allocated
                  (unat (End div MM_PAGE_SIZE) - unat (Start div MM_PAGE_SIZE)) s)"

fun MmpMarkUsable_loop :: "u64 \<Rightarrow> u64 \<Rightarrow> nat \<Rightarrow> 'a MM_GLOBALS_scheme \<Rightarrow> 'a MM_GLOBALS_scheme" where
  "MmpMarkUsable_loop Cursor EntrySize 0 s = s"
| "MmpMarkUsable_loop Cursor EntrySize (Suc k) s =
     (let Rng = hw_ranges s Cursor;
          s1 = (if MmpIsRangeUsable (Some Rng) then MmpMarkRange (pmr_Base Rng) (pmr_Length Rng) False s
                else s)
      in MmpMarkUsable_loop (Cursor + EntrySize) EntrySize k s1)"

definition MmpMarkUsableFromBootInfo ::
    "(u64 \<times> BOOT_INFO) option \<Rightarrow> 'a MM_GLOBALS_scheme \<Rightarrow> 'a MM_GLOBALS_scheme" where
  "MmpMarkUsableFromBootInfo BootInfo s =
     (case BootInfo of None \<Rightarrow> s
      | Some (_, bi) \<Rightarrow>
          if bi_MemoryMap bi = 0 \<or> bi_MemoryMapEntrySize bi = 0 then s
          else MmpMarkUsable_loop (bi_MemoryMap bi) (ucast (bi_MemoryMapEntrySize bi))
                 (unat (bi_MemoryMapEntryCount bi)) s)"

definition MmpReserveBootCriticalRanges ::
    "(u64 \<times> BOOT_INFO) option \<Rightarrow> 'a MM_GLOBALS_scheme \<Rightarrow> 'a MM_GLOBALS_scheme" where
  "MmpReserveBootCriticalRanges BootInfo s =
     (case BootInfo of None \<Rightarrow> s
      | Some (addr, bi) \<Rightarrow>
          let s1 = MmpMarkRange 0 0x100000 True s;
              s2 = MmpMarkRange (bi_KernelBase bi) (bi_KernelSize bi) True s1;
              s3 = MmpMarkRange (bi_LoaderBase bi) 0x200000 True s2;
              s4 = (if (bi_Flags bi AND BOOTINFO_FLAG_INIT_IMAGE_PRESENT) \<noteq> 0 \<and>
                       bi_InitImageBase bi \<noteq> 0 \<and> bi_InitImageSize bi \<noteq> 0
                    then MmpMarkRange (bi_InitImageBase bi) (bi_InitImageSize bi) True s3 else s3);
              s5 = MmpMarkRange addr sizeof_BOOT_INFO True s4;
              MapBytes = ucast (bi_MemoryMapEntryCount bi) * ucast (bi_MemoryMapEntrySize bi)
          in MmpMarkRange (bi_MemoryMap bi) MapBytes True s5)"

subsection \<open>Specification\<close>

definition page_alloc :: "'a MM_GLOBALS_scheme \<Rightarrow> nat \<Rightarrow> bool" where
  "page_alloc s p = bit (gMmPageBitmap s (p div 64)) (p mod 64)"

abbreviation tracked :: "'a MM_GLOBALS_scheme \<Rightarrow> nat" where
  "tracked s \<equiv> unat (gMmTrackedPages s)"

text \<open>A page with references is marked allocated, so the allocator never hands it out again.\<close>

definition pages_wf :: "'a MM_GLOBALS_scheme \<Rightarrow> bool" where
  "pages_wf s \<longleftrightarrow> tracked s \<le> MM_MAX_TRACKED_PAGES \<and>
     (gMmNextScanPage s < gMmTrackedPages s \<or> gMmNextScanPage s = 0) \<and>
     (\<forall>p<MM_MAX_TRACKED_PAGES. gMmPageRefCount s p \<noteq> 0 \<longrightarrow> page_alloc s p)"

text \<open>The allocator as a pool of page numbers.\<close>

definition page_pool_alloc :: "'a MM_GLOBALS_scheme \<Rightarrow> nat option \<times> 'a MM_GLOBALS_scheme" where
  "page_pool_alloc s = (case MmAllocPage True s of
     (Inr pa, t) \<Rightarrow> (Some (unat pa div 4096), t) | (Inl _, t) \<Rightarrow> (None, t))"

definition page_pool_free :: "nat \<Rightarrow> 'a MM_GLOBALS_scheme \<Rightarrow> 'a MM_GLOBALS_scheme" where
  "page_pool_free p s = snd (MmFreePage (of_nat p * MM_PAGE_SIZE) s)"

definition mm_bss :: MM_GLOBALS where
  "mm_bss = OB_GLOBALS.extend ob_bss (MM_GLOBALS.fields (\<lambda>_. 0) (\<lambda>_. 0) 0 0 False
     (\<lambda>_. \<lparr>as_AddressSpaceId = 0, as_OwnerProcessId = 0, as_RootTablePhysical = 0, as_NextUserBase = 0,
           as_RegionCount = 0, as_Regions = (\<lambda>_. \<lparr>reg_Base = 0, reg_Size = 0, reg_Type = 0, reg_Protection = 0,
             reg_Flags = 0, reg_CommittedPages = 0, reg_BackingPhysicalBase = 0, reg_BackingObject = None,
             reg_BackingOffset = 0\<rparr>)\<rparr>)
     (\<lambda>_. False) 0 0 None (\<lambda>_. \<lparr>sec_Header = None, sec_PageCount = 0, sec_Pages = (\<lambda>_. 0)\<rparr>) (\<lambda>_. False)
     (\<lambda>_. \<lparr>ft_FaultAddress = 0, ft_InstructionPointer = 0, ft_ErrorCode = 0, ft_ProcessId = 0,
           ft_AddressSpaceId = 0, ft_Outcome = KSTATUS_SUCCESS\<rparr>) 0 0 0 False)"

text \<open>A machine with three tracked pages, page 0 allocated with one reference.\<close>

definition mm_small :: MM_GLOBALS where
  "mm_small = mm_bss\<lparr>gMmReady := True, gMmTrackedPages := 3, gMmPageBitmap := (\<lambda>_. 0)(0 := 1),
     gMmPageRefCount := (\<lambda>_. 0)(0 := 1)\<rparr>"

section \<open>The bitmap is a set of pages\<close>

lemma word_bit_index:
  "unat ((p :: u32) div MM_BITMAP_WORD_BITS) = unat p div 64" "unat (p mod MM_BITMAP_WORD_BITS) = unat p mod 64"
  by (simp_all add: MM_BITMAP_WORD_BITS_def unat_div_distrib unat_mod_distrib)

lemma div_mod_64: "p div 64 = q div 64 \<Longrightarrow> p mod 64 = q mod 64 \<Longrightarrow> p = (q :: nat)"
  by (metis div_mult_mod_eq)

lemma page_alloc_set [simp]:
  "page_alloc (MmpSetPageAllocated p s) = (page_alloc s)(unat p := True)"
  by (auto simp: fun_eq_iff page_alloc_def MmpSetPageAllocated_def Let_def word_bit_index bit_simps
      dest: div_mod_64)

lemma page_alloc_clear [simp]:
  "page_alloc (MmpSetPageFree p s) = (page_alloc s)(unat p := False)"
  by (auto simp: fun_eq_iff page_alloc_def MmpSetPageFree_def Let_def word_bit_index bit_simps
      dest: div_mod_64)

lemma MmpIsPageAllocated_iff [simp]: "MmpIsPageAllocated p s = page_alloc s (unat p)"
  by (simp add: MmpIsPageAllocated_def page_alloc_def Let_def word_bit_index bit_iff_and_push_bit_not_eq_0)

lemma set_page_frame [simp]:
  "gMmPageRefCount (MmpSetPageAllocated p s) = gMmPageRefCount s"
  "gMmTrackedPages (MmpSetPageAllocated p s) = gMmTrackedPages s"
  "gMmNextScanPage (MmpSetPageAllocated p s) = gMmNextScanPage s"
  "gMmReady (MmpSetPageAllocated p s) = gMmReady s"
  "gMmPageRefCount (MmpSetPageFree p s) = gMmPageRefCount s"
  "gMmTrackedPages (MmpSetPageFree p s) = gMmTrackedPages s"
  "gMmNextScanPage (MmpSetPageFree p s) = gMmNextScanPage s"
  "gMmReady (MmpSetPageFree p s) = gMmReady s"
  by (simp_all add: MmpSetPageAllocated_def MmpSetPageFree_def Let_def)

lemma page_alloc_frame [simp]:
  "page_alloc (s\<lparr>gMmPageRefCount := x\<rparr>) = page_alloc s"
  "page_alloc (s\<lparr>gMmNextScanPage := y\<rparr>) = page_alloc s"
  by (simp_all add: page_alloc_def fun_eq_iff)

section \<open>Alignment\<close>

lemma align_down_4096 [simp]: "unat (MmpAlignDown v MM_PAGE_SIZE) = unat v div 4096 * 4096"
  using unat_align [of 12 v] by (simp add: MmpAlignDown_def MM_PAGE_SIZE_def mask_eq_decr_exp)

lemma unat_add_u64: "unat (a :: u64) + unat b < 2 ^ 64 \<Longrightarrow> unat (a + b) = unat a + unat b"
  by (simp add: unat_word_ariths)

lemma align_up_4096:
  assumes "unat v + 4095 < 2 ^ 64"
  shows "unat (MmpAlignUp v MM_PAGE_SIZE) = (unat v + 4095) div 4096 * 4096"
proof -
  have m: "(4095 :: u64) = mask 12" by (simp add: mask_eq_decr_exp)
  have "MmpAlignUp v MM_PAGE_SIZE = (v + 4095) AND NOT (mask 12)"
  proof -
    have "(4096 :: u64) \<noteq> 0" "v + 4096 - 1 = v + (4095 :: u64)" "(4096 :: u64) - 1 = 4095" by simp_all
    then show ?thesis unfolding MmpAlignUp_def MM_PAGE_SIZE_def m [symmetric] by (simp only: if_False)
  qed
  then show ?thesis
    using unat_align [of 12 "v + 4095"] unat_add_u64 [of v 4095] assms by simp
qed

lemma unat_div_page [simp]: "unat (x div MM_PAGE_SIZE) = unat x div 4096"
  by (simp add: unat_div_distrib MM_PAGE_SIZE_def)

section \<open>Allocation\<close>

text \<open>The circular scan visits every tracked page.\<close>

lemma circular_index:
  fixes n t :: u32
  assumes "unat t \<le> 262144" "n < t" "k < unat t"
  shows "unat ((n + of_nat k) mod t) = (unat n + k) mod unat t"
proof -
  have "unat n < unat t" using assms(2) by (simp add: word_less_nat_alt)
  then have "unat (n + of_nat k) = unat n + k"
    using assms(1,3) by (simp add: unat_word_ariths unat_of_nat)
  then show ?thesis by (simp add: unat_mod_distrib)
qed

lemma circular_cover:
  assumes "(n :: nat) < t" "p < t"
  obtains k where "k < t" "(n + k) mod t = p"
proof (cases "n \<le> p")
  case True
  with assms that [of "p - n"] show thesis by simp
next
  case False
  with assms have "(n + (t - n + p)) mod t = p" by simp
  with that [of "t - n + p"] assms False show thesis by simp
qed

lemma pages_wf_scan: "pages_wf s \<Longrightarrow> gMmTrackedPages s \<noteq> 0 \<Longrightarrow> gMmNextScanPage s < gMmTrackedPages s"
  by (auto simp: pages_wf_def word_neq_0_conv)

lemma MmpAllocPageInternal_Inr:
  assumes wf: "pages_wf s" and a: "MmpAllocPageInternal out rc s = (Inr pa, t)"
  obtains p where "p < tracked s" "\<not> page_alloc s p" "unat pa = p * 4096"
    "page_alloc t = (page_alloc s)(p := True)" "gMmPageRefCount t = (gMmPageRefCount s)(p := rc)"
    "gMmTrackedPages t = gMmTrackedPages s" "gMmNextScanPage t < gMmTrackedPages t"
proof -
  from a have nz: "gMmTrackedPages s \<noteq> 0" by (auto simp: MmpAllocPageInternal_def split: if_splits)
  note next_lt = pages_wf_scan [OF wf nz]
  from a nz obtain k where k: "scan (\<lambda>k. \<not> MmpIsPageAllocated ((gMmNextScanPage s + of_nat k) mod gMmTrackedPages s) s)
      0 (tracked s) = Some k"
    by (auto simp: MmpAllocPageInternal_def split: if_splits option.splits)
  define w where "w = (gMmNextScanPage s + of_nat k) mod gMmTrackedPages s"
  have w: "\<not> page_alloc s (unat w)" "unat w < tracked s"
    using scan0_SomeD [OF k] nz by (auto simp: w_def unat_mod_distrib unat_gt_0)
  have t: "t = (MmpSetPageAllocated w s)\<lparr>gMmPageRefCount := (gMmPageRefCount s)(unat w := rc),
      gMmNextScanPage := (w + 1) mod gMmTrackedPages s\<rparr>" and pa: "pa = ucast w * MM_PAGE_SIZE"
    using a k nz by (auto simp: MmpAllocPageInternal_def w_def Let_def split: if_splits)
  have "unat w * 4096 < 2 ^ 64" using unsigned_less [of w, where 'a = nat] by simp
  then have "unat pa = unat w * 4096"
    using unat_mult_lem [of "ucast w :: u64" MM_PAGE_SIZE] by (simp add: pa MM_PAGE_SIZE_def)
  with that [of "unat w"] w nz show thesis
    by (simp add: t word_less_nat_alt unat_mod_distrib unat_gt_0)
qed

lemma MmpAllocPageInternal_Inl:
  assumes wf: "pages_wf s" and a: "MmpAllocPageInternal True rc s = (Inl st, t)"
  shows "t = s \<and> (\<forall>p<tracked s. page_alloc s p)"
proof (cases "gMmTrackedPages s = 0")
  case True
  with a show ?thesis by (simp add: MmpAllocPageInternal_def)
next
  case nz: False
  note next_lt = pages_wf_scan [OF wf nz]
  from a nz have n: "scan (\<lambda>k. \<not> MmpIsPageAllocated ((gMmNextScanPage s + of_nat k) mod gMmTrackedPages s) s)
      0 (tracked s) = None" and t: "t = s"
    by (auto simp: MmpAllocPageInternal_def Let_def split: option.splits)
  have "page_alloc s p" if p: "p < tracked s" for p
  proof -
    obtain k where k: "k < tracked s" "(unat (gMmNextScanPage s) + k) mod tracked s = p"
      using circular_cover [OF _ p, of "unat (gMmNextScanPage s)"] next_lt by (auto simp: word_less_nat_alt)
    moreover have "tracked s \<le> 262144" using wf by (simp add: pages_wf_def MM_MAX_TRACKED_PAGES_def)
    ultimately show ?thesis
      using n circular_index [of "gMmTrackedPages s" "gMmNextScanPage s" k] next_lt by (auto simp: scan_None_iff)
  qed
  with t show ?thesis by simp
qed

lemma alloc_pages_wf:
  assumes "pages_wf s" "MmpAllocPageInternal out rc s = (r, t)"
  shows "pages_wf t"
proof (cases r)
  case (Inl st)
  with assms show ?thesis by (auto simp: MmpAllocPageInternal_def Let_def split: if_splits option.splits)
next
  case (Inr pa)
  with assms obtain p where "page_alloc t = (page_alloc s)(p := True)" "gMmPageRefCount t = (gMmPageRefCount s)(p := rc)"
    "gMmTrackedPages t = gMmTrackedPages s" "gMmNextScanPage t < gMmTrackedPages t"
    by (auto elim: MmpAllocPageInternal_Inr)
  with assms(1) show ?thesis by (auto simp: pages_wf_def)
qed

lemma MmAllocPage_ready: "gMmReady s \<Longrightarrow> MmAllocPage True s = MmpAllocPageInternal True 1 s"
  by (simp add: MmAllocPage_def)

lemma alloc_ready: "MmpAllocPageInternal out rc s = (r, t) \<Longrightarrow> gMmReady t = gMmReady s"
  by (auto simp: MmpAllocPageInternal_def Let_def split: if_splits option.splits)

lemma retain_pages_wf: "pages_wf s \<Longrightarrow> pages_wf (MmpRetainPage pa s)"
  by (auto simp: MmpRetainPage_def Let_def pages_wf_def)

lemma release_effect:
  assumes "pages_wf s" "p = unat pa div 4096" "p < MM_MAX_TRACKED_PAGES" "gMmPageRefCount s p \<noteq> 0"
  shows "gMmPageRefCount (MmpReleasePage pa s) = (gMmPageRefCount s)(p := gMmPageRefCount s p - 1)"
    "page_alloc (MmpReleasePage pa s) = (page_alloc s)(p := gMmPageRefCount s p \<noteq> 1)"
    "gMmTrackedPages (MmpReleasePage pa s) = gMmTrackedPages s"
    "gMmNextScanPage (MmpReleasePage pa s) = gMmNextScanPage s"
    "gMmReady (MmpReleasePage pa s) = gMmReady s"
proof -
  have "unat (of_nat p :: u32) = p"
    using assms(3) by (simp add: unat_of_nat MM_MAX_TRACKED_PAGES_def)
  moreover have "page_alloc s p" using assms(1,3,4) by (auto simp: pages_wf_def)
  ultimately show
    "gMmPageRefCount (MmpReleasePage pa s) = (gMmPageRefCount s)(p := gMmPageRefCount s p - 1)"
    "page_alloc (MmpReleasePage pa s) = (page_alloc s)(p := gMmPageRefCount s p \<noteq> 1)"
    "gMmTrackedPages (MmpReleasePage pa s) = gMmTrackedPages s"
    "gMmNextScanPage (MmpReleasePage pa s) = gMmNextScanPage s"
    "gMmReady (MmpReleasePage pa s) = gMmReady s"
    using assms(2-4) by (auto simp: MmpReleasePage_def Let_def fun_eq_iff)
qed

lemma release_noop: "\<not> (unat pa div 4096 < MM_MAX_TRACKED_PAGES \<and> gMmPageRefCount s (unat pa div 4096) \<noteq> 0) \<Longrightarrow>
   MmpReleasePage pa s = s"
  by (auto simp: MmpReleasePage_def Let_def)

lemma release_pages_wf:
  assumes "pages_wf s"
  shows "pages_wf (MmpReleasePage pa s)"
proof (cases "unat pa div 4096 < MM_MAX_TRACKED_PAGES \<and> gMmPageRefCount s (unat pa div 4096) \<noteq> 0")
  case True
  with assms show ?thesis
    using release_effect [OF assms refl, of pa] by (auto simp: pages_wf_def)
next
  case False
  from release_noop [OF this] assms show ?thesis by simp
qed

lemma MmFreePage_ok:
  assumes "gMmReady s" "unat pa = p * 4096" "p < tracked s" "page_alloc s p"
  shows "MmFreePage pa s = (KSTATUS_SUCCESS,
    MmpSetPageFree (of_nat p) (s\<lparr>gMmPageRefCount := (gMmPageRefCount s)(p := 0)\<rparr>))"
proof -
  have "pa mod MM_PAGE_SIZE = 0"
    using assms(2) by (simp add: unat_mod_distrib MM_PAGE_SIZE_def flip: unat_eq_zero)
  moreover have d: "unat (pa div MM_PAGE_SIZE) = p" using assms(2) by simp
  moreover have u: "unat (ucast (pa div MM_PAGE_SIZE) :: u32) = p"
    using assms(3) d unsigned_less [of "gMmTrackedPages s", where 'a = nat]
    by (simp add: unat_ucast_32)
  moreover from u have "ucast (pa div MM_PAGE_SIZE) = (of_nat p :: u32)"
    by auto
  moreover have "\<not> ucast (gMmTrackedPages s) \<le> pa div MM_PAGE_SIZE"
    using assms(3) d by (simp add: word_le_nat_alt)
  ultimately show ?thesis using assms(1,4) by (simp add: MmFreePage_def Let_def)
qed

lemma MmFreePage_Inl: "fst (MmFreePage pa s) \<noteq> KSTATUS_SUCCESS \<Longrightarrow> snd (MmFreePage pa s) = s"
  by (auto simp: MmFreePage_def Let_def split: if_splits)

interpretation pages: slot_pool_free "\<lambda>s. pages_wf s \<and> gMmReady s" page_alloc tracked page_pool_alloc page_pool_free
proof
  fix s t :: "'a MM_GLOBALS_scheme" and i
  assume s: "pages_wf s \<and> gMmReady s"
  then have m: "MmAllocPage True s = MmpAllocPageInternal True 1 s" by (simp add: MmAllocPage_ready)
  show "i < tracked s \<and> \<not> page_alloc s i \<and> page_alloc t = (page_alloc s)(i := True) \<and> tracked t = tracked s \<and>
      pages_wf t \<and> gMmReady t" if "page_pool_alloc s = (Some i, t)"
  proof -
    from that m obtain pa where a: "MmpAllocPageInternal True 1 s = (Inr pa, t)" and i: "i = unat pa div 4096"
      by (auto simp: page_pool_alloc_def split: prod.splits sum.splits)
    with s obtain p where "p < tracked s" "\<not> page_alloc s p" "unat pa = p * 4096"
      "page_alloc t = (page_alloc s)(p := True)" "gMmTrackedPages t = gMmTrackedPages s"
      by (auto elim: MmpAllocPageInternal_Inr)
    with i s alloc_pages_wf [OF _ a] alloc_ready [OF a] show ?thesis by simp
  qed
  show "t = s \<and> (\<forall>i<tracked s. page_alloc s i)" if "page_pool_alloc s = (None, t)"
  proof -
    from that m obtain st where "MmpAllocPageInternal True 1 s = (Inl st, t)"
      by (auto simp: page_pool_alloc_def split: prod.splits sum.splits)
    with s MmpAllocPageInternal_Inl show ?thesis by blast
  qed
  show "page_alloc (page_pool_free i s) = (page_alloc s)(i := False) \<and>
      tracked (page_pool_free i s) = tracked s \<and> pages_wf (page_pool_free i s) \<and> gMmReady (page_pool_free i s)"
    if i: "i < tracked s" "page_alloc s i"
  proof -
    have n: "i < 2 ^ 32" using i(1) unsigned_less [of "gMmTrackedPages s", where 'a = nat] by simp
    then have "unat (of_nat i * MM_PAGE_SIZE :: u64) = i * 4096"
      using unat_mult_lem [of "of_nat i :: u64" MM_PAGE_SIZE] by (simp add: MM_PAGE_SIZE_def unat_of_nat)
    from MmFreePage_ok [OF conjunct2 [OF s] this i] n s show ?thesis
      by (auto simp: page_pool_free_def unat_of_nat pages_wf_def)
  qed
qed

section \<open>Marking ranges\<close>

lemma mark_loop:
  assumes "tracked s \<le> MM_MAX_TRACKED_PAGES" "unat Page + k < 2 ^ 64"
  shows "page_alloc (MmpMarkRange_loop Page a k s) =
      (\<lambda>p. if unat Page \<le> p \<and> p < unat Page + k \<and> p < tracked s then a else page_alloc s p) \<and>
    gMmTrackedPages (MmpMarkRange_loop Page a k s) = gMmTrackedPages s \<and>
    gMmPageRefCount (MmpMarkRange_loop Page a k s) = gMmPageRefCount s \<and>
    gMmNextScanPage (MmpMarkRange_loop Page a k s) = gMmNextScanPage s"
  using assms
proof (induction Page a k s rule: MmpMarkRange_loop.induct)
  case (2 Page a k s)
  show ?case
  proof (cases "Page \<ge> ucast (gMmTrackedPages s)")
    case True
    then have "tracked s \<le> unat Page" by (simp add: word_le_nat_alt)
    with True show ?thesis by (auto simp: fun_eq_iff)
  next
    case False
    then have lt: "unat Page < tracked s" by (simp add: word_le_nat_alt)
    then have u: "unat (ucast Page :: u32) = unat Page"
      using unsigned_less [of "gMmTrackedPages s", where 'a = nat] by (simp add: unat_ucast_32)
    have s: "unat (Page + 1) = Suc (unat Page)"
      using "2.prems"(2) by (simp add: unat_word_ariths)
    show ?thesis
      using "2.IH" [OF False] "2.prems" False lt u s by (auto simp: fun_eq_iff)
  qed
qed auto

text \<open>\<open>page_inside b l p\<close>: page \<open>p\<close> lies completely in the \<open>l\<close> bytes from address \<open>b\<close> on.\<close>

definition page_inside :: "nat \<Rightarrow> nat \<Rightarrow> nat \<Rightarrow> bool" where
  "page_inside b l p \<longleftrightarrow> b \<le> p * 4096 \<and> p * 4096 + 4096 \<le> b + l"

lemma page_inside_iff:
  "page_inside b l p \<longleftrightarrow> (b + 4095) div 4096 \<le> p \<and> p < (b + l) div 4096"
  unfolding page_inside_def by (auto simp: less_eq_div_iff_mult_less_eq div_less_iff_less_mult Suc_le_eq [symmetric])

lemma mark_range:
  assumes "tracked s \<le> MM_MAX_TRACKED_PAGES" "unat b + unat l + 4095 < 2 ^ 64"
  shows "page_alloc (MmpMarkRange b l a s) =
      (\<lambda>p. if p < tracked s \<and> page_inside (unat b) (unat l) p then a else page_alloc s p)"
    "gMmTrackedPages (MmpMarkRange b l a s) = gMmTrackedPages s"
    "gMmPageRefCount (MmpMarkRange b l a s) = gMmPageRefCount s"
    "gMmNextScanPage (MmpMarkRange b l a s) = gMmNextScanPage s"
proof -
  let ?S = "MmpAlignUp b MM_PAGE_SIZE" and ?E = "MmpAlignDown (b + l) MM_PAGE_SIZE"
  let ?sp = "(unat b + 4095) div 4096" and ?ep = "(unat b + unat l) div 4096"
  have sum: "unat (b + l) = unat b + unat l" using assms(2) by (simp add: unat_word_ariths)
  have S: "unat ?S = ?sp * 4096" using assms(2) by (simp add: align_up_4096)
  have E: "unat ?E = ?ep * 4096" by (simp add: sum)
  have le: "?E \<le> ?S \<longleftrightarrow> ?ep \<le> ?sp" by (simp only: word_le_nat_alt S E) simp
  have none: "page_inside (unat b) (unat l) p = False" if "l = 0 \<or> ?ep \<le> ?sp" for p
    using that by (auto simp: page_inside_iff)
  have bd: "unat (?S div MM_PAGE_SIZE) + (?ep - ?sp) < 2 ^ 64"
    using assms(2) S by simp
  have m: "MmpMarkRange b l a s = (if l = 0 \<or> gMmTrackedPages s = 0 \<or> ?ep \<le> ?sp then s
      else MmpMarkRange_loop (?S div MM_PAGE_SIZE) a (?ep - ?sp) s)"
    by (simp add: MmpMarkRange_def Let_def le S sum)
  note loop = mark_loop [OF assms(1) bd, of a]
  show "page_alloc (MmpMarkRange b l a s) =
      (\<lambda>p. if p < tracked s \<and> page_inside (unat b) (unat l) p then a else page_alloc s p)"
    unfolding m using loop none by (auto simp: page_inside_iff S fun_eq_iff)
  show "gMmTrackedPages (MmpMarkRange b l a s) = gMmTrackedPages s"
    "gMmPageRefCount (MmpMarkRange b l a s) = gMmPageRefCount s"
    "gMmNextScanPage (MmpMarkRange b l a s) = gMmNextScanPage s"
    unfolding m using loop by simp_all
qed

lemmas mm_bss_eval = mm_bss_def ob_bss_def nk_bss_def hal_bss_def OB_GLOBALS.defs NK_GLOBALS.defs HAL_GLOBALS.defs
  MM_GLOBALS.defs

lemma mm_small_facts:
  "gMmReady mm_small" "gMmTrackedPages mm_small = 3" "gMmPageRefCount mm_small = (\<lambda>_. 0)(0 := 1)"
  "page_alloc mm_small = (\<lambda>p. p = 0)" "pages_wf mm_small"
proof -
  show f: "gMmReady mm_small" "gMmTrackedPages mm_small = 3" "gMmPageRefCount mm_small = (\<lambda>_. 0)(0 := 1)"
    by (simp_all add: mm_small_def)
  show p: "page_alloc mm_small = (\<lambda>p. p = 0)"
    by (auto simp: fun_eq_iff page_alloc_def mm_small_def bit_simps)
  have "gMmNextScanPage mm_small = 0" by (simp add: mm_small_def mm_bss_eval)
  then show "pages_wf mm_small" by (simp add: pages_wf_def f p MM_MAX_TRACKED_PAGES_def)
qed

lemma three_pages: "{p. p < 3 \<and> p = (0 :: nat)} = {0}"
  by auto

section \<open>Properties\<close>

text \<open>C5: page allocation is exclusive and complete.  In a well-formed state with at least \<open>n\<close> free
  tracked pages, \<open>n\<close> successive \<^verbatim>\<open>MmAllocPage\<close> calls all succeed and return \<open>n\<close> different pages,
  none of which was allocated before.\<close>

theorem MmAllocPage_distinct:
  assumes "pages_wf s" and "gMmReady s"
    and "n + card {p. p < tracked s \<and> page_alloc s p} \<le> tracked s"
  shows "\<exists>xs. fst (alloc_many page_pool_alloc n s) = map Some xs \<and> length xs = n \<and> distinct xs \<and>
    (\<forall>x\<in>set xs. x < tracked s \<and> \<not> page_alloc s x)"
  using pages.alloc_many_distinct [of s n] assms by (simp add: pages.population_def)

theorem MmAllocPage_distinct_witness:
  "\<exists>xs. fst (alloc_many page_pool_alloc 2 mm_small) = map Some xs \<and> length xs = 2 \<and> distinct xs \<and>
    (\<forall>x\<in>set xs. x < 3 \<and> x \<noteq> 0)"
  using MmAllocPage_distinct [of mm_small 2] by (simp add: mm_small_facts three_pages)

text \<open>Every branch of \<^verbatim>\<open>MmAllocPage\<close>.  It fails only when every tracked page is allocated (or
  none is tracked), and then changes nothing; otherwise it returns the address of a page that was
  free, gives it one reference, and leaves every other page alone.\<close>

theorem MmAllocPage_spec:
  assumes "pages_wf s" and "gMmReady s"
  shows "case MmAllocPage True s of
      (Inl st, t) \<Rightarrow> t = s \<and> (\<forall>p<tracked s. page_alloc s p)
    | (Inr pa, t) \<Rightarrow> \<exists>p<tracked s. unat pa = p * 4096 \<and> \<not> page_alloc s p \<and>
        page_alloc t = (page_alloc s)(p := True) \<and> gMmPageRefCount t = (gMmPageRefCount s)(p := 1) \<and> pages_wf t"
proof (cases "MmAllocPage True s")
  case (Pair r t)
  with assms(2) have a: "MmpAllocPageInternal True 1 s = (r, t)" by (simp add: MmAllocPage_ready)
  show ?thesis
  proof (cases r)
    case (Inl st)
    with Pair a MmpAllocPageInternal_Inl [OF assms(1)] show ?thesis by simp
  next
    case (Inr pa)
    with a obtain p where "p < tracked s" "\<not> page_alloc s p" "unat pa = p * 4096"
      "page_alloc t = (page_alloc s)(p := True)" "gMmPageRefCount t = (gMmPageRefCount s)(p := 1)"
      by (auto elim: MmpAllocPageInternal_Inr [OF assms(1)])
    with Pair Inr a alloc_pages_wf [OF assms(1)] show ?thesis by auto
  qed
qed

theorem MmAllocPage_spec_witness:
  "\<exists>pa t. MmAllocPage True mm_small = (Inr pa, t) \<and> pages_wf t"
  using MmAllocPage_spec [of mm_small]
  by (cases "MmAllocPage True mm_small"; cases "fst (MmAllocPage True mm_small)") (auto simp: mm_small_facts dest: spec [of _ 1])

text \<open>\<^verbatim>\<open>MmpMarkRange\<close> marks exactly the tracked pages that lie completely inside the range,
  for freeing and for reserving alike, and touches no reference count.\<close>

theorem MmpMarkRange_exact:
  assumes "tracked s \<le> MM_MAX_TRACKED_PAGES" and "unat Base + unat Len + 4095 < 2 ^ 64"
  shows "page_alloc (MmpMarkRange Base Len Allocated s) =
      (\<lambda>p. if p < tracked s \<and> unat Base \<le> p * 4096 \<and> p * 4096 + 4096 \<le> unat Base + unat Len
           then Allocated else page_alloc s p) \<and>
    gMmPageRefCount (MmpMarkRange Base Len Allocated s) = gMmPageRefCount s"
  using mark_range [OF assms] by (simp add: page_inside_def)

theorem MmpMarkRange_exact_witness:
  "page_alloc (MmpMarkRange 4095 8193 True mm_small) 1 \<and> \<not> page_alloc (MmpMarkRange 4097 8192 True mm_small) 1"
  using MmpMarkRange_exact [of mm_small 4095 8193 True] MmpMarkRange_exact [of mm_small 4097 8192 True]
  by (simp add: mm_small_facts MM_MAX_TRACKED_PAGES_def)

text \<open>Because reservations are rounded inwards like releases, reserving a range shorter than a
  page reserves nothing: \<^verbatim>\<open>MmpReserveBootCriticalRanges\<close> does not reserve the page that holds the
  boot information it is still going to read.\<close>

theorem MmpMarkRange_boot_info:
  assumes "tracked s \<le> MM_MAX_TRACKED_PAGES" and "unat a + 4215 < 2 ^ 64"
  shows "page_alloc (MmpMarkRange a sizeof_BOOT_INFO True s) = page_alloc s"
  using mark_range [of s a sizeof_BOOT_INFO True] assms
  by (auto simp: page_inside_def sizeof_BOOT_INFO_def fun_eq_iff)

theorem MmpMarkRange_boot_info_witness:
  "\<not> page_alloc (MmpMarkRange 4096 sizeof_BOOT_INFO True mm_small) 1"
  using MmpMarkRange_boot_info [of mm_small 4096] by (simp add: mm_small_facts MM_MAX_TRACKED_PAGES_def)

text \<open>Dropping a reference undoes taking one; dropping the last one frees the page, and only that
  page.\<close>

theorem MmpRetain_Release:
  assumes "pages_wf s" and "p < MM_MAX_TRACKED_PAGES" and "unat pa div 4096 = p"
    and "gMmPageRefCount s p \<noteq> 0" and "gMmPageRefCount s p \<noteq> - 1"
  shows "gMmPageRefCount (MmpReleasePage pa (MmpRetainPage pa s)) = gMmPageRefCount s \<and>
    page_alloc (MmpReleasePage pa (MmpRetainPage pa s)) = page_alloc s \<and>
    page_alloc (MmpReleasePage pa s) = (page_alloc s)(p := gMmPageRefCount s p \<noteq> 1)"
proof -
  let ?r = "MmpRetainPage pa s"
  have r: "?r = s\<lparr>gMmPageRefCount := (gMmPageRefCount s)(p := gMmPageRefCount s p + 1)\<rparr>"
    using assms by (simp add: MmpRetainPage_def Let_def)
  have nz: "gMmPageRefCount ?r p \<noteq> 0"
    using assms(5) by (simp add: r add_eq_0_iff2)
  have "page_alloc s p" using assms(1,2,4) by (auto simp: pages_wf_def)
  then show ?thesis
    using release_effect [OF retain_pages_wf [OF assms(1)] assms(3) [symmetric] assms(2) nz]
      release_effect [OF assms(1) assms(3) [symmetric] assms(2,4)] assms(4)
    by (auto simp: r fun_eq_iff)
qed

theorem MmpRetain_Release_witness:
  "page_alloc (MmpReleasePage 0 (MmpRetainPage 0 mm_small)) = page_alloc mm_small \<and>
   \<not> page_alloc (MmpReleasePage 0 mm_small) 0"
  using MmpRetain_Release [of mm_small 0 0] by (simp add: mm_small_facts MM_MAX_TRACKED_PAGES_def)

end
