(* ===== verification/NtxMmPaging.thy ===== *)
theory NtxMmPaging
  imports NtxMmPhys
begin

text \<open>
  Page tables, \<^verbatim>\<open>kernel/mm/init.c\<close>: pointers into the direct map, the four-level walk that
  creates missing tables and splits 2 MiB entries, and the operations that map, unmap, protect and
  query a page.

  Physical memory is an array of 64-bit cells indexed by physical address.  A kernel pointer is a
  virtual address; while the physmap is not ready the kernel runs on the identity map of the
  firmware, afterwards it reaches tables and pages through \<^verbatim>\<open>gMmPhysmapBase\<close>
  (\<open>kva_to_phys\<close>).  Loops over the bytes of a page are loops over its 512 cells.  A failed
  \<^verbatim>\<open>NK_ASSERT\<close> halts the machine: the value \<open>None\<close>.
\<close>

section \<open>Definitions\<close>

subsection \<open>Pointers into the direct map\<close>

definition MmpIsUserAddress :: "u64 \<Rightarrow> bool" where
  "MmpIsUserAddress VirtualAddress \<longleftrightarrow> VirtualAddress \<ge> MM_USER_BASE \<and> VirtualAddress < MM_USER_TOP"

definition MmpIsCanonicalAddress :: "u64 \<Rightarrow> bool" where
  "MmpIsCanonicalAddress Va = (let Top = drop_bit 48 Va in Top = 0 \<or> Top = 0xFFFF)"

definition MmpReadCr3 :: "'a MM_GLOBALS_scheme \<Rightarrow> u64" where
  "MmpReadCr3 s = hw_cr3 s"

definition MmpWriteCr3 :: "u64 \<Rightarrow> 'a MM_GLOBALS_scheme \<Rightarrow> 'a MM_GLOBALS_scheme" where
  "MmpWriteCr3 Value s = s\<lparr>hw_cr3 := Value\<rparr>"

definition MmpPhysToVirtBootstrapTable :: "u64 \<Rightarrow> u64" where
  "MmpPhysToVirtBootstrapTable PhysicalAddress = PhysicalAddress AND MM_PTE_ADDR_MASK"

definition MmpPhysToVirtTable :: "'a MM_GLOBALS_scheme \<Rightarrow> u64 \<Rightarrow> u64" where
  "MmpPhysToVirtTable s PhysicalAddress =
     (if gMmPhysmapReady s then gMmPhysmapBase s + (PhysicalAddress AND MM_PTE_ADDR_MASK)
      else MmpPhysToVirtBootstrapTable PhysicalAddress)"

definition MmpPhysToVirtPage :: "'a MM_GLOBALS_scheme \<Rightarrow> u64 \<Rightarrow> u64" where
  "MmpPhysToVirtPage s PhysicalAddress =
     (if gMmPhysmapReady s then gMmPhysmapBase s + (PhysicalAddress AND MM_PTE_ADDR_MASK)
      else PhysicalAddress AND MM_PTE_ADDR_MASK)"

text \<open>The direct map as the processor sees it, the inverse of the three functions above.  It is taken to cover all of physical memory: the code that
  uses those functions does not compare with \<^verbatim>\<open>gMmPhysmapBytes\<close> either, and the fault of an access beyond the part actually mapped is not modelled.\<close>

definition kva_to_phys :: "'a MM_GLOBALS_scheme \<Rightarrow> u64 \<Rightarrow> u64" where
  "kva_to_phys s va = (if gMmPhysmapReady s then va - gMmPhysmapBase s else va)"

definition load64 :: "u64 \<Rightarrow> 'a MM_GLOBALS_scheme \<Rightarrow> u64" where
  "load64 va s = hw_mem s (kva_to_phys s va)"

definition store64 :: "u64 \<Rightarrow> u64 \<Rightarrow> 'a MM_GLOBALS_scheme \<Rightarrow> 'a MM_GLOBALS_scheme" where
  "store64 va v s = s\<lparr>hw_mem := (hw_mem s)(kva_to_phys s va := v)\<rparr>"

text \<open>\<^verbatim>\<open>&Table[i]\<close> for a \<^verbatim>\<open>uint64_t *Table\<close>.\<close>

definition elem_ptr :: "u64 \<Rightarrow> nat \<Rightarrow> u64" where
  "elem_ptr Table i = Table + of_nat i * 8"

text \<open>The loop \<^verbatim>\<open>for (i = 0; i < 512; i++) Table[i] = f(i);\<close>, with the iterations left as fuel.\<close>

fun store_table ::
    "u64 \<Rightarrow> (nat \<Rightarrow> 'a MM_GLOBALS_scheme \<Rightarrow> u64) \<Rightarrow> nat \<Rightarrow> nat \<Rightarrow> 'a MM_GLOBALS_scheme \<Rightarrow> 'a MM_GLOBALS_scheme"
  where
  "store_table Table f i 0 s = s"
| "store_table Table f i (Suc k) s = store_table Table f (Suc i) k (store64 (elem_ptr Table i) (f i s) s)"

definition zero_page :: "u64 \<Rightarrow> 'a MM_GLOBALS_scheme \<Rightarrow> 'a MM_GLOBALS_scheme" where
  "zero_page ptr s = store_table ptr (\<lambda>_ _. 0) 0 512 s"

definition copy_page :: "u64 \<Rightarrow> u64 \<Rightarrow> 'a MM_GLOBALS_scheme \<Rightarrow> 'a MM_GLOBALS_scheme" where
  "copy_page dst src s = store_table dst (\<lambda>i s. load64 (elem_ptr src i) s) 0 512 s"

subsection \<open>The walk\<close>

definition has_flag :: "u64 \<Rightarrow> u64 \<Rightarrow> bool" where
  "has_flag Entry Flag \<longleftrightarrow> (Entry AND Flag) \<noteq> 0"

definition walk_index :: "u64 \<Rightarrow> nat \<Rightarrow> nat" where
  "walk_index VirtualAddress Level = unat (drop_bit (39 - 9 * Level) VirtualAddress AND 0x1FF)"

text \<open>The three parts of one iteration of \<^verbatim>\<open>MmpWalkToPte\<close>: splitting a large entry, giving an
  entry on a user path the user bit, and creating a missing table.\<close>

definition MmpWalk_split ::
    "u64 \<Rightarrow> bool \<Rightarrow> nat \<Rightarrow> u64 \<Rightarrow> u64 \<Rightarrow> 'a MM_GLOBALS_scheme \<Rightarrow> (KSTATUS + u64) \<times> 'a MM_GLOBALS_scheme" where
  "MmpWalk_split VirtualAddress CreateMissing Level Slot Entry s =
     (if has_flag Entry MM_PTE_PRESENT \<and> has_flag Entry MM_PTE_LARGE then
        (if Level \<noteq> 2 then (Inl KSTATUS_NOT_IMPLEMENTED, s)
         else if \<not> CreateMissing then (Inl KSTATUS_NOT_FOUND, s)
         else case MmAllocPage True s of
           (Inl _, s1) \<Rightarrow> (Inl KSTATUS_INIT_FAILED, s1)
         | (Inr NextTablePa, s1) \<Rightarrow>
             let SplitTable = MmpPhysToVirtTable s1 NextTablePa;
                 SplitBase = Entry AND MM_PTE_ADDR_MASK;
                 SplitFlags = Entry AND (MM_PTE_WRITABLE OR MM_PTE_USER OR MM_PTE_NX);
                 s2 = store_table SplitTable
                        (\<lambda>i _. (SplitBase + of_nat i * MM_PAGE_SIZE) OR SplitFlags OR MM_PTE_PRESENT) 0 512 s1;
                 E1 = NextTablePa OR MM_PTE_PRESENT OR MM_PTE_WRITABLE;
                 E2 = (if VirtualAddress < MM_USER_TOP then E1 OR MM_PTE_USER else E1)
             in (Inr E2, store64 Slot E2 s2))
      else (Inr Entry, s))"

definition MmpWalk_sanitize ::
    "u64 \<Rightarrow> bool \<Rightarrow> u64 \<Rightarrow> u64 \<Rightarrow> 'a MM_GLOBALS_scheme \<Rightarrow> u64 \<times> 'a MM_GLOBALS_scheme" where
  "MmpWalk_sanitize VirtualAddress CreateMissing Slot Entry s =
     (if has_flag Entry MM_PTE_PRESENT \<and> MmpIsUserAddress VirtualAddress \<and> CreateMissing then
        let Sanitized = (Entry OR MM_PTE_USER) AND NOT MM_PTE_NX in
        if Sanitized \<noteq> Entry then (Sanitized, store64 Slot Sanitized s) else (Entry, s)
      else (Entry, s))"

definition MmpWalk_create ::
    "u64 \<Rightarrow> bool \<Rightarrow> u64 \<Rightarrow> u64 \<Rightarrow> 'a MM_GLOBALS_scheme \<Rightarrow> (KSTATUS + u64) \<times> 'a MM_GLOBALS_scheme" where
  "MmpWalk_create VirtualAddress CreateMissing Slot Entry s =
     (if \<not> has_flag Entry MM_PTE_PRESENT then
        (if \<not> CreateMissing then (Inl KSTATUS_NOT_FOUND, s)
         else case MmAllocPage True s of
           (Inl _, s1) \<Rightarrow> (Inl KSTATUS_INIT_FAILED, s1)
         | (Inr NextTablePa, s1) \<Rightarrow>
             let s2 = store_table (MmpPhysToVirtTable s1 NextTablePa) (\<lambda>_ _. 0) 0 512 s1;
                 E1 = NextTablePa OR MM_PTE_PRESENT OR MM_PTE_WRITABLE;
                 E2 = (if MmpIsUserAddress VirtualAddress then E1 OR MM_PTE_USER else E1)
             in (Inr E2, store64 Slot E2 s2))
      else (Inr Entry, s))"

definition MmpWalk_level ::
    "u64 \<Rightarrow> bool \<Rightarrow> nat \<Rightarrow> u64 \<Rightarrow> 'a MM_GLOBALS_scheme \<Rightarrow> (KSTATUS + u64) \<times> 'a MM_GLOBALS_scheme" where
  "MmpWalk_level VirtualAddress CreateMissing Level Table s =
     (let Slot = elem_ptr Table (walk_index VirtualAddress Level) in
      case MmpWalk_split VirtualAddress CreateMissing Level Slot (load64 Slot s) s of
        (Inl st, s1) \<Rightarrow> (Inl st, s1)
      | (Inr E1, s1) \<Rightarrow>
          (case MmpWalk_sanitize VirtualAddress CreateMissing Slot E1 s1 of
             (E2, s2) \<Rightarrow>
               (case MmpWalk_create VirtualAddress CreateMissing Slot E2 s2 of
                  (Inl st, s3) \<Rightarrow> (Inl st, s3)
                | (Inr E3, s3) \<Rightarrow> (Inr (MmpPhysToVirtTable s3 (E3 AND MM_PTE_ADDR_MASK)), s3))))"

fun MmpWalk_loop ::
    "u64 \<Rightarrow> bool \<Rightarrow> nat \<Rightarrow> nat \<Rightarrow> u64 \<Rightarrow> 'a MM_GLOBALS_scheme \<Rightarrow> (KSTATUS + u64) \<times> 'a MM_GLOBALS_scheme" where
  "MmpWalk_loop VirtualAddress CreateMissing Level 0 Table s = (Inr Table, s)"
| "MmpWalk_loop VirtualAddress CreateMissing Level (Suc k) Table s =
     (case MmpWalk_level VirtualAddress CreateMissing Level Table s of
        (Inl st, s1) \<Rightarrow> (Inl st, s1)
      | (Inr Table', s1) \<Rightarrow> MmpWalk_loop VirtualAddress CreateMissing (Suc Level) k Table' s1)"

definition MmpWalkToPte ::
    "ptr \<Rightarrow> u64 \<Rightarrow> bool \<Rightarrow> outptr \<Rightarrow> 'a MM_GLOBALS_scheme \<Rightarrow> ((KSTATUS + u64) \<times> 'a MM_GLOBALS_scheme) option"
  where
  "MmpWalkToPte AddressSpace VirtualAddress CreateMissing OutPte s =
     (case AddressSpace of
        None \<Rightarrow> Some (Inl KSTATUS_INVALID_PARAMETER, s)
      | Some a \<Rightarrow>
          if \<not> OutPte \<or> \<not> MmpIsCanonicalAddress VirtualAddress then Some (Inl KSTATUS_INVALID_PARAMETER, s)
          else
            let Root = as_RootTablePhysical (gMmAddressSpacePool s a) in
            if Root = 0 then None
            else Some (case MmpWalk_loop VirtualAddress CreateMissing 0 3 (MmpPhysToVirtTable s Root) s of
                         (Inl st, s1) \<Rightarrow> (Inl st, s1)
                       | (Inr Table, s1) \<Rightarrow> (Inr (elem_ptr Table (walk_index VirtualAddress 3)), s1)))"

subsection \<open>Operations on one page\<close>

definition page_aligned :: "u64 \<Rightarrow> bool" where
  "page_aligned a \<longleftrightarrow> a mod MM_PAGE_SIZE = 0"

definition MmAsMapPage ::
    "ptr \<Rightarrow> u64 \<Rightarrow> u64 \<Rightarrow> u64 \<Rightarrow> 'a MM_GLOBALS_scheme \<Rightarrow> (KSTATUS \<times> 'a MM_GLOBALS_scheme) option" where
  "MmAsMapPage AddressSpace VirtualAddress PhysicalAddress Flags s =
     (if \<not> gMmReady s \<or> AddressSpace = None \<or> \<not> page_aligned VirtualAddress \<or> \<not> page_aligned PhysicalAddress
      then Some (KSTATUS_INVALID_PARAMETER, s)
      else do {
        r \<leftarrow> MmpWalkToPte AddressSpace VirtualAddress True True s;
        Some (case r of
            (Inl Status, s1) \<Rightarrow> (Status, s1)
          | (Inr Pte, s1) \<Rightarrow>
              let s2 = (if has_flag (load64 Pte s1) MM_PTE_PRESENT
                        then MmpReleasePage (load64 Pte s1 AND MM_PTE_ADDR_MASK) s1 else s1)
              in (KSTATUS_SUCCESS,
                  store64 Pte ((PhysicalAddress AND MM_PTE_ADDR_MASK) OR Flags OR MM_PTE_PRESENT) s2)) })"

definition MmAsUnmapPage ::
    "ptr \<Rightarrow> u64 \<Rightarrow> 'a MM_GLOBALS_scheme \<Rightarrow> (KSTATUS \<times> 'a MM_GLOBALS_scheme) option" where
  "MmAsUnmapPage AddressSpace VirtualAddress s =
     (if \<not> gMmReady s \<or> AddressSpace = None \<or> \<not> page_aligned VirtualAddress
      then Some (KSTATUS_INVALID_PARAMETER, s)
      else do {
        r \<leftarrow> MmpWalkToPte AddressSpace VirtualAddress False True s;
        Some (case r of
            (Inl Status, s1) \<Rightarrow> (Status, s1)
          | (Inr Pte, s1) \<Rightarrow>
              if \<not> has_flag (load64 Pte s1) MM_PTE_PRESENT then (KSTATUS_NOT_FOUND, s1)
              else (KSTATUS_SUCCESS,
                    store64 Pte 0 (MmpReleasePage (load64 Pte s1 AND MM_PTE_ADDR_MASK) s1))) })"

definition MmAsProtectPage ::
    "ptr \<Rightarrow> u64 \<Rightarrow> u64 \<Rightarrow> 'a MM_GLOBALS_scheme \<Rightarrow> (KSTATUS \<times> 'a MM_GLOBALS_scheme) option" where
  "MmAsProtectPage AddressSpace VirtualAddress NewFlags s =
     (if \<not> gMmReady s \<or> AddressSpace = None \<or> \<not> page_aligned VirtualAddress
      then Some (KSTATUS_INVALID_PARAMETER, s)
      else do {
        r \<leftarrow> MmpWalkToPte AddressSpace VirtualAddress False True s;
        Some (case r of
            (Inl Status, s1) \<Rightarrow> (Status, s1)
          | (Inr Pte, s1) \<Rightarrow>
              if \<not> has_flag (load64 Pte s1) MM_PTE_PRESENT then (KSTATUS_NOT_FOUND, s1)
              else (KSTATUS_SUCCESS,
                    store64 Pte ((load64 Pte s1 AND MM_PTE_ADDR_MASK) OR NewFlags OR MM_PTE_PRESENT) s1)) })"

definition MmAsQueryPte ::
    "ptr \<Rightarrow> u64 \<Rightarrow> outptr \<Rightarrow> 'a MM_GLOBALS_scheme \<Rightarrow> ((KSTATUS + u64) \<times> 'a MM_GLOBALS_scheme) option" where
  "MmAsQueryPte AddressSpace VirtualAddress OutPteValue s =
     (if \<not> gMmReady s \<or> AddressSpace = None \<or> \<not> OutPteValue \<or> \<not> page_aligned VirtualAddress
      then Some (Inl KSTATUS_INVALID_PARAMETER, s)
      else do {
        r \<leftarrow> MmpWalkToPte AddressSpace VirtualAddress False True s;
        Some (case r of
            (Inl Status, s1) \<Rightarrow> (Inl Status, s1)
          | (Inr Pte, s1) \<Rightarrow> (Inr (load64 Pte s1), s1)) })"

section \<open>Specification\<close>

text \<open>
  \<open>slot a i\<close> is the physical address of entry \<open>i\<close> of the table at \<open>a\<close>.  A level assignment
  \<open>lvl\<close> says which physical pages are page tables and of which level (4 for a root, 1 for a table of
  4 KiB entries); \<open>pt_inv\<close> says that the tables in memory respect it.
\<close>

definition slot :: "u64 \<Rightarrow> nat \<Rightarrow> u64" where
  "slot a i = (a AND MM_PTE_ADDR_MASK) + of_nat i * 8"

type_synonym levels = "u64 \<Rightarrow> nat option"

definition table_entry :: "u64 \<Rightarrow> bool" where
  "table_entry e \<longleftrightarrow> has_flag e MM_PTE_PRESENT \<and> \<not> has_flag e MM_PTE_LARGE"

definition levels_ok :: "levels \<Rightarrow> 'a MM_GLOBALS_scheme \<Rightarrow> bool" where
  "levels_ok lvl s \<longleftrightarrow> (\<forall>a l. lvl a = Some l \<longrightarrow>
     1 \<le> l \<and> l \<le> 4 \<and> a AND MM_PTE_ADDR_MASK = a \<and> page_alloc s (unat a div 4096))"

definition entries_ok :: "levels \<Rightarrow> 'a MM_GLOBALS_scheme \<Rightarrow> bool" where
  "entries_ok lvl s \<longleftrightarrow> (\<forall>a l i. lvl a = Some (Suc l) \<and> 1 \<le> l \<and> i < 512 \<and> table_entry (hw_mem s (slot a i)) \<longrightarrow>
     lvl (hw_mem s (slot a i) AND MM_PTE_ADDR_MASK) = Some l)"

definition pt_inv :: "levels \<Rightarrow> 'a MM_GLOBALS_scheme \<Rightarrow> bool" where
  "pt_inv lvl s \<longleftrightarrow> pages_wf s \<and> gMmReady s \<and> levels_ok lvl s \<and> entries_ok lvl s"

text \<open>\<open>walk_path s va L k a b\<close>: from the table at \<open>a\<close>, following \<open>k\<close> entries for \<open>va\<close> from level \<open>L\<close> on
  leads to the table at \<open>b\<close>.\<close>

fun walk_path :: "'a MM_GLOBALS_scheme \<Rightarrow> u64 \<Rightarrow> nat \<Rightarrow> nat \<Rightarrow> u64 \<Rightarrow> u64 \<Rightarrow> bool" where
  "walk_path s va L 0 a b \<longleftrightarrow> a = b"
| "walk_path s va L (Suc k) a b \<longleftrightarrow> (let e = hw_mem s (slot a (walk_index va L)) in
     table_entry e \<and> walk_path s va (Suc L) k (e AND MM_PTE_ADDR_MASK) b)"

section \<open>Addresses\<close>

lemma addr_mask_split: "(a :: u64) AND MM_PTE_ADDR_MASK = (a AND mask 52) AND NOT (mask 12)"
proof -
  have "MM_PTE_ADDR_MASK = mask 52 AND NOT (mask 12)"
    by (simp add: MM_PTE_ADDR_MASK_def mask_eq_decr_exp)
  then show ?thesis by (simp add: and.assoc)
qed

lemma addr_mask_idem [simp]: "a AND MM_PTE_ADDR_MASK AND MM_PTE_ADDR_MASK = (a AND MM_PTE_ADDR_MASK)"
  by (simp add: and.assoc)

lemma unat_addr_mask: "unat (a AND MM_PTE_ADDR_MASK) = unat (a AND mask 52) div 4096 * 4096"
  using unat_align [of 12 "a AND mask 52"] by (simp add: addr_mask_split)

lemma unat_masked_bound: "unat (a AND MM_PTE_ADDR_MASK) + 4096 \<le> 2 ^ 52"
proof -
  have "unat (a AND mask 52 :: u64) = take_bit 52 (unat a)"
    by (simp flip: take_bit_eq_mask add: unsigned_take_bit_eq)
  then have "unat (a AND mask 52 :: u64) < 2 ^ 52" by (simp add: take_bit_eq_mod)
  then show ?thesis unfolding unat_addr_mask by simp
qed

lemma unat_slot: "i < 512 \<Longrightarrow> unat (slot a i) = unat (a AND MM_PTE_ADDR_MASK) + 8 * i"
  using unat_masked_bound [of a] by (simp add: slot_def unat_word_ariths unat_of_nat mult.commute)

lemma slot_inj:
  assumes "slot a i = slot b j" "i < 512" "j < 512"
  shows "a AND MM_PTE_ADDR_MASK = (b AND MM_PTE_ADDR_MASK)" "i = j"
proof -
  define m n where "m = unat (a AND mask 52) div 4096" and "n = unat (b AND mask 52) div 4096"
  have e: "m * 4096 + 8 * i = n * 4096 + 8 * j"
    using assms unat_slot [of i a] unat_slot [of j b] by (simp add: unat_addr_mask m_def n_def)
  then have mn: "m = n" using assms(2,3) by linarith
  with e show "i = j" by simp
  have "unat (a AND MM_PTE_ADDR_MASK) = unat (b AND MM_PTE_ADDR_MASK)"
    using mn by (simp add: unat_addr_mask m_def n_def)
  then show "a AND MM_PTE_ADDR_MASK = (b AND MM_PTE_ADDR_MASK)" by (rule unsigned_word_eqI)
qed

lemma slot_masked [simp]: "slot (a AND MM_PTE_ADDR_MASK) i = slot a i"
  by (simp add: slot_def)

lemma kva_table [simp]: "kva_to_phys s (elem_ptr (MmpPhysToVirtTable s a) i) = slot a i"
  by (simp add: kva_to_phys_def elem_ptr_def MmpPhysToVirtTable_def MmpPhysToVirtBootstrapTable_def slot_def)

lemma page_pa_masked:
  assumes "unat pa = p * 4096" "p < 2 ^ 32"
  shows "pa AND MM_PTE_ADDR_MASK = pa"
proof (rule unsigned_word_eqI)
  have "unat (pa AND mask 52 :: u64) = take_bit 52 (unat pa)"
    by (simp flip: take_bit_eq_mask add: unsigned_take_bit_eq)
  then have "unat (pa AND mask 52) = unat pa" using assms by (simp add: take_bit_eq_mod)
  then show "unat (pa AND MM_PTE_ADDR_MASK) = unat pa" using assms by (simp add: unat_addr_mask)
qed

text \<open>Flags lie outside the address bits.\<close>

lemma flag_and_mask:
  "MM_PTE_PRESENT AND MM_PTE_ADDR_MASK = 0" "MM_PTE_WRITABLE AND MM_PTE_ADDR_MASK = 0"
  "MM_PTE_USER AND MM_PTE_ADDR_MASK = 0" "MM_PTE_NX AND MM_PTE_ADDR_MASK = 0"
  "MM_PTE_LARGE AND MM_PTE_ADDR_MASK = 0" "MM_PTE_SOFT_COW AND MM_PTE_ADDR_MASK = 0"
  by (simp_all add: MM_PTE_PRESENT_def MM_PTE_WRITABLE_def MM_PTE_USER_def MM_PTE_NX_def MM_PTE_LARGE_def
      MM_PTE_SOFT_COW_def MM_PTE_ADDR_MASK_def)

lemma and_or_distrib: "((x :: u64) OR y) AND z = (x AND z) OR (y AND z)"
  by (rule bit_word_eqI) (auto simp: bit_simps)

lemma masked_and_large:
  assumes "pa AND MM_PTE_ADDR_MASK = pa"
  shows "pa AND MM_PTE_LARGE = 0"
proof -
  have "pa AND MM_PTE_LARGE = pa AND (MM_PTE_LARGE AND MM_PTE_ADDR_MASK)"
    using assms by (metis and.assoc and.commute)
  then show ?thesis by (simp add: flag_and_mask)
qed

definition link_entry :: "u64 \<Rightarrow> u64 \<Rightarrow> bool" where
  "link_entry pa e \<longleftrightarrow> table_entry e \<and> e AND MM_PTE_ADDR_MASK = pa"

lemma link_entry_new:
  assumes "pa AND MM_PTE_ADDR_MASK = pa"
  shows "link_entry pa (pa OR MM_PTE_PRESENT OR MM_PTE_WRITABLE)"
    "link_entry pa (pa OR MM_PTE_PRESENT OR MM_PTE_WRITABLE OR MM_PTE_USER)"
proof -
  have "(pa OR MM_PTE_PRESENT OR x) AND MM_PTE_PRESENT \<noteq> 0" for x
  proof -
    have "bit ((pa OR MM_PTE_PRESENT OR x) AND MM_PTE_PRESENT) 0"
      by (simp add: MM_PTE_PRESENT_def bit_simps)
    then show ?thesis by auto
  qed
  then show "link_entry pa (pa OR MM_PTE_PRESENT OR MM_PTE_WRITABLE)"
    "link_entry pa (pa OR MM_PTE_PRESENT OR MM_PTE_WRITABLE OR MM_PTE_USER)"
    using assms masked_and_large [OF assms]
    by (simp_all add: link_entry_def table_entry_def has_flag_def and_or_distrib flag_and_mask)
      (simp_all add: MM_PTE_PRESENT_def MM_PTE_WRITABLE_def MM_PTE_USER_def MM_PTE_LARGE_def)
qed

section \<open>Stores\<close>

lemma load_table [simp]: "load64 (elem_ptr (MmpPhysToVirtTable s a) i) s = hw_mem s (slot a i)"
  by (simp add: load64_def)

lemma store_table_shape: "\<exists>m. store_table T f i k s = s\<lparr>hw_mem := m\<rparr>"
proof (induction T f i k s rule: store_table.induct)
  case (1 T f i s)
  then show ?case by (metis store_table.simps(1) HAL_GLOBALS.surjective HAL_GLOBALS.update_convs(8))
next
  case (2 T f i k s)
  then show ?case by (auto simp: store64_def)
qed

lemma pages_wf_mem [simp]: "pages_wf (s\<lparr>hw_mem := m\<rparr>) = pages_wf s" "page_alloc (s\<lparr>hw_mem := m\<rparr>) = page_alloc s"
  by (simp_all add: pages_wf_def page_alloc_def fun_eq_iff)

lemma table_ptr_mem [simp]: "MmpPhysToVirtTable (s\<lparr>hw_mem := m\<rparr>) a = MmpPhysToVirtTable s a"
  "MmpPhysToVirtPage (s\<lparr>hw_mem := m\<rparr>) a = MmpPhysToVirtPage s a"
  by (simp_all add: MmpPhysToVirtTable_def MmpPhysToVirtPage_def)

lemma store_table_ptr [simp]:
  "store64 (elem_ptr (MmpPhysToVirtTable s a) i) v s = s\<lparr>hw_mem := (hw_mem s)(slot a i := v)\<rparr>"
  by (simp add: store64_def)

lemma store_table_slot_aux:
  assumes "i + k \<le> 512" "j < 512"
  shows "hw_mem (store_table (MmpPhysToVirtTable s a) (\<lambda>j _. f j) i k s) (slot b j) =
    (if b AND MM_PTE_ADDR_MASK = (a AND MM_PTE_ADDR_MASK) \<and> i \<le> j \<and> j < i + k then f j else hw_mem s (slot b j))"
  using assms
proof (induction k arbitrary: i s)
  case (Suc k)
  let ?s = "s\<lparr>hw_mem := (hw_mem s)(slot a i := f i)\<rparr>"
  have same: "slot b j = slot a i \<longleftrightarrow> b AND MM_PTE_ADDR_MASK = (a AND MM_PTE_ADDR_MASK) \<and> i = j"
    using slot_inj [of b j a i] Suc.prems by (auto simp: slot_def)
  have "hw_mem (store_table (MmpPhysToVirtTable s a) (\<lambda>j _. f j) i (Suc k) s) (slot b j) =
      hw_mem (store_table (MmpPhysToVirtTable ?s a) (\<lambda>j _. f j) (Suc i) k ?s) (slot b j)" by simp
  also have "\<dots> = (if b AND MM_PTE_ADDR_MASK = (a AND MM_PTE_ADDR_MASK) \<and> Suc i \<le> j \<and> j < Suc i + k
      then f j else hw_mem ?s (slot b j))"
    using Suc.prems by (intro Suc.IH) auto
  finally show ?case using same by auto
qed auto

lemma store_table_slot:
  "j < 512 \<Longrightarrow> hw_mem (store_table (MmpPhysToVirtTable s a) (\<lambda>j _. f j) 0 512 s) (slot b j) =
    (if b AND MM_PTE_ADDR_MASK = (a AND MM_PTE_ADDR_MASK) then f j else hw_mem s (slot b j))"
  by (simp add: store_table_slot_aux)

section \<open>The walk keeps the page tables well formed\<close>

text \<open>What one step of the walk may do: add tables, and change entry \<open>i\<close> of the table at \<open>a\<close>, which keeps
  the table it points at, and the permission to write, if it points at one.\<close>

definition same_target :: "'a MM_GLOBALS_scheme \<Rightarrow> 'a MM_GLOBALS_scheme \<Rightarrow> u64 \<Rightarrow> bool" where
  "same_target s t x \<longleftrightarrow> (table_entry (hw_mem s x) \<longrightarrow>
     table_entry (hw_mem t x) \<and> hw_mem t x AND MM_PTE_ADDR_MASK = (hw_mem s x AND MM_PTE_ADDR_MASK) \<and>
     has_flag (hw_mem t x) MM_PTE_WRITABLE = has_flag (hw_mem s x) MM_PTE_WRITABLE)"

text \<open>Pages that are in use keep their reference counts, and those that are not page tables keep their
  contents.\<close>

definition pages_kept :: "levels \<Rightarrow> levels \<Rightarrow> 'a MM_GLOBALS_scheme \<Rightarrow> 'a MM_GLOBALS_scheme \<Rightarrow> bool" where
  "pages_kept lvl lvl' s t \<longleftrightarrow>
     (\<forall>p. page_alloc s p \<longrightarrow> page_alloc t p \<and> gMmPageRefCount t p = gMmPageRefCount s p) \<and>
     (\<forall>x. x AND MM_PTE_ADDR_MASK = x \<and> page_alloc s (unat x div 4096) \<and> lvl x = None \<longrightarrow>
        lvl' x = None \<and> (\<forall>j<512. hw_mem t (slot x j) = hw_mem s (slot x j)))"

lemma pages_kept_refl: "pages_kept lvl lvl s s"
  by (simp add: pages_kept_def)

lemma pages_kept_trans: "pages_kept lvl lvl1 s s1 \<Longrightarrow> pages_kept lvl1 lvl2 s1 s2 \<Longrightarrow> pages_kept lvl lvl2 s s2"
  by (simp add: pages_kept_def)

definition pt_step :: "levels \<Rightarrow> levels \<Rightarrow> u64 \<Rightarrow> nat \<Rightarrow> 'a MM_GLOBALS_scheme \<Rightarrow> 'a MM_GLOBALS_scheme \<Rightarrow> bool" where
  "pt_step lvl lvl' a i s t \<longleftrightarrow> lvl \<subseteq>\<^sub>m lvl' \<and> pt_inv lvl' t \<and>
     gMmPhysmapReady t = gMmPhysmapReady s \<and> gMmPhysmapBase t = gMmPhysmapBase s \<and>
     gMmAddressSpacePool t = gMmAddressSpacePool s \<and> same_target s t (slot a i) \<and> pages_kept lvl lvl' s t \<and>
     (\<forall>b l j. lvl b = Some l \<and> j < 512 \<and> (b, j) \<noteq> (a, i) \<longrightarrow> hw_mem t (slot b j) = hw_mem s (slot b j))"

lemma pt_step_refl: "pt_inv lvl s \<Longrightarrow> pt_step lvl lvl a i s s"
  by (simp add: pt_step_def same_target_def pages_kept_refl)

lemma pt_step_trans:
  assumes "pt_step lvl lvl1 a i s s1" "pt_step lvl1 lvl2 a i s1 s2"
  shows "pt_step lvl lvl2 a i s s2"
proof -
  have "lvl1 b = Some l" if "lvl b = Some l" for b l
    using assms(1) that by (auto simp: pt_step_def map_le_def dom_def)
  with assms show ?thesis
    by (auto simp: pt_step_def same_target_def intro: map_le_trans pages_kept_trans)
qed

lemma pt_step_ptr: "pt_step lvl lvl' a i s t \<Longrightarrow> MmpPhysToVirtTable t = MmpPhysToVirtTable s"
  by (auto simp: pt_step_def MmpPhysToVirtTable_def fun_eq_iff)

lemma alloc_internal_shape:
  assumes "MmpAllocPageInternal out rc s = (r, t)"
  shows "t = s \<or> (\<exists>P nx. t = (MmpSetPageAllocated P s)
    \<lparr>gMmPageRefCount := (gMmPageRefCount s)(unat P := rc), gMmNextScanPage := nx\<rparr>)"
proof (cases "\<not> out \<or> gMmTrackedPages s = 0")
  case True
  then have "MmpAllocPageInternal out rc s = (Inl KSTATUS_INVALID_PARAMETER, s)"
    by (auto simp: MmpAllocPageInternal_def)
  with assms have "t = s" by simp
  then show ?thesis by (rule disjI1)
next
  case False
  let ?sc = "scan (\<lambda>k. \<not> MmpIsPageAllocated ((gMmNextScanPage s + of_nat k) mod gMmTrackedPages s) s) 0 (tracked s)"
  show ?thesis
  proof (cases ?sc)
    case None
    with False assms have "t = s" by (simp add: MmpAllocPageInternal_def)
    then show ?thesis by (rule disjI1)
  next
    case (Some k)
    define P where "P = (gMmNextScanPage s + of_nat k) mod gMmTrackedPages s"
    from Some False assms have "t = (MmpSetPageAllocated P s)
        \<lparr>gMmPageRefCount := (gMmPageRefCount s)(unat P := rc), gMmNextScanPage := (P + 1) mod gMmTrackedPages s\<rparr>"
      by (simp add: MmpAllocPageInternal_def P_def Let_def del: MmpIsPageAllocated_iff)
    then show ?thesis by blast
  qed
qed

lemma alloc_shape:
  assumes "MmAllocPage True s = (r, t)"
  shows "t = s \<or> (\<exists>P nx. t = (MmpSetPageAllocated P s)
    \<lparr>gMmPageRefCount := (gMmPageRefCount s)(unat P := 1), gMmNextScanPage := nx\<rparr>)"
  using assms alloc_internal_shape [of True 1 s r t] by (auto simp: MmAllocPage_def split: if_splits)

lemma alloc_frame:
  assumes "MmAllocPage True s = (r, t)"
  shows "hw_mem t = hw_mem s" "gMmPhysmapReady t = gMmPhysmapReady s" "gMmPhysmapBase t = gMmPhysmapBase s"
    "gMmAddressSpacePool t = gMmAddressSpacePool s" "gMmReady t = gMmReady s"
  using alloc_shape [OF assms] by (auto simp: MmpSetPageAllocated_def Let_def)

lemma alloc_fail_inv:
  assumes "pt_inv lvl s" "MmAllocPage True s = (Inl st, t)"
  shows "t = s"
proof -
  from assms have "MmpAllocPageInternal True 1 s = (Inl st, t)" "pages_wf s"
    by (simp_all add: pt_inv_def MmAllocPage_ready)
  with MmpAllocPageInternal_Inl show ?thesis by blast
qed

text \<open>Allocate a table, fill it, and link it into entry \<open>i\<close> of the table at \<open>a\<close>.\<close>

lemma link_table:
  assumes inv: "pt_inv lvl s" and a: "lvl a = Some (Suc l)" "1 \<le> l" "i < 512"
    and al: "MmAllocPage True s = (Inr pa, s1)"
    and nt: "\<not> table_entry (hw_mem s (slot a i))"
    and f: "l = 1 \<or> (\<forall>j<512. \<not> table_entry (f j))"
    and E: "pa AND MM_PTE_ADDR_MASK = pa \<Longrightarrow> link_entry pa E"
    and t: "t = store64 (elem_ptr (MmpPhysToVirtTable s a) i) E
              (store_table (MmpPhysToVirtTable s1 pa) (\<lambda>j _. f j) 0 512 s1)"
  shows "pt_step lvl (lvl(pa \<mapsto> l)) a i s t" "hw_mem t (slot a i) = E" "link_entry pa E" "lvl pa = None"
proof -
  from inv have wf: "pages_wf s" and rdy: "gMmReady s" by (simp_all add: pt_inv_def)
  obtain p where p: "p < tracked s" "\<not> page_alloc s p" "unat pa = p * 4096" "page_alloc s1 = (page_alloc s)(p := True)"
    "gMmPageRefCount s1 = (gMmPageRefCount s)(p := 1)"
    using MmpAllocPageInternal_Inr [OF wf al [unfolded MmAllocPage_ready [OF rdy]]] by metis
  have wf1: "pages_wf s1" using alloc_pages_wf [OF wf al [unfolded MmAllocPage_ready [OF rdy]]] .
  note fr = alloc_frame [OF al]
  have "p < 2 ^ 32" using p(1) unsigned_less [of "gMmTrackedPages s", where 'a = nat] by simp
  with p(3) have m: "pa AND MM_PTE_ADDR_MASK = pa" by (rule page_pa_masked)
  with E show le: "link_entry pa E" by simp
  have pp: "unat pa div 4096 = p" using p(3) by simp
  with inv p(2) show fresh: "lvl pa = None"
    by (cases "lvl pa") (auto simp: pt_inv_def levels_ok_def)
  have masked: "b AND MM_PTE_ADDR_MASK = b" if "lvl b = Some k" for b k
    using inv that by (auto simp: pt_inv_def levels_ok_def)
  define s2 where "s2 = store_table (MmpPhysToVirtTable s1 pa) (\<lambda>j _. f j) 0 512 s1"
  obtain mm where mm: "s2 = s1\<lparr>hw_mem := mm\<rparr>" using store_table_shape s2_def by blast
  have ptr: "MmpPhysToVirtTable s = MmpPhysToVirtTable s2"
    by (simp add: fun_eq_iff mm MmpPhysToVirtTable_def fr)
  have t2: "t = s2\<lparr>hw_mem := (hw_mem s2)(slot a i := E)\<rparr>"
    unfolding t s2_def [symmetric] ptr by simp
  then show E': "hw_mem t (slot a i) = E" by simp
  have mem: "hw_mem t (slot b j) = hw_mem s (slot b j)" if "lvl b = Some k" "j < 512" "(b, j) \<noteq> (a, i)" for b k j
  proof -
    have "slot b j \<noteq> slot a i" using slot_inj [of b j a i] that a masked by auto
    moreover have "b \<noteq> pa" using that fresh by auto
    ultimately show ?thesis
      using store_table_slot [OF that(2), of s1 pa f b] masked [OF that(1)] m by (simp add: t2 s2_def fr)
  qed
  have new: "hw_mem t (slot pa j) = f j" if "j < 512" for j
  proof -
    have "slot pa j \<noteq> slot a i" using slot_inj [of pa j a i] that a masked [OF a(1)] m fresh by auto
    then show ?thesis using store_table_slot [OF that, of s1 pa f pa] by (simp add: t2 s2_def)
  qed
  have "entries_ok (lvl(pa \<mapsto> l)) t"
  proof (unfold entries_ok_def, intro allI impI, elim conjE)
    fix b k j
    assume b: "(lvl(pa \<mapsto> l)) b = Some (Suc k)" and k: "1 \<le> k" and j: "j < 512" and te: "table_entry (hw_mem t (slot b j))"
    show "(lvl(pa \<mapsto> l)) (hw_mem t (slot b j) AND MM_PTE_ADDR_MASK) = Some k"
    proof (cases "b = pa")
      case True
      then show ?thesis using b k f new [OF j] te j by auto
    next
      case False
      then have lb: "lvl b = Some (Suc k)" using b by simp
      show ?thesis
      proof (cases "(b, j) = (a, i)")
        case True
        then show ?thesis using lb a(1) E' le by (auto simp: link_entry_def)
      next
        case False
        from mem [OF lb j this] te inv lb k j have "lvl (hw_mem t (slot b j) AND MM_PTE_ADDR_MASK) = Some k"
          by (auto simp: pt_inv_def entries_ok_def)
        then show ?thesis using fresh by auto
      qed
    qed
  qed
  moreover have "levels_ok (lvl(pa \<mapsto> l)) t"
  proof -
    have "Suc l \<le> 4" using inv a(1) unfolding pt_inv_def levels_ok_def by blast
    then show ?thesis
      using inv a(2) m p(3,4) by (auto simp: pt_inv_def levels_ok_def t2 mm)
  qed
  moreover have "pages_kept lvl (lvl(pa \<mapsto> l)) s t"
  proof -
    have "x \<noteq> pa \<and> (\<forall>j<512. hw_mem t (slot x j) = hw_mem s (slot x j))"
      if x: "x AND MM_PTE_ADDR_MASK = x" "page_alloc s (unat x div 4096)" "lvl x = None" for x
    proof -
      have "x \<noteq> pa" using x(2) p(2) pp by auto
      moreover have "slot x j \<noteq> slot a i" if "j < 512" for j
        using slot_inj(1) [of x j a i] that a(1,3) masked [OF a(1)] x(1,3) by auto
      ultimately show ?thesis
        using store_table_slot [of _ s1 pa f x] x(1) m by (simp add: t2 s2_def fr)
    qed
    then show ?thesis using p(2,4,5) by (auto simp: pages_kept_def t2 mm)
  qed
  ultimately show "pt_step lvl (lvl(pa \<mapsto> l)) a i s t"
    using wf1 rdy fr fresh mem nt by (auto simp: pt_step_def pt_inv_def t2 mm map_le_def dom_def same_target_def)
qed

text \<open>Changing flags of an entry without touching its address, present and large bits.\<close>

lemma set_entry_step:
  assumes inv: "pt_inv lvl s" and a: "lvl a = Some l" "i < 512"
    and e: "table_entry E = table_entry (hw_mem s (slot a i))"
      "E AND MM_PTE_ADDR_MASK = (hw_mem s (slot a i) AND MM_PTE_ADDR_MASK)"
      "has_flag E MM_PTE_WRITABLE = has_flag (hw_mem s (slot a i)) MM_PTE_WRITABLE"
  shows "pt_step lvl lvl a i s (s\<lparr>hw_mem := (hw_mem s)(slot a i := E)\<rparr>)"
proof -
  let ?t = "s\<lparr>hw_mem := (hw_mem s)(slot a i := E)\<rparr>"
  have masked: "b AND MM_PTE_ADDR_MASK = b" if "lvl b = Some k" for b k
    using inv that by (auto simp: pt_inv_def levels_ok_def)
  have ne: "slot b j \<noteq> slot a i" if "lvl b = Some k" "j < 512" "(b, j) \<noteq> (a, i)" for b k j
    using slot_inj [of b j a i] that a masked by auto
  have "entries_ok lvl ?t"
  proof (unfold entries_ok_def, intro allI impI, elim conjE)
    fix b k j
    assume b: "lvl b = Some (Suc k)" "1 \<le> k" "j < 512" "table_entry (hw_mem ?t (slot b j))"
    show "lvl (hw_mem ?t (slot b j) AND MM_PTE_ADDR_MASK) = Some k"
    proof (cases "(b, j) = (a, i)")
      case True
      then show ?thesis using b e inv by (auto simp: pt_inv_def entries_ok_def)
    next
      case False
      then show ?thesis using b ne [OF b(1,3) False] inv by (auto simp: pt_inv_def entries_ok_def)
    qed
  qed
  moreover have "pages_kept lvl lvl s ?t"
  proof -
    have "slot x j \<noteq> slot a i" if "x AND MM_PTE_ADDR_MASK = x" "lvl x = None" "j < 512" for x j
      using slot_inj(1) [of x j a i] that a masked [OF a(1)] by auto
    then show ?thesis by (auto simp: pages_kept_def)
  qed
  ultimately show ?thesis
    using inv ne e by (auto simp: pt_step_def pt_inv_def levels_ok_def same_target_def)
qed

lemma sanitized_entry:
  "table_entry ((E OR MM_PTE_USER) AND NOT MM_PTE_NX) = table_entry E"
  "((E OR MM_PTE_USER) AND NOT MM_PTE_NX) AND MM_PTE_ADDR_MASK = (E AND MM_PTE_ADDR_MASK)"
  "has_flag ((E OR MM_PTE_USER) AND NOT MM_PTE_NX) MM_PTE_PRESENT = has_flag E MM_PTE_PRESENT"
  "has_flag ((E OR MM_PTE_USER) AND NOT MM_PTE_NX) MM_PTE_WRITABLE = has_flag E MM_PTE_WRITABLE"
proof -
  have m: "NOT MM_PTE_NX AND x = x" if "MM_PTE_NX AND x = 0" for x :: u64
  proof (rule bit_word_eqI)
    fix n assume "n < LENGTH(64)"
    moreover have "\<not> bit (MM_PTE_NX AND x) n" using that by simp
    ultimately show "bit (NOT MM_PTE_NX AND x) n = bit x n" by (auto simp: bit_and_iff bit_not_iff)
  qed
  have f: "((E OR MM_PTE_USER) AND NOT MM_PTE_NX) AND x = (E AND x)"
    if "MM_PTE_NX AND x = 0" "MM_PTE_USER AND x = 0" for x
    using that m [OF that(1)] by (simp add: and.assoc and_or_distrib)
  show "((E OR MM_PTE_USER) AND NOT MM_PTE_NX) AND MM_PTE_ADDR_MASK = (E AND MM_PTE_ADDR_MASK)"
    by (rule f) (simp_all add: flag_and_mask)
  show p: "has_flag ((E OR MM_PTE_USER) AND NOT MM_PTE_NX) MM_PTE_PRESENT = has_flag E MM_PTE_PRESENT"
    unfolding has_flag_def by (subst f) (simp_all add: MM_PTE_NX_def MM_PTE_PRESENT_def MM_PTE_USER_def)
  show "has_flag ((E OR MM_PTE_USER) AND NOT MM_PTE_NX) MM_PTE_WRITABLE = has_flag E MM_PTE_WRITABLE"
    unfolding has_flag_def by (subst f) (simp_all add: MM_PTE_NX_def MM_PTE_WRITABLE_def MM_PTE_USER_def)
  have "has_flag ((E OR MM_PTE_USER) AND NOT MM_PTE_NX) MM_PTE_LARGE = has_flag E MM_PTE_LARGE"
    unfolding has_flag_def by (subst f) (simp_all add: MM_PTE_NX_def MM_PTE_LARGE_def MM_PTE_USER_def)
  with p show "table_entry ((E OR MM_PTE_USER) AND NOT MM_PTE_NX) = table_entry E"
    by (simp add: table_entry_def)
qed

text \<open>Each part of an iteration is a step, and the entry it returns is the one in memory.\<close>

lemma split_step:
  assumes inv: "pt_inv lvl s" and a: "lvl a = Some (4 - L)" "L < 3" "i < 512"
    and r: "MmpWalk_split va c L (elem_ptr (MmpPhysToVirtTable s a) i) (hw_mem s (slot a i)) s = (r, t)"
  shows "case r of Inl st \<Rightarrow> t = s
    | Inr E \<Rightarrow> \<exists>lvl'. pt_step lvl lvl' a i s t \<and> hw_mem t (slot a i) = E \<and> (has_flag E MM_PTE_PRESENT \<longrightarrow> table_entry E) \<and>
        (\<not> c \<longrightarrow> t = s)"
proof (cases "has_flag (hw_mem s (slot a i)) MM_PTE_PRESENT \<and> has_flag (hw_mem s (slot a i)) MM_PTE_LARGE \<and> L = 2 \<and> c")
  case False
  with r inv show ?thesis
    by (auto simp: MmpWalk_split_def table_entry_def intro!: exI [of _ lvl] pt_step_refl split: if_splits)
next
  case True
  obtain q s1 where al: "MmAllocPage True s = (q, s1)" by fastforce
  show ?thesis
  proof (cases q)
    case (Inl st)
    with True al r alloc_fail_inv [OF inv] show ?thesis by (auto simp: MmpWalk_split_def)
  next
    case (Inr pa)
    let ?e = "hw_mem s (slot a i)"
    let ?f = "\<lambda>j. ((?e AND MM_PTE_ADDR_MASK) + of_nat j * MM_PAGE_SIZE) OR
                  (?e AND (MM_PTE_WRITABLE OR MM_PTE_USER OR MM_PTE_NX)) OR MM_PTE_PRESENT"
    define E where "E = (if va < MM_USER_TOP then pa OR MM_PTE_PRESENT OR MM_PTE_WRITABLE OR MM_PTE_USER
      else pa OR MM_PTE_PRESENT OR MM_PTE_WRITABLE)"
    have t: "t = store64 (elem_ptr (MmpPhysToVirtTable s a) i) E
        (store_table (MmpPhysToVirtTable s1 pa) (\<lambda>j _. ?f j) 0 512 s1)" and rE: "r = Inr E"
      using r True al Inr by (auto simp: MmpWalk_split_def E_def Let_def or.assoc)
    have le: "pa AND MM_PTE_ADDR_MASK = pa \<Longrightarrow> link_entry pa E"
      using link_entry_new by (simp add: E_def)
    have a2: "lvl a = Some (Suc 1)" using a True by simp
    have nt: "\<not> table_entry ?e" using True by (simp add: table_entry_def)
    from link_table [OF inv a2 order_refl a(3) al [unfolded Inr] nt disjI1 [OF refl] le t]
    show ?thesis using rE True by (auto simp: link_entry_def)
  qed
qed

lemma sanitize_step:
  assumes inv: "pt_inv lvl s" and a: "lvl a = Some l" "i < 512" and E: "hw_mem s (slot a i) = E"
    and pr: "has_flag E MM_PTE_PRESENT \<longrightarrow> table_entry E"
    and r: "MmpWalk_sanitize va c (elem_ptr (MmpPhysToVirtTable s a) i) E s = (E', t)"
  shows "pt_step lvl lvl a i s t \<and> hw_mem t (slot a i) = E' \<and> (has_flag E' MM_PTE_PRESENT \<longrightarrow> table_entry E') \<and>
    (\<not> c \<longrightarrow> t = s \<and> E' = E)"
proof -
  have "t = s \<and> E' = E \<or> c \<and> E' = (E OR MM_PTE_USER) AND NOT MM_PTE_NX \<and> has_flag E MM_PTE_PRESENT \<and>
      t = s\<lparr>hw_mem := (hw_mem s)(slot a i := E')\<rparr>"
    using r by (auto simp: MmpWalk_sanitize_def Let_def split: if_splits)
  then show ?thesis
  proof
    assume "t = s \<and> E' = E"
    then show ?thesis using inv E pr by (simp add: pt_step_refl)
  next
    assume x: "c \<and> E' = (E OR MM_PTE_USER) AND NOT MM_PTE_NX \<and> has_flag E MM_PTE_PRESENT \<and>
      t = s\<lparr>hw_mem := (hw_mem s)(slot a i := E')\<rparr>"
    then have "pt_step lvl lvl a i s t"
      using set_entry_step [OF inv a, of E'] E by (simp add: sanitized_entry)
    then show ?thesis using x pr by (simp add: sanitized_entry)
  qed
qed

lemma create_step:
  assumes inv: "pt_inv lvl s" and a: "lvl a = Some (Suc l)" "1 \<le> l" "i < 512" and E: "hw_mem s (slot a i) = E"
    and pr: "has_flag E MM_PTE_PRESENT \<longrightarrow> table_entry E"
    and r: "MmpWalk_create va c (elem_ptr (MmpPhysToVirtTable s a) i) E s = (r, t)"
  shows "case r of Inl st \<Rightarrow> t = s
    | Inr E' \<Rightarrow> \<exists>lvl'. pt_step lvl lvl' a i s t \<and> hw_mem t (slot a i) = E' \<and> table_entry E' \<and>
        lvl' (E' AND MM_PTE_ADDR_MASK) = Some l \<and> (\<not> c \<longrightarrow> t = s)"
proof (cases "has_flag E MM_PTE_PRESENT \<or> \<not> c")
  case True
  have "lvl (E AND MM_PTE_ADDR_MASK) = Some l" if "has_flag E MM_PTE_PRESENT"
    using that inv a E pr by (auto simp: pt_inv_def entries_ok_def)
  with True r inv E pr show ?thesis
    by (auto simp: MmpWalk_create_def intro!: exI [of _ lvl] pt_step_refl split: if_splits)
next
  case False
  obtain q s1 where al: "MmAllocPage True s = (q, s1)" by fastforce
  show ?thesis
  proof (cases q)
    case (Inl st)
    with False al r alloc_fail_inv [OF inv] show ?thesis by (auto simp: MmpWalk_create_def)
  next
    case (Inr pa)
    define N where "N = (if MmpIsUserAddress va then pa OR MM_PTE_PRESENT OR MM_PTE_WRITABLE OR MM_PTE_USER
      else pa OR MM_PTE_PRESENT OR MM_PTE_WRITABLE)"
    have t: "t = store64 (elem_ptr (MmpPhysToVirtTable s a) i) N
        (store_table (MmpPhysToVirtTable s1 pa) (\<lambda>j _. 0) 0 512 s1)" and rE: "r = Inr N"
      using r False al Inr by (auto simp: MmpWalk_create_def N_def Let_def or.assoc)
    have le: "pa AND MM_PTE_ADDR_MASK = pa \<Longrightarrow> link_entry pa N"
      using link_entry_new by (simp add: N_def)
    have z: "l = 1 \<or> (\<forall>j<512. \<not> table_entry ((\<lambda>j. 0) j))" by (simp add: table_entry_def has_flag_def)
    have nt: "\<not> table_entry (hw_mem s (slot a i))" using False E by (simp add: table_entry_def)
    from link_table [OF inv a al [unfolded Inr] nt z le t]
    show ?thesis using rE False by (auto simp: link_entry_def)
  qed
qed

lemma walk_index_less: "walk_index va L < 512"
proof -
  have "unat (x AND 0x1FF :: u64) < 512" for x
  proof -
    have "x AND 0x1FF \<le> (0x1FF :: u64)" by (rule word_and_le1)
    then show ?thesis by (simp add: word_le_nat_alt)
  qed
  then show ?thesis by (simp add: walk_index_def)
qed

lemma level_step:
  assumes inv: "pt_inv lvl s" and a: "lvl a = Some (4 - L)" "L < 3"
    and r: "MmpWalk_level va c L (MmpPhysToVirtTable s a) s = (r, t)"
  shows "case r of Inl st \<Rightarrow> \<exists>lvl'. pt_step lvl lvl' a (walk_index va L) s t
    | Inr T \<Rightarrow> \<exists>lvl' b. pt_step lvl lvl' a (walk_index va L) s t \<and> lvl' b = Some (3 - L) \<and> T = MmpPhysToVirtTable t b \<and>
        table_entry (hw_mem t (slot a (walk_index va L))) \<and>
        hw_mem t (slot a (walk_index va L)) AND MM_PTE_ADDR_MASK = b \<and> (\<not> c \<longrightarrow> t = s)"
proof -
  let ?i = "walk_index va L" and ?p = "elem_ptr (MmpPhysToVirtTable s a) (walk_index va L)"
  note il = walk_index_less [of va L]
  obtain r1 s1 where 1: "MmpWalk_split va c L ?p (hw_mem s (slot a ?i)) s = (r1, s1)" by fastforce
  note st1 = split_step [OF inv a il 1]
  show ?thesis
  proof (cases r1)
    case (Inl st)
    with 1 r st1 inv show ?thesis
      by (auto simp: MmpWalk_level_def Let_def intro!: exI [of _ lvl] pt_step_refl)
  next
    case (Inr E1)
    with st1 obtain lvl1 where s1: "pt_step lvl lvl1 a ?i s s1" "hw_mem s1 (slot a ?i) = E1"
      "has_flag E1 MM_PTE_PRESENT \<longrightarrow> table_entry E1" "\<not> c \<longrightarrow> s1 = s" by auto
    have inv1: "pt_inv lvl1 s1" using s1(1) by (simp add: pt_step_def)
    have a1: "lvl1 a = Some (Suc (3 - L))"
      using s1(1) a by (auto simp: pt_step_def map_le_def dom_def Suc_diff_le)
    have p1: "?p = elem_ptr (MmpPhysToVirtTable s1 a) ?i" using pt_step_ptr [OF s1(1)] by simp
    obtain E2 s2 where 2: "MmpWalk_sanitize va c ?p E1 s1 = (E2, s2)" by fastforce
    note st2 = sanitize_step [OF inv1 a1 il s1(2,3) 2 [unfolded p1]]
    then have inv2: "pt_inv lvl1 s2" by (simp add: pt_step_def)
    have p2: "?p = elem_ptr (MmpPhysToVirtTable s2 a) ?i" using pt_step_ptr [OF conjunct1 [OF st2]] p1 by simp
    obtain r3 s3 where 3: "MmpWalk_create va c ?p E2 s2 = (r3, s3)" by fastforce
    have "1 \<le> 3 - L" using a(2) by simp
    note st3 = create_step [OF inv2 a1 this il conjunct1 [OF conjunct2 [OF st2]]
        conjunct1 [OF conjunct2 [OF conjunct2 [OF st2]]] 3 [unfolded p2]]
    have s12: "pt_step lvl lvl1 a ?i s s2" using pt_step_trans s1(1) st2 by blast
    have res: "(r, t) = (case r3 of Inl st \<Rightarrow> (Inl st, s3)
        | Inr E3 \<Rightarrow> (Inr (MmpPhysToVirtTable s3 (E3 AND MM_PTE_ADDR_MASK)), s3))"
      using r 1 2 3 Inr by (auto simp: MmpWalk_level_def Let_def split: sum.splits)
    show ?thesis
    proof (cases r3)
      case (Inl st)
      with res st3 s12 show ?thesis by auto
    next
      case (Inr E3)
      with st3 obtain lvl3 where s3: "pt_step lvl1 lvl3 a ?i s2 s3" "hw_mem s3 (slot a ?i) = E3" "table_entry E3"
        "lvl3 (E3 AND MM_PTE_ADDR_MASK) = Some (3 - L)" "\<not> c \<longrightarrow> s3 = s2" by auto
      from pt_step_trans [OF s12 s3(1)] s3 res Inr st2 s1(4) show ?thesis by auto
    qed
  qed
qed

section \<open>Whole walks\<close>

lemma walk_read:
  "walk_path s va L k a b \<Longrightarrow> MmpWalk_loop va False L k (MmpPhysToVirtTable s a) s = (Inr (MmpPhysToVirtTable s b), s)"
  by (induction k arbitrary: L a)
    (auto simp: Let_def MmpWalk_level_def MmpWalk_split_def MmpWalk_sanitize_def MmpWalk_create_def table_entry_def)

text \<open>Entries of tables above level 1 decide the path.\<close>

lemma walk_path_cong:
  assumes "walk_path s va L k a b" "pt_inv lvl s" "lvl a = Some (4 - L)" "L + k = 3"
    and "\<And>c l j. lvl c = Some l \<Longrightarrow> 2 \<le> l \<Longrightarrow> j < 512 \<Longrightarrow> hw_mem t (slot c j) = hw_mem s (slot c j)"
  shows "walk_path t va L k a b \<and> lvl b = Some 1"
  using assms(1,3,4)
proof (induction k arbitrary: L a)
  case (Suc k)
  let ?e = "hw_mem s (slot a (walk_index va L))"
  have te: "table_entry ?e" and rest: "walk_path s va (Suc L) k (?e AND MM_PTE_ADDR_MASK) b"
    using Suc.prems(1) by (auto simp: Let_def)
  have l: "4 - L = Suc (3 - L)" "1 \<le> 3 - L" using Suc.prems(3) by auto
  have "lvl (?e AND MM_PTE_ADDR_MASK) = Some (4 - Suc L)"
    using assms(2) Suc.prems(2) te l walk_index_less [of va L] by (auto simp: pt_inv_def entries_ok_def)
  moreover have "hw_mem t (slot a (walk_index va L)) = ?e"
    using assms(5) [OF Suc.prems(2)] l walk_index_less [of va L] by simp
  ultimately show ?case using Suc.IH [OF rest] te Suc.prems(3) by (simp add: Let_def)
qed auto

definition walk_step :: "levels \<Rightarrow> levels \<Rightarrow> nat \<Rightarrow> 'a MM_GLOBALS_scheme \<Rightarrow> 'a MM_GLOBALS_scheme \<Rightarrow> bool" where
  "walk_step lvl lvl' m s t \<longleftrightarrow> lvl \<subseteq>\<^sub>m lvl' \<and> pt_inv lvl' t \<and>
     gMmPhysmapReady t = gMmPhysmapReady s \<and> gMmPhysmapBase t = gMmPhysmapBase s \<and>
     gMmAddressSpacePool t = gMmAddressSpacePool s \<and> pages_kept lvl lvl' s t \<and>
     (\<forall>b l j. lvl b = Some l \<and> j < 512 \<longrightarrow> same_target s t (slot b j)) \<and>
     (\<forall>b l j. lvl b = Some l \<and> j < 512 \<and> (m < l \<or> l = 1) \<longrightarrow> hw_mem t (slot b j) = hw_mem s (slot b j))"

lemma walk_step_mem:
  "walk_step lvl lvl' m s t \<Longrightarrow> lvl b = Some l \<Longrightarrow> j < 512 \<Longrightarrow> m < l \<or> l = 1 \<Longrightarrow>
   hw_mem t (slot b j) = hw_mem s (slot b j)"
  unfolding walk_step_def by blast

lemma pt_step_walk_step:
  assumes "pt_step lvl lvl' a i s t" "lvl a = Some m" "2 \<le> m"
  shows "walk_step lvl lvl' m s t"
proof -
  have mem: "hw_mem t (slot b j) = hw_mem s (slot b j)" if "lvl b = Some l" "j < 512" "(b, j) \<noteq> (a, i)" for b l j
    using assms(1) that unfolding pt_step_def by blast
  have st: "same_target s t (slot a i)" using assms(1) by (simp add: pt_step_def)
  have "same_target s t (slot b j)" if "lvl b = Some l" "j < 512" for b l j
    using st mem [OF that] by (cases "(b, j) = (a, i)") (simp_all add: same_target_def)
  moreover have "hw_mem t (slot b j) = hw_mem s (slot b j)" if "lvl b = Some l" "j < 512" "m < l \<or> l = 1" for b l j
    using mem [OF that(1,2)] that assms(2,3) by fastforce
  ultimately show ?thesis using assms(1) by (simp add: pt_step_def walk_step_def)
qed

lemma walk_step_trans:
  assumes "walk_step lvl lvl1 m s s1" "walk_step lvl1 lvl2 m' s1 t" "m' \<le> m"
  shows "walk_step lvl lvl2 m s t"
proof -
  have "lvl1 b = Some l" if "lvl b = Some l" for b l
    using assms(1) that by (auto simp: walk_step_def map_le_def dom_def)
  moreover from this have "hw_mem t (slot b j) = hw_mem s (slot b j)"
    if "lvl b = Some l" "j < 512" "m < l \<or> l = 1" for b l j
    using walk_step_mem [OF assms(1) that] walk_step_mem [OF assms(2), of b l j] assms(3) that
      \<open>lvl b = Some l \<Longrightarrow> lvl1 b = Some l\<close> by (auto dest: le_less_trans)
  moreover have "lvl \<subseteq>\<^sub>m lvl2" using assms map_le_trans unfolding walk_step_def by blast
  moreover have "same_target s t (slot b j)" if "lvl b = Some l" "j < 512" for b l j
    using assms(1,2) that \<open>lvl b = Some l \<Longrightarrow> lvl1 b = Some l\<close> unfolding walk_step_def same_target_def by metis
  moreover have "pages_kept lvl lvl2 s t" using assms(1,2) pages_kept_trans unfolding walk_step_def by blast
  ultimately show ?thesis using assms by (simp add: walk_step_def)
qed

lemma walk_create:
  assumes "pt_inv lvl s" "lvl a = Some (4 - L)" "L + k = 3"
    and "MmpWalk_loop va c L k (MmpPhysToVirtTable s a) s = (r, t)"
  shows "\<exists>lvl'. walk_step lvl lvl' (4 - L) s t \<and>
    (case r of Inl st \<Rightarrow> True | Inr T \<Rightarrow> \<exists>b. lvl' b = Some 1 \<and> T = MmpPhysToVirtTable t b \<and> walk_path t va L k a b)"
  using assms
proof (induction k arbitrary: L a lvl s)
  case 0
  then have "walk_step lvl lvl (4 - L) s t" by (simp add: walk_step_def same_target_def pages_kept_refl)
  with 0 show ?case by (intro exI [of _ lvl]) auto
next
  case (Suc k)
  obtain r1 s1 where lv: "MmpWalk_level va c L (MmpPhysToVirtTable s a) s = (r1, s1)" by fastforce
  have L: "L < 3" using Suc.prems(3) by simp
  note st = level_step [OF Suc.prems(1,2) L lv]
  show ?case
  proof (cases r1)
    case (Inl e)
    with st obtain lvl1 where "pt_step lvl lvl1 a (walk_index va L) s s1" by auto
    from pt_step_walk_step [OF this Suc.prems(2)] L have "walk_step lvl lvl1 (4 - L) s s1" by simp
    with Inl lv Suc.prems(4) show ?thesis by auto
  next
    case (Inr T)
    with st obtain lvl1 b where s1: "pt_step lvl lvl1 a (walk_index va L) s s1" "lvl1 b = Some (3 - L)"
      "T = MmpPhysToVirtTable s1 b" "table_entry (hw_mem s1 (slot a (walk_index va L)))"
      "hw_mem s1 (slot a (walk_index va L)) AND MM_PTE_ADDR_MASK = b" by auto
    have inv1: "pt_inv lvl1 s1" using s1(1) by (simp add: pt_step_def)
    have "MmpWalk_loop va c (Suc L) k (MmpPhysToVirtTable s1 b) s1 = (r, t)"
      using Suc.prems(4) lv Inr s1(3) by simp
    from Suc.IH [OF inv1 _ _ this] s1(2) Suc.prems(3) obtain lvl2 where
      w: "walk_step lvl1 lvl2 (4 - Suc L) s1 t" and
      rr: "case r of Inl st \<Rightarrow> True | Inr T \<Rightarrow> \<exists>b'. lvl2 b' = Some 1 \<and> T = MmpPhysToVirtTable t b' \<and> walk_path t va (Suc L) k b b'"
      by auto
    have "lvl1 a = Some (4 - L)"
      using s1(1) Suc.prems(2) by (auto simp: pt_step_def map_le_def dom_def)
    then have "hw_mem t (slot a (walk_index va L)) = hw_mem s1 (slot a (walk_index va L))"
    proof -
      have "4 - Suc L < 4 - L" using L by simp
      with \<open>lvl1 a = Some (4 - L)\<close> walk_step_mem [OF w _ walk_index_less] show ?thesis by blast
    qed
    moreover have "walk_step lvl lvl2 (4 - L) s t"
      using walk_step_trans [OF pt_step_walk_step [OF s1(1) Suc.prems(2)] w] L by simp
    ultimately show ?thesis using rr s1(4,5) by (intro exI [of _ lvl2]) (auto simp: Let_def split: sum.splits)
  qed
qed

section \<open>Operations on one page\<close>

definition as_root :: "'a MM_GLOBALS_scheme \<Rightarrow> nat \<Rightarrow> u64" where
  "as_root s a = as_RootTablePhysical (gMmAddressSpacePool s a)"

text \<open>\<open>as_ok lvl s a\<close>: address space \<open>a\<close> has a root table.\<close>

definition as_ok :: "levels \<Rightarrow> 'a MM_GLOBALS_scheme \<Rightarrow> nat \<Rightarrow> bool" where
  "as_ok lvl s a \<longleftrightarrow> pt_inv lvl s \<and> as_root s a \<noteq> 0 \<and> lvl (as_root s a) = Some 4"

text \<open>A walk to the entry for \<open>va\<close>, as a pair of a level-1 table and an index.\<close>

definition pte_at :: "'a MM_GLOBALS_scheme \<Rightarrow> nat \<Rightarrow> u64 \<Rightarrow> u64 \<Rightarrow> bool" where
  "pte_at s a va b \<longleftrightarrow> walk_path s va 0 3 (as_root s a) b"

lemma MmpWalkToPte_spec:
  assumes "as_ok lvl s a" "MmpIsCanonicalAddress va" "MmpWalkToPte (Some a) va c True s = w"
  obtains r t lvl' where "w = Some (r, t)" "walk_step lvl lvl' 4 s t"
    "\<And>st. r \<noteq> Inr st \<or> (\<exists>b. lvl' b = Some 1 \<and> st = elem_ptr (MmpPhysToVirtTable t b) (walk_index va 3) \<and> pte_at t a va b)"
proof -
  from assms(1) have inv: "pt_inv lvl s" and root: "as_root s a \<noteq> 0" "lvl (as_root s a) = Some (4 - 0)"
    by (simp_all add: as_ok_def)
  obtain r0 t where l: "MmpWalk_loop va c 0 3 (MmpPhysToVirtTable s (as_root s a)) s = (r0, t)" by fastforce
  obtain lvl' where w: "walk_step lvl lvl' 4 s t" and
    r0: "case r0 of Inl st \<Rightarrow> True | Inr T \<Rightarrow> \<exists>b. lvl' b = Some 1 \<and> T = MmpPhysToVirtTable t b \<and>
      walk_path t va 0 3 (as_root s a) b"
    using walk_create [OF inv root(2) _ l] by auto
  have as: "as_root t a = as_root s a" using w by (simp add: walk_step_def as_root_def)
  show thesis
  proof (cases r0)
    case (Inl st)
    with assms(2,3) l root have "w = Some (Inl st, t)"
      by (auto simp: MmpWalkToPte_def as_root_def Let_def)
    from that [OF this w] show thesis by simp
  next
    case (Inr T)
    with assms(2,3) l root have "w = Some (Inr (elem_ptr T (walk_index va 3)), t)"
      by (auto simp: MmpWalkToPte_def as_root_def Let_def)
    from that [OF this w] r0 Inr as show thesis by (auto simp: pte_at_def)
  qed
qed

lemma query_on_path:
  assumes "pte_at s a va b" "as_root s a \<noteq> 0" "gMmReady s" "page_aligned va" "MmpIsCanonicalAddress va"
  shows "MmpWalkToPte (Some a) va False True s = Some (Inr (elem_ptr (MmpPhysToVirtTable s b) (walk_index va 3)), s)"
    "MmAsQueryPte (Some a) va True s = Some (Inr (hw_mem s (slot b (walk_index va 3))), s)"
proof -
  have "MmpWalk_loop va False 0 3 (MmpPhysToVirtTable s (as_root s a)) s = (Inr (MmpPhysToVirtTable s b), s)"
    using walk_read assms(1) by (simp add: pte_at_def)
  then show w: "MmpWalkToPte (Some a) va False True s = Some (Inr (elem_ptr (MmpPhysToVirtTable s b) (walk_index va 3)), s)"
    using assms(2,5) by (simp add: MmpWalkToPte_def as_root_def Let_def)
  then show "MmAsQueryPte (Some a) va True s = Some (Inr (hw_mem s (slot b (walk_index va 3))), s)"
    using assms(3,4) by (simp add: MmAsQueryPte_def)
qed

text \<open>Storing into a level-1 table does not disturb any path.\<close>

lemma pte_store_path:
  assumes inv: "pt_inv lvl s" and "lvl (as_root s a) = Some 4" and "lvl b = Some 1" and "pte_at s a va c"
    and t: "hw_mem t = (hw_mem s)(slot b i := v)" "i < 512" "gMmAddressSpacePool t = gMmAddressSpacePool s"
  shows "pte_at t a va c \<and> lvl c = Some 1"
proof -
  have masked: "d AND MM_PTE_ADDR_MASK = d" if "lvl d = Some k" for d k
    using inv that by (auto simp: pt_inv_def levels_ok_def)
  have "hw_mem t (slot d j) = hw_mem s (slot d j)" if "lvl d = Some l" "2 \<le> l" "j < 512" for d l j
  proof -
    have "d \<noteq> b" using that assms(3) by auto
    then have "slot d j \<noteq> slot b i" using slot_inj(1) [of d j b i] masked that assms(3) t(2) by auto
    then show ?thesis by (simp add: t)
  qed
  moreover have "as_root t a = as_root s a" using t(3) by (simp add: as_root_def)
  ultimately show ?thesis
    using walk_path_cong [of s va 0 3 "as_root s a" c lvl t] assms(1,2,4) by (simp add: pte_at_def)
qed

lemma release_frame [simp]:
  "hw_mem (MmpReleasePage pa s) = hw_mem s" "gMmPhysmapReady (MmpReleasePage pa s) = gMmPhysmapReady s"
  "gMmPhysmapBase (MmpReleasePage pa s) = gMmPhysmapBase s" "gMmReady (MmpReleasePage pa s) = gMmReady s"
  "gMmAddressSpacePool (MmpReleasePage pa s) = gMmAddressSpacePool s"
  "MmpPhysToVirtTable (MmpReleasePage pa s) a = MmpPhysToVirtTable s a"
  by (simp_all add: MmpReleasePage_def MmpSetPageFree_def MmpPhysToVirtTable_def Let_def)

lemma store_after_release [simp]:
  "store64 (elem_ptr (MmpPhysToVirtTable s b) i) v (MmpReleasePage pa s) =
     (MmpReleasePage pa s)\<lparr>hw_mem := (hw_mem s)(slot b i := v)\<rparr>"
  using store_table_ptr [of "MmpReleasePage pa s" b i v] by simp

lemma level_not_success: "MmpWalk_level va c L T s = (Inl st, t) \<Longrightarrow> st \<noteq> KSTATUS_SUCCESS"
  by (auto simp: MmpWalk_level_def MmpWalk_split_def MmpWalk_create_def Let_def
      split: if_splits prod.splits sum.splits)

lemma loop_not_success: "MmpWalk_loop va c L k T s = (Inl st, t) \<Longrightarrow> st \<noteq> KSTATUS_SUCCESS"
proof (induction k arbitrary: L T s)
  case (Suc k)
  then show ?case
    by (cases "MmpWalk_level va c L T s"; cases "fst (MmpWalk_level va c L T s)") (auto dest: level_not_success)
qed simp

lemma walk_not_success: "MmpWalkToPte a va c out s = Some (Inl st, t) \<Longrightarrow> st \<noteq> KSTATUS_SUCCESS"
  by (auto simp: MmpWalkToPte_def Let_def dest: loop_not_success split: option.splits if_splits prod.splits sum.splits)

text \<open>A successful mapping: a walk that creates what is missing, then one store into the entry found.\<close>

definition new_pte :: "u64 \<Rightarrow> u64 \<Rightarrow> u64" where
  "new_pte pa fl = (pa AND MM_PTE_ADDR_MASK) OR fl OR MM_PTE_PRESENT"

definition stores_pte :: "u64 \<Rightarrow> nat \<Rightarrow> u64 \<Rightarrow> 'a MM_GLOBALS_scheme \<Rightarrow> 'a MM_GLOBALS_scheme \<Rightarrow> bool" where
  "stores_pte b i v s t \<longleftrightarrow> hw_mem t = (hw_mem s)(slot b i := v) \<and> gMmAddressSpacePool t = gMmAddressSpacePool s \<and>
     gMmReady t = gMmReady s"

lemma MmAsMapPage_ok:
  assumes ok: "as_ok lvl s a" and va: "MmpIsCanonicalAddress va"
    and m: "MmAsMapPage (Some a) va pa fl s = Some (KSTATUS_SUCCESS, t)"
  obtains s1 b lvl' where "walk_step lvl lvl' 4 s s1" "lvl' b = Some 1" "pte_at s1 a va b" "page_aligned va"
    "stores_pte b (walk_index va 3) (new_pte pa fl) s1 t"
proof -
  from ok m have pre: "gMmReady s" "page_aligned va" "page_aligned pa"
    by (auto simp: MmAsMapPage_def as_ok_def pt_inv_def split: if_splits)
  obtain r s1 lvl' where w: "MmpWalkToPte (Some a) va True True s = Some (r, s1)" and ws: "walk_step lvl lvl' 4 s s1"
    and r: "\<And>st. r \<noteq> Inr st \<or> (\<exists>b. lvl' b = Some 1 \<and> st = elem_ptr (MmpPhysToVirtTable s1 b) (walk_index va 3) \<and> pte_at s1 a va b)"
    using MmpWalkToPte_spec [OF ok va refl] by metis
  show thesis
  proof (cases r)
    case (Inl st)
    with w walk_not_success have "st \<noteq> KSTATUS_SUCCESS" by blast
    with Inl w m pre show thesis by (simp add: MmAsMapPage_def)
  next
    case (Inr p)
    with r obtain b where b: "lvl' b = Some 1" "p = elem_ptr (MmpPhysToVirtTable s1 b) (walk_index va 3)" "pte_at s1 a va b"
      by blast
    have "stores_pte b (walk_index va 3) (new_pte pa fl) s1 t"
      using m pre w Inr b(2)
      by (cases "has_flag (hw_mem s1 (slot b (walk_index va 3))) MM_PTE_PRESENT")
        (auto simp: MmAsMapPage_def Let_def stores_pte_def new_pte_def)
    with that [OF ws b(1,3) pre(2)] show thesis by simp
  qed
qed

lemma stored_pte_query:
  assumes "as_root s a \<noteq> 0" "pt_inv lvl s" "lvl (as_root s a) = Some 4" "lvl b = Some 1" "pte_at s a va c"
    "stores_pte b i v s t" "i < 512" "page_aligned va" "MmpIsCanonicalAddress va"
  shows "MmAsQueryPte (Some a) va True t =
    Some (Inr (if slot c (walk_index va 3) = slot b i then v else hw_mem s (slot c (walk_index va 3))), t)"
proof -
  have t: "hw_mem t = (hw_mem s)(slot b i := v)" "gMmAddressSpacePool t = gMmAddressSpacePool s" "gMmReady t"
    using assms(2,6) by (auto simp: stores_pte_def pt_inv_def)
  have "pte_at t a va c" using pte_store_path [OF assms(2-5) t(1) assms(7) t(2)] by simp
  moreover have "as_root t a \<noteq> 0" using assms(1) t(2) by (simp add: as_root_def)
  ultimately have "MmAsQueryPte (Some a) va True t = Some (Inr (hw_mem t (slot c (walk_index va 3))), t)"
    using query_on_path(2) t(3) assms(8,9) by blast
  then show ?thesis by (simp add: t(1))
qed

lemma walk_step_as:
  assumes "walk_step lvl lvl' m s t" "as_ok lvl s a"
  shows "as_ok lvl' t a" "as_root t a = as_root s a"
  using assms by (auto simp: walk_step_def as_ok_def as_root_def map_le_def dom_def)

text \<open>A walk that existed before still leads to the same entry, and the entry is the same.\<close>

lemma walk_path_kept:
  assumes "walk_step lvl lvl' m s t" "pt_inv lvl s" "walk_path s va L k a b" "lvl a = Some (4 - L)" "L + k = 3"
  shows "walk_path t va L k a b \<and> lvl b = Some 1"
  using assms(3-5)
proof (induction k arbitrary: L a)
  case (Suc k)
  let ?e = "hw_mem s (slot a (walk_index va L))"
  have te: "table_entry ?e" and rest: "walk_path s va (Suc L) k (?e AND MM_PTE_ADDR_MASK) b"
    using Suc.prems(1) by (auto simp: Let_def)
  have l: "4 - L = Suc (3 - L)" "1 \<le> 3 - L" using Suc.prems(3) by auto
  have "lvl (?e AND MM_PTE_ADDR_MASK) = Some (4 - Suc L)"
    using assms(2) Suc.prems(2) te l walk_index_less [of va L] by (auto simp: pt_inv_def entries_ok_def)
  moreover have "same_target s t (slot a (walk_index va L))"
    using assms(1) Suc.prems(2) walk_index_less [of va L] unfolding walk_step_def by blast
  ultimately show ?case using Suc.IH [OF rest] te Suc.prems(3) by (auto simp: Let_def same_target_def)
qed auto

text \<open>Walking an existing path with creation enabled needs no memory and succeeds.\<close>

lemma level_on_path:
  assumes "table_entry (hw_mem s (slot a (walk_index va L)))"
  shows "\<exists>T t. MmpWalk_level va c L (MmpPhysToVirtTable s a) s = (Inr T, t)"
  using assms
  by (cases "MmpWalk_sanitize va c (elem_ptr (MmpPhysToVirtTable s a) (walk_index va L)) (hw_mem s (slot a (walk_index va L))) s")
    (auto simp: MmpWalk_level_def MmpWalk_split_def MmpWalk_create_def table_entry_def MmpWalk_sanitize_def Let_def
      sanitized_entry split: if_splits)

lemma walk_create_on_path:
  assumes "pt_inv lvl s" "lvl a = Some (4 - L)" "L + k = 3" "walk_path s va L k a b"
  shows "\<exists>T t. MmpWalk_loop va True L k (MmpPhysToVirtTable s a) s = (Inr T, t)"
  using assms
proof (induction k arbitrary: L a lvl s)
  case (Suc k)
  let ?i = "walk_index va L"
  have te: "table_entry (hw_mem s (slot a ?i))"
    and rest: "walk_path s va (Suc L) k (hw_mem s (slot a ?i) AND MM_PTE_ADDR_MASK) b"
    using Suc.prems(4) by (auto simp: Let_def)
  obtain T s1 where lv: "MmpWalk_level va True L (MmpPhysToVirtTable s a) s = (Inr T, s1)"
    using level_on_path [OF te] by blast
  have L: "L < 3" "4 - L = Suc (3 - L)" "1 \<le> 3 - L" using Suc.prems(3) by auto
  obtain lvl1 c where s1: "pt_step lvl lvl1 a ?i s s1" "lvl1 c = Some (3 - L)" "T = MmpPhysToVirtTable s1 c"
    "hw_mem s1 (slot a ?i) AND MM_PTE_ADDR_MASK = c"
    using level_step [OF Suc.prems(1,2) L(1) lv] by auto
  have c: "hw_mem s (slot a ?i) AND MM_PTE_ADDR_MASK = c"
    using s1(1,4) te by (auto simp: pt_step_def same_target_def)
  have w: "walk_step lvl lvl1 (4 - L) s s1" using pt_step_walk_step [OF s1(1) Suc.prems(2)] L by simp
  have "lvl c = Some (4 - Suc L)"
    using Suc.prems(1,2) te L walk_index_less [of va L] c by (auto simp: pt_inv_def entries_ok_def)
  from walk_path_kept [OF w Suc.prems(1) rest [unfolded c] this] Suc.prems(3)
  have "walk_path s1 va (Suc L) k c b" by simp
  moreover have "pt_inv lvl1 s1" using s1(1) by (simp add: pt_step_def)
  ultimately show ?case using Suc.IH [of lvl1 s1 c "Suc L"] s1(2,3) Suc.prems(3) lv by simp
qed auto

lemma MmAsMapPage_on_path:
  assumes "as_ok lvl s a" "MmpIsCanonicalAddress va" "page_aligned va" "page_aligned pa" "pte_at s a va b"
  shows "\<exists>t. MmAsMapPage (Some a) va pa fl s = Some (KSTATUS_SUCCESS, t)"
proof -
  from assms(1) have r: "pt_inv lvl s" "lvl (as_root s a) = Some (4 - 0)" "as_root s a \<noteq> 0" "gMmReady s"
    by (auto simp: as_ok_def pt_inv_def)
  obtain T t where "MmpWalk_loop va True 0 3 (MmpPhysToVirtTable s (as_root s a)) s = (Inr T, t)"
    using walk_create_on_path [OF r(1,2) _ assms(5) [unfolded pte_at_def]] by auto
  with r assms(2-4) show ?thesis
    by (simp add: MmAsMapPage_def MmpWalkToPte_def as_root_def Let_def)
qed

lemma walk_path_unique: "walk_path s va L k a b \<Longrightarrow> walk_path s va L k a c \<Longrightarrow> b = c"
  by (induction s va L k a b rule: walk_path.induct) (auto simp: Let_def)

lemma pte_at_unique: "pte_at s a va b \<Longrightarrow> pte_at s a va c \<Longrightarrow> b = c"
  unfolding pte_at_def by (rule walk_path_unique)

lemma walk_path_index:
  "walk_path s va L k a b \<Longrightarrow> (\<And>j. j < L + k \<Longrightarrow> walk_index va' j = walk_index va j) \<Longrightarrow> walk_path s va' L k a b"
  by (induction k arbitrary: L a) (auto simp: Let_def)

text \<open>A small machine: address space 0 with the four tables for address \<open>0x40000000\<close> in pages 1 to 4.\<close>

definition mm_paged :: MM_GLOBALS where
  "mm_paged = mm_bss\<lparr>gMmReady := True, gMmTrackedPages := 8, gMmPageBitmap := (\<lambda>_. 0)(0 := 0x1F),
     gMmPageRefCount := (\<lambda>_. 0),
     gMmAddressSpacePool := (\<lambda>a. (gMmAddressSpacePool mm_bss a)\<lparr>as_RootTablePhysical := 0x1000\<rparr>),
     hw_mem := (\<lambda>_. 0)(slot 0x1000 0 := 0x2007, slot 0x2000 1 := 0x3007, slot 0x3000 0 := 0x4007)\<rparr>"

definition lvl_paged :: levels where
  "lvl_paged = [0x1000 \<mapsto> 4, 0x2000 \<mapsto> 3, 0x3000 \<mapsto> 2, 0x4000 \<mapsto> 1]"

lemma paged_addr:
  "walk_index 0x40000000 0 = 0" "walk_index 0x40000000 (Suc 0) = 1" "walk_index 0x40000000 2 = 0"
  "walk_index 0x40000000 3 = 0" "MmpIsCanonicalAddress 0x40000000" "page_aligned 0x40000000"
  by (simp_all add: walk_index_def MmpIsCanonicalAddress_def page_aligned_def MM_PAGE_SIZE_def)

lemma paged_mem:
  assumes "a \<in> {0x1000, 0x2000, 0x3000, 0x4000}" "i < 512"
  shows "hw_mem mm_paged (slot a i) = (if a = 0x1000 \<and> i = 0 then 0x2007 else if a = 0x2000 \<and> i = 1 then 0x3007
    else if a = 0x3000 \<and> i = 0 then 0x4007 else 0)"
proof -
  have "slot c k = slot b j \<longleftrightarrow> c = b \<and> k = j"
    if "b \<in> {0x1000, 0x2000, 0x3000, 0x4000}" "j < 512" "c \<in> {0x1000, 0x2000, 0x3000, 0x4000}" "k < 512" for b j c k
    using slot_inj [of c k b j] that by (auto simp: MM_PTE_ADDR_MASK_def)
  then show ?thesis using assms by (simp add: mm_paged_def)
qed

lemma paged_ok: "as_ok lvl_paged mm_paged 0"
proof -
  have alloc: "page_alloc mm_paged p" if "p \<in> {1, 2, 3, 4}" for p
    using that by (auto simp: page_alloc_def mm_paged_def bit_numeral_rec)
  have rt: "as_root mm_paged 0 = 0x1000" "gMmPageRefCount mm_paged = (\<lambda>_. 0)" "gMmTrackedPages mm_paged = 8"
    "gMmNextScanPage mm_paged = 0" "gMmReady mm_paged"
    by (simp_all add: as_root_def mm_paged_def mm_bss_eval)
  have dom: "lvl_paged a = Some l \<longleftrightarrow> a = 0x1000 \<and> l = 4 \<or> a = 0x2000 \<and> l = 3 \<or> a = 0x3000 \<and> l = 2 \<or> a = 0x4000 \<and> l = 1" for a l
    by (auto simp: lvl_paged_def)
  have "levels_ok lvl_paged mm_paged"
    unfolding levels_ok_def dom using alloc by (auto simp: MM_PTE_ADDR_MASK_def)
  moreover have "entries_ok lvl_paged mm_paged"
  proof (unfold entries_ok_def, intro allI impI, elim conjE)
    fix a l i
    assume a: "lvl_paged a = Some (Suc l)" and "1 \<le> l" and i: "i < 512" and te: "table_entry (hw_mem mm_paged (slot a i))"
    from a have "a \<in> {0x1000, 0x2000, 0x3000, 0x4000}" unfolding dom by auto
    note m = paged_mem [OF this i]
    have "\<not> table_entry 0" by (simp add: table_entry_def has_flag_def)
    with te have "hw_mem mm_paged (slot a i) \<noteq> 0" by metis
    with m a \<open>1 \<le> l\<close> show "lvl_paged (hw_mem mm_paged (slot a i) AND MM_PTE_ADDR_MASK) = Some l"
      unfolding dom by (auto simp: MM_PTE_ADDR_MASK_def split: if_splits)
  qed
  ultimately show ?thesis
    using rt by (simp add: as_ok_def pt_inv_def pages_wf_def dom MM_MAX_TRACKED_PAGES_def)
qed

lemma paged_path: "pte_at mm_paged 0 0x40000000 0x4000"
proof -
  have root: "as_root mm_paged 0 = 0x1000" by (simp add: as_root_def mm_paged_def)
  have te: "table_entry 0x2007" "table_entry 0x3007" "table_entry 0x4007"
    by (simp_all add: table_entry_def has_flag_def MM_PTE_PRESENT_def MM_PTE_LARGE_def)
  have mk: "0x2007 AND MM_PTE_ADDR_MASK = 0x2000" "0x3007 AND MM_PTE_ADDR_MASK = 0x3000" "0x4007 AND MM_PTE_ADDR_MASK = 0x4000"
    by (simp_all add: MM_PTE_ADDR_MASK_def)
  have m: "hw_mem mm_paged (slot 0x1000 0) = 0x2007" "hw_mem mm_paged (slot 0x2000 1) = 0x3007"
    "hw_mem mm_paged (slot 0x3000 0) = 0x4007"
    by (simp_all add: paged_mem)
  show ?thesis
    unfolding pte_at_def root numeral_3_eq_3 walk_path.simps Let_def
    using paged_addr(1-3) m te mk by (simp only: numeral_2_eq_2 [symmetric] simp_thms)
qed

lemma paged_map:
  "\<exists>t. MmAsMapPage (Some 0) 0x40000000 0x7000 7 mm_paged = Some (KSTATUS_SUCCESS, t)"
  using MmAsMapPage_on_path [OF paged_ok paged_addr(5,6) _ paged_path]
  by (simp add: page_aligned_def MM_PAGE_SIZE_def)

section \<open>Properties\<close>

text \<open>C14: mapping a page takes effect.  After a successful \<^verbatim>\<open>MmAsMapPage\<close>, whatever tables had to be
  created and whatever large page had to be split on the way, querying the address returns exactly
  the entry asked for.\<close>

theorem MmAsMapPage_then_query:
  assumes "as_ok lvl s a" and "MmpIsCanonicalAddress va"
    and "MmAsMapPage (Some a) va pa fl s = Some (KSTATUS_SUCCESS, t)"
  shows "MmAsQueryPte (Some a) va True t = Some (Inr ((pa AND MM_PTE_ADDR_MASK) OR fl OR MM_PTE_PRESENT), t)"
proof -
  obtain s1 b lvl' where w: "walk_step lvl lvl' 4 s s1" "lvl' b = Some 1" "pte_at s1 a va b" "page_aligned va"
    "stores_pte b (walk_index va 3) (new_pte pa fl) s1 t"
    using MmAsMapPage_ok [OF assms] by metis
  from walk_step_as [OF w(1) assms(1)] have "as_root s1 a \<noteq> 0" "pt_inv lvl' s1" "lvl' (as_root s1 a) = Some 4"
    by (auto simp: as_ok_def)
  from stored_pte_query [OF this w(2,3,5) walk_index_less w(4) assms(2)]
  show ?thesis by (simp add: new_pte_def)
qed

theorem MmAsMapPage_then_query_witness:
  "\<exists>t. MmAsMapPage (Some 0) 0x40000000 0x7000 7 mm_paged = Some (KSTATUS_SUCCESS, t) \<and>
     MmAsQueryPte (Some 0) 0x40000000 True t = Some (Inr 0x7007, t)"
proof -
  obtain t where "MmAsMapPage (Some 0) 0x40000000 0x7000 7 mm_paged = Some (KSTATUS_SUCCESS, t)"
    using paged_map by blast
  with MmAsMapPage_then_query [OF paged_ok paged_addr(5) this] show ?thesis
    by (simp add: MM_PTE_ADDR_MASK_def MM_PTE_PRESENT_def)
qed

text \<open>C6: mapping a page changes exactly one page table entry.  Take any address space and any page-aligned canonical address of it
  whose walk reaches a page table before the call.  After a successful \<^verbatim>\<open>MmAsMapPage\<close> a query of that address returns the new
  entry if its walk ends in the same slot of the same page table as the walk of the mapped address (the address itself, or the same
  address in another address space that shares the table, since address spaces copy the top-level entries), and otherwise
  exactly what it returned before.\<close>

theorem MmAsMapPage_isolated:
  assumes "as_ok lvl s a" and "MmpIsCanonicalAddress va"
    and "MmAsMapPage (Some a) va pa fl s = Some (KSTATUS_SUCCESS, t)"
    and "as_ok lvl s a'" and "MmpIsCanonicalAddress va'" and "page_aligned va'" and "pte_at s a' va' c"
  shows "\<exists>e. MmAsQueryPte (Some a') va' True s = Some (Inr e, s) \<and>
    MmAsQueryPte (Some a') va' True t = Some (Inr (if pte_at t a va c \<and> walk_index va 3 = walk_index va' 3
      then (pa AND MM_PTE_ADDR_MASK) OR fl OR MM_PTE_PRESENT else e), t)"
proof -
  obtain s1 b lvl' where w: "walk_step lvl lvl' 4 s s1" "lvl' b = Some 1" "pte_at s1 a va b"
    "stores_pte b (walk_index va 3) (new_pte pa fl) s1 t"
    using MmAsMapPage_ok [OF assms(1-3)] by metis
  have r': "as_root s1 a' \<noteq> 0" "pt_inv lvl' s1" "lvl' (as_root s1 a') = Some 4" "as_root s1 a' = as_root s a'"
    using walk_step_as [OF w(1) assms(4)] by (auto simp: as_ok_def)
  have r: "lvl' (as_root s1 a) = Some 4" using walk_step_as [OF w(1) assms(1)] by (auto simp: as_ok_def)
  have c: "pte_at s1 a' va' c" "lvl c = Some 1"
    using walk_path_kept [OF w(1), of va' 0 3 "as_root s a'" c] assms(4,7) r'(4) by (auto simp: pte_at_def as_ok_def)
  have m: "lvl' c = Some 1" using w(1) c(2) by (auto simp: walk_step_def map_le_def dom_def)
  have b: "pte_at t a va b"
    using pte_store_path [OF r'(2) r w(2,3) _ walk_index_less] w(4) unfolding stores_pte_def by blast
  have same: "slot c (walk_index va' 3) = slot b (walk_index va 3) \<longleftrightarrow> pte_at t a va c \<and> walk_index va 3 = walk_index va' 3"
  proof
    assume e: "slot c (walk_index va' 3) = slot b (walk_index va 3)"
    have "c = b" "walk_index va' 3 = walk_index va 3"
      using slot_inj [OF e walk_index_less walk_index_less] m w(2) r'(2) by (auto simp: pt_inv_def levels_ok_def)
    with b show "pte_at t a va c \<and> walk_index va 3 = walk_index va' 3" by simp
  next
    assume "pte_at t a va c \<and> walk_index va 3 = walk_index va' 3"
    with pte_at_unique [OF b, of c] show "slot c (walk_index va' 3) = slot b (walk_index va 3)" by simp
  qed
  have "MmAsQueryPte (Some a') va' True s = Some (Inr (hw_mem s (slot c (walk_index va' 3))), s)"
    using query_on_path(2) [OF assms(7) _ _ assms(6,5)] assms(4) by (simp add: as_ok_def pt_inv_def)
  moreover have "hw_mem s1 (slot c (walk_index va' 3)) = hw_mem s (slot c (walk_index va' 3))"
    using walk_step_mem [OF w(1) c(2) walk_index_less] by simp
  ultimately show ?thesis
    using stored_pte_query [OF r'(1-3) w(2) c(1) w(4) walk_index_less assms(6,5)] same by (simp add: new_pte_def)
qed

theorem MmAsMapPage_isolated_witness:
  "\<exists>t. MmAsMapPage (Some 0) 0x40000000 0x7000 7 mm_paged = Some (KSTATUS_SUCCESS, t) \<and>
     MmAsQueryPte (Some 0) 0x40001000 True mm_paged = Some (Inr 0, mm_paged) \<and>
     MmAsQueryPte (Some 0) 0x40001000 True t = Some (Inr 0, t)"
proof -
  obtain t where m: "MmAsMapPage (Some 0) 0x40000000 0x7000 7 mm_paged = Some (KSTATUS_SUCCESS, t)"
    using paged_map by blast
  have i: "walk_index 0x40001000 0 = 0" "walk_index 0x40001000 (Suc 0) = 1" "walk_index 0x40001000 2 = 0"
    "walk_index 0x40001000 3 = 1" "MmpIsCanonicalAddress 0x40001000" "page_aligned 0x40001000"
    by (simp_all add: walk_index_def MmpIsCanonicalAddress_def page_aligned_def MM_PAGE_SIZE_def)
  have "walk_index 0x40001000 L = walk_index 0x40000000 L" if "L < 3" for L
    using i(1-3) paged_addr(1-3) that by (auto simp: numeral_3_eq_3 numeral_2_eq_2 less_Suc_eq)
  then have "pte_at mm_paged 0 0x40001000 0x4000"
    using walk_path_index [OF paged_path [unfolded pte_at_def]] by (simp add: pte_at_def)
  note p = this
  have "MmAsQueryPte (Some 0) 0x40001000 True mm_paged = Some (Inr 0, mm_paged)"
    using query_on_path(2) [OF p _ _ i(6,5)] paged_ok by (simp add: as_ok_def pt_inv_def i paged_mem)
  with MmAsMapPage_isolated [OF paged_ok paged_addr(5) m paged_ok i(5,6) p] m show ?thesis
    by (auto simp: i paged_addr)
qed

text \<open>Unmapping and protecting, on every branch: a page that is not mapped is reported and nothing
  changes; unmapping clears exactly the entry; protecting keeps its physical address.\<close>

theorem MmAsUnmap_Protect_query:
  assumes "as_ok lvl s a" and "MmpIsCanonicalAddress va" and "page_aligned va" and "pte_at s a va b"
    and "lvl b = Some 1" and "e = hw_mem s (slot b (walk_index va 3))"
  shows "\<exists>t u. MmAsUnmapPage (Some a) va s =
      Some (if has_flag e MM_PTE_PRESENT then KSTATUS_SUCCESS else KSTATUS_NOT_FOUND, t) \<and>
    MmAsQueryPte (Some a) va True t = Some (Inr (if has_flag e MM_PTE_PRESENT then 0 else e), t) \<and>
    MmAsProtectPage (Some a) va fl s =
      Some (if has_flag e MM_PTE_PRESENT then KSTATUS_SUCCESS else KSTATUS_NOT_FOUND, u) \<and>
    MmAsQueryPte (Some a) va True u =
      Some (Inr (if has_flag e MM_PTE_PRESENT then (e AND MM_PTE_ADDR_MASK) OR fl OR MM_PTE_PRESENT else e), u)"
proof -
  from assms(1) have r: "as_root s a \<noteq> 0" "pt_inv lvl s" "lvl (as_root s a) = Some 4" "gMmReady s"
    by (auto simp: as_ok_def pt_inv_def)
  note wk = query_on_path [OF assms(4) r(1,4) assms(3,2)]
  define t where "t = (if has_flag e MM_PTE_PRESENT
    then (MmpReleasePage (e AND MM_PTE_ADDR_MASK) s)\<lparr>hw_mem := (hw_mem s)(slot b (walk_index va 3) := 0)\<rparr> else s)"
  define u where "u = (if has_flag e MM_PTE_PRESENT
    then s\<lparr>hw_mem := (hw_mem s)(slot b (walk_index va 3) := (e AND MM_PTE_ADDR_MASK) OR fl OR MM_PTE_PRESENT)\<rparr> else s)"
  have "MmAsUnmapPage (Some a) va s =
      Some (if has_flag e MM_PTE_PRESENT then KSTATUS_SUCCESS else KSTATUS_NOT_FOUND, t)"
    using wk r assms(3,6) by (simp add: MmAsUnmapPage_def t_def)
  moreover have "MmAsProtectPage (Some a) va fl s =
      Some (if has_flag e MM_PTE_PRESENT then KSTATUS_SUCCESS else KSTATUS_NOT_FOUND, u)"
    using wk r assms(3,6) by (simp add: MmAsProtectPage_def u_def)
  moreover have "stores_pte b (walk_index va 3) (if has_flag e MM_PTE_PRESENT then 0 else e) s t"
    "stores_pte b (walk_index va 3)
      (if has_flag e MM_PTE_PRESENT then (e AND MM_PTE_ADDR_MASK) OR fl OR MM_PTE_PRESENT else e) s u"
    using assms(6) by (simp_all add: stores_pte_def t_def u_def)
  ultimately show ?thesis
    using stored_pte_query [OF r(1-3) assms(5,4) _ walk_index_less assms(3,2)] by auto
qed

theorem MmAsUnmap_Protect_query_witness:
  "\<exists>t. MmAsUnmapPage (Some 0) 0x40000000 mm_paged = Some (KSTATUS_NOT_FOUND, t) \<and>
     MmAsQueryPte (Some 0) 0x40000000 True t = Some (Inr 0, t)"
proof -
  have "hw_mem mm_paged (slot 0x4000 (walk_index 0x40000000 3)) = 0" by (simp add: paged_mem paged_addr)
  moreover have "lvl_paged 0x4000 = Some 1" by (simp add: lvl_paged_def)
  ultimately show ?thesis
    using MmAsUnmap_Protect_query [OF paged_ok paged_addr(5,6) paged_path _ refl]
    by (auto simp: has_flag_def)
qed

end
