(* ===== verification/NtxMmVm.thy ===== *)
theory NtxMmVm
  imports NtxMmPaging
begin

text \<open>
  The virtual memory manager of \<^verbatim>\<open>kernel/mm/init.c\<close>: initialisation (the clone of the firmware's
  root table and the physmap), address spaces and their regions, section objects, and the page
  fault handler.
\<close>

section \<open>Definitions\<close>

definition MM_PROT_READ :: u32 where "MM_PROT_READ = 0x1"
definition MM_PROT_WRITE :: u32 where "MM_PROT_WRITE = 0x2"
definition MM_PROT_EXECUTE :: u32 where "MM_PROT_EXECUTE = 0x4"
definition MM_PROT_USER :: u32 where "MM_PROT_USER = 0x8"
definition MM_REGION_TYPE_ANON :: u32 where "MM_REGION_TYPE_ANON = 1"
definition MM_REGION_TYPE_PHYS :: u32 where "MM_REGION_TYPE_PHYS = 2"
definition MM_REGION_TYPE_SECTION :: u32 where "MM_REGION_TYPE_SECTION = 3"
definition MM_REGION_FLAG_LAZY :: u32 where "MM_REGION_FLAG_LAZY = 0x1"
definition MM_REGION_FLAG_WIRED :: u32 where "MM_REGION_FLAG_WIRED = 0x2"
definition MM_REGION_FLAG_COW :: u32 where "MM_REGION_FLAG_COW = 0x4"
definition MM_REGION_FLAG_GUARD :: u32 where "MM_REGION_FLAG_GUARD = 0x8"
definition MM_SECTION_ACCESS_MAP_READ :: u32 where "MM_SECTION_ACCESS_MAP_READ = 1"
definition MM_SECTION_ACCESS_MAP_WRITE :: u32 where "MM_SECTION_ACCESS_MAP_WRITE = 2"
definition MM_SECTION_ACCESS_ALL :: u32 where
  "MM_SECTION_ACCESS_ALL = MM_SECTION_ACCESS_MAP_READ OR MM_SECTION_ACCESS_MAP_WRITE"
definition MM_PF_ERROR_PRESENT :: u64 where "MM_PF_ERROR_PRESENT = 0x1"
definition MM_PF_ERROR_WRITE :: u64 where "MM_PF_ERROR_WRITE = 0x2"
definition MM_PF_ERROR_USER :: u64 where "MM_PF_ERROR_USER = 0x4"
definition MM_PF_ERROR_INSTR :: u64 where "MM_PF_ERROR_INSTR = 0x10"

definition has_bits :: "u32 \<Rightarrow> u32 \<Rightarrow> bool" where
  "has_bits v f \<longleftrightarrow> (v AND f) \<noteq> 0"

subsection \<open>Kernel root table and physmap\<close>

definition MmpCloneKernelRootTable :: "'a MM_GLOBALS_scheme \<Rightarrow> KSTATUS \<times> 'a MM_GLOBALS_scheme" where
  "MmpCloneKernelRootTable s =
     (let CurrentRootPa = MmpReadCr3 s AND MM_PTE_ADDR_MASK in
      if CurrentRootPa = 0 then (KSTATUS_INVALID_PARAMETER, s)
      else case MmpAllocPageInternal True 1 s of
        (Inl _, s1) \<Rightarrow> (KSTATUS_INIT_FAILED, s1)
      | (Inr NewRootPa, s1) \<Rightarrow>
          let CurrentRoot = MmpPhysToVirtBootstrapTable CurrentRootPa;
              NewRoot = MmpPhysToVirtBootstrapTable NewRootPa;
              s2 = store_table NewRoot (\<lambda>i s. load64 (elem_ptr CurrentRoot i) s) 0 512 s1
          in (KSTATUS_SUCCESS, MmpWriteCr3 NewRootPa (s2\<lparr>gMmKernelRootTablePhysical := NewRootPa\<rparr>)))"

text \<open>The inner and the outer loop of \<^verbatim>\<open>MmpBuildKernelPhysmap\<close>.  The last argument bounds the
  iterations: a page directory has 512 entries of 2 MiB, and the outer loop advances by 1 GiB.\<close>

fun physmap_pd_loop ::
    "u64 \<Rightarrow> u64 \<Rightarrow> u64 \<Rightarrow> u64 \<Rightarrow> u64 \<Rightarrow> nat \<Rightarrow> 'a MM_GLOBALS_scheme \<Rightarrow> 'a MM_GLOBALS_scheme" where
  "physmap_pd_loop MappedBytes Offset Va Pd Inner 0 s = s"
| "physmap_pd_loop MappedBytes Offset Va Pd Inner (Suc k) s =
     (if Inner < 0x40000000 \<and> Offset + Inner < MappedBytes then
        let Va2 = Va + Inner;
            L2 = unat (drop_bit 21 Va2 AND 0x1FF);
            Pa = Offset + Inner
        in physmap_pd_loop MappedBytes Offset Va Pd (Inner + 0x200000) k
             (store64 (elem_ptr Pd L2) (Pa OR MM_PTE_PRESENT OR MM_PTE_WRITABLE OR MM_PTE_LARGE OR MM_PTE_NX) s)
      else s)"

fun physmap_loop ::
    "u64 \<Rightarrow> u64 \<Rightarrow> u64 \<Rightarrow> nat \<Rightarrow> 'a MM_GLOBALS_scheme \<Rightarrow> KSTATUS \<times> 'a MM_GLOBALS_scheme" where
  "physmap_loop MappedBytes Pdpt Offset 0 s = (KSTATUS_SUCCESS, s)"
| "physmap_loop MappedBytes Pdpt Offset (Suc k) s =
     (if Offset < MappedBytes then
        let Va = gMmPhysmapBase s + Offset;
            Slot3 = elem_ptr Pdpt (unat (drop_bit 30 Va AND 0x1FF))
        in case (if has_flag (load64 Slot3 s) MM_PTE_PRESENT then (KSTATUS_SUCCESS, s)
                 else case MmpAllocPageInternal True 1 s of
                   (Inl _, s1) \<Rightarrow> (KSTATUS_INIT_FAILED, s1)
                 | (Inr PdPa, s1) \<Rightarrow>
                     let s2 = store_table (MmpPhysToVirtBootstrapTable PdPa) (\<lambda>_ _. 0) 0 512 s1
                     in (KSTATUS_SUCCESS, store64 Slot3 (PdPa OR MM_PTE_PRESENT OR MM_PTE_WRITABLE) s2)) of
             (st, s3) \<Rightarrow>
               if st \<noteq> KSTATUS_SUCCESS then (st, s3)
               else
                 let PdPa = load64 Slot3 s3 AND MM_PTE_ADDR_MASK;
                     Pd = MmpPhysToVirtBootstrapTable PdPa
                 in physmap_loop MappedBytes Pdpt (Offset + 0x40000000) k
                      (physmap_pd_loop MappedBytes Offset Va Pd 0 512 s3)
      else (KSTATUS_SUCCESS, s))"

definition MmpBuildKernelPhysmap :: "'a MM_GLOBALS_scheme \<Rightarrow> KSTATUS \<times> 'a MM_GLOBALS_scheme" where
  "MmpBuildKernelPhysmap s =
     (if gMmKernelRootTablePhysical s = 0 then (KSTATUS_INVALID_PARAMETER, s)
      else
        let MappedBytes = MmpAlignUp (ucast (gMmTrackedPages s) * MM_PAGE_SIZE) 0x200000;
            s1 = s\<lparr>gMmPhysmapBase := MM_PHYSMAP_BASE, gMmPhysmapBytes := MappedBytes\<rparr>;
            Pml4 = MmpPhysToVirtBootstrapTable (gMmKernelRootTablePhysical s1);
            Slot4 = elem_ptr Pml4 (unat (drop_bit 39 (gMmPhysmapBase s1) AND 0x1FF))
        in case MmpAllocPageInternal True 1 s1 of
             (Inl _, s2) \<Rightarrow> (KSTATUS_INIT_FAILED, s2)
           | (Inr PdptPa, s2) \<Rightarrow>
               let s3 = store_table (MmpPhysToVirtBootstrapTable PdptPa) (\<lambda>_ _. 0) 0 512 s2;
                   s4 = store64 Slot4 (PdptPa OR MM_PTE_PRESENT OR MM_PTE_WRITABLE) s3;
                   Pdpt = MmpPhysToVirtBootstrapTable (load64 Slot4 s4 AND MM_PTE_ADDR_MASK)
               in case physmap_loop MappedBytes Pdpt 0 (Suc (unat (MappedBytes div 0x40000000))) s4 of
                    (st, s5) \<Rightarrow>
                      if st \<noteq> KSTATUS_SUCCESS then (st, s5)
                      else (KSTATUS_SUCCESS, (MmpWriteCr3 (MmpReadCr3 s5) s5)\<lparr>gMmPhysmapReady := True\<rparr>))"

subsection \<open>Initialisation\<close>

definition MmInitialize_reset :: "BOOT_INFO \<Rightarrow> 'a MM_GLOBALS_scheme \<Rightarrow> 'a MM_GLOBALS_scheme" where
  "MmInitialize_reset bi s =
     (let TopPages = hpi_PhysicalMemoryTop (the (HalQueryPlatformInfo True s)) div MM_PAGE_SIZE;
          Tracked = (if TopPages > of_nat MM_MAX_TRACKED_PAGES then of_nat MM_MAX_TRACKED_PAGES else TopPages)
      in s\<lparr>gMmTrackedPages := ucast Tracked, gMmNextScanPage := 0, gMmNextAddressSpaceId := 1,
           gMmFaultTraceNext := 0, gMmPhysmapReady := False, gMmPhysmapBase := MM_PHYSMAP_BASE,
           gMmPhysmapBytes := 0, gMmSectionType := None,
           gMmPageBitmap := array_fill MM_BITMAP_WORD_COUNT 0xFFFFFFFFFFFFFFFF (gMmPageBitmap s),
           gMmPageRefCount := array_fill MM_MAX_TRACKED_PAGES 0 (gMmPageRefCount s),
           gMmAddressSpaceInUse := array_fill MM_MAX_ADDRESS_SPACES False (gMmAddressSpaceInUse s),
           gMmSectionInUse := array_fill MM_MAX_SECTION_OBJECTS False (gMmSectionInUse s)\<rparr>)"

definition MmInitialize :: "'a MM_GLOBALS_scheme \<Rightarrow> KSTATUS \<times> 'a MM_GLOBALS_scheme" where
  "MmInitialize s =
     (if gMmReady s then (KSTATUS_ALREADY_INITIALIZED, s)
      else case NkGetBootInfo s of
        None \<Rightarrow> (KSTATUS_INVALID_PARAMETER, s)
      | Some (addr, bi) \<Rightarrow>
          if bi_Magic bi \<noteq> BOOTINFO_MAGIC then (KSTATUS_INVALID_PARAMETER, s)
          else
            let s1 = MmInitialize_reset bi s;
                s2 = MmpMarkUsableFromBootInfo (Some (addr, bi)) s1;
                s3 = MmpReserveBootCriticalRanges (Some (addr, bi)) s2
            in case MmpCloneKernelRootTable s3 of
                 (st4, s4) \<Rightarrow>
                   if st4 \<noteq> KSTATUS_SUCCESS then (KSTATUS_INIT_FAILED, s4)
                   else case MmpBuildKernelPhysmap s4 of
                     (st5, s5) \<Rightarrow>
                       if st5 \<noteq> KSTATUS_SUCCESS then (KSTATUS_INIT_FAILED, s5)
                       else case ObCreateType (Some ''Section'') (Some MmpDeleteSectionObject_ptr) True s5 of
                         (Inl _, s6) \<Rightarrow> (KSTATUS_INIT_FAILED, s6)
                       | (Inr ty, s6) \<Rightarrow>
                           (KSTATUS_SUCCESS,
                            (HalRegisterPageFaultRoutine (Some MmpOnPageFault_ptr) (s6\<lparr>gMmSectionType := Some ty\<rparr>))
                              \<lparr>gMmReady := True\<rparr>))"

subsection \<open>Address spaces\<close>

definition set_as ::
    "nat \<Rightarrow> (MM_ADDRESS_SPACE \<Rightarrow> MM_ADDRESS_SPACE) \<Rightarrow> 'a MM_GLOBALS_scheme \<Rightarrow> 'a MM_GLOBALS_scheme" where
  "set_as a f s = s\<lparr>gMmAddressSpacePool := (gMmAddressSpacePool s)(a := f (gMmAddressSpacePool s a))\<rparr>"

definition MmCreateAddressSpace ::
    "u64 \<Rightarrow> outptr \<Rightarrow> 'a MM_GLOBALS_scheme \<Rightarrow> ((KSTATUS + nat) \<times> 'a MM_GLOBALS_scheme) option" where
  "MmCreateAddressSpace OwnerProcessId OutAddressSpace s =
     (if \<not> gMmReady s \<or> \<not> OutAddressSpace then Some (Inl KSTATUS_INVALID_PARAMETER, s)
      else case scan (\<lambda>i. \<not> gMmAddressSpaceInUse s i) 0 MM_MAX_ADDRESS_SPACES of
        None \<Rightarrow> Some (Inl KSTATUS_INIT_FAILED, s)
      | Some Index \<Rightarrow>
          (case MmAllocPage True s of
             (Inl _, s1) \<Rightarrow> Some (Inl KSTATUS_INIT_FAILED, s1)
           | (Inr RootPa, s1) \<Rightarrow>
               if gMmKernelRootTablePhysical s1 = 0 then None
               else
                 let NewRoot = MmpPhysToVirtTable s1 RootPa;
                     KernelRoot = MmpPhysToVirtTable s1 (gMmKernelRootTablePhysical s1);
                     s2 = store_table NewRoot (\<lambda>i s. load64 (elem_ptr KernelRoot i) s) 0 512 s1;
                     s3 = s2\<lparr>gMmAddressSpaceInUse := (gMmAddressSpaceInUse s2)(Index := True),
                             gMmNextAddressSpaceId := gMmNextAddressSpaceId s2 + 1\<rparr>
                 in Some (Inr Index,
                      set_as Index (\<lambda>as. as\<lparr>as_AddressSpaceId := gMmNextAddressSpaceId s2,
                        as_OwnerProcessId := OwnerProcessId, as_RootTablePhysical := RootPa,
                        as_NextUserBase := MM_USER_BASE, as_RegionCount := 0\<rparr>) s3)))"

definition MmGetAddressSpaceById :: "u64 \<Rightarrow> 'a MM_GLOBALS_scheme \<Rightarrow> ptr" where
  "MmGetAddressSpaceById AddressSpaceId s =
     (if \<not> gMmReady s \<or> AddressSpaceId = 0 then None
      else scan (\<lambda>i. gMmAddressSpaceInUse s i \<and> as_AddressSpaceId (gMmAddressSpacePool s i) = AddressSpaceId)
             0 MM_MAX_ADDRESS_SPACES)"

definition MmActivateAddressSpace :: "ptr \<Rightarrow> 'a MM_GLOBALS_scheme \<Rightarrow> KSTATUS \<times> 'a MM_GLOBALS_scheme" where
  "MmActivateAddressSpace AddressSpace s =
     (case AddressSpace of
        None \<Rightarrow> (KSTATUS_INVALID_PARAMETER, s)
      | Some a \<Rightarrow>
          if \<not> gMmReady s then (KSTATUS_INVALID_PARAMETER, s)
          else
            let CurrentCr3 = MmpReadCr3 s AND MM_PTE_ADDR_MASK;
                Root = as_RootTablePhysical (gMmAddressSpacePool s a)
            in (KSTATUS_SUCCESS, if CurrentCr3 \<noteq> Root then MmpWriteCr3 Root s else s))"

definition set_region ::
    "nat \<Rightarrow> nat \<Rightarrow> (MM_VA_REGION \<Rightarrow> MM_VA_REGION) \<Rightarrow> 'a MM_GLOBALS_scheme \<Rightarrow> 'a MM_GLOBALS_scheme" where
  "set_region a i f s =
     set_as a (\<lambda>as. as\<lparr>as_Regions := (as_Regions as)(i := f (as_Regions as i))\<rparr>) s"

definition MmpFindRegion :: "nat \<Rightarrow> u64 \<Rightarrow> 'a MM_GLOBALS_scheme \<Rightarrow> ptr" where
  "MmpFindRegion AddressSpace VirtualAddress s =
     (let as = gMmAddressSpacePool s AddressSpace in
      scan (\<lambda>i. VirtualAddress \<ge> reg_Base (as_Regions as i) \<and>
                VirtualAddress < reg_Base (as_Regions as i) + reg_Size (as_Regions as i))
        0 (unat (as_RegionCount as)))"

definition MmpProtectionToPte :: "u32 \<Rightarrow> u32 \<Rightarrow> u64" where
  "MmpProtectionToPte Protection RegionFlags =
     (let F0 = 0;
          F1 = (if has_bits Protection MM_PROT_WRITE \<and> \<not> has_bits RegionFlags MM_REGION_FLAG_COW
                then F0 OR MM_PTE_WRITABLE else F0);
          F2 = (if has_bits Protection MM_PROT_USER then F1 OR MM_PTE_USER else F1);
          F3 = (if \<not> has_bits Protection MM_PROT_EXECUTE then F2 OR MM_PTE_NX else F2)
      in if has_bits RegionFlags MM_REGION_FLAG_COW then F3 OR MM_PTE_SOFT_COW else F3)"

text \<open>The commit loop for wired regions; the last argument is the number of pages left.\<close>

fun wire_loop ::
    "nat \<Rightarrow> nat \<Rightarrow> u64 \<Rightarrow> u64 \<Rightarrow> nat \<Rightarrow> 'a MM_GLOBALS_scheme \<Rightarrow> (KSTATUS \<times> 'a MM_GLOBALS_scheme) option" where
  "wire_loop a r VirtualBase Cursor 0 s = Some (KSTATUS_SUCCESS, s)"
| "wire_loop a r VirtualBase Cursor (Suc k) s =
     (case MmAllocPage True s of
        (Inl _, s1) \<Rightarrow> Some (KSTATUS_INIT_FAILED, s1)
      | (Inr Pa, s1) \<Rightarrow>
          let s2 = zero_page (MmpPhysToVirtPage s1 Pa) s1;
              Region = as_Regions (gMmAddressSpacePool s2 a) r;
              Flags = MmpProtectionToPte (reg_Protection Region) (reg_Flags Region)
          in do {
            (Status, s3) \<leftarrow> MmAsMapPage (Some a) (VirtualBase + Cursor) Pa Flags s2;
            if Status \<noteq> KSTATUS_SUCCESS then Some (KSTATUS_INIT_FAILED, s3)
            else wire_loop a r VirtualBase (Cursor + MM_PAGE_SIZE) k
                   (set_region a r (\<lambda>g. g\<lparr>reg_CommittedPages := reg_CommittedPages g + 1\<rparr>) s3) })"

definition MmMapAnonymous ::
    "ptr \<Rightarrow> u64 \<Rightarrow> u32 \<Rightarrow> u32 \<Rightarrow> outptr \<Rightarrow> 'a MM_GLOBALS_scheme \<Rightarrow> ((KSTATUS + u64) \<times> 'a MM_GLOBALS_scheme) option"
  where
  "MmMapAnonymous AddressSpace Size Protection RegionFlags OutVirtualBase s =
     (case AddressSpace of
        None \<Rightarrow> Some (Inl KSTATUS_INVALID_PARAMETER, s)
      | Some a \<Rightarrow>
          if \<not> gMmReady s \<or> \<not> OutVirtualBase then Some (Inl KSTATUS_INVALID_PARAMETER, s)
          else if as_RegionCount (gMmAddressSpacePool s a) \<ge> MM_MAX_VA_REGIONS then Some (Inl KSTATUS_INIT_FAILED, s)
          else if \<not> as_RegionCount (gMmAddressSpacePool s a) < MM_MAX_VA_REGIONS then None
          else
            let as = gMmAddressSpacePool s a;
                MapSize = MmpAlignSizeToPage Size;
                VirtualBase = MmpAlignUp (as_NextUserBase as) MM_PAGE_SIZE;
                r = unat (as_RegionCount as);
                EffectiveFlags = (if \<not> has_bits RegionFlags (MM_REGION_FLAG_LAZY OR MM_REGION_FLAG_WIRED)
                                  then RegionFlags OR MM_REGION_FLAG_LAZY else RegionFlags);
                s1 = set_region a r (\<lambda>_. \<lparr>reg_Base = VirtualBase, reg_Size = MapSize,
                       reg_Type = MM_REGION_TYPE_ANON, reg_Protection = Protection OR MM_PROT_USER,
                       reg_Flags = EffectiveFlags, reg_CommittedPages = 0, reg_BackingPhysicalBase = 0,
                       reg_BackingObject = None, reg_BackingOffset = 0\<rparr>) s
            in do {
              (Status, s2) \<leftarrow> (if has_bits EffectiveFlags MM_REGION_FLAG_WIRED
                 then wire_loop a r VirtualBase 0 (unat (MapSize div MM_PAGE_SIZE)) s1
                 else Some (KSTATUS_SUCCESS, s1));
              if Status \<noteq> KSTATUS_SUCCESS then Some (Inl Status, s2)
              else Some (Inr VirtualBase,
                     set_as a (\<lambda>as. as\<lparr>as_RegionCount := as_RegionCount as + 1,
                                      as_NextUserBase := VirtualBase + MapSize\<rparr>) s2) })"

subsection \<open>Sections\<close>

definition MmpFindSectionByHeader :: "ptr \<Rightarrow> 'a MM_GLOBALS_scheme \<Rightarrow> ptr" where
  "MmpFindSectionByHeader Header s =
     (if Header = None then None
      else scan (\<lambda>i. gMmSectionInUse s i \<and> sec_Header (gMmSectionPool s i) = Header) 0 MM_MAX_SECTION_OBJECTS)"

definition set_section ::
    "nat \<Rightarrow> (MM_SECTION_OBJECT \<Rightarrow> MM_SECTION_OBJECT) \<Rightarrow> 'a MM_GLOBALS_scheme \<Rightarrow> 'a MM_GLOBALS_scheme" where
  "set_section i f s = s\<lparr>gMmSectionPool := (gMmSectionPool s)(i := f (gMmSectionPool s i))\<rparr>"

fun delete_pages_loop :: "nat \<Rightarrow> nat \<Rightarrow> nat \<Rightarrow> 'a MM_GLOBALS_scheme \<Rightarrow> 'a MM_GLOBALS_scheme" where
  "delete_pages_loop sec Index 0 s = s"
| "delete_pages_loop sec Index (Suc k) s =
     (let pa = sec_Pages (gMmSectionPool s sec) Index in
      delete_pages_loop sec (Suc Index) k
        (if pa \<noteq> 0
         then set_section sec (\<lambda>c. c\<lparr>sec_Pages := (sec_Pages c)(Index := 0)\<rparr>) (snd (MmFreePage pa s))
         else s))"

definition MmpDeleteSectionObject :: "ptr \<Rightarrow> 'a MM_GLOBALS_scheme \<Rightarrow> 'a MM_GLOBALS_scheme" where
  "MmpDeleteSectionObject Object s =
     (case MmpFindSectionByHeader Object s of
        None \<Rightarrow> s
      | Some sec \<Rightarrow>
          let s1 = delete_pages_loop sec 0 (unat (sec_PageCount (gMmSectionPool s sec))) s in
          (case scan (\<lambda>i. i = sec) 0 MM_MAX_SECTION_OBJECTS of
             None \<Rightarrow> s1
           | Some Index \<Rightarrow>
               set_section sec (\<lambda>c. c\<lparr>sec_Header := None, sec_PageCount := 0\<rparr>)
                 (s1\<lparr>gMmSectionInUse := (gMmSectionInUse s1)(Index := False)\<rparr>)))"

fun section_pages_loop ::
    "nat \<Rightarrow> nat \<Rightarrow> nat \<Rightarrow> 'a MM_GLOBALS_scheme \<Rightarrow> KSTATUS \<times> 'a MM_GLOBALS_scheme" where
  "section_pages_loop sec Index 0 s = (KSTATUS_SUCCESS, s)"
| "section_pages_loop sec Index (Suc k) s =
     (case MmAllocPage True s of
        (Inl Status, s1) \<Rightarrow> (Status, s1)
      | (Inr Pa, s1) \<Rightarrow>
          section_pages_loop sec (Suc Index) k
            (set_section sec (\<lambda>c. c\<lparr>sec_Pages := (sec_Pages c)(Index := Pa)\<rparr>)
               (zero_page (MmpPhysToVirtPage s1 Pa) s1)))"

definition MmCreateSectionHandle ::
    "(OB_DELETE_ROUTINE \<Rightarrow> nat \<Rightarrow> 'a MM_GLOBALS_scheme \<Rightarrow> 'a MM_GLOBALS_scheme) \<Rightarrow> u64 \<Rightarrow> u32 \<Rightarrow> outptr \<Rightarrow>
     'a MM_GLOBALS_scheme \<Rightarrow> (KSTATUS + u32) \<times> 'a MM_GLOBALS_scheme" where
  "MmCreateSectionHandle del Size DesiredAccess OutHandle s =
     (if \<not> gMmReady s \<or> \<not> OutHandle \<or> gMmSectionType s = None then (Inl KSTATUS_INVALID_PARAMETER, s)
      else
        let Bytes = MmpAlignSizeToPage Size;
            PageCount = (ucast (Bytes div MM_PAGE_SIZE) :: u32)
        in if PageCount = 0 \<or> PageCount > MM_MAX_SECTION_PAGES then (Inl KSTATUS_INVALID_PARAMETER, s)
           else case scan (\<lambda>i. \<not> gMmSectionInUse s i) 0 MM_MAX_SECTION_OBJECTS of
             None \<Rightarrow> (Inl KSTATUS_INIT_FAILED, s)
           | Some SlotIndex \<Rightarrow>
               let s1 = set_section SlotIndex
                          (\<lambda>c. c\<lparr>sec_Header := None, sec_PageCount := 0,
                                 sec_Pages := array_fill (unat MM_MAX_SECTION_PAGES) 0 (sec_Pages c)\<rparr>)
                          (s\<lparr>gMmSectionInUse := (gMmSectionInUse s)(SlotIndex := True)\<rparr>)
               in case ObCreateObject (gMmSectionType s1) (Some ''mm.section'') MM_SECTION_ACCESS_ALL 0 True s1 of
                    (Inl Status, s2) \<Rightarrow>
                      (Inl Status, s2\<lparr>gMmSectionInUse := (gMmSectionInUse s2)(SlotIndex := False)\<rparr>)
                  | (Inr Header, s2) \<Rightarrow>
                      let s3 = set_section SlotIndex (\<lambda>c. c\<lparr>sec_Header := Some Header, sec_PageCount := PageCount\<rparr>) s2
                      in case section_pages_loop SlotIndex 0 (unat PageCount) s3 of
                           (Status, s4) \<Rightarrow>
                             if Status \<noteq> KSTATUS_SUCCESS then
                               (Inl Status, snd (ObDereferenceObject del (Some Header) s4))
                             else
                               case ObInsertHandle (ObGetKernelHandleTable s4) (Some Header) DesiredAccess True s4 of
                                 (r, s5) \<Rightarrow> (r, snd (ObDereferenceObject del (Some Header) s5)))"

definition MmMapSectionHandle ::
    "(OB_DELETE_ROUTINE \<Rightarrow> nat \<Rightarrow> 'a MM_GLOBALS_scheme \<Rightarrow> 'a MM_GLOBALS_scheme) \<Rightarrow> ptr \<Rightarrow> u32 \<Rightarrow> u32 \<Rightarrow> outptr \<Rightarrow>
     'a MM_GLOBALS_scheme \<Rightarrow> (KSTATUS + u64) \<times> 'a MM_GLOBALS_scheme" where
  "MmMapSectionHandle del AddressSpace HandleValue Protection OutVirtualBase s =
     (case AddressSpace of
        None \<Rightarrow> (Inl KSTATUS_INVALID_PARAMETER, s)
      | Some a \<Rightarrow>
          if \<not> gMmReady s \<or> \<not> OutVirtualBase \<or> gMmSectionType s = None then (Inl KSTATUS_INVALID_PARAMETER, s)
          else if as_RegionCount (gMmAddressSpacePool s a) \<ge> MM_MAX_VA_REGIONS then (Inl KSTATUS_INIT_FAILED, s)
          else
            let DesiredAccess = (if has_bits Protection MM_PROT_WRITE
                                 then MM_SECTION_ACCESS_MAP_READ OR MM_SECTION_ACCESS_MAP_WRITE
                                 else MM_SECTION_ACCESS_MAP_READ)
            in case ObReferenceObjectByHandle (ObGetKernelHandleTable s) HandleValue DesiredAccess
                      (gMmSectionType s) True s of
                 (Inl Status, s1) \<Rightarrow> (Inl Status, s1)
               | (Inr Header, s1) \<Rightarrow>
                   (case MmpFindSectionByHeader (Some Header) s1 of
                      None \<Rightarrow> (Inl KSTATUS_NOT_FOUND, snd (ObDereferenceObject del (Some Header) s1))
                    | Some sec \<Rightarrow>
                        let as = gMmAddressSpacePool s1 a;
                            MapSize = ucast (sec_PageCount (gMmSectionPool s1 sec)) * MM_PAGE_SIZE;
                            VirtualBase = MmpAlignUp (as_NextUserBase as) MM_PAGE_SIZE;
                            s2 = set_region a (unat (as_RegionCount as)) (\<lambda>_. \<lparr>reg_Base = VirtualBase,
                                   reg_Size = MapSize, reg_Type = MM_REGION_TYPE_SECTION,
                                   reg_Protection = (if Protection = 0 then MM_PROT_READ else Protection) OR MM_PROT_USER,
                                   reg_Flags = MM_REGION_FLAG_LAZY, reg_CommittedPages = 0,
                                   reg_BackingPhysicalBase = 0, reg_BackingObject = Some Header,
                                   reg_BackingOffset = 0\<rparr>) s1
                        in (Inr VirtualBase,
                            set_as a (\<lambda>as. as\<lparr>as_RegionCount := as_RegionCount as + 1,
                                             as_NextUserBase := VirtualBase + MapSize\<rparr>) s2)))"

subsection \<open>Page faults\<close>

definition commit_page ::
    "nat \<Rightarrow> nat \<Rightarrow> (KSTATUS \<times> 'a MM_GLOBALS_scheme) \<Rightarrow> KSTATUS \<times> 'a MM_GLOBALS_scheme" where
  "commit_page a r res =
     (case res of (Status, s) \<Rightarrow>
        if Status \<noteq> KSTATUS_SUCCESS then (Status, s)
        else (KSTATUS_SUCCESS, set_region a r (\<lambda>g. g\<lparr>reg_CommittedPages := reg_CommittedPages g + 1\<rparr>) s))"

text \<open>The copy-on-write branch, the anonymous branch and the section branch of
  \<^verbatim>\<open>MmHandlePageFault\<close>.\<close>

definition fault_cow ::
    "nat \<Rightarrow> u64 \<Rightarrow> u64 \<Rightarrow> 'a MM_GLOBALS_scheme \<Rightarrow> (KSTATUS \<times> 'a MM_GLOBALS_scheme) option" where
  "fault_cow a PageVa Pte s =
     (let OldPa = Pte AND MM_PTE_ADDR_MASK;
          OldPageIndex = unat (OldPa div MM_PAGE_SIZE)
      in if OldPageIndex < MM_MAX_TRACKED_PAGES \<and> gMmPageRefCount s OldPageIndex = 1
         then MmAsProtectPage (Some a) PageVa ((Pte AND NOT MM_PTE_SOFT_COW) OR MM_PTE_WRITABLE) s
         else case MmAllocPage True s of
           (Inl _, s1) \<Rightarrow> Some (KSTATUS_INIT_FAILED, s1)
         | (Inr NewPa, s1) \<Rightarrow>
             let s2 = copy_page (MmpPhysToVirtPage s1 NewPa) (MmpPhysToVirtPage s1 OldPa) s1;
                 s3 = MmpReleasePage OldPa s2
             in MmAsMapPage (Some a) PageVa NewPa
                  (((Pte AND NOT MM_PTE_SOFT_COW) OR MM_PTE_WRITABLE) AND NOT MM_PTE_ADDR_MASK) s3)"

definition fault_anon ::
    "nat \<Rightarrow> nat \<Rightarrow> u64 \<Rightarrow> 'a MM_GLOBALS_scheme \<Rightarrow> (KSTATUS \<times> 'a MM_GLOBALS_scheme) option" where
  "fault_anon a r PageVa s =
     (case MmAllocPage True s of
        (Inl _, s1) \<Rightarrow> Some (KSTATUS_INIT_FAILED, s1)
      | (Inr NewPa, s1) \<Rightarrow>
          let s2 = zero_page (MmpPhysToVirtPage s1 NewPa) s1;
              Region = as_Regions (gMmAddressSpacePool s2 a) r;
              Flags = MmpProtectionToPte (reg_Protection Region) (reg_Flags Region)
          in map_option (commit_page a r) (MmAsMapPage (Some a) PageVa NewPa Flags s2))"

definition fault_section ::
    "nat \<Rightarrow> nat \<Rightarrow> u64 \<Rightarrow> 'a MM_GLOBALS_scheme \<Rightarrow> (KSTATUS \<times> 'a MM_GLOBALS_scheme) option" where
  "fault_section a r PageVa s =
     (let Region = as_Regions (gMmAddressSpacePool s a) r;
          Offset = (PageVa - reg_Base Region) + reg_BackingOffset Region
      in case MmpFindSectionByHeader (reg_BackingObject Region) s of
           None \<Rightarrow> Some (KSTATUS_NOT_FOUND, s)
         | Some sec \<Rightarrow>
             let PageIndex = (ucast (Offset div MM_PAGE_SIZE) :: u32) in
             if PageIndex \<ge> sec_PageCount (gMmSectionPool s sec) then Some (KSTATUS_ACCESS_DENIED, s)
             else
               let Pa = sec_Pages (gMmSectionPool s sec) (unat PageIndex);
                   s1 = MmpRetainPage Pa s
               in map_option (commit_page a r)
                    (MmAsMapPage (Some a) PageVa Pa (MmpProtectionToPte (reg_Protection Region) (reg_Flags Region)) s1))"

definition MmHandlePageFault ::
    "ptr \<Rightarrow> u64 \<Rightarrow> u64 \<Rightarrow> 'a MM_GLOBALS_scheme \<Rightarrow> (KSTATUS \<times> 'a MM_GLOBALS_scheme) option" where
  "MmHandlePageFault AddressSpace FaultAddress ErrorCode s =
     (case AddressSpace of
        None \<Rightarrow> Some (KSTATUS_INVALID_PARAMETER, s)
      | Some a \<Rightarrow>
          if \<not> gMmReady s then Some (KSTATUS_INVALID_PARAMETER, s)
          else case MmpFindRegion a FaultAddress s of
            None \<Rightarrow> Some (KSTATUS_ACCESS_DENIED, s)
          | Some r \<Rightarrow>
              let Region = as_Regions (gMmAddressSpacePool s a) r in
              if has_bits (reg_Flags Region) MM_REGION_FLAG_GUARD then Some (KSTATUS_ACCESS_DENIED, s)
              else if has_flag ErrorCode MM_PF_ERROR_WRITE \<and> \<not> has_bits (reg_Protection Region) MM_PROT_WRITE
              then Some (KSTATUS_ACCESS_DENIED, s)
              else if has_flag ErrorCode MM_PF_ERROR_USER \<and> \<not> has_bits (reg_Protection Region) MM_PROT_USER
              then Some (KSTATUS_ACCESS_DENIED, s)
              else if has_flag ErrorCode MM_PF_ERROR_INSTR \<and> \<not> has_bits (reg_Protection Region) MM_PROT_EXECUTE
              then Some (KSTATUS_ACCESS_DENIED, s)
              else do {
                let PageVa = MmpAlignDown FaultAddress MM_PAGE_SIZE;
                (q, s1) \<leftarrow> MmAsQueryPte (Some a) PageVa True s;
                if has_flag ErrorCode MM_PF_ERROR_PRESENT then
                  (case q of
                     Inr Pte \<Rightarrow>
                       if has_flag Pte MM_PTE_SOFT_COW \<and> has_flag ErrorCode MM_PF_ERROR_WRITE
                       then fault_cow a PageVa Pte s1
                       else Some (KSTATUS_ACCESS_DENIED, s1)
                   | Inl _ \<Rightarrow> Some (KSTATUS_ACCESS_DENIED, s1))
                else if reg_Type Region = MM_REGION_TYPE_ANON then fault_anon a r PageVa s1
                else if reg_Type Region = MM_REGION_TYPE_PHYS then
                  let Offset = PageVa - reg_Base Region;
                      Pa = reg_BackingPhysicalBase Region + Offset
                  in MmAsMapPage (Some a) PageVa Pa
                       (MmpProtectionToPte (reg_Protection Region) (reg_Flags Region)) (MmpRetainPage Pa s1)
                else if reg_Type Region = MM_REGION_TYPE_SECTION then fault_section a r PageVa s1
                else Some (KSTATUS_NOT_IMPLEMENTED, s1) })"

section \<open>Frames\<close>

text \<open>Page operations touch physical memory and the page allocator, and nothing else.\<close>

definition mm_frame :: "'a MM_GLOBALS_scheme \<Rightarrow> 'a MM_GLOBALS_scheme \<Rightarrow> bool" where
  "mm_frame s t \<longleftrightarrow> (\<exists>m bm rc nx. t = s\<lparr>hw_mem := m, gMmPageBitmap := bm, gMmPageRefCount := rc, gMmNextScanPage := nx\<rparr>)"

lemma mm_frameI: "t = s\<lparr>hw_mem := m, gMmPageBitmap := bm, gMmPageRefCount := rc, gMmNextScanPage := nx\<rparr> \<Longrightarrow> mm_frame s t"
  unfolding mm_frame_def by blast

lemma mm_frame_refl [simp]: "mm_frame s s"
  by (rule mm_frameI [where m = "hw_mem s" and bm = "gMmPageBitmap s" and rc = "gMmPageRefCount s" and nx = "gMmNextScanPage s"]) simp

lemma mm_frame_trans: "mm_frame s t \<Longrightarrow> mm_frame t u \<Longrightarrow> mm_frame s u"
  unfolding mm_frame_def by (elim exE) (intro exI, simp)

lemma mm_frame_mem: "mm_frame s (s\<lparr>hw_mem := m\<rparr>)"
  by (rule mm_frameI [where m = m and bm = "gMmPageBitmap s" and rc = "gMmPageRefCount s" and nx = "gMmNextScanPage s"]) simp

lemma mm_frame_store [simp]: "mm_frame s (store64 p v s)"
  by (simp add: store64_def mm_frame_mem)

lemma mm_frame_store_table [simp]: "mm_frame s (store_table T f i k s)"
  using store_table_shape [of T f i k s] mm_frame_mem by metis

lemma mm_frame_alloc_internal: "MmpAllocPageInternal out rc s = (r, t) \<Longrightarrow> mm_frame s t"
proof (drule alloc_internal_shape, erule disjE)
  assume "\<exists>P nx. t = (MmpSetPageAllocated P s)
    \<lparr>gMmPageRefCount := (gMmPageRefCount s)(unat P := rc), gMmNextScanPage := nx\<rparr>"
  then obtain P nx where t: "t = (MmpSetPageAllocated P s)
    \<lparr>gMmPageRefCount := (gMmPageRefCount s)(unat P := rc), gMmNextScanPage := nx\<rparr>" by blast
  show "mm_frame s t"
    by (rule mm_frameI [where m = "hw_mem s" and bm = "gMmPageBitmap t" and rc = "gMmPageRefCount t" and nx = nx])
      (simp add: t MmpSetPageAllocated_def Let_def)
qed simp

lemma mm_frame_alloc: "MmAllocPage True s = (r, t) \<Longrightarrow> mm_frame s t"
  by (auto simp: MmAllocPage_def split: if_splits intro: mm_frame_alloc_internal)

lemma mm_frame_release: "mm_frame s (MmpReleasePage pa s)"
  by (rule mm_frameI [where m = "hw_mem s" and bm = "gMmPageBitmap (MmpReleasePage pa s)" and rc = "gMmPageRefCount (MmpReleasePage pa s)" and nx = "gMmNextScanPage s"])
    (simp add: MmpReleasePage_def MmpSetPageFree_def Let_def)

lemma mm_frame_store_release [simp]: "mm_frame s (store64 p v (MmpReleasePage pa s))"
  by (rule mm_frame_trans [OF mm_frame_release mm_frame_store])

lemma mm_frame_retain: "mm_frame s (MmpRetainPage pa s)"
  by (rule mm_frameI [where m = "hw_mem s" and bm = "gMmPageBitmap s" and rc = "gMmPageRefCount (MmpRetainPage pa s)" and nx = "gMmNextScanPage s"])
    (simp add: MmpRetainPage_def Let_def)

lemma mm_frame_split: "MmpWalk_split va c L p e s = (r, t) \<Longrightarrow> mm_frame s t"
  by (auto simp: MmpWalk_split_def Let_def split: if_splits prod.splits sum.splits
      intro: mm_frame_trans [OF mm_frame_alloc mm_frame_trans [OF mm_frame_store_table mm_frame_store]] mm_frame_alloc)

lemma mm_frame_sanitize: "MmpWalk_sanitize va c p e s = (r, t) \<Longrightarrow> mm_frame s t"
  by (auto simp: MmpWalk_sanitize_def Let_def split: if_splits intro: mm_frame_store)

lemma mm_frame_create: "MmpWalk_create va c p e s = (r, t) \<Longrightarrow> mm_frame s t"
  by (auto simp: MmpWalk_create_def Let_def split: if_splits prod.splits sum.splits
      intro: mm_frame_trans [OF mm_frame_alloc mm_frame_trans [OF mm_frame_store_table mm_frame_store]] mm_frame_alloc)

lemma mm_frame_level: "MmpWalk_level va c L T s = (r, t) \<Longrightarrow> mm_frame s t"
  by (auto simp: MmpWalk_level_def Let_def split: prod.splits sum.splits
      intro: mm_frame_split mm_frame_trans [OF mm_frame_split mm_frame_trans [OF mm_frame_sanitize mm_frame_create]])

lemma mm_frame_loop: "MmpWalk_loop va c L k T s = (r, t) \<Longrightarrow> mm_frame s t"
proof (induction k arbitrary: L T s)
  case (Suc k)
  then show ?case
    by (cases "MmpWalk_level va c L T s"; cases "fst (MmpWalk_level va c L T s)")
      (auto dest: mm_frame_level intro: mm_frame_trans)
qed simp

lemma mm_frame_walk: "MmpWalkToPte a va c out s = Some (r, t) \<Longrightarrow> mm_frame s t"
  by (auto simp: MmpWalkToPte_def Let_def split: option.splits if_splits prod.splits sum.splits intro: mm_frame_loop)

lemma mm_frame_walk_then:
  assumes "MmpWalkToPte a va c True s \<bind> (\<lambda>r. Some (f r)) = Some (st, t)"
    and "\<And>q s1. mm_frame s1 (snd (f (q, s1)))"
  shows "mm_frame s t"
proof -
  from assms(1) obtain q s1 where "MmpWalkToPte a va c True s = Some (q, s1)" "f (q, s1) = (st, t)"
    by (auto simp: bind_eq_Some_conv)
  with assms(2) [of s1 q] show ?thesis by (auto intro: mm_frame_trans mm_frame_walk)
qed

lemma mm_frame_map:
  assumes "MmAsMapPage a va pa fl s = Some (st, t)"
  shows "mm_frame s t"
proof (cases "\<not> gMmReady s \<or> a = None \<or> \<not> page_aligned va \<or> \<not> page_aligned pa")
  case False
  with assms show ?thesis
    by (auto simp: MmAsMapPage_def Let_def elim!: mm_frame_walk_then split: sum.splits
        intro: mm_frame_store mm_frame_trans [OF mm_frame_release mm_frame_store])
qed (use assms in \<open>auto simp: MmAsMapPage_def\<close>)

lemma mm_frame_protect:
  assumes "MmAsProtectPage a va fl s = Some (st, t)"
  shows "mm_frame s t"
proof (cases "\<not> gMmReady s \<or> a = None \<or> \<not> page_aligned va")
  case False
  with assms show ?thesis
    by (auto simp: MmAsProtectPage_def elim!: mm_frame_walk_then split: sum.splits intro: mm_frame_store)
qed (use assms in \<open>auto simp: MmAsProtectPage_def\<close>)

lemma mm_frame_query:
  assumes "MmAsQueryPte a va out s = Some (r, t)"
  shows "mm_frame s t"
proof (cases "\<not> gMmReady s \<or> a = None \<or> \<not> out \<or> \<not> page_aligned va")
  case False
  with assms show ?thesis
    by (auto simp: MmAsQueryPte_def elim!: mm_frame_walk_then split: sum.splits)
qed (use assms in \<open>auto simp: MmAsQueryPte_def\<close>)

lemma mm_frame_fields:
  assumes "mm_frame s t"
  shows "gMmAddressSpacePool t = gMmAddressSpacePool s" "gMmReady t = gMmReady s" "gMmTrackedPages t = gMmTrackedPages s"
    "gMmSectionPool t = gMmSectionPool s" "gMmSectionInUse t = gMmSectionInUse s" "gMmAddressSpaceInUse t = gMmAddressSpaceInUse s"
    "gMmPhysmapReady t = gMmPhysmapReady s" "gMmPhysmapBase t = gMmPhysmapBase s" "gMmSectionType t = gMmSectionType s"
    "gMmKernelRootTablePhysical t = gMmKernelRootTablePhysical s" "ob_part t = ob_part s" "hw_cr3 t = hw_cr3 s"
  using assms by (auto simp: mm_frame_def ob_part_def)

section \<open>Initialisation\<close>

lemma mark_loop_shape: "\<exists>bm. MmpMarkRange_loop P a k s = s\<lparr>gMmPageBitmap := bm\<rparr>"
proof (induction P a k s rule: MmpMarkRange_loop.induct)
  case (1 P a s)
  show ?case by (intro exI [of _ "gMmPageBitmap s"]) simp
next
  case (2 P a k s)
  show ?case
  proof (cases "P \<ge> ucast (gMmTrackedPages s)")
    case True
    then show ?thesis by (intro exI [of _ "gMmPageBitmap s"]) simp
  next
    case False
    from "2.IH" [OF False] obtain bm where
      "MmpMarkRange_loop (P + 1) a k (if a then MmpSetPageAllocated (ucast P) s else MmpSetPageFree (ucast P) s) =
       (if a then MmpSetPageAllocated (ucast P) s else MmpSetPageFree (ucast P) s)\<lparr>gMmPageBitmap := bm\<rparr>" by blast
    with False show ?thesis
      by (intro exI [of _ bm]) (simp add: MmpSetPageAllocated_def MmpSetPageFree_def Let_def)
  qed
qed

lemma mark_range_shape: "\<exists>bm. MmpMarkRange b l a s = s\<lparr>gMmPageBitmap := bm\<rparr>"
  using mark_loop_shape [of _ a _ s]
  by (simp add: MmpMarkRange_def Let_def) (metis MM_GLOBALS.surjective MM_GLOBALS.update_convs(1))

lemma mark_range_untracked: "gMmTrackedPages s = 0 \<Longrightarrow> MmpMarkRange b l a s = s"
  by (simp add: MmpMarkRange_def)

lemma mark_loop_mono: "page_alloc s p \<Longrightarrow> page_alloc (MmpMarkRange_loop P True k s) p"
  by (induction P "True" k s rule: MmpMarkRange_loop.induct) auto

lemma mark_range_mono: "page_alloc s p \<Longrightarrow> page_alloc (MmpMarkRange b l True s) p"
  by (simp add: MmpMarkRange_def Let_def mark_loop_mono)

definition bitmap_frame :: "'a MM_GLOBALS_scheme \<Rightarrow> 'a MM_GLOBALS_scheme \<Rightarrow> bool" where
  "bitmap_frame s t \<longleftrightarrow> (\<exists>bm. t = s\<lparr>gMmPageBitmap := bm\<rparr>)"

lemma bitmap_frame_refl: "bitmap_frame s s"
  unfolding bitmap_frame_def by (intro exI [of _ "gMmPageBitmap s"]) simp

lemma bitmap_frame_trans: "bitmap_frame s t \<Longrightarrow> bitmap_frame t u \<Longrightarrow> bitmap_frame s u"
  unfolding bitmap_frame_def by auto

lemma bitmap_frame_mark: "bitmap_frame s (MmpMarkRange b l a s)"
  using mark_range_shape by (simp add: bitmap_frame_def)

lemma bitmap_frame_usable_loop: "bitmap_frame s (MmpMarkUsable_loop c e k s)"
proof (induction k arbitrary: c s)
  case (Suc k)
  show ?case
    by (auto simp: Let_def intro: Suc.IH bitmap_frame_trans [OF bitmap_frame_mark Suc.IH])
qed (simp add: bitmap_frame_refl)

lemma bitmap_frame_usable: "bitmap_frame s (MmpMarkUsableFromBootInfo bi s)"
  by (auto simp: MmpMarkUsableFromBootInfo_def bitmap_frame_refl bitmap_frame_usable_loop split: option.splits)

lemma reserve_effect:
  assumes "tracked s \<le> MM_MAX_TRACKED_PAGES" "0 < tracked s"
  shows "bitmap_frame s (MmpReserveBootCriticalRanges (Some (a, bi)) s) \<and>
    page_alloc (MmpReserveBootCriticalRanges (Some (a, bi)) s) 0"
proof -
  have "page_alloc (MmpMarkRange 0 0x100000 True s) 0"
    using mark_range(1) [OF assms(1), of 0 "0x100000" True] assms(2) by (simp add: page_inside_def)
  then have "page_alloc (MmpReserveBootCriticalRanges (Some (a, bi)) s) 0"
    by (simp add: MmpReserveBootCriticalRanges_def Let_def mark_range_mono)
  moreover have "bitmap_frame s (MmpReserveBootCriticalRanges (Some (a, bi)) s)"
    by (auto simp: MmpReserveBootCriticalRanges_def Let_def intro!: bitmap_frame_trans [OF _ bitmap_frame_mark] bitmap_frame_refl)
  ultimately show ?thesis by simp
qed

lemma pages_wf_fields:
  "pages_wf (s\<lparr>gMmKernelRootTablePhysical := x\<rparr>) = pages_wf s" "pages_wf (s\<lparr>hw_cr3 := y\<rparr>) = pages_wf s"
  "pages_wf (s\<lparr>gMmPhysmapReady := z\<rparr>) = pages_wf s" "pages_wf (s\<lparr>gMmPhysmapBase := u, gMmPhysmapBytes := v\<rparr>) = pages_wf s"
  "page_alloc (s\<lparr>gMmKernelRootTablePhysical := x\<rparr>) = page_alloc s" "page_alloc (s\<lparr>hw_cr3 := y\<rparr>) = page_alloc s"
  "page_alloc (s\<lparr>gMmPhysmapReady := z\<rparr>) = page_alloc s"
  "page_alloc (s\<lparr>gMmPhysmapBase := u, gMmPhysmapBytes := v\<rparr>) = page_alloc s"
  by (simp_all add: pages_wf_def page_alloc_def fun_eq_iff)

text \<open>\<open>boot_step s t\<close>: what the table-building steps of initialisation preserve.\<close>

definition boot_step :: "'a MM_GLOBALS_scheme \<Rightarrow> 'a MM_GLOBALS_scheme \<Rightarrow> bool" where
  "boot_step s t \<longleftrightarrow> (pages_wf s \<longrightarrow> pages_wf t) \<and> (\<forall>p. pages_wf s \<and> page_alloc s p \<longrightarrow> page_alloc t p) \<and> mm_frame s t"

lemma boot_step_refl: "boot_step s s"
  by (simp add: boot_step_def)

lemma boot_step_trans: "boot_step s t \<Longrightarrow> boot_step t u \<Longrightarrow> boot_step s u"
  unfolding boot_step_def by (blast intro: mm_frame_trans)

lemma boot_step_mem: "boot_step s (s\<lparr>hw_mem := m\<rparr>)"
  by (simp add: boot_step_def mm_frame_mem)

lemma boot_step_store: "boot_step s (store64 p v s)"
  by (simp add: store64_def boot_step_mem)

lemma boot_step_table: "boot_step s (store_table T f i k s)"
  using store_table_shape [of T f i k s] boot_step_mem by metis

lemma boot_step_alloc:
  assumes "MmpAllocPageInternal True rc s = (r, t)"
  shows "boot_step s t"
proof -
  have "page_alloc t p" if "pages_wf s" "page_alloc s p" for p
  proof (cases r)
    case (Inl st)
    with assms that MmpAllocPageInternal_Inl show ?thesis by blast
  next
    case (Inr pa)
    with assms that obtain q where "page_alloc t = (page_alloc s)(q := True)"
      by (auto elim: MmpAllocPageInternal_Inr)
    with that show ?thesis by simp
  qed
  with alloc_pages_wf [OF _ assms] mm_frame_alloc_internal [OF assms] show ?thesis by (auto simp: boot_step_def)
qed

lemma boot_step_pd: "boot_step s (physmap_pd_loop mb off va pd i k s)"
proof (induction k arbitrary: i s)
  case (Suc k)
  show ?case by (auto simp: Let_def boot_step_refl intro: boot_step_trans [OF boot_step_store Suc.IH])
qed (simp add: boot_step_refl)

lemma boot_step_physmap: "physmap_loop mb pdpt off k s = (st, t) \<Longrightarrow> boot_step s t"
proof (induction k arbitrary: off s)
  case (Suc k)
  show ?case
  proof (cases "off < mb")
    case False
    with Suc.prems show ?thesis by (simp add: boot_step_refl)
  next
    case True
    let ?sl = "elem_ptr pdpt (unat (drop_bit 30 (gMmPhysmapBase s + off) AND 0x1FF))"
    obtain st3 s3 where 3: "(if has_flag (load64 ?sl s) MM_PTE_PRESENT then (KSTATUS_SUCCESS, s)
                 else case MmpAllocPageInternal True 1 s of
                   (Inl _, s1) \<Rightarrow> (KSTATUS_INIT_FAILED, s1)
                 | (Inr PdPa, s1) \<Rightarrow>
                     let s2 = store_table (MmpPhysToVirtBootstrapTable PdPa) (\<lambda>_ _. 0) 0 512 s1
                     in (KSTATUS_SUCCESS, store64 ?sl (PdPa OR MM_PTE_PRESENT OR MM_PTE_WRITABLE) s2)) = (st3, s3)"
      by fastforce
    then have s3: "boot_step s s3"
      by (auto simp: Let_def boot_step_refl split: if_splits prod.splits sum.splits
          intro: boot_step_alloc boot_step_trans [OF boot_step_alloc boot_step_trans [OF boot_step_table boot_step_store]])
    show ?thesis
    proof (cases "st3 = KSTATUS_SUCCESS")
      case False
      with Suc.prems True 3 s3 show ?thesis by (simp add: Let_def)
    next
      case ok: True
      with Suc.prems True 3 have "physmap_loop mb pdpt (off + 0x40000000) k
          (physmap_pd_loop mb off (gMmPhysmapBase s + off)
            (MmpPhysToVirtBootstrapTable (load64 ?sl s3 AND MM_PTE_ADDR_MASK)) 0 512 s3) = (st, t)"
        by (simp add: Let_def)
      from boot_step_trans [OF s3 boot_step_trans [OF boot_step_pd Suc.IH [OF this]]] show ?thesis .
    qed
  qed
qed (simp add: boot_step_refl)

definition free_pages :: "'a MM_GLOBALS_scheme \<Rightarrow> nat" where
  "free_pages s = card {p. p < tracked s \<and> \<not> page_alloc s p}"

lemma alloc_internal_free:
  assumes wf: "pages_wf s" and free: "0 < free_pages s"
  obtains pa t where "MmpAllocPageInternal True rc s = (Inr pa, t)" "Suc (free_pages t) = free_pages s" "pages_wf t"
    "page_alloc s 0 \<Longrightarrow> pa \<noteq> 0"
proof -
  obtain r t where a: "MmpAllocPageInternal True rc s = (r, t)" by fastforce
  from free obtain q where "q < tracked s" "\<not> page_alloc s q"
    by (metis (mono_tags, lifting) Collect_empty_eq card.empty free_pages_def less_irrefl)
  with MmpAllocPageInternal_Inl [OF wf] a obtain pa where pa: "r = Inr pa" by (cases r) blast+
  with a obtain p where p: "p < tracked s" "\<not> page_alloc s p" "unat pa = p * 4096"
    "page_alloc t = (page_alloc s)(p := True)" "gMmTrackedPages t = gMmTrackedPages s"
    by (auto elim: MmpAllocPageInternal_Inr [OF wf])
  have "{x. x < tracked t \<and> \<not> page_alloc t x} = {x. x < tracked s \<and> \<not> page_alloc s x} - {p}"
    using p by auto
  then have "Suc (free_pages t) = free_pages s"
    using p card_Suc_Diff1 [of "{x. x < tracked s \<and> \<not> page_alloc s x}" p] by (simp add: free_pages_def)
  moreover have "page_alloc s 0 \<Longrightarrow> pa \<noteq> 0"
    using p(2,3) by (cases "p = 0") auto
  ultimately show thesis using that a pa alloc_pages_wf [OF wf a] by blast
qed

lemma free_pages_mem [simp]: "free_pages (s\<lparr>hw_mem := m\<rparr>) = free_pages s"
  by (simp add: free_pages_def)

lemma free_pages_store [simp]: "free_pages (store64 q v s) = free_pages s" "pages_wf (store64 q v s) = pages_wf s"
  "page_alloc (store64 q v s) = page_alloc s" "gMmTrackedPages (store64 q v s) = gMmTrackedPages s"
  by (simp_all add: store64_def)

lemma free_pages_table [simp]: "free_pages (store_table T f i k s) = free_pages s"
  "pages_wf (store_table T f i k s) = pages_wf s" "page_alloc (store_table T f i k s) = page_alloc s"
  using store_table_shape [of T f i k s] by auto

lemma free_pages_pd [simp]: "free_pages (physmap_pd_loop mb off va pd i k s) = free_pages s"
  by (induction mb off va pd i k s rule: physmap_pd_loop.induct) (simp_all add: Let_def)

lemma free_pages_ready [simp]: "free_pages (s\<lparr>gMmPhysmapReady := b\<rparr>) = free_pages s"
  by (simp add: free_pages_def page_alloc_def)

lemma free_pages_bases [simp]: "free_pages (s\<lparr>gMmPhysmapBase := u, gMmPhysmapBytes := v\<rparr>) = free_pages s"
  "free_pages (s\<lparr>gMmKernelRootTablePhysical := x\<rparr>) = free_pages s" "free_pages (s\<lparr>hw_cr3 := y\<rparr>) = free_pages s"
  by (simp_all add: free_pages_def pages_wf_fields)

text \<open>What initialisation leaves alone besides the object manager.\<close>

definition boot_rest :: "'a MM_GLOBALS_scheme \<Rightarrow> (u64 \<times> BOOT_INFO) option \<times> HAL_PLATFORM_INFO \<times> (nat \<Rightarrow> bool) \<times> 'a" where
  "boot_rest s = (gNkBootInfo s, gHalPlatformInfo s, gMmAddressSpaceInUse s, MM_GLOBALS.more s)"

lemma mm_frame_rest: "mm_frame s t \<Longrightarrow> boot_rest t = boot_rest s"
  by (auto simp: mm_frame_def boot_rest_def)

lemma clone_ok:
  assumes "pages_wf s" "0 < free_pages s" "page_alloc s 0" "hw_cr3 s AND MM_PTE_ADDR_MASK \<noteq> 0"
  shows "\<exists>t. MmpCloneKernelRootTable s = (KSTATUS_SUCCESS, t) \<and> pages_wf t \<and> Suc (free_pages t) = free_pages s \<and>
    page_alloc t 0 \<and> gMmKernelRootTablePhysical t \<noteq> 0 \<and> hw_cr3 t = gMmKernelRootTablePhysical t \<and>
    gMmTrackedPages t = gMmTrackedPages s \<and> ob_part t = ob_part s \<and> boot_rest t = boot_rest s"
proof -
  obtain pa s1 where a: "MmpAllocPageInternal True 1 s = (Inr pa, s1)" "Suc (free_pages s1) = free_pages s" "pages_wf s1"
    "pa \<noteq> 0" using alloc_internal_free [OF assms(1,2)] assms(3) by metis
  have "page_alloc s1 0" "gMmTrackedPages s1 = gMmTrackedPages s" "ob_part s1 = ob_part s" "boot_rest s1 = boot_rest s"
    using boot_step_alloc [OF a(1)] assms(1,3) mm_frame_fields mm_frame_rest by (auto simp: boot_step_def)
  moreover obtain m where "store_table (MmpPhysToVirtBootstrapTable pa)
      (\<lambda>i. load64 (elem_ptr (MmpPhysToVirtBootstrapTable (hw_cr3 s AND MM_PTE_ADDR_MASK)) i)) 0 512 s1 = s1\<lparr>hw_mem := m\<rparr>"
    using store_table_shape by blast
  ultimately show ?thesis
    using a assms(4)
    by (simp add: MmpCloneKernelRootTable_def MmpReadCr3_def MmpWriteCr3_def Let_def pages_wf_fields ob_part_def boot_rest_def)
qed

lemma physmap_one:
  assumes "pages_wf s" "0 < free_pages s" "mb \<le> 0x40000000" "page_alloc s 0"
  shows "\<exists>t. physmap_loop mb pdpt 0 (Suc k) s = (KSTATUS_SUCCESS, t) \<and> free_pages s \<le> Suc (free_pages t)"
proof (cases "0 < mb")
  case True
  obtain pa s1 where a: "MmpAllocPageInternal True 1 s = (Inr pa, s1)" "Suc (free_pages s1) = free_pages s"
    using alloc_internal_free [OF assms(1,2)] by metis
  have "\<not> 0x40000000 < mb" using assms(3) by simp
  then have fin: "physmap_loop mb pdpt 0x40000000 k u = (KSTATUS_SUCCESS, u)" for u :: "'a MM_GLOBALS_scheme"
    by (cases k) simp_all
  with True a show ?thesis by (simp add: Let_def)
qed simp

lemma physmap_bytes_bound:
  assumes "unat (n :: u32) \<le> 262144"
  shows "MmpAlignUp (ucast n * MM_PAGE_SIZE) 0x200000 \<le> 0x40000000"
proof -
  let ?x = "ucast n * MM_PAGE_SIZE :: u64"
  have "unat n * 4096 < 2 ^ 64" using assms by simp
  then have x: "unat ?x = unat n * 4096"
    using unat_mult_lem [of "ucast n :: u64" MM_PAGE_SIZE] by (simp add: MM_PAGE_SIZE_def)
  have m: "(0x1FFFFF :: u64) = mask 21" by (simp add: mask_eq_decr_exp)
  have "(0x200000 :: u64) \<noteq> 0" "?x + 0x200000 - 1 = ?x + 0x1FFFFF" "(0x200000 :: u64) - 1 = 0x1FFFFF" by simp_all
  then have "MmpAlignUp ?x 0x200000 = (?x + 0x1FFFFF) AND NOT (mask 21)"
    unfolding MmpAlignUp_def m [symmetric] by (simp only: if_False)
  moreover have "unat (?x + 0x1FFFFF) = unat n * 4096 + 0x1FFFFF"
    using unat_add_u64 [of ?x "0x1FFFFF"] x assms by simp
  ultimately have "unat (MmpAlignUp ?x 0x200000) = (unat n * 4096 + 0x1FFFFF) div 2 ^ 21 * 2 ^ 21"
    using unat_align [of 21 "?x + 0x1FFFFF"] by simp
  moreover have "(unat n * 4096 + 0x1FFFFF) div 2 ^ 21 \<le> 512" using assms by simp
  ultimately show ?thesis by (simp add: word_le_nat_alt)
qed

lemma physmap_build_ok:
  assumes wf: "pages_wf s" and fr: "2 \<le> free_pages s" and p0: "page_alloc s 0" and "gMmKernelRootTablePhysical s \<noteq> 0"
  shows "\<exists>t. MmpBuildKernelPhysmap s = (KSTATUS_SUCCESS, t) \<and> pages_wf t \<and> page_alloc t 0 \<and>
    gMmKernelRootTablePhysical t = gMmKernelRootTablePhysical s \<and> hw_cr3 t = hw_cr3 s \<and> gMmPhysmapReady t \<and>
    gMmPhysmapBase t = MM_PHYSMAP_BASE \<and> ob_part t = ob_part s \<and> boot_rest t = boot_rest s \<and> free_pages s \<le> free_pages t + 2"
proof -
  define mb where "mb = MmpAlignUp (ucast (gMmTrackedPages s) * MM_PAGE_SIZE) 0x200000"
  define s1 where "s1 = s\<lparr>gMmPhysmapBase := MM_PHYSMAP_BASE, gMmPhysmapBytes := mb\<rparr>"
  have s1: "pages_wf s1" "free_pages s1 = free_pages s" "page_alloc s1 = page_alloc s" "ob_part s1 = ob_part s"
    using wf by (simp_all add: s1_def pages_wf_fields ob_part_def)
  have "tracked s \<le> 262144" using wf by (simp add: pages_wf_def MM_MAX_TRACKED_PAGES_def)
  then have mb: "mb \<le> 0x40000000" unfolding mb_def by (rule physmap_bytes_bound)
  obtain pa s2 where a: "MmpAllocPageInternal True 1 s1 = (Inr pa, s2)" "Suc (free_pages s2) = free_pages s1" "pages_wf s2"
    using alloc_internal_free [OF s1(1)] s1(2) fr by (metis less_le_trans zero_less_numeral)
  define sl where "sl = elem_ptr (MmpPhysToVirtBootstrapTable (gMmKernelRootTablePhysical s1))
    (unat (drop_bit 39 (gMmPhysmapBase s1) AND 0x1FF))"
  define s4 where "s4 = store64 sl (pa OR MM_PTE_PRESENT OR MM_PTE_WRITABLE)
    (store_table (MmpPhysToVirtBootstrapTable pa) (\<lambda>_ _. 0) 0 512 s2)"
  have st: "boot_step s1 s4"
    unfolding s4_def by (rule boot_step_trans [OF boot_step_alloc [OF a(1)] boot_step_trans [OF boot_step_table boot_step_store]])
  then have s4: "pages_wf s4" "page_alloc s4 0" using s1 p0 by (auto simp: boot_step_def)
  have f4: "0 < free_pages s4" using a(2) s1(2) fr by (simp add: s4_def)
  define pdpt where "pdpt = MmpPhysToVirtBootstrapTable (load64 sl s4 AND MM_PTE_ADDR_MASK)"
  obtain t where t: "physmap_loop mb pdpt 0 (Suc (unat (mb div 0x40000000))) s4 = (KSTATUS_SUCCESS, t)" "free_pages s4 \<le> Suc (free_pages t)"
    using physmap_one [OF s4(1) f4 mb s4(2)] by blast
  have bs: "boot_step s1 t" using boot_step_trans [OF st boot_step_physmap [OF t(1)]] .
  have "MmpBuildKernelPhysmap s = (KSTATUS_SUCCESS, (MmpWriteCr3 (MmpReadCr3 t) t)\<lparr>gMmPhysmapReady := True\<rparr>)"
    using assms(4) a(1) t(1) unfolding MmpBuildKernelPhysmap_def Let_def
    by (simp add: mb_def [symmetric] s1_def [symmetric] sl_def [symmetric] s4_def [symmetric] pdpt_def [symmetric] del: physmap_loop.simps)
  moreover have "pages_wf t" "page_alloc t 0" "mm_frame s1 t" using bs s1 p0 by (auto simp: boot_step_def)
  moreover have "boot_rest s1 = boot_rest s" by (simp add: s1_def boot_rest_def)
  moreover have "free_pages s \<le> free_pages t + 2" using t(2) a(2) s1(2) by (simp add: s4_def)
  ultimately show ?thesis
    using mm_frame_fields [of s1 t] mm_frame_rest [of s1 t] s1(4)
    by (simp add: MmpWriteCr3_def MmpReadCr3_def pages_wf_fields ob_part_def boot_rest_def s1_def)
qed

section \<open>Properties\<close>

text \<open>The state in which initialisation starts building tables: globals reset, memory map applied.\<close>

definition boot_marked :: "u64 \<Rightarrow> BOOT_INFO \<Rightarrow> 'a MM_GLOBALS_scheme \<Rightarrow> 'a MM_GLOBALS_scheme" where
  "boot_marked a bi s =
     MmpReserveBootCriticalRanges (Some (a, bi)) (MmpMarkUsableFromBootInfo (Some (a, bi)) (MmInitialize_reset bi s))"

lemma reset_wf: "pages_wf (MmInitialize_reset bi s)" "tracked (MmInitialize_reset bi s) \<le> MM_MAX_TRACKED_PAGES"
proof -
  let ?top = "hpi_PhysicalMemoryTop (the (HalQueryPlatformInfo True s)) div MM_PAGE_SIZE"
  have "unat (ucast (if ?top > 262144 then 262144 else ?top) :: u32) \<le> 262144"
  proof (cases "?top > 262144")
    case False
    then have "unat ?top \<le> 262144" by (simp add: word_less_nat_alt)
    with False show ?thesis by (simp add: unat_ucast_32)
  qed simp
  then show b: "tracked (MmInitialize_reset bi s) \<le> MM_MAX_TRACKED_PAGES"
    by (auto simp: MmInitialize_reset_def Let_def MM_MAX_TRACKED_PAGES_def split: if_splits)
  then show "pages_wf (MmInitialize_reset bi s)"
    by (simp add: pages_wf_def) (simp add: MmInitialize_reset_def Let_def)
qed

lemma boot_marked_wf:
  assumes "0 < tracked (boot_marked a bi s)"
  shows "pages_wf (boot_marked a bi s)" "page_alloc (boot_marked a bi s) 0" "bitmap_frame (MmInitialize_reset bi s) (boot_marked a bi s)"
proof -
  let ?r = "MmInitialize_reset bi s"
  let ?u = "MmpMarkUsableFromBootInfo (Some (a, bi)) ?r"
  have fu: "bitmap_frame ?r ?u" by (rule bitmap_frame_usable)
  then have tr: "gMmTrackedPages ?u = gMmTrackedPages ?r" by (auto simp: bitmap_frame_def)
  have "0 < tracked ?u"
  proof (rule ccontr)
    assume "\<not> 0 < tracked ?u"
    then have z: "gMmTrackedPages ?u = 0" by (simp add: unat_eq_zero)
    then have "boot_marked a bi s = ?u"
      by (simp add: boot_marked_def MmpReserveBootCriticalRanges_def mark_range_untracked Let_def)
    with z assms show False by simp
  qed
  with reserve_effect [of ?u a bi] reset_wf(2) [of bi s] tr
  have e: "bitmap_frame ?u (boot_marked a bi s)" "page_alloc (boot_marked a bi s) 0" by (auto simp: boot_marked_def)
  then show f: "bitmap_frame ?r (boot_marked a bi s)" "page_alloc (boot_marked a bi s) 0"
    using bitmap_frame_trans [OF fu] by auto
  have "\<forall>p<MM_MAX_TRACKED_PAGES. gMmPageRefCount ?r p = 0"
    by (simp add: MmInitialize_reset_def Let_def)
  with f(1) reset_wf [of bi s] show "pages_wf (boot_marked a bi s)"
    by (auto simp: bitmap_frame_def pages_wf_def)
qed

lemma initialize_ok:
  assumes "\<not> gMmReady s" and "gNkBootInfo s = Some (a, bi)" and "bi_Magic bi = BOOTINFO_MAGIC"
    and "3 \<le> free_pages (boot_marked a bi s)" and "hw_cr3 s AND MM_PTE_ADDR_MASK \<noteq> 0"
    and "gObReady s" and "ty < OB_MAX_OBJECTS" and "\<not> gObTypeInUse s ty"
  obtains t k tp where "MmInitialize s = (KSTATUS_SUCCESS, t)" "pages_wf t" "gMmReady t" "page_alloc t 0"
    "gMmKernelRootTablePhysical t \<noteq> 0" "hw_cr3 t = gMmKernelRootTablePhysical t" "gMmPhysmapReady t"
    "gHalPageFaultRoutine t = Some MmpOnPageFault_ptr" "gMmSectionType t = Some k" "free_pages (boot_marked a bi s) \<le> free_pages t + 3"
    "ob_part t = ob_part (s\<lparr>gObTypeInUse := (gObTypeInUse s)(k := True), gObTypePool := tp\<rparr>)" "boot_rest t = boot_rest (MmInitialize_reset bi s)"
proof -
  let ?m = "boot_marked a bi s"
  have "0 < tracked ?m"
  proof (rule ccontr)
    assume "\<not> 0 < tracked ?m"
    then have "free_pages ?m = 0" by (simp add: free_pages_def)
    with assms(4) show False by simp
  qed
  note m = boot_marked_wf [OF this]
  have c: "hw_cr3 ?m = hw_cr3 s" "ob_part ?m = ob_part s" "boot_rest ?m = boot_rest (MmInitialize_reset bi s)"
    using m(3) by (auto simp: bitmap_frame_def MmInitialize_reset_def Let_def ob_part_def boot_rest_def)
  obtain t1 where t1: "MmpCloneKernelRootTable ?m = (KSTATUS_SUCCESS, t1)" "pages_wf t1"
    "Suc (free_pages t1) = free_pages ?m" "page_alloc t1 0" "gMmKernelRootTablePhysical t1 \<noteq> 0"
    "hw_cr3 t1 = gMmKernelRootTablePhysical t1" "ob_part t1 = ob_part ?m" "boot_rest t1 = boot_rest ?m"
    using clone_ok [OF m(1) _ m(2)] assms(4,5) c(1) by auto
  obtain t2 where t2: "MmpBuildKernelPhysmap t1 = (KSTATUS_SUCCESS, t2)" "pages_wf t2" "page_alloc t2 0"
    "gMmKernelRootTablePhysical t2 = gMmKernelRootTablePhysical t1" "hw_cr3 t2 = hw_cr3 t1" "gMmPhysmapReady t2"
    "ob_part t2 = ob_part t1" "boot_rest t2 = boot_rest t1" "free_pages t1 \<le> free_pages t2 + 2"
    using physmap_build_ok [OF t1(2) _ t1(4,5)] t1(3) assms(4) by auto
  have op: "ob_part t2 = ob_part s" using t2(7) t1(7) c(2) by simp
  then have ob: "gObReady t2" "\<not> gObTypeInUse t2 ty" using assms(6,8) by (auto simp: ob_part_def)
  then obtain k where k: "scan (\<lambda>i. \<not> gObTypeInUse t2 i) 0 OB_MAX_OBJECTS = Some k"
    using scan_total [of "\<lambda>i. \<not> gObTypeInUse t2 i" OB_MAX_OBJECTS] assms(7) by auto
  obtain tp where cr: "ObCreateType (Some ''Section'') (Some MmpDeleteSectionObject_ptr) True t2 =
      (Inr k, t2\<lparr>gObTypeInUse := (gObTypeInUse t2)(k := True), gObTypePool := tp\<rparr>)"
    using k ob(1) by (simp add: ObCreateType_def ObpCopyName_def OB_MAX_TYPE_NAME_def Let_def)
  let ?t = "(HalRegisterPageFaultRoutine (Some MmpOnPageFault_ptr)
      (t2\<lparr>gObTypeInUse := (gObTypeInUse t2)(k := True), gObTypePool := tp, gMmSectionType := Some k\<rparr>))\<lparr>gMmReady := True\<rparr>"
  have r: "MmInitialize s = (KSTATUS_SUCCESS, ?t)"
    using assms(1-3) t1(1) t2(1) cr by (simp add: MmInitialize_def NkGetBootInfo_def boot_marked_def Let_def)
  have "ob_part ?t = ob_part (s\<lparr>gObTypeInUse := (gObTypeInUse s)(k := True), gObTypePool := tp\<rparr>)" "boot_rest ?t = boot_rest t2"
    using op by (simp_all add: ob_part_def boot_rest_def HalRegisterPageFaultRoutine_def)
  moreover have "free_pages ?t = free_pages t2" "pages_wf ?t" "page_alloc ?t 0"
    using t2(2,3) by (simp_all add: HalRegisterPageFaultRoutine_def pages_wf_def free_pages_def page_alloc_def)
  ultimately show thesis
    using that [OF r, of k tp] t1 t2 c(3) by (simp add: HalRegisterPageFaultRoutine_def)
qed

text \<open>Memory manager initialisation succeeds and establishes its invariant.  With a valid boot
  information block, a non-zero page-table root, a free object type slot and three free pages left
  after the reservations, \<^verbatim>\<open>MmInitialize\<close> succeeds; every page with references is then marked
  allocated, the kernel root table is non-zero (which later assertions rely on), loaded, and page
  zero is never handed out.\<close>

theorem MmInitialize_ok:
  assumes "\<not> gMmReady s" and "gNkBootInfo s = Some (a, bi)" and "bi_Magic bi = BOOTINFO_MAGIC"
    and "3 \<le> free_pages (boot_marked a bi s)" and "hw_cr3 s AND MM_PTE_ADDR_MASK \<noteq> 0"
    and "gObReady s" and "ty < OB_MAX_OBJECTS" and "\<not> gObTypeInUse s ty"
  shows "\<exists>t. MmInitialize s = (KSTATUS_SUCCESS, t) \<and> pages_wf t \<and> gMmReady t \<and> page_alloc t 0 \<and>
    gMmKernelRootTablePhysical t \<noteq> 0 \<and> hw_cr3 t = gMmKernelRootTablePhysical t \<and> gMmPhysmapReady t \<and>
    gHalPageFaultRoutine t = Some MmpOnPageFault_ptr \<and> gMmSectionType t \<noteq> None"
  by (rule initialize_ok [OF assms]) auto

text \<open>A machine with 4 MiB of memory, of which the firmware reports everything above 1 MiB as usable.\<close>

definition demo_boot_info :: BOOT_INFO where
  "demo_boot_info = \<lparr>bi_Magic = BOOTINFO_MAGIC, bi_Version = 1, bi_Size = 120, bi_Flags = 0, bi_FirmwareType = 1,
     bi_LoaderBase = 0, bi_KernelBase = 0, bi_KernelSize = 0, bi_KernelEntry = 0, bi_InitImageBase = 0,
     bi_InitImageSize = 0, bi_MemoryMap = 0x9000, bi_MemoryMapEntryCount = 1, bi_MemoryMapEntrySize = 24,
     bi_Video = \<lparr>bv_FrameBufferBase = 0, bv_FrameBufferSize = 0, bv_Width = 0, bv_Height = 0,
       bv_PixelsPerScanLine = 0, bv_PixelFormat = 0\<rparr>\<rparr>"

definition mm_boot :: MM_GLOBALS where
  "mm_boot = mm_bss\<lparr>gNkBootInfo := Some (0x8000, demo_boot_info), hw_cr3 := 0x2000, gObReady := True,
     gHalPlatformInfo := \<lparr>hpi_ProcessorCount = 1, hpi_TimerFrequencyHz = 1000000, hpi_PhysicalMemoryTop = 0x400000\<rparr>,
     hw_ranges := (\<lambda>_. \<lparr>pmr_Base = 0x100000, pmr_Length = 0x300000, pmr_Type = 7, pmr_Attributes = 0\<rparr>)\<rparr>"

lemma mm_boot_free: "4 \<le> free_pages (boot_marked 0x8000 demo_boot_info mm_boot)"
proof -
  define r where "r = MmInitialize_reset demo_boot_info mm_boot"
  have tr: "gMmTrackedPages r = 1024"
    by (simp add: r_def MmInitialize_reset_def HalQueryPlatformInfo_def mm_boot_def MM_PAGE_SIZE_def MM_MAX_TRACKED_PAGES_def)
  have rng: "hw_ranges r = (\<lambda>_. \<lparr>pmr_Base = 0x100000, pmr_Length = 0x300000, pmr_Type = 7, pmr_Attributes = 0\<rparr>)"
    by (simp add: r_def MmInitialize_reset_def mm_boot_def Let_def)
  define u where "u = MmpMarkRange 0x100000 0x300000 False r"
  have u: "MmpMarkUsableFromBootInfo (Some (0x8000, demo_boot_info)) r = u"
    by (simp add: MmpMarkUsableFromBootInfo_def demo_boot_info_def rng MmpIsRangeUsable_def u_def)
  have lim: "unat (1024 :: u32) \<le> MM_MAX_TRACKED_PAGES" by (simp add: MM_MAX_TRACKED_PAGES_def)
  have mk: "gMmTrackedPages (MmpMarkRange b l al x) = 1024 \<and>
      (page_alloc (MmpMarkRange b l al x) p = (if p < 1024 \<and> page_inside (unat b) (unat l) p then al else page_alloc x p))"
    if "gMmTrackedPages x = 1024" "unat b + unat l + 4095 < 2 ^ 64" for b l al and x :: MM_GLOBALS and p
    using mark_range [of x b l al] that lim by simp
  have tu: "gMmTrackedPages u = 1024" using mk [OF tr] by (simp add: u_def)
  have pu: "\<not> page_alloc u p" if "p \<in> {600, 601, 602, 603}" for p
    using mk [OF tr, of "0x100000" "0x300000" False p] that by (auto simp: u_def page_inside_def)
  define v where "v = MmpMarkRange 0 0x100000 True u"
  define w where "w = MmpMarkRange 0 0x200000 True (MmpMarkRange 0 0 True v)"
  define x where "x = MmpMarkRange 0x8000 sizeof_BOOT_INFO True w"
  have bm: "boot_marked 0x8000 demo_boot_info mm_boot = MmpMarkRange 0x9000 24 True x"
    unfolding boot_marked_def r_def [symmetric] u
    by (simp add: MmpReserveBootCriticalRanges_def demo_boot_info_def v_def w_def x_def Let_def BOOTINFO_FLAG_INIT_IMAGE_PRESENT_def)
  have tv: "gMmTrackedPages v = 1024" using mk [OF tu] by (simp add: v_def)
  have tw: "gMmTrackedPages w = 1024" using mk [OF conjunct1 [OF mk [OF tv]]] by (simp add: w_def)
  have tx: "gMmTrackedPages x = 1024" using mk [OF tw] by (simp add: x_def sizeof_BOOT_INFO_def)
  have tb: "gMmTrackedPages (boot_marked 0x8000 demo_boot_info mm_boot) = 1024" using mk [OF tx] by (simp add: bm)
  have "\<not> page_alloc (boot_marked 0x8000 demo_boot_info mm_boot) p" if p: "p \<in> {600, 601, 602, 603}" for p
  proof -
    have "\<not> page_alloc v p" using mk [OF tu, of 0 "0x100000" True p] pu [OF p] p by (auto simp: v_def page_inside_def)
    moreover have t0: "gMmTrackedPages (MmpMarkRange 0 0 True v) = 1024" using mk [OF tv] by simp
    ultimately have "\<not> page_alloc w p"
      using mk [OF t0, of 0 "0x200000" True p] mk [OF tv, of 0 0 True p] p by (auto simp: w_def page_inside_def)
    then have "\<not> page_alloc x p"
      using mk [OF tw, of "0x8000" sizeof_BOOT_INFO True p] p by (auto simp: x_def page_inside_def sizeof_BOOT_INFO_def)
    then show ?thesis
      using mk [OF tx, of "0x9000" 24 True p] p by (auto simp: bm page_inside_def)
  qed
  then have "{600, 601, 602, 603} \<subseteq> {p. p < 1024 \<and> \<not> page_alloc (boot_marked 0x8000 demo_boot_info mm_boot) p}" by auto
  then have "card {600, 601, 602, 603 :: nat} \<le> card {p. p < 1024 \<and> \<not> page_alloc (boot_marked 0x8000 demo_boot_info mm_boot) p}"
    by (intro card_mono) auto
  then show ?thesis by (simp add: free_pages_def tb)
qed

theorem MmInitialize_ok_witness:
  "\<exists>t. MmInitialize mm_boot = (KSTATUS_SUCCESS, t) \<and> pages_wf t \<and> gMmKernelRootTablePhysical t \<noteq> 0"
proof -
  have "\<not> gMmReady mm_boot" "gNkBootInfo mm_boot = Some (0x8000, demo_boot_info)" "gObReady mm_boot"
    "\<not> gObTypeInUse mm_boot 0" "hw_cr3 mm_boot AND MM_PTE_ADDR_MASK \<noteq> 0" "bi_Magic demo_boot_info = BOOTINFO_MAGIC"
    by (simp_all add: mm_boot_def mm_bss_eval MM_PTE_ADDR_MASK_def demo_boot_info_def)
  with MmInitialize_ok [of mm_boot "0x8000" demo_boot_info 0] mm_boot_free show ?thesis
    by (auto simp: OB_MAX_OBJECTS_def)
qed

end
