(* ===== verification/NtxMmFault.thy ===== *)
theory NtxMmFault
  imports NtxMmVm
begin

text \<open>
  Regions of an address space and page faults: the layout invariant of the region table
  (\<open>regions_wf\<close>), what \<^verbatim>\<open>MmMapAnonymous\<close> adds to it, which faults \<^verbatim>\<open>MmHandlePageFault\<close>
  resolves, and what it maps.
\<close>

section \<open>Specification\<close>

abbreviation region :: "MM_ADDRESS_SPACE \<Rightarrow> nat \<Rightarrow> MM_VA_REGION" where
  "region as i \<equiv> as_Regions as i"

abbreviation rbase :: "MM_ADDRESS_SPACE \<Rightarrow> nat \<Rightarrow> nat" where
  "rbase as i \<equiv> unat (reg_Base (region as i))"

abbreviation rend :: "MM_ADDRESS_SPACE \<Rightarrow> nat \<Rightarrow> nat" where
  "rend as i \<equiv> unat (reg_Base (region as i)) + unat (reg_Size (region as i))"

abbreviation rcount :: "MM_ADDRESS_SPACE \<Rightarrow> nat" where
  "rcount as \<equiv> unat (as_RegionCount as)"

text \<open>Regions lie in the user half, in increasing order, without overlap, below the allocation cursor.\<close>

definition regions_wf :: "MM_ADDRESS_SPACE \<Rightarrow> bool" where
  "regions_wf as \<longleftrightarrow> rcount as \<le> 128 \<and> unat (as_NextUserBase as) mod 4096 = 0 \<and>
     unat MM_USER_BASE \<le> unat (as_NextUserBase as) \<and> unat (as_NextUserBase as) \<le> unat MM_USER_TOP \<and>
     (\<forall>i<rcount as. unat MM_USER_BASE \<le> rbase as i \<and> rbase as i mod 4096 = 0 \<and>
        unat (reg_Size (region as i)) mod 4096 = 0 \<and> rbase as i < rend as i \<and> rend as i \<le> unat (as_NextUserBase as)) \<and>
     (\<forall>j<rcount as. \<forall>i<j. rend as i \<le> rbase as j)"

definition in_region :: "MM_ADDRESS_SPACE \<Rightarrow> nat \<Rightarrow> u64 \<Rightarrow> bool" where
  "in_region as i va \<longleftrightarrow> rbase as i \<le> unat va \<and> unat va < rend as i"

definition region_permits :: "MM_VA_REGION \<Rightarrow> u64 \<Rightarrow> bool" where
  "region_permits g err \<longleftrightarrow> \<not> has_bits (reg_Flags g) MM_REGION_FLAG_GUARD \<and>
     (has_flag err MM_PF_ERROR_WRITE \<longrightarrow> has_bits (reg_Protection g) MM_PROT_WRITE) \<and>
     (has_flag err MM_PF_ERROR_USER \<longrightarrow> has_bits (reg_Protection g) MM_PROT_USER) \<and>
     (has_flag err MM_PF_ERROR_INSTR \<longrightarrow> has_bits (reg_Protection g) MM_PROT_EXECUTE)"

section \<open>Looking up a region\<close>

lemma user_bounds: "unat MM_USER_BASE = 0x40000000" "unat MM_USER_TOP = 0x800000000000"
  by (simp_all add: MM_USER_BASE_def MM_USER_TOP_def)

lemma region_end:
  assumes "regions_wf as" "i < rcount as"
  shows "unat (reg_Base (region as i) + reg_Size (region as i)) = rend as i"
  using assms by (intro unat_add_u64) (force simp: regions_wf_def user_bounds)

lemma in_region_iff:
  assumes "regions_wf as" "i < rcount as"
  shows "(va \<ge> reg_Base (region as i) \<and> va < reg_Base (region as i) + reg_Size (region as i)) = in_region as i va"
  using region_end [OF assms] by (simp add: in_region_def word_le_nat_alt word_less_nat_alt)

lemma region_unique:
  assumes "regions_wf as" "i < rcount as" "j < rcount as" "in_region as i va" "in_region as j va"
  shows "i = j"
proof (rule ccontr)
  assume "i \<noteq> j"
  then consider "i < j" | "j < i" by linarith
  then show False
  proof cases
    case 1
    with assms(1,3) have "rend as i \<le> rbase as j" by (simp add: regions_wf_def)
    with assms(4,5) show False by (simp add: in_region_def)
  next
    case 2
    with assms(1,2) have "rend as j \<le> rbase as i" by (simp add: regions_wf_def)
    with assms(4,5) show False by (simp add: in_region_def)
  qed
qed

lemma MmpFindRegion_Some:
  assumes "regions_wf (gMmAddressSpacePool s a)"
  shows "MmpFindRegion a va s = Some i \<longleftrightarrow> i < rcount (gMmAddressSpacePool s a) \<and> in_region (gMmAddressSpacePool s a) i va"
    (is "?l = ?r")
proof -
  let ?as = "gMmAddressSpacePool s a"
  have eq: "MmpFindRegion a va s = scan (\<lambda>i. in_region ?as i va) 0 (rcount ?as)"
    unfolding MmpFindRegion_def Let_def using in_region_iff [OF assms] by (intro scan_cong) auto
  show ?thesis
  proof (rule iffI)
    show ?r if ?l using that scan0_SomeD [of "\<lambda>i. in_region ?as i va"] by (simp add: eq)
    assume r: ?r
    have "\<not> in_region ?as m va" if "m < i" for m
      using region_unique [OF assms, of m i va] r that by auto
    with r show ?l unfolding eq by (intro scan_first) auto
  qed
qed

lemma MmpFindRegion_None:
  assumes "regions_wf (gMmAddressSpacePool s a)"
  shows "MmpFindRegion a va s = None \<longleftrightarrow> (\<forall>i<rcount (gMmAddressSpacePool s a). \<not> in_region (gMmAddressSpacePool s a) i va)"
  using MmpFindRegion_Some [OF assms, of va] by (metis not_None_eq option.distinct(1))

section \<open>Adding a region\<close>

lemma set_as_pool [simp]:
  "gMmAddressSpacePool (set_as a f s) = (gMmAddressSpacePool s)(a := f (gMmAddressSpacePool s a))"
  by (simp add: set_as_def)

lemmas store_table_fields [simp] = mm_frame_fields [OF mm_frame_store_table]

lemma wire_loop_pool:
  assumes "wire_loop a r vb c k s = Some (st, t)"
  shows "\<exists>n. gMmAddressSpacePool t = (gMmAddressSpacePool s)(a := (gMmAddressSpacePool s a)
    \<lparr>as_Regions := (as_Regions (gMmAddressSpacePool s a))(r := (region (gMmAddressSpacePool s a) r)\<lparr>reg_CommittedPages := n\<rparr>)\<rparr>)"
  using assms
proof (induction k arbitrary: c s)
  case 0
  then show ?case by (intro exI [of _ "reg_CommittedPages (region (gMmAddressSpacePool s a) r)"]) simp
next
  case (Suc k)
  obtain q s1 where al: "MmAllocPage True s = (q, s1)" by fastforce
  have p1: "gMmAddressSpacePool s1 = gMmAddressSpacePool s" using mm_frame_fields [OF mm_frame_alloc [OF al]] by simp
  show ?case
  proof (cases q)
    case (Inl e)
    with Suc.prems al p1 show ?thesis
      by (intro exI [of _ "reg_CommittedPages (region (gMmAddressSpacePool s a) r)"]) simp
  next
    case (Inr pa)
    define s2 where "s2 = zero_page (MmpPhysToVirtPage s1 pa) s1"
    have p2: "gMmAddressSpacePool s2 = gMmAddressSpacePool s"
      using p1 by (simp add: s2_def zero_page_def)
    let ?fl = "MmpProtectionToPte (reg_Protection (region (gMmAddressSpacePool s2 a) r)) (reg_Flags (region (gMmAddressSpacePool s2 a) r))"
    from Suc.prems al Inr obtain st3 s3 where m: "MmAsMapPage (Some a) (vb + c) pa ?fl s2 = Some (st3, s3)"
      and rest: "(if st3 \<noteq> KSTATUS_SUCCESS then Some (KSTATUS_INIT_FAILED, s3)
        else wire_loop a r vb (c + MM_PAGE_SIZE) k (set_region a r (\<lambda>g. g\<lparr>reg_CommittedPages := reg_CommittedPages g + 1\<rparr>) s3)) = Some (st, t)"
      by (auto simp: s2_def Let_def bind_eq_Some_conv)
    have p3: "gMmAddressSpacePool s3 = gMmAddressSpacePool s" using mm_frame_fields [OF mm_frame_map [OF m]] p2 by simp
    show ?thesis
    proof (cases "st3 = KSTATUS_SUCCESS")
      case False
      with rest p3 show ?thesis
        by (intro exI [of _ "reg_CommittedPages (region (gMmAddressSpacePool s a) r)"]) simp
    next
      case True
      define s4 where "s4 = set_region a r (\<lambda>g. g\<lparr>reg_CommittedPages := reg_CommittedPages g + 1\<rparr>) s3"
      have p4: "gMmAddressSpacePool s4 = (gMmAddressSpacePool s)(a := (gMmAddressSpacePool s a)
        \<lparr>as_Regions := (as_Regions (gMmAddressSpacePool s a))(r := (region (gMmAddressSpacePool s a) r)
          \<lparr>reg_CommittedPages := reg_CommittedPages (region (gMmAddressSpacePool s a) r) + 1\<rparr>)\<rparr>)"
        by (simp add: s4_def set_region_def p3)
      from rest True have "wire_loop a r vb (c + MM_PAGE_SIZE) k s4 = Some (st, t)" by (simp add: s4_def)
      from Suc.IH [OF this] obtain n where "gMmAddressSpacePool t = (gMmAddressSpacePool s4)(a := (gMmAddressSpacePool s4 a)
        \<lparr>as_Regions := (as_Regions (gMmAddressSpacePool s4 a))(r := (region (gMmAddressSpacePool s4 a) r)\<lparr>reg_CommittedPages := n\<rparr>)\<rparr>)"
        by blast
      then show ?thesis by (intro exI [of _ n]) (simp add: p4 fun_upd_def cong: if_cong)
    qed
  qed
qed

definition map_size :: "u64 \<Rightarrow> nat" where
  "map_size Size = (if Size = 0 then 4096 else (unat Size + 4095) div 4096 * 4096)"

lemma MmpAlignSizeToPage_unat:
  "unat Size + 4095 < 2 ^ 64 \<Longrightarrow> unat (MmpAlignSizeToPage Size) = map_size Size"
  using align_up_4096 [of Size] by (simp add: MmpAlignSizeToPage_def map_size_def MM_PAGE_SIZE_def)

lemma size_wraps:
  assumes "2 ^ 64 \<le> unat Size + 4095"
  shows "MmpAlignSizeToPage Size = 0"
proof -
  have m: "(0xFFF :: u64) = mask 12" by (simp add: mask_eq_decr_exp)
  have "Size \<noteq> 0" using assms by auto
  moreover have "unat (Size + 0xFFF) = unat Size + 4095 - 2 ^ 64"
    using assms unsigned_less [of Size, where 'a = nat] by (simp add: unat_word_ariths mod_if)
  then have "unat (Size + 0xFFF) div 2 ^ 12 = 0"
    using unsigned_less [of Size, where 'a = nat] by simp
  then have "unat ((Size + 0xFFF) AND NOT (mask 12)) = 0"
    using unat_align [of 12 "Size + 0xFFF"] by simp
  then have "(Size + 0xFFF) AND NOT (mask 12) = 0" by (simp only: unat_eq_zero)
  moreover have "(4096 :: u64) \<noteq> 0" "Size + 4096 - 1 = Size + 0xFFF" "(4096 :: u64) - 1 = 0xFFF" by simp_all
  ultimately show ?thesis
    unfolding MmpAlignSizeToPage_def MmpAlignUp_def MM_PAGE_SIZE_def m [symmetric] by (simp only: if_False)
qed

lemma map_size_pos: "0 < map_size Size" "map_size Size mod 4096 = 0"
proof -
  have "0 < unat Size" if "Size \<noteq> 0" using that by (simp add: unat_gt_0)
  then have "0 < (unat Size + 4095) div 4096" if "Size \<noteq> 0" using that by (simp add: div_greater_zero_iff)
  then show "0 < map_size Size" "map_size Size mod 4096 = 0" by (simp_all add: map_size_def)
qed

lemma align_next:
  assumes "regions_wf as"
  shows "MmpAlignUp (as_NextUserBase as) MM_PAGE_SIZE = as_NextUserBase as"
proof (rule unsigned_word_eqI)
  have "unat (as_NextUserBase as) + 4095 < 2 ^ 64" "unat (as_NextUserBase as) mod 4096 = 0"
    using assms by (auto simp: regions_wf_def user_bounds)
  moreover from this(2) obtain q where "unat (as_NextUserBase as) = 4096 * q" by (auto simp: mod_eq_0_iff_dvd elim: dvdE)
  ultimately show "unat (MmpAlignUp (as_NextUserBase as) MM_PAGE_SIZE) = unat (as_NextUserBase as)"
    by (simp add: align_up_4096)
qed

text \<open>The table with region \<open>g\<close> appended, and the cursor moved past it.\<close>

abbreviation append_region :: "MM_ADDRESS_SPACE \<Rightarrow> MM_VA_REGION \<Rightarrow> MM_ADDRESS_SPACE" where
  "append_region as g \<equiv> as\<lparr>as_Regions := (as_Regions as)(rcount as := g), as_RegionCount := as_RegionCount as + 1,
     as_NextUserBase := as_NextUserBase as + reg_Size g\<rparr>"

text \<open>Appending a region at the cursor keeps the layout invariant.\<close>

lemma regions_wf_append:
  assumes wf: "regions_wf as" and room: "rcount as < 128"
    and g: "reg_Base g = as_NextUserBase as" "unat (reg_Size g) mod 4096 = 0" "0 < unat (reg_Size g)"
    and top: "unat (as_NextUserBase as) + unat (reg_Size g) \<le> unat MM_USER_TOP"
  shows "regions_wf (append_region as g)"
proof -
  have c: "unat (as_RegionCount as + 1) = Suc (rcount as)" using room by (simp add: unat_word_ariths)
  have n: "unat (as_NextUserBase as + reg_Size g) = unat (as_NextUserBase as) + unat (reg_Size g)"
    using top by (intro unat_add_u64) (simp add: user_bounds)
  have "(unat (as_NextUserBase as) + unat (reg_Size g)) mod 4096 = 0"
    using wf g(2) by (auto simp: regions_wf_def)
  then show ?thesis
    using wf g top room unfolding regions_wf_def
    by (auto simp: c n less_Suc_eq)
qed

text \<open>A lookup after the append finds the new region at its addresses and what it found before elsewhere.\<close>

lemma find_append:
  assumes wf: "regions_wf (gMmAddressSpacePool s a)" and room: "rcount (gMmAddressSpacePool s a) < 128"
    and t: "gMmAddressSpacePool t a = append_region (gMmAddressSpacePool s a) g" and wt: "regions_wf (gMmAddressSpacePool t a)"
  shows "MmpFindRegion a va t =
    (if unat (reg_Base g) \<le> unat va \<and> unat va < unat (reg_Base g) + unat (reg_Size g) then Some (rcount (gMmAddressSpacePool s a))
     else MmpFindRegion a va s)"
proof -
  let ?as = "gMmAddressSpacePool s a" and ?at = "gMmAddressSpacePool t a"
  have n: "rcount ?at = Suc (rcount ?as)" using room by (simp add: t unat_word_ariths)
  have new: "in_region ?at (rcount ?as) va \<longleftrightarrow> unat (reg_Base g) \<le> unat va \<and> unat va < unat (reg_Base g) + unat (reg_Size g)"
    by (simp add: in_region_def t)
  have old: "in_region ?at i va = in_region ?as i va" if "i < rcount ?as" for i
    using that by (simp add: in_region_def t)
  show ?thesis
  proof (cases "in_region ?at (rcount ?as) va")
    case True
    with new MmpFindRegion_Some [OF wt, of va "rcount ?as"] n show ?thesis by simp
  next
    case False
    have "MmpFindRegion a va t = MmpFindRegion a va s"
    proof (cases "MmpFindRegion a va s")
      case None
      with MmpFindRegion_None [OF wf, of va] old False MmpFindRegion_None [OF wt, of va] n show ?thesis by (simp add: less_Suc_eq)
    next
      case (Some i)
      with MmpFindRegion_Some [OF wf, of va i] old MmpFindRegion_Some [OF wt, of va i] n show ?thesis by simp
    qed
    with False new show ?thesis by auto
  qed
qed

text \<open>What a successful \<^verbatim>\<open>MmMapAnonymous\<close> appends, lazy or wired.\<close>

lemma map_anonymous_pool:
  assumes "regions_wf (gMmAddressSpacePool s a)" "rcount (gMmAddressSpacePool s a) < 128" "gMmReady s"
    "MmMapAnonymous (Some a) Size prot fl True s = Some (Inr base, t)"
  obtains g where "base = as_NextUserBase (gMmAddressSpacePool s a)" "reg_Base g = base" "reg_Size g = MmpAlignSizeToPage Size"
    "gMmAddressSpacePool t a = append_region (gMmAddressSpacePool s a) g"
proof -
  define as where "as = gMmAddressSpacePool s a"
  note wf = assms(1) [folded as_def]
  define g0 where "g0 = \<lparr>reg_Base = as_NextUserBase as, reg_Size = MmpAlignSizeToPage Size,
    reg_Type = MM_REGION_TYPE_ANON, reg_Protection = prot OR MM_PROT_USER,
    reg_Flags = (if \<not> has_bits fl (MM_REGION_FLAG_LAZY OR MM_REGION_FLAG_WIRED) then fl OR MM_REGION_FLAG_LAZY else fl),
    reg_CommittedPages = 0, reg_BackingPhysicalBase = 0, reg_BackingObject = None, reg_BackingOffset = 0\<rparr>"
  define s1 where "s1 = set_region a (rcount as) (\<lambda>_. g0) s"
  have nlim: "\<not> as_RegionCount as \<ge> MM_MAX_VA_REGIONS"
    using assms(2) by (simp add: as_def MM_MAX_VA_REGIONS_def word_le_nat_alt)
  from assms(4) nlim assms(3) obtain st s2 where
    w: "(if has_bits (reg_Flags g0) MM_REGION_FLAG_WIRED
         then wire_loop a (rcount as) (as_NextUserBase as) 0 (unat (MmpAlignSizeToPage Size div MM_PAGE_SIZE)) s1
         else Some (KSTATUS_SUCCESS, s1)) = Some (st, s2)"
    and base: "base = as_NextUserBase as"
    and t: "t = set_as a (\<lambda>as'. as'\<lparr>as_RegionCount := as_RegionCount as' + 1,
        as_NextUserBase := as_NextUserBase as + MmpAlignSizeToPage Size\<rparr>) s2"
    by (auto simp: MmMapAnonymous_def Let_def as_def [symmetric] align_next [OF wf] bind_eq_Some_conv s1_def g0_def
        not_le split: if_splits)
  have p1: "gMmAddressSpacePool s1 a = as\<lparr>as_Regions := (as_Regions as)(rcount as := g0)\<rparr>"
    by (simp add: s1_def set_region_def as_def)
  obtain n where p2: "gMmAddressSpacePool s2 a = as\<lparr>as_Regions := (as_Regions as)(rcount as := g0\<lparr>reg_CommittedPages := n\<rparr>)\<rparr>"
  proof (cases "has_bits (reg_Flags g0) MM_REGION_FLAG_WIRED")
    case True
    with w wire_loop_pool [of a "rcount as" _ _ _ s1 st s2] p1 that show thesis by fastforce
  next
    case False
    with w p1 that [of 0] show thesis by (simp add: g0_def)
  qed
  show thesis
    by (rule that [of "g0\<lparr>reg_CommittedPages := n\<rparr>"]) (simp_all add: base t p2 g0_def as_def [symmetric])
qed

section \<open>Fresh pages\<close>

lemma level_readonly: "snd (MmpWalk_level va False L T s) = s"
  by (auto simp: MmpWalk_level_def MmpWalk_split_def MmpWalk_sanitize_def MmpWalk_create_def Let_def)

lemma walk_readonly_loop: "MmpWalk_loop va False L k T s = (r, t) \<Longrightarrow> t = s"
proof (induction k arbitrary: L T)
  case (Suc k)
  with level_readonly [of va L T s] show ?case by (auto split: prod.splits sum.splits)
qed simp

lemma walk_readonly: "MmpWalkToPte a va False out s = Some (r, t) \<Longrightarrow> t = s"
  by (auto simp: MmpWalkToPte_def Let_def split: if_splits option.splits sum.splits prod.splits dest: walk_readonly_loop)

lemma query_readonly:
  assumes "MmAsQueryPte a va out s = Some (r, t)"
  shows "t = s"
proof (cases "\<not> gMmReady s \<or> a = None \<or> \<not> out \<or> \<not> page_aligned va")
  case False
  with assms obtain q s1 where "MmpWalkToPte a va False True s = Some (q, s1)"
    "(case q of Inl st \<Rightarrow> (Inl st, s1) | Inr p \<Rightarrow> (Inr (load64 p s1), s1)) = (r, t)"
    by (auto simp: MmAsQueryPte_def bind_eq_Some_conv)
  with walk_readonly [of a va True s q s1] show ?thesis by (cases q) auto
qed (use assms in \<open>auto simp: MmAsQueryPte_def\<close>)

lemma query_total:
  assumes "as_ok lvl s a" "MmpIsCanonicalAddress va" "page_aligned va"
  shows "\<exists>r. MmAsQueryPte (Some a) va True s = Some (r, s)"
proof -
  have r: "as_root s a \<noteq> 0" "gMmReady s" using assms(1) by (auto simp: as_ok_def pt_inv_def)
  have "MmpWalkToPte (Some a) va False True s \<noteq> None"
    using r(1) assms(2) by (simp add: MmpWalkToPte_def as_root_def Let_def)
  with walk_readonly [of "Some a" va True s] obtain q where "MmpWalkToPte (Some a) va False True s = Some (q, s)"
    by fastforce
  with r(2) assms(3) show ?thesis by (cases q) (auto simp: MmAsQueryPte_def)
qed

lemma phys_page_table: "MmpPhysToVirtPage s pa = MmpPhysToVirtTable s pa"
  by (simp add: MmpPhysToVirtPage_def MmpPhysToVirtTable_def MmpPhysToVirtBootstrapTable_def)

text \<open>A page from the allocator is not a page table, so filling it disturbs no mapping.\<close>

definition fresh_page :: "levels \<Rightarrow> 'a MM_GLOBALS_scheme \<Rightarrow> 'a MM_GLOBALS_scheme \<Rightarrow> u64 \<Rightarrow> bool" where
  "fresh_page lvl s t pa \<longleftrightarrow> \<not> page_alloc s (unat pa div 4096) \<and> page_alloc t = (page_alloc s)(unat pa div 4096 := True) \<and>
     gMmPageRefCount t = (gMmPageRefCount s)(unat pa div 4096 := 1) \<and>
     pa AND MM_PTE_ADDR_MASK = pa \<and> page_aligned pa \<and> lvl pa = None \<and>
     (\<forall>x j. x AND MM_PTE_ADDR_MASK = x \<and> x \<noteq> pa \<and> j < 512 \<longrightarrow> hw_mem t (slot x j) = hw_mem s (slot x j))"

lemma as_ok_upper:
  assumes "as_ok lvl s a" "pages_wf t" "gMmReady t" "\<And>p. page_alloc s p \<Longrightarrow> page_alloc t p"
    "gMmAddressSpacePool t = gMmAddressSpacePool s"
    "\<And>x l j. lvl x = Some l \<Longrightarrow> 2 \<le> l \<Longrightarrow> j < 512 \<Longrightarrow> hw_mem t (slot x j) = hw_mem s (slot x j)"
  shows "as_ok lvl t a"
proof -
  have "levels_ok lvl t" using assms(1,4) unfolding as_ok_def pt_inv_def levels_ok_def by blast
  moreover have "entries_ok lvl t"
    unfolding entries_ok_def
  proof (intro allI impI, elim conjE)
    fix x l i assume "lvl x = Some (Suc l)" "1 \<le> l" "i < (512 :: nat)" "table_entry (hw_mem t (slot x i))"
    with assms(1) assms(6) [of x "Suc l" i]
    show "lvl (hw_mem t (slot x i) AND MM_PTE_ADDR_MASK) = Some l"
      by (simp add: as_ok_def pt_inv_def entries_ok_def)
  qed
  ultimately show ?thesis using assms(1-3,5) by (simp add: as_ok_def pt_inv_def as_root_def)
qed

lemma as_ok_transfer:
  assumes "as_ok lvl s a" "pages_wf t" "gMmReady t" "\<And>p. page_alloc s p \<Longrightarrow> page_alloc t p"
    "gMmAddressSpacePool t = gMmAddressSpacePool s"
    "\<And>x l j. lvl x = Some l \<Longrightarrow> j < 512 \<Longrightarrow> hw_mem t (slot x j) = hw_mem s (slot x j)"
  shows "as_ok lvl t a"
  using assms by (intro as_ok_upper [of lvl s a t]) blast+

lemma alloc_page_fresh:
  assumes ok: "as_ok lvl s a" and al: "MmAllocPage True s = (Inr pa, s1)"
  shows "fresh_page lvl s s1 pa" "as_ok lvl s1 a"
proof -
  from ok have inv: "pages_wf s" "gMmReady s" "levels_ok lvl s" by (simp_all add: as_ok_def pt_inv_def)
  note al' = al [unfolded MmAllocPage_ready [OF inv(2)]]
  obtain p where p: "p < tracked s" "\<not> page_alloc s p" "unat pa = p * 4096"
    "page_alloc s1 = (page_alloc s)(p := True)" "gMmPageRefCount s1 = (gMmPageRefCount s)(p := 1)"
    using MmpAllocPageInternal_Inr [OF inv(1) al'] by metis
  have "p < 2 ^ 32" using p(1) unsigned_less [of "gMmTrackedPages s", where 'a = nat] by simp
  with p(3) have m: "pa AND MM_PTE_ADDR_MASK = pa" by (rule page_pa_masked)
  have pp: "unat pa div 4096 = p" using p(3) by simp
  have "unat (pa mod MM_PAGE_SIZE) = 0" using p(3) by (simp add: unat_mod_distrib MM_PAGE_SIZE_def)
  then have al: "page_aligned pa" by (simp add: page_aligned_def unat_eq_zero)
  have fr: "lvl pa = None" using inv(3) p(2) pp by (cases "lvl pa") (auto simp: levels_ok_def)
  note f = alloc_frame [OF assms(2)]
  show "fresh_page lvl s s1 pa" using p m pp al fr f by (simp add: fresh_page_def)
  show "as_ok lvl s1 a"
    using as_ok_transfer [OF ok alloc_pages_wf [OF inv(1) al']] f inv(2) p(4) by simp
qed

lemma fill_fresh:
  assumes "fresh_page lvl s s1 pa" "as_ok lvl s1 a"
    and t: "t = store_table (MmpPhysToVirtPage s1 pa) (\<lambda>j _. f j) 0 512 s1"
  shows "fresh_page lvl s t pa" "as_ok lvl t a" "\<And>j. j < 512 \<Longrightarrow> hw_mem t (slot pa j) = f j"
proof -
  have m: "hw_mem t (slot x j) = (if x AND MM_PTE_ADDR_MASK = (pa AND MM_PTE_ADDR_MASK) then f j else hw_mem s1 (slot x j))"
    if "j < 512" for x j using that by (simp add: t phys_page_table store_table_slot)
  obtain mm where mm: "t = s1\<lparr>hw_mem := mm\<rparr>" using store_table_shape t by metis
  show "fresh_page lvl s t pa" using assms(1) m by (simp add: fresh_page_def mm)
  show "hw_mem t (slot pa j) = f j" if "j < 512" for j using m that by simp
  have "hw_mem t (slot x j) = hw_mem s1 (slot x j)" if "lvl x = Some l" "j < 512" for x l j
  proof -
    from that(1) assms(2) have "x AND MM_PTE_ADDR_MASK = x" by (auto simp: as_ok_def pt_inv_def levels_ok_def)
    with that assms(1) m show ?thesis by (auto simp: fresh_page_def)
  qed
  then show "as_ok lvl t a"
    using as_ok_transfer [OF assms(2), of t] assms(2) by (simp add: mm as_ok_def pt_inv_def)
qed

text \<open>Mapping a page keeps the contents of every used page that is not a page table.\<close>

lemma map_keeps_page:
  assumes ok: "as_ok lvl s a" and va: "MmpIsCanonicalAddress va"
    and m: "MmAsMapPage (Some a) va pa fl s = Some (KSTATUS_SUCCESS, t)"
    and x: "x AND MM_PTE_ADDR_MASK = x" "page_alloc s (unat x div 4096)" "lvl x = None" "j < 512"
  shows "hw_mem t (slot x j) = hw_mem s (slot x j)"
proof -
  obtain s1 b lvl' where w: "walk_step lvl lvl' 4 s s1" "lvl' b = Some 1"
    "stores_pte b (walk_index va 3) (new_pte pa fl) s1 t"
    using MmAsMapPage_ok [OF ok va m] by metis
  from w(1) x have k: "lvl' x = None" "hw_mem s1 (slot x j) = hw_mem s (slot x j)"
    by (auto simp: walk_step_def pages_kept_def)
  have "b AND MM_PTE_ADDR_MASK = b" "x \<noteq> b"
    using w(1,2) k(1) by (auto simp: walk_step_def pt_inv_def levels_ok_def)
  then have "slot x j \<noteq> slot b (walk_index va 3)" using slot_inj(1) [of x j b] x walk_index_less by metis
  with w(3) k(2) show ?thesis by (simp add: stores_pte_def)
qed

section \<open>Faults\<close>

lemma user_canonical: "unat va < unat MM_USER_TOP \<Longrightarrow> MmpIsCanonicalAddress va"
proof -
  assume "unat va < unat MM_USER_TOP"
  then have "unat va < 2 ^ 48" by (simp add: user_bounds)
  then have "unat (drop_bit 48 va) = 0" by (simp add: drop_bit_eq_div unat_div_distrib)
  then show ?thesis by (simp add: MmpIsCanonicalAddress_def unat_eq_zero)
qed

lemma fault_page:
  assumes "regions_wf as" "r < rcount as" "in_region as r va"
  shows "MmpIsCanonicalAddress (MmpAlignDown va MM_PAGE_SIZE)" "page_aligned (MmpAlignDown va MM_PAGE_SIZE)"
proof -
  have "rend as r \<le> unat (as_NextUserBase as)" "unat (as_NextUserBase as) \<le> unat MM_USER_TOP"
    using assms(1,2) by (simp_all add: regions_wf_def)
  moreover have "unat va div 4096 * 4096 \<le> unat va" by simp
  ultimately show "MmpIsCanonicalAddress (MmpAlignDown va MM_PAGE_SIZE)"
    using assms(3) unfolding in_region_def by (intro user_canonical) (simp only: align_down_4096, linarith)
  have "unat (MmpAlignDown va MM_PAGE_SIZE mod MM_PAGE_SIZE) = 0"
    by (simp only: unat_mod_distrib align_down_4096) (simp add: MM_PAGE_SIZE_def)
  then show "page_aligned (MmpAlignDown va MM_PAGE_SIZE)" by (simp add: page_aligned_def unat_eq_zero)
qed

lemma MmAsMapPage_total:
  assumes "as_ok lvl s a" "MmpIsCanonicalAddress va"
  shows "\<exists>st t. MmAsMapPage (Some a) va pa fl s = Some (st, t)"
proof -
  obtain q s1 where "MmpWalkToPte (Some a) va True True s = Some (q, s1)"
    using MmpWalkToPte_spec [OF assms refl] by metis
  then show ?thesis by (cases q) (auto simp: MmAsMapPage_def Let_def)
qed

lemma query_after_map:
  assumes "as_ok lvl s a" "MmpIsCanonicalAddress va" "MmAsMapPage (Some a) va pa fl s = Some (KSTATUS_SUCCESS, t)"
  shows "MmAsQueryPte (Some a) va True t = Some (Inr (new_pte pa fl), t)"
proof -
  obtain s1 b lvl' where w: "walk_step lvl lvl' 4 s s1" "lvl' b = Some 1" "pte_at s1 a va b" "page_aligned va"
    "stores_pte b (walk_index va 3) (new_pte pa fl) s1 t"
    using MmAsMapPage_ok [OF assms] by metis
  from walk_step_as [OF w(1) assms(1)] have "as_root s1 a \<noteq> 0" "pt_inv lvl' s1" "lvl' (as_root s1 a) = Some 4"
    by (auto simp: as_ok_def)
  from stored_pte_query [OF this w(2,3,5) walk_index_less w(4) assms(2)] show ?thesis by simp
qed

text \<open>What a query reads: memory, the direct map and the root table.  A step that changes none of them keeps every answer.\<close>

lemma loop_view:
  assumes "hw_mem t = hw_mem s" "gMmPhysmapReady t = gMmPhysmapReady s" "gMmPhysmapBase t = gMmPhysmapBase s"
  shows "fst (MmpWalk_loop va False L k T t) = fst (MmpWalk_loop va False L k T s)"
proof (induction k arbitrary: L T)
  case (Suc k)
  have "fst (MmpWalk_level va False L T t) = fst (MmpWalk_level va False L T s)"
    using assms by (simp add: MmpWalk_level_def MmpWalk_split_def MmpWalk_sanitize_def MmpWalk_create_def
        load64_def kva_to_phys_def MmpPhysToVirtTable_def Let_def)
  moreover obtain q p where "MmpWalk_level va False L T s = (q, s)" "MmpWalk_level va False L T t = (p, t)"
    using level_readonly [of va L T s] level_readonly [of va L T t] by (metis prod.collapse)
  ultimately show ?case using Suc by (cases q) auto
qed simp

lemma query_view:
  assumes "MmAsQueryPte (Some a) va True s = Some (Inr e, s)" "hw_mem t = hw_mem s" "gMmReady t = gMmReady s"
    "gMmPhysmapReady t = gMmPhysmapReady s" "gMmPhysmapBase t = gMmPhysmapBase s" "as_root t a = as_root s a"
  shows "MmAsQueryPte (Some a) va True t = Some (Inr e, t)"
proof -
  have ld: "load64 p t = load64 p s" "MmpPhysToVirtTable t = MmpPhysToVirtTable s" for p
    using assms(2-5) by (simp_all add: load64_def kva_to_phys_def MmpPhysToVirtTable_def fun_eq_iff)
  obtain q p where l: "MmpWalk_loop va False 0 3 (MmpPhysToVirtTable s (as_root s a)) s = (q, s)"
    "MmpWalk_loop va False 0 3 (MmpPhysToVirtTable s (as_root s a)) t = (p, t)"
    using walk_readonly_loop by (metis surj_pair)
  have "p = q" using loop_view [OF assms(2,4,5), of va 0 3 "MmpPhysToVirtTable s (as_root s a)"] l by simp
  with assms(1,3,6) l show ?thesis
    by (cases q) (auto simp: MmAsQueryPte_def MmpWalkToPte_def Let_def ld as_root_def split: if_splits)
qed

lemma query_set_region:
  assumes "MmAsQueryPte (Some a) va True s = Some (Inr e, s)"
  shows "MmAsQueryPte (Some a) va True (set_region a' r f s) = Some (Inr e, set_region a' r f s)"
  by (rule query_view [OF assms]) (simp_all add: set_region_def set_as_def as_root_def)

lemma fresh_page_table:
  assumes "as_ok lvl s a" "fresh_page lvl s t pa" "lvl c = Some l" "j < 512"
  shows "hw_mem t (slot c j) = hw_mem s (slot c j)"
proof -
  have "c AND MM_PTE_ADDR_MASK = c" "c \<noteq> pa"
    using assms by (auto simp: as_ok_def pt_inv_def levels_ok_def fresh_page_def)
  with assms show ?thesis by (simp add: fresh_page_def)
qed

lemma pte_at_cong:
  assumes "as_ok lvl s a" "pte_at s a va b" "fresh_page lvl s t pa" "gMmAddressSpacePool t = gMmAddressSpacePool s"
  shows "pte_at t a va b"
  using walk_path_cong [of s va 0 3 "as_root s a" b lvl t] fresh_page_table [OF assms(1,3)] assms
  by (simp add: pte_at_def as_ok_def as_root_def)

lemma walk_path_mem_only:
  "hw_mem t = hw_mem s \<Longrightarrow> walk_path t va L k c b = walk_path s va L k c b"
  by (induction k arbitrary: L c) (simp_all add: Let_def)

lemmas walk_path_release = walk_path_mem_only [OF release_frame(1)]

lemma store_table_other:
  assumes "i + k \<le> 512" "x AND MM_PTE_ADDR_MASK \<noteq> (pa AND MM_PTE_ADDR_MASK)" "j < 512"
  shows "hw_mem (store_table (MmpPhysToVirtTable s pa) f i k s) (slot x j) = hw_mem s (slot x j)"
  using assms(1)
proof (induction k arbitrary: i s)
  case (Suc k)
  let ?s = "s\<lparr>hw_mem := (hw_mem s)(slot pa i := f i s)\<rparr>"
  have "slot x j \<noteq> slot pa i" using slot_inj(1) [of x j pa i] assms(2,3) Suc.prems by (auto simp: slot_def)
  moreover have "hw_mem (store_table (MmpPhysToVirtTable ?s pa) f (Suc i) k ?s) (slot x j) = hw_mem ?s (slot x j)"
    using Suc.prems by (intro Suc.IH) simp
  ultimately show ?case by simp
qed simp

lemma copy_fresh:
  assumes "fresh_page lvl s s1 pa" "as_ok lvl s1 a" and t: "t = copy_page (MmpPhysToVirtPage s1 pa) src s1"
  shows "fresh_page lvl s t pa" "as_ok lvl t a"
proof -
  have m: "hw_mem t (slot x j) = hw_mem s1 (slot x j)" if "x AND MM_PTE_ADDR_MASK = x" "x \<noteq> pa" "j < 512" for x j
    using store_table_other [of 0 512 x pa j s1] that assms(1) by (simp add: t copy_page_def phys_page_table fresh_page_def)
  obtain mm where mm: "t = s1\<lparr>hw_mem := mm\<rparr>" using store_table_shape t copy_page_def by metis
  show "fresh_page lvl s t pa" using assms(1) m by (simp add: fresh_page_def mm)
  have "hw_mem t (slot x j) = hw_mem s1 (slot x j)" if "lvl x = Some l" "j < 512" for x l j
  proof -
    have "x AND MM_PTE_ADDR_MASK = x" "x \<noteq> pa"
      using that assms(1,2) by (auto simp: as_ok_def pt_inv_def levels_ok_def fresh_page_def)
    with m that show ?thesis by blast
  qed
  then show "as_ok lvl t a"
    using as_ok_transfer [OF assms(2), of t] assms(2) by (simp add: mm as_ok_def pt_inv_def)
qed

text \<open>Mapping over an existing entry: the walk keeps the references of used pages, then the page in the
  old entry is released.\<close>

lemma map_on_path:
  assumes ok: "as_ok lvl s a" and va: "MmpIsCanonicalAddress va" "page_aligned va" and pa: "page_aligned pa"
    and path: "pte_at s a va b"
  obtains s1 lvl' where "walk_step lvl lvl' 4 s s1" "pte_at s1 a va b" "lvl b = Some 1"
    "MmAsMapPage (Some a) va pa fl s = Some (KSTATUS_SUCCESS,
      (if has_flag (hw_mem s (slot b (walk_index va 3))) MM_PTE_PRESENT
       then MmpReleasePage (hw_mem s (slot b (walk_index va 3)) AND MM_PTE_ADDR_MASK) s1 else s1)
      \<lparr>hw_mem := (hw_mem s1)(slot b (walk_index va 3) := new_pte pa fl)\<rparr>)"
proof -
  have rdy: "gMmReady s" using ok by (simp add: as_ok_def pt_inv_def)
  obtain t where t: "MmAsMapPage (Some a) va pa fl s = Some (KSTATUS_SUCCESS, t)"
    using MmAsMapPage_on_path [OF ok va pa path] by blast
  obtain q s1 lvl' where w: "MmpWalkToPte (Some a) va True True s = Some (q, s1)" "walk_step lvl lvl' 4 s s1"
    and q: "\<And>x. q \<noteq> Inr x \<or> (\<exists>c. lvl' c = Some 1 \<and> x = elem_ptr (MmpPhysToVirtTable s1 c) (walk_index va 3) \<and> pte_at s1 a va c)"
    using MmpWalkToPte_spec [OF ok va(1) refl] by metis
  have "q \<noteq> Inl st" for st using t w(1) walk_not_success rdy va pa by (fastforce simp: MmAsMapPage_def)
  then obtain x where x: "q = Inr x" by (cases q) auto
  with q obtain c where c: "x = elem_ptr (MmpPhysToVirtTable s1 c) (walk_index va 3)" "pte_at s1 a va c" by blast
  have pb: "pte_at s1 a va b" "lvl b = Some 1"
    using walk_path_kept [OF w(2), of va 0 3 "as_root s a" b] path ok walk_step_as(2) [OF w(2) ok]
    by (auto simp: pte_at_def as_ok_def)
  have "c = b" using pte_at_unique [OF c(2) pb(1)] .
  moreover have "hw_mem s1 (slot b (walk_index va 3)) = hw_mem s (slot b (walk_index va 3))"
    using walk_step_mem [OF w(2) pb(2) walk_index_less] by simp
  ultimately show thesis
    using that [OF w(2) pb] w(1) x c(1) rdy va pa by (simp add: MmAsMapPage_def new_pte_def)
qed

section \<open>What a mapping costs\<close>

text \<open>The pages a creating walk takes from the allocator: one for each table missing on the way and one to split a large page; a
  large entry above the last level cannot be split.  \<open>walk_pages s a va\<close> counts them for address \<open>va\<close> of address space \<open>a\<close>.\<close>

fun walk_need :: "'a MM_GLOBALS_scheme \<Rightarrow> u64 \<Rightarrow> nat \<Rightarrow> nat \<Rightarrow> u64 \<Rightarrow> nat option" where
  "walk_need s va L 0 a = Some 0"
| "walk_need s va L (Suc k) a = (let e = hw_mem s (slot a (walk_index va L)) in
     if \<not> has_flag e MM_PTE_PRESENT then Some (Suc k)
     else if has_flag e MM_PTE_LARGE then (if L = 2 then Some (Suc k) else None)
     else walk_need s va (Suc L) k (e AND MM_PTE_ADDR_MASK))"

definition walk_pages :: "'a MM_GLOBALS_scheme \<Rightarrow> nat \<Rightarrow> u64 \<Rightarrow> nat option" where
  "walk_pages s a va = walk_need s va 0 3 (as_root s a)"

lemma walk_need_path: "walk_path s va L k a b \<Longrightarrow> walk_need s va L k a = Some 0"
  by (induction k arbitrary: L a) (auto simp: Let_def table_entry_def)

lemma walk_need_cong:
  assumes "pt_inv lvl s" "lvl a = Some (4 - L)" "L + k = 3"
    and "\<And>c l j. lvl c = Some l \<Longrightarrow> l \<le> 4 - L \<Longrightarrow> j < 512 \<Longrightarrow> hw_mem t (slot c j) = hw_mem s (slot c j)"
  shows "walk_need t va L k a = walk_need s va L k a"
  using assms(2-4)
proof (induction k arbitrary: L a)
  case (Suc k)
  let ?e = "hw_mem s (slot a (walk_index va L))"
  have l: "4 - L = Suc (3 - L)" "1 \<le> 3 - L" using Suc.prems(2) by auto
  have e: "hw_mem t (slot a (walk_index va L)) = ?e" using Suc.prems(3) [OF Suc.prems(1)] walk_index_less [of va L] by simp
  show ?case
  proof (cases "table_entry ?e")
    case True
    then have "lvl (?e AND MM_PTE_ADDR_MASK) = Some (4 - Suc L)"
      using assms(1) Suc.prems(1) l walk_index_less [of va L] by (auto simp: pt_inv_def entries_ok_def)
    with Suc.IH [OF this] Suc.prems(2,3) e show ?thesis by (simp add: Let_def)
  next
    case False
    with e show ?thesis by (auto simp: Let_def table_entry_def)
  qed
qed simp

text \<open>The allocator delivers a page exactly when one is free.\<close>

lemma alloc_iff_free:
  assumes "as_ok lvl s a"
  shows "if free_pages s = 0 then \<exists>e t. MmAllocPage True s = (Inl e, t)
    else \<exists>pa t. MmAllocPage True s = (Inr pa, t) \<and> Suc (free_pages t) = free_pages s"
proof -
  from assms have inv: "pages_wf s" "gMmReady s" by (simp_all add: as_ok_def pt_inv_def)
  obtain q t where q: "MmpAllocPageInternal True 1 s = (q, t)" by fastforce
  show ?thesis
  proof (cases "free_pages s = 0")
    case True
    then have "p < tracked s \<Longrightarrow> page_alloc s p" for p by (auto simp: free_pages_def)
    with q MmpAllocPageInternal_Inr [OF inv(1)] have "q \<noteq> Inr pa" for pa by metis
    with True q show ?thesis by (cases q) (auto simp: MmAllocPage_ready [OF inv(2)])
  next
    case False
    then show ?thesis using alloc_internal_free [OF inv(1), of 1] by (simp add: MmAllocPage_ready [OF inv(2)]) metis
  qed
qed

text \<open>One level of a creating walk: an existing table costs nothing, a large entry above the last level stops the walk, and a missing table
  or a large page takes one page, which it cannot do without.\<close>

lemma level_existing:
  assumes "table_entry (hw_mem s (slot a (walk_index va L)))"
  shows "free_pages (snd (MmpWalk_level va True L (MmpPhysToVirtTable s a) s)) = free_pages s"
  using assms
  by (cases "MmpWalk_sanitize va True (elem_ptr (MmpPhysToVirtTable s a) (walk_index va L)) (hw_mem s (slot a (walk_index va L))) s")
    (auto simp: MmpWalk_level_def MmpWalk_split_def MmpWalk_create_def table_entry_def MmpWalk_sanitize_def Let_def
      sanitized_entry split: if_splits)

lemma level_after_split:
  assumes "MmpWalk_split va True L (elem_ptr T (walk_index va L)) (load64 (elem_ptr T (walk_index va L)) s) s = (Inr E, t)"
    and "has_flag E MM_PTE_PRESENT"
  shows "\<exists>T' u. MmpWalk_level va True L T s = (Inr T', u)"
  using assms by (cases "MmpWalk_sanitize va True (elem_ptr T (walk_index va L)) E t")
    (auto simp: MmpWalk_level_def MmpWalk_create_def MmpWalk_sanitize_def Let_def sanitized_entry split: if_splits)

lemma level_large:
  assumes "as_ok lvl s a" "has_flag e MM_PTE_PRESENT" "has_flag e MM_PTE_LARGE" "e = hw_mem s (slot c (walk_index va L))"
  shows "(\<exists>T t. MmpWalk_level va True L (MmpPhysToVirtTable s c) s = (Inr T, t)) \<longleftrightarrow> L = 2 \<and> free_pages s \<noteq> 0"
proof (cases "L = 2 \<and> free_pages s \<noteq> 0")
  case True
  with alloc_iff_free [OF assms(1)] obtain pa s1 where al: "MmAllocPage True s = (Inr pa, s1)" by auto
  have "pa AND MM_PTE_ADDR_MASK = pa" using alloc_page_fresh(1) [OF assms(1) al] by (simp add: fresh_page_def)
  note N = link_entry_new [OF this]
  have "\<exists>E t. MmpWalk_split va True L (elem_ptr (MmpPhysToVirtTable s c) (walk_index va L)) e s = (Inr E, t) \<and> has_flag E MM_PTE_PRESENT"
    using True assms(2,3) al N by (auto simp: MmpWalk_split_def Let_def link_entry_def table_entry_def or.assoc)
  with True level_after_split [of va L "MmpPhysToVirtTable s c" s] assms(4) show ?thesis by auto
next
  case False
  have "\<exists>x t. MmpWalk_split va True L (elem_ptr (MmpPhysToVirtTable s c) (walk_index va L)) e s = (Inl x, t)"
    using False alloc_iff_free [OF assms(1)] assms(2,3) by (auto simp: MmpWalk_split_def)
  with False assms(4) show ?thesis by (auto simp: MmpWalk_level_def Let_def)
qed

lemma level_missing:
  assumes ok: "as_ok lvl s a" and c: "lvl c = Some l" and e: "\<not> has_flag (hw_mem s (slot c (walk_index va L))) MM_PTE_PRESENT"
  shows "if free_pages s = 0 then \<exists>e t. MmpWalk_level va True L (MmpPhysToVirtTable s c) s = (Inl e, t)
    else \<exists>T t. MmpWalk_level va True L (MmpPhysToVirtTable s c) s = (Inr T, t) \<and> Suc (free_pages t) = free_pages s \<and>
      (\<forall>j<512. hw_mem t (slot (hw_mem t (slot c (walk_index va L)) AND MM_PTE_ADDR_MASK) j) = 0)"
proof (cases "free_pages s = 0")
  case True
  with alloc_iff_free [OF ok] obtain e' t where "MmAllocPage True s = (Inl e', t)" by auto
  with True e show ?thesis by (auto simp: MmpWalk_level_def MmpWalk_split_def MmpWalk_create_def MmpWalk_sanitize_def Let_def)
next
  case False
  with alloc_iff_free [OF ok] obtain pa s1 where al: "MmAllocPage True s = (Inr pa, s1)" "Suc (free_pages s1) = free_pages s" by auto
  define s2 where "s2 = store_table (MmpPhysToVirtPage s1 pa) (\<lambda>_ _. 0) 0 512 s1"
  note f1 = alloc_page_fresh [OF ok al(1)]
  note f2 = fill_fresh [OF f1 s2_def]
  define N where "N = (if MmpIsUserAddress va then pa OR MM_PTE_PRESENT OR MM_PTE_WRITABLE OR MM_PTE_USER
      else pa OR MM_PTE_PRESENT OR MM_PTE_WRITABLE)"
  let ?p = "elem_ptr (MmpPhysToVirtTable s c) (walk_index va L)"
  have lv: "MmpWalk_level va True L (MmpPhysToVirtTable s c) s =
      (Inr (MmpPhysToVirtTable (store64 ?p N s2) (N AND MM_PTE_ADDR_MASK)), store64 ?p N s2)"
    using e al(1) by (simp add: MmpWalk_level_def MmpWalk_split_def MmpWalk_create_def MmpWalk_sanitize_def Let_def N_def s2_def
        phys_page_table or.assoc)
  have pm: "pa AND MM_PTE_ADDR_MASK = pa" using f1(1) by (simp add: fresh_page_def)
  have N: "N AND MM_PTE_ADDR_MASK = pa" using link_entry_new [OF pm] by (simp add: N_def link_entry_def)
  have cm: "c AND MM_PTE_ADDR_MASK = c" "c \<noteq> pa" using ok f1(1) c by (auto simp: as_ok_def pt_inv_def levels_ok_def fresh_page_def)
  have st: "hw_mem (store64 ?p N s2) = (hw_mem s2)(slot c (walk_index va L) := N)"
  proof -
    obtain m where m: "s2 = s1\<lparr>hw_mem := m\<rparr>" using store_table_shape s2_def by metis
    then have "MmpPhysToVirtTable s c = MmpPhysToVirtTable s2 c"
      using mm_frame_fields(7,8) [OF mm_frame_alloc [OF al(1)]] by (simp add: MmpPhysToVirtTable_def)
    then show ?thesis by simp
  qed
  have "slot pa j \<noteq> slot c (walk_index va L)" if "j < 512" for j
    using slot_inj(1) [of pa j c "walk_index va L"] that walk_index_less [of va L] cm pm by auto
  then have "\<forall>j<512. hw_mem (store64 ?p N s2) (slot (hw_mem (store64 ?p N s2) (slot c (walk_index va L)) AND MM_PTE_ADDR_MASK) j) = 0"
    using f2(3) by (simp add: st N)
  then show ?thesis using lv al(2) False by (simp add: s2_def)
qed

text \<open>A whole creating walk succeeds exactly when no large entry above the last level is in its way and the pages it needs are free.\<close>

lemma walk_needs:
  assumes "as_ok lvl s a" "lvl c = Some (4 - L)" "L + k = 3"
  shows "(\<exists>T t. MmpWalk_loop va True L k (MmpPhysToVirtTable s c) s = (Inr T, t)) \<longleftrightarrow>
    (\<exists>n. walk_need s va L k c = Some n \<and> n \<le> free_pages s)"
  using assms
proof (induction k arbitrary: L c lvl s)
  case (Suc k)
  let ?i = "walk_index va L" and ?p = "MmpPhysToVirtTable s c"
  let ?e = "hw_mem s (slot c ?i)"
  have inv: "pt_inv lvl s" using Suc.prems(1) by (simp add: as_ok_def)
  have L: "L < 3" "4 - L = Suc (3 - L)" "1 \<le> 3 - L" using Suc.prems(3) by auto
  obtain r s1 where lv: "MmpWalk_level va True L ?p s = (r, s1)" by fastforce
  have nxt: "\<exists>lvl1. as_ok lvl1 s1 a \<and> pt_step lvl lvl1 c ?i s s1 \<and> lvl1 (hw_mem s1 (slot c ?i) AND MM_PTE_ADDR_MASK) = Some (4 - Suc L) \<and>
      T = MmpPhysToVirtTable s1 (hw_mem s1 (slot c ?i) AND MM_PTE_ADDR_MASK)" if r: "r = Inr T" for T
  proof -
    obtain lvl1 where l: "pt_step lvl lvl1 c ?i s s1" "lvl1 (hw_mem s1 (slot c ?i) AND MM_PTE_ADDR_MASK) = Some (3 - L)"
      "T = MmpPhysToVirtTable s1 (hw_mem s1 (slot c ?i) AND MM_PTE_ADDR_MASK)"
      using level_step [OF inv Suc.prems(2) L(1) lv] r by auto
    have "2 \<le> 4 - L" using L(1) by simp
    from walk_step_as(1) [OF pt_step_walk_step [OF l(1) Suc.prems(2) this] Suc.prems(1)] l show ?thesis by auto
  qed
  consider "\<not> has_flag ?e MM_PTE_PRESENT" | "has_flag ?e MM_PTE_PRESENT" "has_flag ?e MM_PTE_LARGE" | "table_entry ?e"
    by (auto simp: table_entry_def)
  then show ?case
  proof cases
    case 1
    show ?thesis
    proof (cases "free_pages s = 0")
      case True
      with level_missing [OF Suc.prems(1,2) 1] 1 show ?thesis by (auto simp: Let_def)
    next
      case False
      with level_missing [OF Suc.prems(1,2) 1] lv obtain T where T: "r = Inr T" "Suc (free_pages s1) = free_pages s"
        "\<forall>j<512. hw_mem s1 (slot (hw_mem s1 (slot c ?i) AND MM_PTE_ADDR_MASK) j) = 0" by auto
      from T(3) have "walk_need s1 va (Suc L) k (hw_mem s1 (slot c ?i) AND MM_PTE_ADDR_MASK) = Some k"
        by (cases k) (simp_all add: Let_def walk_index_less has_flag_def)
      with Suc.IH nxt [OF T(1)] Suc.prems(3) have "(\<exists>T' t. MmpWalk_loop va True (Suc L) k T s1 = (Inr T', t)) \<longleftrightarrow> k \<le> free_pages s1"
        by fastforce
      with 1 lv T(1,2) show ?thesis by (auto simp: Let_def)
    qed
  next
    case 2
    show ?thesis using level_large [OF Suc.prems(1) 2 refl] 2 Suc.prems(3) lv by (cases r) (auto simp: Let_def)
  next
    case 3
    then obtain T where T: "r = Inr T" using level_on_path [of s c va L True] lv by auto
    from nxt [OF T] obtain lvl1 where l1: "as_ok lvl1 s1 a" "pt_step lvl lvl1 c ?i s s1"
      "lvl1 (hw_mem s1 (slot c ?i) AND MM_PTE_ADDR_MASK) = Some (4 - Suc L)" "T = MmpPhysToVirtTable s1 (hw_mem s1 (slot c ?i) AND MM_PTE_ADDR_MASK)"
      by blast
    have t: "hw_mem s1 (slot c ?i) AND MM_PTE_ADDR_MASK = ?e AND MM_PTE_ADDR_MASK"
      using l1(2) 3 by (auto simp: pt_step_def same_target_def)
    have f: "free_pages s1 = free_pages s" using level_existing [OF 3] lv by simp
    have d: "lvl (?e AND MM_PTE_ADDR_MASK) = Some (4 - Suc L)"
      using inv Suc.prems(2) 3 L walk_index_less [of va L] by (auto simp: pt_inv_def entries_ok_def)
    have "walk_need s1 va (Suc L) k (?e AND MM_PTE_ADDR_MASK) = walk_need s va (Suc L) k (?e AND MM_PTE_ADDR_MASK)"
    proof (rule walk_need_cong [OF inv d])
      fix x and l j :: nat assume "lvl x = Some l" "l \<le> 4 - Suc L" "j < 512"
      moreover from this Suc.prems(2) L have "x \<noteq> c" by auto
      ultimately show "hw_mem s1 (slot x j) = hw_mem s (slot x j)" using l1(2) by (auto simp: pt_step_def)
    qed (use Suc.prems(3) in simp)
    with Suc.IH [OF l1(1,3)] Suc.prems(3) t f l1(4) T lv 3 show ?thesis by (simp add: Let_def table_entry_def)
  qed
qed simp

lemma map_needs:
  assumes "as_ok lvl s a" "MmpIsCanonicalAddress va" "page_aligned va" "page_aligned pa"
  shows "(\<exists>t. MmAsMapPage (Some a) va pa fl s = Some (KSTATUS_SUCCESS, t)) \<longleftrightarrow>
    (\<exists>n. walk_pages s a va = Some n \<and> n \<le> free_pages s)"
proof -
  from assms(1) have r: "lvl (as_root s a) = Some (4 - 0)" "as_root s a \<noteq> 0" "gMmReady s"
    by (auto simp: as_ok_def pt_inv_def)
  obtain q t where l: "MmpWalk_loop va True 0 3 (MmpPhysToVirtTable s (as_root s a)) s = (q, t)" by fastforce
  have "q \<noteq> Inl KSTATUS_SUCCESS" using l loop_not_success by blast
  with l r assms(2-4) walk_needs [OF assms(1) r(1), of 3 va] show ?thesis
    by (cases q) (simp_all add: MmAsMapPage_def MmpWalkToPte_def as_root_def Let_def walk_pages_def)
qed

lemma walk_pages_path: "pte_at s a va b \<Longrightarrow> walk_pages s a va = Some 0"
  unfolding pte_at_def walk_pages_def by (rule walk_need_path)

lemma walk_pages_fresh:
  assumes "as_ok lvl s a" "fresh_page lvl s t pa" "gMmAddressSpacePool t = gMmAddressSpacePool s"
  shows "walk_pages t a va = walk_pages s a va"
proof -
  have "hw_mem t (slot c j) = hw_mem s (slot c j)" if "lvl c = Some l" "j < 512" for c l j
    using fresh_page_table [OF assms(1,2) that] .
  then show ?thesis
    using walk_need_cong [of lvl s "as_root s a" 0 3 t va] assms by (simp add: walk_pages_def as_ok_def as_root_def)
qed

text \<open>A permitted fault inside a region reaches the branch of its type, in the unchanged state.\<close>

lemma fault_dispatch:
  assumes ok: "as_ok lvl s a" and wf: "regions_wf (gMmAddressSpacePool s a)"
    and r: "r < rcount (gMmAddressSpacePool s a)" "in_region (gMmAddressSpacePool s a) r va"
    and p: "region_permits (region (gMmAddressSpacePool s a) r) err"
  obtains q where "MmAsQueryPte (Some a) (MmpAlignDown va MM_PAGE_SIZE) True s = Some (q, s)"
    "MmHandlePageFault (Some a) va err s =
      (let g = region (gMmAddressSpacePool s a) r; pg = MmpAlignDown va MM_PAGE_SIZE in
       if has_flag err MM_PF_ERROR_PRESENT then
         (case q of
            Inr Pte \<Rightarrow> if has_flag Pte MM_PTE_SOFT_COW \<and> has_flag err MM_PF_ERROR_WRITE then fault_cow a pg Pte s
                       else Some (KSTATUS_ACCESS_DENIED, s)
          | Inl _ \<Rightarrow> Some (KSTATUS_ACCESS_DENIED, s))
       else if reg_Type g = MM_REGION_TYPE_ANON then fault_anon a r pg s
       else if reg_Type g = MM_REGION_TYPE_PHYS then
         MmAsMapPage (Some a) pg (reg_BackingPhysicalBase g + (pg - reg_Base g))
           (MmpProtectionToPte (reg_Protection g) (reg_Flags g)) (MmpRetainPage (reg_BackingPhysicalBase g + (pg - reg_Base g)) s)
       else if reg_Type g = MM_REGION_TYPE_SECTION then fault_section a r pg s
       else Some (KSTATUS_NOT_IMPLEMENTED, s))"
proof -
  obtain q where q: "MmAsQueryPte (Some a) (MmpAlignDown va MM_PAGE_SIZE) True s = Some (q, s)"
    using query_total [OF ok fault_page [OF wf r]] by blast
  have "MmpFindRegion a va s = Some r" using MmpFindRegion_Some [OF wf] r by blast
  moreover have "gMmReady s" using ok by (simp add: as_ok_def pt_inv_def)
  moreover have "has_bits (reg_Flags (region (gMmAddressSpacePool s a) r)) MM_REGION_FLAG_GUARD = False"
    "(has_flag err MM_PF_ERROR_WRITE \<and> \<not> has_bits (reg_Protection (region (gMmAddressSpacePool s a) r)) MM_PROT_WRITE) = False"
    "(has_flag err MM_PF_ERROR_USER \<and> \<not> has_bits (reg_Protection (region (gMmAddressSpacePool s a) r)) MM_PROT_USER) = False"
    "(has_flag err MM_PF_ERROR_INSTR \<and> \<not> has_bits (reg_Protection (region (gMmAddressSpacePool s a) r)) MM_PROT_EXECUTE) = False"
    using p by (auto simp: region_permits_def)
  ultimately show thesis
    using that [OF q] q unfolding MmHandlePageFault_def Let_def
    by (simp only: option.simps if_True if_False simp_thms bind.bind_lunit prod.case)
qed

text \<open>The one-page machine of \<open>mm_paged\<close>, with a writable anonymous region over the page at \<open>0x40000000\<close>.\<close>

definition mm_user :: MM_GLOBALS where
  "mm_user = mm_paged\<lparr>gMmAddressSpacePool := (\<lambda>a. (gMmAddressSpacePool mm_paged a)
     \<lparr>as_NextUserBase := 0x40001000, as_RegionCount := 1, as_Regions := (\<lambda>_. \<lparr>reg_Base = 0x40000000, reg_Size = 0x1000,
        reg_Type = MM_REGION_TYPE_ANON, reg_Protection = 0xB, reg_Flags = MM_REGION_FLAG_LAZY,
        reg_CommittedPages = 0, reg_BackingPhysicalBase = 0, reg_BackingObject = None, reg_BackingOffset = 0\<rparr>)\<rparr>)\<rparr>"

lemma user_ok: "as_ok lvl_paged mm_user 0"
  using paged_ok by (simp add: mm_user_def as_ok_def pt_inv_def levels_ok_def entries_ok_def as_root_def pages_wf_def page_alloc_def)

lemma user_regions: "regions_wf (gMmAddressSpacePool mm_user 0)" "rcount (gMmAddressSpacePool mm_user 0) = 1"
  "as_NextUserBase (gMmAddressSpacePool mm_user 0) = 0x40001000" "gMmReady mm_user"
  "in_region (gMmAddressSpacePool mm_user 0) 0 0x40000123"
  by (simp_all add: mm_user_def regions_wf_def in_region_def user_bounds) (simp add: mm_paged_def)

section \<open>Properties\<close>

text \<open>C13: anonymous mappings are laid out without overlap as long as they fit.  From a well-formed region table, a successful
  \<^verbatim>\<open>MmMapAnonymous\<close>, lazy or wired and of any size, adds one region at the next free address, which it
  returns.  The table stays sorted, disjoint and inside the user half exactly when the size rounded up to pages fits below the
  user top; in that case every address of the new region resolves to it and every other address resolves as before.  The function does not
  check that the mapping fits, and a larger request is granted all the same.\<close>

theorem MmMapAnonymous_layout:
  assumes "regions_wf (gMmAddressSpacePool s a)"
    and "MmMapAnonymous (Some a) Size prot fl True s = Some (Inr base, t)"
  shows "base = as_NextUserBase (gMmAddressSpacePool s a) \<and>
    rcount (gMmAddressSpacePool t a) = Suc (rcount (gMmAddressSpacePool s a)) \<and>
    (regions_wf (gMmAddressSpacePool t a) \<longleftrightarrow> unat base + map_size Size \<le> unat MM_USER_TOP) \<and>
    (unat base + map_size Size \<le> unat MM_USER_TOP \<longrightarrow> (\<forall>va. MmpFindRegion a va t =
      (if unat base \<le> unat va \<and> unat va < unat base + map_size Size then Some (rcount (gMmAddressSpacePool s a))
       else MmpFindRegion a va s)))"
proof -
  let ?as = "gMmAddressSpacePool s a" and ?at = "gMmAddressSpacePool t a"
  have ready: "rcount ?as < 128" "gMmReady s"
    using assms(2) by (auto simp: MmMapAnonymous_def Let_def MM_MAX_VA_REGIONS_def word_le_nat_alt split: if_splits)
  obtain g where g: "base = as_NextUserBase ?as" "reg_Base g = base" "reg_Size g = MmpAlignSizeToPage Size"
    and t: "?at = append_region ?as g"
    by (rule map_anonymous_pool [OF assms(1) ready assms(2)])
  have n: "rcount ?at = Suc (rcount ?as)" using ready(1) by (simp add: t unat_word_ariths)
  have fits: "regions_wf ?at \<and> unat (reg_Size g) = map_size Size" if "unat base + map_size Size \<le> unat MM_USER_TOP"
  proof -
    have "unat Size + 4095 < 2 ^ 64"
      using that unsigned_less [of Size, where 'a = nat] by (auto simp: map_size_def user_bounds split: if_splits)
    then have "unat (reg_Size g) = map_size Size" using MmpAlignSizeToPage_unat g(3) by simp
    moreover from this have "regions_wf ?at"
      unfolding t using assms(1) ready(1) that g(1,2) map_size_pos by (intro regions_wf_append) auto
    ultimately show ?thesis by simp
  qed
  have over: "unat base + map_size Size \<le> unat MM_USER_TOP" if "regions_wf ?at"
  proof -
    have "rbase ?at (rcount ?as) < rend ?at (rcount ?as)" "rend ?at (rcount ?as) \<le> unat (as_NextUserBase ?at)"
      "unat (as_NextUserBase ?at) \<le> unat MM_USER_TOP"
      using that n by (simp_all add: regions_wf_def)
    then have "unat (reg_Size g) \<noteq> 0" "unat base + unat (reg_Size g) \<le> unat MM_USER_TOP"
      using g(2) by (simp_all add: t)
    moreover from this(1) have "unat (reg_Size g) = map_size Size"
      using size_wraps [of Size] MmpAlignSizeToPage_unat [of Size] g(3) by fastforce
    ultimately show ?thesis by simp
  qed
  from fits over n g(1,2) find_append [OF assms(1) ready(1) t] show ?thesis by auto
qed

theorem MmMapAnonymous_layout_witness:
  "\<exists>t. MmMapAnonymous (Some 0) 0x1234 3 0 True mm_user = Some (Inr 0x40001000, t) \<and>
     regions_wf (gMmAddressSpacePool t 0) \<and> MmpFindRegion 0 0x40002FFF t = Some 1 \<and> MmpFindRegion 0 0x40003000 t = None"
proof -
  obtain t where t: "MmMapAnonymous (Some 0) 0x1234 3 0 True mm_user = Some (Inr 0x40001000, t)"
    using user_regions(2-4) align_next [OF user_regions(1)]
    by (auto simp: MmMapAnonymous_def Let_def MM_MAX_VA_REGIONS_def word_le_nat_alt word_less_nat_alt has_bits_def
        MM_REGION_FLAG_LAZY_def MM_REGION_FLAG_WIRED_def)
  have "MmpFindRegion 0 0x40003000 mm_user = None"
    unfolding MmpFindRegion_None [OF user_regions(1)] user_regions(2) by (simp add: mm_user_def in_region_def)
  with MmMapAnonymous_layout [OF user_regions(1) t] t user_regions(2,3) show ?thesis
    by (simp add: map_size_def user_bounds)
qed

text \<open>C7: a fault is only resolved inside a region that permits the access.  If the faulting address lies
  in no region of the address space, or in one that is a guard or does not allow the kind of access
  (write, user mode, instruction fetch), \<^verbatim>\<open>MmHandlePageFault\<close> denies it and changes nothing.\<close>

theorem MmHandlePageFault_denied:
  assumes "gMmReady s" and "regions_wf (gMmAddressSpacePool s a)"
    and "\<forall>r<rcount (gMmAddressSpacePool s a). in_region (gMmAddressSpacePool s a) r va \<longrightarrow>
      \<not> region_permits (region (gMmAddressSpacePool s a) r) err"
  shows "MmHandlePageFault (Some a) va err s = Some (KSTATUS_ACCESS_DENIED, s)"
proof (cases "MmpFindRegion a va s")
  case None
  with assms(1) show ?thesis by (simp add: MmHandlePageFault_def)
next
  case (Some r)
  with assms(3) MmpFindRegion_Some [OF assms(2)] have "\<not> region_permits (region (gMmAddressSpacePool s a) r) err" by blast
  with Some assms(1) show ?thesis by (auto simp: MmHandlePageFault_def region_permits_def Let_def)
qed

theorem MmHandlePageFault_denied_witness:
  "MmHandlePageFault (Some 0) 0x40000123 0x14 mm_user = Some (KSTATUS_ACCESS_DENIED, mm_user)"
proof -
  have "\<not> region_permits (region (gMmAddressSpacePool mm_user 0) r) 0x14" for r
    by (simp add: region_permits_def mm_user_def has_flag_def has_bits_def MM_PF_ERROR_INSTR_def MM_PROT_EXECUTE_def)
  with MmHandlePageFault_denied [OF user_regions(4,1)] show ?thesis by blast
qed

text \<open>Demand-zero paging, as a lemma for the trap handler too.\<close>

lemma page_fault_anon:
  assumes "as_ok lvl s a" and "regions_wf (gMmAddressSpacePool s a)"
    and "r < rcount (gMmAddressSpacePool s a)" and "in_region (gMmAddressSpacePool s a) r va"
    and "region_permits (region (gMmAddressSpacePool s a) r) err" and "\<not> has_flag err MM_PF_ERROR_PRESENT"
    and "reg_Type (region (gMmAddressSpacePool s a) r) = MM_REGION_TYPE_ANON"
  shows "\<exists>st t. MmHandlePageFault (Some a) va err s = Some (st, t) \<and>
    (st = KSTATUS_SUCCESS \<longleftrightarrow> (\<exists>n. walk_pages s a (MmpAlignDown va MM_PAGE_SIZE) = Some n \<and> n < free_pages s)) \<and>
    (st = KSTATUS_SUCCESS \<longrightarrow> (\<exists>pa. \<not> page_alloc s (unat pa div 4096) \<and> (\<forall>j<512. hw_mem t (slot pa j) = 0) \<and>
       MmAsQueryPte (Some a) (MmpAlignDown va MM_PAGE_SIZE) True t = Some (Inr (new_pte pa (MmpProtectionToPte
         (reg_Protection (region (gMmAddressSpacePool s a) r)) (reg_Flags (region (gMmAddressSpacePool s a) r)))), t)))"
proof -
  define pg where "pg = MmpAlignDown va MM_PAGE_SIZE"
  define g where "g = region (gMmAddressSpacePool s a) r"
  define fl where "fl = MmpProtectionToPte (reg_Protection g) (reg_Flags g)"
  note pg = fault_page [OF assms(2-4), folded pg_def]
  have h: "MmHandlePageFault (Some a) va err s = fault_anon a r pg s"
    using fault_dispatch [OF assms(1-5)] assms(6,7) by (simp add: pg_def Let_def) metis
  obtain q s1 where al: "MmAllocPage True s = (q, s1)" by fastforce
  show ?thesis
  proof (cases q)
    case (Inl e)
    have "free_pages s = 0" using alloc_iff_free [OF assms(1)] al Inl by (auto split: if_splits)
    with h al Inl show ?thesis by (simp add: fault_anon_def)
  next
    case (Inr pa)
    define s2 where "s2 = zero_page (MmpPhysToVirtPage s1 pa) s1"
    note f1 = alloc_page_fresh [OF assms(1) al [unfolded Inr]]
    note f2 = fill_fresh [OF f1 s2_def [unfolded zero_page_def]]
    have as2: "gMmAddressSpacePool s2 = gMmAddressSpacePool s"
      using mm_frame_fields(1) [OF mm_frame_alloc [OF al]] by (simp add: s2_def zero_page_def)
    have hm: "MmHandlePageFault (Some a) va err s = map_option (commit_page a r) (MmAsMapPage (Some a) pg pa fl s2)"
      using h al Inr as2 by (simp add: fault_anon_def Let_def s2_def [symmetric] fl_def g_def)
    obtain st s3 where m: "MmAsMapPage (Some a) pg pa fl s2 = Some (st, s3)"
      using MmAsMapPage_total [OF f2(2) pg(1)] by blast
    define t where "t = (if st = KSTATUS_SUCCESS then set_region a r (\<lambda>g. g\<lparr>reg_CommittedPages := reg_CommittedPages g + 1\<rparr>) s3 else s3)"
    have res: "MmHandlePageFault (Some a) va err s = Some (st, t)"
      using hm m by (simp add: commit_page_def t_def)
    have "Suc (free_pages s2) = free_pages s"
      using alloc_iff_free [OF assms(1)] al Inr by (auto simp: s2_def zero_page_def split: if_splits)
    moreover have "page_aligned pa" using f2(1) by (simp add: fresh_page_def)
    ultimately have "st = KSTATUS_SUCCESS \<longleftrightarrow> (\<exists>n. walk_pages s a pg = Some n \<and> n < free_pages s)"
      using map_needs [OF f2(2) pg, of pa fl] walk_pages_fresh [OF assms(1) f2(1) as2] m by (auto simp: less_eq_Suc_le)
    moreover have "\<forall>j<512. hw_mem t (slot pa j) = 0"
      "MmAsQueryPte (Some a) pg True t = Some (Inr (new_pte pa fl), t)" if ok: "st = KSTATUS_SUCCESS"
    proof -
      note m' = m [unfolded ok]
      have "hw_mem s3 (slot pa j) = 0" if "j < 512" for j
        using map_keeps_page [OF f2(2) pg(1) m', of pa j] f2(1,3) that by (simp add: fresh_page_def)
      then show "\<forall>j<512. hw_mem t (slot pa j) = 0" by (simp add: t_def set_region_def set_as_def)
      have "MmAsQueryPte (Some a) pg True s3 = Some (Inr (new_pte pa fl), s3)"
        using query_after_map [OF f2(2) pg(1) m'] by simp
      then show "MmAsQueryPte (Some a) pg True t = Some (Inr (new_pte pa fl), t)"
        using query_set_region [of a pg s3 "new_pte pa fl" a r] by (simp add: t_def)
    qed
    ultimately show ?thesis
      using res f1(1) unfolding pg_def [symmetric] g_def [symmetric] fl_def [symmetric]
      by (auto simp: fresh_page_def)
  qed
qed

text \<open>Demand-zero paging.  A permitted first access to an anonymous region always returns; it succeeds
  exactly when there are free pages for the page itself and for the tables its walk has to make, and no large entry
  is in the way; and when it succeeds the page is mapped, with the
  protection of the region, to a page that was free before and now reads as zero throughout.\<close>

theorem MmHandlePageFault_anon:
  assumes "as_ok lvl s a" and "regions_wf (gMmAddressSpacePool s a)"
    and "r < rcount (gMmAddressSpacePool s a)" and "in_region (gMmAddressSpacePool s a) r va"
    and "region_permits (region (gMmAddressSpacePool s a) r) err" and "\<not> has_flag err MM_PF_ERROR_PRESENT"
    and "reg_Type (region (gMmAddressSpacePool s a) r) = MM_REGION_TYPE_ANON"
  shows "\<exists>st t. MmHandlePageFault (Some a) va err s = Some (st, t) \<and>
    (st = KSTATUS_SUCCESS \<longleftrightarrow> (\<exists>n. walk_pages s a (MmpAlignDown va MM_PAGE_SIZE) = Some n \<and> n < free_pages s)) \<and>
    (st = KSTATUS_SUCCESS \<longrightarrow> (\<exists>pa. \<not> page_alloc s (unat pa div 4096) \<and> (\<forall>j<512. hw_mem t (slot pa j) = 0) \<and>
       MmAsQueryPte (Some a) (MmpAlignDown va MM_PAGE_SIZE) True t = Some (Inr (new_pte pa (MmpProtectionToPte
         (reg_Protection (region (gMmAddressSpacePool s a) r)) (reg_Flags (region (gMmAddressSpacePool s a) r)))), t)))"
  using assms by (rule page_fault_anon)

theorem MmHandlePageFault_anon_witness:
  "\<exists>t pa. MmHandlePageFault (Some 0) 0x40000123 6 mm_user = Some (KSTATUS_SUCCESS, t) \<and>
     (\<forall>j<512. hw_mem t (slot pa j) = 0) \<and>
     MmAsQueryPte (Some 0) 0x40000000 True t = Some (Inr (new_pte pa ((MM_PTE_WRITABLE OR MM_PTE_USER) OR MM_PTE_NX)), t)"
proof -
  have "\<not> page_alloc mm_user 5" "5 < tracked mm_user"
    by (simp_all add: page_alloc_def mm_user_def mm_paged_def bit_numeral_rec)
  then have f: "0 < free_pages mm_user" unfolding free_pages_def by (subst card_gt_0_iff) auto
  have al: "MmpAlignDown 0x40000123 MM_PAGE_SIZE = 0x40000000"
    by (simp add: MmpAlignDown_def MM_PAGE_SIZE_def)
  have p: "pte_at mm_user 0 0x40000000 0x4000"
    using paged_path walk_path_mem_only [of mm_user mm_paged] by (simp add: pte_at_def mm_user_def as_root_def)
  have g: "region_permits (region (gMmAddressSpacePool mm_user 0) 0) 6" "\<not> has_flag 6 MM_PF_ERROR_PRESENT"
    "reg_Type (region (gMmAddressSpacePool mm_user 0) 0) = MM_REGION_TYPE_ANON"
    "MmpProtectionToPte (reg_Protection (region (gMmAddressSpacePool mm_user 0) 0)) (reg_Flags (region (gMmAddressSpacePool mm_user 0) 0))
      = (MM_PTE_WRITABLE OR MM_PTE_USER) OR MM_PTE_NX"
    by (simp_all add: region_permits_def mm_user_def has_flag_def has_bits_def MmpProtectionToPte_def
        MM_PF_ERROR_INSTR_def MM_PF_ERROR_WRITE_def MM_PF_ERROR_USER_def MM_PF_ERROR_PRESENT_def MM_PROT_EXECUTE_def
        MM_PROT_WRITE_def MM_PROT_USER_def MM_REGION_FLAG_GUARD_def MM_REGION_FLAG_LAZY_def MM_REGION_FLAG_COW_def)
  from MmHandlePageFault_anon [OF user_ok user_regions(1) _ user_regions(5) g(1-3)] user_regions(2) f walk_pages_path [OF p]
  show ?thesis unfolding al g(4) by auto
qed

text \<open>The copy-on-write branch for a shared page, up to the mapping: the copy is made and one reference dropped.\<close>

lemma cow_copy:
  fixes s :: "'a MM_GLOBALS_scheme"
  assumes ok: "as_ok lvl s a" and path: "pte_at s a pg b" and e: "e = hw_mem s (slot b (walk_index pg 3))"
    and p: "p = unat (e AND MM_PTE_ADDR_MASK) div 4096" "p < MM_MAX_TRACKED_PAGES" "2 \<le> gMmPageRefCount s p" and free: "0 < free_pages s"
  obtains pa fl s3 where "fault_cow a pg e s = MmAsMapPage (Some a) pg pa fl s3" "page_aligned pa" "as_ok lvl s3 a" "pte_at s3 a pg b"
    "hw_mem s3 (slot b (walk_index pg 3)) = e" "gMmPageRefCount s3 p = gMmPageRefCount s p - 1" "page_alloc s3 p"
proof -
  from ok have inv: "pages_wf s" "gMmReady s" by (auto simp: as_ok_def pt_inv_def)
  have ne1: "gMmPageRefCount s p \<noteq> 1" "gMmPageRefCount s p \<noteq> 0" using p(3) by (auto simp: word_le_nat_alt)
  have pal: "page_alloc s p" using inv(1) p(2) ne1 by (simp add: pages_wf_def)
  obtain pa s1 where al: "MmAllocPage True s = (Inr pa, s1)"
    using alloc_internal_free [OF inv(1) free] MmAllocPage_ready [OF inv(2)] by metis
  note f1 = alloc_page_fresh [OF ok al]
  define old where "old = e AND MM_PTE_ADDR_MASK"
  define s2 where "s2 = copy_page (MmpPhysToVirtPage s1 pa) (MmpPhysToVirtPage s1 old) s1"
  have npa: "unat pa div 4096 \<noteq> p" using f1(1) pal by (auto simp: fresh_page_def)
  note f2 = copy_fresh [OF f1 s2_def]
  define s3 where "s3 = MmpReleasePage old s2"
  have wf2: "pages_wf s2" and r2: "gMmPageRefCount s2 p = gMmPageRefCount s p" "page_alloc s2 p"
    using f2 npa pal by (auto simp: fresh_page_def as_ok_def pt_inv_def)
  have rel: "gMmPageRefCount s3 = (gMmPageRefCount s2)(p := gMmPageRefCount s p - 1)" "page_alloc s3 = page_alloc s2"
    using release_effect(1,2) [OF wf2, of p old] p(1,2) r2 ne1 by (simp_all add: s3_def old_def fun_upd_idem)
  have "as_ok lvl s3 a"
    using as_ok_transfer [OF f2(2) release_pages_wf [OF wf2, of old]] rel(2) f2(2) by (simp add: s3_def as_ok_def pt_inv_def)
  moreover have "gMmAddressSpacePool s3 = gMmAddressSpacePool s"
    using mm_frame_fields(1) [OF mm_frame_alloc [OF al]] by (simp add: s3_def s2_def copy_page_def)
  then have "pte_at s3 a pg b"
    using pte_at_cong [OF ok path f2(1)] by (simp add: s3_def pte_at_def as_root_def walk_path_release)
  moreover have b: "b AND MM_PTE_ADDR_MASK = b" "b \<noteq> pa"
    using walk_path_cong [of s pg 0 3 "as_root s a" b lvl s] path ok f1(1)
    by (auto simp: pte_at_def as_ok_def pt_inv_def levels_ok_def fresh_page_def)
  then have "hw_mem s3 (slot b (walk_index pg 3)) = e"
    using f2(1) walk_index_less [of pg 3] by (simp add: s3_def e fresh_page_def)
  moreover have "page_aligned pa" using f1(1) by (simp add: fresh_page_def)
  moreover have "fault_cow a pg e s = MmAsMapPage (Some a) pg pa (((e AND NOT MM_PTE_SOFT_COW) OR MM_PTE_WRITABLE) AND NOT MM_PTE_ADDR_MASK) s3"
    using al p(1) ne1 by (simp add: fault_cow_def Let_def old_def [symmetric] s2_def [symmetric] s3_def [symmetric])
  ultimately show thesis using that rel r2 by simp
qed

text \<open>C15: copy on write releases the shared page twice.  When a write fault hits a copy-on-write page with
  two or more references, the handler drops the reference itself and \<^verbatim>\<open>MmAsMapPage\<close> drops it
  again when it replaces the entry.  A page shared by two address spaces is therefore marked free, and
  can be handed out again, while the other address space still maps it.\<close>

theorem MmHandlePageFault_cow_double_release:
  fixes s :: "'a MM_GLOBALS_scheme"
  assumes "as_ok lvl s a" and "regions_wf (gMmAddressSpacePool s a)"
    and "r < rcount (gMmAddressSpacePool s a)" and "in_region (gMmAddressSpacePool s a) r va"
    and "region_permits (region (gMmAddressSpacePool s a) r) err"
    and "has_flag err MM_PF_ERROR_PRESENT" and "has_flag err MM_PF_ERROR_WRITE"
    and "pte_at s a (MmpAlignDown va MM_PAGE_SIZE) b"
    and "e = hw_mem s (slot b (walk_index (MmpAlignDown va MM_PAGE_SIZE) 3))"
    and "has_flag e MM_PTE_PRESENT" and "has_flag e MM_PTE_SOFT_COW"
    and "p = unat (e AND MM_PTE_ADDR_MASK) div 4096" and "p < MM_MAX_TRACKED_PAGES"
    and "2 \<le> gMmPageRefCount s p" and "0 < free_pages s"
  shows "\<exists>t. MmHandlePageFault (Some a) va err s = Some (KSTATUS_SUCCESS, t) \<and>
    gMmPageRefCount t p = gMmPageRefCount s p - 2 \<and> (gMmPageRefCount s p = 2 \<longrightarrow> \<not> page_alloc t p)"
proof -
  define pg where "pg = MmpAlignDown va MM_PAGE_SIZE"
  note pg = fault_page [OF assms(2-4), folded pg_def] and path = assms(8) [folded pg_def]
  have e: "e = hw_mem s (slot b (walk_index pg 3))" using assms(9) by (simp add: pg_def)
  from assms(1) have inv: "gMmReady s" "as_root s a \<noteq> 0" by (auto simp: as_ok_def pt_inv_def)
  have "MmAsQueryPte (Some a) pg True s = Some (Inr e, s)"
    using query_on_path(2) [OF path inv(2,1) pg(2,1)] e by simp
  then have h: "MmHandlePageFault (Some a) va err s = fault_cow a pg e s"
    using fault_dispatch [OF assms(1-5)] assms(6,7,11) by (simp add: pg_def Let_def) (metis option.inject prod.inject sum.case(2))
  obtain pa fl s3 where c: "fault_cow a pg e s = MmAsMapPage (Some a) pg pa fl s3" "page_aligned pa" "as_ok lvl s3 a" "pte_at s3 a pg b"
    and e3: "hw_mem s3 (slot b (walk_index pg 3)) = e" and r3: "gMmPageRefCount s3 p = gMmPageRefCount s p - 1" "page_alloc s3 p"
    by (rule cow_copy [OF assms(1) path e assms(12-15)])
  obtain s4 lvl' where w: "walk_step lvl lvl' 4 s3 s4" and m: "MmAsMapPage (Some a) pg pa fl s3 = Some (KSTATUS_SUCCESS,
      (MmpReleasePage (e AND MM_PTE_ADDR_MASK) s4)\<lparr>hw_mem := (hw_mem s4)(slot b (walk_index pg 3) := new_pte pa fl)\<rparr>)"
    by (rule map_on_path [OF c(3) pg c(2,4), where fl = fl, unfolded e3 if_P [OF assms(10)]])
  let ?t = "(MmpReleasePage (e AND MM_PTE_ADDR_MASK) s4)\<lparr>hw_mem := (hw_mem s4)(slot b (walk_index pg 3) := new_pte pa fl)\<rparr>"
  have wf4: "pages_wf s4" "gMmPageRefCount s4 p = gMmPageRefCount s p - 1"
    using w r3 by (auto simp: walk_step_def pt_inv_def pages_kept_def)
  have "gMmPageRefCount s p - 1 \<noteq> 0" using assms(14) by (auto simp: word_le_nat_alt)
  then have "gMmPageRefCount ?t p = gMmPageRefCount s p - 1 - 1" "page_alloc ?t p = (gMmPageRefCount s p - 1 \<noteq> 1)"
    using release_effect(1,2) [OF wf4(1), of p "e AND MM_PTE_ADDR_MASK"] assms(12,13) wf4(2) by (simp_all add: page_alloc_def fun_eq_iff)
  moreover have "MmHandlePageFault (Some a) va err s = Some (KSTATUS_SUCCESS, ?t)" using h c(1) m by simp
  ultimately show ?thesis by (intro exI [of _ ?t]) (auto simp: algebra_simps)
qed

text \<open>Page 5 shared copy-on-write by two references, mapped at \<open>0x40000000\<close>.\<close>

definition mm_cow :: MM_GLOBALS where
  "mm_cow = mm_user\<lparr>hw_mem := (hw_mem mm_user)(slot 0x4000 0 := 0x5205), gMmPageBitmap := (\<lambda>_. 0)(0 := 0x3F),
     gMmPageRefCount := (\<lambda>_. 0)(5 := 2)\<rparr>"

lemma cow_ok: "as_ok lvl_paged mm_cow 0" "pte_at mm_cow 0 0x40000000 0x4000"
proof -
  have bits: "page_alloc mm_cow p" if "page_alloc mm_user p" for p
  proof -
    have "(0x1F :: u64) = mask 5" "(0x3F :: u64) = mask 6" by (simp_all add: mask_eq_decr_exp)
    then have "bit (0x1F :: u64) n \<longleftrightarrow> n < 5" "bit (0x3F :: u64) n \<longleftrightarrow> n < 6" for n by (auto simp only: bit_mask_iff, auto)
    with that show ?thesis by (auto simp: page_alloc_def mm_cow_def mm_user_def mm_paged_def split: if_splits)
  qed
  have lv: "levels_ok lvl_paged mm_cow"
    using user_ok bits unfolding as_ok_def pt_inv_def levels_ok_def by blast
  have mem: "hw_mem mm_cow (slot x j) = hw_mem mm_user (slot x j)" if "lvl_paged x = Some l" "2 \<le> l" "j < 512" for x l j
  proof -
    have "x AND MM_PTE_ADDR_MASK = x" using user_ok that(1) by (auto simp: as_ok_def pt_inv_def levels_ok_def)
    moreover have "x \<noteq> 0x4000" using that(1,2) by (auto simp: lvl_paged_def)
    moreover have "(0x4000 :: u64) AND MM_PTE_ADDR_MASK = 0x4000" by (simp add: MM_PTE_ADDR_MASK_def)
    ultimately have "slot x j \<noteq> slot 0x4000 0" using slot_inj(1) [of x j "0x4000" 0] that(3) by auto
    then show ?thesis by (simp add: mm_cow_def)
  qed
  have "entries_ok lvl_paged mm_cow"
    unfolding entries_ok_def
  proof (intro allI impI, elim conjE)
    fix x l i assume a: "lvl_paged x = Some (Suc l)" "1 \<le> l" "i < (512 :: nat)" "table_entry (hw_mem mm_cow (slot x i))"
    with mem [of x "Suc l" i] user_ok show "lvl_paged (hw_mem mm_cow (slot x i) AND MM_PTE_ADDR_MASK) = Some l"
      by (simp add: as_ok_def pt_inv_def entries_ok_def)
  qed
  moreover have "pages_wf mm_cow" "gMmReady mm_cow" "as_root mm_cow 0 = as_root mm_user 0"
    using user_ok
    by (auto simp: mm_cow_def pages_wf_def as_ok_def pt_inv_def as_root_def page_alloc_def bit_numeral_rec)
  ultimately show "as_ok lvl_paged mm_cow 0" using lv user_ok by (simp add: as_ok_def pt_inv_def)
  have "pte_at mm_user 0 0x40000000 0x4000"
    using paged_path walk_path_mem_only [of mm_user mm_paged] by (simp add: pte_at_def mm_user_def as_root_def)
  then show "pte_at mm_cow 0 0x40000000 0x4000"
    using walk_path_cong [of mm_user "0x40000000" 0 3 "as_root mm_user 0" "0x4000" lvl_paged mm_cow] mem user_ok
    by (simp add: pte_at_def as_ok_def \<open>as_root mm_cow 0 = as_root mm_user 0\<close>)
qed

theorem MmHandlePageFault_cow_double_release_witness:
  "\<exists>t. MmHandlePageFault (Some 0) 0x40000123 7 mm_cow = Some (KSTATUS_SUCCESS, t) \<and>
     gMmPageRefCount mm_cow 5 = 2 \<and> gMmPageRefCount t 5 = 0 \<and> \<not> page_alloc t 5"
proof -
  have al: "MmpAlignDown 0x40000123 MM_PAGE_SIZE = 0x40000000"
    by (simp add: MmpAlignDown_def MM_PAGE_SIZE_def)
  have pool: "gMmAddressSpacePool mm_cow = gMmAddressSpacePool mm_user" by (simp add: mm_cow_def)
  have e: "0x5205 = hw_mem mm_cow (slot 0x4000 (walk_index (MmpAlignDown 0x40000123 MM_PAGE_SIZE) 3))"
    unfolding al by (simp add: mm_cow_def paged_addr)
  have "\<not> page_alloc mm_cow 6" "6 < tracked mm_cow"
    by (simp_all add: page_alloc_def mm_cow_def mm_user_def mm_paged_def bit_numeral_rec)
  then have f: "0 < free_pages mm_cow" unfolding free_pages_def by (subst card_gt_0_iff) auto
  have g: "region_permits (region (gMmAddressSpacePool mm_cow 0) 0) 7" "has_flag 7 MM_PF_ERROR_PRESENT"
    "has_flag 7 MM_PF_ERROR_WRITE" "has_flag 0x5205 MM_PTE_PRESENT" "has_flag 0x5205 MM_PTE_SOFT_COW"
    "gMmPageRefCount mm_cow 5 = 2" "5 = unat (0x5205 AND MM_PTE_ADDR_MASK) div 4096" "5 < MM_MAX_TRACKED_PAGES"
    by (simp_all add: region_permits_def mm_cow_def mm_user_def has_flag_def has_bits_def
        MM_PF_ERROR_INSTR_def MM_PF_ERROR_WRITE_def MM_PF_ERROR_USER_def MM_PF_ERROR_PRESENT_def MM_PROT_EXECUTE_def
        MM_PROT_WRITE_def MM_PROT_USER_def MM_REGION_FLAG_GUARD_def MM_REGION_FLAG_LAZY_def MM_PTE_PRESENT_def
        MM_PTE_SOFT_COW_def MM_PTE_ADDR_MASK_def MM_MAX_TRACKED_PAGES_def)
  from MmHandlePageFault_cow_double_release [OF cow_ok(1) _ _ _ g(1-3) _ e g(4,5,7,8) _ f, unfolded al, OF _ _ _ cow_ok(2)]
    user_regions g(6) pool
  show ?thesis by auto
qed

text \<open>A mapping request within a page of the top of the 64-bit range wraps.  Its rounded size is
  zero; \<^verbatim>\<open>MmMapAnonymous\<close> nevertheless succeeds and returns an address at which every access is
  denied.\<close>

theorem MmMapAnonymous_wrap:
  assumes "regions_wf (gMmAddressSpacePool s a)" and "rcount (gMmAddressSpacePool s a) < 128" and "gMmReady s"
    and "2 ^ 64 \<le> unat Size + 4095" and "\<not> has_bits fl MM_REGION_FLAG_WIRED"
  shows "\<exists>base t. MmMapAnonymous (Some a) Size prot fl True s = Some (Inr base, t) \<and>
    reg_Size (region (gMmAddressSpacePool t a) (rcount (gMmAddressSpacePool s a))) = 0 \<and>
    (\<forall>err. MmHandlePageFault (Some a) base err t = Some (KSTATUS_ACCESS_DENIED, t))"
proof -
  define as where "as = gMmAddressSpacePool s a"
  note wf = assms(1) [folded as_def]
  have "(fl OR MM_REGION_FLAG_LAZY) AND MM_REGION_FLAG_WIRED = fl AND MM_REGION_FLAG_WIRED"
    by (rule bit_eqI) (auto simp: bit_simps MM_REGION_FLAG_LAZY_def MM_REGION_FLAG_WIRED_def bit_numeral_rec)
  then have nw: "\<not> has_bits (if \<not> has_bits fl (MM_REGION_FLAG_LAZY OR MM_REGION_FLAG_WIRED) then fl OR MM_REGION_FLAG_LAZY else fl)
      MM_REGION_FLAG_WIRED"
    using assms(5) by (simp add: has_bits_def)
  have z: "MmpAlignSizeToPage Size = 0" using size_wraps [OF assms(4)] .
  define g where "g = \<lparr>reg_Base = as_NextUserBase as, reg_Size = 0,
    reg_Type = MM_REGION_TYPE_ANON, reg_Protection = prot OR MM_PROT_USER,
    reg_Flags = (if \<not> has_bits fl (MM_REGION_FLAG_LAZY OR MM_REGION_FLAG_WIRED) then fl OR MM_REGION_FLAG_LAZY else fl),
    reg_CommittedPages = 0, reg_BackingPhysicalBase = 0, reg_BackingObject = None, reg_BackingOffset = 0\<rparr>"
  define t where "t = set_as a (\<lambda>as'. as'\<lparr>as_RegionCount := as_RegionCount as' + 1, as_NextUserBase := as_NextUserBase as\<rparr>)
    (set_region a (rcount as) (\<lambda>_. g) s)"
  have lim: "\<not> as_RegionCount as \<ge> MM_MAX_VA_REGIONS" "as_RegionCount as < MM_MAX_VA_REGIONS"
    using assms(2) by (auto simp: as_def MM_MAX_VA_REGIONS_def word_le_nat_alt word_less_nat_alt)
  have m: "MmMapAnonymous (Some a) Size prot fl True s = Some (Inr (as_NextUserBase as), t)"
    using nw lim assms(3)
    by (simp add: MmMapAnonymous_def Let_def as_def [symmetric] align_next [OF wf] z t_def g_def)
  have c: "unat (as_RegionCount as + 1) = Suc (rcount as)" using assms(2) by (simp add: as_def unat_word_ariths)
  have pt: "gMmAddressSpacePool t a = as\<lparr>as_Regions := (as_Regions as)(rcount as := g), as_RegionCount := as_RegionCount as + 1\<rparr>"
    by (simp add: t_def set_region_def as_def)
  have "\<not> in_region as i (as_NextUserBase as)" if "i < rcount as" for i
    using wf that by (auto simp: regions_wf_def in_region_def not_less)
  then have "MmpFindRegion a (as_NextUserBase as) t = None"
    using in_region_iff [OF wf] by (auto simp: MmpFindRegion_def scan_None_iff pt c less_Suc_eq g_def)
  moreover have "gMmReady t" using assms(3) by (simp add: t_def set_as_def set_region_def)
  ultimately have "MmHandlePageFault (Some a) (as_NextUserBase as) err t = Some (KSTATUS_ACCESS_DENIED, t)" for err
    by (simp add: MmHandlePageFault_def)
  moreover have "reg_Size (region (gMmAddressSpacePool t a) (rcount (gMmAddressSpacePool s a))) = 0"
    by (simp add: pt as_def [symmetric] g_def)
  ultimately show ?thesis using m by blast
qed

theorem MmMapAnonymous_wrap_witness:
  "\<exists>base t. MmMapAnonymous (Some 0) 0xFFFFFFFFFFFFFFFF 3 0 True mm_user = Some (Inr base, t) \<and>
     (\<forall>err. MmHandlePageFault (Some 0) base err t = Some (KSTATUS_ACCESS_DENIED, t))"
proof -
  have "\<not> has_bits 0 MM_REGION_FLAG_WIRED" by (simp add: has_bits_def)
  with MmMapAnonymous_wrap [OF user_regions(1) _ user_regions(4), of "0xFFFFFFFFFFFFFFFF" 0 3] user_regions(2)
  show ?thesis by auto
qed

end
