(* ===== verification/NtxMmSection.thy ===== *)
theory NtxMmSection
  imports NtxMmFault
begin

text \<open>
  Section objects of \<^verbatim>\<open>kernel/mm/init.c\<close>: which page of a section a fault maps, that two mappings of
  a section see the same memory, and how the requested size is read.
\<close>

section \<open>The page behind a fault\<close>

text \<open>The index of the page of a section region that \<open>va\<close> lies in.\<close>

definition section_index :: "MM_VA_REGION \<Rightarrow> u64 \<Rightarrow> nat" where
  "section_index g va = (unat va - unat (reg_Base g)) div 4096"

lemma div_diff_mult: "4096 * q \<le> (v :: nat) \<Longrightarrow> (v - 4096 * q) div 4096 = v div 4096 - q"
proof -
  assume "4096 * q \<le> v"
  then obtain d where "v = d + 4096 * q" by (metis le_add_diff_inverse2)
  then show ?thesis by simp
qed

lemma section_offset:
  assumes wf: "regions_wf as" "r < rcount as" "in_region as r va"
    and sz: "unat (reg_Size (region as r)) \<le> 2 ^ 20" and off: "reg_BackingOffset (region as r) = 0"
  shows "unat (ucast ((MmpAlignDown va MM_PAGE_SIZE - reg_Base (region as r) + reg_BackingOffset (region as r)) div MM_PAGE_SIZE) :: u32) =
    section_index (region as r) va"
proof -
  let ?b = "reg_Base (region as r)"
  let ?pg = "MmpAlignDown va MM_PAGE_SIZE"
  have bm: "unat ?b mod 4096 = 0" using wf(1,2) by (simp add: regions_wf_def)
  then obtain q where q: "unat ?b = 4096 * q" by (auto simp: mod_eq_0_iff_dvd elim: dvdE)
  have r: "unat ?b \<le> unat va" "unat va - unat ?b < 2 ^ 20" using wf(3) sz by (auto simp: in_region_def)
  have pg: "unat ?pg = unat va div 4096 * 4096" by (rule align_down_4096)
  have "q \<le> unat va div 4096" using r(1) q by (metis div_le_mono nonzero_mult_div_cancel_left zero_neq_numeral)
  then have le: "?b \<le> ?pg" by (simp only: word_le_nat_alt pg q)
  have "unat (?pg - ?b) = (unat va div 4096 - q) * 4096"
    using unat_sub [OF le] by (simp add: pg q diff_mult_distrib del: align_down_4096)
  then have d: "unat ((?pg - ?b) div MM_PAGE_SIZE) = unat va div 4096 - q" by simp
  moreover have "section_index (region as r) va = unat va div 4096 - q"
    unfolding section_index_def q using div_diff_mult r(1) q by simp
  moreover have "unat va div 4096 - q < 2 ^ 32"
    using div_diff_mult [of q "unat va"] div_le_dividend [of "unat va - 4096 * q" 4096] r q by simp
  ultimately show ?thesis by (simp add: off unat_ucast_32)
qed

section \<open>Properties\<close>

text \<open>Mapping a page after retaining it succeeds on the same condition as before.\<close>

lemma walk_need_mem: "hw_mem t = hw_mem s \<Longrightarrow> walk_need t va L k c = walk_need s va L k c"
  by (induction k arbitrary: L c) (simp_all add: Let_def)

lemma retained_map:
  assumes "as_ok lvl (MmpRetainPage pa s) a" "MmpIsCanonicalAddress va" "page_aligned va"
    "gMmAddressSpacePool (MmpRetainPage pa s) = gMmAddressSpacePool s"
  shows "(\<exists>t. MmAsMapPage (Some a) va pa fl (MmpRetainPage pa s) = Some (KSTATUS_SUCCESS, t)) \<longleftrightarrow>
    page_aligned pa \<and> (\<exists>n. walk_pages s a va = Some n \<and> n \<le> free_pages s)"
proof (cases "page_aligned pa")
  case True
  have f: "hw_mem (MmpRetainPage pa s) = hw_mem s" "free_pages (MmpRetainPage pa s) = free_pages s"
    by (simp_all add: MmpRetainPage_def Let_def free_pages_def page_alloc_def)
  have "walk_pages (MmpRetainPage pa s) a va = walk_pages s a va"
    using walk_need_mem [OF f(1)] assms(4) by (simp add: walk_pages_def as_root_def)
  with True map_needs [OF assms(1-3) True, of fl] f(2) show ?thesis by simp
next
  case False
  then show ?thesis by (simp add: MmAsMapPage_def)
qed

text \<open>C9: a section region gives access to the pages of the section and to nothing else.  Take a permitted first access to a
  region over a live section, with backing offset 0 and of at most 1 MiB, as \<^verbatim>\<open>MmMapSectionHandle\<close> makes them.  An offset beyond the
  section is denied without any change.  Otherwise the fault returns; it succeeds exactly when the page of the section is page aligned,
  there are free pages for the tables the walk has to make and no large entry above the last level is in the way; and on success
  the page of the section at that offset is mapped, with the protection of the region.\<close>

theorem MmHandlePageFault_section:
  assumes "as_ok lvl s a" and "regions_wf (gMmAddressSpacePool s a)"
    and "r < rcount (gMmAddressSpacePool s a)" and "in_region (gMmAddressSpacePool s a) r va"
    and "g = region (gMmAddressSpacePool s a) r" and "region_permits g err" and "\<not> has_flag err MM_PF_ERROR_PRESENT"
    and "reg_Type g = MM_REGION_TYPE_SECTION" and "reg_BackingOffset g = 0" and "unat (reg_Size g) \<le> 2 ^ 20"
    and "MmpFindSectionByHeader (reg_BackingObject g) s = Some sec"
  shows "if unat (sec_PageCount (gMmSectionPool s sec)) \<le> section_index g va
    then MmHandlePageFault (Some a) va err s = Some (KSTATUS_ACCESS_DENIED, s)
    else \<exists>st t. MmHandlePageFault (Some a) va err s = Some (st, t) \<and>
      (st = KSTATUS_SUCCESS \<longleftrightarrow> page_aligned (sec_Pages (gMmSectionPool s sec) (section_index g va)) \<and>
        (\<exists>n. walk_pages s a (MmpAlignDown va MM_PAGE_SIZE) = Some n \<and> n \<le> free_pages s)) \<and>
      (st = KSTATUS_SUCCESS \<longrightarrow> MmAsQueryPte (Some a) (MmpAlignDown va MM_PAGE_SIZE) True t =
        Some (Inr (new_pte (sec_Pages (gMmSectionPool s sec) (section_index g va))
          (MmpProtectionToPte (reg_Protection g) (reg_Flags g))), t))"
proof -
  define pg where "pg = MmpAlignDown va MM_PAGE_SIZE"
  define i where "i = (ucast ((pg - reg_Base g + reg_BackingOffset g) div MM_PAGE_SIZE) :: u32)"
  have i: "unat i = section_index g va"
    unfolding i_def pg_def assms(5) using assms(1-10) by (intro section_offset) simp_all
  note pg = fault_page [OF assms(2-4), folded pg_def]
  have ty: "MM_REGION_TYPE_SECTION \<noteq> MM_REGION_TYPE_ANON" "MM_REGION_TYPE_SECTION \<noteq> MM_REGION_TYPE_PHYS"
    by (simp_all add: MM_REGION_TYPE_SECTION_def MM_REGION_TYPE_ANON_def MM_REGION_TYPE_PHYS_def)
  have h: "MmHandlePageFault (Some a) va err s = fault_section a r pg s"
    using fault_dispatch [OF assms(1-4)] assms(5-8) ty by (simp add: pg_def Let_def) metis
  show ?thesis
  proof (cases "unat (sec_PageCount (gMmSectionPool s sec)) \<le> section_index g va")
    case True
    then have "sec_PageCount (gMmSectionPool s sec) \<le> i" by (simp add: word_le_nat_alt i)
    with True h assms(11) show ?thesis
      by (simp add: fault_section_def Let_def assms(5) [symmetric] i_def [symmetric])
  next
    case False
    then have n: "\<not> sec_PageCount (gMmSectionPool s sec) \<le> i" by (simp add: word_le_nat_alt i)
    define pa where "pa = sec_Pages (gMmSectionPool s sec) (section_index g va)"
    define fl where "fl = MmpProtectionToPte (reg_Protection g) (reg_Flags g)"
    define s1 where "s1 = MmpRetainPage pa s"
    have f1: "hw_mem s1 = hw_mem s" "gMmReady s1 = gMmReady s" "gMmAddressSpacePool s1 = gMmAddressSpacePool s"
      "page_alloc s1 = page_alloc s"
      by (simp_all add: s1_def MmpRetainPage_def Let_def page_alloc_def fun_eq_iff)
    have ok1: "as_ok lvl s1 a"
      using as_ok_transfer [OF assms(1), of s1] f1 assms(1) retain_pages_wf [of s pa] by (simp add: s1_def as_ok_def pt_inv_def)
    have e: "MmHandlePageFault (Some a) va err s = map_option (commit_page a r) (MmAsMapPage (Some a) pg pa fl s1)"
      using h n assms(11)
      by (simp add: fault_section_def Let_def assms(5) [symmetric] i_def [symmetric] i pa_def s1_def fl_def)
    obtain st t where m: "MmAsMapPage (Some a) pg pa fl s1 = Some (st, t)"
      using MmAsMapPage_total [OF ok1 pg(1)] by blast
    have st: "st = KSTATUS_SUCCESS \<longleftrightarrow> page_aligned pa \<and> (\<exists>n. walk_pages s a pg = Some n \<and> n \<le> free_pages s)"
      using retained_map [OF ok1 [unfolded s1_def] pg f1(3) [unfolded s1_def], of fl] m by (simp add: s1_def)
    let ?t = "snd (commit_page a r (st, t))"
    have h: "MmHandlePageFault (Some a) va err s = Some (st, ?t)" using e m by (simp add: commit_page_def)
    have "MmAsQueryPte (Some a) pg True ?t = Some (Inr (new_pte pa fl), ?t)" if "st = KSTATUS_SUCCESS"
    proof -
      have "MmAsQueryPte (Some a) pg True t = Some (Inr (new_pte pa fl), t)"
        using query_after_map [OF ok1 pg(1)] m that by simp
      from query_set_region [OF this] that show ?thesis by (simp add: commit_page_def)
    qed
    with False h st show ?thesis by (auto simp: pg_def pa_def fl_def)
  qed
qed

text \<open>The address space of \<open>mm_user\<close> with a two-page section region over a one-page section.\<close>

definition mm_sect :: MM_GLOBALS where
  "mm_sect = mm_user\<lparr>gMmSectionInUse := (\<lambda>i. i = 0), gMmSectionPool := (\<lambda>_. \<lparr>sec_Header = Some 4, sec_PageCount = 1, sec_Pages = (\<lambda>_. 0x5000)\<rparr>),
     gMmAddressSpacePool := (\<lambda>a. (gMmAddressSpacePool mm_paged a)\<lparr>as_NextUserBase := 0x40002000, as_RegionCount := 1,
       as_Regions := (\<lambda>_. \<lparr>reg_Base = 0x40000000, reg_Size = 0x2000, reg_Type = MM_REGION_TYPE_SECTION, reg_Protection = 0xB,
         reg_Flags = MM_REGION_FLAG_LAZY, reg_CommittedPages = 0, reg_BackingPhysicalBase = 0, reg_BackingObject = Some 4,
         reg_BackingOffset = 0\<rparr>)\<rparr>)\<rparr>"

theorem MmHandlePageFault_section_witness:
  "MmHandlePageFault (Some 0) 0x40001008 6 mm_sect = Some (KSTATUS_ACCESS_DENIED, mm_sect) \<and>
   (\<exists>t. MmHandlePageFault (Some 0) 0x40000008 6 mm_sect = Some (KSTATUS_SUCCESS, t) \<and>
     MmAsQueryPte (Some 0) 0x40000000 True t =
       Some (Inr (new_pte 0x5000 (MmpProtectionToPte 0xB MM_REGION_FLAG_LAZY)), t))"
proof -
  have ok: "as_ok lvl_paged mm_sect 0"
    using paged_ok by (simp add: mm_sect_def mm_user_def as_ok_def pt_inv_def levels_ok_def entries_ok_def as_root_def pages_wf_def page_alloc_def)
  define g where "g = region (gMmAddressSpacePool mm_sect 0) 0"
  have wf: "regions_wf (gMmAddressSpacePool mm_sect 0)" "0 < rcount (gMmAddressSpacePool mm_sect 0)"
    "in_region (gMmAddressSpacePool mm_sect 0) 0 0x40001008" "section_index g 0x40001008 = 1"
    "in_region (gMmAddressSpacePool mm_sect 0) 0 0x40000008" "section_index g 0x40000008 = 0"
    "unat (sec_PageCount (gMmSectionPool mm_sect 0)) = 1"
    by (simp_all add: mm_sect_def regions_wf_def in_region_def user_bounds section_index_def g_def)
  have g: "region_permits g 6" "\<not> has_flag 6 MM_PF_ERROR_PRESENT" "reg_Type g = MM_REGION_TYPE_SECTION"
    "reg_BackingOffset g = 0" "unat (reg_Size g) \<le> 2 ^ 20" "reg_BackingObject g = Some 4"
    by (simp_all add: region_permits_def mm_sect_def g_def has_flag_def has_bits_def
        MM_PF_ERROR_INSTR_def MM_PF_ERROR_WRITE_def MM_PF_ERROR_USER_def MM_PF_ERROR_PRESENT_def MM_PROT_EXECUTE_def
        MM_PROT_WRITE_def MM_PROT_USER_def MM_REGION_FLAG_GUARD_def MM_REGION_FLAG_LAZY_def MM_REGION_FLAG_COW_def)
  have sec: "MmpFindSectionByHeader (reg_BackingObject g) mm_sect = Some 0"
    unfolding g(6) MmpFindSectionByHeader_def by (simp add: mm_sect_def MM_MAX_SECTION_OBJECTS_def scan_first)
  have "pte_at mm_sect 0 0x40000000 0x4000"
    using paged_path walk_path_mem_only [of mm_sect mm_paged] by (simp add: pte_at_def mm_sect_def mm_user_def as_root_def)
  note wp = walk_pages_path [OF this]
  have al: "MmpAlignDown 0x40000008 MM_PAGE_SIZE = 0x40000000" by (simp add: MmpAlignDown_def MM_PAGE_SIZE_def)
  have p: "sec_Pages (gMmSectionPool mm_sect 0) 0 = 0x5000" "page_aligned 0x5000" "reg_Protection g = 0xB" "reg_Flags g = MM_REGION_FLAG_LAZY"
    by (simp_all add: mm_sect_def g_def page_aligned_def MM_PAGE_SIZE_def)
  have "MmHandlePageFault (Some 0) 0x40001008 6 mm_sect = Some (KSTATUS_ACCESS_DENIED, mm_sect)"
    using MmHandlePageFault_section [OF ok wf(1-3) g_def g(1-5) sec] wf(4,7) by simp
  moreover have "\<exists>t. MmHandlePageFault (Some 0) 0x40000008 6 mm_sect = Some (KSTATUS_SUCCESS, t) \<and>
     MmAsQueryPte (Some 0) 0x40000000 True t = Some (Inr (new_pte 0x5000 (MmpProtectionToPte 0xB MM_REGION_FLAG_LAZY)), t)"
    using MmHandlePageFault_section [OF ok wf(1,2,5) g_def g(1-5) sec] wf(6,7) wp p unfolding al by auto
  ultimately show ?thesis by blast
qed

text \<open>The size of a section is read modulo 16 TiB.  The number of pages is truncated to 32 bits before
  it is checked, so a request of \<open>n\<close> bytes plus any multiple of $2^{44}$ behaves exactly like a request of
  \<open>n\<close> bytes, whatever the rest of the system does.\<close>

theorem MmCreateSectionHandle_size_mod:
  assumes "unat Size' = unat Size + k * 2 ^ 44" and "Size \<noteq> 0" and "unat Size' + 4095 < 2 ^ 64"
  shows "MmCreateSectionHandle del Size' acc out s = MmCreateSectionHandle del Size acc out s"
proof -
  have nz: "Size' \<noteq> 0" using assms(1,2) by (auto simp: unat_eq_zero [symmetric])
  have b: "unat Size + 4095 < 2 ^ 64" using assms(1,3) by linarith
  have "unat (MmpAlignSizeToPage Size' div MM_PAGE_SIZE) = (unat Size + 4095) div 4096 + k * 2 ^ 32"
    using MmpAlignSizeToPage_unat [OF assms(3)] nz by (simp add: map_size_def assms(1)) 
  moreover have "unat (MmpAlignSizeToPage Size div MM_PAGE_SIZE) = (unat Size + 4095) div 4096"
    using MmpAlignSizeToPage_unat [OF b] assms(2) by (simp add: map_size_def)
  ultimately have "(ucast (MmpAlignSizeToPage Size' div MM_PAGE_SIZE) :: u32) = ucast (MmpAlignSizeToPage Size div MM_PAGE_SIZE)"
    by (intro unsigned_word_eqI [where 'a = nat]) (simp add: unsigned_ucast_eq take_bit_eq_mod)
  then show ?thesis unfolding MmCreateSectionHandle_def Let_def by (simp only:)
qed

theorem MmCreateSectionHandle_size_mod_witness:
  "\<forall>del acc out s. MmCreateSectionHandle del 0x100000001000 acc out (s :: MM_GLOBALS) = MmCreateSectionHandle del 0x1000 acc out s"
  using MmCreateSectionHandle_size_mod [of "0x100000001000" "0x1000" 1] by auto

end
