(* ===== verification/NtxPs.thy ===== *)
theory NtxPs
  imports NtxMmSection
begin

text \<open>
  Processes, threads and the scheduler: \<^verbatim>\<open>kernel/ps/init.c\<close> (without the image loader) and the
  context routines of \<^verbatim>\<open>kernel/arch/aur64/context.c\<close>.

  A thread or process pointer is an index into its pool; a process's address space pointer is an
  index into the address space pool.  The run queue is the code's intrusive list through
  \<^verbatim>\<open>RunQueueNext\<close>.  A context switch saves the registers of the machine (\<open>hw_cpu\<close>) into the
  outgoing context and loads the incoming one; a scheduling operation returns the state at that point,
  in which the incoming thread executes.  \<open>None\<close> is a failed \<^verbatim>\<open>NK_ASSERT\<close>, which halts.

  The fields \<open>link_...\<close> are addresses the linker assigns: the stack pool, the thread entry thunk, the
  label at which \<^verbatim>\<open>KiArchSwitchContext\<close> resumes, and the address space pool.  Nothing changes them.
\<close>

section \<open>Definitions\<close>

definition PS_MAX_PROCESSES :: nat where "PS_MAX_PROCESSES = 32"
definition PS_MAX_THREADS :: nat where "PS_MAX_THREADS = 128"
definition PS_DEFAULT_TIMESLICE_TICKS :: u32 where "PS_DEFAULT_TIMESLICE_TICKS = 4"
definition PS_USER_TOP :: u64 where "PS_USER_TOP = 0x0000800000000000"
definition PS_PTE_PRESENT :: u64 where "PS_PTE_PRESENT = 0x001"
definition PS_PTE_WRITABLE :: u64 where "PS_PTE_WRITABLE = 0x002"
definition PS_PTE_USER :: u64 where "PS_PTE_USER = 0x004"
definition PS_PTE_NX :: u64 where "PS_PTE_NX = push_bit 63 1"
definition PS_THREAD_STACK_SIZE :: u64 where "PS_THREAD_STACK_SIZE = 16384"

datatype PS_THREAD_STATE = PsThreadReady | PsThreadRunning | PsThreadBlocked | PsThreadDead

primrec thread_state_value :: "PS_THREAD_STATE \<Rightarrow> u64" where
  "thread_state_value PsThreadReady = 0"
| "thread_state_value PsThreadRunning = 1"
| "thread_state_value PsThreadBlocked = 2"
| "thread_state_value PsThreadDead = 3"

record KPROCESS =
  pr_ObjectHeader :: ptr
  pr_ProcessId :: u64
  pr_AddressSpaceRoot :: ptr

text \<open>A start routine is the address of a function; its context an opaque pointer.\<close>

record KTHREAD =
  th_ObjectHeader :: ptr
  th_ThreadId :: u64
  th_OwnerProcess :: ptr
  th_Context :: AUR64_CONTEXT
  th_State :: PS_THREAD_STATE
  th_TimeSliceTicks :: u32
  th_RemainingTicks :: u32
  th_RunQueueNext :: ptr
  th_WaitQueueNext :: ptr
  th_StartRoutine :: "u64 option"
  th_StartContext :: u64
  th_KernelStackTop :: u64
  th_IsUserThread :: bool
  th_UserEntry :: u64
  th_UserStackTop :: u64
  th_UserArg0 :: u64
  th_UserArg1 :: u64

record PS_GLOBALS = MM_GLOBALS +
  gPsProcessType :: ptr
  gPsThreadType :: ptr
  gPsProcessPool :: "nat \<Rightarrow> KPROCESS"
  gPsProcessInUse :: "nat \<Rightarrow> bool"
  gPsThreadPool :: "nat \<Rightarrow> KTHREAD"
  gPsThreadInUse :: "nat \<Rightarrow> bool"
  gPsNextProcessId :: u64
  gPsNextThreadId :: u64
  gPsSystemProcess :: ptr
  gPsCurrentThread :: ptr
  gPsRunQueueHead :: ptr
  gPsRunQueueTail :: ptr
  gPsReschedulePending :: bool
  gPsReady :: bool
  link_ThreadStackPool :: u64
  link_ThreadEntryThunk :: u64
  link_SwitchResume :: u64
  link_AddressSpacePool :: u64

definition set_process :: "nat \<Rightarrow> (KPROCESS \<Rightarrow> KPROCESS) \<Rightarrow> 'a PS_GLOBALS_scheme \<Rightarrow> 'a PS_GLOBALS_scheme" where
  "set_process p f s = s\<lparr>gPsProcessPool := (gPsProcessPool s)(p := f (gPsProcessPool s p))\<rparr>"

definition set_thread :: "nat \<Rightarrow> (KTHREAD \<Rightarrow> KTHREAD) \<Rightarrow> 'a PS_GLOBALS_scheme \<Rightarrow> 'a PS_GLOBALS_scheme" where
  "set_thread t f s = s\<lparr>gPsThreadPool := (gPsThreadPool s)(t := f (gPsThreadPool s t))\<rparr>"

subsection \<open>Contexts\<close>

text \<open>\<^verbatim>\<open>KiArchSwitchContext\<close>: the outgoing context, the register file and the incoming context; the
  result is the saved outgoing context and the new register file.\<close>

definition KiArchSwitchContext ::
    "u64 \<Rightarrow> AUR64_CONTEXT option \<Rightarrow> AUR64_CONTEXT option \<Rightarrow> AUR64_CONTEXT \<Rightarrow> AUR64_CONTEXT option \<times> AUR64_CONTEXT" where
  "KiArchSwitchContext resume CurrentContext NextContext cpu =
     (case NextContext of
        None \<Rightarrow> (CurrentContext, cpu)
      | Some nc \<Rightarrow> (map_option (\<lambda>_. cpu\<lparr>ctx_Rip := resume\<rparr>) CurrentContext, nc))"

definition KiArchInitializeContext :: "u64 \<Rightarrow> u64 \<Rightarrow> AUR64_CONTEXT \<Rightarrow> AUR64_CONTEXT" where
  "KiArchInitializeContext StackTop EntryRoutine Context =
     (if EntryRoutine = 0 \<or> StackTop < 16 then Context
      else \<lparr>ctx_Rbx = 0, ctx_Rbp = 0, ctx_R12 = 0, ctx_R13 = 0, ctx_R14 = 0, ctx_R15 = 0,
            ctx_Rsp = (StackTop AND NOT 0x0F) - 8, ctx_Rip = EntryRoutine, ctx_Rflags = 0x202\<rparr>)"

subsection \<open>Slots and processes\<close>

definition PspAllocateProcessSlot ::
    "outptr \<Rightarrow> 'a PS_GLOBALS_scheme \<Rightarrow> (KSTATUS + nat) \<times> 'a PS_GLOBALS_scheme" where
  "PspAllocateProcessSlot OutProcess s =
     (if \<not> OutProcess then (Inl KSTATUS_INVALID_PARAMETER, s)
      else case scan (\<lambda>i. \<not> gPsProcessInUse s i) 0 PS_MAX_PROCESSES of
        None \<Rightarrow> (Inl KSTATUS_INIT_FAILED, s)
      | Some Index \<Rightarrow> (Inr Index, s\<lparr>gPsProcessInUse := (gPsProcessInUse s)(Index := True)\<rparr>))"

definition PspAllocateThreadSlot ::
    "outptr \<Rightarrow> 'a PS_GLOBALS_scheme \<Rightarrow> (KSTATUS + nat) \<times> 'a PS_GLOBALS_scheme" where
  "PspAllocateThreadSlot OutThread s =
     (if \<not> OutThread then (Inl KSTATUS_INVALID_PARAMETER, s)
      else case scan (\<lambda>i. \<not> gPsThreadInUse s i) 0 PS_MAX_THREADS of
        None \<Rightarrow> (Inl KSTATUS_INIT_FAILED, s)
      | Some Index \<Rightarrow> (Inr Index, s\<lparr>gPsThreadInUse := (gPsThreadInUse s)(Index := True)\<rparr>))"

definition PspCreateProcessInternal ::
    "string option \<Rightarrow> outptr \<Rightarrow> 'a PS_GLOBALS_scheme \<Rightarrow> ((KSTATUS + nat) \<times> 'a PS_GLOBALS_scheme) option" where
  "PspCreateProcessInternal Name OutProcess s =
     (if \<not> OutProcess then Some (Inl KSTATUS_INVALID_PARAMETER, s)
      else
        let ObjectName = (case Name of Some n \<Rightarrow> n | None \<Rightarrow> ''proc.user'')
        in case PspAllocateProcessSlot True s of
             (Inl Status, s1) \<Rightarrow> Some (Inl Status, s1)
           | (Inr Process, s1) \<Rightarrow>
               (case ObCreateObject (gPsProcessType s1) (Some ObjectName) OB_ACCESS_ALL 0 True s1 of
                  (Inl Status, s2) \<Rightarrow> Some (Inl Status, s2)
                | (Inr Header, s2) \<Rightarrow>
                    let Pid = gPsNextProcessId s2;
                        s3 = set_process Process (\<lambda>p. p\<lparr>pr_ObjectHeader := Some Header, pr_ProcessId := Pid\<rparr>)
                               (s2\<lparr>gPsNextProcessId := Pid + 1\<rparr>)
                    in do {
                      r \<leftarrow> MmCreateAddressSpace Pid True s3;
                      Some (case r of
                          (Inl Status, s4) \<Rightarrow> (Inl Status, s4)
                        | (Inr AddressSpace, s4) \<Rightarrow>
                            (Inr Process, set_process Process (\<lambda>p. p\<lparr>pr_AddressSpaceRoot := Some AddressSpace\<rparr>) s4)) }))"

definition PspCreateSystemProcess :: "'a PS_GLOBALS_scheme \<Rightarrow> (KSTATUS \<times> 'a PS_GLOBALS_scheme) option" where
  "PspCreateSystemProcess s = do {
     r \<leftarrow> PspCreateProcessInternal (Some ''proc.system'') True s;
     Some (case r of
         (Inl Status, s1) \<Rightarrow> (Status, s1)
       | (Inr Process, s1) \<Rightarrow> (KSTATUS_SUCCESS, s1\<lparr>gPsSystemProcess := Some Process\<rparr>)) }"

definition PsCreateProcess ::
    "string option \<Rightarrow> outptr \<Rightarrow> 'a PS_GLOBALS_scheme \<Rightarrow> ((KSTATUS + nat) \<times> 'a PS_GLOBALS_scheme) option" where
  "PsCreateProcess Name OutProcess s =
     (if \<not> gPsReady s then Some (Inl KSTATUS_INVALID_PARAMETER, s) else PspCreateProcessInternal Name OutProcess s)"

subsection \<open>Run queue\<close>

text \<open>The body of \<^verbatim>\<open>PspRunQueuePush\<close> after its assertions.\<close>

definition run_queue_push :: "nat \<Rightarrow> 'a PS_GLOBALS_scheme \<Rightarrow> 'a PS_GLOBALS_scheme" where
  "run_queue_push Thread s =
     (let s1 = set_thread Thread (\<lambda>t. t\<lparr>th_RunQueueNext := None\<rparr>) s
      in case gPsRunQueueTail s1 of
           None \<Rightarrow> s1\<lparr>gPsRunQueueHead := Some Thread, gPsRunQueueTail := Some Thread\<rparr>
         | Some Tail \<Rightarrow>
             (set_thread Tail (\<lambda>t. t\<lparr>th_RunQueueNext := Some Thread\<rparr>) s1)\<lparr>gPsRunQueueTail := Some Thread\<rparr>)"

definition PspRunQueuePush :: "ptr \<Rightarrow> 'a PS_GLOBALS_scheme \<Rightarrow> 'a PS_GLOBALS_scheme option" where
  "PspRunQueuePush Thread s =
     (case Thread of
        None \<Rightarrow> None
      | Some t \<Rightarrow> if th_State (gPsThreadPool s t) = PsThreadDead then None else Some (run_queue_push t s))"

definition PspRunQueuePop :: "'a PS_GLOBALS_scheme \<Rightarrow> ptr \<times> 'a PS_GLOBALS_scheme" where
  "PspRunQueuePop s =
     (case gPsRunQueueHead s of
        None \<Rightarrow> (None, s)
      | Some Thread \<Rightarrow>
          let s1 = s\<lparr>gPsRunQueueHead := th_RunQueueNext (gPsThreadPool s Thread)\<rparr>;
              s2 = (if gPsRunQueueHead s1 = None then s1\<lparr>gPsRunQueueTail := None\<rparr> else s1)
          in (Some Thread, set_thread Thread (\<lambda>t. t\<lparr>th_RunQueueNext := None\<rparr>) s2))"

subsection \<open>Threads\<close>

definition thread_stack_top :: "nat \<Rightarrow> 'a PS_GLOBALS_scheme \<Rightarrow> u64" where
  "thread_stack_top t s = link_ThreadStackPool s + of_nat t * PS_THREAD_STACK_SIZE + PS_THREAD_STACK_SIZE"

definition PsCreateKernelThread ::
    "ptr \<Rightarrow> u64 option \<Rightarrow> u64 \<Rightarrow> outptr \<Rightarrow> 'a PS_GLOBALS_scheme \<Rightarrow> (KSTATUS + nat) \<times> 'a PS_GLOBALS_scheme" where
  "PsCreateKernelThread Process StartRoutine StartContext OutThread s =
     (if \<not> gPsReady s \<or> Process = None \<or> \<not> OutThread then (Inl KSTATUS_INVALID_PARAMETER, s)
      else case PspAllocateThreadSlot True s of
        (Inl Status, s1) \<Rightarrow> (Inl Status, s1)
      | (Inr Thread, s1) \<Rightarrow>
          (case ObCreateObject (gPsThreadType s1) (Some ''thread.kernel'') OB_ACCESS_ALL OB_FLAG_WAITABLE True s1 of
             (Inl Status, s2) \<Rightarrow> (Inl Status, s2)
           | (Inr Header, s2) \<Rightarrow>
               (Inr Thread, set_thread Thread (\<lambda>t. \<lparr>th_ObjectHeader = Some Header, th_ThreadId = gPsNextThreadId s2,
                    th_OwnerProcess = Process,
                    th_Context = KiArchInitializeContext (thread_stack_top Thread s2) (link_ThreadEntryThunk s2) (th_Context t),
                    th_State = PsThreadReady, th_TimeSliceTicks = PS_DEFAULT_TIMESLICE_TICKS,
                    th_RemainingTicks = PS_DEFAULT_TIMESLICE_TICKS, th_RunQueueNext = None, th_WaitQueueNext = None,
                    th_StartRoutine = StartRoutine, th_StartContext = StartContext,
                    th_KernelStackTop = thread_stack_top Thread s2, th_IsUserThread = False, th_UserEntry = 0,
                    th_UserStackTop = 0, th_UserArg0 = 0, th_UserArg1 = 0\<rparr>)
                  (s2\<lparr>gPsNextThreadId := gPsNextThreadId s2 + 1\<rparr>))))"

definition PsCreateUserThread ::
    "ptr \<Rightarrow> u64 \<Rightarrow> u64 \<Rightarrow> u64 \<Rightarrow> u64 \<Rightarrow> outptr \<Rightarrow> 'a PS_GLOBALS_scheme \<Rightarrow>
     ((KSTATUS + nat) \<times> 'a PS_GLOBALS_scheme) option" where
  "PsCreateUserThread Process UserEntry UserStackTop UserArg0 UserArg1 OutThread s =
     (case Process of
        None \<Rightarrow> Some (Inl KSTATUS_INVALID_PARAMETER, s)
      | Some p \<Rightarrow>
          if \<not> gPsReady s \<or> \<not> OutThread then Some (Inl KSTATUS_INVALID_PARAMETER, s)
          else if UserEntry = 0 \<or> UserStackTop < 16 then Some (Inl KSTATUS_INVALID_PARAMETER, s)
          else if UserEntry \<ge> PS_USER_TOP \<or> UserStackTop \<ge> PS_USER_TOP then Some (Inl KSTATUS_ACCESS_DENIED, s)
          else case pr_AddressSpaceRoot (gPsProcessPool s p) of
            None \<Rightarrow> Some (Inl KSTATUS_INVALID_PARAMETER, s)
          | Some AddressSpace \<Rightarrow> do {
              (q1, s1) \<leftarrow> MmAsQueryPte (Some AddressSpace) (UserEntry AND NOT 0xFFF) True s;
              if \<not> (case q1 of Inl _ \<Rightarrow> False | Inr EntryPagePte \<Rightarrow>
                      has_flag EntryPagePte PS_PTE_PRESENT \<and> has_flag EntryPagePte PS_PTE_USER \<and>
                      \<not> has_flag EntryPagePte PS_PTE_NX)
              then Some (Inl KSTATUS_ACCESS_DENIED, s1)
              else do {
                (q2, s2) \<leftarrow> MmAsQueryPte (Some AddressSpace) ((UserStackTop - 1) AND NOT 0xFFF) True s1;
                if \<not> (case q2 of Inl _ \<Rightarrow> False | Inr StackPagePte \<Rightarrow>
                        has_flag StackPagePte PS_PTE_PRESENT \<and> has_flag StackPagePte PS_PTE_USER \<and>
                        has_flag StackPagePte PS_PTE_WRITABLE)
                then Some (Inl KSTATUS_ACCESS_DENIED, s2)
                else Some (case PspAllocateThreadSlot True s2 of
                  (Inl Status, s3) \<Rightarrow> (Inl Status, s3)
                | (Inr Thread, s3) \<Rightarrow>
                    (case ObCreateObject (gPsThreadType s3) (Some ''thread.user'') OB_ACCESS_ALL OB_FLAG_WAITABLE True s3 of
                       (Inl Status, s4) \<Rightarrow> (Inl Status, s4)
                     | (Inr Header, s4) \<Rightarrow>
                         (Inr Thread, set_thread Thread (\<lambda>t. \<lparr>th_ObjectHeader = Some Header,
                              th_ThreadId = gPsNextThreadId s4, th_OwnerProcess = Some p,
                              th_Context = KiArchInitializeContext (thread_stack_top Thread s4) (link_ThreadEntryThunk s4) (th_Context t),
                              th_State = PsThreadReady, th_TimeSliceTicks = PS_DEFAULT_TIMESLICE_TICKS,
                              th_RemainingTicks = PS_DEFAULT_TIMESLICE_TICKS, th_RunQueueNext = None,
                              th_WaitQueueNext = None, th_StartRoutine = None, th_StartContext = 0,
                              th_KernelStackTop = thread_stack_top Thread s4, th_IsUserThread = True,
                              th_UserEntry = UserEntry, th_UserStackTop = UserStackTop AND NOT 0x0F,
                              th_UserArg0 = UserArg0, th_UserArg1 = UserArg1\<rparr>)
                            (s4\<lparr>gPsNextThreadId := gPsNextThreadId s4 + 1\<rparr>)))) } })"

subsection \<open>Scheduling\<close>

definition PsReadyThread :: "ptr \<Rightarrow> 'a PS_GLOBALS_scheme \<Rightarrow> (KSTATUS \<times> 'a PS_GLOBALS_scheme) option" where
  "PsReadyThread Thread s =
     (case Thread of
        None \<Rightarrow> Some (KSTATUS_INVALID_PARAMETER, s)
      | Some t \<Rightarrow>
          if \<not> gPsReady s then Some (KSTATUS_INVALID_PARAMETER, s)
          else if th_State (gPsThreadPool s t) = PsThreadDead then Some (KSTATUS_INVALID_PARAMETER, s)
          else do {
            s1 \<leftarrow> PspRunQueuePush (Some t) (set_thread t (\<lambda>x. x\<lparr>th_State := PsThreadReady\<rparr>) s);
            Some (KSTATUS_SUCCESS, s1) })"

text \<open>The last step of \<^verbatim>\<open>PsDispatch\<close>: the switch from the previous thread, if there is one.\<close>

definition switch_threads :: "ptr \<Rightarrow> nat \<Rightarrow> 'a PS_GLOBALS_scheme \<Rightarrow> 'a PS_GLOBALS_scheme" where
  "switch_threads PreviousThread NextThread s =
     (case PreviousThread of
        None \<Rightarrow> s
      | Some p \<Rightarrow>
          if p \<noteq> NextThread then
            (case KiArchSwitchContext (link_SwitchResume s) (Some (th_Context (gPsThreadPool s p)))
                    (Some (th_Context (gPsThreadPool s NextThread))) (hw_cpu s) of
               (saved, cpu) \<Rightarrow> (set_thread p (\<lambda>x. x\<lparr>th_Context := the saved\<rparr>) s)\<lparr>hw_cpu := cpu\<rparr>)
          else s)"

definition PsDispatch :: "'a PS_GLOBALS_scheme \<Rightarrow> (KSTATUS \<times> 'a PS_GLOBALS_scheme) option" where
  "PsDispatch s =
     (if \<not> gPsReady s then Some (KSTATUS_INVALID_PARAMETER, s)
      else case PspRunQueuePop s of
        (None, s1) \<Rightarrow> Some (KSTATUS_INIT_FAILED, s1)
      | (Some NextThread, s1) \<Rightarrow>
          if th_OwnerProcess (gPsThreadPool s1 NextThread) = None then None
          else
            let PreviousThread = gPsCurrentThread s1 in do {
              s2 \<leftarrow> (case PreviousThread of
                 None \<Rightarrow> Some s1
               | Some p \<Rightarrow>
                   if th_State (gPsThreadPool s1 p) = PsThreadRunning
                   then PspRunQueuePush (Some p) (set_thread p (\<lambda>x. x\<lparr>th_State := PsThreadReady\<rparr>) s1)
                   else Some s1);
              let s3 = set_thread NextThread (\<lambda>x. x\<lparr>th_State := PsThreadRunning, th_RemainingTicks := th_TimeSliceTicks x\<rparr>) s2;
              let s4 = HalSetKernelStackPointer (th_KernelStackTop (gPsThreadPool s3 NextThread))
                         (s3\<lparr>gPsCurrentThread := Some NextThread\<rparr>);
              let s5 = (case th_OwnerProcess (gPsThreadPool s4 NextThread) of
                          None \<Rightarrow> s4
                        | Some pr \<Rightarrow>
                            if pr_AddressSpaceRoot (gPsProcessPool s4 pr) \<noteq> None
                            then snd (MmActivateAddressSpace (pr_AddressSpaceRoot (gPsProcessPool s4 pr)) s4)
                            else s4);
              Some (KSTATUS_SUCCESS, switch_threads PreviousThread NextThread s5) })"

definition PsYieldThread :: "'a PS_GLOBALS_scheme \<Rightarrow> (KSTATUS \<times> 'a PS_GLOBALS_scheme) option" where
  "PsYieldThread s =
     (case gPsCurrentThread s of
        None \<Rightarrow> Some (KSTATUS_INVALID_PARAMETER, s)
      | Some c \<Rightarrow>
          if \<not> gPsReady s then Some (KSTATUS_INVALID_PARAMETER, s)
          else if th_State (gPsThreadPool s c) \<noteq> PsThreadRunning then None
          else PsDispatch (s\<lparr>gPsReschedulePending := False\<rparr>))"

definition PsExitCurrentThread :: "u64 \<Rightarrow> 'a PS_GLOBALS_scheme \<Rightarrow> (KSTATUS \<times> 'a PS_GLOBALS_scheme) option" where
  "PsExitCurrentThread ExitCode s =
     (case gPsCurrentThread s of
        None \<Rightarrow> Some (KSTATUS_INVALID_PARAMETER, s)
      | Some c \<Rightarrow>
          if \<not> gPsReady s then Some (KSTATUS_INVALID_PARAMETER, s)
          else PsDispatch ((set_thread c (\<lambda>x. x\<lparr>th_State := PsThreadDead\<rparr>) s)\<lparr>gPsCurrentThread := None\<rparr>))"

definition PsBlockCurrentThread :: "'a PS_GLOBALS_scheme \<Rightarrow> (KSTATUS \<times> 'a PS_GLOBALS_scheme) option" where
  "PsBlockCurrentThread s =
     (case gPsCurrentThread s of
        None \<Rightarrow> Some (KSTATUS_INVALID_PARAMETER, s)
      | Some c \<Rightarrow>
          if \<not> gPsReady s then Some (KSTATUS_INVALID_PARAMETER, s)
          else PsDispatch ((set_thread c (\<lambda>x. x\<lparr>th_State := PsThreadBlocked\<rparr>) s)\<lparr>gPsCurrentThread := None\<rparr>))"

definition PsWakeThread :: "ptr \<Rightarrow> 'a PS_GLOBALS_scheme \<Rightarrow> 'a PS_GLOBALS_scheme option" where
  "PsWakeThread Thread s =
     (case Thread of
        None \<Rightarrow> Some s
      | Some t \<Rightarrow>
          if \<not> gPsReady s then Some s
          else if th_State (gPsThreadPool s t) = PsThreadBlocked
          then PspRunQueuePush (Some t) (set_thread t (\<lambda>x. x\<lparr>th_State := PsThreadReady\<rparr>) s)
          else Some s)"

definition PsOnTimerTick :: "'a PS_GLOBALS_scheme \<Rightarrow> 'a PS_GLOBALS_scheme" where
  "PsOnTimerTick s =
     (case gPsCurrentThread s of
        None \<Rightarrow> s
      | Some c \<Rightarrow>
          if \<not> gPsReady s then s
          else
            let s1 = (if th_RemainingTicks (gPsThreadPool s c) > 0
                      then set_thread c (\<lambda>x. x\<lparr>th_RemainingTicks := th_RemainingTicks x - 1\<rparr>) s else s)
            in if th_RemainingTicks (gPsThreadPool s1 c) = 0 then s1\<lparr>gPsReschedulePending := True\<rparr> else s1)"

definition PsHandlePreemptionPoint :: "'a PS_GLOBALS_scheme \<Rightarrow> 'a PS_GLOBALS_scheme option" where
  "PsHandlePreemptionPoint s =
     (if \<not> gPsReady s \<or> \<not> gPsReschedulePending s then Some s else map_option snd (PsYieldThread s))"

definition PsGetCurrentThread :: "'a PS_GLOBALS_scheme \<Rightarrow> ptr" where
  "PsGetCurrentThread s = gPsCurrentThread s"

definition PsGetCurrentProcess :: "'a PS_GLOBALS_scheme \<Rightarrow> ptr" where
  "PsGetCurrentProcess s =
     (case gPsCurrentThread s of None \<Rightarrow> None | Some t \<Rightarrow> th_OwnerProcess (gPsThreadPool s t))"

text \<open>One iteration of \<^verbatim>\<open>PspThreadEntryThunk\<close>.  Entering user mode leaves the kernel; a start
  routine is run by the caller's \<open>call\<close>, which receives its address and its context.\<close>

datatype 's thunk_result =
    ThunkHalted
  | ThunkUserMode u64 u64 u64 u64 's
  | ThunkDispatched KSTATUS 's

definition PspThreadEntryThunk_iteration ::
    "(u64 \<Rightarrow> u64 \<Rightarrow> 'a PS_GLOBALS_scheme \<Rightarrow> 'a PS_GLOBALS_scheme option) \<Rightarrow> 'a PS_GLOBALS_scheme \<Rightarrow>
     'a PS_GLOBALS_scheme thunk_result" where
  "PspThreadEntryThunk_iteration call s =
     (case gPsCurrentThread s of
        None \<Rightarrow> ThunkHalted
      | Some c \<Rightarrow>
          if th_IsUserThread (gPsThreadPool s c)
          then ThunkUserMode (th_UserEntry (gPsThreadPool s c)) (th_UserStackTop (gPsThreadPool s c))
                 (th_UserArg0 (gPsThreadPool s c)) (th_UserArg1 (gPsThreadPool s c)) s
          else
            (case (case th_StartRoutine (gPsThreadPool s c) of
                     None \<Rightarrow> Some s
                   | Some f \<Rightarrow>
                       call f (th_StartContext (gPsThreadPool s c))
                         (set_thread c (\<lambda>x. x\<lparr>th_StartRoutine := None, th_StartContext := 0\<rparr>) s)) of
               None \<Rightarrow> ThunkHalted
             | Some s1 \<Rightarrow>
                 (case PsDispatch (set_thread c (\<lambda>x. x\<lparr>th_State := PsThreadDead\<rparr>) s1) of
                    None \<Rightarrow> ThunkHalted
                  | Some (st, s2) \<Rightarrow> ThunkDispatched st s2)))"

subsection \<open>Initialisation\<close>

definition PsInitialize_reset :: "'a PS_GLOBALS_scheme \<Rightarrow> 'a PS_GLOBALS_scheme" where
  "PsInitialize_reset s =
     s\<lparr>gPsProcessInUse := array_fill PS_MAX_PROCESSES False (gPsProcessInUse s),
       gPsThreadInUse := array_fill PS_MAX_THREADS False (gPsThreadInUse s),
       gPsNextProcessId := 1, gPsNextThreadId := 1, gPsRunQueueHead := None, gPsRunQueueTail := None,
       gPsCurrentThread := None, gPsReschedulePending := False\<rparr>"

text \<open>\<^verbatim>\<open>ObCreateType\<close> never reports \<^verbatim>\<open>KSTATUS_ALREADY_INITIALIZED\<close> together with a type, so the
  status the code tolerates leaves the type pointer as it was.\<close>

definition PsInitialize_type ::
    "string \<Rightarrow> OB_DELETE_ROUTINE \<Rightarrow> (ptr \<Rightarrow> 'a PS_GLOBALS_scheme \<Rightarrow> 'a PS_GLOBALS_scheme) \<Rightarrow>
     'a PS_GLOBALS_scheme \<Rightarrow> KSTATUS \<times> 'a PS_GLOBALS_scheme" where
  "PsInitialize_type Name Routine store s =
     (case ObCreateType (Some Name) (Some Routine) True s of
        (Inl Status, s1) \<Rightarrow> (if Status \<noteq> KSTATUS_ALREADY_INITIALIZED then Status else KSTATUS_SUCCESS, s1)
      | (Inr ty, s1) \<Rightarrow> (KSTATUS_SUCCESS, store (Some ty) s1))"

definition PsInitialize :: "'a PS_GLOBALS_scheme \<Rightarrow> (KSTATUS \<times> 'a PS_GLOBALS_scheme) option" where
  "PsInitialize s =
     (if gPsReady s then Some (KSTATUS_ALREADY_INITIALIZED, s)
      else
        let (st1, s1) = PsInitialize_type ''Process'' PspProcessDeleteRoutine_ptr
                          (\<lambda>ty x. x\<lparr>gPsProcessType := ty\<rparr>) (PsInitialize_reset s)
        in if st1 \<noteq> KSTATUS_SUCCESS then Some (st1, s1)
           else
             let (st2, s2) = PsInitialize_type ''Thread'' PspThreadDeleteRoutine_ptr (\<lambda>ty x. x\<lparr>gPsThreadType := ty\<rparr>) s1
             in if st2 \<noteq> KSTATUS_SUCCESS then Some (st2, s2)
                else do {
                  (st3, s3) \<leftarrow> PspCreateSystemProcess s2;
                  if st3 \<noteq> KSTATUS_SUCCESS then Some (st3, s3)
                  else case PsCreateKernelThread (gPsSystemProcess s3) None 0 True (s3\<lparr>gPsReady := True\<rparr>) of
                    (Inl Status, s4) \<Rightarrow> Some (Status, s4\<lparr>gPsReady := False\<rparr>)
                  | (Inr BootstrapThread, s4) \<Rightarrow> do {
                      (st5, s5) \<leftarrow> PsReadyThread (Some BootstrapThread) s4;
                      if st5 \<noteq> KSTATUS_SUCCESS then Some (st5, s5\<lparr>gPsReady := False\<rparr>)
                      else do {
                        (st6, s6) \<leftarrow> PsDispatch (HalRegisterTimerTickRoutine (Some PsOnTimerTick_ptr) s5);
                        if st6 \<noteq> KSTATUS_SUCCESS then Some (st6, s6\<lparr>gPsReady := False\<rparr>)
                        else Some (KSTATUS_SUCCESS, s6) } } })"

subsection \<open>Diagnostics\<close>

definition PspWriteHexLine :: "string \<Rightarrow> u64 \<Rightarrow> string option" where
  "PspWriteHexLine Prefix Value = ObpWriteHexLine 128 Prefix Value"

text \<open>\<^verbatim>\<open>sizeof(MM_ADDRESS_SPACE)\<close> is 7208.\<close>

definition as_address :: "ptr \<Rightarrow> 'a PS_GLOBALS_scheme \<Rightarrow> u64" where
  "as_address a s = (case a of None \<Rightarrow> 0 | Some i \<Rightarrow> link_AddressSpacePool s + of_nat i * 7208)"

definition pid_line :: "string \<Rightarrow> nat \<Rightarrow> 'a PS_GLOBALS_scheme \<Rightarrow> string option" where
  "pid_line Prefix t s =
     (case th_OwnerProcess (gPsThreadPool s t) of
        None \<Rightarrow> Some [] | Some p \<Rightarrow> PspWriteHexLine Prefix (pr_ProcessId (gPsProcessPool s p)))"

text \<open>The walk along the run queue; it does not return when the links form a cycle.\<close>

partial_function (option) dump_run_queue :: "ptr \<Rightarrow> 'a PS_GLOBALS_scheme \<Rightarrow> string option" where
  "dump_run_queue Cursor s =
     (case Cursor of
        None \<Rightarrow> Some []
      | Some t \<Rightarrow> do {
          l1 \<leftarrow> PspWriteHexLine ''[PSDBG] runq.tid='' (th_ThreadId (gPsThreadPool s t));
          l2 \<leftarrow> pid_line ''[PSDBG] runq.pid='' t s;
          l3 \<leftarrow> PspWriteHexLine ''[PSDBG] runq.state='' (thread_state_value (th_State (gPsThreadPool s t)));
          rest \<leftarrow> dump_run_queue (th_RunQueueNext (gPsThreadPool s t)) s;
          Some (l1 @ l2 @ l3 @ rest) })"

definition dump_process :: "'a PS_GLOBALS_scheme \<Rightarrow> nat \<Rightarrow> string option" where
  "dump_process s i =
     (if \<not> gPsProcessInUse s i then Some []
      else do {
        l1 \<leftarrow> PspWriteHexLine ''[PSDBG] proc.pid='' (pr_ProcessId (gPsProcessPool s i));
        l2 \<leftarrow> PspWriteHexLine ''[PSDBG] proc.as='' (as_address (pr_AddressSpaceRoot (gPsProcessPool s i)) s);
        Some (l1 @ l2 @ (case pr_ObjectHeader (gPsProcessPool s i) of
                           None \<Rightarrow> []
                         | Some h \<Rightarrow> ''[PSDBG] proc.name='' @ c_str (oh_Name (ob_object s h)) @ [CHR 0x0A])) })"

definition dump_thread :: "'a PS_GLOBALS_scheme \<Rightarrow> nat \<Rightarrow> string option" where
  "dump_thread s i =
     (if \<not> gPsThreadInUse s i then Some []
      else do {
        l1 \<leftarrow> PspWriteHexLine ''[PSDBG] thread.tid='' (th_ThreadId (gPsThreadPool s i));
        l2 \<leftarrow> PspWriteHexLine ''[PSDBG] thread.state='' (thread_state_value (th_State (gPsThreadPool s i)));
        l3 \<leftarrow> PspWriteHexLine ''[PSDBG] thread.user='' (of_bool (th_IsUserThread (gPsThreadPool s i)));
        l4 \<leftarrow> pid_line ''[PSDBG] thread.pid='' i s;
        Some (l1 @ l2 @ l3 @ l4) })"

definition PsDumpSchedulerState :: "'a PS_GLOBALS_scheme \<Rightarrow> string option" where
  "PsDumpSchedulerState s =
     (if \<not> gPsReady s then Some []
      else do {
        cur \<leftarrow> (case gPsCurrentThread s of
                  None \<Rightarrow> Some (''[PSDBG] current=<none>'' @ [CHR 0x0A])
                | Some c \<Rightarrow> do {
                    l1 \<leftarrow> PspWriteHexLine ''[PSDBG] current.tid='' (th_ThreadId (gPsThreadPool s c));
                    l2 \<leftarrow> PspWriteHexLine ''[PSDBG] current.state='' (thread_state_value (th_State (gPsThreadPool s c)));
                    l3 \<leftarrow> pid_line ''[PSDBG] current.pid='' c s;
                    Some (l1 @ l2 @ l3) });
        rq \<leftarrow> dump_run_queue (gPsRunQueueHead s) s;
        ps \<leftarrow> concat_lines (dump_process s) [0..<PS_MAX_PROCESSES];
        ts \<leftarrow> concat_lines (dump_thread s) [0..<PS_MAX_THREADS];
        Some (''[PSDBG] scheduler begin'' @ [CHR 0x0A] @ cur @ rq @ ps @ ts @
              ''[PSDBG] scheduler end'' @ [CHR 0x0A]) })"

end
