(* ===== verification/NtxSched.thy ===== *)
theory NtxSched
  imports NtxPs
begin

text \<open>
  Correctness of the scheduler of \<^verbatim>\<open>kernel/ps/init.c\<close>: its state invariant over every sequence of
  operations, the order in which threads run, the time slice, and what a context switch saves.
\<close>

section \<open>Specification\<close>

abbreviation thread :: "'a PS_GLOBALS_scheme \<Rightarrow> nat \<Rightarrow> KTHREAD" where
  "thread s t \<equiv> gPsThreadPool s t"

abbreviation run_next :: "'a PS_GLOBALS_scheme \<Rightarrow> nat \<Rightarrow> ptr" where
  "run_next s t \<equiv> th_RunQueueNext (gPsThreadPool s t)"

definition runnable :: "'a PS_GLOBALS_scheme \<Rightarrow> nat \<Rightarrow> bool" where
  "runnable s t \<longleftrightarrow> t < PS_MAX_THREADS \<and> gPsThreadInUse s t \<and> th_OwnerProcess (thread s t) \<noteq> None"

text \<open>\<open>sched s q\<close>: the run queue holds exactly the threads \<open>q\<close>, all ready; the running thread, if any,
  is the current one and is not queued; blocked threads are not queued and can be queued again.\<close>

definition sched :: "'a PS_GLOBALS_scheme \<Rightarrow> nat list \<Rightarrow> bool" where
  "sched s q \<longleftrightarrow> gPsReady s \<and> queue_list (run_next s) (gPsRunQueueHead s) (gPsRunQueueTail s) q \<and>
     (\<forall>t\<in>set q. runnable s t \<and> th_State (thread s t) = PsThreadReady) \<and>
     (\<forall>t. th_State (thread s t) = PsThreadRunning \<longleftrightarrow> gPsCurrentThread s = Some t) \<and>
     (\<forall>t. gPsCurrentThread s = Some t \<or> th_State (thread s t) = PsThreadBlocked \<longrightarrow> runnable s t)"

text \<open>The operations the kernel performs on the scheduler.  A thread is only ever made ready right
  after it was created.\<close>

inductive sched_step :: "'a PS_GLOBALS_scheme \<Rightarrow> 'a PS_GLOBALS_scheme \<Rightarrow> bool" where
  yield: "PsYieldThread s = Some (st, t) \<Longrightarrow> sched_step s t"
| exit: "PsExitCurrentThread code s = Some (st, t) \<Longrightarrow> sched_step s t"
| block: "PsBlockCurrentThread s = Some (st, t) \<Longrightarrow> sched_step s t"
| wake: "PsWakeThread th s = Some t \<Longrightarrow> sched_step s t"
| tick: "sched_step s (PsOnTimerTick s)"
| preempt: "PsHandlePreemptionPoint s = Some t \<Longrightarrow> sched_step s t"
| start: "PsCreateKernelThread pr f c True s = (Inr th, s1) \<Longrightarrow> PsReadyThread (Some th) s1 = Some (st, t) \<Longrightarrow>
    sched_step s t"

section \<open>The run queue is a linked queue\<close>

lemma set_thread_simps [simp]:
  "gPsThreadPool (set_thread t f s) = (gPsThreadPool s)(t := f (gPsThreadPool s t))"
  "gPsThreadInUse (set_thread t f s) = gPsThreadInUse s" "gPsReady (set_thread t f s) = gPsReady s"
  "gPsCurrentThread (set_thread t f s) = gPsCurrentThread s" "gPsRunQueueHead (set_thread t f s) = gPsRunQueueHead s"
  "gPsRunQueueTail (set_thread t f s) = gPsRunQueueTail s" "hw_cpu (set_thread t f s) = hw_cpu s"
  "gPsProcessPool (set_thread t f s) = gPsProcessPool s" "link_SwitchResume (set_thread t f s) = link_SwitchResume s"
  "gPsReschedulePending (set_thread t f s) = gPsReschedulePending s"
  by (simp_all add: set_thread_def)

interpretation psq: linked_queue "run_next" gPsRunQueueHead gPsRunQueueTail run_queue_push PspRunQueuePop
  by unfold_locales
    (auto simp: run_queue_push_def PspRunQueuePop_def Let_def fun_eq_iff split: option.splits)

text \<open>What pushing and popping leave alone: everything but the links and the two ends.\<close>

definition link_frame :: "'a PS_GLOBALS_scheme \<Rightarrow> 'a PS_GLOBALS_scheme \<Rightarrow> bool" where
  "link_frame s t \<longleftrightarrow> gPsReady t = gPsReady s \<and> gPsCurrentThread t = gPsCurrentThread s \<and> gPsThreadInUse t = gPsThreadInUse s \<and>
     gPsProcessPool t = gPsProcessPool s \<and> hw_cpu t = hw_cpu s \<and> link_SwitchResume t = link_SwitchResume s \<and>
     gPsReschedulePending t = gPsReschedulePending s \<and>
     (\<forall>x. \<exists>n. thread t x = (thread s x)\<lparr>th_RunQueueNext := n\<rparr>)"

lemma link_frame_thread:
  assumes "link_frame s t"
  shows "th_State (thread t x) = th_State (thread s x)" "th_OwnerProcess (thread t x) = th_OwnerProcess (thread s x)"
    "th_Context (thread t x) = th_Context (thread s x)" "runnable t x = runnable s x"
    "th_RemainingTicks (thread t x) = th_RemainingTicks (thread s x)" "th_TimeSliceTicks (thread t x) = th_TimeSliceTicks (thread s x)"
proof -
  from assms obtain n where "thread t x = (thread s x)\<lparr>th_RunQueueNext := n\<rparr>" unfolding link_frame_def by blast
  with assms show "th_State (thread t x) = th_State (thread s x)" "th_OwnerProcess (thread t x) = th_OwnerProcess (thread s x)"
    "th_Context (thread t x) = th_Context (thread s x)" "runnable t x = runnable s x"
    "th_RemainingTicks (thread t x) = th_RemainingTicks (thread s x)" "th_TimeSliceTicks (thread t x) = th_TimeSliceTicks (thread s x)"
    by (simp_all add: link_frame_def runnable_def)
qed

lemma thread_link_refl: "\<exists>n. thread s x = (thread s x)\<lparr>th_RunQueueNext := n\<rparr>"
  by (intro exI [of _ "run_next s x"]) simp

lemma push_frame: "link_frame s (run_queue_push x s)"
  using thread_link_refl [of s]
  by (auto simp: link_frame_def run_queue_push_def Let_def split: option.splits)

lemmas push_thread [simp] = link_frame_thread [OF push_frame]

lemma push_simps [simp]:
  "gPsReady (run_queue_push x s) = gPsReady s" "gPsCurrentThread (run_queue_push x s) = gPsCurrentThread s"
  "gPsThreadInUse (run_queue_push x s) = gPsThreadInUse s" "hw_cpu (run_queue_push x s) = hw_cpu s"
  "link_SwitchResume (run_queue_push x s) = link_SwitchResume s"
  "gPsReschedulePending (run_queue_push x s) = gPsReschedulePending s"
  using push_frame [of s x] by (simp_all add: link_frame_def)

lemma pop_frame: "PspRunQueuePop s = (r, t) \<Longrightarrow> link_frame s t"
  using thread_link_refl [of s]
  by (auto simp: link_frame_def PspRunQueuePop_def Let_def split: option.splits if_splits)

section \<open>Each operation keeps the invariant\<close>

text \<open>Queueing a thread that is neither queued, running nor blocked.\<close>

lemma push_sched:
  assumes "sched s q" "runnable s x" "th_State (thread s x) = PsThreadReady" "x \<notin> set q"
  shows "sched (run_queue_push x s) (q @ [x])"
  using assms psq.push_queue [of s q x] link_frame_thread [OF push_frame [of s x]] push_frame [of s x]
  by (auto simp: sched_def link_frame_def)

lemma activate_shape: "\<exists>cr. snd (MmActivateAddressSpace a s) = s\<lparr>hw_cr3 := cr\<rparr>"
proof (cases "\<exists>i. a = Some i \<and> gMmReady s \<and> MmpReadCr3 s AND MM_PTE_ADDR_MASK \<noteq> as_RootTablePhysical (gMmAddressSpacePool s i)")
  case True
  then show ?thesis by (auto simp: MmActivateAddressSpace_def MmpWriteCr3_def Let_def)
next
  case False
  then have "snd (MmActivateAddressSpace a s) = s" by (auto simp: MmActivateAddressSpace_def Let_def split: option.splits)
  then show ?thesis by (intro exI [of _ "hw_cr3 s"]) simp
qed

text \<open>The part of the dispatcher after the run queue has been rearranged.\<close>

definition make_current :: "nat \<Rightarrow> ptr \<Rightarrow> 'a PS_GLOBALS_scheme \<Rightarrow> 'a PS_GLOBALS_scheme" where
  "make_current x prev s =
     (let s3 = set_thread x (\<lambda>y. y\<lparr>th_State := PsThreadRunning, th_RemainingTicks := th_TimeSliceTicks y\<rparr>) s;
          s4 = HalSetKernelStackPointer (th_KernelStackTop (gPsThreadPool s3 x)) (s3\<lparr>gPsCurrentThread := Some x\<rparr>);
          s5 = (case th_OwnerProcess (gPsThreadPool s4 x) of
                  None \<Rightarrow> s4
                | Some pr \<Rightarrow>
                    if pr_AddressSpaceRoot (gPsProcessPool s4 pr) \<noteq> None
                    then snd (MmActivateAddressSpace (pr_AddressSpaceRoot (gPsProcessPool s4 pr)) s4) else s4)
      in switch_threads prev x s5)"

lemma make_current_effect:
  assumes "prev \<noteq> Some x"
  shows "thread (make_current x prev s) y =
    (let z = (if y = x then (thread s y)\<lparr>th_State := PsThreadRunning, th_RemainingTicks := th_TimeSliceTicks (thread s y)\<rparr> else thread s y)
     in if prev = Some y then z\<lparr>th_Context := (hw_cpu s)\<lparr>ctx_Rip := link_SwitchResume s\<rparr>\<rparr> else z)"
    "gPsCurrentThread (make_current x prev s) = Some x" "gPsReady (make_current x prev s) = gPsReady s"
    "gPsThreadInUse (make_current x prev s) = gPsThreadInUse s" "gPsRunQueueHead (make_current x prev s) = gPsRunQueueHead s"
    "gPsRunQueueTail (make_current x prev s) = gPsRunQueueTail s" "link_SwitchResume (make_current x prev s) = link_SwitchResume s"
    "hw_cpu (make_current x prev s) = (if prev = None then hw_cpu s else th_Context (thread s x))"
    "gPsReschedulePending (make_current x prev s) = gPsReschedulePending s"
proof -
  define s3 where "s3 = set_thread x (\<lambda>y. y\<lparr>th_State := PsThreadRunning, th_RemainingTicks := th_TimeSliceTicks y\<rparr>) s"
  define s4 where "s4 = HalSetKernelStackPointer (th_KernelStackTop (thread s3 x)) (s3\<lparr>gPsCurrentThread := Some x\<rparr>)"
  have "\<exists>cr. (case th_OwnerProcess (gPsThreadPool s4 x) of
                  None \<Rightarrow> s4
                | Some pr \<Rightarrow>
                    if pr_AddressSpaceRoot (gPsProcessPool s4 pr) \<noteq> None
                    then snd (MmActivateAddressSpace (pr_AddressSpaceRoot (gPsProcessPool s4 pr)) s4) else s4) = s4\<lparr>hw_cr3 := cr\<rparr>"
    using activate_shape [where s = s4] exI [of "\<lambda>cr. s4 = s4\<lparr>hw_cr3 := cr\<rparr>" "hw_cr3 s4"]
    by (auto split: option.splits)
  then obtain cr where mc: "make_current x prev s = switch_threads prev x (s4\<lparr>hw_cr3 := cr\<rparr>)"
    unfolding make_current_def Let_def s3_def [symmetric] s4_def [symmetric] by auto
  show "thread (make_current x prev s) y =
    (let z = (if y = x then (thread s y)\<lparr>th_State := PsThreadRunning, th_RemainingTicks := th_TimeSliceTicks (thread s y)\<rparr> else thread s y)
     in if prev = Some y then z\<lparr>th_Context := (hw_cpu s)\<lparr>ctx_Rip := link_SwitchResume s\<rparr>\<rparr> else z)"
    "gPsCurrentThread (make_current x prev s) = Some x" "gPsReady (make_current x prev s) = gPsReady s"
    "gPsThreadInUse (make_current x prev s) = gPsThreadInUse s" "gPsRunQueueHead (make_current x prev s) = gPsRunQueueHead s"
    "gPsRunQueueTail (make_current x prev s) = gPsRunQueueTail s" "link_SwitchResume (make_current x prev s) = link_SwitchResume s"
    "hw_cpu (make_current x prev s) = (if prev = None then hw_cpu s else th_Context (thread s x))"
    "gPsReschedulePending (make_current x prev s) = gPsReschedulePending s"
    using assms
    by (auto simp: mc switch_threads_def KiArchSwitchContext_def s4_def s3_def HalSetKernelStackPointer_def HalpSetKernelRsp0_def
        set_thread_def Let_def split: option.splits)
qed

lemma dispatch_unfold:
  assumes "gPsReady s" "PspRunQueuePop s = (Some x, s1)" "th_OwnerProcess (thread s1 x) \<noteq> None"
    and "\<And>c. gPsCurrentThread s1 = Some c \<Longrightarrow> th_State (thread s1 c) = PsThreadRunning"
  shows "PsDispatch s = Some (KSTATUS_SUCCESS, make_current x (gPsCurrentThread s1)
    (case gPsCurrentThread s1 of None \<Rightarrow> s1
     | Some c \<Rightarrow> run_queue_push c (set_thread c (\<lambda>y. y\<lparr>th_State := PsThreadReady\<rparr>) s1)))"
  using assms by (cases "gPsCurrentThread s1") (auto simp: PsDispatch_def make_current_def PspRunQueuePush_def Let_def)

lemma current_not_queued: "sched s q \<Longrightarrow> gPsCurrentThread s = Some c \<Longrightarrow> c \<notin> set q"
  unfolding sched_def by (metis PS_THREAD_STATE.distinct(1))

text \<open>The dispatcher: an empty queue changes nothing; otherwise the head of the queue becomes current,
  a thread that was running goes to the end of the queue with its registers saved, and its registers
  are replaced by those of the new thread.\<close>

lemma dispatch_empty: "sched s [] \<Longrightarrow> PsDispatch s = Some (KSTATUS_INIT_FAILED, s)"
  using psq.pop_queue_Nil [of s] by (auto simp: sched_def PsDispatch_def)

definition switched :: "'a PS_GLOBALS_scheme \<Rightarrow> nat \<Rightarrow> 'a PS_GLOBALS_scheme \<Rightarrow> bool" where
  "switched s x t \<longleftrightarrow> gPsCurrentThread t = Some x \<and> link_SwitchResume t = link_SwitchResume s \<and>
     gPsThreadInUse t = gPsThreadInUse s \<and> gPsReschedulePending t = gPsReschedulePending s \<and>
     th_RemainingTicks (thread t x) = th_TimeSliceTicks (thread s x) \<and>
     (\<forall>y. th_OwnerProcess (thread t y) = th_OwnerProcess (thread s y) \<and>
          th_TimeSliceTicks (thread t y) = th_TimeSliceTicks (thread s y)) \<and>
     (\<forall>y. th_Context (thread t y) =
        (if gPsCurrentThread s = Some y then (hw_cpu s)\<lparr>ctx_Rip := link_SwitchResume s\<rparr> else th_Context (thread s y))) \<and>
     (\<forall>y. th_State (thread t y) = (if y = x then PsThreadRunning
        else if gPsCurrentThread s = Some y then PsThreadReady else th_State (thread s y))) \<and>
     hw_cpu t = (if gPsCurrentThread s = None then hw_cpu s else th_Context (thread s x))"

lemma dispatch_sched:
  assumes inv: "sched s (x # xs)"
  shows "\<exists>t. PsDispatch s = Some (KSTATUS_SUCCESS, t) \<and> switched s x t \<and>
    sched t (xs @ (case gPsCurrentThread s of None \<Rightarrow> [] | Some c \<Rightarrow> [c]))"
proof -
  from inv have r: "gPsReady s" and q: "queue_list (run_next s) (gPsRunQueueHead s) (gPsRunQueueTail s) (x # xs)"
    and run: "\<And>y. y \<in> set (x # xs) \<Longrightarrow> runnable s y \<and> th_State (thread s y) = PsThreadReady"
    and cur: "\<And>y. th_State (thread s y) = PsThreadRunning \<longleftrightarrow> gPsCurrentThread s = Some y"
    and ok: "\<And>y. gPsCurrentThread s = Some y \<or> th_State (thread s y) = PsThreadBlocked \<Longrightarrow> runnable s y"
    by (auto simp: sched_def)
  obtain s1 where pop: "PspRunQueuePop s = (Some x, s1)"
    and q1: "queue_list (run_next s1) (gPsRunQueueHead s1) (gPsRunQueueTail s1) xs"
    using psq.pop_queue [OF q] by (metis prod.collapse)
  note f1 = pop_frame [OF pop] link_frame_thread [OF pop_frame [OF pop]]
  have c1: "gPsCurrentThread s1 = gPsCurrentThread s" "gPsReady s1" "hw_cpu s1 = hw_cpu s"
    "link_SwitchResume s1 = link_SwitchResume s" "gPsThreadInUse s1 = gPsThreadInUse s"
    "gPsReschedulePending s1 = gPsReschedulePending s" using f1(1) r by (simp_all add: link_frame_def)
  have d: "distinct (x # xs)" using q by (simp add: queue_list_def)
  define s2 where "s2 = (case gPsCurrentThread s1 of None \<Rightarrow> s1
     | Some c \<Rightarrow> run_queue_push c (set_thread c (\<lambda>y. y\<lparr>th_State := PsThreadReady\<rparr>) s1))"
  define t where "t = make_current x (gPsCurrentThread s1) s2"
  have res: "PsDispatch s = Some (KSTATUS_SUCCESS, t)"
    unfolding t_def s2_def using r pop run [of x] c1(1) cur f1 by (intro dispatch_unfold) (auto simp: runnable_def)
  have nx: "gPsCurrentThread s \<noteq> Some x" using run [of x] cur [of x] by auto
  note eff = make_current_effect [of "gPsCurrentThread s1" x s2, folded t_def, unfolded c1(1), OF nx]
  have q2: "queue_list (run_next s2) (gPsRunQueueHead s2) (gPsRunQueueTail s2)
      (xs @ (case gPsCurrentThread s of None \<Rightarrow> [] | Some c \<Rightarrow> [c]))"
  proof (cases "gPsCurrentThread s")
    case (Some c)
    let ?s = "set_thread c (\<lambda>y. y\<lparr>th_State := PsThreadReady\<rparr>) s1"
    have "queue_list (run_next ?s) (gPsRunQueueHead ?s) (gPsRunQueueTail ?s) xs"
      using queue_list_cong_set [OF q1, of "run_next ?s"] by simp
    moreover have "c \<notin> set xs" using current_not_queued [OF inv Some] by simp
    ultimately show ?thesis using psq.push_queue [of ?s xs c] Some c1(1) by (simp add: s2_def)
  qed (use q1 c1(1) in \<open>simp add: s2_def\<close>)
  have th2: "th_State (thread s2 y) = (if gPsCurrentThread s = Some y then PsThreadReady else th_State (thread s y))"
    "th_OwnerProcess (thread s2 y) = th_OwnerProcess (thread s y)" "th_Context (thread s2 y) = th_Context (thread s y)"
    "th_TimeSliceTicks (thread s2 y) = th_TimeSliceTicks (thread s y)" for y
    using f1 c1(1) by (auto simp: s2_def split: option.splits)
  have g2: "gPsReady s2" "gPsThreadInUse s2 = gPsThreadInUse s" "hw_cpu s2 = hw_cpu s"
    "link_SwitchResume s2 = link_SwitchResume s" "gPsReschedulePending s2 = gPsReschedulePending s"
    using c1 by (auto simp: s2_def split: option.splits)
  have sw: "switched s x t"
    unfolding switched_def using eff th2 g2 nx by (auto simp: Let_def)
  have "run_next t y = run_next s2 y" for y using eff(1) [of y] by (auto simp: Let_def)
  then have "queue_list (run_next t) (gPsRunQueueHead t) (gPsRunQueueTail t)
      (xs @ (case gPsCurrentThread s of None \<Rightarrow> [] | Some c \<Rightarrow> [c]))"
    using queue_list_cong_set [OF q2] eff(5,6) by simp
  moreover have "runnable t y = runnable s y" for y using sw by (simp add: switched_def runnable_def)
  ultimately have "sched t (xs @ (case gPsCurrentThread s of None \<Rightarrow> [] | Some c \<Rightarrow> [c]))"
    using sw eff(3) g2(1) run ok cur d nx unfolding sched_def switched_def
    by (auto split: option.splits if_splits)
  with res sw show ?thesis by blast
qed

lemma sched_fields [simp]:
  "sched (s\<lparr>gPsReschedulePending := b\<rparr>) q = sched s q" "sched (s\<lparr>hw_cpu := r\<rparr>) q = sched s q"
  by (simp_all add: sched_def runnable_def)

lemma sched_leave:
  assumes "sched s q" "gPsCurrentThread s = Some c" "st = PsThreadBlocked \<or> st = PsThreadDead"
  shows "sched ((set_thread c (\<lambda>x. x\<lparr>th_State := st\<rparr>) s)\<lparr>gPsCurrentThread := None\<rparr>) q"
proof -
  let ?t = "(set_thread c (\<lambda>x. x\<lparr>th_State := st\<rparr>) s)\<lparr>gPsCurrentThread := None\<rparr>"
  have n: "c \<notin> set q" using current_not_queued [OF assms(1,2)] .
  have r: "runnable ?t y = runnable s y" for y by (simp add: runnable_def)
  have "queue_list (run_next ?t) (gPsRunQueueHead ?t) (gPsRunQueueTail ?t) q"
    using assms(1) queue_list_cong_set [of "run_next s" _ _ q "run_next ?t"] by (simp add: sched_def)
  then show ?thesis
    using assms n unfolding sched_def r by (auto split: if_splits)
qed

lemma yield_sched:
  assumes "sched s q" "gPsCurrentThread s = Some c"
  shows "case q of [] \<Rightarrow> PsYieldThread s = Some (KSTATUS_INIT_FAILED, s\<lparr>gPsReschedulePending := False\<rparr>)
    | x # xs \<Rightarrow> \<exists>t. PsYieldThread s = Some (KSTATUS_SUCCESS, t) \<and> switched (s\<lparr>gPsReschedulePending := False\<rparr>) x t \<and> sched t (xs @ [c])"
proof -
  have y: "PsYieldThread s = PsDispatch (s\<lparr>gPsReschedulePending := False\<rparr>)"
    using assms by (simp add: PsYieldThread_def sched_def)
  show ?thesis
    using assms dispatch_empty [of "s\<lparr>gPsReschedulePending := False\<rparr>"] dispatch_sched [of "s\<lparr>gPsReschedulePending := False\<rparr>"]
    by (auto simp: y split: list.splits)
qed

lemma yield_some: "sched s q \<Longrightarrow> \<exists>st t q'. PsYieldThread s = Some (st, t) \<and> sched t q'"
proof (cases "gPsCurrentThread s")
  case (Some c)
  assume "sched s q"
  from yield_sched [OF this Some] this show ?thesis by (cases q) auto
qed (auto simp: PsYieldThread_def)

lemma leave_some:
  assumes "sched s q" "gPsCurrentThread s = Some c" "st = PsThreadBlocked \<or> st = PsThreadDead"
  shows "\<exists>st' t q'. PsDispatch ((set_thread c (\<lambda>x. x\<lparr>th_State := st\<rparr>) s)\<lparr>gPsCurrentThread := None\<rparr>) = Some (st', t) \<and> sched t q'"
  using sched_leave [OF assms] dispatch_empty dispatch_sched by (cases q) blast+

lemma exit_some: "sched s q \<Longrightarrow> \<exists>st t q'. PsExitCurrentThread code s = Some (st, t) \<and> sched t q'"
  using leave_some [of s q] by (cases "gPsCurrentThread s") (auto simp: PsExitCurrentThread_def sched_def)

lemma block_some: "sched s q \<Longrightarrow> \<exists>st t q'. PsBlockCurrentThread s = Some (st, t) \<and> sched t q'"
  using leave_some [of s q] by (cases "gPsCurrentThread s") (auto simp: PsBlockCurrentThread_def sched_def)

text \<open>Making a thread ready that is neither queued nor running.\<close>

lemma ready_sched:
  assumes "sched s q" "runnable s x" "x \<notin> set q" "gPsCurrentThread s \<noteq> Some x"
  shows "sched (run_queue_push x (set_thread x (\<lambda>y. y\<lparr>th_State := PsThreadReady\<rparr>) s)) (q @ [x])"
proof -
  let ?t = "set_thread x (\<lambda>y. y\<lparr>th_State := PsThreadReady\<rparr>) s"
  have r: "runnable ?t y = runnable s y" for y by (simp add: runnable_def)
  have "queue_list (run_next ?t) (gPsRunQueueHead ?t) (gPsRunQueueTail ?t) q"
    using assms(1) queue_list_cong_set [of "run_next s" _ _ q "run_next ?t"] by (simp add: sched_def)
  then have "sched ?t q" using assms unfolding sched_def r by (auto split: if_splits)
  then show ?thesis using push_sched [of ?t q x] assms(2,3) r by simp
qed

lemma wake_some: "sched s q \<Longrightarrow> \<exists>t q'. PsWakeThread th s = Some t \<and> sched t q'"
proof (cases "\<exists>x. th = Some x \<and> th_State (thread s x) = PsThreadBlocked")
  case True
  assume inv: "sched s q"
  from True obtain x where x: "th = Some x" "th_State (thread s x) = PsThreadBlocked" by blast
  from inv x(2) have o: "runnable s x" "x \<notin> set q" "gPsCurrentThread s \<noteq> Some x" "gPsReady s"
    unfolding sched_def by (metis, metis PS_THREAD_STATE.distinct(3), metis PS_THREAD_STATE.distinct(7), blast)
  from ready_sched [OF inv o(1-3)] show ?thesis
    using x o(4) by (auto simp: PsWakeThread_def PspRunQueuePush_def)
qed (auto simp: PsWakeThread_def split: option.splits)

lemma tick_sched: "sched s q \<Longrightarrow> sched (PsOnTimerTick s) q"
proof (cases "gPsCurrentThread s")
  case (Some c)
  assume inv: "sched s q"
  let ?t = "set_thread c (\<lambda>x. x\<lparr>th_RemainingTicks := th_RemainingTicks x - 1\<rparr>) s"
  have r: "runnable ?t y = runnable s y" for y by (simp add: runnable_def)
  have "queue_list (run_next ?t) (gPsRunQueueHead ?t) (gPsRunQueueTail ?t) q"
    using inv queue_list_cong_set [of "run_next s" _ _ q "run_next ?t"] by (simp add: sched_def)
  then have "sched ?t q" using inv unfolding sched_def r by auto
  with inv Some show ?thesis by (simp add: PsOnTimerTick_def Let_def)
qed (simp add: PsOnTimerTick_def)

lemma preempt_some: "sched s q \<Longrightarrow> \<exists>t q'. PsHandlePreemptionPoint s = Some t \<and> sched t q'"
  using yield_some [of s q] by (auto simp: PsHandlePreemptionPoint_def)

lemma ob_create_ps:
  assumes "ObCreateObject ty nm acc fl out s = (r, t)"
  shows "gPsThreadPool t = gPsThreadPool s" "gPsThreadInUse t = gPsThreadInUse s" "gPsReady t = gPsReady s"
    "gPsCurrentThread t = gPsCurrentThread s" "gPsRunQueueHead t = gPsRunQueueHead s" "gPsRunQueueTail t = gPsRunQueueTail s"
  using assms by (auto simp: ObCreateObject_def Let_def set_object_def split: if_splits option.splits sum.splits)

lemma create_sched:
  assumes inv: "sched s q" and cr: "PsCreateKernelThread pr f c True s = (Inr x, t)"
  shows "sched t q \<and> runnable t x \<and> x \<notin> set q \<and> gPsCurrentThread t \<noteq> Some x \<and> th_State (thread t x) = PsThreadReady"
proof -
  from cr have pr: "pr \<noteq> None" by (auto simp: PsCreateKernelThread_def split: if_splits)
  obtain s1 where al: "PspAllocateThreadSlot True s = (Inr x, s1)"
    using cr by (auto simp: PsCreateKernelThread_def split: if_splits prod.splits sum.splits)
  then have x: "x < PS_MAX_THREADS" "\<not> gPsThreadInUse s x" "s1 = s\<lparr>gPsThreadInUse := (gPsThreadInUse s)(x := True)\<rparr>"
    by (auto simp: PspAllocateThreadSlot_def split: option.splits dest: scan0_SomeD)
  obtain h s2 g where ob: "ObCreateObject (gPsThreadType s1) (Some ''thread.kernel'') OB_ACCESS_ALL OB_FLAG_WAITABLE True s1 = (Inr h, s2)"
    and t: "gPsThreadPool t = (gPsThreadPool s2)(x := g)" "gPsThreadInUse t = gPsThreadInUse s2" "gPsReady t = gPsReady s2"
      "gPsCurrentThread t = gPsCurrentThread s2" "gPsRunQueueHead t = gPsRunQueueHead s2" "gPsRunQueueTail t = gPsRunQueueTail s2"
    and g: "th_State g = PsThreadReady" "th_OwnerProcess g = pr"
    using cr al by (auto simp: PsCreateKernelThread_def set_thread_def split: if_splits prod.splits sum.splits)
  note f = ob_create_ps [OF ob]
  have nq: "x \<notin> set q" "gPsCurrentThread s \<noteq> Some x" using inv x(2) by (auto simp: sched_def runnable_def)
  have rt: "runnable s y \<Longrightarrow> runnable t y" for y using t f x g pr by (auto simp: runnable_def)
  have rx: "runnable t x" using t f x g pr by (simp add: runnable_def)
  have "queue_list (run_next t) (gPsRunQueueHead t) (gPsRunQueueTail t) q"
  proof -
    have "queue_list (run_next s) (gPsRunQueueHead t) (gPsRunQueueTail t) q" using inv t f x(3) by (simp add: sched_def)
    moreover have "run_next t y = run_next s y" if "y \<in> set q" for y using that nq(1) t f x(3) by auto
    ultimately show ?thesis by (rule queue_list_cong_set)
  qed
  moreover have "thread t y = (if y = x then g else thread s y)" for y using t f x(3) by simp
  ultimately have "sched t q"
    using inv nq g t f x(3) rt unfolding sched_def by (auto split: if_splits)
  with rx nq g t f x(3) show ?thesis by simp
qed

lemma start_some:
  assumes "sched s q" "PsCreateKernelThread pr f c True s = (Inr x, s1)"
  shows "\<exists>t. PsReadyThread (Some x) s1 = Some (KSTATUS_SUCCESS, t) \<and> sched t (q @ [x])"
proof -
  note cs = create_sched [OF assms]
  from cs ready_sched [of s1 q x] show ?thesis
    by (auto simp: PsReadyThread_def PspRunQueuePush_def sched_def)
qed

lemma sched_step_inv: "sched_step s t \<Longrightarrow> sched s q \<Longrightarrow> \<exists>q'. sched t q'"
proof (induction rule: sched_step.induct)
  case (yield s st t)
  with yield_some [of s q] show ?case by auto
next
  case (exit code s st t)
  with exit_some [of s q code] show ?case by auto
next
  case (block s st t)
  with block_some [of s q] show ?case by auto
next
  case (wake th s t)
  with wake_some [of s q th] show ?case by auto
next
  case (tick s)
  then show ?case using tick_sched by blast
next
  case (preempt s t)
  with preempt_some [of s q] show ?case by auto
next
  case (start pr f c s th s1 st t)
  with start_some [of s q pr f c th s1] show ?case by auto
qed

section \<open>Dumping the run queue\<close>

definition hex_line :: "string \<Rightarrow> u64 \<Rightarrow> string" where
  "hex_line Prefix v = c_str Prefix @ ''0x'' @ ObpHex64 v @ [CHR 0x0A]"

lemma ps_line_some: "length Prefix \<le> 64 \<Longrightarrow> PspWriteHexLine Prefix v = Some (hex_line Prefix v)"
proof -
  assume "length Prefix \<le> 64"
  moreover have "length (c_str Prefix) \<le> length Prefix" by (simp add: c_str_def length_takeWhile_le)
  ultimately show ?thesis unfolding PspWriteHexLine_def hex_line_def by (intro WriteHexLine_ok) simp
qed

lemma pid_line_some: "length Prefix \<le> 64 \<Longrightarrow> pid_line Prefix t s =
   Some (case th_OwnerProcess (thread s t) of None \<Rightarrow> [] | Some p \<Rightarrow> hex_line Prefix (pr_ProcessId (gPsProcessPool s p)))"
  by (simp add: pid_line_def ps_line_some split: option.splits)

lemmas dump_lines = ps_line_some pid_line_some

lemma dump_run_queue_Some:
  assumes "dump_run_queue p s = Some out"
  shows "\<exists>xs. chain (run_next s) p xs"
  using assms
proof (rule dump_run_queue.raw_induct [rotated])
  fix f p s out
  assume IH: "\<And>p s out. f p s = Some out \<Longrightarrow> \<exists>xs. chain (run_next s) p xs"
    and body: "(case p of
        None \<Rightarrow> Some []
      | Some t \<Rightarrow> do {
          l1 \<leftarrow> PspWriteHexLine ''[PSDBG] runq.tid='' (th_ThreadId (gPsThreadPool s t));
          l2 \<leftarrow> pid_line ''[PSDBG] runq.pid='' t s;
          l3 \<leftarrow> PspWriteHexLine ''[PSDBG] runq.state='' (thread_state_value (th_State (gPsThreadPool s t)));
          rest \<leftarrow> f (th_RunQueueNext (gPsThreadPool s t)) s;
          Some (l1 @ l2 @ l3 @ rest) }) = Some out"
  show "\<exists>xs. chain (run_next s) p xs"
  proof (cases p)
    case None
    then show ?thesis by (intro exI [of _ "[]"]) simp
  next
    case (Some t)
    with body obtain rest where "f (run_next s t) s = Some rest" by (auto simp: dump_lines bind_eq_Some_conv)
    with IH obtain xs where "chain (run_next s) (run_next s t) xs" by blast
    with Some show ?thesis by (intro exI [of _ "t # xs"]) simp
  qed
qed

lemma chain_dump: "chain (run_next s) p xs \<Longrightarrow> \<exists>out. dump_run_queue p s = Some out"
proof (induction xs arbitrary: p)
  case Nil
  then show ?case by (simp add: dump_run_queue.simps)
next
  case (Cons x xs)
  then obtain out where "dump_run_queue (run_next s x) s = Some out" by auto
  with Cons.prems show ?case by (simp add: dump_run_queue.simps [of "Some x"] dump_lines)
qed

lemma concat_lines_some: "(\<And>i. \<exists>l. f i = Some l) \<Longrightarrow> \<exists>l. concat_lines f is = Some l"
proof (induction "is")
  case (Cons i "is")
  then obtain a b where "f i = Some a" "concat_lines f is = Some b" by blast
  then show ?case by simp
qed simp

lemma dump_process_some: "\<exists>l. dump_process s i = Some l"
  by (simp add: dump_process_def dump_lines)

lemma dump_thread_some: "\<exists>l. dump_thread s i = Some l"
  by (simp add: dump_thread_def dump_lines)

lemma dump_returns:
  assumes "gPsReady s"
  shows "PsDumpSchedulerState s \<noteq> None \<longleftrightarrow> dump_run_queue (gPsRunQueueHead s) s \<noteq> None"
proof -
  obtain ps ts where "concat_lines (dump_process s) [0..<PS_MAX_PROCESSES] = Some ps"
    "concat_lines (dump_thread s) [0..<PS_MAX_THREADS] = Some ts"
    using concat_lines_some dump_process_some dump_thread_some by metis
  with assms show ?thesis
    by (cases "dump_run_queue (gPsRunQueueHead s) s"; cases "gPsCurrentThread s")
      (simp_all add: PsDumpSchedulerState_def dump_lines)
qed

section \<open>Yielding in turn\<close>

text \<open>\<open>n\<close> successive yields; the status of each is dropped, as the idle loop does.\<close>

fun yields :: "nat \<Rightarrow> 'a PS_GLOBALS_scheme \<Rightarrow> 'a PS_GLOBALS_scheme option" where
  "yields 0 s = Some s"
| "yields (Suc n) s = do { (st, t) \<leftarrow> PsYieldThread s; yields n t }"

lemma yields_rotate:
  assumes "sched s q" "gPsCurrentThread s = Some c" "i < length q"
  shows "\<exists>t. yields (Suc i) s = Some t \<and> gPsCurrentThread t = Some (q ! i) \<and> sched t (drop (Suc i) q @ c # take i q)"
  using assms
proof (induction i arbitrary: s q c)
  case 0
  then obtain x xs where q: "q = x # xs" by (cases q) auto
  with yield_sched [OF 0(1,2)] obtain t where "PsYieldThread s = Some (KSTATUS_SUCCESS, t)" "switched (s\<lparr>gPsReschedulePending := False\<rparr>) x t"
    "sched t (xs @ [c])" by auto
  with q show ?case by (auto simp: switched_def)
next
  case (Suc i)
  then obtain x xs where q: "q = x # xs" by (cases q) auto
  with yield_sched [OF Suc.prems(1,2)] obtain t where t: "PsYieldThread s = Some (KSTATUS_SUCCESS, t)"
    "switched (s\<lparr>gPsReschedulePending := False\<rparr>) x t" "sched t (xs @ [c])" by auto
  from t(2) have "gPsCurrentThread t = Some x" by (simp add: switched_def)
  from Suc.IH [OF t(3) this] Suc.prems(3) q obtain u where
    "yields (Suc i) t = Some u" "gPsCurrentThread u = Some ((xs @ [c]) ! i)"
    "sched u (drop (Suc i) (xs @ [c]) @ x # take i (xs @ [c]))" by auto
  with t(1) q Suc.prems(3) show ?case by (auto simp: nth_append)
qed

section \<open>Ticks\<close>

lemma tick_once:
  assumes "gPsReady s" "gPsCurrentThread s = Some c"
  shows "gPsReady (PsOnTimerTick s) \<and> gPsCurrentThread (PsOnTimerTick s) = Some c \<and>
    unat (th_RemainingTicks (thread (PsOnTimerTick s) c)) = unat (th_RemainingTicks (thread s c)) - 1 \<and>
    (gPsReschedulePending (PsOnTimerTick s) \<longleftrightarrow> gPsReschedulePending s \<or> unat (th_RemainingTicks (thread s c)) \<le> 1)"
proof (cases "th_RemainingTicks (thread s c) = 0")
  case True
  with assms show ?thesis by (simp add: PsOnTimerTick_def)
next
  case False
  have "unat (th_RemainingTicks (thread s c) - 1) = unat (th_RemainingTicks (thread s c)) - 1"
    using False by (simp add: unat_minus_one)
  moreover have "th_RemainingTicks (thread s c) - 1 = 0 \<longleftrightarrow> unat (th_RemainingTicks (thread s c)) \<le> 1"
    using False calculation by (metis One_nat_def diff_is_0_eq unat_eq_zero)
  moreover have "th_RemainingTicks (thread s c) > 0" using False by (simp add: word_neq_0_conv)
  ultimately show ?thesis using assms by (simp add: PsOnTimerTick_def Let_def)
qed

section \<open>Properties\<close>

text \<open>C16: the scheduler invariant.  From any state in which it holds, after any sequence of yields, exits,
  blocks, wake-ups, timer ticks, preemption points and thread starts, the run queue is again a finite
  list of distinct ready threads, the running thread is exactly the current one and is not queued; and
  in such a state no operation runs into one of the assertions that would halt the kernel.\<close>

theorem scheduler_invariant:
  assumes "sched_step\<^sup>*\<^sup>* s t" and "sched s q"
  shows "\<exists>q'. sched t q' \<and> distinct q' \<and>
    PsYieldThread t \<noteq> None \<and> PsExitCurrentThread code t \<noteq> None \<and> PsBlockCurrentThread t \<noteq> None \<and>
    PsWakeThread th t \<noteq> None \<and> PsHandlePreemptionPoint t \<noteq> None"
proof -
  from assms obtain q' where q': "sched t q'"
    by (induction rule: rtranclp_induct) (use sched_step_inv in blast)+
  then have "distinct q'" by (simp add: sched_def queue_list_def)
  with q' yield_some [OF q'] exit_some [OF q', of code] block_some [OF q'] wake_some [OF q', of th] preempt_some [OF q']
  show ?thesis by (intro exI [of _ q']) auto
qed

text \<open>Two threads of process 0: thread 0 runs, thread 1 is ready.\<close>

definition ps_bss :: PS_GLOBALS where
  "ps_bss = MM_GLOBALS.extend mm_bss (PS_GLOBALS.fields None None
     (\<lambda>_. \<lparr>pr_ObjectHeader = None, pr_ProcessId = 0, pr_AddressSpaceRoot = None\<rparr>) (\<lambda>_. False)
     (\<lambda>_. \<lparr>th_ObjectHeader = None, th_ThreadId = 0, th_OwnerProcess = None, th_Context = hw_cpu mm_bss, th_State = PsThreadReady,
        th_TimeSliceTicks = 0, th_RemainingTicks = 0, th_RunQueueNext = None, th_WaitQueueNext = None, th_StartRoutine = None,
        th_StartContext = 0, th_KernelStackTop = 0, th_IsUserThread = False, th_UserEntry = 0, th_UserStackTop = 0,
        th_UserArg0 = 0, th_UserArg1 = 0\<rparr>) (\<lambda>_. False) 0 0 None None None None False False 0x100000 0x2000 0x3000 0x200000)"

definition ps_demo :: PS_GLOBALS where
  "ps_demo = ps_bss\<lparr>gPsReady := True, gPsThreadInUse := (\<lambda>t. t < 2), gPsCurrentThread := Some 0,
     gPsRunQueueHead := Some 1, gPsRunQueueTail := Some 1,
     gPsThreadPool := (\<lambda>t. (thread ps_bss t)\<lparr>th_OwnerProcess := Some 0, th_TimeSliceTicks := 4, th_RemainingTicks := 4,
       th_State := (if t = 0 then PsThreadRunning else PsThreadReady)\<rparr>)\<rparr>"

lemma ps_demo_sched: "sched ps_demo [1]"
  by (auto simp: ps_demo_def ps_bss_def sched_def queue_list_def runnable_def PS_MAX_THREADS_def MM_GLOBALS.defs PS_GLOBALS.defs)

theorem scheduler_invariant_witness:
  "\<exists>t q'. sched_step\<^sup>*\<^sup>* ps_demo t \<and> PsBlockCurrentThread (PsOnTimerTick ps_demo) = Some (KSTATUS_SUCCESS, t) \<and>
     sched t q' \<and> PsYieldThread t \<noteq> None"
proof -
  have "sched (PsOnTimerTick ps_demo) [1]" using tick_sched [OF ps_demo_sched] .
  moreover have c: "gPsCurrentThread (PsOnTimerTick ps_demo) = Some 0"
    by (simp add: PsOnTimerTick_def ps_demo_def Let_def)
  ultimately obtain t where t: "PsBlockCurrentThread (PsOnTimerTick ps_demo) = Some (KSTATUS_SUCCESS, t)"
    using dispatch_sched [OF sched_leave, of "PsOnTimerTick ps_demo" 1 "[]" 0 PsThreadBlocked]
    by (auto simp: PsBlockCurrentThread_def sched_def)
  have "sched_step ps_demo (PsOnTimerTick ps_demo)" "sched_step (PsOnTimerTick ps_demo) t"
    using sched_step.block [OF t] by (auto intro: sched_step.tick)
  then have "sched_step\<^sup>*\<^sup>* ps_demo t" by auto
  from scheduler_invariant [OF this ps_demo_sched, of 0 None] this t show ?thesis by blast
qed

text \<open>C17: round robin.  If the running thread and its successors do nothing but yield, the thread at
  position \<open>i\<close> of the run queue is running after exactly \<open>i + 1\<close> yields, and the queue has rotated: every
  ready thread runs before any thread runs twice.\<close>

theorem PsYieldThread_round_robin:
  assumes "sched s q" and "gPsCurrentThread s = Some c" and "i < length q"
  shows "\<exists>t. yields (Suc i) s = Some t \<and> gPsCurrentThread t = Some (q ! i) \<and> sched t (drop (Suc i) q @ c # take i q)"
  using yields_rotate [OF assms] .

theorem PsYieldThread_round_robin_witness:
  "\<exists>t. yields 1 ps_demo = Some t \<and> gPsCurrentThread t = Some 1 \<and> sched t [0]"
  using PsYieldThread_round_robin [OF ps_demo_sched, of 0 0] by (simp add: ps_demo_def)

text \<open>Switching away and back restores the registers.  When thread \<open>c\<close> yields to \<open>b\<close>, \<open>b\<close> runs with
  its saved registers; whatever \<open>b\<close> then leaves in the registers, when it yields back \<open>c\<close> continues with
  the registers it had, at the resume label of the switch, and those of \<open>b\<close> are saved.\<close>

theorem PsYieldThread_roundtrip:
  assumes "sched s [b]" and "gPsCurrentThread s = Some c"
  shows "\<exists>t u. PsYieldThread s = Some (KSTATUS_SUCCESS, t) \<and> hw_cpu t = th_Context (thread s b) \<and>
    PsYieldThread (t\<lparr>hw_cpu := r\<rparr>) = Some (KSTATUS_SUCCESS, u) \<and> gPsCurrentThread u = Some c \<and>
    hw_cpu u = (hw_cpu s)\<lparr>ctx_Rip := link_SwitchResume s\<rparr> \<and>
    th_Context (thread u b) = r\<lparr>ctx_Rip := link_SwitchResume s\<rparr> \<and> sched u [b]"
proof -
  from yield_sched [OF assms] obtain t where t: "PsYieldThread s = Some (KSTATUS_SUCCESS, t)"
    "switched (s\<lparr>gPsReschedulePending := False\<rparr>) b t" "sched t [c]" by auto
  let ?t = "t\<lparr>hw_cpu := r\<rparr>"
  have cb: "gPsCurrentThread ?t = Some b" "c \<noteq> b"
    using t(2) current_not_queued [OF assms] by (auto simp: switched_def)
  from t(3) have "sched ?t [c]" by simp
  from yield_sched [OF this cb(1)] obtain u where "PsYieldThread ?t = Some (KSTATUS_SUCCESS, u)"
    "switched (?t\<lparr>gPsReschedulePending := False\<rparr>) c u" "sched u [b]" by auto
  with t(1,2) assms(2) cb show ?thesis by (auto simp: switched_def)
qed

theorem PsYieldThread_roundtrip_witness:
  "\<exists>t u. PsYieldThread ps_demo = Some (KSTATUS_SUCCESS, t) \<and>
     PsYieldThread (t\<lparr>hw_cpu := (hw_cpu t)\<lparr>ctx_Rbx := 7\<rparr>\<rparr>) = Some (KSTATUS_SUCCESS, u) \<and>
     hw_cpu u = (hw_cpu ps_demo)\<lparr>ctx_Rip := 0x3000\<rparr>"
proof -
  have c: "gPsCurrentThread ps_demo = Some 0" "link_SwitchResume ps_demo = 0x3000"
    by (simp_all add: ps_demo_def ps_bss_def MM_GLOBALS.defs PS_GLOBALS.defs)
  obtain t where t: "PsYieldThread ps_demo = Some (KSTATUS_SUCCESS, t)"
    using PsYieldThread_roundtrip [OF ps_demo_sched c(1)] by blast
  with PsYieldThread_roundtrip [OF ps_demo_sched c(1), of "(hw_cpu t)\<lparr>ctx_Rbx := 7\<rparr>"] c(2) show ?thesis by auto
qed

text \<open>The time slice.  After \<open>n\<close> timer ticks the running thread has \<open>n\<close> ticks less left, never below
  zero, and a reschedule is pending exactly if it was before or the slice has been used up.\<close>

theorem PsOnTimerTick_slice:
  assumes "gPsReady s" and "gPsCurrentThread s = Some c"
  shows "unat (th_RemainingTicks (thread ((PsOnTimerTick ^^ n) s) c)) = unat (th_RemainingTicks (thread s c)) - n \<and>
    (gPsReschedulePending ((PsOnTimerTick ^^ n) s) \<longleftrightarrow>
       gPsReschedulePending s \<or> (0 < n \<and> unat (th_RemainingTicks (thread s c)) \<le> n))"
proof -
  have "gPsReady ((PsOnTimerTick ^^ n) s) \<and> gPsCurrentThread ((PsOnTimerTick ^^ n) s) = Some c \<and>
    unat (th_RemainingTicks (thread ((PsOnTimerTick ^^ n) s) c)) = unat (th_RemainingTicks (thread s c)) - n \<and>
    (gPsReschedulePending ((PsOnTimerTick ^^ n) s) \<longleftrightarrow>
       gPsReschedulePending s \<or> (0 < n \<and> unat (th_RemainingTicks (thread s c)) \<le> n))"
  proof (induction n)
    case (Suc n)
    from tick_once [of "(PsOnTimerTick ^^ n) s" c] Suc.IH show ?case by auto
  qed (use assms in simp)
  then show ?thesis by blast
qed

theorem PsOnTimerTick_slice_witness:
  "gPsReschedulePending ((PsOnTimerTick ^^ 4) ps_demo) \<and> \<not> gPsReschedulePending ((PsOnTimerTick ^^ 3) ps_demo)"
proof -
  have d: "gPsReady ps_demo" "gPsCurrentThread ps_demo = Some 0" "th_RemainingTicks (thread ps_demo 0) = 4"
    "\<not> gPsReschedulePending ps_demo"
    by (simp_all add: ps_demo_def ps_bss_def MM_GLOBALS.defs PS_GLOBALS.defs)
  from PsOnTimerTick_slice [OF d(1,2), of 4] PsOnTimerTick_slice [OF d(1,2), of 3] d(3,4) show ?thesis by simp
qed

text \<open>C22: blocking and exiting do not switch contexts.  Both clear the current thread before they
  dispatch, so the dispatcher makes the next thread current but neither saves the registers nor loads
  those of the new thread: the call returns into the thread that has just blocked or exited, while the
  kernel's books say that the next thread is running.\<close>

theorem PsBlockCurrentThread_no_switch:
  assumes "sched s (x # xs)" and "gPsCurrentThread s = Some c"
  shows "(\<exists>t. PsBlockCurrentThread s = Some (KSTATUS_SUCCESS, t) \<and> gPsCurrentThread t = Some x \<and>
      th_State (thread t c) = PsThreadBlocked \<and> hw_cpu t = hw_cpu s \<and> th_Context (thread t c) = th_Context (thread s c) \<and> sched t xs) \<and>
    (\<exists>t. PsExitCurrentThread code s = Some (KSTATUS_SUCCESS, t) \<and> gPsCurrentThread t = Some x \<and>
      th_State (thread t c) = PsThreadDead \<and> hw_cpu t = hw_cpu s \<and> sched t xs)"
proof -
  let ?b = "(set_thread c (\<lambda>y. y\<lparr>th_State := PsThreadBlocked\<rparr>) s)\<lparr>gPsCurrentThread := None\<rparr>"
  let ?e = "(set_thread c (\<lambda>y. y\<lparr>th_State := PsThreadDead\<rparr>) s)\<lparr>gPsCurrentThread := None\<rparr>"
  have cx: "c \<noteq> x" and r: "gPsReady s" using current_not_queued [OF assms] assms(1) by (auto simp: sched_def)
  have "sched ?b (x # xs)" "sched ?e (x # xs)" using sched_leave [OF assms] by blast+
  with dispatch_sched [of ?b x xs] dispatch_sched [of ?e x xs] obtain t u where
    "PsDispatch ?b = Some (KSTATUS_SUCCESS, t)" "switched ?b x t" "sched t xs"
    "PsDispatch ?e = Some (KSTATUS_SUCCESS, u)" "switched ?e x u" "sched u xs" by auto
  with assms(2) r cx show ?thesis
    by (auto simp: PsBlockCurrentThread_def PsExitCurrentThread_def switched_def)
qed

theorem PsBlockCurrentThread_no_switch_witness:
  "\<exists>t. PsBlockCurrentThread ps_demo = Some (KSTATUS_SUCCESS, t) \<and> gPsCurrentThread t = Some 1 \<and> hw_cpu t = hw_cpu ps_demo"
  using PsBlockCurrentThread_no_switch [OF ps_demo_sched, of 0] by (auto simp: ps_demo_def)

text \<open>The scheduler dump returns exactly if the run queue is a finite chain; in particular it returns
  in every state that satisfies the scheduler invariant.\<close>

theorem PsDumpSchedulerState_returns:
  "gPsReady s \<Longrightarrow> PsDumpSchedulerState s \<noteq> None \<longleftrightarrow> (\<exists>xs. chain (run_next s) (gPsRunQueueHead s) xs)"
  using dump_returns [of s] dump_run_queue_Some [of "gPsRunQueueHead s" s] chain_dump [of s "gPsRunQueueHead s"] by auto

theorem PsDumpSchedulerState_returns_witness: "PsDumpSchedulerState ps_demo \<noteq> None"
proof -
  have "gPsReady ps_demo" "chain (run_next ps_demo) (gPsRunQueueHead ps_demo) [1]"
    using ps_demo_sched by (simp_all add: sched_def queue_list_def)
  with PsDumpSchedulerState_returns show ?thesis by blast
qed

text \<open>A thread made ready twice corrupts the run queue.  \<^verbatim>\<open>PsReadyThread\<close> does not check whether
  the thread is queued already: when it is the last of the queue its link then points at itself, so
  the queue never drains and the scheduler dump never returns.\<close>

theorem PsReadyThread_twice_cycle:
  assumes "sched s (xs @ [x])"
  shows "\<exists>t. PsReadyThread (Some x) s = Some (KSTATUS_SUCCESS, t) \<and> run_next t x = Some x \<and> PsDumpSchedulerState t = None"
proof -
  from assms have r: "gPsReady s" "th_State (thread s x) = PsThreadReady" and tl: "gPsRunQueueTail s = Some x"
    and c: "chain (run_next s) (gPsRunQueueHead s) (xs @ [x])" and d: "distinct (xs @ [x])"
    by (auto simp: sched_def queue_list_def)
  define t where "t = run_queue_push x (set_thread x (\<lambda>y. y\<lparr>th_State := PsThreadReady\<rparr>) s)"
  have t: "PsReadyThread (Some x) s = Some (KSTATUS_SUCCESS, t)"
    using r by (simp add: PsReadyThread_def PspRunQueuePush_def t_def)
  have nx: "run_next t = (run_next s)(x := Some x)" "gPsRunQueueHead t = gPsRunQueueHead s" "gPsReady t"
    using tl r by (auto simp: t_def run_queue_push_def Let_def fun_eq_iff)
  have loop: "\<not> chain ((run_next s)(x := Some x)) (Some x) ys" for ys by (induction ys) auto
  have "\<not> chain ((run_next s)(x := Some x)) p ys" if "chain (run_next s) p (xs @ [x])" "distinct (xs @ [x])" for p ys
    using that
  proof (induction xs arbitrary: p ys)
    case Nil
    then have "p = Some x" by simp
    with loop show ?case by (simp only: not_False_eq_True)
  next
    case (Cons z zs)
    then show ?case by (cases ys) (auto split: if_splits)
  qed
  with c d nx have "PsDumpSchedulerState t = None"
    using dump_returns [OF nx(3)] dump_run_queue_Some [of "gPsRunQueueHead t" t] by auto
  moreover have "run_next t x = Some x" using fun_cong [OF nx(1), of x] by simp
  ultimately show ?thesis using t by simp
qed

theorem PsReadyThread_twice_cycle_witness:
  "\<exists>t. PsReadyThread (Some 1) ps_demo = Some (KSTATUS_SUCCESS, t) \<and> PsDumpSchedulerState t = None"
  using PsReadyThread_twice_cycle [of ps_demo "[]" 1] ps_demo_sched by auto

lemma create_user_thread_effect:
  assumes "PsCreateUserThread (Some p) entry stk a0 a1 True s = Some (Inr th, t)"
  shows "entry < PS_USER_TOP \<and> stk < PS_USER_TOP \<and>
    (\<exists>as e k. pr_AddressSpaceRoot (gPsProcessPool s p) = Some as \<and>
       MmAsQueryPte (Some as) (entry AND NOT 0xFFF) True s = Some (Inr e, s) \<and>
       has_flag e PS_PTE_PRESENT \<and> has_flag e PS_PTE_USER \<and> \<not> has_flag e PS_PTE_NX \<and>
       MmAsQueryPte (Some as) ((stk - 1) AND NOT 0xFFF) True s = Some (Inr k, s) \<and>
       has_flag k PS_PTE_PRESENT \<and> has_flag k PS_PTE_USER \<and> has_flag k PS_PTE_WRITABLE) \<and>
    th_UserEntry (thread t th) = entry \<and> th_UserStackTop (thread t th) = (stk AND NOT 0x0F) \<and>
    th_OwnerProcess (thread t th) = Some p \<and> th_IsUserThread (thread t th) \<and> th_State (thread t th) = PsThreadReady"
proof -
  from assms have b: "\<not> entry \<ge> PS_USER_TOP" "\<not> stk \<ge> PS_USER_TOP"
    by (auto simp: PsCreateUserThread_def split: if_splits)
  from assms obtain as e s1 k s2 where
    as: "pr_AddressSpaceRoot (gPsProcessPool s p) = Some as"
    and q1: "MmAsQueryPte (Some as) (entry AND NOT 0xFFF) True s = Some (Inr e, s1)"
    and e: "has_flag e PS_PTE_PRESENT" "has_flag e PS_PTE_USER" "\<not> has_flag e PS_PTE_NX"
    and q2: "MmAsQueryPte (Some as) ((stk - 1) AND NOT 0xFFF) True s1 = Some (Inr k, s2)"
    and k: "has_flag k PS_PTE_PRESENT" "has_flag k PS_PTE_USER" "has_flag k PS_PTE_WRITABLE"
    and cr: "(case PspAllocateThreadSlot True s2 of
                  (Inl Status, s3) \<Rightarrow> (Inl Status, s3)
                | (Inr Thread, s3) \<Rightarrow>
                    (case ObCreateObject (gPsThreadType s3) (Some ''thread.user'') OB_ACCESS_ALL OB_FLAG_WAITABLE True s3 of
                       (Inl Status, s4) \<Rightarrow> (Inl Status, s4)
                     | (Inr Header, s4) \<Rightarrow>
                         (Inr Thread, set_thread Thread (\<lambda>t. \<lparr>th_ObjectHeader = Some Header,
                              th_ThreadId = gPsNextThreadId s4, th_OwnerProcess = Some p,
                              th_Context = KiArchInitializeContext (thread_stack_top Thread s4) (link_ThreadEntryThunk s4) (th_Context t),
                              th_State = PsThreadReady, th_TimeSliceTicks = PS_DEFAULT_TIMESLICE_TICKS,
                              th_RemainingTicks = PS_DEFAULT_TIMESLICE_TICKS, th_RunQueueNext = None,
                              th_WaitQueueNext = None, th_StartRoutine = None, th_StartContext = 0,
                              th_KernelStackTop = thread_stack_top Thread s4, th_IsUserThread = True,
                              th_UserEntry = entry, th_UserStackTop = stk AND NOT 0x0F,
                              th_UserArg0 = a0, th_UserArg1 = a1\<rparr>)
                            (s4\<lparr>gPsNextThreadId := gPsNextThreadId s4 + 1\<rparr>)))) = (Inr th, t)"
    unfolding PsCreateUserThread_def by (auto simp: bind_eq_Some_conv split: if_splits option.splits sum.splits)
  have "s1 = s" "s2 = s" using query_readonly [OF q1] query_readonly [OF q2] by auto
  with b as q1 e q2 k cr show ?thesis
    by (auto simp: not_le split: prod.splits sum.splits)
qed

text \<open>C20: a user thread only starts on pages user mode may use.  If \<^verbatim>\<open>PsCreateUserThread\<close> succeeds, the
  entry lies below the user top on a page that is present, user-accessible and executable, and the top
  of the stack on a page that is present, user-accessible and writable; the thread starts at the given
  entry with a 16-byte aligned stack in the given process.\<close>

theorem PsCreateUserThread_safe:
  assumes "PsCreateUserThread (Some p) entry stk a0 a1 True s = Some (Inr th, t)"
  shows "entry < PS_USER_TOP \<and> stk < PS_USER_TOP \<and>
    (\<exists>as e k. pr_AddressSpaceRoot (gPsProcessPool s p) = Some as \<and>
       MmAsQueryPte (Some as) (entry AND NOT 0xFFF) True s = Some (Inr e, s) \<and>
       has_flag e PS_PTE_PRESENT \<and> has_flag e PS_PTE_USER \<and> \<not> has_flag e PS_PTE_NX \<and>
       MmAsQueryPte (Some as) ((stk - 1) AND NOT 0xFFF) True s = Some (Inr k, s) \<and>
       has_flag k PS_PTE_PRESENT \<and> has_flag k PS_PTE_USER \<and> has_flag k PS_PTE_WRITABLE) \<and>
    th_UserEntry (thread t th) = entry \<and> th_UserStackTop (thread t th) = (stk AND NOT 0x0F) \<and>
    th_OwnerProcess (thread t th) = Some p \<and> th_IsUserThread (thread t th) \<and> th_State (thread t th) = PsThreadReady"
  using create_user_thread_effect [OF assms] .

text \<open>A process whose address space maps one user page, readable, writable and executable, at
  \<open>0x40000000\<close>.\<close>

definition ps_user :: PS_GLOBALS where
  "ps_user = ps_demo\<lparr>hw_mem := (hw_mem mm_paged)(slot 0x4000 0 := 0x5007), gMmAddressSpacePool := gMmAddressSpacePool mm_paged,
     gMmReady := True, gObReady := True, gPsThreadType := Some 0,
     gPsProcessPool := (\<lambda>_. \<lparr>pr_ObjectHeader = None, pr_ProcessId = 1, pr_AddressSpaceRoot = Some 0\<rparr>)\<rparr>"

lemma ps_user_query: "MmAsQueryPte (Some 0) 0x40000000 True ps_user = Some (Inr 0x5007, ps_user)"
proof -
  have root: "as_root ps_user 0 = 0x1000" by (simp add: as_root_def ps_user_def mm_paged_def)
  have te: "table_entry 0x2007" "table_entry 0x3007" "table_entry 0x4007"
    by (simp_all add: table_entry_def has_flag_def MM_PTE_PRESENT_def MM_PTE_LARGE_def)
  have mk: "0x2007 AND MM_PTE_ADDR_MASK = 0x2000" "0x3007 AND MM_PTE_ADDR_MASK = 0x3000" "0x4007 AND MM_PTE_ADDR_MASK = 0x4000"
    by (simp_all add: MM_PTE_ADDR_MASK_def)
  have m: "hw_mem ps_user (slot 0x1000 0) = 0x2007" "hw_mem ps_user (slot 0x2000 1) = 0x3007"
    "hw_mem ps_user (slot 0x3000 0) = 0x4007" "hw_mem ps_user (slot 0x4000 0) = 0x5007"
    by (simp_all add: ps_user_def mm_paged_def slot_def MM_PTE_ADDR_MASK_def)
  have "pte_at ps_user 0 0x40000000 0x4000"
    unfolding pte_at_def root numeral_3_eq_3 walk_path.simps Let_def
    using paged_addr(1-3) m te mk by (simp only: numeral_2_eq_2 [symmetric] simp_thms)
  from query_on_path(2) [OF this] root m(4) paged_addr show ?thesis by (simp add: ps_user_def)
qed

theorem PsCreateUserThread_safe_witness:
  "\<exists>th t. PsCreateUserThread (Some 0) 0x40000010 0x40000808 1 2 True ps_user = Some (Inr th, t) \<and>
     th_UserEntry (thread t th) = 0x40000010 \<and> th_UserStackTop (thread t th) = 0x40000800"
proof -
  have k: "PspAllocateThreadSlot True ps_user = (Inr 2, ps_user\<lparr>gPsThreadInUse := (gPsThreadInUse ps_user)(2 := True)\<rparr>)"
  proof -
    have "scan (\<lambda>i. \<not> gPsThreadInUse ps_user i) 0 PS_MAX_THREADS = Some 2"
      by (rule scan_first) (simp_all add: ps_user_def ps_demo_def PS_MAX_THREADS_def)
    then show ?thesis by (simp add: PspAllocateThreadSlot_def)
  qed
  have "\<exists>h u. ObCreateObject (Some 0) (Some ''thread.user'') OB_ACCESS_ALL OB_FLAG_WAITABLE True
      (ps_user\<lparr>gPsThreadInUse := (gPsThreadInUse ps_user)(2 := True)\<rparr>) = (Inr h, u)"
    by (simp add: ObCreateObject_def ObpCopyName_def OB_MAX_OBJECT_NAME_def OB_MAX_OBJECTS_def Let_def ps_user_def ps_demo_def
        ps_bss_def mm_bss_eval MM_GLOBALS.defs PS_GLOBALS.defs)
  then obtain h u where o: "ObCreateObject (Some 0) (Some ''thread.user'') OB_ACCESS_ALL OB_FLAG_WAITABLE True
      (ps_user\<lparr>gPsThreadInUse := (gPsThreadInUse ps_user)(2 := True)\<rparr>) = (Inr h, u)" by blast
  have f: "gPsThreadType ps_user = Some 0" "gPsReady ps_user" "pr_AddressSpaceRoot (gPsProcessPool ps_user 0) = Some 0"
    by (simp_all add: ps_user_def ps_demo_def)
  have "\<exists>t. PsCreateUserThread (Some 0) 0x40000010 0x40000808 1 2 True ps_user = Some (Inr 2, t)"
    by (simp add: PsCreateUserThread_def f k o ps_user_query PS_USER_TOP_def has_flag_def PS_PTE_PRESENT_def PS_PTE_USER_def
        PS_PTE_NX_def PS_PTE_WRITABLE_def)
  then obtain t where t: "PsCreateUserThread (Some 0) 0x40000010 0x40000808 1 2 True ps_user = Some (Inr 2, t)" by blast
  from PsCreateUserThread_safe [OF t] t show ?thesis by auto
qed

end
