(* ===== verification/NtxPsInit.thy ===== *)
theory NtxPsInit
  imports NtxSched
begin

text \<open>
  \<^verbatim>\<open>PsInitialize\<close> establishes the scheduler invariant: with the resources it needs, it creates the
  system process and the bootstrap thread, and starts it.
\<close>

section \<open>Creating types, objects and address spaces\<close>

lemma create_type_ok:
  assumes "gObReady s" "scan (\<lambda>i. \<not> gObTypeInUse s i) 0 OB_MAX_OBJECTS = Some k"
  shows "\<exists>tp. ObCreateType (Some nm) r True s = (Inr k, s\<lparr>gObTypeInUse := (gObTypeInUse s)(k := True), gObTypePool := tp\<rparr>)"
  using assms by (simp add: ObCreateType_def ObpCopyName_def OB_MAX_TYPE_NAME_def Let_def) (intro exI, rule refl)

lemma create_object_ok:
  assumes "gObReady s" "scan (\<lambda>i. \<not> gObObjectInUse s i) 0 OB_MAX_OBJECTS = Some k"
  shows "\<exists>op n. ObCreateObject (Some ty) (Some nm) acc fl True s =
    (Inr k, s\<lparr>gObObjectInUse := (gObObjectInUse s)(k := True), gObNextObjectId := n, gObObjectPool := op\<rparr>)"
  using assms by (simp add: ObCreateObject_def ObpCopyName_def OB_MAX_OBJECT_NAME_def Let_def set_object_def) (intro exI, rule refl)

text \<open>Two free slots: after the first is taken another is left.\<close>

definition two_free :: "(nat \<Rightarrow> bool) \<Rightarrow> nat \<Rightarrow> bool" where
  "two_free used n \<longleftrightarrow> (\<exists>i j. i < j \<and> j < n \<and> \<not> used i \<and> \<not> used j)"

lemma two_free_scan:
  assumes "two_free used n"
  obtains k l where "scan (\<lambda>i. \<not> used i) 0 n = Some k" "scan (\<lambda>i. \<not> (used(k := True)) i) 0 n = Some l"
proof -
  from assms obtain i j where ij: "i < j" "j < n" "\<not> used i" "\<not> used j" by (auto simp: two_free_def)
  then obtain k where k: "scan (\<lambda>i. \<not> used i) 0 n = Some k" using scan_total [of "\<lambda>i. \<not> used i" n] by auto
  have "\<not> (used(k := True)) (if k = i then j else i)" "(if k = i then j else i) < n" using ij by auto
  then have "\<exists>m<n. \<not> (used(k := True)) m" by blast
  then obtain l where "scan (\<lambda>i. \<not> (used(k := True)) i) 0 n = Some l"
    using scan_total [of "\<lambda>i. \<not> (used(k := True)) i" n] by auto
  with k that show thesis by blast
qed

text \<open>What the memory manager leaves alone: everything the object and process managers keep.\<close>

definition ps_same :: "'a PS_GLOBALS_scheme \<Rightarrow> 'a PS_GLOBALS_scheme \<Rightarrow> bool" where
  "ps_same s t \<longleftrightarrow> ob_part t = ob_part s \<and> gPsThreadPool t = gPsThreadPool s \<and> gPsThreadInUse t = gPsThreadInUse s \<and>
     gPsProcessPool t = gPsProcessPool s \<and> gPsProcessInUse t = gPsProcessInUse s \<and> gPsReady t = gPsReady s \<and>
     gPsCurrentThread t = gPsCurrentThread s \<and> gPsRunQueueHead t = gPsRunQueueHead s \<and> gPsRunQueueTail t = gPsRunQueueTail s \<and>
     gPsThreadType t = gPsThreadType s \<and> gPsProcessType t = gPsProcessType s \<and> gPsReschedulePending t = gPsReschedulePending s"

text \<open>What the process manager leaves alone while it starts: the boot information, the object types, the memory manager and its fault routine,
  and the components that build on it.\<close>

definition ps_rest ::
    "'a PS_GLOBALS_scheme \<Rightarrow> (u64 \<times> BOOT_INFO) option \<times> bool \<times> (nat \<Rightarrow> bool) \<times> bool \<times> HAL_PAGE_FAULT_ROUTINE option \<times> 'a" where
  "ps_rest s = (gNkBootInfo s, gObReady s, gObTypeInUse s, gMmReady s, gHalPageFaultRoutine s, PS_GLOBALS.more s)"

lemma create_space_ok:
  fixes s :: "'a PS_GLOBALS_scheme"
  assumes "gMmReady s" "pages_wf s" "0 < free_pages s" "gMmKernelRootTablePhysical s \<noteq> 0"
    and "a < MM_MAX_ADDRESS_SPACES" "\<not> gMmAddressSpaceInUse s a"
  shows "\<exists>i t. MmCreateAddressSpace pid True s = Some (Inr i, t) \<and> ps_same s t \<and> ps_rest t = ps_rest s"
proof -
  obtain i where i: "scan (\<lambda>i. \<not> gMmAddressSpaceInUse s i) 0 MM_MAX_ADDRESS_SPACES = Some i"
    using scan_total [of "\<lambda>i. \<not> gMmAddressSpaceInUse s i" MM_MAX_ADDRESS_SPACES] assms(5,6) by auto
  obtain pa s1 where al: "MmAllocPage True s = (Inr pa, s1)"
    using alloc_internal_free [OF assms(2,3)] MmAllocPage_ready [OF assms(1)] by metis
  from mm_frame_alloc [OF al] obtain m bm rc nx where
    s1: "s1 = s\<lparr>hw_mem := m, gMmPageBitmap := bm, gMmPageRefCount := rc, gMmNextScanPage := nx\<rparr>" by (auto simp: mm_frame_def)
  obtain m2 where "store_table (MmpPhysToVirtTable s1 pa)
      (\<lambda>i. load64 (elem_ptr (MmpPhysToVirtTable s1 (gMmKernelRootTablePhysical s)) i)) 0 512 s1 = s1\<lparr>hw_mem := m2\<rparr>"
    using store_table_shape by blast
  moreover have "gMmKernelRootTablePhysical s1 = gMmKernelRootTablePhysical s" by (simp add: s1)
  ultimately show ?thesis
    using assms(1,4) i al by (simp add: MmCreateAddressSpace_def Let_def set_as_def ps_same_def ps_rest_def ob_part_def s1)
qed

text \<open>Resources the creation of a process and its first thread needs.\<close>

definition mm_resources :: "'a PS_GLOBALS_scheme \<Rightarrow> bool" where
  "mm_resources s \<longleftrightarrow> gMmReady s \<and> pages_wf s \<and> 0 < free_pages s \<and> gMmKernelRootTablePhysical s \<noteq> 0 \<and>
     (\<exists>a<MM_MAX_ADDRESS_SPACES. \<not> gMmAddressSpaceInUse s a)"

definition sched_fields_of :: "'a PS_GLOBALS_scheme \<Rightarrow> (nat \<Rightarrow> KTHREAD) \<times> (nat \<Rightarrow> bool) \<times> ptr \<times> ptr \<times> ptr \<times> ptr" where
  "sched_fields_of s = (gPsThreadPool s, gPsThreadInUse s, gPsCurrentThread s, gPsRunQueueHead s, gPsRunQueueTail s, gPsThreadType s)"

lemma create_process_ok:
  fixes s :: "'a PS_GLOBALS_scheme"
  assumes "gObReady s" "gPsProcessType s = Some ty" "\<not> gPsProcessInUse s 0" "mm_resources s"
    and "scan (\<lambda>i. \<not> gObObjectInUse s i) 0 OB_MAX_OBJECTS = Some k"
  shows "\<exists>t. PspCreateProcessInternal (Some nm) True s = Some (Inr 0, t) \<and> sched_fields_of t = sched_fields_of s \<and>
    gObReady t \<and> gObObjectInUse t = (gObObjectInUse s)(k := True) \<and> ps_rest t = ps_rest s"
proof -
  define s1 where "s1 = s\<lparr>gPsProcessInUse := (gPsProcessInUse s)(0 := True)\<rparr>"
  have sl: "PspAllocateProcessSlot True s = (Inr 0, s1)"
    using scan_first [of 0 PS_MAX_PROCESSES "\<lambda>i. \<not> gPsProcessInUse s i"] assms(3)
    by (simp add: PspAllocateProcessSlot_def s1_def PS_MAX_PROCESSES_def)
  obtain op n where ob: "ObCreateObject (Some ty) (Some nm) OB_ACCESS_ALL 0 True s1 =
      (Inr k, s1\<lparr>gObObjectInUse := (gObObjectInUse s1)(k := True), gObNextObjectId := n, gObObjectPool := op\<rparr>)"
    using create_object_ok [of s1 k ty nm OB_ACCESS_ALL 0] assms(1,5) by (auto simp: s1_def)
  define s3 where "s3 = set_process 0 (\<lambda>p. p\<lparr>pr_ObjectHeader := Some k, pr_ProcessId := gPsNextProcessId s\<rparr>)
    (s1\<lparr>gObObjectInUse := (gObObjectInUse s1)(k := True), gObNextObjectId := n, gObObjectPool := op, gPsNextProcessId := gPsNextProcessId s + 1\<rparr>)"
  have "mm_resources s3"
    using assms(4) by (simp add: mm_resources_def s3_def s1_def set_process_def pages_wf_def free_pages_def page_alloc_def)
  then obtain i t where m: "MmCreateAddressSpace (gPsNextProcessId s) True s3 = Some (Inr i, t)" "ps_same s3 t" "ps_rest t = ps_rest s3"
    using create_space_ok [of s3] unfolding mm_resources_def by blast
  have "PspCreateProcessInternal (Some nm) True s = Some (Inr 0, set_process 0 (\<lambda>p. p\<lparr>pr_AddressSpaceRoot := Some i\<rparr>) t)"
    using sl ob m(1) assms(2) by (simp add: PspCreateProcessInternal_def Let_def s3_def s1_def)
  with m(2,3) assms(1) show ?thesis
    by (simp add: ps_same_def ps_rest_def sched_fields_of_def ob_part_def s3_def s1_def set_process_def)
qed

lemma create_thread_ok:
  assumes "gPsReady s" "gObReady s" "gPsThreadType s = Some ty" "\<not> gPsThreadInUse s 0"
    and "scan (\<lambda>i. \<not> gObObjectInUse s i) 0 OB_MAX_OBJECTS = Some k"
  shows "\<exists>t. PsCreateKernelThread (Some p) f c True s = (Inr 0, t) \<and> th_OwnerProcess (thread t 0) = Some p \<and>
    gPsSystemProcess t = gPsSystemProcess s \<and> ps_rest t = ps_rest s"
proof -
  define s1 where "s1 = s\<lparr>gPsThreadInUse := (gPsThreadInUse s)(0 := True)\<rparr>"
  have sl: "PspAllocateThreadSlot True s = (Inr 0, s1)"
    using scan_first [of 0 PS_MAX_THREADS "\<lambda>i. \<not> gPsThreadInUse s i"] assms(4)
    by (simp add: PspAllocateThreadSlot_def s1_def PS_MAX_THREADS_def)
  obtain op n where ob: "ObCreateObject (Some ty) (Some ''thread.kernel'') OB_ACCESS_ALL OB_FLAG_WAITABLE True s1 =
      (Inr k, s1\<lparr>gObObjectInUse := (gObObjectInUse s1)(k := True), gObNextObjectId := n, gObObjectPool := op\<rparr>)"
    using create_object_ok [of s1 k ty "''thread.kernel''" OB_ACCESS_ALL OB_FLAG_WAITABLE] assms(2,5) by (auto simp: s1_def)
  have "gPsThreadType s1 = Some ty" using assms(3) by (simp add: s1_def)
  with sl ob assms(1) show ?thesis
    by (simp add: PsCreateKernelThread_def set_thread_def ps_rest_def) (simp add: s1_def)
qed

lemma activate_rest [simp]:
  "gPsSystemProcess (snd (MmActivateAddressSpace a u)) = gPsSystemProcess u"
  "gHalTimerTickRoutine (snd (MmActivateAddressSpace a u)) = gHalTimerTickRoutine u"
  "ps_rest (snd (MmActivateAddressSpace a u)) = ps_rest u"
  using activate_shape [of a u] by (auto simp: ps_rest_def)

lemma switch_rest [simp]:
  "gPsSystemProcess (switch_threads a b u) = gPsSystemProcess u"
  "gHalTimerTickRoutine (switch_threads a b u) = gHalTimerTickRoutine u"
  "ps_rest (switch_threads a b u) = ps_rest u"
  by (auto simp: switch_threads_def KiArchSwitchContext_def set_thread_def ps_rest_def split: option.splits)

lemma push_rest:
  "PspRunQueuePush x u = Some v \<Longrightarrow>
   gPsSystemProcess v = gPsSystemProcess u \<and> gHalTimerTickRoutine v = gHalTimerTickRoutine u \<and> ps_rest v = ps_rest u"
  by (auto simp: PspRunQueuePush_def run_queue_push_def set_thread_def Let_def ps_rest_def split: option.splits if_splits)

lemma pop_rest:
  "PspRunQueuePop s = (r, s1) \<Longrightarrow>
   gPsSystemProcess s1 = gPsSystemProcess s \<and> gHalTimerTickRoutine s1 = gHalTimerTickRoutine s \<and> ps_rest s1 = ps_rest s"
  by (auto simp: PspRunQueuePop_def set_thread_def Let_def ps_rest_def split: option.splits if_splits)

lemma ps_rest_simps [simp]:
  "ps_rest (set_thread t f s) = ps_rest s" "ps_rest (s\<lparr>gPsCurrentThread := c\<rparr>) = ps_rest s"
  "ps_rest (HalSetKernelStackPointer v s) = ps_rest s" "ps_rest (s\<lparr>gPsReschedulePending := b\<rparr>) = ps_rest s"
  "ps_rest (HalRegisterTimerTickRoutine r s) = ps_rest s" "ps_rest (s\<lparr>gPsSystemProcess := p\<rparr>) = ps_rest s"
  "ps_rest (s\<lparr>gPsReady := b\<rparr>) = ps_rest s"
  "gPsSystemProcess (set_thread t f s) = gPsSystemProcess s" "gHalTimerTickRoutine (set_thread t f s) = gHalTimerTickRoutine s"
  "gPsSystemProcess (HalSetKernelStackPointer v s) = gPsSystemProcess s"
  "gHalTimerTickRoutine (HalSetKernelStackPointer v s) = gHalTimerTickRoutine s"
  by (simp_all add: ps_rest_def set_thread_def HalSetKernelStackPointer_def HalpSetKernelRsp0_def HalRegisterTimerTickRoutine_def)

lemma dispatch_keeps:
  assumes "PsDispatch s = Some (st, t)"
  shows "gPsSystemProcess t = gPsSystemProcess s \<and> gHalTimerTickRoutine t = gHalTimerTickRoutine s \<and> ps_rest t = ps_rest s"
  using assms
  by (auto simp: PsDispatch_def Let_def bind_eq_Some_conv
      split: if_splits prod.splits option.splits dest!: pop_rest push_rest)

lemma start_keeps:
  assumes "PsCreateKernelThread pr f c True s = (Inr x, t)" "gPsCurrentThread s = None"
  shows "gPsCurrentThread t = None"
proof -
  have "gPsCurrentThread t = gPsCurrentThread s"
    using assms(1) by (auto simp: PsCreateKernelThread_def PspAllocateThreadSlot_def split: if_splits prod.splits sum.splits option.splits
        dest!: ob_create_ps(4))
  with assms(2) show ?thesis by simp
qed

section \<open>Starting the process manager\<close>

lemma initialize_types_ok:
  assumes "gObReady s" "two_free (gObTypeInUse s) OB_MAX_OBJECTS"
  obtains k l tp s1 where
    "PsInitialize_type ''Process'' PspProcessDeleteRoutine_ptr (\<lambda>ty x. x\<lparr>gPsProcessType := ty\<rparr>) s = (KSTATUS_SUCCESS, s1)"
    "PsInitialize_type ''Thread'' PspThreadDeleteRoutine_ptr (\<lambda>ty x. x\<lparr>gPsThreadType := ty\<rparr>) s1 = (KSTATUS_SUCCESS,
       s\<lparr>gObTypeInUse := (gObTypeInUse s)(k := True, l := True), gObTypePool := tp, gPsProcessType := Some k, gPsThreadType := Some l\<rparr>)"
proof -
  obtain k l where kl: "scan (\<lambda>i. \<not> gObTypeInUse s i) 0 OB_MAX_OBJECTS = Some k"
    "scan (\<lambda>i. \<not> ((gObTypeInUse s)(k := True)) i) 0 OB_MAX_OBJECTS = Some l" using two_free_scan [OF assms(2)] .
  obtain tp where 1: "ObCreateType (Some ''Process'') (Some PspProcessDeleteRoutine_ptr) True s =
      (Inr k, s\<lparr>gObTypeInUse := (gObTypeInUse s)(k := True), gObTypePool := tp\<rparr>)"
    using create_type_ok [of s k] assms(1) kl(1) by auto
  define s1 where "s1 = s\<lparr>gObTypeInUse := (gObTypeInUse s)(k := True), gObTypePool := tp, gPsProcessType := Some k\<rparr>"
  obtain tq where 2: "ObCreateType (Some ''Thread'') (Some PspThreadDeleteRoutine_ptr) True s1 =
      (Inr l, s1\<lparr>gObTypeInUse := (gObTypeInUse s1)(l := True), gObTypePool := tq\<rparr>)"
    using create_type_ok [of s1 l] assms(1) kl(2) by (auto simp: s1_def)
  show thesis by (rule that [of s1 l k tq]) (use 1 2 in \<open>simp_all add: PsInitialize_type_def s1_def\<close>)
qed

lemma start_bootstrap_ok:
  assumes "gPsReady s" "gObReady s" "gPsThreadType s = Some ty" "\<not> gPsThreadInUse s 0" "gPsSystemProcess s = Some p"
    and "scan (\<lambda>i. \<not> gObObjectInUse s i) 0 OB_MAX_OBJECTS = Some k" "sched s []" "gPsCurrentThread s = None"
  obtains s1 s2 t where "PsCreateKernelThread (Some p) None 0 True s = (Inr 0, s1)" "PsReadyThread (Some 0) s1 = Some (KSTATUS_SUCCESS, s2)"
    "PsDispatch (HalRegisterTimerTickRoutine (Some PsOnTimerTick_ptr) s2) = Some (KSTATUS_SUCCESS, t)" "sched t []"
    "gPsCurrentThread t = Some 0" "th_OwnerProcess (thread t 0) = Some p" "gPsSystemProcess t = Some p"
    "gHalTimerTickRoutine t = Some PsOnTimerTick_ptr" "ps_rest t = ps_rest s"
proof -
  obtain s1 where s1: "PsCreateKernelThread (Some p) None 0 True s = (Inr 0, s1)" "th_OwnerProcess (thread s1 0) = Some p"
    "gPsSystemProcess s1 = Some p" "ps_rest s1 = ps_rest s"
    using create_thread_ok [OF assms(1-4,6), of p None 0] assms(5) by auto
  obtain s2 where s2: "PsReadyThread (Some 0) s1 = Some (KSTATUS_SUCCESS, s2)" "sched s2 [0]"
    using start_some [OF assms(7) s1(1)] by auto
  define s3 where "s3 = HalRegisterTimerTickRoutine (Some PsOnTimerTick_ptr) s2"
  have o: "th_OwnerProcess (thread s2 0) = Some p" "gPsSystemProcess s2 = Some p" "gPsCurrentThread s2 = None"
    using s2(1) s1 create_sched [OF assms(7) s1(1)] start_keeps [OF s1(1) assms(8)]
    by (auto simp: PsReadyThread_def PspRunQueuePush_def run_queue_push_def set_thread_def Let_def split: if_splits option.splits)
  have r: "ps_rest s2 = ps_rest s1"
    using s2(1) by (auto simp: PsReadyThread_def bind_eq_Some_conv split: if_splits option.splits dest!: push_rest)
  have "sched s3 [0]" using s2(2) by (simp add: s3_def HalRegisterTimerTickRoutine_def sched_def runnable_def)
  from dispatch_sched [OF this] obtain t where t: "PsDispatch s3 = Some (KSTATUS_SUCCESS, t)" "switched s3 0 t" "sched t []"
    using o(3) by (auto simp: s3_def HalRegisterTimerTickRoutine_def)
  have "gPsCurrentThread t = Some 0" "th_OwnerProcess (thread t 0) = Some p"
    using t(2) o by (auto simp: switched_def s3_def HalRegisterTimerTickRoutine_def)
  then show thesis
    by (intro that [OF s1(1) s2(1) _ t(3)])
      (use t(1) dispatch_keeps [OF t(1)] o r s1(4) in \<open>simp_all add: s3_def\<close>, simp_all add: HalRegisterTimerTickRoutine_def)
qed

lemma ps_initialize_ok:
  fixes s :: "'a PS_GLOBALS_scheme"
  assumes "\<not> gPsReady s" and "gObReady s" and "two_free (gObTypeInUse s) OB_MAX_OBJECTS" and "two_free (gObObjectInUse s) OB_MAX_OBJECTS"
    and "mm_resources s" and "\<forall>t. th_State (thread s t) = PsThreadReady"
  obtains k l t where "PsInitialize s = Some (KSTATUS_SUCCESS, t)" "sched t []" "gPsCurrentThread t = Some 0"
    "th_OwnerProcess (thread t 0) = gPsSystemProcess t" "gHalTimerTickRoutine t = Some PsOnTimerTick_ptr"
    "ps_rest t = ps_rest (s\<lparr>gObTypeInUse := (gObTypeInUse s)(k := True, l := True)\<rparr>)"
proof -
  define s0 where "s0 = PsInitialize_reset s"
  have f0: "gObReady s0" "two_free (gObTypeInUse s0) OB_MAX_OBJECTS" using assms(2,3) by (simp_all add: s0_def PsInitialize_reset_def)
  obtain k l tp s1 where ty:
    "PsInitialize_type ''Process'' PspProcessDeleteRoutine_ptr (\<lambda>ty x. x\<lparr>gPsProcessType := ty\<rparr>) s0 = (KSTATUS_SUCCESS, s1)"
    "PsInitialize_type ''Thread'' PspThreadDeleteRoutine_ptr (\<lambda>ty x. x\<lparr>gPsThreadType := ty\<rparr>) s1 = (KSTATUS_SUCCESS,
       s0\<lparr>gObTypeInUse := (gObTypeInUse s0)(k := True, l := True), gObTypePool := tp, gPsProcessType := Some k, gPsThreadType := Some l\<rparr>)"
    using initialize_types_ok [OF f0] .
  define s2 where "s2 = s0\<lparr>gObTypeInUse := (gObTypeInUse s0)(k := True, l := True), gObTypePool := tp, gPsProcessType := Some k, gPsThreadType := Some l\<rparr>"
  note sdef = s2_def s0_def PsInitialize_reset_def
  obtain m n where mn: "scan (\<lambda>i. \<not> gObObjectInUse s i) 0 OB_MAX_OBJECTS = Some m"
    "scan (\<lambda>i. \<not> ((gObObjectInUse s)(m := True)) i) 0 OB_MAX_OBJECTS = Some n" using two_free_scan [OF assms(4)] .
  have r2: "gObReady s2" "gPsProcessType s2 = Some k" "\<not> gPsProcessInUse s2 0" "mm_resources s2"
    "scan (\<lambda>i. \<not> gObObjectInUse s2 i) 0 OB_MAX_OBJECTS = Some m"
    using assms(2,5) mn(1)
    by (simp_all add: sdef mm_resources_def pages_wf_def free_pages_def page_alloc_def PS_MAX_PROCESSES_def)
  obtain s3 where p3: "PspCreateProcessInternal (Some ''proc.system'') True s2 = Some (Inr 0, s3)" "sched_fields_of s3 = sched_fields_of s2"
    "gObReady s3" "gObObjectInUse s3 = (gObObjectInUse s2)(m := True)" "ps_rest s3 = ps_rest s2"
    using create_process_ok [OF r2, of "''proc.system''"] by blast
  define s4 where "s4 = s3\<lparr>gPsSystemProcess := Some 0, gPsReady := True\<rparr>"
  have f4: "gPsReady s4" "gObReady s4" "gPsThreadType s4 = Some l" "\<not> gPsThreadInUse s4 0" "gPsSystemProcess s4 = Some 0"
    "scan (\<lambda>i. \<not> gObObjectInUse s4 i) 0 OB_MAX_OBJECTS = Some n" "sched s4 []" "gPsCurrentThread s4 = None" "ps_rest s4 = ps_rest s2"
    using p3(2-5) mn(2) assms(6) by (simp_all add: s4_def sched_fields_of_def sdef PS_MAX_THREADS_def sched_def ps_rest_def)
  obtain s5 s6 t where b: "PsCreateKernelThread (Some 0) None 0 True s4 = (Inr 0, s5)" "PsReadyThread (Some 0) s5 = Some (KSTATUS_SUCCESS, s6)"
    "PsDispatch (HalRegisterTimerTickRoutine (Some PsOnTimerTick_ptr) s6) = Some (KSTATUS_SUCCESS, t)" "sched t []"
    "gPsCurrentThread t = Some 0" "th_OwnerProcess (thread t 0) = Some 0" "gPsSystemProcess t = Some 0"
    "gHalTimerTickRoutine t = Some PsOnTimerTick_ptr" "ps_rest t = ps_rest s4" using start_bootstrap_ok [OF f4(1-8)] .
  have "PsInitialize s = Some (KSTATUS_SUCCESS, t)"
    using assms(1) ty p3(1) b(1-3) by (simp add: PsInitialize_def s0_def [symmetric] s2_def [symmetric] PspCreateSystemProcess_def s4_def [symmetric])
  with b(4-9) f4(9) show thesis by (intro that [of t k l]) (simp_all add: sdef ps_rest_def)
qed

section \<open>Properties\<close>

text \<open>Initialisation establishes the scheduler invariant.  With the object and memory managers up, two
  free object types, two free objects, a free address space and a free page, \<^verbatim>\<open>PsInitialize\<close>
  succeeds: the bootstrap thread of the system process runs, nothing else is queued, and the timer
  routine is registered.\<close>

theorem PsInitialize_ok:
  fixes s :: "'a PS_GLOBALS_scheme"
  assumes "\<not> gPsReady s" and "gObReady s" and "two_free (gObTypeInUse s) OB_MAX_OBJECTS" and "two_free (gObObjectInUse s) OB_MAX_OBJECTS"
    and "mm_resources s" and "\<forall>t. th_State (thread s t) = PsThreadReady"
  shows "\<exists>t. PsInitialize s = Some (KSTATUS_SUCCESS, t) \<and> sched t [] \<and> gPsCurrentThread t = Some 0 \<and>
    th_OwnerProcess (thread t 0) = gPsSystemProcess t \<and> gHalTimerTickRoutine t = Some PsOnTimerTick_ptr"
  by (rule ps_initialize_ok [OF assms]) auto

text \<open>The machine of \<open>mm_small\<close> with the object manager up and nothing allocated yet.\<close>

definition ps_boot :: PS_GLOBALS where
  "ps_boot = ps_bss\<lparr>gObReady := True, gMmReady := True, gMmTrackedPages := 4, gMmPageBitmap := (\<lambda>_. 1),
     gMmKernelRootTablePhysical := 0x1000\<rparr>"

theorem PsInitialize_ok_witness:
  "\<exists>t. PsInitialize ps_boot = Some (KSTATUS_SUCCESS, t) \<and> sched t [] \<and> gPsCurrentThread t = Some 0"
proof -
  have "\<not> gPsReady ps_boot" "gObReady ps_boot" "\<forall>t. th_State (thread ps_boot t) = PsThreadReady"
    by (simp_all add: ps_boot_def ps_bss_def MM_GLOBALS.defs PS_GLOBALS.defs)
  moreover have "two_free (gObTypeInUse ps_boot) OB_MAX_OBJECTS" "two_free (gObObjectInUse ps_boot) OB_MAX_OBJECTS"
    unfolding two_free_def by (intro exI [of _ 0] exI [of _ 1]; simp add: ps_boot_def ps_bss_def mm_bss_eval MM_GLOBALS.defs PS_GLOBALS.defs OB_MAX_OBJECTS_def)+
  moreover have "mm_resources ps_boot"
  proof -
    have f: "gMmTrackedPages ps_boot = 4" "gMmPageBitmap ps_boot = (\<lambda>_. 1)" "gMmNextScanPage ps_boot = 0"
      "gMmPageRefCount ps_boot = (\<lambda>_. 0)" "gMmAddressSpaceInUse ps_boot = (\<lambda>_. False)" "gMmReady ps_boot"
      "gMmKernelRootTablePhysical ps_boot = 0x1000"
      by (simp_all add: ps_boot_def ps_bss_def mm_bss_eval MM_GLOBALS.defs PS_GLOBALS.defs)
    have "\<not> page_alloc ps_boot 1" by (simp add: page_alloc_def f)
    then have "0 < free_pages ps_boot" unfolding free_pages_def by (subst card_gt_0_iff) (auto simp: f intro: exI [of _ 1])
    then show ?thesis by (simp add: mm_resources_def f pages_wf_def MM_MAX_TRACKED_PAGES_def MM_MAX_ADDRESS_SPACES_def exI [of _ 0])
  qed
  ultimately show ?thesis using PsInitialize_ok [of ps_boot] by blast
qed

end
