(* ===== verification/NtxLpc.thy ===== *)
theory NtxLpc
  imports NtxPsInit
begin

text \<open>
  Local ports, \<^verbatim>\<open>kernel/lpc/init.c\<close>: port objects named by handles, the messages queued in them
  and the threads that wait for one.

  \<^verbatim>\<open>LpcReceiveByHandle\<close> blocks the current thread in a loop.  \<^verbatim>\<open>PsBlockCurrentThread\<close> returns
  without switching contexts (\<open>PsBlockCurrentThread_no_switch\<close>), so the loop continues in the same
  call; the model follows it.  \<open>None\<close> is a halted kernel or a loop that never ends.
\<close>

section \<open>Definitions\<close>

definition LPC_OPCODE_BASE :: u32 where "LPC_OPCODE_BASE = 0x1100"
definition LPC_PORT_ACCESS_SEND :: u32 where "LPC_PORT_ACCESS_SEND = 2"
definition LPC_PORT_ACCESS_RECV :: u32 where "LPC_PORT_ACCESS_RECV = 1"
definition LPC_PORT_ACCESS_ALL :: u32 where "LPC_PORT_ACCESS_ALL = LPC_PORT_ACCESS_SEND OR LPC_PORT_ACCESS_RECV"
definition LPC_MAX_PORT_OBJECTS :: nat where "LPC_MAX_PORT_OBJECTS = 128"

record LPC_PORT_OBJECT =
  lp_Header :: ptr
  lp_Port :: NK_PORT
  lp_WaitHead :: ptr
  lp_WaitTail :: ptr

record LPC_GLOBALS = PS_GLOBALS +
  gLpcSystemEndpoint :: NK_SERVICE_ENDPOINT
  gLpcPortType :: ptr
  gLpcPortPool :: "nat \<Rightarrow> LPC_PORT_OBJECT"
  gLpcPortInUse :: "nat \<Rightarrow> bool"
  gLpcReady :: bool

type_synonym 'a delete_dispatch = "OB_DELETE_ROUTINE \<Rightarrow> nat \<Rightarrow> 'a LPC_GLOBALS_scheme \<Rightarrow> 'a LPC_GLOBALS_scheme"

definition set_port :: "nat \<Rightarrow> (LPC_PORT_OBJECT \<Rightarrow> LPC_PORT_OBJECT) \<Rightarrow> 'a LPC_GLOBALS_scheme \<Rightarrow> 'a LPC_GLOBALS_scheme" where
  "set_port p f s = s\<lparr>gLpcPortPool := (gLpcPortPool s)(p := f (gLpcPortPool s p))\<rparr>"

definition LpcpFindPortByHeader :: "ptr \<Rightarrow> 'a LPC_GLOBALS_scheme \<Rightarrow> ptr" where
  "LpcpFindPortByHeader Header s =
     scan (\<lambda>i. gLpcPortInUse s i \<and> lp_Header (gLpcPortPool s i) = Header) 0 LPC_MAX_PORT_OBJECTS"

definition LpcpDeletePortObject :: "ptr \<Rightarrow> 'a LPC_GLOBALS_scheme \<Rightarrow> 'a LPC_GLOBALS_scheme" where
  "LpcpDeletePortObject Object s =
     (case scan (\<lambda>i. gLpcPortInUse s i \<and> lp_Header (gLpcPortPool s i) = Object) 0 LPC_MAX_PORT_OBJECTS of
        None \<Rightarrow> s
      | Some Index \<Rightarrow>
          set_port Index (\<lambda>p. p\<lparr>lp_Header := None, lp_WaitHead := None, lp_WaitTail := None\<rparr>)
            (s\<lparr>gLpcPortInUse := (gLpcPortInUse s)(Index := False)\<rparr>))"

definition LpcpAllocatePortSlot :: "'a LPC_GLOBALS_scheme \<Rightarrow> ptr \<times> 'a LPC_GLOBALS_scheme" where
  "LpcpAllocatePortSlot s =
     (case scan (\<lambda>i. \<not> gLpcPortInUse s i) 0 LPC_MAX_PORT_OBJECTS of
        None \<Rightarrow> (None, s)
      | Some Index \<Rightarrow>
          (Some Index, set_port Index (\<lambda>p. p\<lparr>lp_Header := None, lp_WaitHead := None, lp_WaitTail := None\<rparr>)
            (s\<lparr>gLpcPortInUse := (gLpcPortInUse s)(Index := True)\<rparr>)))"

subsection \<open>Waiters\<close>

definition LpcpEnqueueWaiter :: "ptr \<Rightarrow> ptr \<Rightarrow> 'a LPC_GLOBALS_scheme \<Rightarrow> 'a LPC_GLOBALS_scheme" where
  "LpcpEnqueueWaiter Port Thread s =
     (case (Port, Thread) of
        (Some p, Some t) \<Rightarrow>
          let s1 = set_thread t (\<lambda>x. x\<lparr>th_WaitQueueNext := None\<rparr>) s
          in (case lp_WaitTail (gLpcPortPool s1 p) of
                None \<Rightarrow> set_port p (\<lambda>x. x\<lparr>lp_WaitHead := Some t, lp_WaitTail := Some t\<rparr>) s1
              | Some Tail \<Rightarrow>
                  set_port p (\<lambda>x. x\<lparr>lp_WaitTail := Some t\<rparr>)
                    (set_thread Tail (\<lambda>x. x\<lparr>th_WaitQueueNext := Some t\<rparr>) s1))
      | _ \<Rightarrow> s)"

definition LpcpDequeueWaiter :: "ptr \<Rightarrow> 'a LPC_GLOBALS_scheme \<Rightarrow> ptr \<times> 'a LPC_GLOBALS_scheme" where
  "LpcpDequeueWaiter Port s =
     (case Port of
        None \<Rightarrow> (None, s)
      | Some p \<Rightarrow>
          (case lp_WaitHead (gLpcPortPool s p) of
             None \<Rightarrow> (None, s)
           | Some t \<Rightarrow>
               let s1 = set_port p (\<lambda>x. x\<lparr>lp_WaitHead := th_WaitQueueNext (gPsThreadPool s t)\<rparr>) s;
                   s2 = (if lp_WaitHead (gLpcPortPool s1 p) = None then set_port p (\<lambda>x. x\<lparr>lp_WaitTail := None\<rparr>) s1 else s1)
               in (Some t, set_thread t (\<lambda>x. x\<lparr>th_WaitQueueNext := None\<rparr>) s2)))"

subsection \<open>Ports by handle\<close>

text \<open>On success: the object header and the port.\<close>

definition LpcpReferencePortByHandle ::
    "'a delete_dispatch \<Rightarrow> u32 \<Rightarrow> u32 \<Rightarrow> outptr \<Rightarrow> outptr \<Rightarrow> 'a LPC_GLOBALS_scheme \<Rightarrow> (KSTATUS + nat \<times> nat) \<times> 'a LPC_GLOBALS_scheme"
  where
  "LpcpReferencePortByHandle del HandleValue DesiredAccess OutHeader OutPort s =
     (if \<not> OutHeader \<or> \<not> OutPort then (Inl KSTATUS_INVALID_PARAMETER, s)
      else
        let HandleTable = ObGetKernelHandleTable s in
        if HandleTable = None \<or> gLpcPortType s = None then (Inl KSTATUS_INVALID_PARAMETER, s)
        else case ObReferenceObjectByHandle HandleTable HandleValue DesiredAccess (gLpcPortType s) True s of
          (Inl Status, s1) \<Rightarrow> (Inl Status, s1)
        | (Inr Header, s1) \<Rightarrow>
            (case LpcpFindPortByHeader (Some Header) s1 of
               None \<Rightarrow> (Inl KSTATUS_NOT_FOUND, snd (ObDereferenceObject del (Some Header) s1))
             | Some Port \<Rightarrow> (Inr (Header, Port), s1)))"

definition LpcInitialize :: "'a LPC_GLOBALS_scheme \<Rightarrow> KSTATUS \<times> 'a LPC_GLOBALS_scheme" where
  "LpcInitialize s =
     (if gLpcReady s then (KSTATUS_ALREADY_INITIALIZED, s)
      else
        let s1 = s\<lparr>gLpcPortInUse := array_fill LPC_MAX_PORT_OBJECTS False (gLpcPortInUse s)\<rparr>
        in case NkServiceEndpointInitialize (Some (gLpcSystemEndpoint s1)) (Some ''lpc.system'') LPC_OPCODE_BASE 0 s1 of
             ((Status, ep), s2) \<Rightarrow>
               let s3 = s2\<lparr>gLpcSystemEndpoint := the ep\<rparr>
               in if Status \<noteq> KSTATUS_SUCCESS then (Status, s3)
                  else case ObCreateType (Some ''LpcPort'') (Some LpcpDeletePortObject_ptr) True s3 of
                    (Inl Status, s4) \<Rightarrow> (Status, s4)
                  | (Inr ty, s4) \<Rightarrow> (KSTATUS_SUCCESS, s4\<lparr>gLpcPortType := Some ty, gLpcReady := True\<rparr>))"

definition LpcGetSystemEndpoint :: "outptr \<Rightarrow> 'a LPC_GLOBALS_scheme \<Rightarrow> KSTATUS + NK_SERVICE_ENDPOINT" where
  "LpcGetSystemEndpoint OutEndpoint s =
     (if \<not> OutEndpoint \<or> \<not> gLpcReady s then Inl KSTATUS_INVALID_PARAMETER else Inr (gLpcSystemEndpoint s))"

definition LpcCreatePortHandle ::
    "'a delete_dispatch \<Rightarrow> u32 \<Rightarrow> outptr \<Rightarrow> 'a LPC_GLOBALS_scheme \<Rightarrow> (KSTATUS + u32) \<times> 'a LPC_GLOBALS_scheme" where
  "LpcCreatePortHandle del DesiredAccess OutHandle s =
     (if \<not> gLpcReady s \<or> \<not> OutHandle then (Inl KSTATUS_INVALID_PARAMETER, s)
      else case LpcpAllocatePortSlot s of
        (None, s1) \<Rightarrow> (Inl KSTATUS_INIT_FAILED, s1)
      | (Some Port, s1) \<Rightarrow>
          (case ObCreateObject (gLpcPortType s1) (Some ''lpc.port'') LPC_PORT_ACCESS_ALL OB_FLAG_WAITABLE True s1 of
             (Inl Status, s2) \<Rightarrow> (Inl Status, s2)
           | (Inr Header, s2) \<Rightarrow>
               (case NkPortInitialize (Some (lp_Port (gLpcPortPool s2 Port))) s2 of
                  ((Status, p), s3) \<Rightarrow>
                    let s4 = set_port Port (\<lambda>x. x\<lparr>lp_Port := the p\<rparr>) s3
                    in if Status \<noteq> KSTATUS_SUCCESS
                       then (Inl Status, snd (ObDereferenceObject del (Some Header) s4))
                       else
                         let s5 = set_port Port (\<lambda>x. x\<lparr>lp_Header := Some Header\<rparr>) s4
                         in case ObInsertHandle (ObGetKernelHandleTable s5) (Some Header) DesiredAccess True s5 of
                              (r, s6) \<Rightarrow> (r, snd (ObDereferenceObject del (Some Header) s6)))))"

definition LpcSendByHandle ::
    "'a delete_dispatch \<Rightarrow> u32 \<Rightarrow> NK_MESSAGE option \<Rightarrow> bool \<Rightarrow> 'a LPC_GLOBALS_scheme \<Rightarrow> (KSTATUS \<times> 'a LPC_GLOBALS_scheme) option"
  where
  "LpcSendByHandle del HandleValue Message Wait s =
     (if \<not> gLpcReady s \<or> Message = None then Some (KSTATUS_INVALID_PARAMETER, s)
      else case LpcpReferencePortByHandle del HandleValue LPC_PORT_ACCESS_SEND True True s of
        (Inl Status, s1) \<Rightarrow> Some (Status, s1)
      | (Inr (Header, Port), s1) \<Rightarrow>
          let s2 = HalDisableInterrupts s1
          in case NkPortSend (Some (lp_Port (gLpcPortPool s2 Port))) Message of
               (Status, p) \<Rightarrow>
                 let s3 = set_port Port (\<lambda>x. x\<lparr>lp_Port := the p\<rparr>) s2
                 in if Status = KSTATUS_SUCCESS then
                      (case LpcpDequeueWaiter (Some Port) s3 of
                         (Waiter, s4) \<Rightarrow> do {
                           s5 \<leftarrow> (if Waiter \<noteq> None then PsWakeThread Waiter s4 else Some s4);
                           Some (KSTATUS_SUCCESS, snd (ObDereferenceObject del (Some Header) (HalEnableInterrupts s5))) })
                    else Some (KSTATUS_WOULD_BLOCK, snd (ObDereferenceObject del (Some Header) (HalEnableInterrupts s3))))"

text \<open>One pass of the receive loop: either a result, or the state in which the loop continues.\<close>

definition receive_pass ::
    "'a delete_dispatch \<Rightarrow> u32 \<Rightarrow> bool \<Rightarrow> nat \<Rightarrow> 'a LPC_GLOBALS_scheme \<Rightarrow>
     ((KSTATUS + NK_MESSAGE) option \<times> 'a LPC_GLOBALS_scheme) option" where
  "receive_pass del HandleValue Wait Current s =
     (case LpcpReferencePortByHandle del HandleValue LPC_PORT_ACCESS_RECV True True s of
        (Inl Status, s1) \<Rightarrow> Some (Some (Inl Status), s1)
      | (Inr (Header, Port), s1) \<Rightarrow>
          let s2 = HalDisableInterrupts s1
          in case NkPortReceive (Some (lp_Port (gLpcPortPool s2 Port))) True of
               (r, p) \<Rightarrow>
                 let s3 = set_port Port (\<lambda>x. x\<lparr>lp_Port := the p\<rparr>) s2
                 in (case r of
                       Inr m \<Rightarrow> Some (Some (Inr m), snd (ObDereferenceObject del (Some Header) (HalEnableInterrupts s3)))
                     | Inl _ \<Rightarrow>
                         if \<not> Wait
                         then Some (Some (Inl KSTATUS_WOULD_BLOCK), snd (ObDereferenceObject del (Some Header) (HalEnableInterrupts s3)))
                         else
                           let s4 = HalEnableInterrupts (LpcpEnqueueWaiter (Some Port) (Some Current) s3);
                               s5 = snd (ObDereferenceObject del (Some Header) s4)
                           in do {
                             (Status, s6) \<leftarrow> PsBlockCurrentThread s5;
                             Some (if Status \<noteq> KSTATUS_SUCCESS then Some (Inl Status) else None, s6) }))"

partial_function (option) receive_loop ::
    "'a delete_dispatch \<Rightarrow> u32 \<Rightarrow> bool \<Rightarrow> nat \<Rightarrow> 'a LPC_GLOBALS_scheme \<Rightarrow> ((KSTATUS + NK_MESSAGE) \<times> 'a LPC_GLOBALS_scheme) option" where
  "receive_loop del HandleValue Wait Current s = do {
     (r, t) \<leftarrow> receive_pass del HandleValue Wait Current s;
     (case r of Some v \<Rightarrow> Some (v, t) | None \<Rightarrow> receive_loop del HandleValue Wait Current t) }"

definition LpcReceiveByHandle ::
    "'a delete_dispatch \<Rightarrow> u32 \<Rightarrow> outptr \<Rightarrow> bool \<Rightarrow> 'a LPC_GLOBALS_scheme \<Rightarrow> ((KSTATUS + NK_MESSAGE) \<times> 'a LPC_GLOBALS_scheme) option"
  where
  "LpcReceiveByHandle del HandleValue OutMessage Wait s =
     (if \<not> gLpcReady s \<or> \<not> OutMessage then Some (Inl KSTATUS_INVALID_PARAMETER, s)
      else case PsGetCurrentThread s of
        None \<Rightarrow> Some (Inl KSTATUS_INVALID_PARAMETER, s)
      | Some Current \<Rightarrow> receive_loop del HandleValue Wait Current s)"

definition LpcCloseHandle :: "'a delete_dispatch \<Rightarrow> u32 \<Rightarrow> 'a LPC_GLOBALS_scheme \<Rightarrow> KSTATUS \<times> 'a LPC_GLOBALS_scheme" where
  "LpcCloseHandle del HandleValue s =
     (let HandleTable = ObGetKernelHandleTable s in
      if HandleTable = None \<or> HandleValue = 0 then (KSTATUS_INVALID_PARAMETER, s)
      else ObCloseHandle del HandleTable HandleValue s)"

definition LpcpWriteHexLine :: "string \<Rightarrow> u64 \<Rightarrow> string option" where
  "LpcpWriteHexLine Prefix Value = ObpWriteHexLine 128 Prefix Value"

definition LpcDumpState :: "'a LPC_GLOBALS_scheme \<Rightarrow> string option" where
  "LpcDumpState s =
     (if \<not> gLpcReady s then Some []
      else do {
        body \<leftarrow> concat_lines (\<lambda>i.
          if \<not> gLpcPortInUse s i then Some []
          else do {
            hd \<leftarrow> (case lp_Header (gLpcPortPool s i) of
                     None \<Rightarrow> Some (''<null>'' @ [CHR 0x0A])
                   | Some h \<Rightarrow> do {
                       l \<leftarrow> LpcpWriteHexLine ''[LPCDBG] port.id='' (oh_ObjectId (ob_object s h));
                       Some (c_str (oh_Name (ob_object s h)) @ [CHR 0x0A] @ l) });
            l1 \<leftarrow> LpcpWriteHexLine ''[LPCDBG] queue.count='' (ucast (port_Count (lp_Port (gLpcPortPool s i))));
            l2 \<leftarrow> LpcpWriteHexLine ''[LPCDBG] queue.head='' (ucast (port_Head (lp_Port (gLpcPortPool s i))));
            l3 \<leftarrow> LpcpWriteHexLine ''[LPCDBG] queue.tail='' (ucast (port_Tail (lp_Port (gLpcPortPool s i))));
            Some (''[LPCDBG] port.name='' @ hd @ l1 @ l2 @ l3) }) [0..<LPC_MAX_PORT_OBJECTS];
        Some (''[LPCDBG] ports begin'' @ [CHR 0x0A] @ body @ ''[LPCDBG] ports end'' @ [CHR 0x0A]) })"

section \<open>Waiter queues and port slots\<close>

lemma set_port_simps [simp]:
  "gLpcPortPool (set_port p f s) = (gLpcPortPool s)(p := f (gLpcPortPool s p))" "gPsThreadPool (set_port p f s) = gPsThreadPool s"
  "gLpcPortInUse (set_port p f s) = gLpcPortInUse s" "gLpcReady (set_port p f s) = gLpcReady s"
  "gPsReady (set_port p f s) = gPsReady s" "gPsThreadInUse (set_port p f s) = gPsThreadInUse s"
  "gPsCurrentThread (set_port p f s) = gPsCurrentThread s" "gPsRunQueueHead (set_port p f s) = gPsRunQueueHead s"
  "gPsRunQueueTail (set_port p f s) = gPsRunQueueTail s" "gLpcPortType (set_port p f s) = gLpcPortType s"
  by (simp_all add: set_port_def)

lemma set_thread_lpc [simp]:
  "gLpcPortPool (set_thread t f s) = gLpcPortPool s" "gLpcPortInUse (set_thread t f s) = gLpcPortInUse s"
  "gLpcReady (set_thread t f s) = gLpcReady s" "gLpcPortType (set_thread t f s) = gLpcPortType s"
  by (simp_all add: set_thread_def)

interpretation lpcq: linked_queue "\<lambda>s t. th_WaitQueueNext (gPsThreadPool s t)" "\<lambda>s. lp_WaitHead (gLpcPortPool s p)"
    "\<lambda>s. lp_WaitTail (gLpcPortPool s p)" "\<lambda>t. LpcpEnqueueWaiter (Some p) (Some t)" "LpcpDequeueWaiter (Some p)" for p
  by unfold_locales (auto simp: LpcpEnqueueWaiter_def LpcpDequeueWaiter_def Let_def fun_eq_iff split: option.splits)

interpretation lpc_slots: slot_pool "\<lambda>_. True" gLpcPortInUse "\<lambda>_. LPC_MAX_PORT_OBJECTS" LpcpAllocatePortSlot
  by unfold_locales
    (auto simp: LpcpAllocatePortSlot_def scan_None_iff split: option.splits dest: scan0_SomeD)

interpretation ps_slots: slot_pool "\<lambda>_. True" gPsThreadInUse "\<lambda>_. PS_MAX_THREADS"
    "\<lambda>s. case PspAllocateThreadSlot True s of (r, t) \<Rightarrow> (case r of Inl _ \<Rightarrow> None | Inr i \<Rightarrow> Some i, t)"
  by unfold_locales
    (auto simp: PspAllocateThreadSlot_def scan_None_iff split: option.splits dest: scan0_SomeD)

section \<open>What the scheduler leaves alone\<close>

text \<open>The fields the dispatcher may change, set to fixed values: two states with the same
  \<open>ps_erase\<close> agree on everything else.\<close>

definition ps_erase :: "'a PS_GLOBALS_scheme \<Rightarrow> 'a PS_GLOBALS_scheme" where
  "ps_erase s = s\<lparr>hw_cr3 := 0, hw_cpu := undefined, hw_if := False, gAur64Tss_Rsp0 := 0, gPsThreadPool := undefined,
     gPsCurrentThread := None, gPsRunQueueHead := None, gPsRunQueueTail := None, gPsReschedulePending := False\<rparr>"

lemma ps_erase_simps [simp]:
  "ps_erase (set_thread t f s) = ps_erase s" "ps_erase (run_queue_push t s) = ps_erase s"
  "ps_erase (HalDisableInterrupts s) = ps_erase s" "ps_erase (HalEnableInterrupts s) = ps_erase s"
  "ps_erase (s\<lparr>gPsCurrentThread := c\<rparr>) = ps_erase s" "ps_erase (s\<lparr>gPsReschedulePending := b\<rparr>) = ps_erase s"
  "ps_erase (s\<lparr>hw_cr3 := r\<rparr>) = ps_erase s" "ps_erase (s\<lparr>hw_cpu := k\<rparr>) = ps_erase s"
  "ps_erase (HalSetKernelStackPointer v s) = ps_erase s" "ps_erase (snd (PspRunQueuePop s)) = ps_erase s"
  by (auto simp: ps_erase_def set_thread_def run_queue_push_def Let_def HalDisableInterrupts_def HalEnableInterrupts_def
      HalSetKernelStackPointer_def HalpSetKernelRsp0_def PspRunQueuePop_def split: option.splits)

lemma ps_erase_activate [simp]: "ps_erase (snd (MmActivateAddressSpace a s)) = ps_erase s"
  using activate_shape [of a s] by auto

lemma ps_erase_switch [simp]: "ps_erase (switch_threads p x s) = ps_erase s"
  by (auto simp: switch_threads_def split: option.splits prod.splits)

lemma ps_erase_dispatch:
  assumes "PsDispatch s = Some (st, t)"
  shows "ps_erase t = ps_erase s"
proof -
  obtain r s1 where p: "PspRunQueuePop s = (r, s1)" by fastforce
  then have e: "ps_erase s1 = ps_erase s" using ps_erase_simps(10) [of s] by simp
  show ?thesis
    using assms e
    by (auto simp: PsDispatch_def PspRunQueuePush_def Let_def p split: if_splits option.splits)
qed

lemma ps_erase_block: "PsBlockCurrentThread s = Some (st, t) \<Longrightarrow> ps_erase t = ps_erase s"
  by (auto simp: PsBlockCurrentThread_def split: option.splits if_splits dest!: ps_erase_dispatch)

lemma ps_erase_eqD:
  fixes s t :: "'a LPC_GLOBALS_scheme"
  assumes "ps_erase t = ps_erase s"
  shows "gLpcReady t = gLpcReady s" "gLpcPortPool t = gLpcPortPool s" "gLpcPortInUse t = gLpcPortInUse s"
    "gLpcPortType t = gLpcPortType s" "gObReady t = gObReady s" "gObObjectPool t = gObObjectPool s"
    "gObKernelHandleTable t = gObKernelHandleTable s" "gPsReady t = gPsReady s" "gPsThreadInUse t = gPsThreadInUse s"
  using assms [THEN arg_cong, of gLpcReady] assms [THEN arg_cong, of gLpcPortPool] assms [THEN arg_cong, of gLpcPortInUse]
    assms [THEN arg_cong, of gLpcPortType] assms [THEN arg_cong, of gObReady] assms [THEN arg_cong, of gObObjectPool]
    assms [THEN arg_cong, of gObKernelHandleTable] assms [THEN arg_cong, of gPsReady] assms [THEN arg_cong, of gPsThreadInUse]
  by (simp_all add: ps_erase_def)

section \<open>Ports by handle\<close>

text \<open>\<open>port_at del s h acc ob p\<close>: the handle \<open>h\<close> names the live port \<open>p\<close>, whose object is \<open>ob\<close>, with access
  \<open>acc\<close>; the object's reference count is neither 0 nor at its maximum.\<close>

definition port_at :: "'a delete_dispatch \<Rightarrow> 'a LPC_GLOBALS_scheme \<Rightarrow> u32 \<Rightarrow> u32 \<Rightarrow> nat \<Rightarrow> nat \<Rightarrow> bool" where
  "port_at del s h acc ob p \<longleftrightarrow> gLpcReady s \<and> fst (LpcpReferencePortByHandle del h acc True True s) = Inr (ob, p) \<and>
     oh_RefCount (ob_object s ob) \<noteq> 0 \<and> oh_RefCount (ob_object s ob) + 1 \<noteq> 0"

lemma reference_state:
  "ObReferenceObjectByHandle ht v acc ty out s = (Inr obj, t) \<Longrightarrow>
   t = set_object obj ((ob_object s obj)\<lparr>oh_RefCount := oh_RefCount (ob_object s obj) + 1\<rparr>) s"
  by (elim ObReferenceObjectByHandle_Inr)

lemma port_at_reference:
  assumes "port_at del s h acc ob p"
  shows "LpcpReferencePortByHandle del h acc True True s =
      (Inr (ob, p), set_object ob ((ob_object s ob)\<lparr>oh_RefCount := oh_RefCount (ob_object s ob) + 1\<rparr>) s)"
    and "gObReady s"
proof -
  obtain r s1 where r: "ObReferenceObjectByHandle (ObGetKernelHandleTable s) h acc (gLpcPortType s) True s = (r, s1)" by fastforce
  show "LpcpReferencePortByHandle del h acc True True s =
      (Inr (ob, p), set_object ob ((ob_object s ob)\<lparr>oh_RefCount := oh_RefCount (ob_object s ob) + 1\<rparr>) s)"
    using assms reference_state [of _ h acc "gLpcPortType s" True s ob s1] r
    by (auto simp: port_at_def LpcpReferencePortByHandle_def Let_def split: if_splits sum.splits option.splits)
  show "gObReady s"
    using assms by (auto simp: port_at_def LpcpReferencePortByHandle_def ObGetKernelHandleTable_def Let_def split: if_splits)
qed

text \<open>Giving back a reference that was taken when the count was not 0 deletes nothing.\<close>

lemma deref_back:
  assumes "gObReady s" "ob_object s ob = hdr\<lparr>oh_RefCount := oh_RefCount hdr + 1\<rparr>"
    "oh_RefCount hdr \<noteq> 0" "oh_RefCount hdr + 1 \<noteq> 0"
  shows "snd (ObDereferenceObject del (Some ob) s) = set_object ob hdr s"
  using assms by (simp add: ObDereferenceObject_def Let_def)

text \<open>Whether a handle names a port depends on these fields only.\<close>

lemma port_at_cong:
  assumes "port_at del s h acc ob p" "gLpcReady t = gLpcReady s" "gLpcPortType t = gLpcPortType s" "gLpcPortInUse t = gLpcPortInUse s"
    "gObReady t = gObReady s" "gObObjectPool t = gObObjectPool s" "gObKernelHandleTable t = gObKernelHandleTable s"
    "\<And>i. lp_Header (gLpcPortPool t i) = lp_Header (gLpcPortPool s i)"
  shows "port_at del t h acc ob p"
proof -
  have f: "LpcpFindPortByHeader x (set_object k v t) = LpcpFindPortByHeader x (set_object k v s)" for x k v
    using assms by (simp add: LpcpFindPortByHeader_def set_object_def)
  show ?thesis
    using assms(1)
    by (auto simp: port_at_def LpcpReferencePortByHandle_def ObReferenceObjectByHandle_def ObGetKernelHandleTable_def
        ObpFindHandleEntry_def Let_def assms(2-7) f split: if_splits sum.splits option.splits)
qed

section \<open>Sending and receiving\<close>

definition port_quiet :: "'a LPC_GLOBALS_scheme \<Rightarrow> nat \<Rightarrow> bool" where
  "port_quiet s p \<longleftrightarrow> lp_WaitHead (gLpcPortPool s p) = None"

text \<open>A state with the messages of port \<open>p\<close> replaced, interrupts enabled.\<close>

definition with_port :: "nat \<Rightarrow> NK_PORT \<Rightarrow> 'a LPC_GLOBALS_scheme \<Rightarrow> 'a LPC_GLOBALS_scheme" where
  "with_port p q s = HalEnableInterrupts (set_port p (\<lambda>x. x\<lparr>lp_Port := q\<rparr>) s)"

lemma with_port_simps [simp]:
  "gLpcPortPool (with_port p q s) = (gLpcPortPool s)(p := (gLpcPortPool s p)\<lparr>lp_Port := q\<rparr>)"
  "gLpcReady (with_port p q s) = gLpcReady s" "gLpcPortInUse (with_port p q s) = gLpcPortInUse s"
  "gLpcPortType (with_port p q s) = gLpcPortType s" "gObReady (with_port p q s) = gObReady s"
  "gObObjectPool (with_port p q s) = gObObjectPool s" "gObKernelHandleTable (with_port p q s) = gObKernelHandleTable s"
  "gPsCurrentThread (with_port p q s) = gPsCurrentThread s" "gPsThreadPool (with_port p q s) = gPsThreadPool s"
  "with_port p q (with_port p q' s) = with_port p q s"
  by (simp_all add: with_port_def HalEnableInterrupts_def set_port_def)

lemma with_port_at: "port_at del s h acc ob p \<Longrightarrow> port_at del (with_port k q s) h acc ob p"
  by (erule port_at_cong) auto

lemma handle_frame:
  "set_object ob hdr (HalEnableInterrupts (set_port p f (HalDisableInterrupts (set_object ob h' s)))) =
   HalEnableInterrupts (set_port p f (set_object ob hdr s))"
  "HalEnableInterrupts (set_port p f (set_object ob (ob_object s ob) s)) = HalEnableInterrupts (set_port p f s)"
  by (simp_all add: HalEnableInterrupts_def HalDisableInterrupts_def set_port_def set_object_def)

lemma send_quiet:
  assumes "port_at del s h LPC_PORT_ACCESS_SEND ob p" "port_quiet s p"
  shows "LpcSendByHandle del h (Some m) w s = Some (case port_send (lp_Port (gLpcPortPool s p)) m of (st, q) \<Rightarrow>
      (if st = KSTATUS_SUCCESS then KSTATUS_SUCCESS else KSTATUS_WOULD_BLOCK, with_port p q s))"
proof -
  note r = port_at_reference [OF assms(1)]
  show ?thesis
    using assms r(2)
    by (auto simp: LpcSendByHandle_def r(1) port_at_def port_quiet_def port_send_def LpcpDequeueWaiter_def Let_def deref_back
        with_port_def handle_frame HalEnableInterrupts_def HalDisableInterrupts_def set_port_def set_object_def NkPortSend_def
        split: prod.splits)
qed

lemma receive_once:
  assumes "port_at del s h LPC_PORT_ACCESS_RECV ob p" "gPsCurrentThread s \<noteq> None"
    "port_receive (lp_Port (gLpcPortPool s p)) = (r, q)" "\<not> w \<or> (\<exists>m. r = Inr m)"
  shows "LpcReceiveByHandle del h True w s = Some (case r of Inr m \<Rightarrow> Inr m | Inl _ \<Rightarrow> Inl KSTATUS_WOULD_BLOCK, with_port p q s)"
proof -
  note a = port_at_reference [OF assms(1)]
  obtain r' q' where n: "NkPortReceive (Some (lp_Port (gLpcPortPool s p))) True = (r', q')" by fastforce
  with assms(3) have e: "r' = r" "the q' = q" by (simp_all add: port_receive_def)
  have p: "receive_pass del h w c s = Some (Some (case r of Inr m \<Rightarrow> Inr m | Inl _ \<Rightarrow> Inl KSTATUS_WOULD_BLOCK), with_port p q s)" for c
    using assms(1,4) a(2) n e
    by (auto simp: receive_pass_def a(1) port_at_def Let_def deref_back with_port_def
        HalEnableInterrupts_def HalDisableInterrupts_def set_port_def set_object_def split: prod.splits sum.splits)
  show ?thesis
    using assms(1,2) p by (auto simp: LpcReceiveByHandle_def PsGetCurrentThread_def port_at_def receive_loop.simps)
qed

text \<open>Any sequence of sends and non-waiting receives through one handle.\<close>

fun lpc_step :: "'a delete_dispatch \<Rightarrow> u32 \<Rightarrow> NK_MESSAGE fifo_op \<Rightarrow> 'a LPC_GLOBALS_scheme \<Rightarrow>
    ((KSTATUS + NK_MESSAGE) \<times> 'a LPC_GLOBALS_scheme) option" where
  "lpc_step del h (Fifo_Send m) s = map_option (\<lambda>(st, t). (Inl st, t)) (LpcSendByHandle del h (Some m) False s)"
| "lpc_step del h Fifo_Receive s = LpcReceiveByHandle del h True False s"

fun lpc_run :: "'a delete_dispatch \<Rightarrow> u32 \<Rightarrow> NK_MESSAGE fifo_op list \<Rightarrow> 'a LPC_GLOBALS_scheme \<Rightarrow>
    ((KSTATUS + NK_MESSAGE) list \<times> 'a LPC_GLOBALS_scheme) option" where
  "lpc_run del h [] s = Some ([], s)"
| "lpc_run del h (a # as) s = do { (r, t) \<leftarrow> lpc_step del h a s; (rs, u) \<leftarrow> lpc_run del h as t; Some (r # rs, u) }"

text \<open>Ports by handle report every refusal as \<open>KSTATUS_WOULD_BLOCK\<close>.\<close>

definition lpc_view :: "KSTATUS + NK_MESSAGE \<Rightarrow> KSTATUS + NK_MESSAGE" where
  "lpc_view r = (case r of Inr m \<Rightarrow> Inr m | Inl st \<Rightarrow> Inl (if st = KSTATUS_SUCCESS then st else KSTATUS_WOULD_BLOCK))"

definition lpc_usable :: "'a delete_dispatch \<Rightarrow> u32 \<Rightarrow> nat \<Rightarrow> nat \<Rightarrow> 'a LPC_GLOBALS_scheme \<Rightarrow> bool" where
  "lpc_usable del h ob p s \<longleftrightarrow> port_at del s h LPC_PORT_ACCESS_SEND ob p \<and> port_at del s h LPC_PORT_ACCESS_RECV ob p \<and>
     port_quiet s p \<and> gPsCurrentThread s \<noteq> None"

lemma lpc_usable_with: "lpc_usable del h ob p s \<Longrightarrow> lpc_usable del h ob p (with_port k q s)"
  by (auto simp: lpc_usable_def port_quiet_def with_port_at)

lemma dequeue_fails: "port_receive q = (Inl st, q') \<Longrightarrow> st \<noteq> KSTATUS_SUCCESS"
  by (auto simp: port_receive_def NkPortReceive_def split: if_splits)

lemma lpc_step_eq:
  assumes "lpc_usable del h ob p s" "queue_step port_send port_receive a (lp_Port (gLpcPortPool s p)) = (r, q)"
  shows "lpc_step del h a s = Some (lpc_view r, with_port p q s)"
proof (cases a)
  case (Fifo_Send m)
  with assms send_quiet [of del s h ob p m False] show ?thesis
    by (auto simp: lpc_usable_def lpc_view_def split: prod.splits)
next
  case Fifo_Receive
  with assms receive_once [of del s h ob p r q False] dequeue_fails [of _ _ q] show ?thesis
    by (auto simp: lpc_usable_def lpc_view_def split: sum.splits)
qed

lemma lpc_run_eq:
  assumes "lpc_usable del h ob p s" "port_run as (lp_Port (gLpcPortPool s p)) = (rs, q)" "as \<noteq> []"
  shows "lpc_run del h as s = Some (map lpc_view rs, with_port p q s)"
  using assms
proof (induction as arbitrary: s rs)
  case (Cons a as)
  obtain r q1 where st: "queue_step port_send port_receive a (lp_Port (gLpcPortPool s p)) = (r, q1)" by fastforce
  let ?t = "with_port p q1 s"
  obtain rs' where rs: "port_run as q1 = (rs', q)" "rs = r # rs'"
    using Cons.prems(2) st by (auto simp: port_run_def split: prod.splits)
  have u: "lpc_usable del h ob p ?t" using lpc_usable_with [OF Cons.prems(1)] .
  show ?case
  proof (cases "as = []")
    case True
    with rs lpc_step_eq [OF Cons.prems(1) st] show ?thesis by (simp add: port_run_def)
  next
    case False
    with Cons.IH [OF u _ False] rs lpc_step_eq [OF Cons.prems(1) st] show ?thesis by simp
  qed
qed simp

section \<open>Waiting\<close>

lemma sched_port [simp]: "sched (set_port p f s) q = sched s q" "sched (with_port p q' s) q = sched s q"
  "sched (set_object ob hdr s) q = sched s q" "sched (HalEnableInterrupts s) q = sched s q" "sched (HalDisableInterrupts s) q = sched s q"
  by (simp_all add: sched_def runnable_def set_port_def with_port_def set_object_def HalEnableInterrupts_def HalDisableInterrupts_def)

lemma sched_wait_link: "sched (set_thread t (\<lambda>x. x\<lparr>th_WaitQueueNext := n\<rparr>) s) q = sched s q"
proof -
  let ?t = "set_thread t (\<lambda>x. x\<lparr>th_WaitQueueNext := n\<rparr>) s"
  have "run_next ?t = run_next s" "runnable ?t = runnable s" by (auto simp: runnable_def fun_eq_iff)
  then show ?thesis by (auto simp: sched_def)
qed

lemma enqueue_sched: "sched (LpcpEnqueueWaiter (Some p) (Some c) s) q = sched s q"
  by (simp add: LpcpEnqueueWaiter_def Let_def sched_wait_link split: option.splits)

lemma dequeue_sched: "sched (snd (LpcpDequeueWaiter (Some p) s)) q = sched s q"
  by (simp add: LpcpDequeueWaiter_def Let_def sched_wait_link split: option.splits)

lemma enqueue_frame [simp]:
  "gPsCurrentThread (LpcpEnqueueWaiter (Some p) (Some c) s) = gPsCurrentThread s"
  "hw_cpu (LpcpEnqueueWaiter (Some p) (Some c) s) = hw_cpu s"
  "gLpcReady (LpcpEnqueueWaiter (Some p) (Some c) s) = gLpcReady s"
  "gLpcPortType (LpcpEnqueueWaiter (Some p) (Some c) s) = gLpcPortType s"
  "gLpcPortInUse (LpcpEnqueueWaiter (Some p) (Some c) s) = gLpcPortInUse s"
  "gObReady (LpcpEnqueueWaiter (Some p) (Some c) s) = gObReady s"
  "gObObjectPool (LpcpEnqueueWaiter (Some p) (Some c) s) = gObObjectPool s"
  "gObKernelHandleTable (LpcpEnqueueWaiter (Some p) (Some c) s) = gObKernelHandleTable s"
  "lp_Header (gLpcPortPool (LpcpEnqueueWaiter (Some p) (Some c) s) i) = lp_Header (gLpcPortPool s i)"
  "lp_Port (gLpcPortPool (LpcpEnqueueWaiter (Some p) (Some c) s) i) = lp_Port (gLpcPortPool s i)"
  "th_State (thread (LpcpEnqueueWaiter (Some p) (Some c) s) x) = th_State (thread s x)"
  by (auto simp: LpcpEnqueueWaiter_def Let_def set_port_def set_thread_def split: option.splits)

lemma enqueue_commutes:
  "set_object ob (ob_object s ob) (HalEnableInterrupts (LpcpEnqueueWaiter (Some p) (Some c)
     (set_port p (\<lambda>x. x\<lparr>lp_Port := lp_Port (gLpcPortPool s p)\<rparr>) (HalDisableInterrupts (set_object ob h' s))))) =
   HalEnableInterrupts (LpcpEnqueueWaiter (Some p) (Some c) s)"
  by (auto simp: LpcpEnqueueWaiter_def Let_def set_port_def set_thread_def set_object_def HalEnableInterrupts_def HalDisableInterrupts_def
      fun_eq_iff split: option.splits)

lemma receive_pass_waits:
  assumes "port_at del s h LPC_PORT_ACCESS_RECV ob p" "port_Count (lp_Port (gLpcPortPool s p)) = 0"
  shows "receive_pass del h True c s = do {
      (Status, t) \<leftarrow> PsBlockCurrentThread (HalEnableInterrupts (LpcpEnqueueWaiter (Some p) (Some c) s));
      Some (if Status \<noteq> KSTATUS_SUCCESS then Some (Inl Status) else None, t) }"
proof -
  note a = port_at_reference [OF assms(1)]
  let ?h = "(ob_object s ob)\<lparr>oh_RefCount := oh_RefCount (ob_object s ob) + 1\<rparr>"
  let ?s4 = "HalEnableInterrupts (LpcpEnqueueWaiter (Some p) (Some c) (set_port p (\<lambda>x. x\<lparr>lp_Port := lp_Port (gLpcPortPool s p)\<rparr>)
      (HalDisableInterrupts (set_object ob ?h s))))"
  have e: "gObReady (HalEnableInterrupts x) = gObReady x" "gObReady (HalDisableInterrupts x) = gObReady x"
    "gObReady (set_port p f x) = gObReady x" "gObObjectPool (HalEnableInterrupts x) = gObObjectPool x"
    "gObObjectPool (HalDisableInterrupts x) = gObObjectPool x" "gObObjectPool (set_port p f x) = gObObjectPool x"
    for x :: "'a LPC_GLOBALS_scheme" and f by (simp_all add: HalEnableInterrupts_def HalDisableInterrupts_def set_port_def)
  have d: "snd (ObDereferenceObject del (Some ob) ?s4) = HalEnableInterrupts (LpcpEnqueueWaiter (Some p) (Some c) s)"
    using assms(1) a(2) enqueue_commutes [of ob s p c ?h]
    by (subst deref_back [where hdr = "ob_object s ob"]) (simp_all add: e port_at_def)
  have "gLpcPortPool (HalDisableInterrupts (set_object ob ?h s)) = gLpcPortPool s"
    by (simp add: HalDisableInterrupts_def set_object_def)
  then show ?thesis
    using assms(2) d by (simp add: receive_pass_def a(1) NkPortReceive_def Let_def)
qed

text \<open>Blocking the current thread: the next ready thread becomes current without a context switch.\<close>

lemma block_sched:
  assumes "sched s q" "gPsCurrentThread s = Some c"
  shows "case q of
      [] \<Rightarrow> \<exists>t. PsBlockCurrentThread s = Some (KSTATUS_INIT_FAILED, t) \<and> sched t [] \<and> gPsCurrentThread t = None \<and> hw_cpu t = hw_cpu s \<and>
           (\<forall>y. th_State (thread t y) = (if y = c then PsThreadBlocked else th_State (thread s y)))
    | x # xs \<Rightarrow> \<exists>t. PsBlockCurrentThread s = Some (KSTATUS_SUCCESS, t) \<and> sched t xs \<and> gPsCurrentThread t = Some x \<and> hw_cpu t = hw_cpu s \<and>
           (\<forall>y. th_State (thread t y) = (if y = x then PsThreadRunning else if y = c then PsThreadBlocked else th_State (thread s y)))"
proof -
  let ?u = "(set_thread c (\<lambda>x. x\<lparr>th_State := PsThreadBlocked\<rparr>) s)\<lparr>gPsCurrentThread := None\<rparr>"
  have b: "PsBlockCurrentThread s = PsDispatch ?u" using assms by (simp add: PsBlockCurrentThread_def sched_def)
  have l: "sched ?u q" using sched_leave [OF assms, of PsThreadBlocked] by simp
  show ?thesis
  proof (cases q)
    case Nil
    with l dispatch_empty [of ?u] show ?thesis by (auto simp: b)
  next
    case (Cons x xs)
    with dispatch_sched [of ?u x xs] l obtain t where "PsDispatch ?u = Some (KSTATUS_SUCCESS, t)" "switched ?u x t" "sched t xs" by auto
    then show ?thesis by (auto simp: Cons b switched_def)
  qed
qed

lemma receive_drains:
  assumes "sched s q" "gPsCurrentThread s = Some cur"
    "port_at del s h LPC_PORT_ACCESS_RECV ob p" "port_Count (lp_Port (gLpcPortPool s p)) = 0"
  shows "\<exists>t. receive_loop del h True c s = Some (Inl KSTATUS_INIT_FAILED, t) \<and> sched t [] \<and> gPsCurrentThread t = None \<and>
    hw_cpu t = hw_cpu s \<and> (\<forall>y. th_State (thread t y) = (if y = cur \<or> y \<in> set q then PsThreadBlocked else th_State (thread s y)))"
  using assms
proof (induction q arbitrary: s cur)
  case Nil
  let ?s = "HalEnableInterrupts (LpcpEnqueueWaiter (Some p) (Some c) s)"
  have "sched ?s []" "gPsCurrentThread ?s = Some cur" "hw_cpu ?s = hw_cpu s" "\<And>y. th_State (thread ?s y) = th_State (thread s y)"
    using Nil by (simp_all add: enqueue_sched) (simp_all add: HalEnableInterrupts_def)
  with block_sched [of ?s "[]" cur] obtain t where
    "PsBlockCurrentThread ?s = Some (KSTATUS_INIT_FAILED, t)" "sched t []" "gPsCurrentThread t = None" "hw_cpu t = hw_cpu s"
    "\<forall>y. th_State (thread t y) = (if y = cur then PsThreadBlocked else th_State (thread s y))" by auto
  then show ?case by (simp add: receive_loop.simps receive_pass_waits [OF Nil(3,4)])
next
  case (Cons x xs)
  let ?s = "HalEnableInterrupts (LpcpEnqueueWaiter (Some p) (Some c) s)"
  have e: "sched ?s (x # xs)" "gPsCurrentThread ?s = Some cur" "hw_cpu ?s = hw_cpu s" "\<And>y. th_State (thread ?s y) = th_State (thread s y)"
    using Cons.prems by (simp_all add: enqueue_sched) (simp_all add: HalEnableInterrupts_def)
  with block_sched [of ?s "x # xs" cur] obtain t where
    t: "PsBlockCurrentThread ?s = Some (KSTATUS_SUCCESS, t)" "sched t xs" "gPsCurrentThread t = Some x" "hw_cpu t = hw_cpu s"
    "\<And>y. th_State (thread t y) = (if y = x then PsThreadRunning else if y = cur then PsThreadBlocked else th_State (thread s y))" by auto
  note f = ps_erase_eqD [OF ps_erase_block [OF t(1)]]
  have g: "lp_Header (gLpcPortPool t i) = lp_Header (gLpcPortPool s i)" "lp_Port (gLpcPortPool t i) = lp_Port (gLpcPortPool s i)"
    "gLpcReady t = gLpcReady s" "gLpcPortType t = gLpcPortType s" "gLpcPortInUse t = gLpcPortInUse s" "gObReady t = gObReady s"
    "gObObjectPool t = gObObjectPool s" "gObKernelHandleTable t = gObKernelHandleTable s" for i
    using f by (simp_all add: HalEnableInterrupts_def)
  have p: "port_at del t h LPC_PORT_ACCESS_RECV ob p" by (rule port_at_cong [OF Cons.prems(3)]) (simp_all add: g)
  from Cons.IH [OF t(2,3) p] Cons.prems(4) g obtain u where
    u: "receive_loop del h True c t = Some (Inl KSTATUS_INIT_FAILED, u)" "sched u []" "gPsCurrentThread u = None" "hw_cpu u = hw_cpu t"
    "\<And>y. th_State (thread u y) = (if y = x \<or> y \<in> set xs then PsThreadBlocked else th_State (thread t y))" by auto
  have l: "receive_loop del h True c s = Some (Inl KSTATUS_INIT_FAILED, u)"
    using t(1) u(1) by (simp add: receive_loop.simps [of del h True c s] receive_pass_waits [OF Cons.prems(3,4)])
  show ?case using l u t by auto
qed

abbreviation wait_next :: "'a LPC_GLOBALS_scheme \<Rightarrow> nat \<Rightarrow> ptr" where
  "wait_next s t \<equiv> th_WaitQueueNext (gPsThreadPool s t)"

abbreviation waiters :: "'a LPC_GLOBALS_scheme \<Rightarrow> nat \<Rightarrow> nat list \<Rightarrow> bool" where
  "waiters s p ws \<equiv> queue_list (wait_next s) (lp_WaitHead (gLpcPortPool s p)) (lp_WaitTail (gLpcPortPool s p)) ws"

lemma push_wait_next [simp]: "wait_next (run_queue_push x s) = wait_next s"
  by (auto simp: run_queue_push_def Let_def fun_eq_iff split: option.splits)

lemma dequeue_frame:
  assumes "LpcpDequeueWaiter (Some p) s = (r, t)"
  shows "gObReady t = gObReady s" "gObObjectPool t = gObObjectPool s" "gPsCurrentThread t = gPsCurrentThread s"
    "gPsReady t = gPsReady s" "lp_Port (gLpcPortPool t i) = lp_Port (gLpcPortPool s i)" "th_State (thread t x) = th_State (thread s x)"
    "sched t q = sched s q"
  using assms dequeue_sched [of p s q]
  by (auto simp: LpcpDequeueWaiter_def Let_def set_port_def set_thread_def split: option.splits if_splits)

lemma wake_blocked:
  fixes s :: "'a LPC_GLOBALS_scheme"
  assumes "sched s q" "th_State (thread s w) = PsThreadBlocked"
  obtains t where "PsWakeThread (Some w) s = Some t" "sched t (q @ [w])" "ps_erase t = ps_erase s" "wait_next t = wait_next s"
proof
  let ?t = "run_queue_push w (set_thread w (\<lambda>x. x\<lparr>th_State := PsThreadReady\<rparr>) s)"
  have r: "runnable s w" "w \<notin> set q" "gPsCurrentThread s \<noteq> Some w" "gPsReady s"
    using assms unfolding sched_def by (metis, metis PS_THREAD_STATE.distinct(3), metis PS_THREAD_STATE.distinct(7), blast)
  show "PsWakeThread (Some w) s = Some ?t" using assms(2) r by (simp add: PsWakeThread_def PspRunQueuePush_def)
  show "sched ?t (q @ [w])" using ready_sched [OF assms(1) r(1-3)] .
qed (auto simp: fun_eq_iff)

text \<open>The scheduler of \<open>ps_demo\<close> with one empty port, named by handle 4.\<close>

definition lpc_bss :: "PS_GLOBALS \<Rightarrow> LPC_GLOBALS" where
  "lpc_bss s = PS_GLOBALS.extend s (LPC_GLOBALS.fields
     \<lparr>ep_Name = replicate 32 NUL, ep_BaseOpcode = 0, ep_Flags = 0, ep_Port = empty_port\<rparr> None
     (\<lambda>_. \<lparr>lp_Header = None, lp_Port = empty_port, lp_WaitHead = None, lp_WaitTail = None\<rparr>) (\<lambda>_. False) False)"

definition lpc_demo :: LPC_GLOBALS where
  "lpc_demo = (lpc_bss ps_demo)\<lparr>gObReady := True, gLpcReady := True, gLpcPortType := Some 0, gLpcPortInUse := (\<lambda>i. i = 0),
     gObObjectInUse := (\<lambda>i. i = 0),
     gObObjectPool := (\<lambda>_. \<lparr>oh_ObjectId = 1, oh_Type = Some 0, oh_RefCount = 1, oh_Flags = 1, oh_DefaultAccessMask = 3, oh_WaitState = 0,
        oh_Name = replicate 32 NUL\<rparr>),
     gObKernelHandleTable := \<lparr>ht_Entries = (\<lambda>i. \<lparr>he_HandleValue = 4, he_Object = Some 0, he_GrantedAccess = 3, he_InUse = (i = 0)\<rparr>),
        ht_NextHandle = 8\<rparr>,
     gLpcPortPool := (\<lambda>_. \<lparr>lp_Header = Some 0, lp_Port = empty_port, lp_WaitHead = None, lp_WaitTail = None\<rparr>)\<rparr>"

lemma lpc_demo_sched: "sched lpc_demo [1]"
  by (auto simp: lpc_demo_def lpc_bss_def ps_demo_def ps_bss_def sched_def queue_list_def runnable_def PS_MAX_THREADS_def MM_GLOBALS.defs
      PS_GLOBALS.defs LPC_GLOBALS.defs)

lemma lpc_demo_facts:
  "gPsCurrentThread lpc_demo = Some 0" "lp_Port (gLpcPortPool lpc_demo 0) = empty_port" "lp_WaitHead (gLpcPortPool lpc_demo 0) = None"
  by (simp_all add: lpc_demo_def lpc_bss_def ps_demo_def PS_GLOBALS.defs LPC_GLOBALS.defs)

lemma lpc_demo_port: "acc = 1 \<or> acc = 2 \<Longrightarrow> port_at del lpc_demo 4 acc 0 0"
  by (auto simp: port_at_def LpcpReferencePortByHandle_def ObGetKernelHandleTable_def ObReferenceObjectByHandle_def ObpFindHandleEntry_def
      OB_MAX_HANDLES_def LpcpFindPortByHeader_def LPC_MAX_PORT_OBJECTS_def set_object_def lpc_demo_def Let_def)

definition demo_message :: "u32 \<Rightarrow> NK_MESSAGE" where
  "demo_message k = \<lparr>msg_Opcode = k, msg_Length = 8, msg_Payload = replicate 64 0\<rparr>"

lemma demo_message_valid: "msg_valid (demo_message k)"
  by (simp add: msg_valid_def demo_message_def NK_MESSAGE_PAYLOAD_BYTES_def)

lemmas lpc_access = LPC_PORT_ACCESS_SEND_def LPC_PORT_ACCESS_RECV_def

lemma lpc_demo_usable: "lpc_usable del 4 0 0 lpc_demo"
  by (simp add: lpc_usable_def lpc_demo_port lpc_access port_quiet_def lpc_demo_facts)

text \<open>The same with thread 2 blocked on the port.\<close>

definition lpc_waiting :: LPC_GLOBALS where
  "lpc_waiting = LpcpEnqueueWaiter (Some 0) (Some 2)
     (set_thread 2 (\<lambda>x. x\<lparr>th_State := PsThreadBlocked\<rparr>) (lpc_demo\<lparr>gPsThreadInUse := (\<lambda>t. t < 3)\<rparr>))"

lemma lpc_waiting_facts:
  "sched lpc_waiting [1]" "waiters lpc_waiting 0 [2]" "th_State (thread lpc_waiting 2) = PsThreadBlocked"
  "lp_Port (gLpcPortPool lpc_waiting 0) = empty_port" "port_at del lpc_waiting 4 LPC_PORT_ACCESS_SEND 0 0"
proof -
  let ?s = "set_thread 2 (\<lambda>x. x\<lparr>th_State := PsThreadBlocked\<rparr>) (lpc_demo\<lparr>gPsThreadInUse := (\<lambda>t. t < 3)\<rparr>)"
  have "sched ?s [1]"
    by (auto simp: lpc_demo_def lpc_bss_def ps_demo_def ps_bss_def sched_def queue_list_def runnable_def PS_MAX_THREADS_def MM_GLOBALS.defs
      PS_GLOBALS.defs LPC_GLOBALS.defs set_thread_def)
  then show "sched lpc_waiting [1]" by (simp add: lpc_waiting_def enqueue_sched)
  have "waiters ?s 0 []" by (simp add: queue_list_def lpc_demo_def lpc_bss_def PS_GLOBALS.defs LPC_GLOBALS.defs)
  then show "waiters lpc_waiting 0 [2]" using lpcq.push_queue [of ?s 0 "[]" 2] by (simp add: lpc_waiting_def)
  show "th_State (thread lpc_waiting 2) = PsThreadBlocked" "lp_Port (gLpcPortPool lpc_waiting 0) = empty_port"
    by (simp_all add: lpc_waiting_def lpc_demo_facts)
  show "port_at del lpc_waiting 4 LPC_PORT_ACCESS_SEND 0 0"
    by (rule port_at_cong [OF lpc_demo_port [of LPC_PORT_ACCESS_SEND]]) (simp_all add: lpc_waiting_def lpc_access set_thread_def)
qed

section \<open>Properties\<close>

text \<open>C18: a port named by a handle is a bounded FIFO queue.  While no thread waits, every sequence of
  sends and receives through a handle with both rights returns exactly what a list of at most 32
  messages returns (a refused operation reports \<open>KSTATUS_WOULD_BLOCK\<close>), and the object's reference
  count is back at its value after every call.\<close>

theorem LpcPort_refines_fifo:
  assumes "lpc_usable del h ob p s" and "port_wf (lp_Port (gLpcPortPool s p))" and "ops \<noteq> []"
  shows "\<exists>t. lpc_run del h ops s = Some (map lpc_view (fst (fifo_run msg_valid 32 ops (port_contents (lp_Port (gLpcPortPool s p))))), t) \<and>
    port_contents (lp_Port (gLpcPortPool t p)) = snd (fifo_run msg_valid 32 ops (port_contents (lp_Port (gLpcPortPool s p)))) \<and>
    gObObjectPool t = gObObjectPool s \<and> lpc_usable del h ob p t"
proof -
  obtain rs q where r: "port_run ops (lp_Port (gLpcPortPool s p)) = (rs, q)" by fastforce
  with nk.run_refines [OF assms(2), of ops]
  have f: "fifo_run msg_valid 32 ops (port_contents (lp_Port (gLpcPortPool s p))) = (rs, port_contents q)" by (simp add: port_run_def)
  from lpc_run_eq [OF assms(1) r assms(3)] lpc_usable_with [OF assms(1)] f show ?thesis by auto
qed

theorem LpcPort_refines_fifo_witness:
  "\<exists>t. lpc_run (\<lambda>_ _ s. s) 4 [Fifo_Send (demo_message 1), Fifo_Send (demo_message 2), Fifo_Receive, Fifo_Receive, Fifo_Receive] lpc_demo =
     Some ([Inl KSTATUS_SUCCESS, Inl KSTATUS_SUCCESS, Inr (demo_message 1), Inr (demo_message 2), Inl KSTATUS_WOULD_BLOCK], t)"
  using LpcPort_refines_fifo [OF lpc_demo_usable [of "\<lambda>_ _ s. s"], of "[Fifo_Send (demo_message 1), Fifo_Send (demo_message 2), Fifo_Receive, Fifo_Receive, Fifo_Receive]"]
  by (auto simp: lpc_demo_facts empty_port_wf demo_message_valid lpc_view_def)

text \<open>A send wakes the thread that has waited longest.  The message is queued, the first waiter
  leaves the port's wait queue and enters the run queue behind the threads already ready.\<close>

theorem LpcSendByHandle_wakes:
  assumes "port_at del s h LPC_PORT_ACCESS_SEND ob p" and "sched s q" and "waiters s p (w # ws)"
    and "th_State (thread s w) = PsThreadBlocked" and "port_wf (lp_Port (gLpcPortPool s p))"
    and "msg_valid m" and "length (port_contents (lp_Port (gLpcPortPool s p))) < 32"
  shows "\<exists>t. LpcSendByHandle del h (Some m) wt s = Some (KSTATUS_SUCCESS, t) \<and> sched t (q @ [w]) \<and> waiters t p ws \<and>
    port_contents (lp_Port (gLpcPortPool t p)) = port_contents (lp_Port (gLpcPortPool s p)) @ [m] \<and> gObObjectPool t = gObObjectPool s"
proof -
  note a = port_at_reference [OF assms(1)]
  let ?h = "(ob_object s ob)\<lparr>oh_RefCount := oh_RefCount (ob_object s ob) + 1\<rparr>"
  let ?s2 = "HalDisableInterrupts (set_object ob ?h s)"
  obtain st pq where n: "NkPortSend (Some (lp_Port (gLpcPortPool s p))) (Some m) = (st, pq)" by fastforce
  with port_send_ok [OF assms(5,6)] assms(7) have pq: "st = KSTATUS_SUCCESS" "port_contents (the pq) = port_contents (lp_Port (gLpcPortPool s p)) @ [m]"
    by (simp_all add: port_send_def)
  define s3 where "s3 = set_port p (\<lambda>x. x\<lparr>lp_Port := the pq\<rparr>) ?s2"
  have s3: "gLpcPortPool ?s2 = gLpcPortPool s" "sched s3 q" "waiters s3 p (w # ws)" "th_State (thread s3 w) = PsThreadBlocked" "gObReady s3"
    "gObObjectPool s3 = (gObObjectPool s)(ob := ?h)" "lp_Port (gLpcPortPool s3 p) = the pq"
    using assms(2-4) a(2) by (simp_all add: s3_def) (simp_all add: HalDisableInterrupts_def set_object_def set_port_def)
  obtain s4 where d: "LpcpDequeueWaiter (Some p) s3 = (Some w, s4)" and w4: "waiters s4 p ws"
    using lpcq.pop_queue [OF s3(3)] by (metis prod.collapse)
  note f4 = dequeue_frame [OF d]
  obtain s5 where s5: "PsWakeThread (Some w) s4 = Some s5" "sched s5 (q @ [w])" "ps_erase s5 = ps_erase s4" "wait_next s5 = wait_next s4"
    using wake_blocked [of s4 q w] f4 s3 by auto
  note f5 = ps_erase_eqD [OF s5(3)]
  let ?t = "set_object ob (ob_object s ob) (HalEnableInterrupts s5)"
  have t: "gObReady (HalEnableInterrupts s5)" "ob_object (HalEnableInterrupts s5) ob = ?h"
    using f5 f4 s3 by (simp_all add: HalEnableInterrupts_def)
  have "snd (ObDereferenceObject del (Some ob) (HalEnableInterrupts s5)) = ?t"
    using deref_back [OF t] assms(1) by (simp add: port_at_def)
  then have "LpcSendByHandle del h (Some m) wt s = Some (KSTATUS_SUCCESS, ?t)"
    using assms(1) d s5(1) n pq(1) s3(1) by (simp add: LpcSendByHandle_def a(1) port_at_def Let_def s3_def [symmetric])
  moreover have "waiters ?t p ws" "sched ?t (q @ [w])" "lp_Port (gLpcPortPool ?t p) = the pq" "gObObjectPool ?t = gObObjectPool s"
    using w4 s5 f5 f4 s3 by (simp_all add: HalEnableInterrupts_def set_object_def sched_def runnable_def fun_eq_iff)
  ultimately show ?thesis using pq(2) by auto
qed

theorem LpcSendByHandle_wakes_witness:
  "\<exists>t. LpcSendByHandle (\<lambda>_ _ s. s) 4 (Some (demo_message 7)) False lpc_waiting = Some (KSTATUS_SUCCESS, t) \<and> sched t [1, 2] \<and>
     waiters t 0 [] \<and> port_contents (lp_Port (gLpcPortPool t 0)) = [demo_message 7]"
  using LpcSendByHandle_wakes [OF lpc_waiting_facts(5,1,2,3), of "demo_message 7" "\<lambda>_ _ s. s" False]
  by (auto simp: lpc_waiting_facts(4) empty_port_wf demo_message_valid)

text \<open>C23: a waiting receive on an empty port does not wait.  \<^verbatim>\<open>PsBlockCurrentThread\<close> marks the next
  ready thread as running but does not switch to it, so the loop goes on in the caller and blocks
  that thread too, and so on until no thread is ready; the call then returns
  \<open>KSTATUS_INIT_FAILED\<close> with every thread that was ready blocked and no current thread.\<close>

theorem LpcReceiveByHandle_wait_drains:
  assumes "port_at del s h LPC_PORT_ACCESS_RECV ob p" and "port_Count (lp_Port (gLpcPortPool s p)) = 0"
    and "sched s q" and "gPsCurrentThread s = Some c"
  shows "\<exists>t. LpcReceiveByHandle del h True True s = Some (Inl KSTATUS_INIT_FAILED, t) \<and> sched t [] \<and>
    gPsCurrentThread t = None \<and> hw_cpu t = hw_cpu s \<and>
    (\<forall>y. th_State (thread t y) = (if y = c \<or> y \<in> set q then PsThreadBlocked else th_State (thread s y)))"
  using receive_drains [OF assms(3,4,1,2), of c] assms
  by (simp add: LpcReceiveByHandle_def PsGetCurrentThread_def port_at_def)

theorem LpcReceiveByHandle_wait_drains_witness:
  "\<exists>t. LpcReceiveByHandle (\<lambda>_ _ s. s) 4 True True lpc_demo = Some (Inl KSTATUS_INIT_FAILED, t) \<and>
     gPsCurrentThread t = None \<and> th_State (thread t 0) = PsThreadBlocked \<and> th_State (thread t 1) = PsThreadBlocked"
  using LpcReceiveByHandle_wait_drains [OF lpc_demo_port [of LPC_PORT_ACCESS_RECV "\<lambda>_ _ s. s"] _ lpc_demo_sched lpc_demo_facts(1)]
  by (auto simp: lpc_demo_facts(2) lpc_access empty_port_def)

end
