(* ===== verification/NtxKpe.thy ===== *)
theory NtxKpe
  imports NtxHal
begin

text \<open>
  The KPE image format of \<^verbatim>\<open>include/kpeformat.h\<close> and the part of image loading that the UEFI boot
  loader and the kernel share: reading packed headers from a file, and applying base relocations to a
  loaded image.

  A file is a list of bytes.  The memory an image is loaded into is an argument: \<open>ld m a\<close> reads the byte
  at address \<open>a\<close>, \<open>st a b m\<close> writes it, and both give \<open>None\<close> where nothing is mapped.  The relocation loops
  read the block headers and entries from that memory, as the code does, also after patches have been
  written to it.
\<close>

section \<open>Definitions\<close>

subsection \<open>Little endian fields\<close>

fun le :: "u8 list \<Rightarrow> 'w::len word" where
  "le [] = 0"
| "le (b # bs) = ucast b OR push_bit 8 (le bs)"

definition le_bytes :: "nat \<Rightarrow> 'w::len word \<Rightarrow> u8 list" where
  "le_bytes n v = map (\<lambda>i. ucast (drop_bit (8 * i) v)) [0..<n]"

text \<open>The field of \<open>n\<close> bytes at offset \<open>off\<close> of a file.\<close>

definition fld :: "u8 list \<Rightarrow> nat \<Rightarrow> nat \<Rightarrow> 'w::len word" where
  "fld bs off n = le (take n (drop off bs))"

subsection \<open>Headers\<close>

definition KPE_DOS_MAGIC :: u16 where "KPE_DOS_MAGIC = 0x5A4D"
definition KPE_SIGNATURE :: u32 where "KPE_SIGNATURE = 0x3045504B"
definition KPE_OPT_MAGIC_AUR64 :: u16 where "KPE_OPT_MAGIC_AUR64 = 0xA641"
definition KPE_MACHINE_AUR64 :: u16 where "KPE_MACHINE_AUR64 = 0xA641"
definition KPE_NUMBEROF_DIRECTORY_ENTRIES :: u32 where "KPE_NUMBEROF_DIRECTORY_ENTRIES = 16"
definition KPE_DLLCHAR_DYNAMIC_BASE :: u16 where "KPE_DLLCHAR_DYNAMIC_BASE = 0x0040"
definition KPE_SCN_MEM_EXECUTE :: u32 where "KPE_SCN_MEM_EXECUTE = 0x20000000"
definition KPE_SCN_MEM_WRITE :: u32 where "KPE_SCN_MEM_WRITE = 0x80000000"
definition KPE_DIR_BASERELOC :: nat where "KPE_DIR_BASERELOC = 5"
definition KPE_REL_BASED_ABSOLUTE :: u16 where "KPE_REL_BASED_ABSOLUTE = 0"
definition KPE_REL_BASED_DIR64 :: u16 where "KPE_REL_BASED_DIR64 = 10"
definition KPE_SUBSYSTEM_NATIVE_KERNEL :: u16 where "KPE_SUBSYSTEM_NATIVE_KERNEL = 1"
definition KPE_SUBSYSTEM_USERLAND :: u16 where "KPE_SUBSYSTEM_USERLAND = 2"

text \<open>The structures are packed; these are their sizes.\<close>

definition sizeof_KPE_DOS_HEADER :: nat where "sizeof_KPE_DOS_HEADER = 64"
definition sizeof_KPE_FILE_HEADER :: nat where "sizeof_KPE_FILE_HEADER = 20"
definition sizeof_KPE_OPTIONAL_HEADER64 :: nat where "sizeof_KPE_OPTIONAL_HEADER64 = 240"
definition sizeof_KPE_NT_HEADERS64 :: nat where "sizeof_KPE_NT_HEADERS64 = 264"
definition sizeof_KPE_SECTION_HEADER :: nat where "sizeof_KPE_SECTION_HEADER = 40"
definition sizeof_KPE_BASE_RELOCATION_BLOCK :: nat where "sizeof_KPE_BASE_RELOCATION_BLOCK = 8"

record KPE_DOS_HEADER =
  dos_e_magic :: u16
  dos_e_cblp :: u16
  dos_e_cp :: u16
  dos_e_crlc :: u16
  dos_e_cparhdr :: u16
  dos_e_minalloc :: u16
  dos_e_maxalloc :: u16
  dos_e_ss :: u16
  dos_e_sp :: u16
  dos_e_csum :: u16
  dos_e_ip :: u16
  dos_e_cs :: u16
  dos_e_lfarlc :: u16
  dos_e_ovno :: u16
  dos_e_res :: "u16 list"
  dos_e_oemid :: u16
  dos_e_oeminfo :: u16
  dos_e_res2 :: "u16 list"
  dos_e_lfanew :: u32

definition read_dos_header :: "u8 list \<Rightarrow> nat \<Rightarrow> KPE_DOS_HEADER" where
  "read_dos_header f o0 = \<lparr>
     dos_e_magic = fld f o0 2, dos_e_cblp = fld f (o0 + 2) 2, dos_e_cp = fld f (o0 + 4) 2, dos_e_crlc = fld f (o0 + 6) 2,
     dos_e_cparhdr = fld f (o0 + 8) 2, dos_e_minalloc = fld f (o0 + 10) 2, dos_e_maxalloc = fld f (o0 + 12) 2,
     dos_e_ss = fld f (o0 + 14) 2, dos_e_sp = fld f (o0 + 16) 2, dos_e_csum = fld f (o0 + 18) 2, dos_e_ip = fld f (o0 + 20) 2,
     dos_e_cs = fld f (o0 + 22) 2, dos_e_lfarlc = fld f (o0 + 24) 2, dos_e_ovno = fld f (o0 + 26) 2,
     dos_e_res = map (\<lambda>i. fld f (o0 + 28 + 2 * i) 2) [0..<4],
     dos_e_oemid = fld f (o0 + 36) 2, dos_e_oeminfo = fld f (o0 + 38) 2,
     dos_e_res2 = map (\<lambda>i. fld f (o0 + 40 + 2 * i) 2) [0..<10], dos_e_lfanew = fld f (o0 + 60) 4\<rparr>"

record KPE_FILE_HEADER =
  fh_Machine :: u16
  fh_NumberOfSections :: u16
  fh_TimeDateStamp :: u32
  fh_PointerToSymbolTable :: u32
  fh_NumberOfSymbols :: u32
  fh_SizeOfOptionalHeader :: u16
  fh_Characteristics :: u16

definition read_file_header :: "u8 list \<Rightarrow> nat \<Rightarrow> KPE_FILE_HEADER" where
  "read_file_header f o0 = \<lparr>fh_Machine = fld f o0 2, fh_NumberOfSections = fld f (o0 + 2) 2, fh_TimeDateStamp = fld f (o0 + 4) 4,
     fh_PointerToSymbolTable = fld f (o0 + 8) 4, fh_NumberOfSymbols = fld f (o0 + 12) 4,
     fh_SizeOfOptionalHeader = fld f (o0 + 16) 2, fh_Characteristics = fld f (o0 + 18) 2\<rparr>"

record KPE_DATA_DIRECTORY =
  dd_VirtualAddress :: u32
  dd_Size :: u32

definition read_data_directory :: "u8 list \<Rightarrow> nat \<Rightarrow> KPE_DATA_DIRECTORY" where
  "read_data_directory f o0 = \<lparr>dd_VirtualAddress = fld f o0 4, dd_Size = fld f (o0 + 4) 4\<rparr>"

record KPE_OPTIONAL_HEADER64 =
  opt_Magic :: u16
  opt_MajorLinkerVersion :: u8
  opt_MinorLinkerVersion :: u8
  opt_SizeOfCode :: u32
  opt_SizeOfInitializedData :: u32
  opt_SizeOfUninitializedData :: u32
  opt_AddressOfEntryPoint :: u32
  opt_BaseOfCode :: u32
  opt_ImageBase :: u64
  opt_SectionAlignment :: u32
  opt_FileAlignment :: u32
  opt_MajorOperatingSystemVersion :: u16
  opt_MinorOperatingSystemVersion :: u16
  opt_MajorImageVersion :: u16
  opt_MinorImageVersion :: u16
  opt_MajorSubsystemVersion :: u16
  opt_MinorSubsystemVersion :: u16
  opt_Win32VersionValue :: u32
  opt_SizeOfImage :: u32
  opt_SizeOfHeaders :: u32
  opt_CheckSum :: u32
  opt_Subsystem :: u16
  opt_DllCharacteristics :: u16
  opt_SizeOfStackReserve :: u64
  opt_SizeOfStackCommit :: u64
  opt_SizeOfHeapReserve :: u64
  opt_SizeOfHeapCommit :: u64
  opt_LoaderFlags :: u32
  opt_NumberOfRvaAndSizes :: u32
  opt_DataDirectory :: "KPE_DATA_DIRECTORY list"

definition read_optional_header :: "u8 list \<Rightarrow> nat \<Rightarrow> KPE_OPTIONAL_HEADER64" where
  "read_optional_header f o0 = \<lparr>
     opt_Magic = fld f o0 2, opt_MajorLinkerVersion = fld f (o0 + 2) 1, opt_MinorLinkerVersion = fld f (o0 + 3) 1,
     opt_SizeOfCode = fld f (o0 + 4) 4, opt_SizeOfInitializedData = fld f (o0 + 8) 4,
     opt_SizeOfUninitializedData = fld f (o0 + 12) 4, opt_AddressOfEntryPoint = fld f (o0 + 16) 4,
     opt_BaseOfCode = fld f (o0 + 20) 4, opt_ImageBase = fld f (o0 + 24) 8, opt_SectionAlignment = fld f (o0 + 32) 4,
     opt_FileAlignment = fld f (o0 + 36) 4, opt_MajorOperatingSystemVersion = fld f (o0 + 40) 2,
     opt_MinorOperatingSystemVersion = fld f (o0 + 42) 2, opt_MajorImageVersion = fld f (o0 + 44) 2,
     opt_MinorImageVersion = fld f (o0 + 46) 2, opt_MajorSubsystemVersion = fld f (o0 + 48) 2,
     opt_MinorSubsystemVersion = fld f (o0 + 50) 2, opt_Win32VersionValue = fld f (o0 + 52) 4,
     opt_SizeOfImage = fld f (o0 + 56) 4, opt_SizeOfHeaders = fld f (o0 + 60) 4, opt_CheckSum = fld f (o0 + 64) 4,
     opt_Subsystem = fld f (o0 + 68) 2, opt_DllCharacteristics = fld f (o0 + 70) 2,
     opt_SizeOfStackReserve = fld f (o0 + 72) 8, opt_SizeOfStackCommit = fld f (o0 + 80) 8,
     opt_SizeOfHeapReserve = fld f (o0 + 88) 8, opt_SizeOfHeapCommit = fld f (o0 + 96) 8,
     opt_LoaderFlags = fld f (o0 + 104) 4, opt_NumberOfRvaAndSizes = fld f (o0 + 108) 4,
     opt_DataDirectory = map (\<lambda>i. read_data_directory f (o0 + 112 + 8 * i)) [0..<16]\<rparr>"

record KPE_NT_HEADERS64 =
  nt_Signature :: u32
  nt_FileHeader :: KPE_FILE_HEADER
  nt_OptionalHeader :: KPE_OPTIONAL_HEADER64

definition read_nt_headers :: "u8 list \<Rightarrow> nat \<Rightarrow> KPE_NT_HEADERS64" where
  "read_nt_headers f o0 = \<lparr>nt_Signature = fld f o0 4, nt_FileHeader = read_file_header f (o0 + 4),
     nt_OptionalHeader = read_optional_header f (o0 + 24)\<rparr>"

record KPE_SECTION_HEADER =
  sh_Name :: "u8 list"
  sh_VirtualSize :: u32
  sh_VirtualAddress :: u32
  sh_SizeOfRawData :: u32
  sh_PointerToRawData :: u32
  sh_PointerToRelocations :: u32
  sh_PointerToLinenumbers :: u32
  sh_NumberOfRelocations :: u16
  sh_NumberOfLinenumbers :: u16
  sh_Characteristics :: u32

definition read_section_header :: "u8 list \<Rightarrow> nat \<Rightarrow> KPE_SECTION_HEADER" where
  "read_section_header f o0 = \<lparr>sh_Name = take 8 (drop o0 f), sh_VirtualSize = fld f (o0 + 8) 4, sh_VirtualAddress = fld f (o0 + 12) 4,
     sh_SizeOfRawData = fld f (o0 + 16) 4, sh_PointerToRawData = fld f (o0 + 20) 4, sh_PointerToRelocations = fld f (o0 + 24) 4,
     sh_PointerToLinenumbers = fld f (o0 + 28) 4, sh_NumberOfRelocations = fld f (o0 + 32) 2,
     sh_NumberOfLinenumbers = fld f (o0 + 34) 2, sh_Characteristics = fld f (o0 + 36) 4\<rparr>"

text \<open>The headers are pointers into the file; these are the offsets the loaders compute.\<close>

definition nt_offset :: "u8 list \<Rightarrow> nat" where
  "nt_offset f = unat (dos_e_lfanew (read_dos_header f 0))"

definition nt_of :: "u8 list \<Rightarrow> KPE_NT_HEADERS64" where
  "nt_of f = read_nt_headers f (nt_offset f)"

definition section_table_offset :: "u8 list \<Rightarrow> nat" where
  "section_table_offset f = nt_offset f + 4 + sizeof_KPE_FILE_HEADER + unat (fh_SizeOfOptionalHeader (nt_FileHeader (nt_of f)))"

definition section_count :: "u8 list \<Rightarrow> nat" where
  "section_count f = unat (fh_NumberOfSections (nt_FileHeader (nt_of f)))"

definition section_of :: "u8 list \<Rightarrow> nat \<Rightarrow> KPE_SECTION_HEADER" where
  "section_of f i = read_section_header f (section_table_offset f + i * sizeof_KPE_SECTION_HEADER)"

definition size_of_image :: "u8 list \<Rightarrow> u32" where
  "size_of_image f = opt_SizeOfImage (nt_OptionalHeader (nt_of f))"

subsection \<open>Memory\<close>

fun read_bytes :: "('m \<Rightarrow> u64 \<Rightarrow> u8 option) \<Rightarrow> nat \<Rightarrow> u64 \<Rightarrow> 'm \<Rightarrow> u8 list option" where
  "read_bytes ld 0 a m = Some []"
| "read_bytes ld (Suc n) a m = do { b \<leftarrow> ld m a; bs \<leftarrow> read_bytes ld n (a + 1) m; Some (b # bs) }"

definition mem_read :: "('m \<Rightarrow> u64 \<Rightarrow> u8 option) \<Rightarrow> nat \<Rightarrow> u64 \<Rightarrow> 'm \<Rightarrow> 'w::len word option" where
  "mem_read ld n a m = map_option le (read_bytes ld n a m)"

fun write_bytes :: "(u64 \<Rightarrow> u8 \<Rightarrow> 'm \<Rightarrow> 'm option) \<Rightarrow> u8 list \<Rightarrow> u64 \<Rightarrow> 'm \<Rightarrow> 'm option" where
  "write_bytes st [] a m = Some m"
| "write_bytes st (b # bs) a m = do { m1 \<leftarrow> st a b m; write_bytes st bs (a + 1) m1 }"

subsection \<open>Base relocations\<close>

text \<open>The entries of one block: \<open>None\<close> when all were applied, otherwise the status that stops the loader.\<close>

fun reloc_entries ::
    "('m \<Rightarrow> u64 \<Rightarrow> u8 option) \<Rightarrow> (u64 \<Rightarrow> u8 \<Rightarrow> 'm \<Rightarrow> 'm option) \<Rightarrow> 'st \<Rightarrow> 'st \<Rightarrow> u64 \<Rightarrow> u32 \<Rightarrow> u64 \<Rightarrow> u64 \<Rightarrow>
     nat \<Rightarrow> nat \<Rightarrow> 'm \<Rightarrow> ('st option \<times> 'm) option" where
  "reloc_entries ld st st_type st_rva Base SizeOfImage Delta Cursor 0 Index m = Some (None, m)"
| "reloc_entries ld st st_type st_rva Base SizeOfImage Delta Cursor (Suc k) Index m = do {
     Entry :: u16 \<leftarrow> mem_read ld 2 (Cursor + 8 + 2 * of_nat Index) m;
     let Type = drop_bit 12 Entry;
     let Offset = Entry AND 0x0FFF;
     if Type = KPE_REL_BASED_ABSOLUTE
     then reloc_entries ld st st_type st_rva Base SizeOfImage Delta Cursor k (Suc Index) m
     else if Type \<noteq> KPE_REL_BASED_DIR64 then Some (Some st_type, m)
     else do {
       VirtualAddress :: u32 \<leftarrow> mem_read ld 4 Cursor m;
       let PatchRva = VirtualAddress + ucast Offset;
       if (ucast PatchRva :: u64) + 8 > ucast SizeOfImage then Some (Some st_rva, m)
       else do {
         v :: u64 \<leftarrow> mem_read ld 8 (Base + ucast PatchRva) m;
         m1 \<leftarrow> write_bytes st (le_bytes 8 (v + Delta)) (Base + ucast PatchRva) m;
         reloc_entries ld st st_type st_rva Base SizeOfImage Delta Cursor k (Suc Index) m1 } } }"

text \<open>The blocks.  \<open>blk_ok\<close> is the loader's own test of the block's page; the block size is read again
  when the cursor moves on.\<close>

partial_function (option) reloc_blocks ::
    "('m \<Rightarrow> u64 \<Rightarrow> u8 option) \<Rightarrow> (u64 \<Rightarrow> u8 \<Rightarrow> 'm \<Rightarrow> 'm option) \<Rightarrow> (u32 \<Rightarrow> bool) \<Rightarrow> 'st \<Rightarrow> 'st \<Rightarrow> 'st \<Rightarrow> 'st \<Rightarrow>
     u64 \<Rightarrow> u32 \<Rightarrow> u64 \<Rightarrow> u64 \<Rightarrow> u64 \<Rightarrow> 'm \<Rightarrow> ('st \<times> 'm) option" where
  "reloc_blocks ld st blk_ok st_ok st_block st_type st_rva Base SizeOfImage Delta End Cursor m =
     (if \<not> Cursor + 8 \<le> End then Some (st_ok, m)
      else do {
        VirtualAddress :: u32 \<leftarrow> mem_read ld 4 Cursor m;
        SizeOfBlock :: u32 \<leftarrow> mem_read ld 4 (Cursor + 4) m;
        if SizeOfBlock < 8 then Some (st_block, m)
        else if \<not> blk_ok VirtualAddress then Some (st_block, m)
        else if Cursor + ucast SizeOfBlock > End then Some (st_block, m)
        else do {
          (r, m1) \<leftarrow> reloc_entries ld st st_type st_rva Base SizeOfImage Delta Cursor (unat ((SizeOfBlock - 8) div 2)) 0 m;
          (case r of
             Some s \<Rightarrow> Some (s, m1)
           | None \<Rightarrow> do {
               NextSize :: u32 \<leftarrow> mem_read ld 4 (Cursor + 4) m1;
               reloc_blocks ld st blk_ok st_ok st_block st_type st_rva Base SizeOfImage Delta End (Cursor + ucast NextSize) m1 }) } })"

section \<open>Which bytes a loader writes\<close>

text \<open>\<open>stores_in st P m m'\<close>: \<open>m'\<close> comes from \<open>m\<close> by writing bytes at addresses that satisfy \<open>P\<close>.\<close>

inductive stores_in :: "(u64 \<Rightarrow> u8 \<Rightarrow> 'm \<Rightarrow> 'm option) \<Rightarrow> (u64 \<Rightarrow> bool) \<Rightarrow> 'm \<Rightarrow> 'm \<Rightarrow> bool" for st P where
  none: "stores_in st P m m"
| more: "stores_in st P m m1 \<Longrightarrow> st a b m1 = Some m2 \<Longrightarrow> P a \<Longrightarrow> stores_in st P m m2"

definition in_image :: "u64 \<Rightarrow> u32 \<Rightarrow> u64 \<Rightarrow> bool" where
  "in_image Base SizeOfImage a \<longleftrightarrow> unat (a - Base) < unat SizeOfImage"

lemma stores_in_trans: "stores_in st P m1 m2 \<Longrightarrow> stores_in st P m0 m1 \<Longrightarrow> stores_in st P m0 m2"
  by (induction rule: stores_in.induct) (auto intro: stores_in.intros)

lemma stores_in_mono: "stores_in st P m m' \<Longrightarrow> (\<And>a. P a \<Longrightarrow> Q a) \<Longrightarrow> stores_in st Q m m'"
  by (induction rule: stores_in.induct) (auto intro: stores_in.intros)

lemma write_bytes_stores:
  assumes "write_bytes st bs a m = Some m'" "\<And>i. i < length bs \<Longrightarrow> P (a + of_nat i)"
  shows "stores_in st P m m'"
  using assms
proof (induction bs arbitrary: a m)
  case (Cons b bs)
  then obtain m1 where m1: "st a b m = Some m1" "write_bytes st bs (a + 1) m1 = Some m'" by (auto split: bind_splits)
  have "P (a + 1 + of_nat i)" if "i < length bs" for i using Cons.prems(2) [of "Suc i"] that by (simp add: algebra_simps)
  with Cons.IH [OF m1(2)] have "stores_in st P m1 m'" by blast
  moreover have "stores_in st P m m1" using m1(1) Cons.prems(2) [of 0] by (auto intro: stores_in.intros)
  ultimately show ?case by (rule stores_in_trans)
qed (auto intro: stores_in.intros)

lemma unat_widen [simp]: "unat (ucast (x :: u32) :: u64) = unat x"
proof -
  have "unat x < 2 ^ 64" using unsigned_less [of x, where 'a = nat] by simp
  then show ?thesis by (simp add: unsigned_ucast_eq take_bit_nat_eq_self)
qed

lemma patch_in_image:
  fixes r SizeOfImage :: u32
  assumes "\<not> (ucast r :: u64) + 8 > ucast SizeOfImage" "i < 8"
  shows "in_image Base SizeOfImage (Base + ucast r + of_nat i)"
proof -
  have "unat r < 2 ^ 32" "unat SizeOfImage < 2 ^ 32" using unsigned_less [of r] unsigned_less [of SizeOfImage] by simp_all
  then have "unat ((ucast r :: u64) + 8) = unat r + 8" "unat ((ucast r :: u64) + of_nat i) = unat r + i"
    using assms(2) by (simp_all add: unat_word_ariths unat_of_nat)
  with assms show ?thesis by (simp add: in_image_def word_less_nat_alt)
qed

lemma length_le_bytes [simp]: "length (le_bytes n v) = n"
  by (simp add: le_bytes_def)

lemma reloc_entries_stores:
  "reloc_entries ld st st_type st_rva Base SizeOfImage Delta Cursor k Index m = Some (r, m') \<Longrightarrow>
   stores_in st (in_image Base SizeOfImage) m m'"
proof (induction k arbitrary: Index m)
  case (Suc k)
  have patch: "stores_in st (in_image Base SizeOfImage) m m1"
    if "write_bytes st (le_bytes 8 v) (Base + ucast r) m = Some m1" "\<not> (ucast r :: u64) + 8 > ucast SizeOfImage"
    for v :: u64 and r :: u32 and m1
    using write_bytes_stores [OF that(1)] patch_in_image [OF that(2), of _ Base] by simp
  from Suc.prems show ?case
    by (auto simp: Let_def not_less [symmetric] split: bind_splits if_splits
        intro: Suc.IH stores_in.none stores_in_trans [OF Suc.IH patch])
qed (auto intro: stores_in.none)

lemma reloc_blocks_stores:
  assumes "reloc_blocks ld st blk_ok st_ok st_block st_type st_rva Base SizeOfImage Delta End Cursor m = Some r"
  shows "stores_in st (in_image Base SizeOfImage) m (snd r)"
  using assms
proof (rule reloc_blocks.raw_induct [rotated], goal_cases)
  case (1 f ld st blk_ok st_ok st_block st_type st_rva Base SizeOfImage Delta End Cursor m r)
  then show ?case
    by (auto split: bind_splits if_splits option.splits dest!: reloc_entries_stores "1"(1) intro: stores_in.none stores_in_trans)
qed

text \<open>A small image: one section at address 16 of an image of 32 bytes for subsystem \<open>sub\<close>, with base \<open>0x200000\<close>.  Its raw data is declared to be
  \<open>r\<close> bytes long, and the bytes \<open>ds\<close> follow the headers in the file.\<close>

definition packed_image :: "u32 \<Rightarrow> u16 \<Rightarrow> u8 list \<Rightarrow> u8 list" where
  "packed_image r sub ds = [0x4D, 0x5A] @
     replicate 58 0 @
     [0x40, 0x00, 0x00, 0x00] @
     [0x4B, 0x50, 0x45, 0x30] @
     [0x41, 0xA6, 0x01, 0x00] @
     replicate 12 0 @
     [0xF0, 0x00, 0x00, 0x00] @
     [0x41, 0xA6] @
     replicate 22 0 @
     [0x00, 0x00, 0x20, 0x00, 0x00, 0x00, 0x00, 0x00] @
     [0x10, 0x00, 0x00, 0x00, 0x01, 0x00, 0x00, 0x00] @
     replicate 16 0 @
     [0x20, 0x00, 0x00, 0x00] @
     replicate 8 0 @
     [ucast sub, ucast (drop_bit 8 sub)] @
     replicate 170 0 @
     replicate 8 0 @
     [0x10, 0x00, 0x00, 0x00, 0x10, 0x00, 0x00, 0x00] @
     [ucast r, ucast (drop_bit 8 r), ucast (drop_bit 16 r), ucast (drop_bit 24 r)] @
     [0x70, 0x01, 0x00, 0x00] @
     replicate 16 0 @ ds"

abbreviation demo_image :: "u32 \<Rightarrow> u16 \<Rightarrow> u8 list" where
  "demo_image r sub \<equiv> packed_image r sub (replicate 24 0xAA)"

lemma le_replicate_0 [simp]: "le (replicate n 0) = 0"
  by (induction n) simp_all

lemmas fld_eval = fld_def take_append drop_append

lemma le16_split: "ucast (ucast x :: u8) OR push_bit 8 (ucast (ucast (drop_bit 8 x) :: u8)) = (x :: u16)"
  by (rule bit_eqI) (auto simp: bit_simps)

lemma le32_split:
  "ucast (ucast x :: u8) OR (push_bit 8 (ucast (ucast (drop_bit 8 x) :: u8)) OR
    (push_bit 16 (ucast (ucast (drop_bit 16 x) :: u8)) OR push_bit 24 (ucast (ucast (drop_bit 24 x) :: u8)))) = (x :: u32)"
  by (rule bit_eqI, auto simp: bit_simps not_less less_diff_conv2, metis le_add_diff_inverse not_less)

lemma packed_image_fields:
  "length (packed_image r sub ds) = 368 + length ds" "fld (packed_image r sub ds) 0 2 = KPE_DOS_MAGIC" "fld (packed_image r sub ds) 60 4 = (64 :: u32)" "fld (packed_image r sub ds) 64 4 = KPE_SIGNATURE"
  "fld (packed_image r sub ds) 68 2 = KPE_MACHINE_AUR64" "fld (packed_image r sub ds) 70 2 = (1 :: u16)" "fld (packed_image r sub ds) 84 2 = (240 :: u16)"
  "fld (packed_image r sub ds) 88 2 = KPE_OPT_MAGIC_AUR64" "fld (packed_image r sub ds) 156 2 = sub" "fld (packed_image r sub ds) 120 4 = (16 :: u32)"
  "fld (packed_image r sub ds) 124 4 = (1 :: u32)" "fld (packed_image r sub ds) 104 4 = (0 :: u32)" "fld (packed_image r sub ds) 144 4 = (32 :: u32)" "fld (packed_image r sub ds) 148 4 = (0 :: u32)"
  "fld (packed_image r sub ds) 196 4 = (0 :: u32)" "fld (packed_image r sub ds) 112 8 = (0x200000 :: u64)"
  "fld (packed_image r sub ds) 336 4 = (16 :: u32)" "fld (packed_image r sub ds) 340 4 = (16 :: u32)" "fld (packed_image r sub ds) 344 4 = (r :: u32)" "fld (packed_image r sub ds) 348 4 = (368 :: u32)"
  by (simp_all add: packed_image_def fld_eval KPE_DOS_MAGIC_def KPE_SIGNATURE_def KPE_MACHINE_AUR64_def KPE_OPT_MAGIC_AUR64_def le16_split le32_split)

lemma packed_image_headers:
  "dos_e_magic (read_dos_header (packed_image r sub ds) 0) = KPE_DOS_MAGIC" "dos_e_lfanew (read_dos_header (packed_image r sub ds) 0) = 64"
  "nt_Signature (read_nt_headers (packed_image r sub ds) 64) = KPE_SIGNATURE"
  "fh_Machine (nt_FileHeader (read_nt_headers (packed_image r sub ds) 64)) = KPE_MACHINE_AUR64"
  "fh_NumberOfSections (nt_FileHeader (read_nt_headers (packed_image r sub ds) 64)) = 1"
  "fh_SizeOfOptionalHeader (nt_FileHeader (read_nt_headers (packed_image r sub ds) 64)) = 240"
  "opt_Magic (nt_OptionalHeader (read_nt_headers (packed_image r sub ds) 64)) = KPE_OPT_MAGIC_AUR64"
  "opt_Subsystem (nt_OptionalHeader (read_nt_headers (packed_image r sub ds) 64)) = sub"
  "opt_SectionAlignment (nt_OptionalHeader (read_nt_headers (packed_image r sub ds) 64)) = 16"
  "opt_FileAlignment (nt_OptionalHeader (read_nt_headers (packed_image r sub ds) 64)) = 1"
  "opt_AddressOfEntryPoint (nt_OptionalHeader (read_nt_headers (packed_image r sub ds) 64)) = 0"
  "opt_SizeOfImage (nt_OptionalHeader (read_nt_headers (packed_image r sub ds) 64)) = 32"
  "opt_SizeOfHeaders (nt_OptionalHeader (read_nt_headers (packed_image r sub ds) 64)) = 0"
  "opt_NumberOfRvaAndSizes (nt_OptionalHeader (read_nt_headers (packed_image r sub ds) 64)) = 0"
  "opt_ImageBase (nt_OptionalHeader (read_nt_headers (packed_image r sub ds) 64)) = 0x200000"
  "sh_VirtualSize (read_section_header (packed_image r sub ds) 328) = 16" "sh_VirtualAddress (read_section_header (packed_image r sub ds) 328) = 16"
  "sh_SizeOfRawData (read_section_header (packed_image r sub ds) 328) = r" "sh_PointerToRawData (read_section_header (packed_image r sub ds) 328) = 368"
  by (simp_all add: read_dos_header_def read_nt_headers_def read_file_header_def read_optional_header_def read_section_header_def
      packed_image_fields del: upt_conv_Cons upt_rec_numeral)

lemma packed_image_offsets:
  "nt_offset (packed_image r sub ds) = 64" "nt_of (packed_image r sub ds) = read_nt_headers (packed_image r sub ds) 64" "section_count (packed_image r sub ds) = 1"
  "section_of (packed_image r sub ds) 0 = read_section_header (packed_image r sub ds) 328" "size_of_image (packed_image r sub ds) = 32"
  by (simp_all add: nt_offset_def nt_of_def section_count_def section_of_def section_table_offset_def size_of_image_def packed_image_headers
      sizeof_KPE_FILE_HEADER_def)

end
