(* ===== verification/NtxUserImage.thy ===== *)
theory NtxUserImage
  imports NtxPsInit NtxKpe
begin

text \<open>
  The user image loader of \<^verbatim>\<open>kernel/ps/init.c\<close>: \<^verbatim>\<open>PsSpawnUserKpeFromBuffer\<close> and
  \<^verbatim>\<open>PspApplyUserKpeRelocations\<close>.

  The loader writes the image through the virtual addresses of the new address space while it is
  active.  \<open>user_ld\<close> and \<open>user_st\<close> are such accesses: the processor's walk of the page tables in physical
  memory, from \<open>hw_cr3\<close>, followed by a byte access.  \<open>None\<close> is an access to an address that is not mapped (the
  loader maps all of the image before it writes), a failed assertion or a loop that never ends.
\<close>

section \<open>Definitions\<close>

definition PS_IMAGE_MAX_SIZE :: u64 where "PS_IMAGE_MAX_SIZE = 16 * 1024 * 1024"
definition PS_USER_STACK_SIZE :: u64 where "PS_USER_STACK_SIZE = 16 * 4096"

definition PspAlignUp :: "u64 \<Rightarrow> u64 \<Rightarrow> u64" where
  "PspAlignUp Value Alignment = (if Alignment = 0 then Value else (Value + Alignment - 1) AND NOT (Alignment - 1))"

definition PspFileRangeValid :: "u64 \<Rightarrow> u64 \<Rightarrow> u64 \<Rightarrow> bool" where
  "PspFileRangeValid FileSize Offset Size = (let End = Offset + Size in if End < Offset then False else End \<le> FileSize)"

subsection \<open>Virtual memory accesses\<close>

fun mmu_walk :: "nat \<Rightarrow> nat \<Rightarrow> u64 \<Rightarrow> u64 \<Rightarrow> 'a MM_GLOBALS_scheme \<Rightarrow> u64 option" where
  "mmu_walk 0 Level va Table s = Some ((Table AND MM_PTE_ADDR_MASK) + (va AND 0xFFF))"
| "mmu_walk (Suc k) Level va Table s =
     (let e = hw_mem s (slot Table (walk_index va Level)) in
      if \<not> has_flag e MM_PTE_PRESENT then None
      else if k > 0 \<and> has_flag e MM_PTE_LARGE
      then Some ((e AND MM_PTE_ADDR_MASK AND NOT (mask (12 + 9 * k))) + (va AND mask (12 + 9 * k)))
      else mmu_walk k (Suc Level) va e s)"

definition mmu_translate :: "u64 \<Rightarrow> 'a MM_GLOBALS_scheme \<Rightarrow> u64 option" where
  "mmu_translate va s = mmu_walk 4 0 va (hw_cr3 s) s"

definition user_ld :: "'a MM_GLOBALS_scheme \<Rightarrow> u64 \<Rightarrow> u8 option" where
  "user_ld s va = map_option (\<lambda>pa. ucast (drop_bit (8 * unat (pa AND 7)) (hw_mem s (pa AND NOT 7)))) (mmu_translate va s)"

definition user_st :: "u64 \<Rightarrow> u8 \<Rightarrow> 'a MM_GLOBALS_scheme \<Rightarrow> 'a MM_GLOBALS_scheme option" where
  "user_st va b s =
     map_option (\<lambda>pa. let n = 8 * unat (pa AND 7); c = hw_mem s (pa AND NOT 7) in
        s\<lparr>hw_mem := (hw_mem s)(pa AND NOT 7 := (c AND NOT (push_bit n 0xFF)) OR push_bit n (ucast b))\<rparr>) (mmu_translate va s)"

subsection \<open>Relocation\<close>

definition PspApplyUserKpeRelocations ::
    "('m \<Rightarrow> u64 \<Rightarrow> u8 option) \<Rightarrow> (u64 \<Rightarrow> u8 \<Rightarrow> 'm \<Rightarrow> 'm option) \<Rightarrow> u64 \<Rightarrow> KPE_NT_HEADERS64 \<Rightarrow> 'm \<Rightarrow> (KSTATUS \<times> 'm) option" where
  "PspApplyUserKpeRelocations ld st LoadedBase Nt m =
     (let opt = nt_OptionalHeader Nt; Delta = LoadedBase - opt_ImageBase opt in
      if Delta = 0 then Some (KSTATUS_SUCCESS, m)
      else if opt_DllCharacteristics opt AND KPE_DLLCHAR_DYNAMIC_BASE = 0 then Some (KSTATUS_ACCESS_DENIED, m)
      else
        let RelocDir = opt_DataDirectory opt ! KPE_DIR_BASERELOC in
        if dd_VirtualAddress RelocDir = 0 \<or> dd_Size RelocDir < 8 then Some (KSTATUS_ACCESS_DENIED, m)
        else if (ucast (dd_VirtualAddress RelocDir) :: u64) + ucast (dd_Size RelocDir) > ucast (opt_SizeOfImage opt)
        then Some (KSTATUS_INVALID_PARAMETER, m)
        else
          let Cursor = LoadedBase + ucast (dd_VirtualAddress RelocDir) in
          reloc_blocks ld st (\<lambda>va. \<not> (ucast va :: u64) + MM_PAGE_SIZE > ucast (opt_SizeOfImage opt))
            KSTATUS_SUCCESS KSTATUS_INVALID_PARAMETER KSTATUS_NOT_IMPLEMENTED KSTATUS_INVALID_PARAMETER
            LoadedBase (opt_SizeOfImage opt) Delta (Cursor + ucast (dd_Size RelocDir)) Cursor m)"

subsection \<open>Spawning\<close>

text \<open>The checks of the file, up to the creation of the process.\<close>

definition spawn_image_valid :: "u8 list \<Rightarrow> u64 \<Rightarrow> bool" where
  "spawn_image_valid f ImageSize =
     (let Dos = read_dos_header f 0 in
      if dos_e_magic Dos \<noteq> KPE_DOS_MAGIC then False
      else if unat (dos_e_lfanew Dos) + sizeof_KPE_NT_HEADERS64 > unat ImageSize then False
      else
        let Nt = read_nt_headers f (unat (dos_e_lfanew Dos)); fh = nt_FileHeader Nt; opt = nt_OptionalHeader Nt in
        if nt_Signature Nt \<noteq> KPE_SIGNATURE \<or> fh_Machine fh \<noteq> KPE_MACHINE_AUR64 \<or> opt_Magic opt \<noteq> KPE_OPT_MAGIC_AUR64 \<or>
           opt_Subsystem opt \<noteq> KPE_SUBSYSTEM_USERLAND \<or> fh_NumberOfSections fh = 0 \<or> opt_SizeOfImage opt = 0 \<or>
           opt_AddressOfEntryPoint opt \<ge> opt_SizeOfImage opt \<or> opt_NumberOfRvaAndSizes opt > KPE_NUMBEROF_DIRECTORY_ENTRIES
        then False
        else
          let SectionTableOffset = unat (dos_e_lfanew Dos) + 4 + sizeof_KPE_FILE_HEADER + unat (fh_SizeOfOptionalHeader fh) in
          if SectionTableOffset + unat (fh_NumberOfSections fh) * sizeof_KPE_SECTION_HEADER > unat ImageSize then False
          else list_all (\<lambda>Index. let sec = read_section_header f (SectionTableOffset + Index * sizeof_KPE_SECTION_HEADER) in
                 sh_SizeOfRawData sec = 0 \<or>
                 PspFileRangeValid ImageSize (ucast (sh_PointerToRawData sec)) (ucast (sh_SizeOfRawData sec)))
               [0..<unat (fh_NumberOfSections fh)])"

definition spawn_base_valid :: "u64 \<Rightarrow> u32 \<Rightarrow> bool" where
  "spawn_base_valid PreferredImageBase SizeOfImage \<longleftrightarrow>
     \<not> (PreferredImageBase = 0 \<or> PreferredImageBase \<ge> PS_USER_TOP \<or>
        PreferredImageBase + ucast SizeOfImage < PreferredImageBase \<or> PreferredImageBase + ucast SizeOfImage \<ge> PS_USER_TOP)"

text \<open>The copy loop over the sections; it stops with an error at a section that does not fit.\<close>

fun spawn_copy_sections ::
    "(u64 \<Rightarrow> u8 \<Rightarrow> 'm \<Rightarrow> 'm option) \<Rightarrow> u8 list \<Rightarrow> u64 \<Rightarrow> u32 \<Rightarrow> KPE_SECTION_HEADER list \<Rightarrow> 'm \<Rightarrow> (KSTATUS \<times> 'm) option" where
  "spawn_copy_sections st f UserImageBase SizeOfImage [] m = Some (KSTATUS_SUCCESS, m)"
| "spawn_copy_sections st f UserImageBase SizeOfImage (sec # secs) m =
     (let CopySize = sh_SizeOfRawData sec in
      if CopySize = 0 then spawn_copy_sections st f UserImageBase SizeOfImage secs m
      else if (ucast (sh_VirtualAddress sec) :: u64) + ucast CopySize > ucast SizeOfImage then Some (KSTATUS_INVALID_PARAMETER, m)
      else do {
        m1 \<leftarrow> write_bytes st (take (unat CopySize) (drop (unat (sh_PointerToRawData sec)) f)) (UserImageBase + ucast (sh_VirtualAddress sec)) m;
        spawn_copy_sections st f UserImageBase SizeOfImage secs m1 })"

text \<open>Headers, sections and relocations, written through the active address space.\<close>

definition spawn_load ::
    "('m \<Rightarrow> u64 \<Rightarrow> u8 option) \<Rightarrow> (u64 \<Rightarrow> u8 \<Rightarrow> 'm \<Rightarrow> 'm option) \<Rightarrow> u8 list \<Rightarrow> u64 \<Rightarrow> u64 \<Rightarrow> 'm \<Rightarrow> (KSTATUS \<times> 'm) option" where
  "spawn_load ld st f ImageSize UserImageBase m =
     (let Nt = nt_of f; opt = nt_OptionalHeader Nt;
          H1 = (ucast (opt_SizeOfHeaders opt) :: u64);
          H2 = (if H1 > ucast (opt_SizeOfImage opt) then ucast (opt_SizeOfImage opt) else H1);
          HeaderCopySize = (if H2 > ImageSize then ImageSize else H2)
      in do {
        m1 \<leftarrow> write_bytes st (take (unat HeaderCopySize) f) UserImageBase m;
        (Status, m2) \<leftarrow> spawn_copy_sections st f UserImageBase (opt_SizeOfImage opt) (map (section_of f) [0..<section_count f]) m1;
        if Status = KSTATUS_SUCCESS then PspApplyUserKpeRelocations ld st UserImageBase Nt m2 else Some (Status, m2) })"

fun spawn_protect_pages :: "nat \<Rightarrow> u64 \<Rightarrow> u64 \<Rightarrow> nat \<Rightarrow> u64 \<Rightarrow> 'a MM_GLOBALS_scheme \<Rightarrow> 'a MM_GLOBALS_scheme option" where
  "spawn_protect_pages AddressSpace SectionBase PteFlags 0 Cursor s = Some s"
| "spawn_protect_pages AddressSpace SectionBase PteFlags (Suc k) Cursor s = do {
     (_, s1) \<leftarrow> MmAsProtectPage (Some AddressSpace) ((SectionBase + Cursor) AND NOT 0xFFF) PteFlags s;
     spawn_protect_pages AddressSpace SectionBase PteFlags k (Cursor + MM_PAGE_SIZE) s1 }"

definition section_pte_flags :: "KPE_SECTION_HEADER \<Rightarrow> u64" where
  "section_pte_flags sec =
     (let F0 = PS_PTE_USER;
          F1 = (if sh_Characteristics sec AND KPE_SCN_MEM_WRITE \<noteq> 0 then F0 OR PS_PTE_WRITABLE else F0)
      in if sh_Characteristics sec AND KPE_SCN_MEM_EXECUTE = 0 then F1 OR PS_PTE_NX else F1)"

fun spawn_protect :: "nat \<Rightarrow> u64 \<Rightarrow> KPE_SECTION_HEADER list \<Rightarrow> 'a MM_GLOBALS_scheme \<Rightarrow> 'a MM_GLOBALS_scheme option" where
  "spawn_protect AddressSpace UserImageBase [] s = Some s"
| "spawn_protect AddressSpace UserImageBase (sec # secs) s =
     (let EffectiveVirtualSize = (if sh_VirtualSize sec = 0 then sh_SizeOfRawData sec else sh_VirtualSize sec) in
      if EffectiveVirtualSize = 0 then spawn_protect AddressSpace UserImageBase secs s
      else do {
        s1 \<leftarrow> spawn_protect_pages AddressSpace (UserImageBase + ucast (sh_VirtualAddress sec)) (section_pte_flags sec)
                (unat (PspAlignUp (ucast EffectiveVirtualSize) MM_PAGE_SIZE div MM_PAGE_SIZE)) 0 s;
        spawn_protect AddressSpace UserImageBase secs s1 })"

text \<open>The three mappings of a new process: the image, the guard page and the stack.  On success the image
  base and the stack base.\<close>

definition spawn_map :: "nat \<Rightarrow> u32 \<Rightarrow> 'a PS_GLOBALS_scheme \<Rightarrow> ((KSTATUS + u64 \<times> u64) \<times> 'a PS_GLOBALS_scheme) option" where
  "spawn_map AddressSpace SizeOfImage s = do {
     (r1, s1) \<leftarrow> MmMapAnonymous (Some AddressSpace) (ucast SizeOfImage) (MM_PROT_READ OR MM_PROT_WRITE OR MM_PROT_EXECUTE)
                   MM_REGION_FLAG_WIRED True s;
     (case r1 of
        Inl Status \<Rightarrow> Some (Inl Status, s1)
      | Inr UserImageBase \<Rightarrow> do {
          (r2, s2) \<leftarrow> MmMapAnonymous (Some AddressSpace) MM_PAGE_SIZE MM_PROT_READ (MM_REGION_FLAG_GUARD OR MM_REGION_FLAG_LAZY) True s1;
          (case r2 of
             Inl Status \<Rightarrow> Some (Inl Status, s2)
           | Inr _ \<Rightarrow> do {
               (r3, s3) \<leftarrow> MmMapAnonymous (Some AddressSpace) PS_USER_STACK_SIZE (MM_PROT_READ OR MM_PROT_WRITE) MM_REGION_FLAG_WIRED True s2;
               (case r3 of
                  Inl Status \<Rightarrow> Some (Inl Status, s3)
                | Inr UserStackBase \<Rightarrow> Some (Inr (UserImageBase, UserStackBase), s3)) }) }) }"

text \<open>The start of the thread.\<close>

definition spawn_start :: "nat \<Rightarrow> u64 \<Rightarrow> u64 \<Rightarrow> 'a PS_GLOBALS_scheme \<Rightarrow> ((KSTATUS + u64 \<times> u64) \<times> 'a PS_GLOBALS_scheme) option" where
  "spawn_start Process UserEntry UserStackTop s = do {
     (r, s1) \<leftarrow> PsCreateUserThread (Some Process) UserEntry UserStackTop 0 0 True s;
     (case r of
        Inl Status \<Rightarrow> Some (Inl Status, s1)
      | Inr Thread \<Rightarrow> do {
          (Status, s2) \<leftarrow> PsReadyThread (Some Thread) s1;
          Some (if Status \<noteq> KSTATUS_SUCCESS then Inl Status else Inr (pr_ProcessId (gPsProcessPool s2 Process), UserEntry), s2) }) }"

text \<open>
  The image buffer is what the processor reads at its address: \<open>view s\<close> are the bytes seen through the page
  tables active in \<open>s\<close>, \<open>None\<close> a buffer that is not mapped there.  The code reads it three times under different
  page tables: the checks and the mappings under those of the caller, the copies and the relocations under those
  of the new process, and the section table again after the caller's have been restored.  A buffer in kernel
  memory is the same in all of them.  On success: the process id and the entry address.
\<close>

definition PsSpawnUserKpeFromBuffer ::
    "('a PS_GLOBALS_scheme \<Rightarrow> u8 list option) option \<Rightarrow> u64 \<Rightarrow> 'a PS_GLOBALS_scheme \<Rightarrow>
     ((KSTATUS + u64 \<times> u64) \<times> 'a PS_GLOBALS_scheme) option" where
  "PsSpawnUserKpeFromBuffer ImageBuffer ImageSize s =
     (case ImageBuffer of
        None \<Rightarrow> Some (Inl KSTATUS_INVALID_PARAMETER, s)
      | Some view \<Rightarrow>
          if \<not> gPsReady s \<or> unat ImageSize < sizeof_KPE_DOS_HEADER \<or> ImageSize > PS_IMAGE_MAX_SIZE
          then Some (Inl KSTATUS_INVALID_PARAMETER, s)
          else do {
            f \<leftarrow> view s;
            if \<not> spawn_image_valid f ImageSize then Some (Inl KSTATUS_INVALID_PARAMETER, s)
            else do {
            (rp, s1) \<leftarrow> PspCreateProcessInternal (Some ''proc.user'') True s;
            (case rp of
               Inl Status \<Rightarrow> Some (Inl Status, s1)
             | Inr Process \<Rightarrow>
                 let opt = nt_OptionalHeader (nt_of f);
                     AddressSpace = the (pr_AddressSpaceRoot (gPsProcessPool s1 Process));
                     PreferredImageBase = opt_ImageBase opt AND NOT 0xFFF
                 in if \<not> spawn_base_valid PreferredImageBase (opt_SizeOfImage opt) then Some (Inl KSTATUS_INVALID_PARAMETER, s1)
                    else do {
                      (rm, s2) \<leftarrow> spawn_map AddressSpace (opt_SizeOfImage opt)
                                   (set_as AddressSpace (\<lambda>as. as\<lparr>as_NextUserBase := PreferredImageBase\<rparr>) s1);
                      (case rm of
                         Inl Status \<Rightarrow> Some (Inl Status, s2)
                       | Inr (UserImageBase, UserStackBase) \<Rightarrow>
                           let UserStackTop = UserStackBase + PS_USER_STACK_SIZE;
                               PreviousAddressSpace = (case PsGetCurrentProcess s2 of
                                 None \<Rightarrow> None | Some cp \<Rightarrow> pr_AddressSpaceRoot (gPsProcessPool s2 cp))
                           in case MmActivateAddressSpace (Some AddressSpace) s2 of
                             (Status, s3) \<Rightarrow>
                               if Status \<noteq> KSTATUS_SUCCESS then Some (Inl Status, s3)
                               else do {
                                 f1 \<leftarrow> view s3;
                                 (Status, s4) \<leftarrow> spawn_load user_ld user_st f1 ImageSize UserImageBase s3;
                                 let s5 = (if PreviousAddressSpace \<noteq> None then snd (MmActivateAddressSpace PreviousAddressSpace s4) else s4);
                                 if Status \<noteq> KSTATUS_SUCCESS then Some (Inl Status, s5)
                                 else do {
                                   f2 \<leftarrow> view s5;
                                   s6 \<leftarrow> spawn_protect AddressSpace UserImageBase (map (section_of f2) [0..<section_count f2]) s5;
                                   spawn_start Process (UserImageBase + ucast (opt_AddressOfEntryPoint (nt_OptionalHeader (nt_of f2))))
                                     UserStackTop s6 } }) }) } })"

section \<open>Where the loader writes\<close>

lemma copy_in_image:
  fixes v c S :: u32
  assumes "\<not> (ucast v :: u64) + ucast c > ucast S" "i < unat c"
  shows "in_image Base S (Base + ucast v + of_nat i)"
proof -
  have l: "unat v < 2 ^ 32" "unat c < 2 ^ 32"
    using unsigned_less [of v, where 'a = nat] unsigned_less [of c, where 'a = nat] by simp_all
  then have "unat ((ucast v :: u64) + ucast c) = unat v + unat c" "unat ((ucast v :: u64) + of_nat i) = unat v + i"
    using assms(2) by (simp_all add: unat_word_ariths unsigned_of_nat take_bit_nat_eq_self)
  with assms show ?thesis by (simp add: in_image_def word_less_nat_alt)
qed

lemma spawn_copy_sections_stores:
  "spawn_copy_sections st f Base S secs m = Some (r, m') \<Longrightarrow> stores_in st (in_image Base S) m m'"
proof (induction secs arbitrary: m)
  case (Cons sec secs)
  let ?v = "sh_VirtualAddress sec" and ?c = "sh_SizeOfRawData sec"
  have sec: "stores_in st (in_image Base S) m m1"
    if "write_bytes st (take (unat ?c) (drop (unat (sh_PointerToRawData sec)) f)) (Base + ucast ?v) m = Some m1"
      "\<not> (ucast ?v :: u64) + ucast ?c > ucast S" for m1
    using write_bytes_stores [OF that(1), of "in_image Base S"] copy_in_image [OF that(2), of _ Base] by simp
  from Cons.prems show ?case
    by (auto simp: Let_def not_less [symmetric] split: if_splits bind_splits
        dest!: Cons.IH sec intro: stores_in.none stores_in_trans)
qed (auto intro: stores_in.none)

lemma PspApplyUserKpeRelocations_stores:
  assumes "PspApplyUserKpeRelocations ld st Base Nt m = Some (r, m')"
  shows "stores_in st (in_image Base (opt_SizeOfImage (nt_OptionalHeader Nt))) m m'"
  using assms by (auto simp: PspApplyUserKpeRelocations_def Let_def intro: stores_in.none split: if_splits dest!: reloc_blocks_stores)

lemma header_in_image:
  fixes S :: u32 and h :: u64
  assumes "i < unat h" "\<not> h > ucast S"
  shows "in_image Base S (Base + of_nat i)"
proof -
  have "unat h \<le> unat S" using assms(2) by (simp add: word_less_nat_alt)
  moreover have "i < 2 ^ 64" using assms(1) unsigned_less [of h, where 'a = nat] by simp
  ultimately show ?thesis using assms(1) by (simp add: in_image_def unsigned_of_nat take_bit_nat_eq_self)
qed

lemma spawn_load_stores:
  assumes "spawn_load ld st f n Base m = Some (r, m')"
  shows "stores_in st (in_image Base (size_of_image f)) m m'"
proof -
  let ?S = "opt_SizeOfImage (nt_OptionalHeader (nt_of f))"
  define h where "h = (let H1 = (ucast (opt_SizeOfHeaders (nt_OptionalHeader (nt_of f))) :: u64);
      H2 = (if H1 > ucast ?S then ucast ?S else H1) in if H2 > n then n else H2)"
  have h: "\<not> h > ucast ?S" by (auto simp: h_def Let_def)
  from assms obtain m1 st2 m2 where m1: "write_bytes st (take (unat h) f) Base m = Some m1"
    and m2: "spawn_copy_sections st f Base ?S (map (section_of f) [0..<section_count f]) m1 = Some (st2, m2)"
    and m3: "(if st2 = KSTATUS_SUCCESS then PspApplyUserKpeRelocations ld st Base (nt_of f) m2 else Some (st2, m2)) = Some (r, m')"
    unfolding spawn_load_def by (auto simp: h_def Let_def bind_eq_Some_conv)
  have "stores_in st (in_image Base ?S) m m1"
    using write_bytes_stores [OF m1, of "in_image Base ?S"] header_in_image [OF _ h, of _ Base] by simp
  moreover have "stores_in st (in_image Base ?S) m1 m2" by (rule spawn_copy_sections_stores [OF m2])
  moreover have "stores_in st (in_image Base ?S) m2 m'"
    using m3 PspApplyUserKpeRelocations_stores [of ld st Base "nt_of f" m2 r m'] by (auto intro: stores_in.none split: if_splits)
  ultimately show ?thesis unfolding size_of_image_def by (meson stores_in_trans)
qed

section \<open>What a spawn starts\<close>

text \<open>The image is mapped at the base it asks for, rounded down to a page: it is the first mapping of the new address space.\<close>

lemma map_anonymous_base:
  "MmMapAnonymous (Some a) n p fl True s = Some (Inr b, t) \<Longrightarrow> b = MmpAlignUp (as_NextUserBase (gMmAddressSpacePool s a)) MM_PAGE_SIZE"
  by (auto simp: MmMapAnonymous_def Let_def split: if_splits bind_splits)

lemma spawn_map_base:
  assumes "spawn_map a sz (set_as a (\<lambda>x. x\<lparr>as_NextUserBase := P AND NOT 0xFFF\<rparr>) s) = Some (Inr (Base, stk), t)"
  shows "Base = P AND NOT 0xFFF"
proof -
  define b where "b = P AND NOT 0xFFF"
  have m: "(0xFFF :: u64) = mask 12" by (simp add: mask_eq_decr_exp)
  have z: "b AND mask 12 = 0" "b AND NOT (mask 12) = b" unfolding b_def m by (auto intro!: bit_eqI simp: bit_simps)
  have p: "MM_PAGE_SIZE \<noteq> 0" "MM_PAGE_SIZE - 1 = mask 12" by (simp_all add: MM_PAGE_SIZE_def m [symmetric])
  have "MmpAlignUp b MM_PAGE_SIZE = (b + (MM_PAGE_SIZE - 1)) AND NOT (MM_PAGE_SIZE - 1)" using p(1) by (simp add: MmpAlignUp_def add_diff_eq)
  also have "\<dots> = (b + mask 12) AND NOT (mask 12)" unfolding p(2) ..
  also have "b + mask 12 = b OR mask 12" using z(1) by (rule disjunctive_add_eq_or)
  also have "(b OR mask 12) AND NOT (mask 12) = b" using z(2) by (simp add: bit.conj_disj_distrib2)
  finally have "MmpAlignUp b MM_PAGE_SIZE = b" .
  moreover have "Base = MmpAlignUp b MM_PAGE_SIZE"
    using assms(1) unfolding b_def [symmetric]
    by (auto simp: spawn_map_def set_as_def dest!: map_anonymous_base split: bind_splits sum.splits)
  ultimately show ?thesis by (simp add: b_def)
qed

lemma spawn_Inr:
  fixes s :: "'a PS_GLOBALS_scheme"
  assumes "PsSpawnUserKpeFromBuffer (Some (\<lambda>_. Some f)) n s = Some (Inr v, t)"
  obtains Process stk s6 where "spawn_image_valid f n"
    "spawn_start Process ((opt_ImageBase (nt_OptionalHeader (nt_of f)) AND NOT 0xFFF) +
       ucast (opt_AddressOfEntryPoint (nt_OptionalHeader (nt_of f)))) stk s6 = Some (Inr v, t)"
proof -
  let ?o = "nt_OptionalHeader (nt_of f)"
  define P where "P = opt_ImageBase ?o AND NOT 0xFFF"
  have "spawn_image_valid f n \<and> (\<exists>p Base stk A s2 s6. \<exists>s1 :: 'a PS_GLOBALS_scheme.
      spawn_map A (opt_SizeOfImage ?o) (set_as A (\<lambda>as. as\<lparr>as_NextUserBase := P\<rparr>) s1) = Some (Inr (Base, stk), s2) \<and>
      spawn_start p (Base + ucast (opt_AddressOfEntryPoint ?o)) (stk + PS_USER_STACK_SIZE) s6 = Some (Inr v, t))"
    using assms unfolding PsSpawnUserKpeFromBuffer_def
    by (auto simp: Let_def P_def [simplified, symmetric] split: bind_splits option.splits if_splits sum.splits prod.splits) blast+
  then obtain p Base stk A s2 s6 and s1 :: "'a PS_GLOBALS_scheme" where v: "spawn_image_valid f n"
    and m: "spawn_map A (opt_SizeOfImage ?o) (set_as A (\<lambda>as. as\<lparr>as_NextUserBase := P\<rparr>) s1) = Some (Inr (Base, stk), s2)"
    and st: "spawn_start p (Base + ucast (opt_AddressOfEntryPoint ?o)) (stk + PS_USER_STACK_SIZE) s6 = Some (Inr v, t)" by blast
  have "Base = opt_ImageBase ?o AND NOT 0xFFF" using spawn_map_base [OF m [unfolded P_def]] .
  with that v st show thesis by blast
qed

lemma spawn_start_Inr:
  assumes "spawn_start Process entry stk s = Some (Inr (pid, e), t)"
  obtains th s1 where "PsCreateUserThread (Some Process) entry stk 0 0 True s = Some (Inr th, s1)"
    "PsReadyThread (Some th) s1 = Some (KSTATUS_SUCCESS, t)" "e = entry" "pid = pr_ProcessId (gPsProcessPool t Process)"
  using assms unfolding spawn_start_def
  by (auto split: bind_splits sum.splits if_splits)

lemma ready_effect:
  assumes "PsReadyThread (Some th) s = Some (KSTATUS_SUCCESS, t)"
  shows "gPsRunQueueTail t = Some th" "th_State (thread t th) = PsThreadReady" "th_UserEntry (thread t th) = th_UserEntry (thread s th)"
    "th_IsUserThread (thread t th) = th_IsUserThread (thread s th)" "th_OwnerProcess (thread t th) = th_OwnerProcess (thread s th)"
proof -
  from assms have t: "t = run_queue_push th (set_thread th (\<lambda>x. x\<lparr>th_State := PsThreadReady\<rparr>) s)"
    by (auto simp: PsReadyThread_def PspRunQueuePush_def bind_eq_Some_conv split: if_splits)
  show "gPsRunQueueTail t = Some th" using psq.push_tail by (simp add: t)
  show "th_State (thread t th) = PsThreadReady" "th_OwnerProcess (thread t th) = th_OwnerProcess (thread s th)" by (simp_all add: t)
  show "th_UserEntry (thread t th) = th_UserEntry (thread s th)" "th_IsUserThread (thread t th) = th_IsUserThread (thread s th)"
    by (auto simp: t run_queue_push_def set_thread_def Let_def split: option.splits)
qed

lemma spawn_image_valid_entry:
  "spawn_image_valid f n \<Longrightarrow> opt_AddressOfEntryPoint (nt_OptionalHeader (nt_of f)) < opt_SizeOfImage (nt_OptionalHeader (nt_of f))"
  by (auto simp: spawn_image_valid_def nt_of_def nt_offset_def Let_def split: if_splits)

section \<open>Properties\<close>

text \<open>C38: the user image loader writes only inside the image.  Whatever the headers, the sections and the
  relocation directory of the file say, and in whatever memory the image is loaded, every byte the loader
  writes lies within \<^verbatim>\<open>SizeOfImage\<close> bytes of the image base, on every path.\<close>

theorem spawn_load_in_image:
  assumes "spawn_load ld st f ImageSize Base m = Some (r, m')"
  shows "stores_in st (in_image Base (size_of_image f)) m m'"
  using spawn_load_stores [OF assms] .

text \<open>A user image loaded into flat memory at the base it asks for.\<close>

definition flat_ld :: "(u64 \<Rightarrow> u8) \<Rightarrow> u64 \<Rightarrow> u8 option" where "flat_ld m a = Some (m a)"
definition flat_st :: "u64 \<Rightarrow> u8 \<Rightarrow> (u64 \<Rightarrow> u8) \<Rightarrow> (u64 \<Rightarrow> u8) option" where "flat_st a b m = Some (m(a := b))"

lemma write_flat: "\<exists>m'. write_bytes flat_st bs a m = Some m'"
  by (induction bs arbitrary: a m) (simp_all add: flat_st_def)

theorem spawn_load_in_image_witness:
  "\<exists>m'. spawn_load flat_ld flat_st (demo_image 16 KPE_SUBSYSTEM_USERLAND) 392 0x200000 (\<lambda>_. 7) = Some (KSTATUS_SUCCESS, m') \<and>
     stores_in flat_st (in_image 0x200000 32) (\<lambda>_. 7) m'"
proof -
  let ?f = "demo_image 16 KPE_SUBSYSTEM_USERLAND"
  obtain m1 where m1: "write_bytes flat_st (take 16 (drop 368 ?f)) 0x200010 (\<lambda>_. 7) = Some m1" using write_flat by blast
  have l: "spawn_load flat_ld flat_st ?f 392 0x200000 (\<lambda>_. 7) = Some (KSTATUS_SUCCESS, m1)"
    using m1 by (simp add: spawn_load_def Let_def packed_image_offsets packed_image_headers PspApplyUserKpeRelocations_def)
  from spawn_load_in_image [OF l] l show ?thesis by (simp add: packed_image_offsets)
qed

text \<open>The parts of the state a query reads are not touched when a thread is created and made ready.\<close>

lemma started_view:
  assumes "PsCreateUserThread (Some p) entry stk a0 a1 True s = Some (Inr th, s1)" "PsReadyThread (Some th) s1 = Some (KSTATUS_SUCCESS, t)"
  shows "hw_mem t = hw_mem s" "gMmReady t = gMmReady s" "gMmPhysmapReady t = gMmPhysmapReady s" "gMmPhysmapBase t = gMmPhysmapBase s"
    "gMmAddressSpacePool t = gMmAddressSpacePool s" "gPsProcessPool t = gPsProcessPool s"
proof -
  have "hw_mem s1 = hw_mem s \<and> gMmReady s1 = gMmReady s \<and> gMmPhysmapReady s1 = gMmPhysmapReady s \<and> gMmPhysmapBase s1 = gMmPhysmapBase s \<and>
      gMmAddressSpacePool s1 = gMmAddressSpacePool s \<and> gPsProcessPool s1 = gPsProcessPool s"
    using assms(1)
    by (auto simp: PsCreateUserThread_def PspAllocateThreadSlot_def ObCreateObject_def Let_def set_object_def set_thread_def bind_eq_Some_conv
        split: if_splits option.splits sum.splits dest!: query_readonly)
  moreover have "t = run_queue_push th (set_thread th (\<lambda>x. x\<lparr>th_State := PsThreadReady\<rparr>) s1)"
    using assms(2) by (auto simp: PsReadyThread_def PspRunQueuePush_def bind_eq_Some_conv split: if_splits)
  ultimately show "hw_mem t = hw_mem s" "gMmReady t = gMmReady s" "gMmPhysmapReady t = gMmPhysmapReady s" "gMmPhysmapBase t = gMmPhysmapBase s"
    "gMmAddressSpacePool t = gMmAddressSpacePool s" "gPsProcessPool t = gPsProcessPool s"
    by (auto simp: run_queue_push_def set_thread_def Let_def split: option.splits)
qed

text \<open>What a successful spawn of an image in kernel memory has started: a user thread at the end of the run queue, whose entry address,
  the one reported to the caller, is that of the image at its preferred base rounded down to a page, and lies in a page that the
  address space of the new process, as it is when the call returns, maps executable for user code.\<close>

theorem PsSpawnUserKpeFromBuffer_started:
  assumes "PsSpawnUserKpeFromBuffer (Some (\<lambda>_. Some f)) n s = Some (Inr (pid, entry), t)"
  shows "spawn_image_valid f n \<and> entry < PS_USER_TOP \<and>
    entry = (opt_ImageBase (nt_OptionalHeader (nt_of f)) AND NOT 0xFFF) + ucast (opt_AddressOfEntryPoint (nt_OptionalHeader (nt_of f))) \<and>
    (\<exists>th p as e. gPsRunQueueTail t = Some th \<and> th_State (thread t th) = PsThreadReady \<and> th_IsUserThread (thread t th) \<and>
       th_UserEntry (thread t th) = entry \<and> th_OwnerProcess (thread t th) = Some p \<and> pid = pr_ProcessId (gPsProcessPool t p) \<and>
       pr_AddressSpaceRoot (gPsProcessPool t p) = Some as \<and> MmAsQueryPte (Some as) (entry AND NOT 0xFFF) True t = Some (Inr e, t) \<and>
       has_flag e PS_PTE_PRESENT \<and> has_flag e PS_PTE_USER \<and> \<not> has_flag e PS_PTE_NX)"
proof -
  from spawn_Inr [OF assms] obtain p stk u where f: "spawn_image_valid f n"
    and st: "spawn_start p ((opt_ImageBase (nt_OptionalHeader (nt_of f)) AND NOT 0xFFF) +
       ucast (opt_AddressOfEntryPoint (nt_OptionalHeader (nt_of f)))) stk u = Some (Inr (pid, entry), t)" by blast
  from spawn_start_Inr [OF st] obtain th s1 where cr: "PsCreateUserThread (Some p) entry stk 0 0 True u = Some (Inr th, s1)"
    and rd: "PsReadyThread (Some th) s1 = Some (KSTATUS_SUCCESS, t)" "pid = pr_ProcessId (gPsProcessPool t p)"
    and e: "entry = (opt_ImageBase (nt_OptionalHeader (nt_of f)) AND NOT 0xFFF) + ucast (opt_AddressOfEntryPoint (nt_OptionalHeader (nt_of f)))"
    by blast
  note ce = create_user_thread_effect [OF cr] and re = ready_effect [OF rd(1)] and v = started_view [OF cr rd(1)]
  from ce obtain as e where q: "pr_AddressSpaceRoot (gPsProcessPool u p) = Some as"
    "MmAsQueryPte (Some as) (entry AND NOT 0xFFF) True u = Some (Inr e, u)"
    "has_flag e PS_PTE_PRESENT" "has_flag e PS_PTE_USER" "\<not> has_flag e PS_PTE_NX" by blast
  have "MmAsQueryPte (Some as) (entry AND NOT 0xFFF) True t = Some (Inr e, t)"
    by (rule query_view [OF q(2)]) (simp_all add: v as_root_def)
  with f ce re rd(2) q e v show ?thesis by auto
qed

end
