(* ===== verification/NtxIo.thy ===== *)
theory NtxIo
  imports NtxLpc NtxUserImage
begin

text \<open>
  File objects, \<^verbatim>\<open>kernel/io/init.c\<close>: the table of boot files, file objects named by handles, reading and
  spawning a process from a file.

  The data of a file is a pointer into memory the I/O manager only reads; a read is an access of the
  processor through the active page tables (\<open>user_ld\<close>), and \<open>None\<close> is a fault.  A read returns the bytes it stores
  in the caller's buffer; their number is the count the code reports.
\<close>

section \<open>Definitions\<close>

definition IO_MAX_FILE_OBJECTS :: nat where "IO_MAX_FILE_OBJECTS = 128"
definition IO_MAX_BOOT_FILES :: nat where "IO_MAX_BOOT_FILES = 16"
definition IO_SPAWN_IMAGE_MAX :: u64 where "IO_SPAWN_IMAGE_MAX = 16 * 1024 * 1024"
definition IO_FILE_ACCESS_READ :: u32 where "IO_FILE_ACCESS_READ = 1"
definition IO_FILE_ACCESS_ALL :: u32 where "IO_FILE_ACCESS_ALL = 7"

record IO_BOOT_FILE =
  bf_Path :: "char list"
  bf_Data :: "u64 option"
  bf_Size :: u64
  bf_InUse :: bool

record IO_FILE_OBJECT =
  fo_Header :: ptr
  fo_Data :: "u64 option"
  fo_Size :: u64
  fo_AccessMask :: u32

record IO_GLOBALS = LPC_GLOBALS +
  gIoFileType :: ptr
  gIoFilePool :: "nat \<Rightarrow> IO_FILE_OBJECT"
  gIoFileInUse :: "nat \<Rightarrow> bool"
  gIoBootFiles :: "nat \<Rightarrow> IO_BOOT_FILE"
  gIoSpawnScratch :: "nat \<Rightarrow> u8"
  gIoReady :: bool

type_synonym 'a io_delete = "OB_DELETE_ROUTINE \<Rightarrow> nat \<Rightarrow> 'a IO_GLOBALS_scheme \<Rightarrow> 'a IO_GLOBALS_scheme"

definition IopWriteHexLine :: "string \<Rightarrow> u64 \<Rightarrow> string option" where
  "IopWriteHexLine Prefix Value = ObpWriteHexLine 128 Prefix Value"

definition set_file :: "nat \<Rightarrow> (IO_FILE_OBJECT \<Rightarrow> IO_FILE_OBJECT) \<Rightarrow> 'a IO_GLOBALS_scheme \<Rightarrow> 'a IO_GLOBALS_scheme" where
  "set_file i f s = s\<lparr>gIoFilePool := (gIoFilePool s)(i := f (gIoFilePool s i))\<rparr>"

definition set_boot_file :: "nat \<Rightarrow> (IO_BOOT_FILE \<Rightarrow> IO_BOOT_FILE) \<Rightarrow> 'a IO_GLOBALS_scheme \<Rightarrow> 'a IO_GLOBALS_scheme" where
  "set_boot_file i f s = s\<lparr>gIoBootFiles := (gIoBootFiles s)(i := f (gIoBootFiles s i))\<rparr>"

definition empty_file :: IO_FILE_OBJECT where
  "empty_file = \<lparr>fo_Header = None, fo_Data = None, fo_Size = 0, fo_AccessMask = 0\<rparr>"

definition IopFindFileByHeader :: "ptr \<Rightarrow> 'a IO_GLOBALS_scheme \<Rightarrow> ptr" where
  "IopFindFileByHeader Header s = scan (\<lambda>i. gIoFileInUse s i \<and> fo_Header (gIoFilePool s i) = Header) 0 IO_MAX_FILE_OBJECTS"

definition IopAllocateFileSlot :: "'a IO_GLOBALS_scheme \<Rightarrow> ptr \<times> 'a IO_GLOBALS_scheme" where
  "IopAllocateFileSlot s =
     (case scan (\<lambda>i. \<not> gIoFileInUse s i) 0 IO_MAX_FILE_OBJECTS of
        None \<Rightarrow> (None, s)
      | Some Index \<Rightarrow> (Some Index, set_file Index (\<lambda>_. empty_file) (s\<lparr>gIoFileInUse := (gIoFileInUse s)(Index := True)\<rparr>)))"

definition IopDeleteFileObject :: "ptr \<Rightarrow> 'a IO_GLOBALS_scheme \<Rightarrow> 'a IO_GLOBALS_scheme" where
  "IopDeleteFileObject Object s =
     (case scan (\<lambda>i. gIoFileInUse s i \<and> fo_Header (gIoFilePool s i) = Object) 0 IO_MAX_FILE_OBJECTS of
        None \<Rightarrow> s
      | Some Index \<Rightarrow> set_file Index (\<lambda>_. empty_file) (s\<lparr>gIoFileInUse := (gIoFileInUse s)(Index := False)\<rparr>))"

definition IopFsFatLookupFile :: "string \<Rightarrow> 'a IO_GLOBALS_scheme \<Rightarrow> ptr" where
  "IopFsFatLookupFile Path s =
     scan (\<lambda>i. bf_InUse (gIoBootFiles s i) \<and> IopStringEquals (Some (c_str (bf_Path (gIoBootFiles s i)))) (Some Path)) 0 IO_MAX_BOOT_FILES"

definition IopVfsOpen :: "string option \<Rightarrow> ptr \<Rightarrow> 'a IO_GLOBALS_scheme \<Rightarrow> KSTATUS \<times> 'a IO_GLOBALS_scheme" where
  "IopVfsOpen Path FileObject s =
     (case (Path, FileObject) of
        (Some p, Some fo) \<Rightarrow>
          (case IopFsFatLookupFile p s of
             None \<Rightarrow> (KSTATUS_NOT_FOUND, s)
           | Some fat \<Rightarrow>
               (KSTATUS_SUCCESS,
                set_file fo (\<lambda>x. x\<lparr>fo_Data := bf_Data (gIoBootFiles s fat), fo_Size := bf_Size (gIoBootFiles s fat)\<rparr>) s))
      | _ \<Rightarrow> (KSTATUS_INVALID_PARAMETER, s))"

definition IoRegisterBootFile :: "string option \<Rightarrow> u64 option \<Rightarrow> u64 \<Rightarrow> 'a IO_GLOBALS_scheme \<Rightarrow> KSTATUS \<times> 'a IO_GLOBALS_scheme" where
  "IoRegisterBootFile Path Data Size s =
     (if \<not> gIoReady s \<or> Path = None \<or> Data = None \<or> Size = 0 then (KSTATUS_INVALID_PARAMETER, s)
      else case scan (\<lambda>i. \<not> bf_InUse (gIoBootFiles s i)) 0 IO_MAX_BOOT_FILES of
        None \<Rightarrow> (KSTATUS_INIT_FAILED, s)
      | Some Index \<Rightarrow>
          (case IopCopyString (Some (bf_Path (gIoBootFiles s Index))) 64 Path of
             (ok, buf) \<Rightarrow>
               let s1 = set_boot_file Index (\<lambda>b. b\<lparr>bf_Path := the buf\<rparr>) s in
               if \<not> ok then (KSTATUS_INVALID_PARAMETER, s1)
               else (KSTATUS_SUCCESS, set_boot_file Index (\<lambda>b. b\<lparr>bf_Data := Data, bf_Size := Size, bf_InUse := True\<rparr>) s1)))"

text \<open>The path \<^verbatim>\<open>\System\init.kpe\<close>.\<close>

definition init_kpe_path :: string where
  "init_kpe_path = [CHR 0x5C] @ ''System'' @ [CHR 0x5C] @ ''init.kpe''"

definition IoInitialize :: "'a IO_GLOBALS_scheme \<Rightarrow> KSTATUS \<times> 'a IO_GLOBALS_scheme" where
  "IoInitialize s =
     (if gIoReady s then (KSTATUS_ALREADY_INITIALIZED, s)
      else
        let s1 = s\<lparr>gIoFileInUse := array_fill IO_MAX_FILE_OBJECTS False (gIoFileInUse s),
                   gIoBootFiles := (\<lambda>i. if i < IO_MAX_BOOT_FILES
                      then \<lparr>bf_Path = (bf_Path (gIoBootFiles s i))[0 := NUL], bf_Data = None, bf_Size = 0, bf_InUse = False\<rparr>
                      else gIoBootFiles s i)\<rparr>
        in case ObCreateType (Some ''File'') (Some IopDeleteFileObject_ptr) True s1 of
             (Inl Status, s2) \<Rightarrow> (Status, s2)
           | (Inr ty, s2) \<Rightarrow>
               let s3 = s2\<lparr>gIoFileType := Some ty, gIoReady := True\<rparr> in
               (KSTATUS_SUCCESS,
                case NkGetBootInfo s3 of
                  None \<Rightarrow> s3
                | Some (_, bi) \<Rightarrow>
                    if bi_Flags bi AND BOOTINFO_FLAG_INIT_IMAGE_PRESENT \<noteq> 0 \<and> bi_InitImageBase bi \<noteq> 0 \<and> bi_InitImageSize bi \<noteq> 0
                    then snd (IoRegisterBootFile (Some init_kpe_path) (Some (bi_InitImageBase bi)) (bi_InitImageSize bi) s3)
                    else s3))"

definition IoOpenPath :: "'a io_delete \<Rightarrow> string option \<Rightarrow> u32 \<Rightarrow> outptr \<Rightarrow> 'a IO_GLOBALS_scheme \<Rightarrow> (KSTATUS + u32) \<times> 'a IO_GLOBALS_scheme" where
  "IoOpenPath del Path DesiredAccess OutHandle s =
     (if \<not> gIoReady s \<or> Path = None \<or> \<not> OutHandle then (Inl KSTATUS_INVALID_PARAMETER, s)
      else if DesiredAccess AND IO_FILE_ACCESS_ALL = 0 then (Inl KSTATUS_INVALID_PARAMETER, s)
      else case IopAllocateFileSlot s of
        (None, s1) \<Rightarrow> (Inl KSTATUS_INIT_FAILED, s1)
      | (Some fo, s1) \<Rightarrow>
          (case ObCreateObject (gIoFileType s1) (Some ''io.file'') IO_FILE_ACCESS_ALL 0 True s1 of
             (Inl Status, s2) \<Rightarrow> (Inl Status, s2)
           | (Inr Header, s2) \<Rightarrow>
               (case IopVfsOpen Path (Some fo) (set_file fo (\<lambda>x. x\<lparr>fo_Header := Some Header, fo_AccessMask := DesiredAccess\<rparr>) s2) of
                  (Status, s3) \<Rightarrow>
                    if Status \<noteq> KSTATUS_SUCCESS then (Inl Status, snd (ObDereferenceObject del (Some Header) s3))
                    else case ObInsertHandle (ObGetKernelHandleTable s3) (Some Header) DesiredAccess True s3 of
                           (r, s4) \<Rightarrow> (r, snd (ObDereferenceObject del (Some Header) s4)))))"

text \<open>The number of bytes a read at \<open>Offset\<close> transfers.\<close>

definition read_length :: "u64 \<Rightarrow> u64 \<Rightarrow> u64 \<Rightarrow> u64" where
  "read_length Size Offset BufferLength =
     (if Offset \<ge> Size then 0 else let Remaining = Size - Offset in if BufferLength < Remaining then BufferLength else Remaining)"

definition IoReadFileHandle ::
    "'a io_delete \<Rightarrow> u32 \<Rightarrow> u64 \<Rightarrow> outptr \<Rightarrow> u64 \<Rightarrow> outptr \<Rightarrow> 'a IO_GLOBALS_scheme \<Rightarrow> ((KSTATUS + u8 list) \<times> 'a IO_GLOBALS_scheme) option" where
  "IoReadFileHandle del HandleValue Offset OutBuffer BufferLength OutBytesRead s =
     (if \<not> gIoReady s \<or> \<not> OutBuffer \<or> \<not> OutBytesRead \<or> BufferLength = 0 then Some (Inl KSTATUS_INVALID_PARAMETER, s)
      else case ObReferenceObjectByHandle (ObGetKernelHandleTable s) HandleValue IO_FILE_ACCESS_READ (gIoFileType s) True s of
        (Inl Status, s1) \<Rightarrow> Some (Inl Status, s1)
      | (Inr Header, s1) \<Rightarrow>
          (case IopFindFileByHeader (Some Header) s1 of
             None \<Rightarrow> Some (Inl KSTATUS_NOT_FOUND, snd (ObDereferenceObject del (Some Header) s1))
           | Some fo \<Rightarrow>
               let Size = fo_Size (gIoFilePool s1 fo) in
               if Offset \<ge> Size then Some (Inr [], snd (ObDereferenceObject del (Some Header) s1))
               else do {
                 bs \<leftarrow> read_bytes user_ld (unat (read_length Size Offset BufferLength)) (the (fo_Data (gIoFilePool s1 fo)) + Offset) s1;
                 Some (Inr bs, snd (ObDereferenceObject del (Some Header) s1)) }))"

definition IoCloseFileHandle :: "'a io_delete \<Rightarrow> u32 \<Rightarrow> 'a IO_GLOBALS_scheme \<Rightarrow> KSTATUS \<times> 'a IO_GLOBALS_scheme" where
  "IoCloseFileHandle del HandleValue s =
     (if \<not> gIoReady s \<or> HandleValue = 0 then (KSTATUS_INVALID_PARAMETER, s)
      else ObCloseHandle del (ObGetKernelHandleTable s) HandleValue s)"

text \<open>The read loop of \<^verbatim>\<open>IoSpawnProcessFromFileHandle\<close>: an error status or the number of bytes collected.\<close>

partial_function (option) spawn_read ::
    "'a io_delete \<Rightarrow> u32 \<Rightarrow> u64 \<Rightarrow> u64 \<Rightarrow> 'a IO_GLOBALS_scheme \<Rightarrow> ((KSTATUS + u64) \<times> 'a IO_GLOBALS_scheme) option" where
  "spawn_read del HandleValue Offset TotalBytes s =
     (if TotalBytes \<ge> IO_SPAWN_IMAGE_MAX then Some (Inl KSTATUS_INVALID_PARAMETER, s)
      else do {
        (r, s1) \<leftarrow> IoReadFileHandle del HandleValue Offset True (IO_SPAWN_IMAGE_MAX - TotalBytes) True s;
        (case r of
           Inl Status \<Rightarrow> Some (Inl Status, s1)
         | Inr bs \<Rightarrow>
             let ReadNow = of_nat (length bs);
                 s2 = s1\<lparr>gIoSpawnScratch := (\<lambda>i. if unat TotalBytes \<le> i \<and> i < unat TotalBytes + length bs then bs ! (i - unat TotalBytes)
                                              else gIoSpawnScratch s1 i)\<rparr>
             in if ReadNow = 0 then Some (Inr TotalBytes, s2)
                else spawn_read del HandleValue (Offset + ReadNow) (TotalBytes + ReadNow) s2) })"

definition IoSpawnProcessFromFileHandle ::
    "'a io_delete \<Rightarrow> u32 \<Rightarrow> 'a IO_GLOBALS_scheme \<Rightarrow> ((KSTATUS + u64 \<times> u64) \<times> 'a IO_GLOBALS_scheme) option" where
  "IoSpawnProcessFromFileHandle del HandleValue s =
     (if \<not> gIoReady s then Some (Inl KSTATUS_INVALID_PARAMETER, s)
      else do {
        (r, s1) \<leftarrow> spawn_read del HandleValue 0 0 s;
        (case r of
           Inl Status \<Rightarrow> Some (Inl Status, s1)
         | Inr TotalBytes \<Rightarrow>
             if TotalBytes = 0 then Some (Inl KSTATUS_NOT_FOUND, s1)
             else PsSpawnUserKpeFromBuffer (Some (\<lambda>_. Some (map (gIoSpawnScratch s1) [0..<unat TotalBytes]))) TotalBytes s1) })"

definition IoDumpFiles :: "'a IO_GLOBALS_scheme \<Rightarrow> string option" where
  "IoDumpFiles s =
     (if \<not> gIoReady s then Some []
      else do {
        boot \<leftarrow> concat_lines (\<lambda>i.
          if \<not> bf_InUse (gIoBootFiles s i) then Some []
          else do {
            l \<leftarrow> IopWriteHexLine ''[IODBG] boot.size='' (bf_Size (gIoBootFiles s i));
            Some (''[IODBG] boot.path='' @ c_str (bf_Path (gIoBootFiles s i)) @ [CHR 0x0A] @ l) }) [0..<IO_MAX_BOOT_FILES];
        files \<leftarrow> concat_lines (\<lambda>i.
          if \<not> gIoFileInUse s i then Some []
          else do {
            h \<leftarrow> (case fo_Header (gIoFilePool s i) of
                    None \<Rightarrow> Some []
                  | Some o1 \<Rightarrow> do {
                      l \<leftarrow> IopWriteHexLine ''[IODBG] file.id='' (oh_ObjectId (ob_object s o1));
                      Some (l @ ''[IODBG] file.name='' @ c_str (oh_Name (ob_object s o1)) @ [CHR 0x0A]) });
            l1 \<leftarrow> IopWriteHexLine ''[IODBG] file.size='' (fo_Size (gIoFilePool s i));
            l2 \<leftarrow> IopWriteHexLine ''[IODBG] file.access='' (ucast (fo_AccessMask (gIoFilePool s i)));
            Some (h @ l1 @ l2) }) [0..<IO_MAX_FILE_OBJECTS];
        Some (''[IODBG] boot files begin'' @ [CHR 0x0A] @ boot @ ''[IODBG] open file objects begin'' @ [CHR 0x0A] @ files @
              ''[IODBG] open file objects end'' @ [CHR 0x0A]) })"

section \<open>Reading\<close>

text \<open>\<open>file_at s h ob fo\<close>: the handle \<open>h\<close> names the open file \<open>fo\<close>, whose object is \<open>ob\<close>, for reading; the object's
  reference count is neither 0 nor at its maximum.\<close>

definition file_at :: "'a IO_GLOBALS_scheme \<Rightarrow> u32 \<Rightarrow> nat \<Rightarrow> nat \<Rightarrow> bool" where
  "file_at s h ob fo \<longleftrightarrow> gIoReady s \<and>
     fst (ObReferenceObjectByHandle (ObGetKernelHandleTable s) h IO_FILE_ACCESS_READ (gIoFileType s) True s) = Inr ob \<and>
     IopFindFileByHeader (Some ob) s = Some fo \<and> oh_RefCount (ob_object s ob) \<noteq> 0 \<and> oh_RefCount (ob_object s ob) + 1 \<noteq> 0"

text \<open>\<open>file_holds s fo content\<close>: the memory behind the file object is mapped and holds \<open>content\<close>.\<close>

definition file_holds :: "'a IO_GLOBALS_scheme \<Rightarrow> nat \<Rightarrow> u8 list \<Rightarrow> bool" where
  "file_holds s fo content \<longleftrightarrow>
     read_bytes user_ld (unat (fo_Size (gIoFilePool s fo))) (the (fo_Data (gIoFilePool s fo))) s = Some content"

lemma read_bytes_length: "read_bytes ld n a m = Some bs \<Longrightarrow> length bs = n"
  by (induction n arbitrary: a bs) (auto split: bind_splits)

lemma read_bytes_part:
  "read_bytes ld n a m = Some bs \<Longrightarrow> i + k \<le> n \<Longrightarrow> read_bytes ld k (a + of_nat i) m = Some (take k (drop i bs))"
proof (induction n arbitrary: a bs i k)
  case (Suc n)
  from Suc.prems(1) obtain b cs where b: "ld m a = Some b" "read_bytes ld n (a + 1) m = Some cs" "bs = b # cs"
    by (auto split: bind_splits)
  show ?case
  proof (cases i)
    case 0
    show ?thesis
    proof (cases k)
      case (Suc k')
      with Suc.IH [OF b(2), of 0 k'] Suc.prems(2) 0 b show ?thesis by simp
    qed simp
  next
    case (Suc i')
    with Suc.IH [OF b(2), of i' k] Suc.prems(2) b show ?thesis by (simp add: add.assoc)
  qed
qed simp

lemma read_length_nat: "unat (read_length Size Offset BufferLength) = min (unat BufferLength) (unat Size - unat Offset)"
  by (auto simp: read_length_def Let_def word_less_nat_alt word_le_nat_alt unat_sub_if' split: if_splits)

lemma find_file_set_object [simp]: "IopFindFileByHeader x (set_object k v s) = IopFindFileByHeader x s"
  by (simp add: IopFindFileByHeader_def set_object_def)

lemma file_pool_set_object [simp]: "gIoFilePool (set_object k v s) = gIoFilePool s"
  by (simp add: set_object_def)

lemma mmu_walk_cong: "hw_mem t = hw_mem s \<Longrightarrow> mmu_walk k i va r t = mmu_walk k i va r s"
  by (induction k arbitrary: i r) (auto simp: Let_def)

lemma user_ld_cong: "hw_mem t = hw_mem s \<Longrightarrow> hw_cr3 t = hw_cr3 s \<Longrightarrow> user_ld t = user_ld s"
  by (simp add: user_ld_def fun_eq_iff mmu_translate_def mmu_walk_cong [of t s])

lemma read_bytes_cong: "ld t = ld s \<Longrightarrow> read_bytes ld n a t = read_bytes ld n a s"
  by (induction n arbitrary: a) auto

lemma read_file_effect:
  assumes "file_at s h ob fo" "file_holds s fo content" "BufferLength \<noteq> 0"
  shows "IoReadFileHandle del h Offset True BufferLength True s =
    Some (Inr (take (unat BufferLength) (drop (unat Offset) content)), s)"
proof -
  let ?hdr = "ob_object s ob"
  let ?s1 = "set_object ob (?hdr\<lparr>oh_RefCount := oh_RefCount ?hdr + 1\<rparr>) s"
  let ?f = "gIoFilePool s fo"
  from assms(1) have a: "gIoReady s" "IopFindFileByHeader (Some ob) s = Some fo" "oh_RefCount ?hdr \<noteq> 0" "oh_RefCount ?hdr + 1 \<noteq> 0"
    by (auto simp: file_at_def)
  obtain t where t: "ObReferenceObjectByHandle (ObGetKernelHandleTable s) h IO_FILE_ACCESS_READ (gIoFileType s) True s = (Inr ob, t)"
    using assms(1) by (auto simp: file_at_def prod_eq_iff)
  then have r: "ObReferenceObjectByHandle (ObGetKernelHandleTable s) h IO_FILE_ACCESS_READ (gIoFileType s) True s = (Inr ob, ?s1)"
    using reference_state by blast
  have "gObReady s" using t by (auto simp: ObReferenceObjectByHandle_def split: if_splits option.splits sum.splits)
  then have d: "snd (ObDereferenceObject del (Some ob) ?s1) = s"
    using a by (subst deref_back [where hdr = ?hdr]) (auto simp: set_object_def)
  have u: "read_bytes user_ld n x ?s1 = read_bytes user_ld n x s" for n x
    by (rule read_bytes_cong, rule user_ld_cong) (simp_all add: set_object_def)
  have len: "length content = unat (fo_Size ?f)" using assms(2) read_bytes_length by (auto simp: file_holds_def)
  show ?thesis
  proof (cases "Offset \<ge> fo_Size ?f")
    case True
    then have "drop (unat Offset) content = []" using len by (simp add: word_le_nat_alt)
    with True a assms(3) show ?thesis by (simp add: IoReadFileHandle_def r d)
  next
    case False
    let ?n = "unat (read_length (fo_Size ?f) Offset BufferLength)"
    have "unat Offset + ?n \<le> unat (fo_Size ?f)" using False by (simp add: read_length_nat word_le_nat_alt)
    from read_bytes_part [OF assms(2) [unfolded file_holds_def] this]
    have "read_bytes user_ld ?n (the (fo_Data ?f) + Offset) s = Some (take ?n (drop (unat Offset) content))" by simp
    moreover have "take ?n (drop (unat Offset) content) = take (unat BufferLength) (drop (unat Offset) content)"
      using len by (simp add: read_length_nat min_def)
    ultimately show ?thesis
      using False a assms(3) by (simp add: IoReadFileHandle_def r d u Let_def)
  qed
qed

section \<open>Spawning from a file\<close>

text \<open>The state after \<open>bs\<close> was read into the scratch buffer from its start.\<close>

definition scratch :: "u8 list \<Rightarrow> 'a IO_GLOBALS_scheme \<Rightarrow> 'a IO_GLOBALS_scheme" where
  "scratch bs s = s\<lparr>gIoSpawnScratch := (\<lambda>i. if i < length bs then bs ! i else gIoSpawnScratch s i)\<rparr>"

lemma scratch_nil [simp]: "scratch [] s = s"
  by (simp add: scratch_def)

lemma scratch_image: "map (gIoSpawnScratch (scratch bs s)) [0..<length bs] = bs"
  by (rule nth_equalityI) (simp_all add: scratch_def)

lemma file_at_scratch [simp]: "file_at (s\<lparr>gIoSpawnScratch := x\<rparr>) h ob fo = file_at s h ob fo"
  by (simp add: file_at_def ObReferenceObjectByHandle_def ObGetKernelHandleTable_def ObpFindHandleEntry_def IopFindFileByHeader_def
      Let_def split: sum.split option.split)

lemma file_holds_scratch [simp]: "file_holds (s\<lparr>gIoSpawnScratch := x\<rparr>) fo bs = file_holds s fo bs"
  by (simp add: file_holds_def read_bytes_cong [OF user_ld_cong [of "s\<lparr>gIoSpawnScratch := x\<rparr>" s]])

lemma of_nat_length_0: "length bs < 2 ^ 64 \<Longrightarrow> of_nat (length bs) = (0 :: u64) \<longleftrightarrow> bs = []"
  by (simp add: word_of_nat_eq_0_iff nat_dvd_not_less dvd_eq_mod_eq_0)

lemma spawn_read_step:
  assumes "file_at s h ob fo" "file_holds s fo content" "T < IO_SPAWN_IMAGE_MAX"
    and bs: "bs = take (unat (IO_SPAWN_IMAGE_MAX - T)) (drop (unat Offset) content)"
  shows "spawn_read del h Offset T s =
    (if bs = [] then Some (Inr T, s)
     else spawn_read del h (Offset + of_nat (length bs)) (T + of_nat (length bs))
       (s\<lparr>gIoSpawnScratch := (\<lambda>i. if unat T \<le> i \<and> i < unat T + length bs then bs ! (i - unat T) else gIoSpawnScratch s i)\<rparr>))"
proof -
  have "IO_SPAWN_IMAGE_MAX - T \<noteq> 0" using assms(3) by auto
  note r = read_file_effect [OF assms(1,2) this, of del Offset, folded bs]
  have "length bs < 2 ^ 64"
    by (rule le_less_trans [of _ "unat (IO_SPAWN_IMAGE_MAX - T)"]) (use unsigned_less [of "IO_SPAWN_IMAGE_MAX - T", where 'a = nat] in \<open>simp_all add: bs\<close>)
  note z = of_nat_length_0 [OF this]
  have nle: "\<not> IO_SPAWN_IMAGE_MAX \<le> T" using assms(3) by simp
  have [simp]: "(unat T \<le> i \<and> i < unat T) = False" for i by auto
  show ?thesis
  proof (cases "bs = []")
    case True
    with nle show ?thesis by (subst spawn_read.simps) (simp add: r Let_def)
  next
    case False
    with nle z show ?thesis by (subst spawn_read.simps) (simp add: r Let_def)
  qed
qed

lemma image_max_nat: "unat IO_SPAWN_IMAGE_MAX = 2 ^ 24"
  by (simp add: IO_SPAWN_IMAGE_MAX_def)

lemma spawn_read_effect:
  assumes "file_at s h ob fo" "file_holds s fo content"
  shows "spawn_read del h 0 0 s =
    (if length content < 2 ^ 24 then Some (Inr (of_nat (length content)), scratch content s)
     else Some (Inl KSTATUS_INVALID_PARAMETER, scratch (take (2 ^ 24) content) s))"
proof -
  define bs where "bs = take (2 ^ 24) content"
  let ?n = "of_nat (length bs) :: u64"
  have n: "unat ?n = length bs" by (simp add: bs_def unsigned_of_nat take_bit_nat_eq_self)
  have "0 < IO_SPAWN_IMAGE_MAX" "bs = take (unat (IO_SPAWN_IMAGE_MAX - 0)) (drop (unat 0) content)"
    by (simp_all add: bs_def image_max_nat) (simp add: IO_SPAWN_IMAGE_MAX_def)
  from spawn_read_step [OF assms this, of del]
  have first: "spawn_read del h 0 0 s = (if bs = [] then Some (Inr 0, s) else spawn_read del h ?n ?n (scratch bs s))"
    by (simp add: scratch_def cong: if_cong)
  show ?thesis
  proof (cases "length content < 2 ^ 24")
    case True
    then have c: "bs = content" "?n < IO_SPAWN_IMAGE_MAX" using n by (simp_all add: word_less_nat_alt image_max_nat bs_def)
    have f: "file_at (scratch bs s) h ob fo" "file_holds (scratch bs s) fo content"
      using assms by (simp_all add: scratch_def)
    have "spawn_read del h ?n ?n (scratch bs s) = Some (Inr ?n, scratch bs s)"
      by (subst spawn_read_step [OF f c(2) refl]) (use n c(1) in simp)
    with first True c show ?thesis by auto
  next
    case False
    then have "?n \<ge> IO_SPAWN_IMAGE_MAX" "bs \<noteq> []" using n by (auto simp: word_le_nat_alt image_max_nat bs_def)
    then have "spawn_read del h ?n ?n (scratch bs s) = Some (Inl KSTATUS_INVALID_PARAMETER, scratch bs s)" "bs \<noteq> []"
      by (simp_all add: spawn_read.simps)
    with first False show ?thesis by (simp add: bs_def)
  qed
qed

text \<open>The state of \<open>lpc_demo\<close> with a page table whose one large page maps the first gigabyte, and a file
  of three bytes at address 0x5000, open under handle 4.\<close>

definition io_bss :: "LPC_GLOBALS \<Rightarrow> IO_GLOBALS" where
  "io_bss s = LPC_GLOBALS.extend s (IO_GLOBALS.fields None (\<lambda>_. empty_file) (\<lambda>_. False)
     (\<lambda>_. \<lparr>bf_Path = replicate 64 NUL, bf_Data = None, bf_Size = 0, bf_InUse = False\<rparr>) (\<lambda>_. 0) False)"

definition io_demo :: IO_GLOBALS where
  "io_demo = (io_bss lpc_demo)\<lparr>gIoReady := True, gIoFileType := Some 0, gIoFileInUse := (\<lambda>i. i = 0),
     gIoFilePool := (\<lambda>_. \<lparr>fo_Header = Some 0, fo_Data = Some 0x5000, fo_Size = 3, fo_AccessMask = 1\<rparr>),
     hw_cr3 := 0x1000,
     hw_mem := (\<lambda>a. if a = 0x1000 then 0x2003 else if a = 0x2000 then 0x83 else if a = 0x5000 then 0x0C0B0A else 0)\<rparr>"

lemma io_demo_ob [simp]:
  "gObReady io_demo = gObReady lpc_demo" "gObObjectPool io_demo = gObObjectPool lpc_demo"
  "gObKernelHandleTable io_demo = gObKernelHandleTable lpc_demo"
  by (simp_all add: io_demo_def io_bss_def LPC_GLOBALS.defs IO_GLOBALS.defs)

lemma io_demo_file: "file_at io_demo 4 0 0"
proof -
  have "IopFindFileByHeader (Some 0) io_demo = Some 0" "gIoFileType io_demo = Some 0" "gIoReady io_demo"
    by (simp_all add: IopFindFileByHeader_def IO_MAX_FILE_OBJECTS_def io_demo_def)
  then show ?thesis
    by (simp add: file_at_def ObGetKernelHandleTable_def ObReferenceObjectByHandle_def ObpFindHandleEntry_def
        OB_MAX_HANDLES_def lpc_demo_def Let_def IO_FILE_ACCESS_READ_def)
qed

lemma io_demo_translate: "va \<in> {0x5000, 0x5001, 0x5002} \<Longrightarrow> mmu_translate va io_demo = Some va"
proof -
  assume va: "va \<in> {0x5000, 0x5001, 0x5002}"
  have m: "hw_mem io_demo 0x1000 = 0x2003" "hw_mem io_demo 0x2000 = 0x83" "hw_cr3 io_demo = 0x1000"
    by (simp_all add: io_demo_def)
  have "slot 0x1000 (walk_index va 0) = 0x1000" "slot 0x2003 (walk_index va 1) = 0x2000"
    using va by (auto simp: walk_index_def slot_def MM_PTE_ADDR_MASK_def)
  then have "mmu_walk (Suc (Suc 2)) 0 va 0x1000 io_demo = Some va"
    unfolding mmu_walk.simps using va by (auto simp: m Let_def has_flag_def MM_PTE_PRESENT_def MM_PTE_LARGE_def MM_PTE_ADDR_MASK_def mask_eq_exp_minus_1)
  moreover have "(4 :: nat) = Suc (Suc 2)" by simp
  ultimately show ?thesis by (simp only: mmu_translate_def m)
qed

lemma io_demo_ld:
  "user_ld io_demo 0x5000 = Some 0x0A" "user_ld io_demo 0x5001 = Some 0x0B" "user_ld io_demo 0x5002 = Some 0x0C"
  by (simp_all add: user_ld_def io_demo_translate) (simp_all add: io_demo_def)

lemma io_demo_holds: "file_holds io_demo 0 [0x0A, 0x0B, 0x0C]"
proof -
  have "fo_Size (gIoFilePool io_demo 0) = 3" "fo_Data (gIoFilePool io_demo 0) = Some 0x5000" by (simp_all add: io_demo_def)
  moreover have "unat (3 :: u64) = Suc (Suc (Suc 0))" by simp
  ultimately show ?thesis by (simp only: file_holds_def read_bytes.simps io_demo_ld) (simp add: io_demo_ld)
qed

section \<open>Properties\<close>

text \<open>Reading a file by handle.  A read at any offset returns exactly the bytes of the file from that offset on,
  cut at the length of the buffer and at the end of the file (so nothing at or past the end), and leaves every global of the kernel,
  the reference count of the file object included, as it was.\<close>

theorem IoReadFileHandle_reads:
  assumes "file_at s h ob fo" and "file_holds s fo content" and "BufferLength \<noteq> 0"
  shows "IoReadFileHandle del h Offset True BufferLength True s =
    Some (Inr (take (unat BufferLength) (drop (unat Offset) content)), s)"
  using assms by (rule read_file_effect)

theorem IoReadFileHandle_reads_witness:
  "IoReadFileHandle (\<lambda>_ _ s. s) 4 1 True 10 True io_demo = Some (Inr [0x0B, 0x0C], io_demo)"
  using IoReadFileHandle_reads [OF io_demo_file io_demo_holds, of 10 "\<lambda>_ _ s. s" 1] by simp

text \<open>C28: spawning from a file hands the loader exactly the contents of the file, collected by the read loop, which ends.
  An empty file is refused, and so is a file of 16 MiB or more: a file of exactly 16 MiB, which the
  loader itself would accept, fills the scratch buffer and is refused before the end of the file is seen.\<close>

theorem IoSpawnProcessFromFileHandle_image:
  assumes "file_at s h ob fo" and "file_holds s fo content"
  shows "IoSpawnProcessFromFileHandle del h s =
    (if content = [] then Some (Inl KSTATUS_NOT_FOUND, s)
     else if length content < 2 ^ 24
     then PsSpawnUserKpeFromBuffer (Some (\<lambda>_. Some content)) (of_nat (length content)) (scratch content s)
     else Some (Inl KSTATUS_INVALID_PARAMETER, scratch (take (2 ^ 24) content) s))"
proof -
  have "gIoReady s" using assms(1) by (simp add: file_at_def)
  moreover have "(of_nat (length content) :: u64) = 0 \<longleftrightarrow> content = []" if "length content < 2 ^ 24"
    using that by (intro of_nat_length_0) simp
  moreover have "map (gIoSpawnScratch (scratch content s)) [0..<unat (of_nat (length content) :: u64)] = content" if "length content < 2 ^ 24"
    using that scratch_image [of content s] by (simp add: unsigned_of_nat take_bit_nat_eq_self)
  ultimately show ?thesis
    by (cases "length content < 2 ^ 24") (auto simp: IoSpawnProcessFromFileHandle_def spawn_read_effect [OF assms])
qed


theorem IoSpawnProcessFromFileHandle_image_witness:
  "fst (the (IoSpawnProcessFromFileHandle (\<lambda>_ _ s. s) 4 io_demo)) = Inl KSTATUS_INVALID_PARAMETER"
  using IoSpawnProcessFromFileHandle_image [OF io_demo_file io_demo_holds, of "\<lambda>_ _ s. s"]
  by (simp add: PsSpawnUserKpeFromBuffer_def sizeof_KPE_DOS_HEADER_def)

end
