(* ===== verification/NtxObjects.thy ===== *)
theory NtxObjects
  imports NtxIo
begin

text \<open>
  The object types of the kernel together: the delete routines the components register with the object
  manager, the contract the object manager relies on, and the life of a file object from open to close.
\<close>

section \<open>Delete routines\<close>

definition PspThreadDeleteRoutine :: "ptr \<Rightarrow> 'a PS_GLOBALS_scheme \<Rightarrow> 'a PS_GLOBALS_scheme" where
  "PspThreadDeleteRoutine Object s = s"

definition PspProcessDeleteRoutine :: "ptr \<Rightarrow> 'a PS_GLOBALS_scheme \<Rightarrow> 'a PS_GLOBALS_scheme" where
  "PspProcessDeleteRoutine Object s = s"

text \<open>The routine behind each pointer.\<close>

definition run_delete :: "OB_DELETE_ROUTINE \<Rightarrow> nat \<Rightarrow> 'a IO_GLOBALS_scheme \<Rightarrow> 'a IO_GLOBALS_scheme" where
  "run_delete r obj s =
     (case r of
        MmpDeleteSectionObject_ptr \<Rightarrow> MmpDeleteSectionObject (Some obj) s
      | LpcpDeletePortObject_ptr \<Rightarrow> LpcpDeletePortObject (Some obj) s
      | IopDeleteFileObject_ptr \<Rightarrow> IopDeleteFileObject (Some obj) s
      | PspProcessDeleteRoutine_ptr \<Rightarrow> PspProcessDeleteRoutine (Some obj) s
      | PspThreadDeleteRoutine_ptr \<Rightarrow> PspThreadDeleteRoutine (Some obj) s)"

lemma set_section_frame [simp]: "ob_part (set_section j f s) = ob_part s"
  by (simp add: set_section_def ob_part_def)

lemma free_page_frame [simp]: "ob_part (snd (MmFreePage a s)) = ob_part s"
  by (simp add: MmFreePage_def MmpReleasePage_def MmpSetPageFree_def ob_part_def Let_def)

lemma delete_pages_frame: "ob_part (delete_pages_loop sec i k s) = ob_part s"
  by (induction k arbitrary: i s) (simp_all add: Let_def)

lemma delete_section_frame: "ob_part (MmpDeleteSectionObject x s) = ob_part s"
proof -
  have "ob_part (s1\<lparr>gMmSectionInUse := u\<rparr>) = ob_part s1" for u and s1 :: "'a MM_GLOBALS_scheme"
    by (simp add: ob_part_def)
  then show ?thesis
    by (simp add: MmpDeleteSectionObject_def Let_def delete_pages_frame split: option.split)
qed

lemma delete_port_frame: "ob_part (LpcpDeletePortObject x s) = ob_part s"
  by (simp add: LpcpDeletePortObject_def set_port_def ob_part_def split: option.split)

lemma delete_file_frame: "ob_part (IopDeleteFileObject x s) = ob_part s"
  by (simp add: IopDeleteFileObject_def set_file_def ob_part_def split: option.split)

text \<open>The kernel's delete routines keep the contract of the object manager.\<close>

interpretation kob: ob_delete_routines "run_delete :: OB_DELETE_ROUTINE \<Rightarrow> nat \<Rightarrow> 'a IO_GLOBALS_scheme \<Rightarrow> 'a IO_GLOBALS_scheme"
  by unfold_locales
    (auto simp: run_delete_def delete_section_frame delete_port_frame delete_file_frame PspProcessDeleteRoutine_def
      PspThreadDeleteRoutine_def split: OB_DELETE_ROUTINE.split)

section \<open>Open and close\<close>

lemma ob_inv_cong: "ob_part t = ob_part s \<Longrightarrow> ob_inv ext t = ob_inv ext s"
  by (simp add: ob_part_def ob_inv_def handles_inv_def refs_inv_def values_inv_def live_entries_def handle_count_def)

lemma set_file_simps [simp]:
  "ob_part (set_file i f s) = ob_part s" "gIoFilePool (set_file i f s) = (gIoFilePool s)(i := f (gIoFilePool s i))"
  "gIoFileInUse (set_file i f s) = gIoFileInUse s" "gIoFileType (set_file i f s) = gIoFileType s"
  "gIoBootFiles (set_file i f s) = gIoBootFiles s" "gIoReady (set_file i f s) = gIoReady s"
  by (simp_all add: set_file_def ob_part_def)

text \<open>The globals of the I/O manager; the object manager's operations leave them alone.\<close>

definition io_part ::
    "'a IO_GLOBALS_scheme \<Rightarrow> ptr \<times> (nat \<Rightarrow> IO_FILE_OBJECT) \<times> (nat \<Rightarrow> bool) \<times> (nat \<Rightarrow> IO_BOOT_FILE) \<times> bool" where
  "io_part s = (gIoFileType s, gIoFilePool s, gIoFileInUse s, gIoBootFiles s, gIoReady s)"

lemma ob_ops_io:
  "io_part (set_object i h s) = io_part s" "io_part (set_entry i e s) = io_part s"
  "ObCreateObject ty nm msk fl out s = (r, t) \<Longrightarrow> io_part t = io_part s"
  "ObInsertHandle ht obj acc out s = (q, t) \<Longrightarrow> io_part t = io_part s"
  by (auto simp: io_part_def set_object_def set_entry_def ObCreateObject_def ObInsertHandle_def Let_def
      split: if_splits option.splits sum.splits)

lemma deref_two:
  assumes "gObReady s" "oh_RefCount (ob_object s ob) = 2"
  shows "ObDereferenceObject del (Some ob) s = (KSTATUS_SUCCESS, set_object ob ((ob_object s ob)\<lparr>oh_RefCount := 1\<rparr>) s)"
  using assms by (simp add: ObDereferenceObject_def Let_def)

text \<open>The stages of a successful open.\<close>

lemma open_stages:
  assumes "IoOpenPath del (Some p) acc True s = (Inr h, t)"
  obtains fo ob i s2 s4 where "fo < IO_MAX_FILE_OBJECTS" "\<not> gIoFileInUse s fo" "gIoReady s"
    "ObCreateObject (gIoFileType s) (Some ''io.file'') IO_FILE_ACCESS_ALL 0 True
       (set_file fo (\<lambda>_. empty_file) (s\<lparr>gIoFileInUse := (gIoFileInUse s)(fo := True)\<rparr>)) = (Inr ob, s2)"
    "IopFsFatLookupFile p s = Some i"
    "ObInsertHandle (Some ()) (Some ob) acc True
       (set_file fo (\<lambda>_. \<lparr>fo_Header = Some ob, fo_Data = bf_Data (gIoBootFiles s i), fo_Size = bf_Size (gIoBootFiles s i), fo_AccessMask = acc\<rparr>) s2)
     = (Inr h, s4)" "t = snd (ObDereferenceObject del (Some ob) s4)"
proof -
  from assms obtain fo where fo: "scan (\<lambda>i. \<not> gIoFileInUse s i) 0 IO_MAX_FILE_OBJECTS = Some fo" and rdy: "gIoReady s"
    by (auto simp: IoOpenPath_def IopAllocateFileSlot_def split: if_splits option.splits)
  let ?s1 = "set_file fo (\<lambda>_. empty_file) (s\<lparr>gIoFileInUse := (gIoFileInUse s)(fo := True)\<rparr>)"
  have al: "IopAllocateFileSlot s = (Some fo, ?s1)" by (simp add: IopAllocateFileSlot_def fo)
  have ty: "gIoFileType ?s1 = gIoFileType s" by simp
  from assms obtain ob s2 where cr: "ObCreateObject (gIoFileType s) (Some ''io.file'') IO_FILE_ACCESS_ALL 0 True ?s1 = (Inr ob, s2)"
    by (auto simp: IoOpenPath_def al ty split: if_splits sum.splits prod.splits)
  let ?s3 = "set_file fo (\<lambda>x. x\<lparr>fo_Header := Some ob, fo_AccessMask := acc\<rparr>) s2"
  have io: "io_part s2 = io_part ?s1" using ob_ops_io(3) [OF cr] .
  then have bf: "gIoBootFiles s2 = gIoBootFiles s" "gIoFilePool s2 fo = empty_file" by (simp_all add: io_part_def)
  then have look: "IopFsFatLookupFile p ?s3 = IopFsFatLookupFile p s" by (simp add: IopFsFatLookupFile_def)
  from assms obtain i where i: "IopFsFatLookupFile p s = Some i"
    by (auto simp: IoOpenPath_def al ty cr IopVfsOpen_def look split: if_splits option.splits)
  let ?f = "\<lparr>fo_Header = Some ob, fo_Data = bf_Data (gIoBootFiles s i), fo_Size = bf_Size (gIoBootFiles s i), fo_AccessMask = acc\<rparr>"
  have v: "IopVfsOpen (Some p) (Some fo) ?s3 = (KSTATUS_SUCCESS, set_file fo (\<lambda>_. ?f) s2)"
    using bf by (simp add: IopVfsOpen_def look i) (simp add: set_file_def empty_file_def)
  have "gObReady s2" using ObCreateObject_Inr [OF cr] by blast
  then have ht: "ObGetKernelHandleTable (set_file fo (\<lambda>_. ?f) s2) = Some ()" by (simp add: ObGetKernelHandleTable_def set_file_def)
  obtain r s4 where ins: "ObInsertHandle (Some ()) (Some ob) acc True (set_file fo (\<lambda>_. ?f) s2) = (r, s4)" by fastforce
  with assms have "r = Inr h" "t = snd (ObDereferenceObject del (Some ob) s4)"
    by (auto simp: IoOpenPath_def al ty cr v ht split: if_splits)
  with that [of fo ob s2 i s4] scan0_SomeD [OF fo] rdy cr i ins show thesis by simp
qed

text \<open>What is different after a successful open: one file slot, one object, one handle entry.\<close>

lemma open_effect:
  assumes op: "IoOpenPath del (Some p) acc True s = (Inr h, t)" and inv: "ob_inv ext s"
    and room: "unat (ht_NextHandle (gObKernelHandleTable s)) < 2 ^ 32 - 4"
  obtains fo ob i k where "fo < IO_MAX_FILE_OBJECTS" "\<not> gIoFileInUse s fo" "ob < OB_MAX_OBJECTS" "\<not> gObObjectInUse s ob"
    "IopFsFatLookupFile p s = Some i"
    "io_part t = (gIoFileType s, (gIoFilePool s)(fo := \<lparr>fo_Header = Some ob, fo_Data = bf_Data (gIoBootFiles s i),
        fo_Size = bf_Size (gIoBootFiles s i), fo_AccessMask = acc\<rparr>), (gIoFileInUse s)(fo := True), gIoBootFiles s, True)"
    "ob_inv ext t" "gObTypePool t = gObTypePool s" "gObObjectInUse t = (gObObjectInUse s)(ob := True)"
    "\<And>o'. o' \<noteq> ob \<Longrightarrow> ob_object t o' = ob_object s o'" "oh_RefCount (ob_object t ob) = 1" "oh_Type (ob_object t ob) = gIoFileType s"
    "k \<in> live_entries t" "ob_entry t k = \<lparr>he_HandleValue = h, he_Object = Some ob, he_GrantedAccess = acc, he_InUse = True\<rparr>"
    "live_entries t = insert k (live_entries s)" "k \<notin> live_entries s"
proof -
  obtain fo ob i s2 s4 where fo: "fo < IO_MAX_FILE_OBJECTS" "\<not> gIoFileInUse s fo" "gIoReady s"
    and cr: "ObCreateObject (gIoFileType s) (Some ''io.file'') IO_FILE_ACCESS_ALL 0 True
       (set_file fo (\<lambda>_. empty_file) (s\<lparr>gIoFileInUse := (gIoFileInUse s)(fo := True)\<rparr>)) = (Inr ob, s2)"
    and i: "IopFsFatLookupFile p s = Some i"
    and ins: "ObInsertHandle (Some ()) (Some ob) acc True
       (set_file fo (\<lambda>_. \<lparr>fo_Header = Some ob, fo_Data = bf_Data (gIoBootFiles s i), fo_Size = bf_Size (gIoBootFiles s i), fo_AccessMask = acc\<rparr>) s2)
     = (Inr h, s4)" and t: "t = snd (ObDereferenceObject del (Some ob) s4)"
    by (rule open_stages [OF op])
  let ?s1 = "set_file fo (\<lambda>_. empty_file) (s\<lparr>gIoFileInUse := (gIoFileInUse s)(fo := True)\<rparr>)"
  let ?f = "\<lparr>fo_Header = Some ob, fo_Data = bf_Data (gIoBootFiles s i), fo_Size = bf_Size (gIoBootFiles s i), fo_AccessMask = acc\<rparr>"
  let ?s3 = "set_file fo (\<lambda>_. ?f) s2"
  have p1: "ob_part ?s1 = ob_part s" "ob_part ?s3 = ob_part s2" by (simp_all add: ob_part_def set_file_def)
  have inv1: "ob_inv ext ?s1" using inv ob_inv_cong [OF p1(1)] by simp
  note ce = ObCreateObject_Inr [OF cr]
  have inv3: "ob_inv (ext(ob := 1)) ?s3" using create_inv [OF inv1 cr] ob_inv_cong [OF p1(2)] by simp
  have p3: "gObObjectInUse ?s3 = gObObjectInUse s2" "gObObjectPool ?s3 = gObObjectPool s2" "gObKernelHandleTable ?s3 = gObKernelHandleTable s2"
    "gObTypePool ?s3 = gObTypePool s2" using p1(2) by (simp_all add: ob_part_def)
  have ps: "gObObjectInUse ?s1 = gObObjectInUse s" "gObObjectPool ?s1 = gObObjectPool s" "gObKernelHandleTable ?s1 = gObKernelHandleTable s"
    "gObTypePool ?s1 = gObTypePool s" using p1(1) by (simp_all add: ob_part_def)
  have obm: "ob < OB_MAX_OBJECTS" "gObObjectInUse ?s3 ob" "oh_RefCount (ob_object ?s3 ob) = 1" "oh_Type (ob_object ?s3 ob) = gIoFileType s"
    using ce p3 by auto
  have inv4: "ob_inv (ext(ob := 1)) s4"
    by (rule insert_inv [OF inv3 obm(1,2) ins]) (use obm ce p3 ps room in simp_all)
  obtain k where k: "k < OB_MAX_HANDLES" "\<not> he_InUse (ob_entry ?s3 k)"
    and tbl: "ht_Entries (gObKernelHandleTable s4) = (ht_Entries (gObKernelHandleTable ?s3))
       (k := \<lparr>he_HandleValue = h, he_Object = Some ob, he_GrantedAccess = acc, he_InUse = True\<rparr>)"
    and s4: "gObObjectPool s4 = (gObObjectPool ?s3)(ob := (ob_object ?s3 ob)\<lparr>oh_RefCount := oh_RefCount (ob_object ?s3 ob) + 1\<rparr>)"
      "gObObjectInUse s4 = gObObjectInUse ?s3" "gObReady s4" "gObTypePool s4 = gObTypePool ?s3"
    using ObInsertHandle_Inr [OF ins] by metis
  have t': "ObDereferenceObject del (Some ob) s4 = (KSTATUS_SUCCESS, t)" "t = set_object ob ((ob_object s4 ob)\<lparr>oh_RefCount := 1\<rparr>) s4"
    using t deref_two [of s4 ob del] s4 obm by simp_all
  have io: "io_part s2 = io_part ?s1" "io_part s4 = io_part ?s3" "io_part t = io_part s4"
    using ob_ops_io(3) [OF cr] ob_ops_io(4) [OF ins] t'(2) by (simp_all add: ob_ops_io(1))
  have z: "ext ob = 0" using inv ce ps by (auto simp: ob_inv_def refs_inv_def)
  have "live_entries t = live_entries s4" "live_entries ?s3 = live_entries s" "live_entries s4 = insert k (live_entries ?s3)" "k \<notin> live_entries ?s3"
    using handle_count_insert(1,2) [OF k tbl] t'(2) ce p3 ps by (simp_all add: live_entries_def)
  moreover have "ob_inv ext t"
  proof -
    have "ObDereferenceObject run_delete (Some ob) s4 = (KSTATUS_SUCCESS, t)"
      using t'(2) deref_two [of s4 ob run_delete] s4 obm by simp
    from kob.deref_inv [OF inv4 obm(1) _ this] z show ?thesis by (simp add: fun_upd_idem)
  qed
  moreover have "io_part t = (gIoFileType s, (gIoFilePool s)(fo := ?f), (gIoFileInUse s)(fo := True), gIoBootFiles s, True)"
    using io fo by (simp add: io_part_def)
  ultimately show thesis
    using that [of fo ob i k] fo i ce p3 ps obm s4 tbl t'(2) by simp
qed

section \<open>File slots and file objects\<close>

text \<open>Live file objects and used file slots correspond one to one.\<close>

definition file_slot :: "'a IO_GLOBALS_scheme \<Rightarrow> nat \<Rightarrow> nat \<Rightarrow> bool" where
  "file_slot s i ob \<longleftrightarrow> i < IO_MAX_FILE_OBJECTS \<and> gIoFileInUse s i \<and> fo_Header (gIoFilePool s i) = Some ob"

definition file_object :: "'a IO_GLOBALS_scheme \<Rightarrow> nat \<Rightarrow> bool" where
  "file_object s ob \<longleftrightarrow> ob < OB_MAX_OBJECTS \<and> gObObjectInUse s ob \<and> oh_Type (ob_object s ob) = gIoFileType s"

definition files_inv :: "'a IO_GLOBALS_scheme \<Rightarrow> bool" where
  "files_inv s \<longleftrightarrow> (\<exists>ty. gIoFileType s = Some ty \<and> ty_DeleteRoutine (gObTypePool s ty) = Some IopDeleteFileObject_ptr) \<and>
     (\<forall>i ob. file_slot s i ob \<longrightarrow> file_object s ob) \<and> (\<forall>ob. file_object s ob \<longrightarrow> (\<exists>i. file_slot s i ob)) \<and>
     (\<forall>i j ob. file_slot s i ob \<longrightarrow> file_slot s j ob \<longrightarrow> i = j)"

lemma file_slot_find:
  assumes "files_inv s" "file_slot s i ob"
  shows "IopFindFileByHeader (Some ob) s = Some i"
  unfolding IopFindFileByHeader_def
proof (rule scan_first)
  show "\<not> (gIoFileInUse s m \<and> fo_Header (gIoFilePool s m) = Some ob)" if "m < i" for m
    using assms that unfolding files_inv_def file_slot_def by (metis less_trans nat_neq_iff)
qed (use assms in \<open>auto simp: file_slot_def\<close>)

lemma files_inv_add:
  assumes "files_inv s" "fo < IO_MAX_FILE_OBJECTS" "\<not> gIoFileInUse s fo" "ob < OB_MAX_OBJECTS" "\<not> gObObjectInUse s ob"
    and io: "io_part t = (gIoFileType s, (gIoFilePool s)(fo := f), (gIoFileInUse s)(fo := True), b, r)" "fo_Header f = Some ob"
    and "gObTypePool t = gObTypePool s" "gObObjectInUse t = (gObObjectInUse s)(ob := True)"
      "\<And>o'. o' \<noteq> ob \<Longrightarrow> ob_object t o' = ob_object s o'" "oh_Type (ob_object t ob) = gIoFileType s"
  shows "files_inv t" "file_slot t fo ob"
proof -
  have slot: "file_slot t i o' \<longleftrightarrow> (if i = fo then o' = ob else file_slot s i o')" for i o'
    using assms by (auto simp: file_slot_def io_part_def)
  have obj: "file_object t o' \<longleftrightarrow> o' = ob \<or> file_object s o'" for o'
    using assms by (cases "o' = ob") (auto simp: file_object_def io_part_def)
  have new: "\<not> file_object s ob" "\<not> file_slot s fo o'" for o' using assms by (auto simp: file_object_def file_slot_def)
  show "files_inv t"
    using assms(1,8) io new unfolding files_inv_def slot obj by (auto simp: io_part_def split: if_splits) metis+
  show "file_slot t fo ob" by (simp add: slot)
qed

lemma files_inv_remove:
  assumes "files_inv s" "file_slot s fo ob"
    and io: "io_part t = (gIoFileType s, (gIoFilePool s)(fo := f), (gIoFileInUse s)(fo := False), b, r)"
    and "gObTypePool t = gObTypePool s" "gObObjectInUse t = (gObObjectInUse s)(ob := False)"
      "\<And>o'. o' \<noteq> ob \<Longrightarrow> ob_object t o' = ob_object s o'"
  shows "files_inv t"
proof -
  have slot: "file_slot t i o' \<longleftrightarrow> i \<noteq> fo \<and> file_slot s i o'" for i o'
    using assms by (auto simp: file_slot_def io_part_def)
  have obj: "file_object t o' \<longleftrightarrow> o' \<noteq> ob \<and> file_object s o'" for o'
    using assms by (cases "o' = ob") (auto simp: file_object_def io_part_def)
  have "file_slot s i ob \<longleftrightarrow> i = fo" "file_slot s fo o' \<longleftrightarrow> o' = ob" for i o'
    using assms(1,2) unfolding files_inv_def by (metis, auto simp: file_slot_def)
  then show ?thesis
    using assms(1,4) io unfolding files_inv_def slot obj by (auto simp: io_part_def) metis+
qed

lemma delete_file_effect:
  assumes "files_inv s" "file_slot s fo ob"
  shows "io_part (IopDeleteFileObject (Some ob) s) =
    (gIoFileType s, (gIoFilePool s)(fo := empty_file), (gIoFileInUse s)(fo := False), gIoBootFiles s, gIoReady s)"
proof -
  have "scan (\<lambda>i. gIoFileInUse s i \<and> fo_Header (gIoFilePool s i) = Some ob) 0 IO_MAX_FILE_OBJECTS = Some fo"
    using file_slot_find [OF assms] by (simp add: IopFindFileByHeader_def)
  then show ?thesis by (simp add: IopDeleteFileObject_def io_part_def)
qed

lemma files_inv_cong:
  assumes "io_part t = io_part s" "gObTypePool t = gObTypePool s" "gObObjectInUse t = gObObjectInUse s"
    "\<And>o'. oh_Type (ob_object t o') = oh_Type (ob_object s o')"
  shows "files_inv t = files_inv s" "file_slot t = file_slot s"
proof -
  show sl: "file_slot t = file_slot s" using assms(1) by (auto simp: fun_eq_iff file_slot_def io_part_def)
  have "file_object t = file_object s" using assms by (auto simp: fun_eq_iff file_object_def io_part_def)
  with sl show "files_inv t = files_inv s" using assms(1,2) by (simp add: files_inv_def io_part_def)
qed

text \<open>The last reference to a file object frees its slot.\<close>

lemma deref_last_file:
  assumes inv: "files_inv s" "file_slot s fo ob" "gObReady s" and one: "oh_RefCount (ob_object s ob) = 1"
    and d: "ObDereferenceObject run_delete (Some ob) s = (st, t)"
  shows "io_part t = (gIoFileType s, (gIoFilePool s)(fo := empty_file), (gIoFileInUse s)(fo := False), gIoBootFiles s, gIoReady s)"
proof -
  from inv obtain ty where ty: "gIoFileType s = Some ty" "ty_DeleteRoutine (gObTypePool s ty) = Some IopDeleteFileObject_ptr"
    and ob: "ob < OB_MAX_OBJECTS" "oh_Type (ob_object s ob) = Some ty"
    by (auto simp: files_inv_def file_object_def)
  let ?s1 = "set_object ob ((ob_object s ob)\<lparr>oh_RefCount := 0\<rparr>) s"
  have c: "files_inv ?s1" "file_slot ?s1 fo ob"
    using inv(1,2) files_inv_cong [of ?s1 s] by (simp_all add: ob_ops_io(1))
  have sc: "scan (\<lambda>i. i = ob) 0 OB_MAX_OBJECTS = Some ob" using ob(1) by (intro scan_first) auto
  have "io_part t = io_part (IopDeleteFileObject (Some ob) ?s1)"
    using d inv(3) one ob ty sc
    by (auto simp: ObDereferenceObject_def run_delete_def Let_def io_part_def set_object_def [where s = "x\<lparr>gObObjectInUse := y\<rparr>" for x y])
  moreover have "gIoFileType ?s1 = gIoFileType s" "gIoFilePool ?s1 = gIoFilePool s" "gIoFileInUse ?s1 = gIoFileInUse s"
    "gIoBootFiles ?s1 = gIoBootFiles s" "gIoReady ?s1 = gIoReady s" by (simp_all add: set_object_def)
  ultimately show ?thesis using delete_file_effect [OF c] by simp
qed

lemma close_last_file:
  assumes inv: "ob_inv ext s" "files_inv s" "file_slot s fo ob" and one: "oh_RefCount (ob_object s ob) = 1"
    and k: "k \<in> live_entries s" "he_Object (ob_entry s k) = Some ob" "gIoReady s"
  obtains t where "IoCloseFileHandle run_delete (he_HandleValue (ob_entry s k)) s = (KSTATUS_SUCCESS, t)"
    "ob_inv ext t" "files_inv t" "live_entries t = live_entries s - {k}" "gObObjectInUse t = (gObObjectInUse s)(ob := False)"
    "io_part t = (gIoFileType s, (gIoFilePool s)(fo := empty_file), (gIoFileInUse s)(fo := False), gIoBootFiles s, gIoReady s)"
proof -
  obtain st t where c: "ObCloseHandle run_delete (Some ()) (he_HandleValue (ob_entry s k)) s = (st, t)" by fastforce
  note e = kob.close_inv [OF inv(1) k(1) c]
  have rdy: "gObReady s" "values_inv s" "he_HandleValue (ob_entry s k) \<noteq> 0"
    using inv(1) k(1) by (auto simp: ob_inv_def values_inv_def word_le_nat_alt)
  obtain st1 s1 where d: "ObDereferenceObject run_delete (Some ob) s = (st1, s1)" by fastforce
  have "io_part t = io_part s1"
    using c d k(2) rdy by (auto simp: ObCloseHandle_def ObpFindHandleEntry_live [OF rdy(2) k(1)] ob_ops_io)
  then have io: "io_part t = (gIoFileType s, (gIoFilePool s)(fo := empty_file), (gIoFileInUse s)(fo := False), gIoBootFiles s, gIoReady s)"
    using deref_last_file [OF inv(2,3) rdy(1) one d] by simp
  have dr: "gObTypePool t = gObTypePool s" "gObObjectInUse t = (gObObjectInUse s)(ob := False)"
    "\<And>o'. o' \<noteq> ob \<Longrightarrow> ob_object t o' = ob_object s o'"
    using e k(2) one by (auto simp: drops_ref_def)
  have "files_inv t" by (rule files_inv_remove [OF inv(2,3) io dr])
  with that [of t] e c io dr rdy k(3) show thesis by (simp add: IoCloseFileHandle_def ObGetKernelHandleTable_def)
qed

definition opened ::
    "string \<Rightarrow> u32 \<Rightarrow> u32 \<Rightarrow> 'a IO_GLOBALS_scheme \<Rightarrow> 'a IO_GLOBALS_scheme \<Rightarrow> nat \<Rightarrow> nat \<Rightarrow> nat \<Rightarrow> nat \<Rightarrow> bool" where
  "opened p acc h s t fo ob i k \<longleftrightarrow> file_slot t fo ob \<and> files_inv t \<and> IopFsFatLookupFile p s = Some i \<and>
     io_part t = (gIoFileType s, (gIoFilePool s)(fo := \<lparr>fo_Header = Some ob, fo_Data = bf_Data (gIoBootFiles s i),
        fo_Size = bf_Size (gIoBootFiles s i), fo_AccessMask = acc\<rparr>), (gIoFileInUse s)(fo := True), gIoBootFiles s, True) \<and>
     \<not> gIoFileInUse s fo \<and> \<not> gObObjectInUse s ob \<and> gObObjectInUse t = (gObObjectInUse s)(ob := True) \<and>
     oh_RefCount (ob_object t ob) = 1 \<and> oh_Type (ob_object t ob) = gIoFileType s \<and> k \<in> live_entries t \<and>
     ob_entry t k = \<lparr>he_HandleValue = h, he_Object = Some ob, he_GrantedAccess = acc, he_InUse = True\<rparr> \<and>
     live_entries t = insert k (live_entries s) \<and> k \<notin> live_entries s"

lemma open_opened:
  assumes "ob_inv ext s" "files_inv s" "IoOpenPath del (Some p) acc True s = (Inr h, t)"
    "unat (ht_NextHandle (gObKernelHandleTable s)) < 2 ^ 32 - 4"
  obtains fo ob i k where "opened p acc h s t fo ob i k" "ob_inv ext t"
proof (rule open_effect [OF assms(3,1,4)])
  fix fo ob i k
  let ?f = "\<lparr>fo_Header = Some ob, fo_Data = bf_Data (gIoBootFiles s i), fo_Size = bf_Size (gIoBootFiles s i), fo_AccessMask = acc\<rparr>"
  assume fo: "fo < IO_MAX_FILE_OBJECTS" "\<not> gIoFileInUse s fo" "ob < OB_MAX_OBJECTS" "\<not> gObObjectInUse s ob"
    and i: "IopFsFatLookupFile p s = Some i"
    and io: "io_part t = (gIoFileType s, (gIoFilePool s)(fo := ?f), (gIoFileInUse s)(fo := True), gIoBootFiles s, True)"
    and inv: "ob_inv ext t" and o: "gObTypePool t = gObTypePool s" "gObObjectInUse t = (gObObjectInUse s)(ob := True)"
      "\<And>o'. o' \<noteq> ob \<Longrightarrow> ob_object t o' = ob_object s o'" "oh_RefCount (ob_object t ob) = 1" "oh_Type (ob_object t ob) = gIoFileType s"
    and k: "k \<in> live_entries t" "ob_entry t k = \<lparr>he_HandleValue = h, he_Object = Some ob, he_GrantedAccess = acc, he_InUse = True\<rparr>"
      "live_entries t = insert k (live_entries s)" "k \<notin> live_entries s"
  have "fo_Header ?f = Some ob" by simp
  note f = files_inv_add [OF assms(2) fo io this o(1-3,5)]
  have "opened p acc h s t fo ob i k" unfolding opened_def using fo i io o k f by blast
  with that inv show thesis by blast
qed

text \<open>An I/O manager with one boot file, \<^verbatim>\<open>a\<close>, and no open file.\<close>

definition io_ready :: IO_GLOBALS where
  "io_ready = (io_bss lpc_demo)\<lparr>gObReady := True, gObObjectInUse := (\<lambda>_. False),
     gObTypePool := (\<lambda>_. \<lparr>ty_TypeId = 1, ty_Name = ''File'' @ replicate 28 NUL, ty_DeleteRoutine = Some IopDeleteFileObject_ptr\<rparr>),
     gObKernelHandleTable := ObpZeroHandleTable (gObKernelHandleTable ob_bss), gIoReady := True, gIoFileType := Some 0,
     gIoBootFiles := (\<lambda>i. \<lparr>bf_Path = ''a'' @ replicate 63 NUL, bf_Data = Some 0x5000, bf_Size = 3, bf_InUse = (i = 0)\<rparr>)\<rparr>"

lemma io_ready_ob: "ob_inv (\<lambda>_. 0) io_ready" "unat (ht_NextHandle (gObKernelHandleTable io_ready)) = 4"
  by (auto simp: io_ready_def ObpZeroHandleTable_def ob_inv_def handles_inv_def refs_inv_def values_inv_def live_entries_def handle_count_def)

lemma io_ready_files: "files_inv io_ready"
proof -
  have "\<not> file_slot io_ready i ob" "\<not> file_object io_ready ob" for i ob
    by (simp_all add: file_slot_def file_object_def io_ready_def io_bss_def LPC_GLOBALS.defs IO_GLOBALS.defs)
  moreover have "gIoFileType io_ready = Some 0" "ty_DeleteRoutine (gObTypePool io_ready 0) = Some IopDeleteFileObject_ptr"
    by (simp_all add: io_ready_def)
  ultimately show ?thesis by (auto simp: files_inv_def)
qed

lemma io_ready_lookup: "IopFsFatLookupFile ''a'' io_ready = Some 0"
proof -
  have "IopStringEquals (Some (c_str (''a'' @ replicate 63 NUL))) (Some ''a'')"
    using string_equals_loop [of "''a''" "''a''" 0] by (simp add: IopStringEquals_def c_str_def)
  then show ?thesis by (simp add: IopFsFatLookupFile_def IO_MAX_BOOT_FILES_def io_ready_def)
qed

lemma io_ready_open: "fst (IoOpenPath del (Some ''a'') 1 True io_ready) = Inr 4"
proof -
  let ?s1 = "set_file 0 (\<lambda>_. empty_file) (io_ready\<lparr>gIoFileInUse := (gIoFileInUse io_ready)(0 := True)\<rparr>)"
  have al: "IopAllocateFileSlot io_ready = (Some 0, ?s1)"
    by (simp add: IopAllocateFileSlot_def IO_MAX_FILE_OBJECTS_def io_ready_def io_bss_def LPC_GLOBALS.defs IO_GLOBALS.defs)
  have ob: "gObReady ?s1" "\<not> gObObjectInUse ?s1 0" "gIoFileType ?s1 = Some 0" by (simp_all add: set_file_def io_ready_def)
  obtain s2 where cr: "ObCreateObject (Some 0) (Some ''io.file'') IO_FILE_ACCESS_ALL 0 True ?s1 = (Inr 0, s2)"
    using ob by (simp add: ObCreateObject_def OB_MAX_OBJECTS_def ObpCopyName_def OB_MAX_OBJECT_NAME_def Let_def)
  note ce = ObCreateObject_Inr [OF cr] and io = ob_ops_io(3) [OF cr]
  let ?s3 = "set_file 0 (\<lambda>x. x\<lparr>fo_Header := Some 0, fo_AccessMask := 1\<rparr>) s2"
  have "IopFsFatLookupFile ''a'' ?s3 = Some 0"
    using io io_ready_lookup by (simp add: IopFsFatLookupFile_def io_part_def)
  then obtain s4 where v: "IopVfsOpen (Some ''a'') (Some 0) ?s3 = (KSTATUS_SUCCESS, s4)" "ob_part s4 = ob_part s2"
    by (simp add: IopVfsOpen_def)
  have tb: "gObKernelHandleTable s4 = gObKernelHandleTable io_ready" "gObReady s4" "oh_DefaultAccessMask (ob_object s4 0) = 7"
    using v(2) ce by (auto simp: ob_part_def set_file_def IO_FILE_ACCESS_ALL_def)
  have "fst (ObInsertHandle (Some ()) (Some 0) 1 True s4) = Inr 4"
    using tb by (simp add: ObInsertHandle_def OB_MAX_HANDLES_def io_ready_def ObpZeroHandleTable_def Let_def)
  moreover have "gIoReady io_ready" "1 AND IO_FILE_ACCESS_ALL \<noteq> 0" by (simp_all add: io_ready_def IO_FILE_ACCESS_ALL_def)
  ultimately show ?thesis
    using ob tb by (simp add: IoOpenPath_def al cr v ObGetKernelHandleTable_def case_prod_beta)
qed

section \<open>Properties\<close>

text \<open>C26: opening a file by path.  A successful open yields a handle through which exactly the boot file that the
  lookup of the path finds can be read, and keeps the object manager's invariant and the one to one
  correspondence of file objects and file slots.\<close>

theorem IoOpenPath_opens:
  assumes "ob_inv ext s" and "files_inv s" and "IoOpenPath run_delete (Some p) acc True s = (Inr h, t)"
    and "unat (ht_NextHandle (gObKernelHandleTable s)) < 2 ^ 32 - 4" and "mask_subset IO_FILE_ACCESS_READ acc"
  shows "\<exists>ob fo i. file_at t h ob fo \<and> IopFsFatLookupFile p s = Some i \<and>
    fo_Data (gIoFilePool t fo) = bf_Data (gIoBootFiles s i) \<and> fo_Size (gIoFilePool t fo) = bf_Size (gIoBootFiles s i) \<and>
    ob_inv ext t \<and> files_inv t"
proof -
  from open_opened [OF assms(1-4)] obtain fo ob i k where op: "opened p acc h s t fo ob i k" and inv: "ob_inv ext t" .
  note f = op [unfolded opened_def, THEN conjunct2, THEN conjunct1] op [unfolded opened_def, THEN conjunct1]
  have k: "k \<in> live_entries t" "ob_entry t k = \<lparr>he_HandleValue = h, he_Object = Some ob, he_GrantedAccess = acc, he_InUse = True\<rparr>"
    and o: "oh_RefCount (ob_object t ob) = 1" "oh_Type (ob_object t ob) = gIoFileType t" "gIoReady t"
    using op by (auto simp: opened_def io_part_def)
  have v: "values_inv t" "gObReady t" "h \<noteq> 0"
    using inv k by (auto simp: ob_inv_def values_inv_def word_le_nat_alt)
  have "ObpFindHandleEntry (Some ()) h True t = Inr k" using ObpFindHandleEntry_live [OF v(1) k(1)] k(2) by simp
  then have "fst (ObReferenceObjectByHandle (ObGetKernelHandleTable t) h IO_FILE_ACCESS_READ (gIoFileType t) True t) = Inr ob"
    using v k o assms(5) by (auto simp: ObReferenceObjectByHandle_def ObGetKernelHandleTable_def Let_def mask_subset_def and.commute io_part_def)
  then have "file_at t h ob fo"
    using file_slot_find [OF f] o by (simp add: file_at_def)
  with op inv f(1) show ?thesis by (auto simp: opened_def io_part_def)
qed

theorem IoOpenPath_opens_witness:
  "\<exists>t ob fo. IoOpenPath run_delete (Some ''a'') 1 True io_ready = (Inr 4, t) \<and> file_at t 4 ob fo \<and> fo_Size (gIoFilePool t fo) = 3"
proof -
  obtain t where t: "IoOpenPath run_delete (Some ''a'') 1 True io_ready = (Inr 4, t)"
    using io_ready_open [of run_delete] by (metis prod.collapse)
  have "bf_Size (gIoBootFiles io_ready 0) = 3" by (simp add: io_ready_def)
  with IoOpenPath_opens [OF io_ready_ob(1) io_ready_files t] io_ready_lookup t show ?thesis
    by (auto simp: io_ready_ob(2) mask_subset_def IO_FILE_ACCESS_READ_def)
qed

text \<open>C27: open and close leave nothing behind.  Closing the handle of a file just opened succeeds, runs the delete
  routine of the file type, and gives back the file slot, the object and the handle entry; the handle
  can no longer be used.\<close>

theorem IoOpenPath_close:
  assumes "ob_inv ext s" and "files_inv s" and "IoOpenPath run_delete (Some p) acc True s = (Inr h, t)"
    and "unat (ht_NextHandle (gObKernelHandleTable s)) < 2 ^ 32 - 4"
  shows "\<exists>u. IoCloseFileHandle run_delete h t = (KSTATUS_SUCCESS, u) \<and> ob_inv ext u \<and> files_inv u \<and>
    gIoFileInUse u = gIoFileInUse s \<and> gObObjectInUse u = gObObjectInUse s \<and> live_entries u = live_entries s \<and>
    IoReadFileHandle run_delete h off True 1 True u = Some (Inl KSTATUS_NOT_FOUND, u)"
proof -
  from open_opened [OF assms] obtain fo ob i k where op: "opened p acc h s t fo ob i k" and inv: "ob_inv ext t" .
  note f = op [unfolded opened_def, THEN conjunct2, THEN conjunct1] op [unfolded opened_def, THEN conjunct1]
  have k: "k \<in> live_entries t" "ob_entry t k = \<lparr>he_HandleValue = h, he_Object = Some ob, he_GrantedAccess = acc, he_InUse = True\<rparr>"
    and o: "oh_RefCount (ob_object t ob) = 1" and rdy: "gIoReady t" "gObReady t"
    using op inv by (auto simp: opened_def io_part_def ob_inv_def)
  obtain u where u: "IoCloseFileHandle run_delete h t = (KSTATUS_SUCCESS, u)" "ob_inv ext u" "files_inv u"
    "live_entries u = live_entries t - {k}" "gObObjectInUse u = (gObObjectInUse t)(ob := False)"
    "io_part u = (gIoFileType t, (gIoFilePool t)(fo := empty_file), (gIoFileInUse t)(fo := False), gIoBootFiles t, gIoReady t)"
    by (rule close_last_file [OF inv f o k(1) _ rdy(1)]) (use k(2) in simp_all)
  have "ObCloseHandle run_delete (Some ()) h t = (KSTATUS_SUCCESS, u)"
    using u(1) rdy by (auto simp: IoCloseFileHandle_def ObGetKernelHandleTable_def split: if_splits)
  from kob.close_then_reference [OF inv k(1) _ this, of IO_FILE_ACCESS_READ "gIoFileType u"] k(2)
  have "ObReferenceObjectByHandle (Some ()) h IO_FILE_ACCESS_READ (gIoFileType u) True u = (Inl KSTATUS_NOT_FOUND, u)" by simp
  then have rd: "IoReadFileHandle run_delete h off True 1 True u = Some (Inl KSTATUS_NOT_FOUND, u)"
    using u(2,6) rdy by (simp add: IoReadFileHandle_def ObGetKernelHandleTable_def io_part_def ob_inv_def)
  have "gIoFileInUse u = gIoFileInUse s" "gObObjectInUse u = gObObjectInUse s" "live_entries u = live_entries s"
    using u(4-6) op by (auto simp: opened_def io_part_def fun_eq_iff)
  with u rd show ?thesis by blast
qed


theorem IoOpenPath_close_witness:
  "\<exists>t u. IoOpenPath run_delete (Some ''a'') 1 True io_ready = (Inr 4, t) \<and> IoCloseFileHandle run_delete 4 t = (KSTATUS_SUCCESS, u) \<and>
     gIoFileInUse u = gIoFileInUse io_ready"
proof -
  obtain t where t: "IoOpenPath run_delete (Some ''a'') 1 True io_ready = (Inr 4, t)"
    using io_ready_open [of run_delete] by (metis prod.collapse)
  with IoOpenPath_close [OF io_ready_ob(1) io_ready_files t] show ?thesis by (auto simp: io_ready_ob(2))
qed

text \<open>C24: the object manager never uses a freed object.  Over every sequence of create, insert, reference,
  dereference and close, with the delete routines the kernel registers, the handle table names live
  objects only, a handle grants no more than its object allows, and the reference count of a live
  object is the number of its handles plus the references held outside the table.\<close>

theorem kernel_objects_invariant:
  fixes s0 :: "'a IO_GLOBALS_scheme"
  assumes "\<not> gObReady s0" and "(ob_step run_delete)\<^sup>*\<^sup>* (\<lambda>_. 0, snd (ObInitialize s0)) (ext, s)"
  shows "ob_inv ext s \<and>
    (\<forall>k\<in>live_entries s. \<exists>ob. he_Object (ob_entry s k) = Some ob \<and> gObObjectInUse s ob \<and>
       mask_subset (he_GrantedAccess (ob_entry s k)) (oh_DefaultAccessMask (ob_object s ob)) \<and>
       unat (oh_RefCount (ob_object s ob)) = handle_count s ob + ext ob)"
proof -
  have inv: "ob_inv ext s" by (rule kob.reachable_inv [OF assms])
  then show ?thesis unfolding ob_inv_def handles_inv_def refs_inv_def by metis
qed

theorem kernel_objects_invariant_witness:
  "\<exists>ext s. ob_inv ext s \<and> ext 0 = 1 \<and> gObObjectInUse s 0 \<and>
     s = snd (ObCreateObject (Some 0) (Some ''x'') 3 0 True (snd (ObInitialize (io_ready\<lparr>gObReady := False\<rparr>))))"
proof -
  let ?s0 = "io_ready\<lparr>gObReady := False\<rparr>"
  let ?s1 = "snd (ObInitialize ?s0)"
  have "gObReady ?s1" "\<not> gObObjectInUse ?s1 0" by (simp_all add: ObInitialize_def OB_MAX_OBJECTS_def)
  then obtain s where s: "ObCreateObject (Some 0) (Some ''x'') 3 0 True ?s1 = (Inr 0, s)"
    by (simp add: ObCreateObject_def OB_MAX_OBJECTS_def ObpCopyName_def OB_MAX_OBJECT_NAME_def Let_def)
  have "(ob_step run_delete)\<^sup>*\<^sup>* (\<lambda>_. 0, ?s1) ((\<lambda>_. 0)(0 := 1), s)"
    by (rule r_into_rtranclp, rule ob_step.create [OF s])
  from kernel_objects_invariant [OF _ this] ObCreateObject_Inr [OF s] s show ?thesis
    by (intro exI [of _ "(\<lambda>_. 0)(0 := 1)"] exI [of _ s]) simp
qed

text \<open>A file slot is lost when the object pool is full.  An open that gets a file slot but no object returns
  without giving the slot back; the slot stays in use, named by no object, and no operation frees it.\<close>

theorem IoOpenPath_slot_leak:
  assumes "gIoReady s" and "gObReady s" and "acc AND IO_FILE_ACCESS_ALL \<noteq> 0" and "gIoFileType s \<noteq> None"
    and "\<And>ob. ob < OB_MAX_OBJECTS \<Longrightarrow> gObObjectInUse s ob" and "i < IO_MAX_FILE_OBJECTS" and "\<not> gIoFileInUse s i"
  shows "\<exists>t fo. IoOpenPath del (Some p) acc True s = (Inl KSTATUS_INIT_FAILED, t) \<and> \<not> gIoFileInUse s fo \<and>
    gIoFileInUse t = (gIoFileInUse s)(fo := True) \<and> fo_Header (gIoFilePool t fo) = None \<and>
    gIoFileInUse (IopDeleteFileObject (Some ob) t) fo"
proof -
  obtain fo where fo: "scan (\<lambda>i. \<not> gIoFileInUse s i) 0 IO_MAX_FILE_OBJECTS = Some fo"
    using scan_total [of "\<lambda>i. \<not> gIoFileInUse s i" IO_MAX_FILE_OBJECTS] assms(6,7) by auto
  let ?t = "set_file fo (\<lambda>_. empty_file) (s\<lparr>gIoFileInUse := (gIoFileInUse s)(fo := True)\<rparr>)"
  have "scan (\<lambda>i. \<not> gObObjectInUse ?t i) 0 OB_MAX_OBJECTS = None" using assms(5) by (simp add: scan_None_iff set_file_def)
  then have cr: "ObCreateObject (gIoFileType s) (Some ''io.file'') IO_FILE_ACCESS_ALL 0 True ?t = (Inl KSTATUS_INIT_FAILED, ?t)"
    using assms(2,4) by (simp add: ObCreateObject_def set_file_def)
  have "IoOpenPath del (Some p) acc True s = (Inl KSTATUS_INIT_FAILED, ?t)"
    using assms(1,3) fo cr by (simp add: IoOpenPath_def IopAllocateFileSlot_def)
  moreover have "gIoFileInUse (IopDeleteFileObject (Some ob) ?t) fo"
    by (auto simp: IopDeleteFileObject_def empty_file_def split: option.split dest!: scan0_SomeD)
  ultimately show ?thesis using scan0_SomeD [OF fo] by (intro exI [of _ ?t] exI [of _ fo]) (auto simp: empty_file_def)
qed

theorem IoOpenPath_slot_leak_witness:
  "\<exists>t fo. IoOpenPath run_delete (Some ''a'') 1 True (io_ready\<lparr>gObObjectInUse := (\<lambda>_. True)\<rparr>) = (Inl KSTATUS_INIT_FAILED, t) \<and> gIoFileInUse t fo"
proof -
  let ?s = "io_ready\<lparr>gObObjectInUse := (\<lambda>_. True)\<rparr>"
  have "gIoReady ?s" "gObReady ?s" "1 AND IO_FILE_ACCESS_ALL \<noteq> 0" "gIoFileType ?s \<noteq> None" "0 < IO_MAX_FILE_OBJECTS" "\<not> gIoFileInUse ?s 0"
    by (simp_all add: io_ready_def io_bss_def LPC_GLOBALS.defs IO_GLOBALS.defs IO_FILE_ACCESS_ALL_def IO_MAX_FILE_OBJECTS_def)
  from IoOpenPath_slot_leak [OF this(1-4) _ this(5,6), of run_delete "''a''" 0] obtain t fo
    where "IoOpenPath run_delete (Some ''a'') 1 True ?s = (Inl KSTATUS_INIT_FAILED, t)" "gIoFileInUse t = (gIoFileInUse ?s)(fo := True)" by auto
  then show ?thesis by (intro exI [of _ t] exI [of _ fo]) simp
qed

end
