(* ===== verification/NtxMmTrace.thy ===== *)
theory NtxMmTrace
  imports NtxPsInit
begin

text \<open>
  The page fault trap and the diagnostics of the memory manager, \<^verbatim>\<open>kernel/mm/init.c\<close>: the ring of recent
  faults, the trap routine registered with the HAL, and the dumps, which return the text they write.
\<close>

section \<open>Definitions\<close>

subsection \<open>The fault trace\<close>

definition fault_entry :: "ptr \<Rightarrow> u64 \<Rightarrow> u64 \<Rightarrow> u64 \<Rightarrow> KSTATUS \<Rightarrow> 'a PS_GLOBALS_scheme \<Rightarrow> MM_FAULT_TRACE" where
  "fault_entry AddressSpace FaultAddress ErrorCode InstructionPointer Outcome s =
     \<lparr>ft_FaultAddress = FaultAddress, ft_InstructionPointer = InstructionPointer, ft_ErrorCode = ErrorCode,
      ft_ProcessId = (case PsGetCurrentProcess s of None \<Rightarrow> 0 | Some p \<Rightarrow> pr_ProcessId (gPsProcessPool s p)),
      ft_AddressSpaceId = (case AddressSpace of None \<Rightarrow> 0 | Some a \<Rightarrow> as_AddressSpaceId (gMmAddressSpacePool s a)),
      ft_Outcome = Outcome\<rparr>"

definition MmpRecordFault :: "ptr \<Rightarrow> u64 \<Rightarrow> u64 \<Rightarrow> u64 \<Rightarrow> KSTATUS \<Rightarrow> 'a PS_GLOBALS_scheme \<Rightarrow> 'a PS_GLOBALS_scheme" where
  "MmpRecordFault AddressSpace FaultAddress ErrorCode InstructionPointer Outcome s =
     s\<lparr>gMmFaultTrace := (gMmFaultTrace s)(unat (gMmFaultTraceNext s mod MM_FAULT_TRACE_DEPTH) :=
          fault_entry AddressSpace FaultAddress ErrorCode InstructionPointer Outcome s),
       gMmFaultTraceNext := gMmFaultTraceNext s + 1\<rparr>"

subsection \<open>Text\<close>

definition MmpWriteHexLine :: "string \<Rightarrow> u64 \<Rightarrow> string option" where
  "MmpWriteHexLine Prefix Value = ObpWriteHexLine 96 Prefix Value"

text \<open>A run of consecutive lines.\<close>

fun hex_lines :: "(string \<times> u64) list \<Rightarrow> string option" where
  "hex_lines [] = Some []"
| "hex_lines ((Prefix, Value) # ls) = do { l \<leftarrow> MmpWriteHexLine Prefix Value; r \<leftarrow> hex_lines ls; Some (l @ r) }"

definition MmpWriteAccessType :: "u64 \<Rightarrow> string" where
  "MmpWriteAccessType ErrorCode =
     ''[MMFLT] access='' @ (if ErrorCode AND MM_PF_ERROR_INSTR \<noteq> 0 then ''exec '' else []) @
     (if ErrorCode AND MM_PF_ERROR_WRITE \<noteq> 0 then ''write '' else ''read '') @
     (if ErrorCode AND MM_PF_ERROR_USER \<noteq> 0 then ''user'' @ [CHR 0x0A] else ''kernel'' @ [CHR 0x0A])"

definition region_lines :: "string \<Rightarrow> MM_VA_REGION \<Rightarrow> (string \<times> u64) list" where
  "region_lines Tag Region =
     [(Tag @ '' region.base='', reg_Base Region), (Tag @ '' region.size='', reg_Size Region),
      (Tag @ '' region.type='', ucast (reg_Type Region)), (Tag @ '' region.prot='', ucast (reg_Protection Region)),
      (Tag @ '' region.flags='', ucast (reg_Flags Region)), (Tag @ '' region.commit='', ucast (reg_CommittedPages Region)),
      (Tag @ '' region.backing='', reg_BackingPhysicalBase Region)]"

definition MmpDumpRegion :: "MM_VA_REGION option \<Rightarrow> string option" where
  "MmpDumpRegion Region =
     (case Region of
        None \<Rightarrow> Some (''[MMFLT] region=<none>'' @ [CHR 0x0A])
      | Some g \<Rightarrow> hex_lines (region_lines ''[MMFLT]'' g))"

text \<open>The five lines of one level of a translation.\<close>

definition entry_lines :: "string \<Rightarrow> u64 \<Rightarrow> (string \<times> u64) list" where
  "entry_lines Name e =
     [(''[MMDBG] '' @ Name @ ''='', e), (''[MMDBG] '' @ Name @ ''.P='', of_bool (has_flag e MM_PTE_PRESENT)),
      (''[MMDBG] '' @ Name @ ''.U='', of_bool (has_flag e MM_PTE_USER)), (''[MMDBG] '' @ Name @ ''.RW='', of_bool (has_flag e MM_PTE_WRITABLE)),
      (''[MMDBG] '' @ Name @ ''.NX='', of_bool (has_flag e MM_PTE_NX))]"

text \<open>The levels from one table on; the walk stops after an entry that is not present.\<close>

fun translation_lines :: "(string \<times> nat) list \<Rightarrow> u64 \<Rightarrow> u64 \<Rightarrow> 'a MM_GLOBALS_scheme \<Rightarrow> (string \<times> u64) list" where
  "translation_lines [] VirtualAddress Table s = []"
| "translation_lines ((Name, Level) # ls) VirtualAddress Table s =
     (let e = load64 (elem_ptr (MmpPhysToVirtTable s Table) (walk_index VirtualAddress Level)) s in
      entry_lines Name e @
      (if \<not> has_flag e MM_PTE_PRESENT then [] else translation_lines ls VirtualAddress (e AND MM_PTE_ADDR_MASK) s))"

text \<open>The one field of the address space that is read is its root table; the argument is that field.\<close>

definition MmDumpAddressTranslation :: "u64 option \<Rightarrow> u64 \<Rightarrow> 'a MM_GLOBALS_scheme \<Rightarrow> string option" where
  "MmDumpAddressTranslation RootTable VirtualAddress s =
     (case RootTable of
        None \<Rightarrow> Some (''[MMDBG] no address space'' @ [CHR 0x0A])
      | Some RootTablePhysical \<Rightarrow>
          hex_lines ((''[MMDBG] VA='', VirtualAddress) #
            translation_lines [(''PML4E'', 0), (''PDPTE'', 1), (''PDE'', 2), (''PTE'', 3)] VirtualAddress RootTablePhysical s))"

text \<open>The region of a snapshot is a pointer into the region table of its address space.\<close>

record MM_FAULT_SNAPSHOT =
  fs_AddressSpace :: ptr
  fs_Region :: ptr
  fs_FaultAddress :: u64
  fs_InstructionPointer :: u64
  fs_ErrorCode :: u64

definition MmDumpFaultSnapshot :: "MM_FAULT_SNAPSHOT option \<Rightarrow> 'a PS_GLOBALS_scheme \<Rightarrow> string option" where
  "MmDumpFaultSnapshot Snapshot s =
     (case Snapshot of
        None \<Rightarrow> Some (''[MMFLT] null snapshot'' @ [CHR 0x0A])
      | Some sn \<Rightarrow> do {
          l1 \<leftarrow> hex_lines [(''[MMFLT] VA='', fs_FaultAddress sn), (''[MMFLT] RIP='', fs_InstructionPointer sn), (''[MMFLT] ERR='', fs_ErrorCode sn)];
          l2 \<leftarrow> (case PsGetCurrentProcess s of None \<Rightarrow> Some [] | Some p \<Rightarrow> MmpWriteHexLine ''[MMFLT] PID='' (pr_ProcessId (gPsProcessPool s p)));
          l3 \<leftarrow> (case PsGetCurrentThread s of None \<Rightarrow> Some [] | Some t \<Rightarrow> MmpWriteHexLine ''[MMFLT] TID='' (th_ThreadId (gPsThreadPool s t)));
          l4 \<leftarrow> (case fs_AddressSpace sn of
                  None \<Rightarrow> Some []
                | Some a \<Rightarrow> do {
                    l \<leftarrow> MmpWriteHexLine ''[MMFLT] AS='' (as_AddressSpaceId (gMmAddressSpacePool s a));
                    d \<leftarrow> MmDumpAddressTranslation (Some (as_RootTablePhysical (gMmAddressSpacePool s a))) (fs_FaultAddress sn) s;
                    Some (l @ d) });
          l5 \<leftarrow> MmpDumpRegion (case (fs_AddressSpace sn, fs_Region sn) of
                  (Some a, Some r) \<Rightarrow> Some (as_Regions (gMmAddressSpacePool s a) r) | _ \<Rightarrow> None);
          Some (l1 @ MmpWriteAccessType (fs_ErrorCode sn) @ l2 @ l3 @ l4 @ l5) })"

text \<open>The address space of the current process and the region of an address in it.\<close>

definition current_space :: "'a PS_GLOBALS_scheme \<Rightarrow> ptr" where
  "current_space s = (case PsGetCurrentProcess s of None \<Rightarrow> None | Some p \<Rightarrow> pr_AddressSpaceRoot (gPsProcessPool s p))"

definition current_region :: "u64 \<Rightarrow> 'a PS_GLOBALS_scheme \<Rightarrow> ptr" where
  "current_region va s = (case current_space s of None \<Rightarrow> None | Some a \<Rightarrow> MmpFindRegion a va s)"

definition MmDumpCurrentFaultContext :: "u64 \<Rightarrow> u64 \<Rightarrow> u64 \<Rightarrow> 'a PS_GLOBALS_scheme \<Rightarrow> string option" where
  "MmDumpCurrentFaultContext FaultAddress ErrorCode InstructionPointer s =
     MmDumpFaultSnapshot (Some \<lparr>fs_AddressSpace = current_space s, fs_Region = current_region FaultAddress s,
       fs_FaultAddress = FaultAddress, fs_InstructionPointer = InstructionPointer, fs_ErrorCode = ErrorCode\<rparr>) s"

definition MmDumpAddressSpaceRegions :: "ptr \<Rightarrow> 'a MM_GLOBALS_scheme \<Rightarrow> string option" where
  "MmDumpAddressSpaceRegions AddressSpace s =
     (case AddressSpace of
        None \<Rightarrow> Some (''[MMDBG] regions: <null address space>'' @ [CHR 0x0A])
      | Some a \<Rightarrow>
          let as = gMmAddressSpacePool s a in
          hex_lines ((''[MMDBG] as.id='', as_AddressSpaceId as) # (''[MMDBG] as.owner='', as_OwnerProcessId as) #
            (''[MMDBG] as.region_count='', ucast (as_RegionCount as)) #
            concat (map (\<lambda>i. region_lines ''[MMDBG]'' (as_Regions as i)) [0..<unat (as_RegionCount as)])))"

text \<open>The entries the fault dump lists, oldest first.\<close>

definition recent_faults :: "'a MM_GLOBALS_scheme \<Rightarrow> MM_FAULT_TRACE list" where
  "recent_faults s =
     (let n = gMmFaultTraceNext s; Count = (if n < MM_FAULT_TRACE_DEPTH then n else MM_FAULT_TRACE_DEPTH) in
      map (\<lambda>i. gMmFaultTrace s (unat ((n - Count + of_nat i) mod MM_FAULT_TRACE_DEPTH))) [0..<unat Count])"

definition MmDumpRecentFaults :: "'a MM_GLOBALS_scheme \<Rightarrow> string option" where
  "MmDumpRecentFaults s = hex_lines (concat (map (\<lambda>e.
     [(''[MMFLT] VA='', ft_FaultAddress e), (''[MMFLT] RIP='', ft_InstructionPointer e), (''[MMFLT] ERR='', ft_ErrorCode e),
      (''[MMFLT] PID='', ft_ProcessId e), (''[MMFLT] AS='', ft_AddressSpaceId e), (''[MMFLT] OUT='', word_of_int (kstatus_value (ft_Outcome e)))])
     (recent_faults s)))"

subsection \<open>The trap\<close>

text \<open>What a fatal fault writes before the processor stops.\<close>

definition fatal_report :: "ptr \<Rightarrow> ptr \<Rightarrow> u64 \<Rightarrow> u64 \<Rightarrow> u64 \<Rightarrow> u64 \<Rightarrow> 'a PS_GLOBALS_scheme \<Rightarrow> string option" where
  "fatal_report AddressSpace Region FaultCr3 FaultAddress ErrorCode InstructionPointer s = do {
     l1 \<leftarrow> MmpWriteHexLine ''[MMFLT] CR3='' FaultCr3;
     l2 \<leftarrow> (case AddressSpace of None \<Rightarrow> Some [] | Some a \<Rightarrow> MmpWriteHexLine ''[MMFLT] AS.ROOT='' (as_RootTablePhysical (gMmAddressSpacePool s a)));
     l3 \<leftarrow> MmDumpFaultSnapshot (Some \<lparr>fs_AddressSpace = AddressSpace, fs_Region = Region, fs_FaultAddress = FaultAddress,
             fs_InstructionPointer = InstructionPointer, fs_ErrorCode = ErrorCode\<rparr>) s;
     l4 \<leftarrow> MmDumpAddressTranslation (Some FaultCr3) FaultAddress s;
     Some (l1 @ l2 @ l3 @ ''[MMDBG] translation via current CR3'' @ [CHR 0x0A] @ l4 @ ''[MM] fatal page fault'' @ [CHR 0x0A]) }"

text \<open>The trap returns the new state, or halts after writing a report.\<close>

definition MmpOnPageFault :: "u64 \<Rightarrow> u64 \<Rightarrow> u64 \<Rightarrow> 'a PS_GLOBALS_scheme \<Rightarrow> (string option + 'a PS_GLOBALS_scheme) option" where
  "MmpOnPageFault FaultAddress ErrorCode InstructionPointer s =
     (let AddressSpace = current_space s; Region = current_region FaultAddress s; FaultCr3 = MmpReadCr3 s AND MM_PTE_ADDR_MASK in do {
       (Status, s1) \<leftarrow> MmHandlePageFault AddressSpace FaultAddress ErrorCode s;
       let s2 = MmpRecordFault AddressSpace FaultAddress ErrorCode InstructionPointer Status s1;
       Some (if Status \<noteq> KSTATUS_SUCCESS
             then Inl (fatal_report AddressSpace Region FaultCr3 FaultAddress ErrorCode InstructionPointer s2)
             else Inr s2) })"

text \<open>The routine behind the pointer the HAL holds.\<close>

definition run_page_fault :: "HAL_PAGE_FAULT_ROUTINE \<Rightarrow> u64 \<Rightarrow> u64 \<Rightarrow> u64 \<Rightarrow> 'a PS_GLOBALS_scheme \<Rightarrow> 'a PS_GLOBALS_scheme option" where
  "run_page_fault r FaultAddress ErrorCode InstructionPointer s =
     (case r of MmpOnPageFault_ptr \<Rightarrow>
        (case MmpOnPageFault FaultAddress ErrorCode InstructionPointer s of Some (Inr t) \<Rightarrow> Some t | _ \<Rightarrow> None))"

section \<open>The ring of recent faults\<close>

lemma fault_depth: "unat MM_FAULT_TRACE_DEPTH = 64"
  by (simp add: MM_FAULT_TRACE_DEPTH_def)

text \<open>The dump in natural numbers.\<close>

lemma recent_faults_nat:
  assumes "n = unat (gMmFaultTraceNext s)"
  shows "recent_faults s = map (\<lambda>i. gMmFaultTrace s (i mod 64)) [n - 64..<n]"
proof -
  let ?x = "gMmFaultTraceNext s"
  let ?c = "if ?x < MM_FAULT_TRACE_DEPTH then ?x else MM_FAULT_TRACE_DEPTH"
  have c: "unat ?c = min n 64" using assms by (auto simp: word_less_nat_alt fault_depth)
  then have "?c \<le> ?x" using assms by (simp add: word_le_nat_alt)
  then have d: "unat (?x - ?c) = n - min n 64" using c assms by (simp add: unat_sub)
  have "unat ((?x - ?c + of_nat i) mod MM_FAULT_TRACE_DEPTH) = (n - 64 + i) mod 64" if "i < min n 64" for i
  proof -
    have "n < 2 ^ 32" using assms unsigned_less [of ?x, where 'a = nat] by simp
    with that have i: "n - min n 64 + i < 2 ^ 32" "unat (of_nat i :: u32) = i"
      by (auto simp: min_def unsigned_of_nat take_bit_nat_eq_self split: if_splits)
    with d have "unat (?x - ?c + of_nat i) = n - min n 64 + i"
      by (subst unat_add_lem [THEN iffD1]) simp_all
    then show ?thesis using that by (simp add: unat_mod fault_depth min_def split: if_splits)
  qed
  then show ?thesis
    using c by (auto intro!: nth_equalityI simp: recent_faults_def Let_def)
qed

text \<open>Recording pushes onto the list the dump prints, which keeps the newest 64.\<close>

definition newest :: "nat \<Rightarrow> 'b list \<Rightarrow> 'b list" where
  "newest k xs = drop (length xs - k) xs"

lemma record_recent:
  assumes "unat (gMmFaultTraceNext s) < 2 ^ 32 - 1"
  shows "recent_faults (MmpRecordFault a va err ip st s) = newest 64 (recent_faults s @ [fault_entry a va err ip st s])"
proof -
  define n where "n = unat (gMmFaultTraceNext s)"
  let ?t = "MmpRecordFault a va err ip st s"
  have n1: "Suc n = unat (gMmFaultTraceNext ?t)"
    using assms unat_inc [of "gMmFaultTraceNext s"] by (simp add: MmpRecordFault_def n_def)
  have ft: "gMmFaultTrace ?t = (gMmFaultTrace s)(n mod 64 := fault_entry a va err ip st s)"
    by (simp add: MmpRecordFault_def n_def unat_mod fault_depth)
  have "recent_faults ?t = map (\<lambda>i. gMmFaultTrace ?t (i mod 64)) [Suc n - 64..<n] @ [fault_entry a va err ip st s]"
    by (simp add: recent_faults_nat [OF n1] ft)
  moreover have "map (\<lambda>i. gMmFaultTrace ?t (i mod 64)) [Suc n - 64..<n] = map (\<lambda>i. gMmFaultTrace s (i mod 64)) [Suc n - 64..<n]"
  proof (rule map_cong [OF refl])
    fix i assume "i \<in> set [Suc n - 64..<n]"
    then have "i < n" "n < i + 64" by auto
    then have "i mod 64 \<noteq> n mod 64" by (metis add_diff_inverse_nat less_imp_not_less mod_add_cong mod_less less_diff_conv2 mod_eq_dvd_iff_nat nat_dvd_not_less zero_less_diff less_imp_le_nat add.commute)
    then show "gMmFaultTrace ?t (i mod 64) = gMmFaultTrace s (i mod 64)" by (simp add: ft)
  qed
  moreover have "newest 64 (recent_faults s @ [x]) = map (\<lambda>i. gMmFaultTrace s (i mod 64)) [Suc n - 64..<n] @ [x]" for x
    by (cases "n < 64") (simp_all add: recent_faults_nat [OF n_def] newest_def drop_map Suc_diff_le [symmetric])
  ultimately show ?thesis by simp
qed

lemma newest_snoc: "newest k (newest k xs @ [x]) = newest k (xs @ [x])" if "0 < k"
  using that by (cases "length xs < k") (simp_all add: newest_def Suc_diff_le)

definition record_all :: "(ptr \<times> u64 \<times> u64 \<times> u64 \<times> KSTATUS) list \<Rightarrow> 'a PS_GLOBALS_scheme \<Rightarrow> 'a PS_GLOBALS_scheme" where
  "record_all fs = fold (\<lambda>(a, va, err, ip, st). MmpRecordFault a va err ip st) fs"

lemma record_all_keeps:
  "fault_entry a va err ip st (record_all fs s) = fault_entry a va err ip st s"
  "gMmFaultTraceNext s = 0 \<Longrightarrow> gMmFaultTraceNext (record_all fs s) = of_nat (length fs)"
proof -
  have e: "fault_entry a va err ip st (MmpRecordFault a' va' err' ip' st' s) = fault_entry a va err ip st s"
    for a va err ip st a' va' err' ip' st' and s :: "'b PS_GLOBALS_scheme"
    by (simp add: fault_entry_def [of a va err ip st] MmpRecordFault_def PsGetCurrentProcess_def split: option.split)
  show "fault_entry a va err ip st (record_all fs s) = fault_entry a va err ip st s"
    by (induction fs arbitrary: s) (auto simp: record_all_def e)
  have "gMmFaultTraceNext (record_all fs s) = gMmFaultTraceNext s + of_nat (length fs)"
    by (induction fs arbitrary: s) (auto simp: record_all_def MmpRecordFault_def)
  then show "gMmFaultTraceNext s = 0 \<Longrightarrow> gMmFaultTraceNext (record_all fs s) = of_nat (length fs)" by simp
qed

text \<open>The machine of \<open>mm_user\<close> with thread 0 of process 0 running in address space 0.\<close>

definition ps_user :: PS_GLOBALS where
  "ps_user = (MM_GLOBALS.extend mm_user (MM_GLOBALS.more ps_demo))\<lparr>gHalPageFaultRoutine := Some MmpOnPageFault_ptr,
     gPsProcessPool := (\<lambda>_. \<lparr>pr_ObjectHeader = None, pr_ProcessId = 1, pr_AddressSpaceRoot = Some 0\<rparr>)\<rparr>"

lemma ps_user_mm:
  "hw_mem ps_user = hw_mem mm_user" "gMmPageBitmap ps_user = gMmPageBitmap mm_user" "gMmPageRefCount ps_user = gMmPageRefCount mm_user"
  "gMmTrackedPages ps_user = gMmTrackedPages mm_user" "gMmNextScanPage ps_user = gMmNextScanPage mm_user"
  "gMmReady ps_user = gMmReady mm_user" "gMmAddressSpacePool ps_user = gMmAddressSpacePool mm_user"
  by (simp_all add: ps_user_def MM_GLOBALS.defs)

lemma ps_user_ok: "as_ok lvl_paged ps_user 0" "0 < free_pages ps_user" "pte_at ps_user 0 0x40000000 0x4000"
  "current_space ps_user = Some 0"
proof -
  show "as_ok lvl_paged ps_user 0"
    using user_ok by (simp add: ps_user_mm as_ok_def pt_inv_def levels_ok_def entries_ok_def as_root_def pages_wf_def page_alloc_def)
  have "5 \<in> {p. p < tracked ps_user \<and> \<not> page_alloc ps_user p}"
    by (simp add: ps_user_mm page_alloc_def mm_user_def mm_paged_def bit_numeral_rec)
  then show "0 < free_pages ps_user" unfolding free_pages_def by (subst card_gt_0_iff) auto
  have "walk_path ps_user va l k x y = walk_path mm_paged va l k x y" for va l k x y
    by (induction k arbitrary: l x) (simp_all add: ps_user_mm mm_user_def Let_def)
  then show "pte_at ps_user 0 0x40000000 0x4000"
    using paged_path by (simp add: pte_at_def as_root_def ps_user_mm mm_user_def)
  show "current_space ps_user = Some 0"
    by (simp add: current_space_def PsGetCurrentProcess_def ps_user_def MM_GLOBALS.defs ps_demo_def ps_bss_def PS_GLOBALS.defs)
qed

section \<open>Properties\<close>

text \<open>The fault dump lists the newest faults.  After any sequence of fewer than \<open>2\<^sup>3\<^sup>2\<close> recorded faults the dump
  goes over exactly the last 64 of them, oldest first.\<close>

theorem MmpRecordFault_recent:
  assumes "gMmFaultTraceNext s = 0" and "length fs < 2 ^ 32"
  shows "recent_faults (record_all fs s) = newest 64 (map (\<lambda>(a, va, err, ip, st). fault_entry a va err ip st s) fs)"
  using assms(2)
proof (induction fs rule: rev_induct)
  case Nil
  then show ?case using assms(1) recent_faults_nat [of 0 s] by (simp add: record_all_def newest_def)
next
  case (snoc f fs)
  obtain a va err ip st where f: "f = (a, va, err, ip, st)" by (metis prod.exhaust)
  let ?t = "record_all fs s"
  have "unat (gMmFaultTraceNext ?t) < 2 ^ 32 - 1"
    using snoc.prems record_all_keeps(2) [OF assms(1), of fs] by (simp add: unsigned_of_nat take_bit_nat_eq_self)
  then have "recent_faults (record_all (fs @ [f]) s) = newest 64 (recent_faults ?t @ [fault_entry a va err ip st s])"
    using record_recent [of ?t a va err ip st] by (simp add: record_all_def f record_all_keeps(1) [unfolded record_all_def])
  also have "\<dots> = newest 64 (map (\<lambda>(a, va, err, ip, st). fault_entry a va err ip st s) (fs @ [f]))"
    using snoc by (simp add: newest_snoc f)
  finally show ?case .
qed

theorem MmpRecordFault_recent_witness:
  "recent_faults (record_all [(None, 1, 2, 3, KSTATUS_ACCESS_DENIED), (None, 4, 5, 6, KSTATUS_SUCCESS)] (ps_demo\<lparr>gMmFaultTraceNext := 0\<rparr>)) =
   [fault_entry None 1 2 3 KSTATUS_ACCESS_DENIED (ps_demo\<lparr>gMmFaultTraceNext := 0\<rparr>), fault_entry None 4 5 6 KSTATUS_SUCCESS (ps_demo\<lparr>gMmFaultTraceNext := 0\<rparr>)]"
  using MmpRecordFault_recent [of "ps_demo\<lparr>gMmFaultTraceNext := 0\<rparr>" "[(None, 1, 2, 3, KSTATUS_ACCESS_DENIED), (None, 4, 5, 6, KSTATUS_SUCCESS)]"]
  by (simp add: newest_def)

text \<open>C10: a page fault trap of the current process on a page of an anonymous region that is not present, when the trap routine is
  registered.  The interrupted code is resumed exactly when the region permits the access, there are free pages for
  the page and for every table its walk still has to make, and no large entry above the last level is in the way of the walk; the page
  is then mapped, with the protection of the region, to zeroed memory that was free before.  In every other case the machine stops.\<close>

theorem HalHandlePageFaultTrap_anon:
  fixes s :: "'a PS_GLOBALS_scheme"
  assumes "gHalPageFaultRoutine s = Some MmpOnPageFault_ptr" and "current_space s = Some a"
    and "as_ok lvl s a" and "regions_wf (gMmAddressSpacePool s a)"
    and "r < rcount (gMmAddressSpacePool s a)" and "in_region (gMmAddressSpacePool s a) r va"
    and "\<not> has_flag err MM_PF_ERROR_PRESENT" and "reg_Type (region (gMmAddressSpacePool s a) r) = MM_REGION_TYPE_ANON"
  shows "if region_permits (region (gMmAddressSpacePool s a) r) err \<and>
      (\<exists>n. walk_pages s a (MmpAlignDown va MM_PAGE_SIZE) = Some n \<and> n < free_pages s)
    then \<exists>t pa. HalHandlePageFaultTrap run_page_fault va err ip s = Some t \<and> \<not> page_alloc s (unat pa div 4096) \<and>
      (\<forall>j<512. hw_mem t (slot pa j) = 0) \<and>
      MmAsQueryPte (Some a) (MmpAlignDown va MM_PAGE_SIZE) True t = Some (Inr (new_pte pa (MmpProtectionToPte
        (reg_Protection (region (gMmAddressSpacePool s a) r)) (reg_Flags (region (gMmAddressSpacePool s a) r)))), t)
    else HalHandlePageFaultTrap run_page_fault va err ip s = None"
proof (cases "region_permits (region (gMmAddressSpacePool s a) r) err")
  case True
  let ?fl = "MmpProtectionToPte (reg_Protection (region (gMmAddressSpacePool s a) r)) (reg_Flags (region (gMmAddressSpacePool s a) r))"
  from page_fault_anon [OF assms(3-6) True assms(7,8)] obtain st t where
    t: "MmHandlePageFault (Some a) va err s = Some (st, t)" and
    st: "st = KSTATUS_SUCCESS \<longleftrightarrow> (\<exists>n. walk_pages s a (MmpAlignDown va MM_PAGE_SIZE) = Some n \<and> n < free_pages s)" and
    pa: "st = KSTATUS_SUCCESS \<Longrightarrow> \<exists>pa. \<not> page_alloc s (unat pa div 4096) \<and> (\<forall>j<512. hw_mem t (slot pa j) = 0) \<and>
      MmAsQueryPte (Some a) (MmpAlignDown va MM_PAGE_SIZE) True t = Some (Inr (new_pte pa ?fl), t)"
    by blast
  let ?t = "MmpRecordFault (Some a) va err ip st t"
  have h: "HalHandlePageFaultTrap run_page_fault va err ip s = (if st = KSTATUS_SUCCESS then Some ?t else None)"
    using assms(1,2) t by (simp add: HalHandlePageFaultTrap_def run_page_fault_def MmpOnPageFault_def Let_def)
  show ?thesis
  proof (cases "st = KSTATUS_SUCCESS")
    case ok: True
    from pa [OF ok] obtain pa where p: "\<not> page_alloc s (unat pa div 4096)" "\<forall>j<512. hw_mem t (slot pa j) = 0"
      and q: "MmAsQueryPte (Some a) (MmpAlignDown va MM_PAGE_SIZE) True t = Some (Inr (new_pte pa ?fl), t)" by blast
    have "MmAsQueryPte (Some a) (MmpAlignDown va MM_PAGE_SIZE) True ?t = Some (Inr (new_pte pa ?fl), ?t)"
      by (rule query_view [OF q]) (simp_all add: MmpRecordFault_def as_root_def)
    moreover have "hw_mem ?t = hw_mem t" by (simp add: MmpRecordFault_def)
    ultimately show ?thesis using True p st ok h by auto
  next
    case False
    then have "\<nexists>n. walk_pages s a (MmpAlignDown va MM_PAGE_SIZE) = Some n \<and> n < free_pages s" using st by blast
    with h False show ?thesis by simp
  qed
next
  case False
  have "MmpFindRegion a va s = Some r" using MmpFindRegion_Some [OF assms(4)] assms(5,6) by blast
  with False assms(3) have "MmHandlePageFault (Some a) va err s = Some (KSTATUS_ACCESS_DENIED, s)"
    by (auto simp: MmHandlePageFault_def region_permits_def Let_def as_ok_def pt_inv_def)
  with False assms(1,2) show ?thesis
    by (simp add: HalHandlePageFaultTrap_def run_page_fault_def MmpOnPageFault_def Let_def)
qed

theorem HalHandlePageFaultTrap_anon_witness:
  "(\<exists>t. HalHandlePageFaultTrap run_page_fault 0x40000123 6 0x1000 ps_user = Some t) \<and>
   HalHandlePageFaultTrap run_page_fault 0x40000123 0x14 0x1000 ps_user = None"
proof -
  let ?g = "region (gMmAddressSpacePool ps_user 0) 0"
  have al: "MmpAlignDown 0x40000123 MM_PAGE_SIZE = 0x40000000" by (simp add: MmpAlignDown_def MM_PAGE_SIZE_def)
  have rt: "gHalPageFaultRoutine ps_user = Some MmpOnPageFault_ptr" by (simp add: ps_user_def)
  have rg: "regions_wf (gMmAddressSpacePool ps_user 0)" "0 < rcount (gMmAddressSpacePool ps_user 0)"
    "in_region (gMmAddressSpacePool ps_user 0) 0 0x40000123" using user_regions by (simp_all add: ps_user_mm)
  have g: "region_permits ?g 6" "\<not> region_permits ?g 0x14" "reg_Type ?g = MM_REGION_TYPE_ANON"
    "\<not> has_flag 6 MM_PF_ERROR_PRESENT" "\<not> has_flag 0x14 MM_PF_ERROR_PRESENT"
    by (simp_all add: ps_user_mm region_permits_def mm_user_def has_flag_def has_bits_def MM_PF_ERROR_INSTR_def MM_PF_ERROR_WRITE_def
        MM_PF_ERROR_USER_def MM_PF_ERROR_PRESENT_def MM_PROT_EXECUTE_def MM_PROT_WRITE_def MM_PROT_USER_def MM_REGION_FLAG_GUARD_def
        MM_REGION_FLAG_LAZY_def)
  note use = HalHandlePageFaultTrap_anon [OF rt ps_user_ok(4,1) rg _ g(3), unfolded al, where ip = "0x1000"]
  from use [OF g(4)] use [OF g(5)] g walk_pages_path [OF ps_user_ok(3)] ps_user_ok(2) show ?thesis by auto
qed

end
