(* ===== verification/NtxExec.thy ===== *)
theory NtxExec
  imports NtxObjects NtxMmTrace
begin

text \<open>
  The security manager (\<^verbatim>\<open>kernel/se/init.c\<close>), the cache policy (\<^verbatim>\<open>kernel/cc/init.c\<close>), the report of a failed
  assertion (\<^verbatim>\<open>kernel/nk/assert.c\<close>) and the start of the executive: the table of modules and the loop over it
  (\<^verbatim>\<open>kernel/ex/init.c\<close>) and the message that announces the executive on the system endpoint
  (\<^verbatim>\<open>kernel/ex/hybrid.c\<close>).  The globals of these files end the chain of records: \<open>EX_GLOBALS\<close> is the state of the
  whole kernel.
\<close>

section \<open>Definitions\<close>

record SE_ACCESS_TOKEN =
  tok_SubjectId :: u64
  tok_PrivilegeMask :: u32
  tok_IntegrityLevel :: u32

record CC_POLICY =
  cc_MaxCachedPages :: u32
  cc_DirtyWritebackThresholdPages :: u32
  cc_AggressiveTrim :: u32

record EX_GLOBALS = IO_GLOBALS +
  gSeReady :: bool
  gSeDefaultPrivilegeMask :: u32
  gCcPolicy :: CC_POLICY
  gCcReady :: bool
  gExIpcServiceEndpoint :: NK_SERVICE_ENDPOINT

subsection \<open>Security manager\<close>

definition SE_INTEGRITY_LOW :: u32 where "SE_INTEGRITY_LOW = 1"
definition SE_INTEGRITY_MEDIUM :: u32 where "SE_INTEGRITY_MEDIUM = 2"
definition SE_INTEGRITY_HIGH :: u32 where "SE_INTEGRITY_HIGH = 3"

definition SeInitialize :: "'a EX_GLOBALS_scheme \<Rightarrow> KSTATUS \<times> 'a EX_GLOBALS_scheme" where
  "SeInitialize s =
     (if gSeReady s then (KSTATUS_ALREADY_INITIALIZED, s)
      else (KSTATUS_SUCCESS, s\<lparr>gSeDefaultPrivilegeMask := 0x0000000F, gSeReady := True\<rparr>))"

definition SeCreateKernelToken :: "outptr \<Rightarrow> 'a EX_GLOBALS_scheme \<Rightarrow> KSTATUS + SE_ACCESS_TOKEN" where
  "SeCreateKernelToken OutToken s =
     (if \<not> OutToken \<or> \<not> gSeReady s then Inl KSTATUS_INVALID_PARAMETER
      else Inr \<lparr>tok_SubjectId = 0, tok_PrivilegeMask = 0xFFFFFFFF, tok_IntegrityLevel = SE_INTEGRITY_HIGH\<rparr>)"

definition SeAccessCheck :: "SE_ACCESS_TOKEN option \<Rightarrow> u32 \<Rightarrow> 'a EX_GLOBALS_scheme \<Rightarrow> KSTATUS" where
  "SeAccessCheck Token RequiredMask s =
     (case Token of
        None \<Rightarrow> KSTATUS_INVALID_PARAMETER
      | Some tok \<Rightarrow>
          if \<not> gSeReady s then KSTATUS_INVALID_PARAMETER
          else if tok_PrivilegeMask tok AND RequiredMask \<noteq> RequiredMask then KSTATUS_ACCESS_DENIED
          else if tok_IntegrityLevel tok < SE_INTEGRITY_MEDIUM \<and> RequiredMask \<noteq> 0 then KSTATUS_ACCESS_DENIED
          else KSTATUS_SUCCESS)"

subsection \<open>Cache policy\<close>

definition CcInitialize :: "'a EX_GLOBALS_scheme \<Rightarrow> KSTATUS \<times> 'a EX_GLOBALS_scheme" where
  "CcInitialize s =
     (if gCcReady s then (KSTATUS_ALREADY_INITIALIZED, s)
      else
        let PlatformInfo = the (HalQueryPlatformInfo True s);
            Pages = drop_bit 12 (hpi_PhysicalMemoryTop PlatformInfo);
            EstimatedPages = (if Pages = 0 then 4096 else Pages);
            Max = (ucast (EstimatedPages div 8) :: u32)
        in (KSTATUS_SUCCESS,
            s\<lparr>gCcPolicy := \<lparr>cc_MaxCachedPages = Max, cc_DirtyWritebackThresholdPages = Max div 4, cc_AggressiveTrim = 0\<rparr>,
              gCcReady := True\<rparr>))"

definition CcQueryPolicy :: "outptr \<Rightarrow> 'a EX_GLOBALS_scheme \<Rightarrow> KSTATUS + CC_POLICY" where
  "CcQueryPolicy OutPolicy s = (if \<not> OutPolicy \<or> \<not> gCcReady s then Inl KSTATUS_INVALID_PARAMETER else Inr (gCcPolicy s))"

subsection \<open>Assertions\<close>

definition NkWriteHexLine :: "string \<Rightarrow> u64 \<Rightarrow> string option" where
  "NkWriteHexLine Prefix Value = ObpWriteHexLine 128 Prefix Value"

text \<open>The text \<^verbatim>\<open>NkAssertFail\<close> prints before the machine stops.\<close>

definition NkAssertFail :: "string option \<Rightarrow> string option \<Rightarrow> u32 \<Rightarrow> string option \<Rightarrow> 'a PS_GLOBALS_scheme \<Rightarrow> string option" where
  "NkAssertFail Expression File Line Function s =
     (let nl = [CHR 0x0A]; txt = (\<lambda>p. case p of Some x \<Rightarrow> c_str x | None \<Rightarrow> ''<null>'') in do {
        l1 \<leftarrow> NkWriteHexLine ''[ASSERT] line='' (ucast Line);
        l2 \<leftarrow> (case PsGetCurrentProcess s of
                 Some p \<Rightarrow> NkWriteHexLine ''[ASSERT] pid='' (pr_ProcessId (gPsProcessPool s p)) | None \<Rightarrow> Some []);
        l3 \<leftarrow> (case PsGetCurrentThread s of
                 Some t \<Rightarrow> NkWriteHexLine ''[ASSERT] tid='' (th_ThreadId (gPsThreadPool s t)) | None \<Rightarrow> Some []);
        faults \<leftarrow> MmDumpRecentFaults s;
        Some (''[ASSERT] kernel assertion failed'' @ nl @ ''[ASSERT] expr: '' @ txt Expression @ nl @
          ''[ASSERT] file: '' @ txt File @ nl @ ''[ASSERT] func: '' @ txt Function @ nl @ l1 @ l2 @ l3 @ faults) })"

subsection \<open>The executive\<close>

definition LPC_OPCODE_BIND_ENDPOINT :: u32 where "LPC_OPCODE_BIND_ENDPOINT = LPC_OPCODE_BASE + 1"

text \<open>\<open>stack\<close> is what the 64 payload bytes of the local message hold before they are set; only four are.\<close>

definition bind_message :: "u8 list \<Rightarrow> NK_MESSAGE" where
  "bind_message stack = \<lparr>msg_Opcode = LPC_OPCODE_BIND_ENDPOINT, msg_Length = 4, msg_Payload = map of_char ''EXCT'' @ drop 4 stack\<rparr>"

definition ExInitializeHybridServices :: "u8 list \<Rightarrow> 'a EX_GLOBALS_scheme \<Rightarrow> KSTATUS \<times> 'a EX_GLOBALS_scheme" where
  "ExInitializeHybridServices stack s =
     (case NkServiceEndpointInitialize (Some (gExIpcServiceEndpoint s)) (Some ''ex.control'') 0x2000 0 s of
        ((Status, ep), s1) \<Rightarrow>
          let s2 = s1\<lparr>gExIpcServiceEndpoint := the ep\<rparr> in
          if Status \<noteq> KSTATUS_SUCCESS then (Status, s2)
          else case LpcGetSystemEndpoint True s2 of
            Inl Status \<Rightarrow> (Status, s2)
          | Inr LpcEndpoint \<Rightarrow>
              (case NkServiceSend (Some LpcEndpoint) (Some (bind_message stack)) of
                 (Status, ep') \<Rightarrow> (Status, s2\<lparr>gLpcSystemEndpoint := the ep'\<rparr>)))"

datatype EX_MODULE_INITIALIZE_ROUTINE =
    ObInitialize_ptr | SeInitialize_ptr | MmInitialize_ptr | CcInitialize_ptr | IoInitialize_ptr | PsInitialize_ptr | LpcInitialize_ptr

record EX_MODULE_DESCRIPTOR =
  mod_Name :: string
  mod_Initialize :: EX_MODULE_INITIALIZE_ROUTINE
  mod_Flags :: u32

definition gExBootModules :: "EX_MODULE_DESCRIPTOR list" where
  "gExBootModules = map (\<lambda>(n, r). \<lparr>mod_Name = n, mod_Initialize = r, mod_Flags = 0\<rparr>)
     [(''OB'', ObInitialize_ptr), (''SE'', SeInitialize_ptr), (''MM'', MmInitialize_ptr), (''CC'', CcInitialize_ptr),
      (''IO'', IoInitialize_ptr), (''PS'', PsInitialize_ptr), (''LPC'', LpcInitialize_ptr)]"

fun run_initialize :: "EX_MODULE_INITIALIZE_ROUTINE \<Rightarrow> 'a EX_GLOBALS_scheme \<Rightarrow> (KSTATUS \<times> 'a EX_GLOBALS_scheme) option" where
  "run_initialize ObInitialize_ptr s = Some (ObInitialize s)"
| "run_initialize SeInitialize_ptr s = Some (SeInitialize s)"
| "run_initialize MmInitialize_ptr s = Some (MmInitialize s)"
| "run_initialize CcInitialize_ptr s = Some (CcInitialize s)"
| "run_initialize IoInitialize_ptr s = Some (IoInitialize s)"
| "run_initialize PsInitialize_ptr s = PsInitialize s"
| "run_initialize LpcInitialize_ptr s = Some (LpcInitialize s)"

text \<open>The loop over the modules: \<open>KSTATUS_SUCCESS\<close> when none failed.\<close>

fun init_modules :: "EX_MODULE_DESCRIPTOR list \<Rightarrow> 'a EX_GLOBALS_scheme \<Rightarrow> (KSTATUS \<times> 'a EX_GLOBALS_scheme) option" where
  "init_modules [] s = Some (KSTATUS_SUCCESS, s)"
| "init_modules (m # ms) s = do {
     (Status, s1) \<leftarrow> run_initialize (mod_Initialize m) s;
     if Status \<noteq> KSTATUS_SUCCESS \<and> Status \<noteq> KSTATUS_ALREADY_INITIALIZED then Some (Status, s1) else init_modules ms s1 }"

definition ExInitializeExecutive :: "u8 list \<Rightarrow> 'a EX_GLOBALS_scheme \<Rightarrow> (KSTATUS \<times> 'a EX_GLOBALS_scheme) option" where
  "ExInitializeExecutive stack s = do {
     (Status, s1) \<leftarrow> init_modules gExBootModules s;
     if Status \<noteq> KSTATUS_SUCCESS then Some (Status, s1) else Some (ExInitializeHybridServices stack s1) }"

section \<open>Starting the modules\<close>

text \<open>The unused types.\<close>

definition free_types :: "(nat \<Rightarrow> bool) \<Rightarrow> nat" where
  "free_types used = card {i. i < OB_MAX_OBJECTS \<and> \<not> used i}"

lemma free_types_upd: "free_types used \<le> Suc (free_types (used(k := True)))"
proof -
  have "{i. i < OB_MAX_OBJECTS \<and> \<not> used i} \<subseteq> insert k {i. i < OB_MAX_OBJECTS \<and> \<not> (used(k := True)) i}" by auto
  from card_mono [OF _ this] show ?thesis by (simp add: free_types_def card_insert_if split: if_splits)
qed

lemma free_types_scan:
  assumes "0 < free_types used"
  obtains k where "scan (\<lambda>i. \<not> used i) 0 OB_MAX_OBJECTS = Some k" "k < OB_MAX_OBJECTS" "\<not> used k"
proof -
  have "{i. i < OB_MAX_OBJECTS \<and> \<not> used i} \<noteq> {}" using assms unfolding free_types_def by (metis card.empty less_irrefl)
  then obtain k where "scan (\<lambda>i. \<not> used i) 0 OB_MAX_OBJECTS = Some k" using scan_total [of "\<lambda>i. \<not> used i"] by blast
  then show thesis using that scan0_SomeD by blast
qed

lemma free_types_two: "2 \<le> free_types used \<Longrightarrow> two_free used OB_MAX_OBJECTS"
proof -
  assume two: "2 \<le> free_types used"
  then have "0 < free_types used" by simp
  then obtain i where i: "i < OB_MAX_OBJECTS" "\<not> used i" by (rule free_types_scan)
  have "0 < free_types (used(i := True))" using two free_types_upd [of used i] by linarith
  then obtain j where j: "j < OB_MAX_OBJECTS" "\<not> (used(i := True)) j" by (rule free_types_scan)
  then have "i \<noteq> j" "\<not> used j" by (auto split: if_splits)
  then show ?thesis using i j(1) unfolding two_free_def by (cases "i < j") (blast, metis nat_neq_iff)
qed

lemma ob_initialize_ok:
  assumes "\<not> gObReady s"
  obtains ty ob ht n where "ObInitialize s = (KSTATUS_SUCCESS,
      s\<lparr>gObTypeInUse := ty, gObObjectInUse := ob, gObKernelHandleTable := ht, gObNextObjectId := n, gObReady := True\<rparr>)"
    "free_types ty = OB_MAX_OBJECTS" "two_free ob OB_MAX_OBJECTS"
proof -
  have "free_types (array_fill OB_MAX_OBJECTS False f) = OB_MAX_OBJECTS" for f
  proof -
    have "{i. i < OB_MAX_OBJECTS \<and> \<not> array_fill OB_MAX_OBJECTS False f i} = {..<OB_MAX_OBJECTS}" by auto
    then show ?thesis by (simp add: free_types_def)
  qed
  moreover have "two_free (array_fill OB_MAX_OBJECTS False f) OB_MAX_OBJECTS" for f
    unfolding two_free_def by (intro exI [of _ 0] exI [of _ 1]) (simp add: OB_MAX_OBJECTS_def)
  ultimately show thesis using assms that by (simp add: ObInitialize_def)
qed

lemma boot_file_same: "\<exists>bf. s = s\<lparr>gIoBootFiles := bf\<rparr>"
  by (intro exI [of _ "gIoBootFiles s"]) simp

lemma register_boot_file_shape: "\<exists>bf. snd (IoRegisterBootFile p d n s) = s\<lparr>gIoBootFiles := bf\<rparr>"
  using boot_file_same [of s]
  by (auto simp: IoRegisterBootFile_def set_boot_file_def Let_def split: option.splits prod.splits)

lemma boot_file_shape:
  "\<exists>bf. (case x of None \<Rightarrow> s | Some (a, bi) \<Rightarrow> if P bi then snd (IoRegisterBootFile p (d bi) (n bi) s) else s) = s\<lparr>gIoBootFiles := bf\<rparr> \<and>
     ((\<forall>a bi. x = Some (a, bi) \<longrightarrow> \<not> P bi) \<longrightarrow> bf = gIoBootFiles s)"
proof (cases "\<exists>a bi. x = Some (a, bi) \<and> P bi")
  case True
  then obtain a bi where x: "x = Some (a, bi)" "P bi" by blast
  with register_boot_file_shape [of p "d bi" "n bi" s] show ?thesis by simp
next
  case False
  then show ?thesis by (intro exI [of _ "gIoBootFiles s"]) (auto split: option.splits)
qed

text \<open>The loader passed an image of the first user program.\<close>

definition init_image :: "BOOT_INFO \<Rightarrow> bool" where
  "init_image bi \<longleftrightarrow> bi_Flags bi AND BOOTINFO_FLAG_INIT_IMAGE_PRESENT \<noteq> 0 \<and> bi_InitImageBase bi \<noteq> 0 \<and> bi_InitImageSize bi \<noteq> 0"

definition boot_files_empty :: "'a IO_GLOBALS_scheme \<Rightarrow> bool" where
  "boot_files_empty s \<longleftrightarrow> (\<forall>i<IO_MAX_BOOT_FILES. \<not> bf_InUse (gIoBootFiles s i))"

lemma io_initialize_ok:
  assumes "\<not> gIoReady s" "gObReady s" "0 < free_types (gObTypeInUse s)" "gNkBootInfo s = Some (a, bi)"
  obtains k tp fi bf where "IoInitialize s = (KSTATUS_SUCCESS,
      s\<lparr>gObTypeInUse := (gObTypeInUse s)(k := True), gObTypePool := tp, gIoFileType := Some k, gIoFileInUse := fi, gIoBootFiles := bf,
        gIoReady := True\<rparr>)" "init_image bi \<or> (\<forall>i<IO_MAX_BOOT_FILES. \<not> bf_InUse (bf i))"
proof -
  obtain k where k: "scan (\<lambda>i. \<not> gObTypeInUse s i) 0 OB_MAX_OBJECTS = Some k" using free_types_scan [OF assms(3)] .
  define s1 where "s1 = s\<lparr>gIoFileInUse := array_fill IO_MAX_FILE_OBJECTS False (gIoFileInUse s),
                   gIoBootFiles := (\<lambda>i. if i < IO_MAX_BOOT_FILES
                      then \<lparr>bf_Path = (bf_Path (gIoBootFiles s i))[0 := NUL], bf_Data = None, bf_Size = 0, bf_InUse = False\<rparr>
                      else gIoBootFiles s i)\<rparr>"
  obtain tp where "ObCreateType (Some ''File'') (Some IopDeleteFileObject_ptr) True s1 =
      (Inr k, s1\<lparr>gObTypeInUse := (gObTypeInUse s1)(k := True), gObTypePool := tp\<rparr>)"
    using create_type_ok [of s1 k] assms(2) k by (auto simp: s1_def)
  moreover define s3 where "s3 = s1\<lparr>gObTypeInUse := (gObTypeInUse s1)(k := True), gObTypePool := tp, gIoFileType := Some k, gIoReady := True\<rparr>"
  ultimately have "IoInitialize s = (KSTATUS_SUCCESS, case NkGetBootInfo s3 of None \<Rightarrow> s3
      | Some (a, bi) \<Rightarrow> if init_image bi
          then snd (IoRegisterBootFile (Some init_kpe_path) (Some (bi_InitImageBase bi)) (bi_InitImageSize bi) s3) else s3)"
    using assms(1) by (simp only: IoInitialize_def s1_def [symmetric] Let_def if_False prod.case sum.case init_image_def)
  moreover obtain bf where bf: "(case NkGetBootInfo s3 of None \<Rightarrow> s3
      | Some (a, bi) \<Rightarrow> if init_image bi
          then snd (IoRegisterBootFile (Some init_kpe_path) (Some (bi_InitImageBase bi)) (bi_InitImageSize bi) s3) else s3) = s3\<lparr>gIoBootFiles := bf\<rparr>"
      "(\<forall>a bi. NkGetBootInfo s3 = Some (a, bi) \<longrightarrow> \<not> init_image bi) \<longrightarrow> bf = gIoBootFiles s3"
    using boot_file_shape [where x = "NkGetBootInfo s3" and s = s3 and d = "\<lambda>bi. Some (bi_InitImageBase bi)" and n = bi_InitImageSize
        and p = "Some init_kpe_path" and P = init_image] by blast
  moreover have "init_image bi \<or> (\<forall>i<IO_MAX_BOOT_FILES. \<not> bf_InUse (bf i))"
    using bf(2) assms(4) by (auto simp: s3_def s1_def NkGetBootInfo_def)
  ultimately show thesis
    using that [where k = k and tp = tp and fi = "array_fill IO_MAX_FILE_OBJECTS False (gIoFileInUse s)" and bf = bf] by (simp add: s3_def s1_def)
qed

text \<open>Endpoints in the zeroed state: their arrays have the declared sizes.\<close>

definition endpoint_shape :: "NK_SERVICE_ENDPOINT \<Rightarrow> bool" where
  "endpoint_shape ep \<longleftrightarrow> length (ep_Name ep) = 32 \<and> length (port_Queue (ep_Port ep)) = 32"

definition fresh_endpoint :: "NK_SERVICE_ENDPOINT \<Rightarrow> string \<Rightarrow> u32 \<Rightarrow> NK_SERVICE_ENDPOINT" where
  "fresh_endpoint ep nm base = ep\<lparr>ep_Name := NkCopyServiceName 0 (NK_SERVICE_NAME_MAX + 1) (ep_Name ep) nm, ep_BaseOpcode := base, ep_Flags := 0,
     ep_Port := (ep_Port ep)\<lparr>port_Queue := map (\<lambda>m. m\<lparr>msg_Opcode := 0, msg_Length := 0\<rparr>) (port_Queue (ep_Port ep)),
       port_Head := 0, port_Tail := 0, port_Count := 0\<rparr>\<rparr>"

lemma endpoint_initialize:
  "base \<noteq> 0 \<Longrightarrow> NkServiceEndpointInitialize (Some ep) (Some nm) base 0 s = ((KSTATUS_SUCCESS, Some (fresh_endpoint ep nm base)),
     s\<lparr>gNkPortCount := gNkPortCount s + 1, gNkServiceEndpointCount := gNkServiceEndpointCount s + 1\<rparr>)"
  by (simp add: NkServiceEndpointInitialize_def NkPortInitialize_def Let_def fresh_endpoint_def)

lemma fresh_endpoint_port:
  assumes "endpoint_shape ep"
  shows "port_wf (ep_Port (fresh_endpoint ep nm base))" "port_contents (ep_Port (fresh_endpoint ep nm base)) = []"
  using assms by (simp_all add: fresh_endpoint_def endpoint_shape_def port_wf_def port_contents_def)

lemma lpc_initialize_ok:
  assumes "\<not> gLpcReady s" "gObReady s" "0 < free_types (gObTypeInUse s)"
  obtains k tp pi where "LpcInitialize s = (KSTATUS_SUCCESS,
      s\<lparr>gNkPortCount := gNkPortCount s + 1, gNkServiceEndpointCount := gNkServiceEndpointCount s + 1,
        gObTypeInUse := (gObTypeInUse s)(k := True), gObTypePool := tp, gLpcPortInUse := pi,
        gLpcSystemEndpoint := fresh_endpoint (gLpcSystemEndpoint s) ''lpc.system'' LPC_OPCODE_BASE, gLpcPortType := Some k, gLpcReady := True\<rparr>)"
proof -
  obtain k where k: "scan (\<lambda>i. \<not> gObTypeInUse s i) 0 OB_MAX_OBJECTS = Some k" using free_types_scan [OF assms(3)] .
  define s3 where "s3 = s\<lparr>gLpcPortInUse := array_fill LPC_MAX_PORT_OBJECTS False (gLpcPortInUse s), gNkPortCount := gNkPortCount s + 1,
    gNkServiceEndpointCount := gNkServiceEndpointCount s + 1,
    gLpcSystemEndpoint := fresh_endpoint (gLpcSystemEndpoint s) ''lpc.system'' LPC_OPCODE_BASE\<rparr>"
  obtain tp where c: "ObCreateType (Some ''LpcPort'') (Some LpcpDeletePortObject_ptr) True s3 =
      (Inr k, s3\<lparr>gObTypeInUse := (gObTypeInUse s3)(k := True), gObTypePool := tp\<rparr>)"
    using create_type_ok [of s3 k] assms(2) k by (auto simp: s3_def)
  have b: "LPC_OPCODE_BASE \<noteq> 0" by (simp add: LPC_OPCODE_BASE_def)
  have "LpcInitialize s = (KSTATUS_SUCCESS, s3\<lparr>gObTypeInUse := (gObTypeInUse s3)(k := True), gObTypePool := tp, gLpcPortType := Some k, gLpcReady := True\<rparr>)"
    using assms(1) c by (simp add: LpcInitialize_def Let_def endpoint_initialize [OF b] s3_def)
  then show thesis
    using that [where k = k and tp = tp and pi = "array_fill LPC_MAX_PORT_OBJECTS False (gLpcPortInUse s)"] by (simp add: s3_def)
qed

lemma hybrid_ok:
  assumes "gLpcReady s" "port_wf (ep_Port (gLpcSystemEndpoint s))" "port_contents (ep_Port (gLpcSystemEndpoint s)) = []"
  obtains e n m c where "ExInitializeHybridServices stack s = (KSTATUS_SUCCESS,
      s\<lparr>gNkPortCount := n, gNkServiceEndpointCount := m, gExIpcServiceEndpoint := c, gLpcSystemEndpoint := e\<rparr>)"
    "port_contents (ep_Port e) = [bind_message stack]"
proof -
  let ?p = "ep_Port (gLpcSystemEndpoint s)"
  have v: "msg_valid (bind_message stack)" by (simp add: msg_valid_def bind_message_def NK_MESSAGE_PAYLOAD_BYTES_def)
  have c: "unat (port_Count ?p) < 32" using assms(3) by (metis length_0_conv length_port_contents zero_less_numeral)
  obtain q where "snd (NkPortSend (Some ?p) (Some (bind_message stack))) = Some q" by (cases "snd (NkPortSend (Some ?p) (Some (bind_message stack)))")
    (simp_all add: NkPortSend_def split: if_splits)
  then have q: "NkPortSend (Some ?p) (Some (bind_message stack)) = (KSTATUS_SUCCESS, Some q)" "port_contents q = [bind_message stack]"
    using port_send_ok [OF assms(2) v c] assms(3) by (simp_all add: port_send_def split_beta prod_eq_iff)
  then show thesis
    using assms(1) by (intro that, simp add: ExInitializeHybridServices_def endpoint_initialize LpcGetSystemEndpoint_def NkServiceSend_def Let_def) simp
qed

section \<open>The memory map does not depend on the executive\<close>

text \<open>What the marking of the boot memory map reads and writes.\<close>

definition phys_view :: "'a MM_GLOBALS_scheme \<Rightarrow> u32 \<times> (nat \<Rightarrow> u64) \<times> (u64 \<Rightarrow> PHYSICAL_MEMORY_RANGE)" where
  "phys_view s = (gMmTrackedPages s, gMmPageBitmap s, hw_ranges s)"

lemma phys_view_mark:
  fixes s :: "'a MM_GLOBALS_scheme" and t :: "'b MM_GLOBALS_scheme"
  assumes "phys_view s = phys_view t"
  shows "phys_view (MmpMarkRange b l a s) = phys_view (MmpMarkRange b l a t)"
proof -
  have "phys_view (MmpMarkRange_loop p a k u) = phys_view (MmpMarkRange_loop p a k v)" if "phys_view u = phys_view v"
    for p k and u :: "'a MM_GLOBALS_scheme" and v :: "'b MM_GLOBALS_scheme"
    using that
  proof (induction k arbitrary: p u v)
    case (Suc k)
    have "phys_view (if a then MmpSetPageAllocated (ucast p) u else MmpSetPageFree (ucast p) u) =
        phys_view (if a then MmpSetPageAllocated (ucast p) v else MmpSetPageFree (ucast p) v)"
      using Suc.prems by (simp add: phys_view_def MmpSetPageAllocated_def MmpSetPageFree_def Let_def)
    from Suc.IH [OF this] Suc.prems show ?case by (simp add: phys_view_def)
  qed simp
  with assms show ?thesis by (auto simp: MmpMarkRange_def Let_def phys_view_def)
qed

lemma phys_view_usable:
  fixes s :: "'a MM_GLOBALS_scheme" and t :: "'b MM_GLOBALS_scheme"
  assumes "phys_view s = phys_view t"
  shows "phys_view (MmpMarkUsable_loop c e k s) = phys_view (MmpMarkUsable_loop c e k t)"
  using assms
proof (induction k arbitrary: c s t)
  case (Suc k)
  have r: "hw_ranges s c = hw_ranges t c" using Suc.prems by (simp add: phys_view_def)
  have "phys_view (if MmpIsRangeUsable (Some (hw_ranges s c)) then MmpMarkRange (pmr_Base (hw_ranges s c)) (pmr_Length (hw_ranges s c)) False s else s) =
      phys_view (if MmpIsRangeUsable (Some (hw_ranges t c)) then MmpMarkRange (pmr_Base (hw_ranges t c)) (pmr_Length (hw_ranges t c)) False t else t)"
    using Suc.prems phys_view_mark [OF Suc.prems] by (simp add: r)
  from Suc.IH [OF this] show ?case by (simp only: MmpMarkUsable_loop.simps Let_def)
qed simp

lemma boot_marked_cong:
  fixes s :: "'a MM_GLOBALS_scheme" and t :: "'b MM_GLOBALS_scheme"
  assumes "gMmPageBitmap s = gMmPageBitmap t" "hw_ranges s = hw_ranges t" "gHalPlatformInfo s = gHalPlatformInfo t"
  shows "free_pages (boot_marked a bi s) = free_pages (boot_marked a bi t)"
proof -
  have "phys_view (MmInitialize_reset bi s) = phys_view (MmInitialize_reset bi t)"
    using assms by (simp add: phys_view_def MmInitialize_reset_def HalQueryPlatformInfo_def Let_def)
  then have "phys_view (boot_marked a bi s) = phys_view (boot_marked a bi t)"
    by (auto simp: boot_marked_def MmpReserveBootCriticalRanges_def MmpMarkUsableFromBootInfo_def Let_def intro!: phys_view_mark phys_view_usable)
  then show ?thesis by (simp add: phys_view_def free_pages_def page_alloc_def)
qed

section \<open>The whole start\<close>

text \<open>The state a cold start begins in: nothing is initialised, threads are zeroed (\<open>PsThreadReady\<close> is 0), and the arrays
  of the system endpoint have their declared sizes.\<close>

definition cold :: "'a EX_GLOBALS_scheme \<Rightarrow> bool" where
  "cold s \<longleftrightarrow> \<not> gObReady s \<and> \<not> gSeReady s \<and> \<not> gMmReady s \<and> \<not> gCcReady s \<and> \<not> gIoReady s \<and> \<not> gPsReady s \<and> \<not> gLpcReady s \<and>
     endpoint_shape (gLpcSystemEndpoint s) \<and> (\<forall>t. th_State (thread s t) = PsThreadReady)"

lemma above_mm:
  fixes s t :: "'a EX_GLOBALS_scheme"
  assumes "MM_GLOBALS.more s = MM_GLOBALS.more t"
  shows "gPsReady s = gPsReady t" "gPsThreadPool s = gPsThreadPool t" "PS_GLOBALS.more s = PS_GLOBALS.more t"
  using assms by (cases s rule: EX_GLOBALS.cases_scheme, cases t rule: EX_GLOBALS.cases_scheme, simp)+

lemma above_ps:
  fixes s t :: "'a EX_GLOBALS_scheme"
  assumes "PS_GLOBALS.more s = PS_GLOBALS.more t"
  shows "gLpcReady s = gLpcReady t" "gLpcSystemEndpoint s = gLpcSystemEndpoint t" "gIoReady s = gIoReady t" "gSeReady s = gSeReady t"
    "gCcReady s = gCcReady t" "gIoBootFiles s = gIoBootFiles t"
  using assms by (cases s rule: EX_GLOBALS.cases_scheme, cases t rule: EX_GLOBALS.cases_scheme, simp)+

lemma memory_up:
  fixes s :: "'a EX_GLOBALS_scheme"
  assumes "cold s" and "gNkBootInfo s = Some (a, bi)" and "bi_Magic bi = BOOTINFO_MAGIC"
    and "4 \<le> free_pages (boot_marked a bi s)" and "hw_cr3 s AND MM_PTE_ADDR_MASK \<noteq> 0"
  obtains s1 s2 s3 where "ObInitialize s = (KSTATUS_SUCCESS, s1)" "SeInitialize s1 = (KSTATUS_SUCCESS, s2)"
    "MmInitialize s2 = (KSTATUS_SUCCESS, s3)" "gObReady s3" "4 \<le> free_types (gObTypeInUse s3)" "two_free (gObObjectInUse s3) OB_MAX_OBJECTS"
    "mm_resources s3" "gHalPageFaultRoutine s3 = Some MmpOnPageFault_ptr"
    "MM_GLOBALS.more s3 = MM_GLOBALS.more (s\<lparr>gSeDefaultPrivilegeMask := 15, gSeReady := True\<rparr>)" "gNkBootInfo s3 = Some (a, bi)"
proof -
  have c: "\<not> gObReady s" "\<not> gSeReady s" "\<not> gMmReady s" using assms(1) by (simp_all add: cold_def)
  obtain ty ob ht n where o: "ObInitialize s = (KSTATUS_SUCCESS,
      s\<lparr>gObTypeInUse := ty, gObObjectInUse := ob, gObKernelHandleTable := ht, gObNextObjectId := n, gObReady := True\<rparr>)"
    "free_types ty = OB_MAX_OBJECTS" "two_free ob OB_MAX_OBJECTS" using ob_initialize_ok [OF c(1)] .
  define s1 where "s1 = s\<lparr>gObTypeInUse := ty, gObObjectInUse := ob, gObKernelHandleTable := ht, gObNextObjectId := n, gObReady := True\<rparr>"
  define s2 where "s2 = s1\<lparr>gSeDefaultPrivilegeMask := 15, gSeReady := True\<rparr>"
  have se: "SeInitialize s1 = (KSTATUS_SUCCESS, s2)" using c(2) by (simp add: SeInitialize_def s2_def s1_def)
  have f: "\<not> gMmReady s2" "gNkBootInfo s2 = Some (a, bi)" "hw_cr3 s2 AND MM_PTE_ADDR_MASK \<noteq> 0" "gObReady s2" "gObTypeInUse s2 = ty"
    "gObObjectInUse s2 = ob" using c(3) assms(2,5) by (simp_all add: s2_def s1_def)
  have mo: "MM_GLOBALS.more s2 = MM_GLOBALS.more (s\<lparr>gSeDefaultPrivilegeMask := 15, gSeReady := True\<rparr>)"
    unfolding s2_def s1_def by (cases s rule: EX_GLOBALS.cases_scheme) simp
  have fp: "free_pages (boot_marked a bi s2) = free_pages (boot_marked a bi s)" by (rule boot_marked_cong) (simp_all add: s2_def s1_def)
  have "0 < free_types ty" using o(2) by (simp add: OB_MAX_OBJECTS_def)
  then obtain ti where ti: "ti < OB_MAX_OBJECTS" "\<not> gObTypeInUse s2 ti" unfolding f(5) by (rule free_types_scan)
  have three: "3 \<le> free_pages (boot_marked a bi s2)" using assms(4) fp by simp
  obtain s3 k tp where m: "MmInitialize s2 = (KSTATUS_SUCCESS, s3)" "pages_wf s3" "gMmReady s3" "gMmKernelRootTablePhysical s3 \<noteq> 0"
    "gHalPageFaultRoutine s3 = Some MmpOnPageFault_ptr" "free_pages (boot_marked a bi s2) \<le> free_pages s3 + 3"
    "ob_part s3 = ob_part (s2\<lparr>gObTypeInUse := (gObTypeInUse s2)(k := True), gObTypePool := tp\<rparr>)"
    "boot_rest s3 = boot_rest (MmInitialize_reset bi s2)"
    by (rule initialize_ok [OF f(1,2) assms(3) three f(3,4) ti])
  have as: "\<not> gMmAddressSpaceInUse s3 0" "MM_GLOBALS.more s3 = MM_GLOBALS.more s2" "gNkBootInfo s3 = Some (a, bi)"
    using m(8) f(2) by (simp_all add: boot_rest_def MmInitialize_reset_def Let_def MM_MAX_ADDRESS_SPACES_def)
  have r: "mm_resources s3"
    using m(2-4,6) assms(4) fp as(1) by (auto simp: mm_resources_def MM_MAX_ADDRESS_SPACES_def intro: exI [of _ 0])
  have ob: "gObReady s3" "gObTypeInUse s3 = ty(k := True)" "gObObjectInUse s3 = ob" using m(7) f(4-6) by (simp_all add: ob_part_def)
  have "4 \<le> free_types (gObTypeInUse s3)" using free_types_upd [of ty k] o(2) by (simp add: ob(2) OB_MAX_OBJECTS_def)
  then show thesis using that [of s1 s2 s3] o(1,3) se m(1,5) ob as(2,3) mo r by (simp add: s1_def)
qed

lemma processes_up:
  fixes s :: "'a EX_GLOBALS_scheme"
  assumes "\<not> gPsReady s" "gObReady s" "3 \<le> free_types (gObTypeInUse s)" "two_free (gObObjectInUse s) OB_MAX_OBJECTS"
    "mm_resources s" "\<forall>t. th_State (thread s t) = PsThreadReady" "\<not> gLpcReady s" "endpoint_shape (gLpcSystemEndpoint s)"
  obtains u t where "PsInitialize s = Some (KSTATUS_SUCCESS, u)" "LpcInitialize u = (KSTATUS_SUCCESS, t)" "gObReady t" "gMmReady t" "gLpcReady t"
    "sched t []" "gPsCurrentThread t = Some 0" "gHalTimerTickRoutine t = Some PsOnTimerTick_ptr"
    "gHalPageFaultRoutine t = gHalPageFaultRoutine s" "gIoReady t = gIoReady s" "gSeReady t = gSeReady s" "gCcReady t = gCcReady s"
    "gIoBootFiles t = gIoBootFiles s" "gNkBootInfo t = gNkBootInfo s" "port_wf (ep_Port (gLpcSystemEndpoint t))" "port_contents (ep_Port (gLpcSystemEndpoint t)) = []"
proof -
  have two: "two_free (gObTypeInUse s) OB_MAX_OBJECTS" using assms(3) by (intro free_types_two) simp
  obtain k l u where p: "PsInitialize s = Some (KSTATUS_SUCCESS, u)" "sched u []" "gPsCurrentThread u = Some 0"
    "gHalTimerTickRoutine u = Some PsOnTimerTick_ptr" "ps_rest u = ps_rest (s\<lparr>gObTypeInUse := (gObTypeInUse s)(k := True, l := True)\<rparr>)"
    by (rule ps_initialize_ok [OF assms(1,2) two assms(4-6)])
  have r: "gObReady u" "gObTypeInUse u = (gObTypeInUse s)(k := True, l := True)" "gMmReady u" "gHalPageFaultRoutine u = gHalPageFaultRoutine s"
    "PS_GLOBALS.more u = PS_GLOBALS.more (s\<lparr>gObTypeInUse := (gObTypeInUse s)(k := True, l := True)\<rparr>)" "gNkBootInfo u = gNkBootInfo s"
    using p(5) assms(2,5) by (simp_all add: ps_rest_def mm_resources_def)
  have q: "\<not> gLpcReady u" "endpoint_shape (gLpcSystemEndpoint u)" "gIoReady u = gIoReady s" "gSeReady u = gSeReady s" "gCcReady u = gCcReady s"
    "gIoBootFiles u = gIoBootFiles s" using above_ps [OF r(5)] assms(7,8) by simp_all
  have "0 < free_types (gObTypeInUse u)"
    using free_types_upd [of "gObTypeInUse s" k] free_types_upd [of "(gObTypeInUse s)(k := True)" l] assms(3) by (simp add: r(2))
  then obtain x y z where l: "LpcInitialize u = (KSTATUS_SUCCESS,
      u\<lparr>gNkPortCount := gNkPortCount u + 1, gNkServiceEndpointCount := gNkServiceEndpointCount u + 1,
        gObTypeInUse := (gObTypeInUse u)(x := True), gObTypePool := y, gLpcPortInUse := z,
        gLpcSystemEndpoint := fresh_endpoint (gLpcSystemEndpoint u) ''lpc.system'' LPC_OPCODE_BASE, gLpcPortType := Some x, gLpcReady := True\<rparr>)"
    by (rule lpc_initialize_ok [OF q(1) r(1)])
  then show thesis
    using p(2-4) q(3-6) r(1,3,4,6) fresh_endpoint_port [OF q(2)] by (intro that [OF p(1) l]) (simp_all add: sched_def runnable_def)
qed

lemma executive_modules_ok:
  fixes s :: "'a EX_GLOBALS_scheme"
  assumes "cold s" and "gNkBootInfo s = Some (a, bi)" and "bi_Magic bi = BOOTINFO_MAGIC"
    and "4 \<le> free_pages (boot_marked a bi s)" and "hw_cr3 s AND MM_PTE_ADDR_MASK \<noteq> 0"
  obtains t where "init_modules gExBootModules s = Some (KSTATUS_SUCCESS, t)" "gObReady t" "gSeReady t" "gMmReady t" "gCcReady t" "gIoReady t"
    "gLpcReady t" "sched t []" "gPsCurrentThread t = Some 0" "gHalTimerTickRoutine t = Some PsOnTimerTick_ptr"
    "gHalPageFaultRoutine t = Some MmpOnPageFault_ptr" "init_image bi \<or> boot_files_empty t" "gNkBootInfo t = Some (a, bi)" "port_wf (ep_Port (gLpcSystemEndpoint t))"
    "port_contents (ep_Port (gLpcSystemEndpoint t)) = []"
proof -
  obtain s1 s2 s3 where i: "ObInitialize s = (KSTATUS_SUCCESS, s1)" "SeInitialize s1 = (KSTATUS_SUCCESS, s2)" "MmInitialize s2 = (KSTATUS_SUCCESS, s3)"
    and f3: "gObReady s3" "4 \<le> free_types (gObTypeInUse s3)" "two_free (gObObjectInUse s3) OB_MAX_OBJECTS"
    "mm_resources s3" "gHalPageFaultRoutine s3 = Some MmpOnPageFault_ptr"
    and mo: "MM_GLOBALS.more s3 = MM_GLOBALS.more (s\<lparr>gSeDefaultPrivilegeMask := 15, gSeReady := True\<rparr>)" "gNkBootInfo s3 = Some (a, bi)"
    by (rule memory_up [OF assms])
  note k = above_mm [OF mo(1)] above_ps [OF above_mm(3) [OF mo(1)]]
  obtain pol where i4: "CcInitialize s3 = (KSTATUS_SUCCESS, s3\<lparr>gCcPolicy := pol, gCcReady := True\<rparr>)"
    using assms(1) k by (simp add: CcInitialize_def cold_def Let_def)
  define s4 where "s4 = s3\<lparr>gCcPolicy := pol, gCcReady := True\<rparr>"
  have f4: "\<not> gIoReady s4" "gObReady s4" "0 < free_types (gObTypeInUse s4)" "gNkBootInfo s4 = Some (a, bi)"
    using assms(1) k f3 mo(2) by (simp_all add: s4_def cold_def)
  obtain ty tp fi bf where i5: "IoInitialize s4 = (KSTATUS_SUCCESS,
      s4\<lparr>gObTypeInUse := (gObTypeInUse s4)(ty := True), gObTypePool := tp, gIoFileType := Some ty, gIoFileInUse := fi, gIoBootFiles := bf,
        gIoReady := True\<rparr>)" "init_image bi \<or> (\<forall>i<IO_MAX_BOOT_FILES. \<not> bf_InUse (bf i))" by (rule io_initialize_ok [OF f4])
  define s5 where "s5 = s4\<lparr>gObTypeInUse := (gObTypeInUse s4)(ty := True), gObTypePool := tp, gIoFileType := Some ty, gIoFileInUse := fi,
    gIoBootFiles := bf, gIoReady := True\<rparr>"
  have "3 \<le> free_types (gObTypeInUse s5)" using free_types_upd [of "gObTypeInUse s3" ty] f3(2) by (simp add: s5_def s4_def)
  then have p5: "\<not> gPsReady s5" "gObReady s5" "3 \<le> free_types (gObTypeInUse s5)" "two_free (gObObjectInUse s5) OB_MAX_OBJECTS"
    "mm_resources s5" "\<forall>t. th_State (thread s5 t) = PsThreadReady" "\<not> gLpcReady s5" "endpoint_shape (gLpcSystemEndpoint s5)"
    using assms(1) k f3 by (simp_all add: s5_def s4_def cold_def mm_resources_def pages_wf_def free_pages_def page_alloc_def)
  obtain u t where p6: "PsInitialize s5 = Some (KSTATUS_SUCCESS, u)" "LpcInitialize u = (KSTATUS_SUCCESS, t)"
    and f6: "gObReady t" "gMmReady t" "gLpcReady t"
    "sched t []" "gPsCurrentThread t = Some 0" "gHalTimerTickRoutine t = Some PsOnTimerTick_ptr"
    "gHalPageFaultRoutine t = gHalPageFaultRoutine s5" "gIoReady t = gIoReady s5" "gSeReady t = gSeReady s5" "gCcReady t = gCcReady s5"
    "gIoBootFiles t = gIoBootFiles s5" "gNkBootInfo t = gNkBootInfo s5" "port_wf (ep_Port (gLpcSystemEndpoint t))" "port_contents (ep_Port (gLpcSystemEndpoint t)) = []" by (rule processes_up [OF p5])
  have "init_modules gExBootModules s = Some (KSTATUS_SUCCESS, t)"
    using i i4 i5(1) p6 by (simp add: gExBootModules_def s4_def [symmetric] s5_def [symmetric])
  then show thesis using that f6 f3(5) k i5(2) f4(4) by (simp add: s5_def s4_def boot_files_empty_def)
qed

lemma executive_ok:
  fixes s :: "'a EX_GLOBALS_scheme"
  assumes "cold s" and "gNkBootInfo s = Some (a, bi)" and "bi_Magic bi = BOOTINFO_MAGIC"
    and "4 \<le> free_pages (boot_marked a bi s)" and "hw_cr3 s AND MM_PTE_ADDR_MASK \<noteq> 0"
  obtains t where "ExInitializeExecutive stack s = Some (KSTATUS_SUCCESS, t)" "gObReady t" "gSeReady t" "gMmReady t" "gCcReady t" "gIoReady t"
    "gLpcReady t" "sched t []" "gPsCurrentThread t = Some 0" "gHalTimerTickRoutine t = Some PsOnTimerTick_ptr"
    "gHalPageFaultRoutine t = Some MmpOnPageFault_ptr" "init_image bi \<or> boot_files_empty t" "gNkBootInfo t = Some (a, bi)"
    "port_contents (ep_Port (gLpcSystemEndpoint t)) = [bind_message stack]"
proof -
  obtain u where u: "init_modules gExBootModules s = Some (KSTATUS_SUCCESS, u)" "gObReady u" "gSeReady u" "gMmReady u" "gCcReady u" "gIoReady u"
    "gLpcReady u" "sched u []" "gPsCurrentThread u = Some 0" "gHalTimerTickRoutine u = Some PsOnTimerTick_ptr"
    "gHalPageFaultRoutine u = Some MmpOnPageFault_ptr" "init_image bi \<or> boot_files_empty u" "gNkBootInfo u = Some (a, bi)" "port_wf (ep_Port (gLpcSystemEndpoint u))"
    "port_contents (ep_Port (gLpcSystemEndpoint u)) = []" by (rule executive_modules_ok [OF assms])
  obtain e n m c where h: "ExInitializeHybridServices stack u = (KSTATUS_SUCCESS,
      u\<lparr>gNkPortCount := n, gNkServiceEndpointCount := m, gExIpcServiceEndpoint := c, gLpcSystemEndpoint := e\<rparr>)"
    "port_contents (ep_Port e) = [bind_message stack]" by (rule hybrid_ok [OF u(7,14,15)])
  have "ExInitializeExecutive stack s = Some (KSTATUS_SUCCESS,
      u\<lparr>gNkPortCount := n, gNkServiceEndpointCount := m, gExIpcServiceEndpoint := c, gLpcSystemEndpoint := e\<rparr>)"
    using h(1) by (simp add: ExInitializeExecutive_def u(1))
  then show thesis by (rule that) (use u(2-13) h(2) in \<open>simp_all add: sched_def runnable_def boot_files_empty_def\<close>)
qed

section \<open>Properties\<close>

text \<open>
  C2: the executive starts.  From a cold start on a machine whose memory map leaves four usable pages, with a valid boot
  information block and a page table, every module initialises in the order of the table, the bootstrap thread runs, the
  timer and page fault routines are registered, and the system endpoint holds exactly the message that binds the
  executive.
\<close>

theorem ExInitializeExecutive_ok:
  fixes s :: "'a EX_GLOBALS_scheme"
  assumes "cold s" and "gNkBootInfo s = Some (a, bi)" and "bi_Magic bi = BOOTINFO_MAGIC"
    and "4 \<le> free_pages (boot_marked a bi s)" and "hw_cr3 s AND MM_PTE_ADDR_MASK \<noteq> 0"
  shows "\<exists>t. ExInitializeExecutive stack s = Some (KSTATUS_SUCCESS, t) \<and>
    gObReady t \<and> gSeReady t \<and> gMmReady t \<and> gCcReady t \<and> gIoReady t \<and> gLpcReady t \<and> sched t [] \<and> gPsCurrentThread t = Some 0 \<and>
    gHalTimerTickRoutine t = Some PsOnTimerTick_ptr \<and> gHalPageFaultRoutine t = Some MmpOnPageFault_ptr \<and>
    port_contents (ep_Port (gLpcSystemEndpoint t)) = [bind_message stack]"
  by (rule executive_ok [OF assms]) blast

text \<open>The zeroed state of the whole kernel, and the machine of \<open>mm_boot\<close> before the executive starts.\<close>

definition ex_bss :: "IO_GLOBALS \<Rightarrow> EX_GLOBALS" where
  "ex_bss s = IO_GLOBALS.extend s (EX_GLOBALS.fields False 0
     \<lparr>cc_MaxCachedPages = 0, cc_DirtyWritebackThresholdPages = 0, cc_AggressiveTrim = 0\<rparr> False
     \<lparr>ep_Name = replicate 32 NUL, ep_BaseOpcode = 0, ep_Flags = 0, ep_Port = empty_port\<rparr>)"

definition ex_boot :: EX_GLOBALS where
  "ex_boot = (ex_bss (io_bss (lpc_bss ps_bss)))\<lparr>gNkBootInfo := Some (0x8000, demo_boot_info), hw_cr3 := 0x2000,
     gHalPlatformInfo := \<lparr>hpi_ProcessorCount = 1, hpi_TimerFrequencyHz = 1000000, hpi_PhysicalMemoryTop = 0x400000\<rparr>,
     hw_ranges := (\<lambda>_. \<lparr>pmr_Base = 0x100000, pmr_Length = 0x300000, pmr_Type = 7, pmr_Attributes = 0\<rparr>)\<rparr>"

lemmas ex_boot_eval = ex_boot_def ex_bss_def io_bss_def lpc_bss_def ps_bss_def mm_bss_eval MM_GLOBALS.defs PS_GLOBALS.defs LPC_GLOBALS.defs
  IO_GLOBALS.defs EX_GLOBALS.defs

lemma ex_boot_cold: "cold ex_boot"
  by (simp add: cold_def ex_boot_eval endpoint_shape_def empty_port_def)

theorem ExInitializeExecutive_ok_witness:
  "\<exists>t. ExInitializeExecutive (replicate 64 0) ex_boot = Some (KSTATUS_SUCCESS, t) \<and> sched t [] \<and> gLpcReady t"
proof -
  have "free_pages (boot_marked 0x8000 demo_boot_info ex_boot) = free_pages (boot_marked 0x8000 demo_boot_info mm_boot)"
    by (rule boot_marked_cong) (simp_all add: ex_boot_eval mm_boot_def)
  with mm_boot_free have "4 \<le> free_pages (boot_marked 0x8000 demo_boot_info ex_boot)" by simp
  moreover have "gNkBootInfo ex_boot = Some (0x8000, demo_boot_info)" "hw_cr3 ex_boot AND MM_PTE_ADDR_MASK \<noteq> 0"
    "bi_Magic demo_boot_info = BOOTINFO_MAGIC" by (simp_all add: ex_boot_eval MM_PTE_ADDR_MASK_def demo_boot_info_def)
  ultimately show ?thesis using ExInitializeExecutive_ok [OF ex_boot_cold] by blast
qed

text \<open>
  A failed module stops the start.  Without boot information the memory manager refuses; its status is the result,
  the object and security managers are up and none of the later modules has been touched.
\<close>

theorem ExInitializeExecutive_stops:
  assumes "cold s" and "gNkBootInfo s = None"
  shows "\<exists>t. ExInitializeExecutive stack s = Some (KSTATUS_INVALID_PARAMETER, t) \<and> gObReady t \<and> gSeReady t \<and> \<not> gMmReady t \<and>
    \<not> gCcReady t \<and> \<not> gIoReady t \<and> \<not> gPsReady t \<and> \<not> gLpcReady t"
  using assms
  by (simp add: ExInitializeExecutive_def gExBootModules_def ObInitialize_def SeInitialize_def MmInitialize_def NkGetBootInfo_def cold_def)

theorem ExInitializeExecutive_stops_witness:
  "\<exists>t. ExInitializeExecutive [] (ex_boot\<lparr>gNkBootInfo := None\<rparr>) = Some (KSTATUS_INVALID_PARAMETER, t) \<and> \<not> gPsReady t"
proof -
  have "cold (ex_boot\<lparr>gNkBootInfo := None\<rparr>)" using ex_boot_cold by (simp add: cold_def)
  from ExInitializeExecutive_stops [OF this] show ?thesis by auto
qed

text \<open>
  Access checks.  Once the security manager runs, a token passes exactly when it holds every required privilege
  and, unless nothing is required, its integrity is at least medium; the kernel's own token passes every check.
\<close>

theorem SeAccessCheck_iff:
  assumes "gSeReady s"
  shows "(SeAccessCheck (Some tok) m s = KSTATUS_SUCCESS \<longleftrightarrow>
      (\<forall>n. bit m n \<longrightarrow> bit (tok_PrivilegeMask tok) n) \<and> (m = 0 \<or> SE_INTEGRITY_MEDIUM \<le> tok_IntegrityLevel tok)) \<and>
    (\<exists>k. SeCreateKernelToken True s = Inr k \<and> SeAccessCheck (Some k) m s = KSTATUS_SUCCESS)"
proof -
  have "tok_PrivilegeMask tok AND m = m \<longleftrightarrow> (\<forall>n. bit m n \<longrightarrow> bit (tok_PrivilegeMask tok) n)"
    by (auto simp: bit_and_iff intro!: bit_word_eqI) (metis bit_and_iff)
  then have "SeAccessCheck (Some tok) m s = KSTATUS_SUCCESS \<longleftrightarrow>
      (\<forall>n. bit m n \<longrightarrow> bit (tok_PrivilegeMask tok) n) \<and> (m = 0 \<or> SE_INTEGRITY_MEDIUM \<le> tok_IntegrityLevel tok)"
    using assms by (auto simp: SeAccessCheck_def not_less)
  moreover have "(0xFFFFFFFF :: u32) = - 1" by simp
  then have "0xFFFFFFFF AND m = m" by (simp only: and.left_neutral)
  then have "\<exists>k. SeCreateKernelToken True s = Inr k \<and> SeAccessCheck (Some k) m s = KSTATUS_SUCCESS"
    using assms by (simp add: SeCreateKernelToken_def SeAccessCheck_def SE_INTEGRITY_HIGH_def SE_INTEGRITY_MEDIUM_def)
  ultimately show ?thesis by blast
qed

theorem SeAccessCheck_iff_witness:
  "SeAccessCheck (Some \<lparr>tok_SubjectId = 7, tok_PrivilegeMask = 0xF, tok_IntegrityLevel = SE_INTEGRITY_LOW\<rparr>) 1 (ex_boot\<lparr>gSeReady := True\<rparr>) \<noteq>
     KSTATUS_SUCCESS"
  using SeAccessCheck_iff [of "ex_boot\<lparr>gSeReady := True\<rparr>" "\<lparr>tok_SubjectId = 7, tok_PrivilegeMask = 0xF, tok_IntegrityLevel = SE_INTEGRITY_LOW\<rparr>" 1]
  by (simp add: SE_INTEGRITY_LOW_def SE_INTEGRITY_MEDIUM_def word_le_nat_alt)

text \<open>
  The cache limits.  On a machine with less than 128 TiB of memory, the limit is an eighth of its pages (of 4096 pages
  when the size is unknown) and the write-back threshold a quarter of that.
\<close>

theorem CcInitialize_limits:
  assumes "\<not> gCcReady s" and "unat (hpi_PhysicalMemoryTop (gHalPlatformInfo s)) < 2 ^ 47"
  shows "let pages = unat (hpi_PhysicalMemoryTop (gHalPlatformInfo s)) div 4096; p = gCcPolicy (snd (CcInitialize s)) in
    CcQueryPolicy True (snd (CcInitialize s)) = Inr p \<and>
    unat (cc_MaxCachedPages p) = (if pages = 0 then 512 else pages div 8) \<and>
    unat (cc_DirtyWritebackThresholdPages p) = unat (cc_MaxCachedPages p) div 4 \<and> cc_AggressiveTrim p = 0"
proof -
  let ?top = "hpi_PhysicalMemoryTop (gHalPlatformInfo s)"
  have u: "unat (drop_bit 12 ?top) = unat ?top div 4096" by (simp add: drop_bit_eq_div unat_div_distrib)
  have z: "drop_bit 12 ?top = 0 \<longleftrightarrow> unat ?top div 4096 = 0" by (metis u unat_eq_zero)
  have m: "unat (ucast (drop_bit 12 ?top div 8) :: u32) = unat ?top div 4096 div 8"
    using assms(2) by (simp add: unsigned_ucast_eq take_bit_nat_eq_self unat_div_distrib u)
  show ?thesis
    using assms(1) z m by (auto simp: CcInitialize_def CcQueryPolicy_def HalQueryPlatformInfo_def Let_def unat_div_distrib)
qed

theorem CcInitialize_limits_witness:
  "unat (cc_MaxCachedPages (gCcPolicy (snd (CcInitialize ex_boot)))) = 128"
proof -
  have "\<not> gCcReady ex_boot" "unat (hpi_PhysicalMemoryTop (gHalPlatformInfo ex_boot)) = 0x400000" by (simp_all add: ex_boot_eval)
  then show ?thesis using CcInitialize_limits [of ex_boot] by (simp add: Let_def)
qed

end
