(* ===== verification/NtxConsole.thy ===== *)
theory NtxConsole
  imports NtxHal
begin

text \<open>
  The console of the HAL, \<^verbatim>\<open>hal/aur64/hal_aur64.c\<close>: the serial port, the keyboard decoder, the font and the
  framebuffer text console.

  The device ports are a parameter: \<open>port_in\<close> and \<open>port_out\<close> stand for the \<^verbatim>\<open>in\<close> and \<^verbatim>\<open>out\<close> instructions on a
  device state.  The framebuffer is the array of pixels behind \<^verbatim>\<open>gHalFb\<close>, indexed by the 32-bit index the
  code computes.  Characters are bytes.
\<close>

section \<open>Definitions\<close>

subsection \<open>State\<close>

record 'd ports =
  port_in :: "u16 \<Rightarrow> 'd \<Rightarrow> u8 \<times> 'd"
  port_out :: "u16 \<Rightarrow> u8 \<Rightarrow> 'd \<Rightarrow> 'd"

record HAL_CONSOLE =
  gHalFb :: "u32 \<Rightarrow> u32"
  gHalFbWidth :: u32
  gHalFbHeight :: u32
  gHalFbPitch :: u32
  gHalFbColor :: u32
  gHalFbBg :: u32
  gHalFbCursorX :: u32
  gHalFbCursorY :: u32
  gHalFbCols :: u32
  gHalFbRows :: u32
  gHalFbReady :: bool
  gHalFont8x16 :: "nat \<Rightarrow> nat \<Rightarrow> u8"
  gHalFontReady :: bool
  gHalPs2ShiftLeft :: bool
  gHalPs2ShiftRight :: bool
  gHalPs2CapsLock :: bool
  gHalPs2Extended :: bool

definition HALP_COM1_PORT :: u16 where "HALP_COM1_PORT = 0x3F8"
definition HALP_PS2_DATA_PORT :: u16 where "HALP_PS2_DATA_PORT = 0x60"
definition HALP_PS2_STATUS_PORT :: u16 where "HALP_PS2_STATUS_PORT = 0x64"
definition HALP_CONSOLE_CELL_W :: u32 where "HALP_CONSOLE_CELL_W = 9"
definition HALP_CONSOLE_CELL_H :: u32 where "HALP_CONSOLE_CELL_H = 16"

text \<open>The two key maps: 120 initialisers each; the last eight elements are zero.\<close>

definition gHalPs2Map :: "u8 list" where
  "gHalPs2Map =
    [0, 0, 0x31, 0x32, 0x33, 0x34, 0x35, 0x36, 0x37, 0x38, 0x39, 0x30, 0x2D, 0x3D, 0x08, 0x09,
     0x71, 0x77, 0x65, 0x72, 0x74, 0x79, 0x75, 0x69, 0x6F, 0x70, 0x5B, 0x5D, 0x0A, 0, 0x61, 0x73,
     0x64, 0x66, 0x67, 0x68, 0x6A, 0x6B, 0x6C, 0x3B, 0x27, 0x60, 0, 0x5C, 0x7A, 0x78, 0x63, 0x76,
     0x62, 0x6E, 0x6D, 0x2C, 0x2E, 0x2F, 0, 0x2A, 0, 0x20, 0, 0, 0, 0, 0, 0,
     0, 0, 0, 0, 0, 0, 0, 0x37, 0x38, 0x39, 0x2D, 0x34, 0x35, 0x36, 0x2B, 0x31,
     0x32, 0x33, 0x30, 0x2E, 0, 0, 0, 0, 0, 0, 0, 0, 0, 0, 0, 0,
     0, 0, 0, 0, 0, 0, 0, 0, 0, 0, 0, 0, 0, 0, 0, 0,
     0, 0, 0, 0, 0, 0, 0, 0, 0, 0, 0, 0, 0, 0, 0, 0]"

definition gHalPs2MapShift :: "u8 list" where
  "gHalPs2MapShift =
    [0, 0, 0x21, 0x40, 0x23, 0x24, 0x25, 0x5E, 0x26, 0x2A, 0x28, 0x29, 0x5F, 0x2B, 0x08, 0x09,
     0x51, 0x57, 0x45, 0x52, 0x54, 0x59, 0x55, 0x49, 0x4F, 0x50, 0x7B, 0x7D, 0x0A, 0, 0x41, 0x53,
     0x44, 0x46, 0x47, 0x48, 0x4A, 0x4B, 0x4C, 0x3A, 0x22, 0x7E, 0, 0x7C, 0x5A, 0x58, 0x43, 0x56,
     0x42, 0x4E, 0x4D, 0x3C, 0x3E, 0x3F, 0, 0x2A, 0, 0x20, 0, 0, 0, 0, 0, 0,
     0, 0, 0, 0, 0, 0, 0, 0x37, 0x38, 0x39, 0x2D, 0x34, 0x35, 0x36, 0x2B, 0x31,
     0x32, 0x33, 0x30, 0x2E, 0, 0, 0, 0, 0, 0, 0, 0, 0, 0, 0, 0,
     0, 0, 0, 0, 0, 0, 0, 0, 0, 0, 0, 0, 0, 0, 0, 0,
     0, 0, 0, 0, 0, 0, 0, 0, 0, 0, 0, 0, 0, 0, 0, 0]"

subsection \<open>Serial port\<close>

definition HalpInitializeSerial :: "'d ports \<Rightarrow> 'd \<Rightarrow> 'd" where
  "HalpInitializeSerial io d = fold (\<lambda>(p, v). port_out io (HALP_COM1_PORT + p) v)
     [(1, 0x00), (3, 0x80), (0, 0x03), (1, 0x00), (3, 0x03), (2, 0xC7), (4, 0x0B)] d"

text \<open>The polling loop: at most \<open>k\<close> reads of the line status, and whether the port became ready.\<close>

fun serial_wait :: "'d ports \<Rightarrow> nat \<Rightarrow> 'd \<Rightarrow> bool \<times> 'd" where
  "serial_wait io 0 d = (False, d)"
| "serial_wait io (Suc k) d =
     (case port_in io (HALP_COM1_PORT + 5) d of
        (v, d1) \<Rightarrow> if v AND 0x20 \<noteq> 0 then (True, d1) else serial_wait io k d1)"

definition HalpSerialWriteChar :: "'d ports \<Rightarrow> u8 \<Rightarrow> 'd \<Rightarrow> 'd" where
  "HalpSerialWriteChar io Ch d =
     (case serial_wait io 1000000 d of (ready, d1) \<Rightarrow> if ready then port_out io HALP_COM1_PORT Ch d1 else d1)"

definition HalpSerialTryReadChar :: "'d ports \<Rightarrow> outptr \<Rightarrow> 'd \<Rightarrow> u8 option \<times> 'd" where
  "HalpSerialTryReadChar io OutChar d =
     (if \<not> OutChar then (None, d)
      else case port_in io (HALP_COM1_PORT + 5) d of
        (v, d1) \<Rightarrow> if v AND 0x01 = 0 then (None, d1) else case port_in io HALP_COM1_PORT d1 of (c, d2) \<Rightarrow> (Some c, d2))"

subsection \<open>Keyboard\<close>

definition is_letter_code :: "u8 \<Rightarrow> bool" where
  "is_letter_code Code \<longleftrightarrow> Code \<ge> 0x10 \<and> Code \<le> 0x19 \<or> Code \<ge> 0x1E \<and> Code \<le> 0x26 \<or> Code \<ge> 0x2C \<and> Code \<le> 0x32"

text \<open>What one scan code does, once it has been read from the data port.\<close>

definition ps2_decode :: "u8 \<Rightarrow> HAL_CONSOLE \<Rightarrow> u8 option \<times> HAL_CONSOLE" where
  "ps2_decode ScanCode c =
     (if ScanCode = 0xE0 then (None, c\<lparr>gHalPs2Extended := True\<rparr>)
      else if ScanCode = 0xE1 then (None, c\<lparr>gHalPs2Extended := False\<rparr>)
      else
        let IsBreak = (ScanCode AND 0x80 \<noteq> 0); Code = ScanCode AND 0x7F in
        if Code = 0x2A then (None, c\<lparr>gHalPs2ShiftLeft := \<not> IsBreak, gHalPs2Extended := False\<rparr>)
        else if Code = 0x36 then (None, c\<lparr>gHalPs2ShiftRight := \<not> IsBreak, gHalPs2Extended := False\<rparr>)
        else if Code = 0x3A \<and> \<not> IsBreak then (None, c\<lparr>gHalPs2CapsLock := \<not> gHalPs2CapsLock c, gHalPs2Extended := False\<rparr>)
        else if IsBreak then (None, c\<lparr>gHalPs2Extended := False\<rparr>)
        else if gHalPs2Extended c then (if Code = 0x1C then Some 0x0A else None, c\<lparr>gHalPs2Extended := False\<rparr>)
        else
          let Shifted = (gHalPs2ShiftLeft c \<or> gHalPs2ShiftRight c);
              Ch = (if Shifted then gHalPs2MapShift else gHalPs2Map) ! unat Code
          in if Ch = 0 then (None, c)
             else if is_letter_code Code \<and> gHalPs2CapsLock c \<and> \<not> Shifted
             then (Some (if Ch \<ge> 0x61 \<and> Ch \<le> 0x7A then Ch - 0x61 + 0x41 else Ch), c)
             else if is_letter_code Code \<and> gHalPs2CapsLock c \<and> Shifted
             then (Some (if Ch \<ge> 0x41 \<and> Ch \<le> 0x5A then Ch - 0x41 + 0x61 else Ch), c)
             else (Some Ch, c))"

definition HalpPs2TryReadChar :: "'d ports \<Rightarrow> outptr \<Rightarrow> HAL_CONSOLE \<times> 'd \<Rightarrow> u8 option \<times> HAL_CONSOLE \<times> 'd" where
  "HalpPs2TryReadChar io OutChar cd =
     (case cd of (c, d) \<Rightarrow>
        if \<not> OutChar then (None, c, d)
        else case port_in io HALP_PS2_STATUS_PORT d of
          (Status, d1) \<Rightarrow>
            if Status AND 0x01 = 0 then (None, c, d1)
            else case port_in io HALP_PS2_DATA_PORT d1 of
              (ScanCode, d2) \<Rightarrow> (case ps2_decode ScanCode c of (r, c1) \<Rightarrow> (r, c1, d2)))"

definition HalTryReadConsoleChar :: "'d ports \<Rightarrow> outptr \<Rightarrow> HAL_CONSOLE \<times> 'd \<Rightarrow> u8 option \<times> HAL_CONSOLE \<times> 'd" where
  "HalTryReadConsoleChar io OutChar cd =
     (case HalpSerialTryReadChar io OutChar (snd cd) of
        (Some ch, d1) \<Rightarrow> (Some ch, fst cd, d1)
      | (None, d1) \<Rightarrow> HalpPs2TryReadChar io OutChar (fst cd, d1))"

subsection \<open>Font\<close>

definition glyph_digits :: "u8 list list" where
  "glyph_digits = [
     [0x0E, 0x11, 0x13, 0x15, 0x19, 0x11, 0x0E],
     [0x04, 0x0C, 0x04, 0x04, 0x04, 0x04, 0x0E],
     [0x0E, 0x11, 0x01, 0x02, 0x04, 0x08, 0x1F],
     [0x1E, 0x01, 0x01, 0x06, 0x01, 0x01, 0x1E],
     [0x02, 0x06, 0x0A, 0x12, 0x1F, 0x02, 0x02],
     [0x1F, 0x10, 0x1E, 0x01, 0x01, 0x11, 0x0E],
     [0x06, 0x08, 0x10, 0x1E, 0x11, 0x11, 0x0E],
     [0x1F, 0x01, 0x02, 0x04, 0x08, 0x08, 0x08],
     [0x0E, 0x11, 0x11, 0x0E, 0x11, 0x11, 0x0E],
     [0x0E, 0x11, 0x11, 0x0F, 0x01, 0x02, 0x0C]]"

definition glyph_table :: "(u8 \<times> u8 list) list" where
  "glyph_table = [
     (0x41, [0x0E, 0x11, 0x11, 0x1F, 0x11, 0x11, 0x11]),
     (0x42, [0x1E, 0x11, 0x11, 0x1E, 0x11, 0x11, 0x1E]),
     (0x43, [0x0E, 0x11, 0x10, 0x10, 0x10, 0x11, 0x0E]),
     (0x44, [0x1E, 0x11, 0x11, 0x11, 0x11, 0x11, 0x1E]),
     (0x45, [0x1F, 0x10, 0x10, 0x1E, 0x10, 0x10, 0x1F]),
     (0x46, [0x1F, 0x10, 0x10, 0x1E, 0x10, 0x10, 0x10]),
     (0x47, [0x0E, 0x11, 0x10, 0x17, 0x11, 0x11, 0x0F]),
     (0x48, [0x11, 0x11, 0x11, 0x1F, 0x11, 0x11, 0x11]),
     (0x49, [0x1F, 0x04, 0x04, 0x04, 0x04, 0x04, 0x1F]),
     (0x4A, [0x07, 0x02, 0x02, 0x02, 0x12, 0x12, 0x0C]),
     (0x4B, [0x11, 0x12, 0x14, 0x18, 0x14, 0x12, 0x11]),
     (0x4C, [0x10, 0x10, 0x10, 0x10, 0x10, 0x10, 0x1F]),
     (0x4D, [0x11, 0x1B, 0x15, 0x15, 0x11, 0x11, 0x11]),
     (0x4E, [0x11, 0x19, 0x15, 0x13, 0x11, 0x11, 0x11]),
     (0x4F, [0x0E, 0x11, 0x11, 0x11, 0x11, 0x11, 0x0E]),
     (0x50, [0x1E, 0x11, 0x11, 0x1E, 0x10, 0x10, 0x10]),
     (0x51, [0x0E, 0x11, 0x11, 0x11, 0x15, 0x12, 0x0D]),
     (0x52, [0x1E, 0x11, 0x11, 0x1E, 0x14, 0x12, 0x11]),
     (0x53, [0x0F, 0x10, 0x10, 0x0E, 0x01, 0x01, 0x1E]),
     (0x54, [0x1F, 0x04, 0x04, 0x04, 0x04, 0x04, 0x04]),
     (0x55, [0x11, 0x11, 0x11, 0x11, 0x11, 0x11, 0x0E]),
     (0x56, [0x11, 0x11, 0x11, 0x11, 0x11, 0x0A, 0x04]),
     (0x57, [0x11, 0x11, 0x11, 0x15, 0x15, 0x15, 0x0A]),
     (0x58, [0x11, 0x11, 0x0A, 0x04, 0x0A, 0x11, 0x11]),
     (0x59, [0x11, 0x11, 0x0A, 0x04, 0x04, 0x04, 0x04]),
     (0x5A, [0x1F, 0x01, 0x02, 0x04, 0x08, 0x10, 0x1F]),
     (0x5B, [0x0E, 0x08, 0x08, 0x08, 0x08, 0x08, 0x0E]),
     (0x5D, [0x0E, 0x02, 0x02, 0x02, 0x02, 0x02, 0x0E]),
     (0x3E, [0x10, 0x08, 0x04, 0x02, 0x04, 0x08, 0x10]),
     (0x3C, [0x01, 0x02, 0x04, 0x08, 0x04, 0x02, 0x01]),
     (0x3A, [0x00, 0x04, 0x04, 0x00, 0x04, 0x04, 0x00]),
     (0x3B, [0x00, 0x04, 0x04, 0x00, 0x04, 0x04, 0x08]),
     (0x2E, [0x00, 0x00, 0x00, 0x00, 0x00, 0x06, 0x06]),
     (0x2C, [0x00, 0x00, 0x00, 0x00, 0x06, 0x06, 0x08]),
     (0x3F, [0x0E, 0x11, 0x01, 0x02, 0x04, 0x00, 0x04]),
     (0x21, [0x04, 0x04, 0x04, 0x04, 0x04, 0x00, 0x04]),
     (0x3D, [0x00, 0x1F, 0x00, 0x1F, 0x00, 0x00, 0x00]),
     (0x2B, [0x00, 0x04, 0x04, 0x1F, 0x04, 0x04, 0x00]),
     (0x7C, [0x04, 0x04, 0x04, 0x04, 0x04, 0x04, 0x04]),
     (0x5F, [0x00, 0x00, 0x00, 0x00, 0x00, 0x00, 0x1F]),
     (0x2D, [0x00, 0x00, 0x00, 0x1F, 0x00, 0x00, 0x00]),
     (0x2F, [0x01, 0x02, 0x04, 0x08, 0x10, 0x00, 0x00]),
     (0x5C, [0x10, 0x08, 0x04, 0x02, 0x01, 0x00, 0x00]),
     (0x27, [0x04, 0x04, 0x02, 0x00, 0x00, 0x00, 0x00]),
     (0x28, [0x02, 0x04, 0x08, 0x08, 0x08, 0x04, 0x02]),
     (0x29, [0x08, 0x04, 0x02, 0x02, 0x02, 0x04, 0x08])]"

definition HalpGlyph5x7Row :: "u8 \<Rightarrow> nat \<Rightarrow> u8" where
  "HalpGlyph5x7Row Ch0 Row =
     (let Ch = (if Ch0 \<ge> 0x61 \<and> Ch0 \<le> 0x7A then Ch0 - 0x61 + 0x41 else Ch0) in
      if Ch \<ge> 0x30 \<and> Ch \<le> 0x39 then glyph_digits ! unat (Ch - 0x30) ! Row
      else case map_of glyph_table Ch of
        Some R \<Rightarrow> R ! Row
      | None \<Rightarrow> if Ch = 0x20 then 0x00 else 0x1F)"

definition HalpBuildFont8x16 :: "HAL_CONSOLE \<Rightarrow> HAL_CONSOLE" where
  "HalpBuildFont8x16 c =
     (if gHalFontReady c then c
      else c\<lparr>gHalFont8x16 := (\<lambda>Ch Row. if Ch < 128 \<and> Row < 16
               then (if 0 < Row \<and> Row < 15 then push_bit 1 (HalpGlyph5x7Row (of_nat Ch) ((Row - 1) div 2) AND 0x1F) else 0)
               else gHalFont8x16 c Ch Row),
             gHalFontReady := True\<rparr>)"

subsection \<open>Framebuffer\<close>

definition HalpFbPutPixel :: "u32 \<Rightarrow> u32 \<Rightarrow> u32 \<Rightarrow> HAL_CONSOLE \<Rightarrow> HAL_CONSOLE" where
  "HalpFbPutPixel X Y Color c =
     (if \<not> gHalFbReady c \<or> X \<ge> gHalFbWidth c \<or> Y \<ge> gHalFbHeight c then c
      else c\<lparr>gHalFb := (gHalFb c)(Y * gHalFbPitch c + X := Color)\<rparr>)"

definition HalpFbFill :: "u32 \<Rightarrow> u32 \<Rightarrow> u32 \<Rightarrow> u32 \<Rightarrow> u32 \<Rightarrow> HAL_CONSOLE \<Rightarrow> HAL_CONSOLE" where
  "HalpFbFill X Y W H Color c =
     fold (\<lambda>Row. fold (\<lambda>Col. HalpFbPutPixel (X + of_nat Col) (Y + of_nat Row) Color) [0..<unat W]) [0..<unat H] c"

definition HalpFbClear :: "HAL_CONSOLE \<Rightarrow> HAL_CONSOLE" where
  "HalpFbClear c =
     (if \<not> gHalFbReady c then c
      else (HalpFbFill 0 0 (gHalFbWidth c) (gHalFbHeight c) (gHalFbBg c) c)\<lparr>gHalFbCursorX := 0, gHalFbCursorY := 0\<rparr>)"

definition scroll_pixel :: "u32 \<Rightarrow> u32 \<Rightarrow> HAL_CONSOLE \<Rightarrow> HAL_CONSOLE" where
  "scroll_pixel Y X c = c\<lparr>gHalFb := (gHalFb c)(Y * gHalFbPitch c + X := gHalFb c ((Y + HALP_CONSOLE_CELL_H) * gHalFbPitch c + X))\<rparr>"

text \<open>The outer loop runs while \<open>Y + 16\<close> is below the height, that is \<open>Height - 16\<close> times for a height of at most $2^{32} - 16$.  Beyond that the
  32-bit sum wraps before it reaches the height and the code would not end; no display has so many rows, and that case is not modelled.\<close>

definition HalpFbScroll :: "HAL_CONSOLE \<Rightarrow> HAL_CONSOLE" where
  "HalpFbScroll c =
     (if \<not> gHalFbReady c \<or> gHalFbHeight c \<le> HALP_CONSOLE_CELL_H then c
      else HalpFbFill 0 (gHalFbHeight c - HALP_CONSOLE_CELL_H) (gHalFbWidth c) HALP_CONSOLE_CELL_H (gHalFbBg c)
        (fold (\<lambda>Y. fold (\<lambda>X. scroll_pixel (of_nat Y) (of_nat X)) [0..<unat (gHalFbWidth c)])
           [0..<unat (gHalFbHeight c) - unat HALP_CONSOLE_CELL_H] c))"

definition wrap_row :: "HAL_CONSOLE \<Rightarrow> HAL_CONSOLE" where
  "wrap_row c = (if gHalFbCursorY c \<ge> gHalFbRows c then (HalpFbScroll c)\<lparr>gHalFbCursorY := gHalFbRows c - 1\<rparr> else c)"

text \<open>The pixels of one character.\<close>

definition draw_glyph :: "u8 \<Rightarrow> u32 \<Rightarrow> u32 \<Rightarrow> HAL_CONSOLE \<Rightarrow> HAL_CONSOLE" where
  "draw_glyph Ch BaseX BaseY c =
     fold (\<lambda>Row. fold (\<lambda>Col c1.
         if gHalFont8x16 c1 (unat Ch) Row AND push_bit (7 - Col) 1 \<noteq> 0
         then HalpFbPutPixel (BaseX + of_nat Col) (BaseY + of_nat Row) (gHalFbColor c1) c1 else c1) [0..<8]) [0..<16] c"

definition HalpFbPutChar :: "u8 \<Rightarrow> HAL_CONSOLE \<Rightarrow> HAL_CONSOLE" where
  "HalpFbPutChar Ch0 c =
     (if \<not> gHalFbReady c then c
      else if Ch0 = 0x0D then c\<lparr>gHalFbCursorX := 0\<rparr>
      else if Ch0 = 0x0A then wrap_row (c\<lparr>gHalFbCursorX := 0, gHalFbCursorY := gHalFbCursorY c + 1\<rparr>)
      else if Ch0 = 0x08 then
        (if gHalFbCursorX c = 0 \<and> gHalFbCursorY c = 0 then c
         else
           let c1 = (if gHalFbCursorX c > 0 then c\<lparr>gHalFbCursorX := gHalFbCursorX c - 1\<rparr>
                     else c\<lparr>gHalFbCursorY := gHalFbCursorY c - 1, gHalFbCursorX := gHalFbCols c - 1\<rparr>)
           in HalpFbFill (gHalFbCursorX c1 * HALP_CONSOLE_CELL_W) (gHalFbCursorY c1 * HALP_CONSOLE_CELL_H)
                HALP_CONSOLE_CELL_W HALP_CONSOLE_CELL_H (gHalFbBg c1) c1)
      else
        let Ch = (if Ch0 < 0x20 \<or> Ch0 > 0x7E then 0x3F else Ch0);
            c1 = (if \<not> gHalFontReady c then HalpBuildFont8x16 c else c);
            c2 = (if gHalFbCursorX c1 \<ge> gHalFbCols c1 then c1\<lparr>gHalFbCursorX := 0, gHalFbCursorY := gHalFbCursorY c1 + 1\<rparr> else c1);
            c3 = wrap_row c2;
            BaseX = gHalFbCursorX c3 * HALP_CONSOLE_CELL_W;
            BaseY = gHalFbCursorY c3 * HALP_CONSOLE_CELL_H;
            c4 = HalpFbFill BaseX BaseY HALP_CONSOLE_CELL_W HALP_CONSOLE_CELL_H (gHalFbBg c3) c3;
            c5 = draw_glyph Ch BaseX BaseY c4
        in c5\<lparr>gHalFbCursorX := gHalFbCursorX c5 + 1\<rparr>)"

text \<open>\<open>screen base\<close> is the pixel array at that address.\<close>

definition HalpInitializeFramebuffer :: "BOOT_INFO option \<Rightarrow> (u64 \<Rightarrow> u32 \<Rightarrow> u32) \<Rightarrow> HAL_CONSOLE \<Rightarrow> HAL_CONSOLE" where
  "HalpInitializeFramebuffer BootInfo screen c =
     (case BootInfo of
        None \<Rightarrow> c
      | Some bi \<Rightarrow>
          let V = bi_Video bi in
          if bv_FrameBufferBase V = 0 \<or> bv_Width V = 0 \<or> bv_Height V = 0 \<or> bv_PixelsPerScanLine V = 0 then c
          else
            let c1 = c\<lparr>gHalFb := screen (bv_FrameBufferBase V), gHalFbWidth := bv_Width V, gHalFbHeight := bv_Height V,
                       gHalFbPitch := bv_PixelsPerScanLine V, gHalFbBg := 0x00060A10, gHalFbColor := 0x00F2F6FF,
                       gHalFbCols := bv_Width V div HALP_CONSOLE_CELL_W, gHalFbRows := bv_Height V div HALP_CONSOLE_CELL_H\<rparr>
            in if gHalFbCols c1 = 0 \<or> gHalFbRows c1 = 0 then c1\<lparr>gHalFbReady := False\<rparr>
               else HalpFbClear ((HalpBuildFont8x16 c1)\<lparr>gHalFbReady := True\<rparr>))"

text \<open>The output of one character and of a string up to its terminator.\<close>

definition write_char :: "'d ports \<Rightarrow> u8 \<Rightarrow> HAL_CONSOLE \<times> 'd \<Rightarrow> HAL_CONSOLE \<times> 'd" where
  "write_char io ch cd =
     (case cd of (c, d) \<Rightarrow>
        let d1 = (if ch = 0x0A then HalpSerialWriteChar io 0x0D d else d)
        in (HalpFbPutChar ch c, HalpSerialWriteChar io ch d1))"

definition HalWriteDebugString :: "'d ports \<Rightarrow> u8 list option \<Rightarrow> HAL_CONSOLE \<times> 'd \<Rightarrow> HAL_CONSOLE \<times> 'd" where
  "HalWriteDebugString io Message cd =
     (case Message of None \<Rightarrow> cd | Some m \<Rightarrow> fold (write_char io) (takeWhile (\<lambda>b. b \<noteq> 0) m) cd)"

definition HalClearDisplay :: "'d ports \<Rightarrow> HAL_CONSOLE \<times> 'd \<Rightarrow> HAL_CONSOLE \<times> 'd" where
  "HalClearDisplay io cd =
     (HalpFbClear (fst cd), fold (HalpSerialWriteChar io) [0x1B, 0x5B, 0x32, 0x4A, 0x1B, 0x5B, 0x48] (snd cd))"

section \<open>What drawing changes\<close>

text \<open>The visible pixels, and drawing: a change of visible pixels only.\<close>

definition fb_visible :: "HAL_CONSOLE \<Rightarrow> u32 \<Rightarrow> bool" where
  "fb_visible c i \<longleftrightarrow> (\<exists>x y. x < gHalFbWidth c \<and> y < gHalFbHeight c \<and> i = y * gHalFbPitch c + x)"

definition draws :: "HAL_CONSOLE \<Rightarrow> HAL_CONSOLE \<Rightarrow> bool" where
  "draws c c' \<longleftrightarrow> (\<exists>f. c' = c\<lparr>gHalFb := f\<rparr> \<and> (\<forall>i. \<not> fb_visible c i \<longrightarrow> f i = gHalFb c i))"

lemma draws_refl [simp]: "draws c c"
  by (auto simp: draws_def intro: exI [of _ "gHalFb c"])

lemma draws_trans: "draws c1 c2 \<Longrightarrow> draws c2 c3 \<Longrightarrow> draws c1 c3"
  by (auto simp: draws_def fb_visible_def)

lemma draws_fold:
  assumes "\<And>x c'. x \<in> set xs \<Longrightarrow> draws c c' \<Longrightarrow> draws c' (g x c')"
  shows "draws c (fold g xs c)"
proof -
  have "draws c c' \<Longrightarrow> draws c (fold g ys c')" if "set ys \<subseteq> set xs" for ys c'
    using that
  proof (induction ys arbitrary: c')
    case (Cons y ys)
    then have "draws c (g y c')" using assms draws_trans by (metis list.set_intros(1) subsetD)
    with Cons show ?case by simp
  qed simp
  from this [of xs c] show ?thesis by simp
qed

lemma draws_pixel: "draws c (HalpFbPutPixel x y col c)"
proof (cases "gHalFbReady c \<and> x < gHalFbWidth c \<and> y < gHalFbHeight c")
  case True
  then show ?thesis
    by (auto simp: HalpFbPutPixel_def draws_def fb_visible_def intro!: exI [of _ "(gHalFb c)(y * gHalFbPitch c + x := col)"])
next
  case False
  then have "HalpFbPutPixel x y col c = c" by (auto simp: HalpFbPutPixel_def not_le)
  then show ?thesis by simp
qed

lemma draws_fill: "draws c (HalpFbFill x y w h col c)"
  unfolding HalpFbFill_def by (intro draws_fold draws_pixel)

lemma draws_glyph: "draws c (draw_glyph ch x y c)"
  unfolding draw_glyph_def by (intro draws_fold) (simp add: draws_pixel)

lemma draws_scroll: "draws c (HalpFbScroll c)"
proof (cases "gHalFbReady c \<and> HALP_CONSOLE_CELL_H < gHalFbHeight c")
  case True
  let ?g = "\<lambda>Y. fold (\<lambda>X. scroll_pixel (of_nat Y) (of_nat X)) [0..<unat (gHalFbWidth c)]"
  have px: "draws c2 (scroll_pixel (of_nat Y) (of_nat X) c2)"
    if "draws c c2" "X < unat (gHalFbWidth c)" "Y < unat (gHalFbHeight c)" for X Y c2
  proof -
    have "unat (of_nat X :: u32) = X" "unat (of_nat Y :: u32) = Y"
      using that(2,3) unsigned_less [of "gHalFbWidth c", where 'a = nat] unsigned_less [of "gHalFbHeight c", where 'a = nat]
      by (simp_all add: unsigned_of_nat take_bit_nat_eq_self)
    then have "of_nat X < gHalFbWidth c" "of_nat Y < gHalFbHeight c" using that by (simp_all add: word_less_nat_alt)
    with that(1) show ?thesis by (auto simp: scroll_pixel_def draws_def fb_visible_def)
  qed
  have "draws c (fold ?g [0..<unat (gHalFbHeight c) - unat HALP_CONSOLE_CELL_H] c)"
  proof (rule draws_fold)
    fix Y c1
    assume Y: "Y \<in> set [0..<unat (gHalFbHeight c) - unat HALP_CONSOLE_CELL_H]" and c1: "draws c c1"
    show "draws c1 (?g Y c1)"
    proof (rule draws_fold)
      fix X c2
      assume X: "X \<in> set [0..<unat (gHalFbWidth c)]" and c2: "draws c1 c2"
      with px draws_trans [OF c1 c2] Y show "draws c2 (scroll_pixel (of_nat Y) (of_nat X) c2)" by simp
    qed
  qed
  from draws_trans [OF this draws_fill] True show ?thesis by (simp add: HalpFbScroll_def not_le)
qed (auto simp: HalpFbScroll_def)

lemma draws_fields:
  assumes "draws c c'"
  shows "gHalFbWidth c' = gHalFbWidth c" "gHalFbHeight c' = gHalFbHeight c" "gHalFbPitch c' = gHalFbPitch c"
    "gHalFbCursorX c' = gHalFbCursorX c" "gHalFbCursorY c' = gHalFbCursorY c" "gHalFbCols c' = gHalFbCols c"
    "gHalFbRows c' = gHalFbRows c" "gHalFbReady c' = gHalFbReady c" "\<not> fb_visible c i \<Longrightarrow> gHalFb c' i = gHalFb c i"
  using assms by (auto simp: draws_def)

section \<open>The text cursor\<close>

text \<open>The cursor invariant: a row on the screen, a column on it or just after its end.\<close>

definition console_ok :: "HAL_CONSOLE \<Rightarrow> bool" where
  "console_ok c \<longleftrightarrow> (gHalFbReady c \<longrightarrow> 0 < gHalFbCols c \<and> gHalFbCursorY c < gHalFbRows c \<and> gHalFbCursorX c \<le> gHalFbCols c)"

text \<open>\<open>prints c c'\<close>: the same screen, the invariant kept, no pixel changed outside the visible ones.\<close>

definition prints :: "HAL_CONSOLE \<Rightarrow> HAL_CONSOLE \<Rightarrow> bool" where
  "prints c c' \<longleftrightarrow> gHalFbWidth c' = gHalFbWidth c \<and> gHalFbHeight c' = gHalFbHeight c \<and> gHalFbPitch c' = gHalFbPitch c \<and>
     gHalFbReady c' = gHalFbReady c \<and> gHalFbCols c' = gHalFbCols c \<and> gHalFbRows c' = gHalFbRows c \<and>
     (\<forall>i. \<not> fb_visible c i \<longrightarrow> gHalFb c' i = gHalFb c i)"

lemma prints_trans: "prints c1 c2 \<Longrightarrow> prints c2 c3 \<Longrightarrow> prints c1 c3"
  by (simp add: prints_def fb_visible_def)

lemma prints_draws: "draws c c' \<Longrightarrow> prints c c'"
  by (auto simp: prints_def draws_def)

lemma prints_cursor [simp]: "prints c (c\<lparr>gHalFbCursorX := x\<rparr>)" "prints c (c\<lparr>gHalFbCursorY := y\<rparr>)" "prints c (c\<lparr>gHalFbCursorX := x, gHalFbCursorY := y\<rparr>)"
  by (auto simp: prints_def)

lemma word_suc_le: "(x :: u32) < y \<Longrightarrow> x + 1 \<le> y"
  by (rule inc_le)

lemma wrap_row_ok:
  assumes "gHalFbCursorY c \<le> gHalFbRows c" "0 < gHalFbRows c"
  shows "prints c (wrap_row c)" "gHalFbCursorY (wrap_row c) < gHalFbRows c" "gHalFbCursorX (wrap_row c) = gHalFbCursorX c"
proof -
  note s = draws_scroll [of c]
  have "gHalFbRows c - 1 < gHalFbRows c" using assms(2) by (simp add: word_less_nat_alt unat_sub word_le_nat_alt)
  then show "gHalFbCursorY (wrap_row c) < gHalFbRows c" by (simp add: wrap_row_def not_le)
  show "gHalFbCursorX (wrap_row c) = gHalFbCursorX c" using draws_fields(4) [OF s] by (simp add: wrap_row_def)
  show "prints c (wrap_row c)"
    using prints_trans [OF prints_draws [OF s] prints_cursor(2)] prints_draws [OF draws_refl] by (simp add: wrap_row_def)
qed


text \<open>A pixel behind the end of the framebuffer is not a visible one.\<close>

lemma fb_visible_bound:
  assumes "fb_visible c i" "gHalFbWidth c \<le> gHalFbPitch c"
  shows "unat i < unat (gHalFbPitch c) * unat (gHalFbHeight c)"
proof -
  from assms(1) obtain x y where x: "x < gHalFbWidth c" and y: "y < gHalFbHeight c" and i: "i = y * gHalFbPitch c + x"
    by (auto simp: fb_visible_def)
  have "unat i \<le> unat y * unat (gHalFbPitch c) + unat x"
    unfolding i by (simp add: unat_word_ariths mod_add_left_eq)
  also have "\<dots> < unat y * unat (gHalFbPitch c) + unat (gHalFbPitch c)"
    using x assms(2) by (simp add: word_less_nat_alt word_le_nat_alt)
  also have "\<dots> = (unat y + 1) * unat (gHalFbPitch c)" by simp
  also have "\<dots> \<le> unat (gHalFbHeight c) * unat (gHalFbPitch c)"
    using y by (intro mult_le_mono) (simp_all add: word_less_nat_alt Suc_le_eq)
  finally show ?thesis by (simp add: mult.commute)
qed

lemma console_ok_draws: "draws c c' \<Longrightarrow> console_ok c' \<longleftrightarrow> console_ok c"
  by (auto simp: console_ok_def draws_def)

lemma font_prints: "prints c (HalpBuildFont8x16 c)" "console_ok (HalpBuildFont8x16 c) \<longleftrightarrow> console_ok c"
  "gHalFbCursorX (HalpBuildFont8x16 c) = gHalFbCursorX c"
  "gHalFbCursorY (HalpBuildFont8x16 c) = gHalFbCursorY c"
  "gHalFbCols (HalpBuildFont8x16 c) = gHalFbCols c"
  "gHalFbRows (HalpBuildFont8x16 c) = gHalFbRows c"
  "gHalFbReady (HalpBuildFont8x16 c) = gHalFbReady c"
  by (simp_all add: HalpBuildFont8x16_def prints_def console_ok_def)

text \<open>The branches of a character that is drawn: the cell is in the row the cursor has after the wrap.\<close>

definition next_cell :: "HAL_CONSOLE \<Rightarrow> HAL_CONSOLE" where
  "next_cell c = wrap_row (if gHalFbCursorX c \<ge> gHalFbCols c then c\<lparr>gHalFbCursorX := 0, gHalFbCursorY := gHalFbCursorY c + 1\<rparr> else c)"

lemma next_cell_ok:
  assumes "console_ok c" "gHalFbReady c"
  shows "prints c (next_cell c)" "gHalFbCursorY (next_cell c) < gHalFbRows c" "gHalFbCursorX (next_cell c) < gHalFbCols c"
proof -
  let ?c = "if gHalFbCursorX c \<ge> gHalFbCols c then c\<lparr>gHalFbCursorX := 0, gHalFbCursorY := gHalFbCursorY c + 1\<rparr> else c"
  have p: "prints c ?c" by (simp add: prints_def)
  have ok: "gHalFbCursorY ?c \<le> gHalFbRows ?c" "0 < gHalFbRows ?c"
    using assms by (auto simp: console_ok_def word_suc_le intro: le_less_trans [OF word_zero_le])
  show "prints c (next_cell c)" using prints_trans [OF p wrap_row_ok(1) [OF ok]] by (simp add: next_cell_def)
  show "gHalFbCursorY (next_cell c) < gHalFbRows c" using wrap_row_ok(2) [OF ok] by (simp add: next_cell_def split: if_splits)
  show "gHalFbCursorX (next_cell c) < gHalFbCols c"
    using wrap_row_ok(3) [OF ok] assms by (auto simp: next_cell_def console_ok_def)
qed

lemma newline_ok:
  assumes "console_ok c" "gHalFbReady c"
  shows "prints c (wrap_row (c\<lparr>gHalFbCursorX := 0, gHalFbCursorY := gHalFbCursorY c + 1\<rparr>))"
    "console_ok (wrap_row (c\<lparr>gHalFbCursorX := 0, gHalFbCursorY := gHalFbCursorY c + 1\<rparr>))"
proof -
  let ?c = "c\<lparr>gHalFbCursorX := 0, gHalFbCursorY := gHalFbCursorY c + 1\<rparr>"
  have ok: "gHalFbCursorY ?c \<le> gHalFbRows ?c" "0 < gHalFbRows ?c"
    using assms by (auto simp: console_ok_def word_suc_le intro: le_less_trans [OF word_zero_le])
  show p: "prints c (wrap_row ?c)" by (rule prints_trans [OF prints_cursor(3) wrap_row_ok(1) [OF ok]])
  show "console_ok (wrap_row ?c)"
    using p wrap_row_ok(2,3) [OF ok] assms by (auto simp: console_ok_def prints_def)
qed

lemma word_pred_less: "0 < (x :: u32) \<Longrightarrow> x - 1 < x"
  by (simp add: word_less_nat_alt unat_sub word_le_nat_alt)

lemma backspace_ok:
  assumes "console_ok c" "gHalFbReady c"
  shows "prints c (HalpFbPutChar 0x08 c) \<and> console_ok (HalpFbPutChar 0x08 c)"
proof (cases "gHalFbCursorX c = 0 \<and> gHalFbCursorY c = 0")
  case True
  then show ?thesis using assms by (simp add: HalpFbPutChar_def prints_draws)
next
  case False
  let ?c = "if gHalFbCursorX c > 0 then c\<lparr>gHalFbCursorX := gHalFbCursorX c - 1\<rparr>
            else c\<lparr>gHalFbCursorY := gHalFbCursorY c - 1, gHalFbCursorX := gHalFbCols c - 1\<rparr>"
  have "gHalFbCursorX c > 0 \<or> gHalFbCursorY c > 0" using False by (auto simp: word_gt_0)
  then have ok: "console_ok ?c"
    using assms word_pred_less [of "gHalFbCursorX c"] word_pred_less [of "gHalFbCursorY c"] word_pred_less [of "gHalFbCols c"]
    by (auto simp: console_ok_def)
  have p: "prints c ?c" by (simp add: prints_def)
  obtain a b w h col where e: "HalpFbPutChar 0x08 c = HalpFbFill a b w h col ?c"
    using False assms(2) by (simp add: HalpFbPutChar_def Let_def)
  show ?thesis using prints_trans [OF p prints_draws [OF draws_fill]] ok console_ok_draws [OF draws_fill] unfolding e by blast
qed

lemma glyph_ok:
  assumes "console_ok c" "gHalFbReady c" "Ch \<noteq> 0x0D" "Ch \<noteq> 0x0A" "Ch \<noteq> 0x08"
  shows "prints c (HalpFbPutChar Ch c) \<and> console_ok (HalpFbPutChar Ch c)"
proof -
  define c1 where "c1 = (if \<not> gHalFontReady c then HalpBuildFont8x16 c else c)"
  have c1: "prints c c1" "console_ok c1" "gHalFbReady c1" using assms(1,2) font_prints [of c] prints_draws [OF draws_refl] by (auto simp: c1_def)
  obtain c5 where d: "draws (next_cell c1) c5" and e: "HalpFbPutChar Ch c = c5\<lparr>gHalFbCursorX := gHalFbCursorX c5 + 1\<rparr>"
  proof
    show "HalpFbPutChar Ch c = (let X = gHalFbCursorX (next_cell c1) * HALP_CONSOLE_CELL_W; Y = gHalFbCursorY (next_cell c1) * HALP_CONSOLE_CELL_H;
        c5 = draw_glyph (if Ch < 0x20 \<or> Ch > 0x7E then 0x3F else Ch) X Y
               (HalpFbFill X Y HALP_CONSOLE_CELL_W HALP_CONSOLE_CELL_H (gHalFbBg (next_cell c1)) (next_cell c1)) in c5)
         \<lparr>gHalFbCursorX := gHalFbCursorX (let X = gHalFbCursorX (next_cell c1) * HALP_CONSOLE_CELL_W; Y = gHalFbCursorY (next_cell c1) * HALP_CONSOLE_CELL_H;
        c5 = draw_glyph (if Ch < 0x20 \<or> Ch > 0x7E then 0x3F else Ch) X Y
               (HalpFbFill X Y HALP_CONSOLE_CELL_W HALP_CONSOLE_CELL_H (gHalFbBg (next_cell c1)) (next_cell c1)) in c5) + 1\<rparr>"
      using assms(2-5) by (simp add: HalpFbPutChar_def Let_def next_cell_def c1_def)
  qed (simp add: Let_def draws_trans [OF draws_fill draws_glyph])
  note n = next_cell_ok [OF c1(2,3)] and f = draws_fields [OF d]
  have p: "prints c c5" by (rule prints_trans [OF c1(1) prints_trans [OF n(1) prints_draws [OF d]]])
  have "gHalFbCursorX c5 + 1 \<le> gHalFbCols c5" using f n c1 by (simp add: word_suc_le prints_def)
  then have "console_ok (HalpFbPutChar Ch c)"
    using f n c1 by (auto simp: e console_ok_def prints_def intro: le_less_trans [OF word_zero_le])
  with prints_trans [OF p prints_cursor(1)] show ?thesis by (simp add: e)
qed

lemma HalpFbPutChar_ok:
  assumes "console_ok c"
  shows "prints c (HalpFbPutChar Ch c) \<and> console_ok (HalpFbPutChar Ch c)"
proof (cases "gHalFbReady c")
  case True
  consider "Ch = 0x0D" | "Ch = 0x0A" | "Ch = 0x08" | "Ch \<noteq> 0x0D" "Ch \<noteq> 0x0A" "Ch \<noteq> 0x08" by blast
  then show ?thesis
  proof cases
    case 1
    with True assms show ?thesis by (simp add: HalpFbPutChar_def console_ok_def)
  next
    case 2
    with True newline_ok [OF assms True] show ?thesis by (simp add: HalpFbPutChar_def)
  next
    case 3
    with backspace_ok [OF assms True] show ?thesis by simp
  qed (rule glyph_ok [OF assms True])
qed (use assms in \<open>simp add: HalpFbPutChar_def prints_draws\<close>)

lemma HalWriteDebugString_ok:
  assumes "console_ok c"
  shows "prints c (fst (HalWriteDebugString io m (c, d))) \<and> console_ok (fst (HalWriteDebugString io m (c, d)))"
proof -
  have "prints c (fst (fold (write_char io) xs (c, d))) \<and> console_ok (fst (fold (write_char io) xs (c, d)))"
    if "console_ok c" for xs c d
    using that
  proof (induction xs arbitrary: c d)
    case (Cons x xs)
    from HalpFbPutChar_ok [OF Cons.prems, of x] Cons.IH [of "HalpFbPutChar x c"] show ?case
      by (auto simp: write_char_def Let_def intro: prints_trans)
  qed (simp add: prints_draws)
  from this [OF assms] show ?thesis
    using assms by (simp add: HalWriteDebugString_def prints_draws split: option.split)
qed

lemma HalpInitializeFramebuffer_ok:
  assumes "\<not> gHalFbReady c"
  shows "console_ok (HalpInitializeFramebuffer bi screen c)"
proof -
  have k: "console_ok (HalpFbClear c1)" if "gHalFbReady c1" "gHalFbCols c1 \<noteq> 0" "gHalFbRows c1 \<noteq> 0" for c1
    using that draws_fields [OF draws_fill [of c1 0 0 "gHalFbWidth c1" "gHalFbHeight c1" "gHalFbBg c1"]]
    by (simp add: HalpFbClear_def console_ok_def word_gt_0)
  show ?thesis using assms
    by (auto simp: HalpInitializeFramebuffer_def Let_def font_prints console_ok_def [of c] split: option.split intro!: k)
       (simp_all add: console_ok_def)
qed

text \<open>What the setup leaves outside the visible pixels.\<close>

lemma HalpInitializeFramebuffer_screen:
  assumes "\<not> gHalFbReady c" "gHalFbReady (HalpInitializeFramebuffer (Some bi) screen c)"
  defines "V \<equiv> bi_Video bi"
  shows "gHalFbWidth (HalpInitializeFramebuffer (Some bi) screen c) = bv_Width V"
    "gHalFbHeight (HalpInitializeFramebuffer (Some bi) screen c) = bv_Height V"
    "gHalFbPitch (HalpInitializeFramebuffer (Some bi) screen c) = bv_PixelsPerScanLine V"
    "\<not> fb_visible (HalpInitializeFramebuffer (Some bi) screen c) i \<Longrightarrow>
       gHalFb (HalpInitializeFramebuffer (Some bi) screen c) i = screen (bv_FrameBufferBase V) i"
proof -
  define c1 where "c1 = c\<lparr>gHalFb := screen (bv_FrameBufferBase V), gHalFbWidth := bv_Width V, gHalFbHeight := bv_Height V,
    gHalFbPitch := bv_PixelsPerScanLine V, gHalFbBg := 0x00060A10, gHalFbColor := 0x00F2F6FF,
    gHalFbCols := bv_Width V div HALP_CONSOLE_CELL_W, gHalFbRows := bv_Height V div HALP_CONSOLE_CELL_H\<rparr>"
  define c2 where "c2 = (HalpBuildFont8x16 c1)\<lparr>gHalFbReady := True\<rparr>"
  have e: "HalpInitializeFramebuffer (Some bi) screen c = HalpFbClear c2"
    using assms by (auto simp: HalpInitializeFramebuffer_def Let_def c1_def c2_def split: if_splits)
  have c2: "gHalFbWidth c2 = bv_Width V" "gHalFbHeight c2 = bv_Height V" "gHalFbPitch c2 = bv_PixelsPerScanLine V"
    "gHalFb c2 = screen (bv_FrameBufferBase V)" "gHalFbReady c2"
    by (simp_all add: c2_def c1_def HalpBuildFont8x16_def)
  note f = draws_fields [OF draws_fill [of c2 0 0 "gHalFbWidth c2" "gHalFbHeight c2" "gHalFbBg c2"]]
  have w: "gHalFbWidth (HalpFbClear c2) = gHalFbWidth c2" "gHalFbHeight (HalpFbClear c2) = gHalFbHeight c2" "gHalFbPitch (HalpFbClear c2) = gHalFbPitch c2"
    using f c2(5) by (simp_all add: HalpFbClear_def)
  show "gHalFbWidth (HalpInitializeFramebuffer (Some bi) screen c) = bv_Width V"
    "gHalFbHeight (HalpInitializeFramebuffer (Some bi) screen c) = bv_Height V"
    "gHalFbPitch (HalpInitializeFramebuffer (Some bi) screen c) = bv_PixelsPerScanLine V" using w c2 by (simp_all add: e)
  assume "\<not> fb_visible (HalpInitializeFramebuffer (Some bi) screen c) i"
  then have "\<not> fb_visible c2 i" using w by (simp add: e fb_visible_def)
  with f(9) c2 show "gHalFb (HalpInitializeFramebuffer (Some bi) screen c) i = screen (bv_FrameBufferBase V) i"
    by (simp add: e HalpFbClear_def)
qed

text \<open>
  C32: whatever text the kernel writes, the console stays inside the framebuffer.  After the console has been set
  up from the boot information, and after any string, the cursor is on a row of the screen and at most one
  column behind its end, and every pixel that differs from what the screen held at first is one of the
  \<open>Width\<close> by \<open>Height\<close> visible pixels, at an index below \<open>PixelsPerScanLine * Height\<close> when a scan line
  holds the visible width.
\<close>

theorem HalWriteDebugString_bounded:
  fixes c0 :: HAL_CONSOLE and bi :: BOOT_INFO
  defines "V \<equiv> bi_Video bi"
  assumes "\<not> gHalFbReady c0" and "bv_Width V \<le> bv_PixelsPerScanLine V"
    and "c = HalpInitializeFramebuffer (Some bi) screen c0" and "gHalFbReady c" and "c' = fst (HalWriteDebugString io m (c, d))"
  shows "gHalFbCursorY c' < gHalFbRows c' \<and> gHalFbCursorX c' \<le> gHalFbCols c' \<and>
    (\<forall>i. gHalFb c' i \<noteq> screen (bv_FrameBufferBase V) i \<longrightarrow>
       (\<exists>x<bv_Width V. \<exists>y<bv_Height V. i = y * bv_PixelsPerScanLine V + x) \<and> unat i < unat (bv_PixelsPerScanLine V) * unat (bv_Height V))"
proof -
  note ini = HalpInitializeFramebuffer_screen [OF assms(2), of bi screen, folded assms(4) V_def, OF assms(5)]
  have ok: "console_ok c" using HalpInitializeFramebuffer_ok [OF assms(2)] assms(4) by simp
  have p: "prints c c'" "console_ok c'" using HalWriteDebugString_ok [OF ok, of io m d] assms(6) by auto
  have "fb_visible c i" if "gHalFb c' i \<noteq> screen (bv_FrameBufferBase V) i" for i
    using that p(1) ini(4) by (auto simp: prints_def)
  with p assms(3,5) ini(1-3) fb_visible_bound [of c] show ?thesis
    by (auto simp: console_ok_def prints_def fb_visible_def)
qed

text \<open>A screen of two by two cells whose scan lines are two pixels longer, and a serial port that is always ready.\<close>

definition demo_console :: HAL_CONSOLE where
  "demo_console = \<lparr>gHalFb = (\<lambda>_. 0), gHalFbWidth = 0, gHalFbHeight = 0, gHalFbPitch = 0, gHalFbColor = 0, gHalFbBg = 0,
     gHalFbCursorX = 0, gHalFbCursorY = 0, gHalFbCols = 0, gHalFbRows = 0, gHalFbReady = False,
     gHalFont8x16 = (\<lambda>_ _. 0), gHalFontReady = False, gHalPs2ShiftLeft = False, gHalPs2ShiftRight = False,
     gHalPs2CapsLock = False, gHalPs2Extended = False\<rparr>"

definition demo_ports :: "unit ports" where
  "demo_ports = \<lparr>port_in = (\<lambda>_ d. (0x20, d)), port_out = (\<lambda>_ _ d. d)\<rparr>"

definition demo_screen :: BOOT_INFO where
  "demo_screen = \<lparr>bi_Magic = BOOTINFO_MAGIC, bi_Version = 1, bi_Size = 0, bi_Flags = 0, bi_FirmwareType = 0, bi_LoaderBase = 0,
     bi_KernelBase = 0, bi_KernelSize = 0, bi_KernelEntry = 0, bi_InitImageBase = 0, bi_InitImageSize = 0, bi_MemoryMap = 0,
     bi_MemoryMapEntryCount = 0, bi_MemoryMapEntrySize = 0,
     bi_Video = \<lparr>bv_FrameBufferBase = 0x80000000, bv_FrameBufferSize = 2560, bv_Width = 18, bv_Height = 32,
       bv_PixelsPerScanLine = 20, bv_PixelFormat = 1\<rparr>\<rparr>"

lemma demo_screen_ready: "gHalFbReady (HalpInitializeFramebuffer (Some demo_screen) (\<lambda>_ _. 0) demo_console)"
proof -
  have "gHalFbReady (HalpFbClear c)" if "gHalFbReady c" for c
    using that draws_fields(8) [OF draws_fill [of c 0 0 "gHalFbWidth c" "gHalFbHeight c" "gHalFbBg c"]] by (simp add: HalpFbClear_def)
  then show ?thesis
    by (simp add: HalpInitializeFramebuffer_def Let_def demo_screen_def demo_console_def HALP_CONSOLE_CELL_W_def HALP_CONSOLE_CELL_H_def)
qed

theorem HalWriteDebugString_bounded_witness:
  "let c = HalpInitializeFramebuffer (Some demo_screen) (\<lambda>_ _. 0) demo_console;
       c' = fst (HalWriteDebugString demo_ports (Some [0x48, 0x69, 0x0A, 0x08, 0x21, 0]) (c, ()))
   in gHalFbCursorY c' < gHalFbRows c' \<and> gHalFbCursorX c' \<le> gHalFbCols c' \<and> gHalFb c' 640 = 0"
proof -
  have h: "\<not> gHalFbReady demo_console" "bv_Width (bi_Video demo_screen) \<le> bv_PixelsPerScanLine (bi_Video demo_screen)"
    by (simp_all add: demo_console_def demo_screen_def)
  have n: "\<not> unat (640 :: u32) < unat (bv_PixelsPerScanLine (bi_Video demo_screen)) * unat (bv_Height (bi_Video demo_screen))"
    by (simp add: demo_screen_def)
  from HalWriteDebugString_bounded [OF h refl demo_screen_ready refl, of demo_ports "Some [0x48, 0x69, 0x0A, 0x08, 0x21, 0]" "()"] n
  show ?thesis unfolding Let_def by blast
qed

section \<open>The keyboard decoder\<close>

text \<open>The 26 letter keys.\<close>

definition letter_codes :: "u8 list" where
  "letter_codes = [0x10, 0x11, 0x12, 0x13, 0x14, 0x15, 0x16, 0x17, 0x18, 0x19, 0x1E, 0x1F, 0x20, 0x21, 0x22, 0x23, 0x24, 0x25, 0x26,
     0x2C, 0x2D, 0x2E, 0x2F, 0x30, 0x31, 0x32]"

lemma letter_maps:
  "list_all (\<lambda>k. let a = gHalPs2Map ! unat k; b = gHalPs2MapShift ! unat k in
     is_letter_code k \<and> 0x61 \<le> a \<and> a \<le> 0x7A \<and> a - 0x61 + 0x41 = b \<and> b - 0x41 + 0x61 = a \<and> 0x41 \<le> b \<and> b \<le> 0x5A \<and> a \<noteq> 0 \<and> b \<noteq> 0 \<and>
     k AND 0x80 = 0 \<and> k AND 0x7F = k \<and> k \<notin> {0xE0, 0xE1, 0x2A, 0x36, 0x3A}) letter_codes"
  by code_simp

text \<open>
  A letter key gives the letter of the key map, in upper case exactly when one of shift and caps lock is on,
  and leaves the keyboard state alone.
\<close>

theorem ps2_decode_letter:
  assumes "k \<in> set letter_codes" and "\<not> gHalPs2Extended c"
  shows "ps2_decode k c = (Some (if (gHalPs2ShiftLeft c \<or> gHalPs2ShiftRight c) \<noteq> gHalPs2CapsLock c
     then gHalPs2Map ! unat k - 0x61 + 0x41 else gHalPs2Map ! unat k), c)"
proof -
  from letter_maps assms(1) have "let a = gHalPs2Map ! unat k; b = gHalPs2MapShift ! unat k in
     is_letter_code k \<and> 0x61 \<le> a \<and> a \<le> 0x7A \<and> a - 0x61 + 0x41 = b \<and> b - 0x41 + 0x61 = a \<and> 0x41 \<le> b \<and> b \<le> 0x5A \<and> a \<noteq> 0 \<and> b \<noteq> 0 \<and>
     k AND 0x80 = 0 \<and> k AND 0x7F = k \<and> k \<notin> {0xE0, 0xE1, 0x2A, 0x36, 0x3A}"
    by (simp add: list_all_iff)
  then show ?thesis using assms(2)
    by (cases "gHalPs2ShiftLeft c \<or> gHalPs2ShiftRight c"; cases "gHalPs2CapsLock c") (simp_all add: ps2_decode_def Let_def)
qed

theorem ps2_decode_letter_witness: "ps2_decode 0x1E (demo_console\<lparr>gHalPs2CapsLock := True\<rparr>) = (Some 0x41, demo_console\<lparr>gHalPs2CapsLock := True\<rparr>)"
proof -
  have "(0x1E :: u8) \<in> set letter_codes" and "\<not> gHalPs2Extended (demo_console\<lparr>gHalPs2CapsLock := True\<rparr>)"
    by (simp_all add: letter_codes_def demo_console_def)
  from ps2_decode_letter [OF this] show ?thesis by (simp add: demo_console_def gHalPs2Map_def)
qed

section \<open>What reaches the serial line\<close>

text \<open>The bytes of a string as they are sent: a carriage return before every line feed.\<close>

fun crlf :: "u8 list \<Rightarrow> u8 list" where
  "crlf [] = []"
| "crlf (b # bs) = (if b = 0x0A then [0x0D, 0x0A] else [b]) @ crlf bs"

lemma HalpSerialWriteChar_ready:
  assumes "fst (port_in io (HALP_COM1_PORT + 5) d) AND 0x20 \<noteq> 0" and "snd (port_in io (HALP_COM1_PORT + 5) d) = d"
  shows "HalpSerialWriteChar io b d = port_out io HALP_COM1_PORT b d"
proof -
  obtain k where k: "(1000000 :: nat) = Suc k" by (metis not0_implies_Suc zero_neq_numeral)
  show ?thesis using assms unfolding HalpSerialWriteChar_def k by (simp add: split_beta)
qed

text \<open>
  With a transmitter that is ready whenever it is polled, a string is sent in order, up to its terminator, with
  a carriage return before every line feed.
\<close>

theorem HalWriteDebugString_serial:
  assumes "\<And>d. fst (port_in io (HALP_COM1_PORT + 5) d) AND 0x20 \<noteq> 0" and "\<And>d. snd (port_in io (HALP_COM1_PORT + 5) d) = d"
  shows "snd (HalWriteDebugString io (Some m) (c, d)) =
    fold (port_out io HALP_COM1_PORT) (crlf (takeWhile (\<lambda>b. b \<noteq> 0) m)) d"
proof -
  have "snd (fold (write_char io) bs (c, d)) = fold (port_out io HALP_COM1_PORT) (crlf bs) d" for bs c d
  proof (induction bs arbitrary: c d)
    case (Cons b bs)
    then show ?case by (simp add: write_char_def Let_def HalpSerialWriteChar_ready [OF assms])
  qed simp
  then show ?thesis by (simp add: HalWriteDebugString_def)
qed

text \<open>A ready port that remembers what was sent.\<close>

definition log_ports :: "u8 list ports" where
  "log_ports = \<lparr>port_in = (\<lambda>_ d. (0x20, d)), port_out = (\<lambda>_ b d. d @ [b])\<rparr>"

theorem HalWriteDebugString_serial_witness:
  "snd (HalWriteDebugString log_ports (Some [0x48, 0x69, 0x0A, 0, 0x21]) (demo_console, [])) = [0x48, 0x69, 0x0D, 0x0A]"
proof -
  have "fst (port_in log_ports (HALP_COM1_PORT + 5) d) AND 0x20 \<noteq> 0" "snd (port_in log_ports (HALP_COM1_PORT + 5) d) = d" for d
    by (simp_all add: log_ports_def)
  from HalWriteDebugString_serial [OF this] show ?thesis by (simp add: log_ports_def)
qed

end
