(* ===== verification/NtxUserCopy.thy ===== *)
theory NtxUserCopy
  imports NtxMmTrace NtxUserImage NtxConsole
begin

text \<open>
  How the system calls of \<^verbatim>\<open>kernel/ke/syscall.c\<close> reach the memory of their caller: byte accesses through the page
  tables that are active.  An access to a page that is not mapped raises a page fault; the processor runs the
  fault routine and repeats the access, so an access is a loop that ends when the fault routine has mapped the
  page, and \<open>None\<close> when the machine halts or the access faults for ever.  The lines the hardware layer
  prints before it halts on a fault it cannot resolve are left out.

  The parameter \<open>mc\<close> holds what the kernel inherits from firmware and hardware: the device ports, the write protect
  bit of \<^verbatim>\<open>CR0\<close> and the address that a fault record gets as instruction pointer.
\<close>

section \<open>Definitions\<close>

record 'd machine =
  mc_ports :: "'d ports"
  mc_wp :: bool
  mc_ip :: u64

text \<open>Whether every entry of the walk allows writing.\<close>

fun mmu_walk_writable :: "nat \<Rightarrow> nat \<Rightarrow> u64 \<Rightarrow> u64 \<Rightarrow> 'a MM_GLOBALS_scheme \<Rightarrow> bool" where
  "mmu_walk_writable 0 Level va Table s = True"
| "mmu_walk_writable (Suc k) Level va Table s =
     (let e = hw_mem s (slot Table (walk_index va Level)) in
      has_flag e MM_PTE_WRITABLE \<and> (k > 0 \<and> has_flag e MM_PTE_LARGE \<or> mmu_walk_writable k (Suc Level) va e s))"

definition store_allowed :: "'d machine \<Rightarrow> u64 \<Rightarrow> 'a MM_GLOBALS_scheme \<Rightarrow> bool" where
  "store_allowed mc va s \<longleftrightarrow> \<not> mc_wp mc \<or> mmu_walk_writable 4 0 va (hw_cr3 s) s"

text \<open>The page fault a kernel access raises, if any: its error code.\<close>

definition access_fault :: "'d machine \<Rightarrow> bool \<Rightarrow> u64 \<Rightarrow> 'a MM_GLOBALS_scheme \<Rightarrow> u64 option" where
  "access_fault mc Store va s =
     (case mmu_translate va s of
        None \<Rightarrow> Some (if Store then MM_PF_ERROR_WRITE else 0)
      | Some _ \<Rightarrow> if Store \<and> \<not> store_allowed mc va s then Some (MM_PF_ERROR_PRESENT OR MM_PF_ERROR_WRITE) else None)"

partial_function (option) cpu_access :: "'d machine \<Rightarrow> bool \<Rightarrow> u64 \<Rightarrow> 'a PS_GLOBALS_scheme \<Rightarrow> 'a PS_GLOBALS_scheme option" where
  "cpu_access mc Store va s =
     (case access_fault mc Store va s of
        None \<Rightarrow> Some s
      | Some err \<Rightarrow> do {
          s1 \<leftarrow> HalHandlePageFaultTrap run_page_fault va err (mc_ip mc) s;
          cpu_access mc Store va s1 })"

definition cpu_ld :: "'d machine \<Rightarrow> u64 \<Rightarrow> 'a PS_GLOBALS_scheme \<Rightarrow> (u8 \<times> 'a PS_GLOBALS_scheme) option" where
  "cpu_ld mc va s = do { s1 \<leftarrow> cpu_access mc False va s; b \<leftarrow> user_ld s1 va; Some (b, s1) }"

definition cpu_st :: "'d machine \<Rightarrow> u64 \<Rightarrow> u8 \<Rightarrow> 'a PS_GLOBALS_scheme \<Rightarrow> 'a PS_GLOBALS_scheme option" where
  "cpu_st mc va b s = do { s1 \<leftarrow> cpu_access mc True va s; user_st va b s1 }"

text \<open>The byte loops that copy from and to the caller.\<close>

fun copy_in :: "'d machine \<Rightarrow> nat \<Rightarrow> u64 \<Rightarrow> 'a PS_GLOBALS_scheme \<Rightarrow> (u8 list \<times> 'a PS_GLOBALS_scheme) option" where
  "copy_in mc 0 va s = Some ([], s)"
| "copy_in mc (Suc n) va s = do {
     (b, s1) \<leftarrow> cpu_ld mc va s;
     (bs, s2) \<leftarrow> copy_in mc n (va + 1) s1;
     Some (b # bs, s2) }"

definition copy_out :: "'d machine \<Rightarrow> u8 list \<Rightarrow> u64 \<Rightarrow> 'a PS_GLOBALS_scheme \<Rightarrow> 'a PS_GLOBALS_scheme option" where
  "copy_out mc bs va s = write_bytes (cpu_st mc) bs va s"

section \<open>Bytes in cells\<close>

definition cell :: "u64 \<Rightarrow> u64" where
  "cell pa = pa AND NOT 7"

definition byte_at :: "u64 \<Rightarrow> (u64 \<Rightarrow> u64) \<Rightarrow> u8" where
  "byte_at pa m = ucast (drop_bit (8 * unat (pa AND 7)) (m (cell pa)))"

definition with_byte :: "u64 \<Rightarrow> u8 \<Rightarrow> (u64 \<Rightarrow> u64) \<Rightarrow> u64 \<Rightarrow> u64" where
  "with_byte pa b m = m(cell pa := (m (cell pa) AND NOT (push_bit (8 * unat (pa AND 7)) 0xFF)) OR push_bit (8 * unat (pa AND 7)) (ucast b))"

lemma byte_index: "unat (pa AND 7 :: u64) < 8"
proof -
  have "pa AND 7 = take_bit 3 pa" by (simp add: take_bit_eq_mask mask_eq_exp_minus_1)
  then show ?thesis using take_bit_nat_less_exp [of 3 "unat pa"] by (simp add: unsigned_take_bit_eq)
qed

lemma bit_255: "bit (0xFF :: u64) n \<longleftrightarrow> n < 8"
proof -
  have e: "(0xFF :: u64) = mask 8" by (simp add: mask_eq_exp_minus_1)
  show ?thesis unfolding e bit_mask_iff by auto
qed

lemma put_byte_bits:
  fixes M :: u64
  assumes "n < 8" "k < 8" "\<And>j. bit M j \<longleftrightarrow> j < 8"
  shows "(ucast (drop_bit (8 * k) ((c AND NOT (push_bit (8 * n) M)) OR push_bit (8 * n) (ucast (b :: u8)) :: u64)) :: u8) =
    (if k = n then b else ucast (drop_bit (8 * k) c))"
proof (rule bit_word_eqI)
  fix i
  assume i: "i < LENGTH(8)"
  have "8 * k + i < 64" using assms(2) i by simp
  moreover have "8 * n \<le> 8 * k + i \<and> 8 * k + i - 8 * n < 8 \<longleftrightarrow> k = n" using assms(1,2) i by auto
  ultimately show "bit (ucast (drop_bit (8 * k) ((c AND NOT (push_bit (8 * n) M)) OR push_bit (8 * n) (ucast b))) :: u8) i =
      bit (if k = n then b else ucast (drop_bit (8 * k) c)) i"
    using i bit_imp_le_length [of b "8 * k + i - 8 * n"] by (auto simp: bit_simps assms(3))
qed

lemma cell_eq: "cell pa = cell pb \<Longrightarrow> pa AND 7 = pb AND 7 \<Longrightarrow> pa = pb"
proof -
  have "x = cell x OR (x AND 7)" for x :: u64
    unfolding cell_def by (rule bit_word_eqI) (auto simp: bit_simps)
  then show "cell pa = cell pb \<Longrightarrow> pa AND 7 = pb AND 7 \<Longrightarrow> pa = pb" by metis
qed

lemma byte_at_with: "byte_at pa (with_byte pb b m) = (if pa = pb then b else byte_at pa m)"
proof (cases "cell pa = cell pb")
  case True
  have "unat (pa AND 7) = unat (pb AND 7) \<longleftrightarrow> pa = pb" using cell_eq [OF True] by (metis word_unat_eq_iff)
  with put_byte_bits [OF byte_index byte_index bit_255] True show ?thesis by (simp add: byte_at_def with_byte_def)
qed (auto simp: byte_at_def with_byte_def)

lemma user_ld_byte: "user_ld s va = map_option (\<lambda>pa. byte_at pa (hw_mem s)) (mmu_translate va s)"
  by (simp add: user_ld_def byte_at_def cell_def)

lemma user_st_byte: "mmu_translate va s = Some pa \<Longrightarrow> user_st va b s = Some (s\<lparr>hw_mem := with_byte pa b (hw_mem s)\<rparr>)"
  by (simp add: user_st_def with_byte_def cell_def Let_def)

section \<open>Page walks and stores\<close>

text \<open>The cells a walk reads.\<close>

fun walk_cells :: "nat \<Rightarrow> nat \<Rightarrow> u64 \<Rightarrow> u64 \<Rightarrow> 'a MM_GLOBALS_scheme \<Rightarrow> u64 set" where
  "walk_cells 0 Level va Table s = {}"
| "walk_cells (Suc k) Level va Table s =
     (let c = slot Table (walk_index va Level) in insert c (walk_cells k (Suc Level) va (hw_mem s c) s))"

lemma mmu_walk_agree:
  assumes "\<And>c. c \<in> walk_cells k l va r s \<Longrightarrow> hw_mem t c = hw_mem s c"
  shows "mmu_walk k l va r t = mmu_walk k l va r s" "mmu_walk_writable k l va r t = mmu_walk_writable k l va r s"
    "walk_cells k l va r t = walk_cells k l va r s"
  using assms by (induction k l va r s rule: walk_cells.induct) (auto simp: Let_def)

definition table_cells :: "u64 \<Rightarrow> 'a MM_GLOBALS_scheme \<Rightarrow> u64 set" where
  "table_cells va s = walk_cells 4 0 va (hw_cr3 s) s"

lemma translate_agree:
  assumes "\<And>c. c \<in> table_cells va s \<Longrightarrow> hw_mem t c = hw_mem s c" "hw_cr3 t = hw_cr3 s"
  shows "mmu_translate va t = mmu_translate va s" "store_allowed mc va t = store_allowed mc va s" "table_cells va t = table_cells va s"
  using mmu_walk_agree [of 4 0 va "hw_cr3 s" s t] assms
  by (simp_all add: mmu_translate_def store_allowed_def table_cells_def)

section \<open>Copies of resident memory\<close>

text \<open>A buffer of \<open>n\<close> bytes that is mapped for reading.\<close>

definition readable :: "nat \<Rightarrow> u64 \<Rightarrow> 'a MM_GLOBALS_scheme \<Rightarrow> bool" where
  "readable n va s \<longleftrightarrow> (\<forall>i<n. mmu_translate (va + of_nat i) s \<noteq> None)"

text \<open>The bytes of a buffer.\<close>

definition buffer_bytes :: "nat \<Rightarrow> u64 \<Rightarrow> 'a MM_GLOBALS_scheme \<Rightarrow> u8 list" where
  "buffer_bytes n va s = map (\<lambda>i. the (user_ld s (va + of_nat i))) [0..<n]"

text \<open>A buffer that is mapped, may be written, to distinct bytes of memory none of which is a cell of a
  page table that maps the buffer.\<close>

definition writable_buffer :: "'d machine \<Rightarrow> nat \<Rightarrow> u64 \<Rightarrow> 'a MM_GLOBALS_scheme \<Rightarrow> bool" where
  "writable_buffer mc n va s \<longleftrightarrow> (\<exists>f. inj_on f {..<n} \<and>
     (\<forall>i<n. mmu_translate (va + of_nat i) s = Some (f i) \<and> store_allowed mc (va + of_nat i) s \<and>
        (\<forall>j<n. cell (f i) \<notin> table_cells (va + of_nat j) s)))"

lemma cpu_access_resident: "access_fault mc w va s = None \<Longrightarrow> cpu_access mc w va s = Some s"
  by (subst cpu_access.simps) simp

lemma access_fault_None: "access_fault mc w va s = None \<longleftrightarrow> mmu_translate va s \<noteq> None \<and> (w \<longrightarrow> store_allowed mc va s)"
  by (auto simp: access_fault_def split: option.splits)

lemma readable_Suc: "readable (Suc n) va s \<longleftrightarrow> mmu_translate va s \<noteq> None \<and> readable n (va + 1) s"
proof -
  have "(\<forall>i<Suc n. P i) \<longleftrightarrow> P 0 \<and> (\<forall>i<n. P (Suc i))" for P by (simp add: All_less_Suc2)
  from this [of "\<lambda>i. mmu_translate (va + of_nat i) s \<noteq> None"] show ?thesis by (simp add: readable_def add.assoc)
qed

lemma buffer_bytes_Suc: "buffer_bytes (Suc n) va s = the (user_ld s va) # buffer_bytes n (va + 1) s"
  by (simp add: buffer_bytes_def map_upt_Suc add.assoc del: upt_Suc)

lemma copy_in_resident: "readable n va s \<Longrightarrow> copy_in mc n va s = Some (buffer_bytes n va s, s)"
proof (induction n arbitrary: va)
  case (Suc n)
  then show ?case
    by (auto simp: readable_Suc buffer_bytes_Suc cpu_ld_def cpu_access_resident access_fault_None user_ld_byte)
qed (simp add: buffer_bytes_def)

text \<open>The stores of a copy to a buffer, on the memory alone.\<close>

fun put_bytes :: "(nat \<Rightarrow> u64) \<Rightarrow> nat \<Rightarrow> u8 list \<Rightarrow> (u64 \<Rightarrow> u64) \<Rightarrow> u64 \<Rightarrow> u64" where
  "put_bytes f i [] m = m"
| "put_bytes f i (b # bs) m = put_bytes f (Suc i) bs (with_byte (f i) b m)"

lemma put_bytes_other: "(\<And>j. i \<le> j \<Longrightarrow> j < i + length bs \<Longrightarrow> c \<noteq> cell (f j)) \<Longrightarrow> put_bytes f i bs m c = m c"
  by (induction f i bs m rule: put_bytes.induct) (auto simp: with_byte_def)

lemma byte_at_put_other: "(\<And>j. i \<le> j \<Longrightarrow> j < i + length bs \<Longrightarrow> pa \<noteq> f j) \<Longrightarrow> byte_at pa (put_bytes f i bs m) = byte_at pa m"
  by (induction f i bs m rule: put_bytes.induct) (auto simp: byte_at_with)

lemma byte_at_put:
  assumes "inj_on f {..<i + length bs}" "j < length bs"
  shows "byte_at (f (i + j)) (put_bytes f i bs m) = bs ! j"
  using assms
proof (induction bs arbitrary: i j m)
  case (Cons b bs)
  show ?case
  proof (cases j)
    case 0
    have "f i \<noteq> f k" if "Suc i \<le> k" "k < Suc i + length bs" for k
      using that inj_onD [OF Cons.prems(1), of i k] by auto
    with 0 show ?thesis by (simp add: byte_at_put_other byte_at_with)
  next
    case (Suc k)
    with Cons.IH [of "Suc i" k] Cons.prems show ?thesis by simp
  qed
qed simp

lemma copy_out_puts:
  assumes "\<And>k. k < n \<Longrightarrow> mmu_translate (va + of_nat k) s = Some (f k) \<and> store_allowed mc (va + of_nat k) s \<and>
      (\<forall>j<n. cell (f k) \<notin> table_cells (va + of_nat j) s)"
    and "i + length bs \<le> n" and "\<And>c. (\<forall>k<n. c \<noteq> cell (f k)) \<Longrightarrow> m c = hw_mem s c"
  shows "copy_out mc bs (va + of_nat i) (s\<lparr>hw_mem := m\<rparr>) = Some (s\<lparr>hw_mem := put_bytes f i bs m\<rparr>)"
  using assms(2,3)
proof (induction bs arbitrary: i m)
  case (Cons b bs)
  let ?va = "va + of_nat i"
  have i: "i < n" using Cons.prems(1) by simp
  have "m c = hw_mem s c" if "c \<in> table_cells ?va s" for c
    using that i assms(1) by (intro Cons.prems(2)) blast
  note a = translate_agree(1) [of ?va s "s\<lparr>hw_mem := m\<rparr>", simplified, OF this]
    translate_agree(2) [of ?va s "s\<lparr>hw_mem := m\<rparr>" mc, simplified, OF this]
  have t: "mmu_translate ?va (s\<lparr>hw_mem := m\<rparr>) = Some (f i)" "store_allowed mc ?va (s\<lparr>hw_mem := m\<rparr>)"
    using a(1,2) assms(1) [OF i] by simp_all
  then have st: "cpu_st mc ?va b (s\<lparr>hw_mem := m\<rparr>) = Some (s\<lparr>hw_mem := with_byte (f i) b m\<rparr>)"
    by (simp add: cpu_st_def cpu_access_resident access_fault_None user_st_byte)
  have "with_byte (f i) b m c = hw_mem s c" if "\<forall>k<n. c \<noteq> cell (f k)" for c
    using that i Cons.prems(2) by (simp add: with_byte_def)
  from Cons.IH [of "Suc i", OF _ this] Cons.prems(1) st show ?case by (simp add: copy_out_def ac_simps)
qed (simp add: copy_out_def)

text \<open>A copy to a buffer can be read back, and changes memory only.\<close>

lemma copy_out_buffer:
  assumes "writable_buffer mc (length bs) va s"
  obtains m where "copy_out mc bs va s = Some (s\<lparr>hw_mem := m\<rparr>)" "readable (length bs) va (s\<lparr>hw_mem := m\<rparr>)"
    "buffer_bytes (length bs) va (s\<lparr>hw_mem := m\<rparr>) = bs"
proof -
  let ?n = "length bs"
  from assms obtain f where f: "inj_on f {..<?n}" and k: "\<And>k. k < ?n \<Longrightarrow> mmu_translate (va + of_nat k) s = Some (f k) \<and>
      store_allowed mc (va + of_nat k) s \<and> (\<forall>j<?n. cell (f k) \<notin> table_cells (va + of_nat j) s)"
    by (auto simp: writable_buffer_def)
  let ?t = "s\<lparr>hw_mem := put_bytes f 0 bs (hw_mem s)\<rparr>"
  have c: "copy_out mc bs va s = Some ?t"
    using copy_out_puts [of ?n va s f mc 0 bs "hw_mem s", OF k] by simp
  have t: "mmu_translate (va + of_nat j) ?t = Some (f j)" if "j < ?n" for j
  proof -
    have "hw_mem ?t c = hw_mem s c" if "c \<in> table_cells (va + of_nat j) s" for c
      using that k \<open>j < ?n\<close> by (auto intro!: put_bytes_other)
    from translate_agree(1) [OF this] k [OF that] show ?thesis by simp
  qed
  moreover have "byte_at (f j) (hw_mem ?t) = bs ! j" if "j < ?n" for j
    using byte_at_put [of f 0 bs j] f that by simp
  ultimately have "buffer_bytes ?n va ?t = bs" "readable ?n va ?t"
    by (auto simp: buffer_bytes_def readable_def user_ld_byte intro!: nth_equalityI)
  with c that show thesis by blast
qed

end
