(* ===== verification/NtxSyscall.thy ===== *)
theory NtxSyscall
  imports NtxUserCopy NtxObjects
begin

text \<open>
  The system calls, \<^verbatim>\<open>kernel/ke/syscall.c\<close>, and the trap that enters them, \<^verbatim>\<open>HalpHandleSyscallTrap\<close> of
  \<^verbatim>\<open>hal/aur64/hal_intr.c\<close>.

  A handler returns the value of \<^verbatim>\<open>rax\<close> and the state; \<open>None\<close> is a halted machine or a loop that does not end.  The
  handlers read and write the memory of the caller with the accesses of \<open>NtxUserCopy\<close>.  The console is a component
  of its own beside the kernel globals; only the two calls that use it take it.
\<close>

section \<open>Definitions\<close>

definition KI_SYSCALL_DEBUGPRINT_MAX :: u64 where "KI_SYSCALL_DEBUGPRINT_MAX = 512"
definition KI_USER_ADDRESS_TOP :: u64 where "KI_USER_ADDRESS_TOP = 0x0000800000000000"
definition KI_KERNEL_ADDRESS_BASE :: u64 where "KI_KERNEL_ADDRESS_BASE = 0xFFFF800000000000"

type_synonym ('a, 'd) system = "'a IO_GLOBALS_scheme \<times> HAL_CONSOLE \<times> 'd"

subsection \<open>Address ranges and results\<close>

definition status_value :: "KSTATUS \<Rightarrow> u64" where
  "status_value Status = word_of_int (kstatus_value Status)"

definition KipIsRangeReadable :: "u64 \<Rightarrow> u64 \<Rightarrow> bool" where
  "KipIsRangeReadable Address Length =
     (if Address = 0 \<or> Length = 0 then False
      else
        let End = Address + Length in
        if End < Address then False
        else if Address < KI_USER_ADDRESS_TOP \<and> End \<le> KI_USER_ADDRESS_TOP then True
        else if Address \<ge> KI_KERNEL_ADDRESS_BASE \<and> End \<ge> Address then True
        else False)"

definition KipIsRangeWritable :: "u64 \<Rightarrow> u64 \<Rightarrow> bool" where
  "KipIsRangeWritable Address Length = KipIsRangeReadable Address Length"

text \<open>An optional result stored as 64 bits; address 0 stands for no result wanted.\<close>

definition store_result :: "'d machine \<Rightarrow> u64 \<Rightarrow> u64 \<Rightarrow> 'a PS_GLOBALS_scheme \<Rightarrow> 'a PS_GLOBALS_scheme option" where
  "store_result mc Address Value s = (if Address \<noteq> 0 then copy_out mc (le_bytes 8 Value) Address s else Some s)"

subsection \<open>Debug print and the debug commands\<close>

definition is_command :: "string \<Rightarrow> string \<Rightarrow> bool" where
  "is_command Buffer Name \<longleftrightarrow> KipStartsWith Buffer Name \<or> KipStartsWith Buffer (CHR '':'' # Name)"

definition dump_current_regions :: "'a PS_GLOBALS_scheme \<Rightarrow> string option" where
  "dump_current_regions s = (case current_space s of None \<Rightarrow> Some [] | Some a \<Rightarrow> MmDumpAddressSpaceRegions (Some a) s)"

definition prefixed :: "string \<Rightarrow> string option \<Rightarrow> (bool \<times> string) option" where
  "prefixed Head Body = map_option (\<lambda>t. (True, Head @ [CHR 0x0A] @ t)) Body"

text \<open>The command in the buffer: whether the call goes on, and the text it prints.\<close>

definition debug_command :: "string \<Rightarrow> 'a IO_GLOBALS_scheme \<Rightarrow> (bool \<times> string) option" where
  "debug_command Buffer s =
     (if is_command Buffer ''help'' then
        Some (True, ''debug commands: help mem ps handles ipc vm panic files objects'' @ [CHR 0x0A] @
          ''debug commands: :mm.faults :mm.dumpva <hex>'' @ [CHR 0x0A])
      else if is_command Buffer ''mem'' then
        prefixed ''[DBG] mem'' (do { r \<leftarrow> dump_current_regions s; f \<leftarrow> MmDumpRecentFaults s; Some (r @ f) })
      else if is_command Buffer ''ps'' then prefixed ''[DBG] ps'' (PsDumpSchedulerState s)
      else if is_command Buffer ''handles'' then prefixed ''[DBG] handles'' (ObDumpHandles s)
      else if is_command Buffer ''objects'' then prefixed ''[DBG] objects'' (ObDumpObjects s)
      else if is_command Buffer ''ipc'' then prefixed ''[DBG] ipc'' (LpcDumpState s)
      else if is_command Buffer ''files'' then prefixed ''[DBG] files'' (IoDumpFiles s)
      else if is_command Buffer ''vm'' then prefixed ''[DBG] vm'' (dump_current_regions s)
      else if is_command Buffer ''panic'' then
        do { f \<leftarrow> MmDumpRecentFaults s; Some (False, ''[DBG] panic requested'' @ [CHR 0x0A] @ f) }
      else if KipStartsWith Buffer '':mm.faults'' then map_option (Pair True) (MmDumpRecentFaults s)
      else if KipStartsWith Buffer '':mm.dumpva '' then
        (case current_space s of
           None \<Rightarrow> Some (True, [])
         | Some a \<Rightarrow>
             (case KipParseHex64 (Some (drop 11 Buffer)) True of
                None \<Rightarrow> Some (True, [])
              | Some Va \<Rightarrow> map_option (Pair True) (MmDumpAddressTranslation (Some (as_RootTablePhysical (gMmAddressSpacePool s a))) Va s)))
      else Some (True, []))"

definition KipSysDebugPrint :: "'d machine \<Rightarrow> u64 \<Rightarrow> u64 \<Rightarrow> ('a, 'd) system \<Rightarrow> (u64 \<times> ('a, 'd) system) option" where
  "KipSysDebugPrint mc StringAddress Length x =
     (case x of (s, cd) \<Rightarrow>
        if Length > KI_SYSCALL_DEBUGPRINT_MAX \<or> \<not> KipIsRangeReadable StringAddress Length
        then Some (status_value KSTATUS_INVALID_PARAMETER, s, cd)
        else do {
          (Input, s1) \<leftarrow> copy_in mc (unat Length) StringAddress s;
          let cd1 = HalWriteDebugString (mc_ports mc) (Some (Input @ [0])) cd;
          (goes_on, t) \<leftarrow> debug_command (map (\<lambda>b. char_of (unat b)) Input @ [NUL]) s1;
          let cd2 = HalWriteDebugString (mc_ports mc) (Some (map of_char t @ [0])) cd1;
          if goes_on then Some (status_value KSTATUS_SUCCESS, s1, cd2) else None })"

subsection \<open>Threads and ports\<close>

definition KipSysYield :: "'a PS_GLOBALS_scheme \<Rightarrow> (u64 \<times> 'a PS_GLOBALS_scheme) option" where
  "KipSysYield s = do { (Status, s1) \<leftarrow> PsYieldThread s; Some (status_value Status, s1) }"

definition KipSysExitThread :: "u64 \<Rightarrow> 'a PS_GLOBALS_scheme \<Rightarrow> (u64 \<times> 'a PS_GLOBALS_scheme) option" where
  "KipSysExitThread ExitCode s = do { (Status, s1) \<leftarrow> PsExitCurrentThread ExitCode s; Some (status_value Status, s1) }"

definition KipSysSend ::
    "'d machine \<Rightarrow> u64 \<Rightarrow> u64 \<Rightarrow> u64 \<Rightarrow> u64 \<Rightarrow> 'a IO_GLOBALS_scheme \<Rightarrow> (u64 \<times> 'a IO_GLOBALS_scheme) option" where
  "KipSysSend mc Handle MessageAddress MessageLength Wait s =
     (if MessageLength > ucast NK_MESSAGE_PAYLOAD_BYTES \<or> MessageAddress = 0 then Some (status_value KSTATUS_INVALID_PARAMETER, s)
      else if \<not> KipIsRangeReadable MessageAddress MessageLength then Some (status_value KSTATUS_INVALID_PARAMETER, s)
      else do {
        (Input, s1) \<leftarrow> copy_in mc (unat MessageLength) MessageAddress s;
        let Message = \<lparr>msg_Opcode = 0, msg_Length = ucast MessageLength,
              msg_Payload = Input @ replicate (unat NK_MESSAGE_PAYLOAD_BYTES - length Input) 0\<rparr>;
        (Status, s2) \<leftarrow> LpcSendByHandle run_delete (ucast Handle) (Some Message) ((ucast Wait :: u32) \<noteq> 0) s1;
        Some (status_value Status, s2) })"

definition KipSysReceive ::
    "'d machine \<Rightarrow> u64 \<Rightarrow> u64 \<Rightarrow> u64 \<Rightarrow> u64 \<Rightarrow> 'a IO_GLOBALS_scheme \<Rightarrow> (u64 \<times> 'a IO_GLOBALS_scheme) option" where
  "KipSysReceive mc Handle MessageAddress MessageLength Wait s =
     (if MessageLength > ucast NK_MESSAGE_PAYLOAD_BYTES \<or> MessageAddress = 0 then Some (status_value KSTATUS_INVALID_PARAMETER, s)
      else if \<not> KipIsRangeWritable MessageAddress MessageLength then Some (status_value KSTATUS_INVALID_PARAMETER, s)
      else do {
        (r, s1) \<leftarrow> LpcReceiveByHandle run_delete (ucast Handle) True ((ucast Wait :: u32) \<noteq> 0) s;
        (case r of
           Inl Status \<Rightarrow> Some (status_value Status, s1)
         | Inr Message \<Rightarrow>
             if msg_Length Message > ucast MessageLength then Some (status_value KSTATUS_INVALID_PARAMETER, s1)
             else do {
               s2 \<leftarrow> copy_out mc (take (unat (msg_Length Message)) (msg_Payload Message)) MessageAddress s1;
               Some (ucast (msg_Length Message), s2) }) })"

definition KipSysCreatePort :: "u64 \<Rightarrow> 'a IO_GLOBALS_scheme \<Rightarrow> u64 \<times> 'a IO_GLOBALS_scheme" where
  "KipSysCreatePort DesiredAccess s =
     (case LpcCreatePortHandle run_delete (ucast DesiredAccess) True s of
        (Inl Status, s1) \<Rightarrow> (status_value Status, s1)
      | (Inr HandleValue, s1) \<Rightarrow> (ucast HandleValue, s1))"

definition KipSysCloseHandle :: "u64 \<Rightarrow> 'a IO_GLOBALS_scheme \<Rightarrow> u64 \<times> 'a IO_GLOBALS_scheme" where
  "KipSysCloseHandle HandleValue s =
     (case LpcCloseHandle run_delete (ucast HandleValue) s of (Status, s1) \<Rightarrow> (status_value Status, s1))"

subsection \<open>Memory\<close>

definition KipSysMapMemory :: "u64 \<Rightarrow> 'a PS_GLOBALS_scheme \<Rightarrow> (u64 \<times> 'a PS_GLOBALS_scheme) option" where
  "KipSysMapMemory Flags s =
     (case current_space s of
        None \<Rightarrow> Some (status_value KSTATUS_INVALID_PARAMETER, s)
      | Some AddressSpace \<Rightarrow>
          let RequestedSize = (if Flags = 0 then MM_PAGE_SIZE else Flags) in do {
            (r, s1) \<leftarrow> MmMapAnonymous (Some AddressSpace) RequestedSize (MM_PROT_READ OR MM_PROT_WRITE) MM_REGION_FLAG_LAZY True s;
            (case r of
               Inl Status \<Rightarrow> Some (status_value Status, s1)
             | Inr VirtualBase \<Rightarrow> Some (VirtualBase, s1)) })"

definition KipSysCreateSection ::
    "'d machine \<Rightarrow> u64 \<Rightarrow> u64 \<Rightarrow> u64 \<Rightarrow> 'a IO_GLOBALS_scheme \<Rightarrow> (u64 \<times> 'a IO_GLOBALS_scheme) option" where
  "KipSysCreateSection mc Size DesiredAccess OutHandleAddress s =
     (if OutHandleAddress = 0 \<or> \<not> KipIsRangeWritable OutHandleAddress 4 then Some (status_value KSTATUS_INVALID_PARAMETER, s)
      else
        let AccessMask = (if DesiredAccess = 0 then MM_SECTION_ACCESS_ALL else ucast DesiredAccess) in
        case MmCreateSectionHandle run_delete Size AccessMask True s of
          (Inl Status, s1) \<Rightarrow> Some (status_value Status, s1)
        | (Inr HandleValue, s1) \<Rightarrow> do {
            s2 \<leftarrow> copy_out mc (le_bytes 4 HandleValue) OutHandleAddress s1;
            Some (status_value KSTATUS_SUCCESS, s2) })"

definition KipSysMapSection ::
    "'d machine \<Rightarrow> u64 \<Rightarrow> u64 \<Rightarrow> u64 \<Rightarrow> 'a IO_GLOBALS_scheme \<Rightarrow> (u64 \<times> 'a IO_GLOBALS_scheme) option" where
  "KipSysMapSection mc HandleValue Protection OutAddress s =
     (if OutAddress = 0 \<or> \<not> KipIsRangeWritable OutAddress 8 then Some (status_value KSTATUS_INVALID_PARAMETER, s)
      else case current_space s of
        None \<Rightarrow> Some (status_value KSTATUS_INVALID_PARAMETER, s)
      | Some AddressSpace \<Rightarrow>
          (case MmMapSectionHandle run_delete (Some AddressSpace) (ucast HandleValue) (ucast Protection) True s of
             (Inl Status, s1) \<Rightarrow> Some (status_value Status, s1)
           | (Inr VirtualBase, s1) \<Rightarrow> do {
               s2 \<leftarrow> copy_out mc (le_bytes 8 VirtualBase) OutAddress s1;
               Some (status_value KSTATUS_SUCCESS, s2) }))"

subsection \<open>Processes and files\<close>

text \<open>The end of the two calls that start a process: the two optional results.\<close>

definition spawn_results ::
    "'d machine \<Rightarrow> u64 \<Rightarrow> u64 \<Rightarrow> KSTATUS + u64 \<times> u64 \<Rightarrow> 'a PS_GLOBALS_scheme \<Rightarrow> (u64 \<times> 'a PS_GLOBALS_scheme) option" where
  "spawn_results mc OutProcessIdAddress OutEntryAddress r s =
     (case r of
        Inl Status \<Rightarrow> Some (status_value Status, s)
      | Inr (ProcessId, Entry) \<Rightarrow> do {
          s1 \<leftarrow> store_result mc OutProcessIdAddress ProcessId s;
          s2 \<leftarrow> store_result mc OutEntryAddress Entry s1;
          Some (status_value KSTATUS_SUCCESS, s2) })"

definition KipSysCreateProcessFromBuffer ::
    "'d machine \<Rightarrow> u64 \<Rightarrow> u64 \<Rightarrow> u64 \<Rightarrow> u64 \<Rightarrow> 'a PS_GLOBALS_scheme \<Rightarrow> (u64 \<times> 'a PS_GLOBALS_scheme) option" where
  "KipSysCreateProcessFromBuffer mc ImageAddress ImageSize OutProcessIdAddress OutEntryAddress s =
     (if ImageAddress = 0 \<or> ImageSize = 0 then Some (status_value KSTATUS_INVALID_PARAMETER, s)
      else if \<not> KipIsRangeReadable ImageAddress ImageSize then Some (status_value KSTATUS_INVALID_PARAMETER, s)
      else if OutProcessIdAddress \<noteq> 0 \<and> \<not> KipIsRangeWritable OutProcessIdAddress 8 then Some (status_value KSTATUS_INVALID_PARAMETER, s)
      else if OutEntryAddress \<noteq> 0 \<and> \<not> KipIsRangeWritable OutEntryAddress 8 then Some (status_value KSTATUS_INVALID_PARAMETER, s)
      else do {
        (r, s1) \<leftarrow> PsSpawnUserKpeFromBuffer (Some (read_bytes user_ld (unat ImageSize) ImageAddress)) ImageSize s;
        spawn_results mc OutProcessIdAddress OutEntryAddress r s1 })"

definition KipSysOpen :: "'d machine \<Rightarrow> u64 \<Rightarrow> u64 \<Rightarrow> u64 \<Rightarrow> 'a IO_GLOBALS_scheme \<Rightarrow> (u64 \<times> 'a IO_GLOBALS_scheme) option" where
  "KipSysOpen mc PathAddress PathLength DesiredAccess s =
     (if PathAddress = 0 \<or> PathLength = 0 \<or> PathLength \<ge> 128 then Some (status_value KSTATUS_INVALID_PARAMETER, s)
      else if \<not> KipIsRangeReadable PathAddress PathLength then Some (status_value KSTATUS_INVALID_PARAMETER, s)
      else do {
        (Input, s1) \<leftarrow> copy_in mc (unat PathLength) PathAddress s;
        Some (case IoOpenPath run_delete (Some (c_str (map (\<lambda>b. char_of (unat b)) Input @ [NUL]))) (ucast DesiredAccess) True s1 of
                (Inl Status, s2) \<Rightarrow> (status_value Status, s2)
              | (Inr HandleValue, s2) \<Rightarrow> (ucast HandleValue, s2)) })"

text \<open>The bytes are read before the first of them is stored: the buffer does not overlap the data of the file.\<close>

definition KipSysRead ::
    "'d machine \<Rightarrow> u64 \<Rightarrow> u64 \<Rightarrow> u64 \<Rightarrow> u64 \<Rightarrow> 'a IO_GLOBALS_scheme \<Rightarrow> (u64 \<times> 'a IO_GLOBALS_scheme) option" where
  "KipSysRead mc HandleValue Offset BufferAddress BufferLength s =
     (if BufferAddress = 0 \<or> BufferLength = 0 then Some (status_value KSTATUS_INVALID_PARAMETER, s)
      else if \<not> KipIsRangeWritable BufferAddress BufferLength then Some (status_value KSTATUS_INVALID_PARAMETER, s)
      else do {
        (r, s1) \<leftarrow> IoReadFileHandle run_delete (ucast HandleValue) Offset True BufferLength True s;
        (case r of
           Inl Status \<Rightarrow> Some (status_value Status, s1)
         | Inr bs \<Rightarrow> do {
             s2 \<leftarrow> copy_out mc bs BufferAddress s1;
             Some (of_nat (length bs), s2) }) })"

definition KipSysClose :: "u64 \<Rightarrow> 'a IO_GLOBALS_scheme \<Rightarrow> u64 \<times> 'a IO_GLOBALS_scheme" where
  "KipSysClose HandleValue s =
     (case IoCloseFileHandle run_delete (ucast HandleValue) s of (Status, s1) \<Rightarrow> (status_value Status, s1))"

definition KipSysCreateProcessFromFileHandle ::
    "'d machine \<Rightarrow> u64 \<Rightarrow> u64 \<Rightarrow> u64 \<Rightarrow> 'a IO_GLOBALS_scheme \<Rightarrow> (u64 \<times> 'a IO_GLOBALS_scheme) option" where
  "KipSysCreateProcessFromFileHandle mc HandleValue OutProcessIdAddress OutEntryAddress s =
     (if OutProcessIdAddress \<noteq> 0 \<and> \<not> KipIsRangeWritable OutProcessIdAddress 8 then Some (status_value KSTATUS_INVALID_PARAMETER, s)
      else if OutEntryAddress \<noteq> 0 \<and> \<not> KipIsRangeWritable OutEntryAddress 8 then Some (status_value KSTATUS_INVALID_PARAMETER, s)
      else do {
        (r, s1) \<leftarrow> IoSpawnProcessFromFileHandle run_delete (ucast HandleValue) s;
        spawn_results mc OutProcessIdAddress OutEntryAddress r s1 })"

subsection \<open>Console input\<close>

text \<open>The loop with at most \<open>k\<close> characters still to read into the buffer from \<open>va\<close> on; the number read.\<close>

fun console_loop :: "'d machine \<Rightarrow> nat \<Rightarrow> u64 \<Rightarrow> ('a, 'd) system \<Rightarrow> (nat \<times> ('a, 'd) system) option" where
  "console_loop mc 0 va x = Some (0, x)"
| "console_loop mc (Suc k) va x =
     (case x of (s, cd) \<Rightarrow>
        (case HalTryReadConsoleChar (mc_ports mc) True cd of
           (None, cd1) \<Rightarrow> Some (0, s, cd1)
         | (Some Ch, cd1) \<Rightarrow> do {
             s1 \<leftarrow> cpu_st mc va Ch s;
             (n, y) \<leftarrow> console_loop mc k (va + 1) (s1, cd1);
             Some (Suc n, y) }))"

definition KipSysReadConsole :: "'d machine \<Rightarrow> u64 \<Rightarrow> u64 \<Rightarrow> ('a, 'd) system \<Rightarrow> (u64 \<times> ('a, 'd) system) option" where
  "KipSysReadConsole mc BufferAddress BufferLength x =
     (if BufferAddress = 0 \<or> BufferLength = 0 then Some (status_value KSTATUS_INVALID_PARAMETER, x)
      else if \<not> KipIsRangeWritable BufferAddress BufferLength then Some (status_value KSTATUS_INVALID_PARAMETER, x)
      else do { (n, y) \<leftarrow> console_loop mc (unat BufferLength) BufferAddress x; Some (of_nat n, y) })"

subsection \<open>Dispatch\<close>

datatype NK_SYSCALL_NUMBER =
    NkSysDebugPrint | NkSysYield | NkSysSend | NkSysReceive | NkSysMapMemory | NkSysExitThread | NkSysCreatePort | NkSysCloseHandle
  | NkSysCreateSection | NkSysMapSection | NkSysCreateProcessFromBuffer | NkSysOpen | NkSysRead | NkSysClose
  | NkSysCreateProcessFromFileHandle | NkSysReadConsole

definition syscall_numbers :: "NK_SYSCALL_NUMBER list" where
  "syscall_numbers = [NkSysDebugPrint, NkSysYield, NkSysSend, NkSysReceive, NkSysMapMemory, NkSysExitThread, NkSysCreatePort,
     NkSysCloseHandle, NkSysCreateSection, NkSysMapSection, NkSysCreateProcessFromBuffer, NkSysOpen, NkSysRead, NkSysClose,
     NkSysCreateProcessFromFileHandle, NkSysReadConsole]"

definition syscall_of :: "u64 \<Rightarrow> NK_SYSCALL_NUMBER option" where
  "syscall_of Number = (if Number < 16 then Some (syscall_numbers ! unat Number) else None)"

text \<open>A call that does not use the console.\<close>

definition lift_kernel ::
    "('a IO_GLOBALS_scheme \<Rightarrow> (u64 \<times> 'a IO_GLOBALS_scheme) option) \<Rightarrow> ('a, 'd) system \<Rightarrow> (u64 \<times> ('a, 'd) system) option" where
  "lift_kernel f x = (case x of (s, cd) \<Rightarrow> map_option (\<lambda>(v, s1). (v, s1, cd)) (f s))"

definition KiDispatchSystemCall ::
    "'d machine \<Rightarrow> u64 \<Rightarrow> u64 \<Rightarrow> u64 \<Rightarrow> u64 \<Rightarrow> u64 \<Rightarrow> u64 \<Rightarrow> u64 \<Rightarrow> ('a, 'd) system \<Rightarrow> (u64 \<times> ('a, 'd) system) option" where
  "KiDispatchSystemCall mc Number Arg0 Arg1 Arg2 Arg3 Arg4 Arg5 x =
     (case syscall_of Number of
        Some NkSysDebugPrint \<Rightarrow> KipSysDebugPrint mc Arg0 Arg1 x
      | Some NkSysYield \<Rightarrow> lift_kernel KipSysYield x
      | Some NkSysSend \<Rightarrow> lift_kernel (KipSysSend mc Arg0 Arg1 Arg2 Arg3) x
      | Some NkSysReceive \<Rightarrow> lift_kernel (KipSysReceive mc Arg0 Arg1 Arg2 Arg3) x
      | Some NkSysMapMemory \<Rightarrow> lift_kernel (KipSysMapMemory Arg0) x
      | Some NkSysExitThread \<Rightarrow> lift_kernel (KipSysExitThread Arg0) x
      | Some NkSysCreatePort \<Rightarrow> lift_kernel (\<lambda>s. Some (KipSysCreatePort Arg0 s)) x
      | Some NkSysCloseHandle \<Rightarrow> lift_kernel (\<lambda>s. Some (KipSysCloseHandle Arg0 s)) x
      | Some NkSysCreateSection \<Rightarrow> lift_kernel (KipSysCreateSection mc Arg0 Arg1 Arg2) x
      | Some NkSysMapSection \<Rightarrow> lift_kernel (KipSysMapSection mc Arg0 Arg1 Arg2) x
      | Some NkSysCreateProcessFromBuffer \<Rightarrow> lift_kernel (KipSysCreateProcessFromBuffer mc Arg0 Arg1 Arg2 Arg3) x
      | Some NkSysOpen \<Rightarrow> lift_kernel (KipSysOpen mc Arg0 Arg1 Arg2) x
      | Some NkSysRead \<Rightarrow> lift_kernel (KipSysRead mc Arg0 Arg1 Arg2 Arg3) x
      | Some NkSysClose \<Rightarrow> lift_kernel (\<lambda>s. Some (KipSysClose Arg0 s)) x
      | Some NkSysCreateProcessFromFileHandle \<Rightarrow> lift_kernel (KipSysCreateProcessFromFileHandle mc Arg0 Arg1 Arg2) x
      | Some NkSysReadConsole \<Rightarrow> KipSysReadConsole mc Arg0 Arg1 x
      | None \<Rightarrow> Some (status_value KSTATUS_NOT_IMPLEMENTED, x))"

text \<open>The registers the trap saves, and the trap: the result replaces the saved \<^verbatim>\<open>rax\<close>, the others are restored.\<close>

record HALP_SYSCALL_REG_FRAME =
  sf_R11 :: u64
  sf_R10 :: u64
  sf_R9 :: u64
  sf_R8 :: u64
  sf_Rdx :: u64
  sf_Rsi :: u64
  sf_Rdi :: u64
  sf_Rax :: u64

definition HalpHandleSyscallTrap ::
    "'d machine \<Rightarrow> HALP_SYSCALL_REG_FRAME \<Rightarrow> ('a, 'd) system \<Rightarrow> (HALP_SYSCALL_REG_FRAME \<times> ('a, 'd) system) option" where
  "HalpHandleSyscallTrap mc Frame x = do {
     (v, y) \<leftarrow> KiDispatchSystemCall mc (sf_Rax Frame) (sf_Rdi Frame) (sf_Rsi Frame) (sf_Rdx Frame) (sf_R10 Frame) (sf_R8 Frame) (sf_R9 Frame) x;
     Some (Frame\<lparr>sf_Rax := v\<rparr>, y) }"

section \<open>Address ranges\<close>

text \<open>A nonempty range, not at address 0, that lies in one canonical half of the address space.\<close>

definition in_half :: "u64 \<times> u64 \<Rightarrow> bool" where
  "in_half r \<longleftrightarrow> (case r of (a, n) \<Rightarrow> a \<noteq> 0 \<and> n \<noteq> 0 \<and> unat a + unat n < 2 ^ 64 \<and>
     (unat a + unat n \<le> 2 ^ 47 \<or> 2 ^ 64 - 2 ^ 47 \<le> unat a))"

lemma range_in_half: "KipIsRangeReadable a n = in_half (a, n)" "KipIsRangeWritable a n = in_half (a, n)"
proof -
  have w: "\<not> a + n < a \<longleftrightarrow> unat a + unat n < 2 ^ 64" using no_olen_add_nat [of a n] by (simp add: not_less)
  have "KipIsRangeReadable a n = in_half (a, n)"
  proof (cases "a \<noteq> 0 \<and> n \<noteq> 0 \<and> unat a + unat n < 2 ^ 64")
    case True
    then have "unat (a + n) = unat a + unat n" by (simp add: unat_word_ariths)
    moreover have "0 < unat n" using True by (simp add: unat_gt_0)
    ultimately have "(a < KI_USER_ADDRESS_TOP \<and> a + n \<le> KI_USER_ADDRESS_TOP) = (unat a + unat n \<le> 2 ^ 47)"
      "(a \<ge> KI_KERNEL_ADDRESS_BASE) = (2 ^ 64 - 2 ^ 47 \<le> unat a)"
      by (auto simp: KI_USER_ADDRESS_TOP_def KI_KERNEL_ADDRESS_BASE_def word_less_nat_alt word_le_nat_alt)
    moreover have "a \<le> a + n" using w True by (simp add: not_less)
    ultimately show ?thesis using True w by (auto simp: KipIsRangeReadable_def in_half_def Let_def)
  next
    case False
    then show ?thesis using w by (auto simp: KipIsRangeReadable_def in_half_def Let_def)
  qed
  then show "KipIsRangeReadable a n = in_half (a, n)" "KipIsRangeWritable a n = in_half (a, n)"
    by (simp_all add: KipIsRangeWritable_def)
qed

text \<open>The memory a call names in its arguments.\<close>

definition optional_range :: "u64 \<Rightarrow> (u64 \<times> u64) list" where
  "optional_range a = (if a = 0 then [] else [(a, 8)])"

fun user_ranges :: "NK_SYSCALL_NUMBER \<Rightarrow> u64 \<Rightarrow> u64 \<Rightarrow> u64 \<Rightarrow> u64 \<Rightarrow> (u64 \<times> u64) list" where
  "user_ranges NkSysDebugPrint a0 a1 a2 a3 = [(a0, a1)]"
| "user_ranges NkSysSend a0 a1 a2 a3 = [(a1, a2)]"
| "user_ranges NkSysReceive a0 a1 a2 a3 = [(a1, a2)]"
| "user_ranges NkSysCreateSection a0 a1 a2 a3 = [(a2, 4)]"
| "user_ranges NkSysMapSection a0 a1 a2 a3 = [(a2, 8)]"
| "user_ranges NkSysCreateProcessFromBuffer a0 a1 a2 a3 = [(a0, a1)] @ optional_range a2 @ optional_range a3"
| "user_ranges NkSysOpen a0 a1 a2 a3 = [(a0, a1)]"
| "user_ranges NkSysRead a0 a1 a2 a3 = [(a2, a3)]"
| "user_ranges NkSysCreateProcessFromFileHandle a0 a1 a2 a3 = optional_range a1 @ optional_range a2"
| "user_ranges NkSysReadConsole a0 a1 a2 a3 = [(a0, a1)]"
| "user_ranges _ a0 a1 a2 a3 = []"

lemmas kernel_calls = KipSysSend_def KipSysReceive_def KipSysCreateSection_def KipSysMapSection_def KipSysCreateProcessFromBuffer_def
  KipSysOpen_def KipSysRead_def KipSysCreateProcessFromFileHandle_def

section \<open>Messages\<close>

lemma with_port_memory [simp]: "hw_mem (with_port p q s) = hw_mem s" "hw_cr3 (with_port p q s) = hw_cr3 s"
  by (simp_all add: with_port_def HalEnableInterrupts_def set_port_def)

lemma copy_cong:
  assumes "hw_mem t = hw_mem s" "hw_cr3 t = hw_cr3 s"
  shows "readable n va t = readable n va s" "buffer_bytes n va t = buffer_bytes n va s" "writable_buffer mc n va t = writable_buffer mc n va s"
proof -
  have a: "mmu_translate x t = mmu_translate x s" "store_allowed mc x t = store_allowed mc x s" "table_cells x t = table_cells x s" for x
    using translate_agree(1) [of x s t] translate_agree(2) [of x s t mc] translate_agree(3) [of x s t] assms by simp_all
  then show "readable n va t = readable n va s" "writable_buffer mc n va t = writable_buffer mc n va s"
    by (simp_all add: readable_def writable_buffer_def)
  show "buffer_bytes n va t = buffer_bytes n va s" using a(1) assms(1) by (simp add: buffer_bytes_def user_ld_byte)
qed

text \<open>The message a send builds from the bytes of the caller.\<close>

definition message_of :: "u8 list \<Rightarrow> NK_MESSAGE" where
  "message_of bs = \<lparr>msg_Opcode = 0, msg_Length = of_nat (length bs), msg_Payload = bs @ replicate (64 - length bs) 0\<rparr>"

lemma message_of_valid: "length bs \<le> 64 \<Longrightarrow> msg_valid (message_of bs)"
  by (simp add: msg_valid_def message_of_def NK_MESSAGE_PAYLOAD_BYTES_def word_le_nat_alt unsigned_of_nat take_bit_nat_eq_self)

lemma send_sends:
  assumes "lpc_usable run_delete (ucast h) ob p s" "port_wf (lp_Port (gLpcPortPool s p))" "length (port_contents (lp_Port (gLpcPortPool s p))) < 32"
    and "readable (unat n) va s" "in_half (va, n)" "unat n \<le> 64"
  obtains q where "KipSysSend mc h va n w s = Some (0, with_port p q s)" "port_wf q"
    "port_contents q = port_contents (lp_Port (gLpcPortPool s p)) @ [message_of (buffer_bytes (unat n) va s)]"
proof -
  let ?m = "message_of (buffer_bytes (unat n) va s)"
  have l: "length (buffer_bytes (unat n) va s) = unat n" by (simp add: buffer_bytes_def)
  obtain st q where sd: "port_send (lp_Port (gLpcPortPool s p)) ?m = (st, q)" by fastforce
  with port_send_ok [OF assms(2) message_of_valid, of "buffer_bytes (unat n) va s"] assms(3,6) l
  have q: "st = KSTATUS_SUCCESS" "port_wf q" "port_contents q = port_contents (lp_Port (gLpcPortPool s p)) @ [?m]" by simp_all
  have "ucast n = (of_nat (unat n) :: u32)" by (simp add: word_unat_eq_iff unsigned_ucast_eq unsigned_of_nat)
  then have m: "?m = \<lparr>msg_Opcode = 0, msg_Length = ucast n, msg_Payload = buffer_bytes (unat n) va s @ replicate (64 - unat n) 0\<rparr>"
    by (simp add: message_of_def l)
  have "LpcSendByHandle run_delete (ucast h) (Some ?m) (ucast w \<noteq> (0 :: u32)) s = Some (KSTATUS_SUCCESS, with_port p q s)"
    using send_quiet [of run_delete s "ucast h" ob p ?m] assms(1) sd q(1) by (simp add: lpc_usable_def)
  moreover have "\<not> 64 < n" "va \<noteq> 0" using assms(5,6) by (simp_all add: word_less_nat_alt in_half_def)
  ultimately have "KipSysSend mc h va n w s = Some (0, with_port p q s)"
    using assms(4,5) by (simp add: KipSysSend_def range_in_half copy_in_resident m l NK_MESSAGE_PAYLOAD_BYTES_def status_value_def)
  with that q show thesis by blast
qed

lemma receive_delivers:
  assumes "lpc_usable run_delete (ucast h) ob p s" "port_wf (lp_Port (gLpcPortPool s p))"
    and "port_contents (lp_Port (gLpcPortPool s p)) = message_of bs # ms" "length bs \<le> unat n" "unat n \<le> 64"
    and "in_half (va, n)" "writable_buffer mc (length bs) va s"
  obtains u where "KipSysReceive mc h va n w s = Some (of_nat (length bs), u)" "buffer_bytes (length bs) va u = bs"
    "port_contents (lp_Port (gLpcPortPool u p)) = ms"
proof -
  obtain r q where rc: "port_receive (lp_Port (gLpcPortPool s p)) = (r, q)" by fastforce
  with port_receive_ok [OF assms(2,3)] have q: "r = Inr (message_of bs)" "port_contents q = ms" by simp_all
  have rcv: "LpcReceiveByHandle run_delete (ucast h) True (ucast w \<noteq> (0 :: u32)) s = Some (Inr (message_of bs), with_port p q s)"
    using receive_once [of run_delete s "ucast h" ob p r q] assms(1) rc q(1) by (auto simp: lpc_usable_def)
  have "writable_buffer mc (length bs) va (with_port p q s)" using assms(7) copy_cong(3) [of "with_port p q s" s mc] by simp
  from copy_out_buffer [OF this] obtain m where co: "copy_out mc bs va (with_port p q s) = Some (with_port p q s\<lparr>hw_mem := m\<rparr>)"
    "buffer_bytes (length bs) va (with_port p q s\<lparr>hw_mem := m\<rparr>) = bs" by blast
  have l: "unat (of_nat (length bs) :: u32) = length bs" "(ucast (of_nat (length bs) :: u32) :: u64) = of_nat (length bs)"
    using assms(4,5) by (simp_all add: word_unat_eq_iff unsigned_ucast_eq unsigned_of_nat take_bit_nat_eq_self)
  have "unat (ucast n :: u32) = unat n" using assms(5) by (simp add: unsigned_ucast_eq take_bit_nat_eq_self)
  then have "\<not> (ucast n :: u32) < of_nat (length bs)" using assms(4) l by (simp add: word_less_nat_alt)
  moreover have "\<not> 64 < n" "va \<noteq> 0" using assms(5,6) by (simp_all add: word_less_nat_alt in_half_def)
  ultimately have "KipSysReceive mc h va n w s = Some (of_nat (length bs), with_port p q s\<lparr>hw_mem := m\<rparr>)"
    using assms(6) rcv co(1) l by (simp add: KipSysReceive_def range_in_half message_of_def NK_MESSAGE_PAYLOAD_BYTES_def)
  with that co(2) q(2) show thesis by simp
qed

section \<open>Properties\<close>

text \<open>C12: which calls are refused.  A number outside the table is answered with \<open>KSTATUS_NOT_IMPLEMENTED\<close>.  A call one of
  whose memory arguments is empty, null, wraps around or does not lie in one canonical half of the address space is
  answered with \<open>KSTATUS_INVALID_PARAMETER\<close>.  Neither changes anything, the console included.\<close>

theorem KiDispatchSystemCall_rejects:
  "case syscall_of Number of
     None \<Rightarrow> KiDispatchSystemCall mc Number a0 a1 a2 a3 a4 a5 x = Some (status_value KSTATUS_NOT_IMPLEMENTED, x)
   | Some c \<Rightarrow> (\<exists>r\<in>set (user_ranges c a0 a1 a2 a3). \<not> in_half r) \<longrightarrow>
       KiDispatchSystemCall mc Number a0 a1 a2 a3 a4 a5 x = Some (status_value KSTATUS_INVALID_PARAMETER, x)"
proof (cases "syscall_of Number")
  case (Some c)
  show ?thesis
    unfolding Some option.case
    by (cases c; cases x)
      (auto simp: KiDispatchSystemCall_def Some lift_kernel_def kernel_calls KipSysDebugPrint_def KipSysReadConsole_def range_in_half optional_range_def)
qed (simp add: KiDispatchSystemCall_def)

text \<open>C11: a message sent from one buffer and received into another arrives unchanged.  Over an empty port with no waiting
  thread, the send succeeds, the receive returns the length of the message, and the buffer of the receiver then
  holds the bytes the sender's held.\<close>

theorem KipSysSend_Receive:
  assumes "lpc_usable run_delete (ucast h) ob p s" and "port_wf (lp_Port (gLpcPortPool s p))" and "port_contents (lp_Port (gLpcPortPool s p)) = []"
    and "readable (unat n) va s" and "in_half (va, n)" and "in_half (vb, m)" and "n \<le> m" and "m \<le> 64"
    and "writable_buffer mc (unat n) vb s"
  shows "\<exists>t u. KipSysSend mc h va n w s = Some (0, t) \<and> KipSysReceive mc h vb m w' t = Some (n, u) \<and>
    buffer_bytes (unat n) vb u = buffer_bytes (unat n) va s"
proof -
  let ?bs = "buffer_bytes (unat n) va s"
  have l: "length ?bs = unat n" by (simp add: buffer_bytes_def)
  have n: "unat n \<le> unat m" "unat m \<le> 64" using assms(7,8) by (simp_all add: word_le_nat_alt)
  obtain q where snd: "KipSysSend mc h va n w s = Some (0, with_port p q s)" and q: "port_wf q" "port_contents q = [message_of ?bs]"
    by (rule send_sends [OF assms(1,2) _ assms(4,5), of mc w]) (use assms(3) n in auto)
  let ?t = "with_port p q s"
  have "writable_buffer mc (length ?bs) vb ?t" using assms(9) l copy_cong(3) [of ?t s mc] by simp
  then obtain u where "KipSysReceive mc h vb m w' ?t = Some (of_nat (length ?bs), u)" "buffer_bytes (length ?bs) vb u = ?bs"
    using receive_delivers [OF lpc_usable_with [OF assms(1)], of p q ?bs "[]" m vb mc w'] q n l assms(6) by auto
  with snd l show ?thesis by auto
qed

text \<open>The state \<open>io_demo\<close>, whose one large page maps the first gigabyte to itself, on a processor that does
  not write protect the kernel.\<close>

definition demo_machine :: "unit machine" where
  "demo_machine = \<lparr>mc_ports = demo_ports, mc_wp = False, mc_ip = 0\<rparr>"

lemma io_demo_walk:
  assumes "va \<in> {0x5000, 0x5001, 0x5002, 0x6000, 0x6001, 0x6002}"
  shows "mmu_translate va io_demo = Some va" "0x6000 \<notin> table_cells va io_demo" "0x1FF8 \<notin> table_cells va io_demo"
proof -
  have m: "hw_mem io_demo 0x1000 = 0x2003" "hw_mem io_demo 0x2000 = 0x83" "hw_mem io_demo 0 = 0" "hw_cr3 io_demo = 0x1000"
    by (simp_all add: io_demo_def)
  have sl: "slot 0x1000 (walk_index va 0) = 0x1000" "slot 0x2003 (walk_index va 1) = 0x2000"
    "slot 0x83 (walk_index va 2) = 0" "slot 0 (walk_index va 3) \<in> {0x28, 0x30}"
    using assms by (auto simp: walk_index_def slot_def MM_PTE_ADDR_MASK_def)
  have n: "(4 :: nat) = Suc (Suc 2)" by simp
  have "mmu_walk (Suc (Suc 2)) 0 va 0x1000 io_demo = Some va"
    unfolding mmu_walk.simps using assms sl(1,2)
    by (auto simp: m Let_def has_flag_def MM_PTE_PRESENT_def MM_PTE_LARGE_def MM_PTE_ADDR_MASK_def mask_eq_exp_minus_1)
  then show "mmu_translate va io_demo = Some va" unfolding mmu_translate_def m(4) n .
  have "walk_cells 4 0 va 0x1000 io_demo \<subseteq> {0x1000, 0x2000, 0, 0x28, 0x30}"
    using sl m by (simp add: eval_nat_numeral Let_def)
  then have "c \<in> {0x1000, 0x2000, 0, 0x28, 0x30}" if "c \<in> table_cells va io_demo" for c
    using that by (auto simp: table_cells_def m(4))
  from this [of "0x6000"] this [of "0x1FF8"] show "0x6000 \<notin> table_cells va io_demo" "0x1FF8 \<notin> table_cells va io_demo" by auto
qed

lemma io_demo_usable: "lpc_usable run_delete 4 0 0 io_demo"
proof -
  have "port_at run_delete io_demo 4 acc 0 0" if "acc = 1 \<or> acc = 2" for acc
    using that
    by (auto simp: port_at_def LpcpReferencePortByHandle_def ObGetKernelHandleTable_def ObReferenceObjectByHandle_def ObpFindHandleEntry_def
        OB_MAX_HANDLES_def LpcpFindPortByHeader_def LPC_MAX_PORT_OBJECTS_def set_object_def Let_def
        io_demo_def io_bss_def lpc_demo_def LPC_GLOBALS.defs IO_GLOBALS.defs)
  then show ?thesis
    by (simp add: lpc_usable_def lpc_access port_quiet_def lpc_demo_facts io_demo_def io_bss_def LPC_GLOBALS.defs IO_GLOBALS.defs)
qed

theorem KipSysSend_Receive_witness:
  "\<exists>t u. KipSysSend demo_machine 4 0x5000 3 0 io_demo = Some (0, t) \<and> KipSysReceive demo_machine 4 0x6000 8 0 t = Some (3, u) \<and>
    buffer_bytes 3 0x6000 u = [0x0A, 0x0B, 0x0C]"
proof -
  have p: "lp_Port (gLpcPortPool io_demo 0) = empty_port"
    by (simp add: io_demo_def io_bss_def lpc_demo_def LPC_GLOBALS.defs IO_GLOBALS.defs)
  have lt: "i < 3 \<longleftrightarrow> i = 0 \<or> i = 1 \<or> i = 2" for i :: nat by auto
  have r: "readable (unat (3 :: u64)) 0x5000 io_demo" by (auto simp: readable_def lt io_demo_translate)
  have b: "buffer_bytes (unat (3 :: u64)) 0x5000 io_demo = [0x0A, 0x0B, 0x0C]"
    by (simp add: buffer_bytes_def upt_rec io_demo_ld)
  have c: "cell (0x6000 + of_nat i) = 0x6000" "0x6000 \<notin> table_cells (0x6000 + of_nat i) io_demo"
      "mmu_translate (0x6000 + of_nat i) io_demo = Some (0x6000 + of_nat i)" if "i < 3" for i
    using that io_demo_walk [of "0x6000 + of_nat i"] by (auto simp: lt cell_def)
  have w: "writable_buffer demo_machine (unat (3 :: u64)) 0x6000 io_demo"
    unfolding writable_buffer_def
    by (rule exI [of _ "\<lambda>i. 0x6000 + of_nat i"])
      (auto simp: c store_allowed_def demo_machine_def inj_on_def lt)
  have u: "lpc_usable run_delete (ucast (4 :: u64)) 0 0 io_demo" using io_demo_usable by simp
  have q: "port_wf (lp_Port (gLpcPortPool io_demo 0))" "port_contents (lp_Port (gLpcPortPool io_demo 0)) = []"
    by (simp_all add: p empty_port_wf)
  have h: "in_half (0x5000, 3)" "in_half (0x6000, 8)" "(3 :: u64) \<le> 8" "(8 :: u64) \<le> 64" by (simp_all add: in_half_def)
  from KipSysSend_Receive [OF u q r h w] b show ?thesis by simp
qed

text \<open>C29: the range check of a system call accepts kernel addresses.  A read of one byte into any mapped byte of the upper
  half succeeds and overwrites that byte of kernel memory with the first byte of the file.\<close>

theorem KipSysRead_kernel_address:
  assumes "file_at s (ucast h) ob fo" and "file_holds s fo (b # bs)" and "0xFFFF800000000000 \<le> va" and "va \<noteq> 0xFFFFFFFFFFFFFFFF"
    and "writable_buffer mc 1 va s"
  shows "\<exists>t. KipSysRead mc h 0 va 1 s = Some (1, t) \<and> user_ld t va = Some b"
proof -
  have h: "in_half (va, 1)"
  proof -
    have "unat va \<noteq> unat (0xFFFFFFFFFFFFFFFF :: u64)" using assms(4) by (simp add: word_unat_eq_iff)
    then show ?thesis using assms(3) unsigned_less [of va, where 'a = nat] by (auto simp: in_half_def word_le_nat_alt)
  qed
  have rd: "IoReadFileHandle run_delete (ucast h) 0 True 1 True s = Some (Inr [b], s)"
    using read_file_effect [OF assms(1,2), of 1 run_delete 0] by simp
  obtain m where "copy_out mc [b] va s = Some (s\<lparr>hw_mem := m\<rparr>)" and r: "readable 1 va (s\<lparr>hw_mem := m\<rparr>)" "buffer_bytes 1 va (s\<lparr>hw_mem := m\<rparr>) = [b]"
    by (rule copy_out_buffer [of mc "[b]" va s]) (use assms(5) in auto)
  then have "KipSysRead mc h 0 va 1 s = Some (1, s\<lparr>hw_mem := m\<rparr>)"
    using h rd by (simp add: KipSysRead_def range_in_half in_half_def)
  moreover have "user_ld (s\<lparr>hw_mem := m\<rparr>) va = Some b" using r by (auto simp: readable_def buffer_bytes_def user_ld_byte)
  ultimately show ?thesis by blast
qed

theorem KiDispatchSystemCall_rejects_witness:
  "KiDispatchSystemCall demo_machine 12 4 0 0x00007FFFFFFFFFFF 2 0 0 (io_demo, demo_console, ()) =
     Some (status_value KSTATUS_INVALID_PARAMETER, io_demo, demo_console, ())"
proof -
  have c: "syscall_of 12 = Some NkSysRead" by (simp add: syscall_of_def syscall_numbers_def)
  show ?thesis
    using KiDispatchSystemCall_rejects [where Number = 12 and mc = demo_machine and ?a0.0 = 4 and ?a1.0 = 0 and ?a2.0 = "0x00007FFFFFFFFFFF"
        and ?a3.0 = 2 and ?a4.0 = 0 and ?a5.0 = 0 and x = "(io_demo, demo_console, ())"]
    by (simp add: c in_half_def)
qed

text \<open>The same memory mapped a second time, in the upper half.\<close>

definition io_high :: IO_GLOBALS where
  "io_high = io_demo\<lparr>hw_mem := (hw_mem io_demo)(0x1FF8 := 0x2003)\<rparr>"

lemma io_high_file: "file_at io_high 4 0 0" "file_holds io_high 0 [0x0A, 0x0B, 0x0C]"
proof -
  have "IopFindFileByHeader (Some 0) io_high = Some 0" "gIoFileType io_high = Some 0" "gIoReady io_high" "gObReady io_high"
    "gObObjectPool io_high = gObObjectPool lpc_demo" "gObKernelHandleTable io_high = gObKernelHandleTable lpc_demo"
    by (simp_all add: io_high_def) (simp_all add: IopFindFileByHeader_def IO_MAX_FILE_OBJECTS_def io_demo_def lpc_demo_def)
  then show "file_at io_high 4 0 0"
    by (simp add: file_at_def ObGetKernelHandleTable_def ObReferenceObjectByHandle_def ObpFindHandleEntry_def
        OB_MAX_HANDLES_def lpc_demo_def Let_def IO_FILE_ACCESS_READ_def)
  have "user_ld io_high va = user_ld io_demo va" if "va \<in> {0x5000, 0x5001, 0x5002}" for va
  proof -
    have "mmu_translate va io_high = mmu_translate va io_demo"
      using that io_demo_walk(3) [of va] by (intro translate_agree(1)) (auto simp: io_high_def)
    moreover have "mmu_translate va io_demo = Some va" "cell va = 0x5000" using that io_demo_translate by (auto simp: cell_def)
    ultimately show ?thesis by (simp add: user_ld_byte byte_at_def io_high_def)
  qed
  then have ld: "user_ld io_high 0x5000 = Some 0x0A" "user_ld io_high 0x5001 = Some 0x0B" "user_ld io_high 0x5002 = Some 0x0C"
    by (simp_all add: io_demo_ld)
  have n: "unat (3 :: u64) = Suc (Suc (Suc 0))" "fo_Size (gIoFilePool io_high 0) = 3" "fo_Data (gIoFilePool io_high 0) = Some 0x5000"
    by (simp_all add: io_high_def io_demo_def)
  show "file_holds io_high 0 [0x0A, 0x0B, 0x0C]"
    by (simp only: file_holds_def n read_bytes.simps option.sel) (simp add: ld)
qed

theorem KipSysRead_kernel_address_witness:
  "\<exists>t. KipSysRead demo_machine 4 0 0xFFFFFF8000006000 1 io_high = Some (1, t) \<and> user_ld t 0xFFFFFF8000006000 = Some 0x0A"
proof -
  let ?va = "0xFFFFFF8000006000 :: u64"
  have m: "hw_mem io_high 0x1FF8 = 0x2003" "hw_mem io_high 0x2000 = 0x83" "hw_mem io_high 0 = 0" "hw_cr3 io_high = 0x1000"
    by (simp_all add: io_high_def io_demo_def)
  have sl: "slot 0x1000 (walk_index ?va 0) = 0x1FF8" "slot 0x2003 (walk_index ?va 1) = 0x2000" "slot 0x83 (walk_index ?va 2) = 0"
    "slot 0 (walk_index ?va 3) = 0x30"
    by (simp_all add: walk_index_def slot_def MM_PTE_ADDR_MASK_def)
  have n: "(4 :: nat) = Suc (Suc 2)" by simp
  have "mmu_walk (Suc (Suc 2)) 0 ?va 0x1000 io_high = Some 0x6000"
    unfolding mmu_walk.simps using sl(1,2)
    by (simp add: m Let_def has_flag_def MM_PTE_PRESENT_def MM_PTE_LARGE_def MM_PTE_ADDR_MASK_def mask_eq_exp_minus_1)
  then have t: "mmu_translate ?va io_high = Some 0x6000" unfolding mmu_translate_def m(4) n .
  have "walk_cells 4 0 ?va 0x1000 io_high = {0x1FF8, 0x2000, 0, 0x30}"
    using sl m by (simp add: eval_nat_numeral Let_def)
  then have "writable_buffer demo_machine 1 ?va io_high"
    using t unfolding writable_buffer_def
    by (intro exI [of _ "\<lambda>_. 0x6000"]) (auto simp: table_cells_def m(4) store_allowed_def demo_machine_def cell_def inj_on_def)
  moreover have "file_at io_high (ucast (4 :: u64)) 0 0" using io_high_file(1) by simp
  ultimately show ?thesis by (intro KipSysRead_kernel_address [OF _ io_high_file(2)]) simp_all
qed

end
