(* ===== verification/NtxIntr.thy ===== *)
theory NtxIntr
  imports NtxSyscall
begin

text \<open>
  Descriptor tables, interrupt controller and interrupt handlers, \<^verbatim>\<open>hal/aur64/hal_intr.c\<close>.

  The tables are arrays of the descriptors the code stores.  The addresses the linker gives the handlers and the
  task state segment are parameters; so are the device ports.  Loading the tables into the processor is not
  modelled.  A handler that ends in \<^verbatim>\<open>HalHalt\<close> is the text it prints before.
\<close>

section \<open>Definitions\<close>

subsection \<open>Tables\<close>

record AUR64_IDT_ENTRY =
  idt_OffsetLow :: u16
  idt_Selector :: u16
  idt_Ist :: u8
  idt_Attributes :: u8
  idt_OffsetMiddle :: u16
  idt_OffsetHigh :: u32
  idt_Reserved :: u32

record AUR64_TSS_DESC =
  tsd_LimitLow :: u16
  tsd_BaseLow :: u16
  tsd_BaseMid0 :: u8
  tsd_Access :: u8
  tsd_Granularity :: u8
  tsd_BaseMid1 :: u8
  tsd_BaseHigh :: u32
  tsd_Reserved :: u32

record AUR64_TSS64 =
  tss_Reserved0 :: u32
  tss_Rsp0 :: u64
  tss_Rsp1 :: u64
  tss_Rsp2 :: u64
  tss_Reserved1 :: u64
  tss_Ist :: "nat \<Rightarrow> u64"
  tss_Reserved2 :: u64
  tss_Reserved3 :: u16
  tss_IoMapBase :: u16

record AUR64_INTERRUPT_FRAME =
  if_Rip :: u64
  if_Cs :: u64
  if_Rflags :: u64
  if_Rsp :: u64
  if_Ss :: u64

record AUR64_TABLES =
  gAur64Idt :: "nat \<Rightarrow> AUR64_IDT_ENTRY"
  gAur64Gdt :: "nat \<Rightarrow> u64"
  gAur64Tss :: AUR64_TSS64

text \<open>The handlers, and the addresses the linker gives them and the task state segment.\<close>

datatype HALP_HANDLER =
    HalpDefaultInterruptHandler_ptr | HalpInvalidOpcodeInterruptHandler_ptr | HalpGeneralProtectionInterruptHandler_ptr
  | HalpTimerInterruptHandler_ptr | HalpPageFaultInterruptHandler_ptr | HalpSyscallInterruptHandler_ptr

record linkage =
  link_handler :: "HALP_HANDLER \<Rightarrow> u64"
  link_tss :: u64

definition HALP_PIC1_CMD :: u16 where "HALP_PIC1_CMD = 0x20"
definition HALP_PIC1_DATA :: u16 where "HALP_PIC1_DATA = 0x21"
definition HALP_PIC2_CMD :: u16 where "HALP_PIC2_CMD = 0xA0"
definition HALP_PIC2_DATA :: u16 where "HALP_PIC2_DATA = 0xA1"
definition HALP_PIC_EOI :: u8 where "HALP_PIC_EOI = 0x20"
definition HALP_PIT_CMD :: u16 where "HALP_PIT_CMD = 0x43"
definition HALP_PIT_CHANNEL0 :: u16 where "HALP_PIT_CHANNEL0 = 0x40"
definition HALP_PIT_BASE_HZ :: u32 where "HALP_PIT_BASE_HZ = 1193182"
definition HALP_PIT_TICK_HZ :: u32 where "HALP_PIT_TICK_HZ = 100"
definition HALP_IRQ_BASE_VECTOR :: nat where "HALP_IRQ_BASE_VECTOR = 32"
definition HALP_SYSCALL_VECTOR :: nat where "HALP_SYSCALL_VECTOR = 0x80"
definition HALP_PAGE_FAULT_VECTOR :: nat where "HALP_PAGE_FAULT_VECTOR = 14"
definition HALP_SEL_KERNEL_CODE :: u16 where "HALP_SEL_KERNEL_CODE = 0x08"

definition HalpSetIdtEntry :: "nat \<Rightarrow> u64 \<Rightarrow> (nat \<Rightarrow> AUR64_IDT_ENTRY) \<Rightarrow> nat \<Rightarrow> AUR64_IDT_ENTRY" where
  "HalpSetIdtEntry Vector Address t = t(Vector :=
     \<lparr>idt_OffsetLow = ucast (Address AND 0xFFFF), idt_Selector = HALP_SEL_KERNEL_CODE, idt_Ist = 0, idt_Attributes = 0x8E,
      idt_OffsetMiddle = ucast (drop_bit 16 Address AND 0xFFFF), idt_OffsetHigh = ucast (drop_bit 32 Address AND 0xFFFFFFFF),
      idt_Reserved = 0\<rparr>)"

definition HalpSetIdtEntryDpl :: "nat \<Rightarrow> u64 \<Rightarrow> u8 \<Rightarrow> (nat \<Rightarrow> AUR64_IDT_ENTRY) \<Rightarrow> nat \<Rightarrow> AUR64_IDT_ENTRY" where
  "HalpSetIdtEntryDpl Vector Address Dpl t = t(Vector :=
     \<lparr>idt_OffsetLow = ucast (Address AND 0xFFFF), idt_Selector = HALP_SEL_KERNEL_CODE, idt_Ist = 0,
      idt_Attributes = 0x8E OR push_bit 5 (Dpl AND 0x3),
      idt_OffsetMiddle = ucast (drop_bit 16 Address AND 0xFFFF), idt_OffsetHigh = ucast (drop_bit 32 Address AND 0xFFFFFFFF),
      idt_Reserved = 0\<rparr>)"

definition HalpMakeSegmentDesc :: "u8 \<Rightarrow> u8 \<Rightarrow> u64" where
  "HalpMakeSegmentDesc Access GranularityFlags =
     0xFFFF OR push_bit 40 (ucast Access) OR push_bit 48 (0xF OR push_bit 4 (ucast GranularityFlags))"

text \<open>\<^verbatim>\<open>sizeof(AUR64_TSS64)\<close>, a packed structure, and the two words of the table a task segment descriptor fills.\<close>

definition sizeof_AUR64_TSS64 :: u64 where "sizeof_AUR64_TSS64 = 104"

definition tss_desc_words :: "AUR64_TSS_DESC \<Rightarrow> u64 \<times> u64" where
  "tss_desc_words d =
     (ucast (tsd_LimitLow d) OR push_bit 16 (ucast (tsd_BaseLow d)) OR push_bit 32 (ucast (tsd_BaseMid0 d)) OR
      push_bit 40 (ucast (tsd_Access d)) OR push_bit 48 (ucast (tsd_Granularity d)) OR push_bit 56 (ucast (tsd_BaseMid1 d)),
      ucast (tsd_BaseHigh d) OR push_bit 32 (ucast (tsd_Reserved d)))"

definition tss_desc :: "u64 \<Rightarrow> u64 \<Rightarrow> AUR64_TSS_DESC" where
  "tss_desc TssBase TssLimit =
     \<lparr>tsd_LimitLow = ucast (TssLimit AND 0xFFFF), tsd_BaseLow = ucast (TssBase AND 0xFFFF),
      tsd_BaseMid0 = ucast (drop_bit 16 TssBase AND 0xFF), tsd_Access = 0x89,
      tsd_Granularity = ucast (drop_bit 16 TssLimit AND 0x0F), tsd_BaseMid1 = ucast (drop_bit 24 TssBase AND 0xFF),
      tsd_BaseHigh = ucast (drop_bit 32 TssBase), tsd_Reserved = 0\<rparr>"

text \<open>\<open>Rsp\<close> is the stack pointer at the time of the call.\<close>

definition HalpInitializeSegments :: "linkage \<Rightarrow> u64 \<Rightarrow> AUR64_TABLES \<Rightarrow> AUR64_TABLES" where
  "HalpInitializeSegments lk Rsp t =
     (let (w5, w6) = tss_desc_words (tss_desc (link_tss lk) (sizeof_AUR64_TSS64 - 1)) in
      t\<lparr>gAur64Gdt := (gAur64Gdt t)(0 := 0, 1 := HalpMakeSegmentDesc 0x9A 0xA, 2 := HalpMakeSegmentDesc 0x92 0x8,
           3 := HalpMakeSegmentDesc 0xF2 0x8, 4 := HalpMakeSegmentDesc 0xFA 0xA, 5 := w5, 6 := w6),
        gAur64Tss := \<lparr>tss_Reserved0 = 0, tss_Rsp0 = Rsp, tss_Rsp1 = 0, tss_Rsp2 = 0, tss_Reserved1 = 0, tss_Ist = (\<lambda>_. 0),
           tss_Reserved2 = 0, tss_Reserved3 = 0, tss_IoMapBase = ucast sizeof_AUR64_TSS64\<rparr>\<rparr>)"

subsection \<open>Controllers\<close>

definition out_all :: "'d ports \<Rightarrow> (u16 \<times> u8) list \<Rightarrow> 'd \<Rightarrow> 'd" where
  "out_all io = fold (\<lambda>(p, v). port_out io p v)"

definition HalpRemapPic :: "'d ports \<Rightarrow> 'd \<Rightarrow> 'd" where
  "HalpRemapPic io = out_all io
     [(HALP_PIC1_CMD, 0x11), (HALP_PIC2_CMD, 0x11), (HALP_PIC1_DATA, of_nat HALP_IRQ_BASE_VECTOR),
      (HALP_PIC2_DATA, of_nat HALP_IRQ_BASE_VECTOR + 8), (HALP_PIC1_DATA, 0x04), (HALP_PIC2_DATA, 0x02),
      (HALP_PIC1_DATA, 0x01), (HALP_PIC2_DATA, 0x01), (HALP_PIC1_DATA, 0xFE), (HALP_PIC2_DATA, 0xFF)]"

definition HalpInitializeTimer :: "'d ports \<Rightarrow> 'd \<Rightarrow> 'd" where
  "HalpInitializeTimer io =
     (let Divisor = (ucast (HALP_PIT_BASE_HZ div HALP_PIT_TICK_HZ) :: u16) in
      out_all io [(HALP_PIT_CMD, 0x34), (HALP_PIT_CHANNEL0, ucast (Divisor AND 0xFF)),
        (HALP_PIT_CHANNEL0, ucast (drop_bit 8 Divisor AND 0xFF))])"

definition HalpInitializeInterrupts :: "'d ports \<Rightarrow> linkage \<Rightarrow> u64 \<Rightarrow> AUR64_TABLES \<times> 'd \<Rightarrow> AUR64_TABLES \<times> 'd" where
  "HalpInitializeInterrupts io lk Rsp td =
     (case td of (t, d) \<Rightarrow>
        let t1 = HalpInitializeSegments lk Rsp t; h = link_handler lk;
            i1 = fold (\<lambda>Index. HalpSetIdtEntry Index (h HalpDefaultInterruptHandler_ptr)) [0..<256] (gAur64Idt t1);
            i2 = HalpSetIdtEntry 6 (h HalpInvalidOpcodeInterruptHandler_ptr) i1;
            i3 = HalpSetIdtEntry 13 (h HalpGeneralProtectionInterruptHandler_ptr) i2;
            i4 = HalpSetIdtEntry HALP_IRQ_BASE_VECTOR (h HalpTimerInterruptHandler_ptr) i3;
            i5 = HalpSetIdtEntry HALP_PAGE_FAULT_VECTOR (h HalpPageFaultInterruptHandler_ptr) i4;
            i6 = HalpSetIdtEntryDpl HALP_SYSCALL_VECTOR (h HalpSyscallInterruptHandler_ptr) 3 i5
        in (t1\<lparr>gAur64Idt := i6\<rparr>, HalpRemapPic io d))"

subsection \<open>Handlers\<close>

definition HalpWriteHexLine :: "string \<Rightarrow> u64 \<Rightarrow> string option" where
  "HalpWriteHexLine Prefix Value = ObpWriteHexLine 96 Prefix Value"

definition HalpDefaultInterruptHandler :: "'d ports \<Rightarrow> 'd \<Rightarrow> 'd" where
  "HalpDefaultInterruptHandler io d = port_out io HALP_PIC1_CMD HALP_PIC_EOI d"

definition run_timer_tick :: "HAL_TIMER_TICK_ROUTINE \<Rightarrow> 'a PS_GLOBALS_scheme \<Rightarrow> 'a PS_GLOBALS_scheme" where
  "run_timer_tick r s = (case r of PsOnTimerTick_ptr \<Rightarrow> PsOnTimerTick s)"

definition HalpTimerInterruptHandler :: "'d ports \<Rightarrow> ('a, 'd) system \<Rightarrow> ('a, 'd) system" where
  "HalpTimerInterruptHandler io x =
     (case x of (s, c, d) \<Rightarrow> (HalTriggerSyntheticTimerTick run_timer_tick s, c, port_out io HALP_PIC1_CMD HALP_PIC_EOI d))"

definition print :: "'d ports \<Rightarrow> string \<Rightarrow> HAL_CONSOLE \<times> 'd \<Rightarrow> HAL_CONSOLE \<times> 'd" where
  "print io t cd = HalWriteDebugString io (Some (map of_char t @ [0])) cd"

text \<open>\<open>FaultAddress\<close> is the content of \<^verbatim>\<open>cr2\<close>.\<close>

definition HalpPageFaultInterruptHandler ::
    "'d ports \<Rightarrow> u64 \<Rightarrow> AUR64_INTERRUPT_FRAME \<Rightarrow> u64 \<Rightarrow> ('a, 'd) system \<Rightarrow> ('a, 'd) system option" where
  "HalpPageFaultInterruptHandler io FaultAddress Frame ErrorCode x =
     (case x of (s, cd) \<Rightarrow> do {
        l1 \<leftarrow> HalpWriteHexLine ''[HAL] PF.CS='' (if_Cs Frame);
        l2 \<leftarrow> HalpWriteHexLine ''[HAL] PF.SS='' (if_Ss Frame);
        s1 \<leftarrow> HalHandlePageFaultTrap run_page_fault FaultAddress ErrorCode (if_Rip Frame) s;
        Some (s1, print io (l1 @ l2) cd) })"

definition HalpGeneralProtectionInterruptHandler :: "AUR64_INTERRUPT_FRAME \<Rightarrow> u64 \<Rightarrow> string option" where
  "HalpGeneralProtectionInterruptHandler Frame ErrorCode = do {
     l1 \<leftarrow> HalpWriteHexLine ''[HAL] GP.RIP='' (if_Rip Frame);
     l2 \<leftarrow> HalpWriteHexLine ''[HAL] GP.ERR='' ErrorCode;
     Some (''[HAL] #GP fault'' @ [CHR 0x0A] @ l1 @ l2) }"

definition HalpInvalidOpcodeInterruptHandler :: "AUR64_INTERRUPT_FRAME \<Rightarrow> string option" where
  "HalpInvalidOpcodeInterruptHandler Frame = do {
     l1 \<leftarrow> HalpWriteHexLine ''[HAL] UD.RIP='' (if_Rip Frame);
     Some (''[HAL] #UD fault'' @ [CHR 0x0A] @ l1) }"

section \<open>What the processor reads from the tables\<close>

text \<open>The address, the privilege level and the presence of a gate.\<close>

definition gate_address :: "AUR64_IDT_ENTRY \<Rightarrow> u64" where
  "gate_address e = ucast (idt_OffsetLow e) OR push_bit 16 (ucast (idt_OffsetMiddle e)) OR push_bit 32 (ucast (idt_OffsetHigh e))"

definition gate_dpl :: "AUR64_IDT_ENTRY \<Rightarrow> u8" where
  "gate_dpl e = drop_bit 5 (idt_Attributes e) AND 3"

definition gate_present :: "AUR64_IDT_ENTRY \<Rightarrow> bool" where
  "gate_present e \<longleftrightarrow> bit (idt_Attributes e) 7"

lemma split_address: "(ucast (ucast (a AND 0xFFFF :: u64) :: u16) :: u64) OR push_bit 16 (ucast (ucast (drop_bit 16 a AND 0xFFFF) :: u16)) OR
    push_bit 32 (ucast (ucast (drop_bit 32 a AND 0xFFFFFFFF) :: u32)) = a"
proof -
  have m: "(0xFFFF :: u64) = mask 16" "(0xFFFFFFFF :: u64) = mask 32" by (simp_all add: mask_eq_exp_minus_1)
  show ?thesis
    unfolding m
    apply (rule bit_word_eqI)
    subgoal for n by (cases "n < 32") (auto simp: bit_simps)
    done
qed

text \<open>The handler of a vector.\<close>

definition handler_of :: "nat \<Rightarrow> HALP_HANDLER" where
  "handler_of v = (if v = 128 then HalpSyscallInterruptHandler_ptr else if v = 14 then HalpPageFaultInterruptHandler_ptr
     else if v = 32 then HalpTimerInterruptHandler_ptr else if v = 13 then HalpGeneralProtectionInterruptHandler_ptr
     else if v = 6 then HalpInvalidOpcodeInterruptHandler_ptr else HalpDefaultInterruptHandler_ptr)"

lemma fold_idt: "v < n \<Longrightarrow> fold (\<lambda>Index. HalpSetIdtEntry Index a) [0..<n] t v = HalpSetIdtEntry v a t v"
  by (induction n) (auto simp: HalpSetIdtEntry_def)

section \<open>Properties\<close>

text \<open>
  The interrupt table.  After initialisation every one of the 256 vectors is a present gate into the kernel code
  segment, to the handler the vector is meant for; the system call gate is the only one that user code may call.
\<close>

theorem HalpInitializeInterrupts_gates:
  assumes "v < 256"
  shows "let e = gAur64Idt (fst (HalpInitializeInterrupts io lk Rsp (t, d))) v in
    gate_present e \<and> gate_address e = link_handler lk (handler_of v) \<and> idt_Selector e = 0x08 \<and> gate_dpl e = (if v = 0x80 then 3 else 0)"
proof -
  have b: "bit (0x8E :: u8) 7" "bit (0xEE :: u8) 7" by (simp_all add: bit_iff_odd)
  show ?thesis
    using fold_idt [OF assms, of "link_handler lk HalpDefaultInterruptHandler_ptr" "gAur64Idt (HalpInitializeSegments lk Rsp t)"] b
    by (auto simp: HalpInitializeInterrupts_def Let_def HalpSetIdtEntry_def HalpSetIdtEntryDpl_def handler_of_def gate_present_def gate_address_def
        gate_dpl_def split_address HALP_SEL_KERNEL_CODE_def HALP_SYSCALL_VECTOR_def HALP_PAGE_FAULT_VECTOR_def HALP_IRQ_BASE_VECTOR_def)
qed

definition demo_linkage :: linkage where
  "demo_linkage = \<lparr>link_handler = (\<lambda>h. case h of HalpSyscallInterruptHandler_ptr \<Rightarrow> 0xFFFF800012345678 | _ \<Rightarrow> 0xFFFF800000001000),
     link_tss = 0xFFFF8000ABCDE000\<rparr>"

definition demo_tables :: AUR64_TABLES where
  "demo_tables = \<lparr>gAur64Idt = (\<lambda>_. \<lparr>idt_OffsetLow = 0, idt_Selector = 0, idt_Ist = 0, idt_Attributes = 0, idt_OffsetMiddle = 0, idt_OffsetHigh = 0,
       idt_Reserved = 0\<rparr>),
     gAur64Gdt = (\<lambda>_. 0),
     gAur64Tss = \<lparr>tss_Reserved0 = 0, tss_Rsp0 = 0, tss_Rsp1 = 0, tss_Rsp2 = 0, tss_Reserved1 = 0, tss_Ist = (\<lambda>_. 0),
       tss_Reserved2 = 0, tss_Reserved3 = 0, tss_IoMapBase = 0\<rparr>\<rparr>"

theorem HalpInitializeInterrupts_gates_witness:
  "gate_address (gAur64Idt (fst (HalpInitializeInterrupts demo_ports demo_linkage 0 (demo_tables, ()))) 0x80) = 0xFFFF800012345678"
  using HalpInitializeInterrupts_gates [of 128 demo_ports demo_linkage 0 demo_tables "()"]
  by (simp add: Let_def handler_of_def demo_linkage_def)

text \<open>The parts of a segment descriptor: present, privilege level, code rather than data, 64-bit code.\<close>

definition seg_present :: "u64 \<Rightarrow> bool" where "seg_present w \<longleftrightarrow> bit w 47"
definition seg_dpl :: "u64 \<Rightarrow> u64" where "seg_dpl w = drop_bit 45 w AND 3"
definition seg_code :: "u64 \<Rightarrow> bool" where "seg_code w \<longleftrightarrow> bit w 43"
definition seg_long :: "u64 \<Rightarrow> bool" where "seg_long w \<longleftrightarrow> bit w 53"

text \<open>The base address a task state segment descriptor of two words names.\<close>

definition tss_desc_base :: "u64 \<Rightarrow> u64 \<Rightarrow> u64" where
  "tss_desc_base w5 w6 = (drop_bit 16 w5 AND mask 24) OR push_bit 24 (drop_bit 56 w5 AND mask 8) OR push_bit 32 (w6 AND mask 32)"

lemma tss_words_split:
  fixes A G :: u8 and L b :: u64
  assumes L: "\<And>n. bit L n \<Longrightarrow> n < 16"
  shows "tss_desc_base (L OR push_bit 16 (ucast (ucast (b AND mask 16) :: u16)) OR push_bit 32 (ucast (ucast (drop_bit 16 b AND mask 8) :: u8)) OR
      push_bit 40 (ucast A) OR push_bit 48 (ucast G) OR push_bit 56 (ucast (ucast (drop_bit 24 b AND mask 8) :: u8)))
      (ucast (ucast (drop_bit 32 b) :: u32)) = b"
  unfolding tss_desc_base_def
  apply (rule bit_word_eqI)
  subgoal for n
    by (cases "n < 16"; cases "n < 24"; cases "n < 32") (auto simp: bit_simps dest: L bit_imp_le_length)
  done

lemma tss_base_split: "tss_desc_base (fst (tss_desc_words (tss_desc b l))) (snd (tss_desc_words (tss_desc b l))) = b"
proof -
  have m: "(0xFFFF :: u64) = mask 16" "(0xFF :: u64) = mask 8" by (simp_all add: mask_eq_exp_minus_1)
  have "bit (ucast (ucast (l AND mask 16) :: u16) :: u64) n \<Longrightarrow> n < 16" for n by (auto simp: bit_simps)
  then show ?thesis
    unfolding tss_desc_words_def tss_desc_def m
    by (simp only: AUR64_TSS_DESC.simps fst_conv snd_conv unsigned_0 push_bit_of_0 or.right_neutral tss_words_split)
qed

lemma segment_words:
  "HalpMakeSegmentDesc 0x9A 0xA = 0x00AF9A000000FFFF" "HalpMakeSegmentDesc 0x92 0x8 = 0x008F92000000FFFF"
  "HalpMakeSegmentDesc 0xF2 0x8 = 0x008FF2000000FFFF" "HalpMakeSegmentDesc 0xFA 0xA = 0x00AFFA000000FFFF"
  by (simp_all add: HalpMakeSegmentDesc_def push_bit_eq_mult)

text \<open>
  The segments.  Entries 1 and 2 are the kernel's code and data, entries 4 and 3 those of user programs; the code
  segments are 64-bit ones; entries 5 and 6 describe the task state segment, whose stack for entries from user code is
  the one of the caller.
\<close>

theorem HalpInitializeSegments_table:
  "let t' = HalpInitializeSegments lk Rsp t; g = gAur64Gdt t' in
   g 0 = 0 \<and>
   list_all (\<lambda>(i, dpl, code). seg_present (g i) \<and> seg_dpl (g i) = dpl \<and> seg_code (g i) = code \<and> seg_long (g i) = code)
     [(1, 0, True), (2, 0, False), (3, 3, False), (4, 3, True)] \<and>
   tss_desc_base (g 5) (g 6) = link_tss lk \<and> tss_Rsp0 (gAur64Tss t') = Rsp"
  using tss_base_split [of "link_tss lk" "sizeof_AUR64_TSS64 - 1"]
  by (auto simp: HalpInitializeSegments_def Let_def segment_words seg_present_def seg_dpl_def seg_code_def seg_long_def bit_iff_odd
      drop_bit_eq_div split: prod.split)

end
