(* ===== verification/NtxContext.thy ===== *)
theory NtxContext
  imports NtxIntr
begin

text \<open>
  The rest of \<^verbatim>\<open>kernel/arch/aur64/context.c\<close>: saving and loading a context, the entry into user mode, and the program of
  the user mode smoke test together with the instructions it consists of; and the two routines of
  \<^verbatim>\<open>hal/aur64/hal_aur64.c\<close> that watch the time stamp counter.
\<close>

section \<open>Definitions\<close>

subsection \<open>Contexts\<close>

text \<open>\<open>label\<close> is the address behind the stores; \<open>cpu\<close> is the register file.\<close>

definition KiArchSaveContext :: "u64 \<Rightarrow> AUR64_CONTEXT option \<Rightarrow> AUR64_CONTEXT \<Rightarrow> AUR64_CONTEXT option" where
  "KiArchSaveContext label OutContext cpu = map_option (\<lambda>_. cpu\<lparr>ctx_Rip := label\<rparr>) OutContext"

definition KiArchLoadContext :: "AUR64_CONTEXT option \<Rightarrow> AUR64_CONTEXT \<Rightarrow> AUR64_CONTEXT" where
  "KiArchLoadContext Context cpu = (case Context of None \<Rightarrow> cpu | Some c \<Rightarrow> c)"

definition AUR64_USER_DATA_SELECTOR :: u64 where "AUR64_USER_DATA_SELECTOR = 0x1B"
definition AUR64_USER_CODE_SELECTOR :: u64 where "AUR64_USER_CODE_SELECTOR = 0x23"

text \<open>What \<^verbatim>\<open>iretq\<close> finds on the stack, and the registers a user program starts with.\<close>

record USER_ENTRY =
  ue_Frame :: AUR64_INTERRUPT_FRAME
  ue_Rdi :: u64
  ue_Rsi :: u64
  ue_DataSegments :: u16

definition KiArchEnterUserMode :: "u64 \<Rightarrow> u64 \<Rightarrow> u64 \<Rightarrow> u64 \<Rightarrow> u64 \<Rightarrow> USER_ENTRY" where
  "KiArchEnterUserMode UserEntry UserStackTop Arg0 Arg1 Rflags =
     \<lparr>ue_Frame = \<lparr>if_Rip = UserEntry, if_Cs = AUR64_USER_CODE_SELECTOR, if_Rflags = Rflags OR 0x200, if_Rsp = UserStackTop,
        if_Ss = AUR64_USER_DATA_SELECTOR\<rparr>,
      ue_Rdi = Arg0, ue_Rsi = Arg1, ue_DataSegments = ucast AUR64_USER_DATA_SELECTOR\<rparr>"

subsection \<open>The time stamp counter\<close>

text \<open>\<open>tsc n\<close> are the two halves the \<open>n\<close>th read of the counter returns.\<close>

definition HalReadTimestampCounter :: "(nat \<Rightarrow> u32 \<times> u32) \<Rightarrow> nat \<Rightarrow> u64" where
  "HalReadTimestampCounter tsc n = (case tsc n of (Low, High) \<Rightarrow> push_bit 32 (ucast High) OR ucast Low)"

partial_function (option) stall_loop :: "(nat \<Rightarrow> u32 \<times> u32) \<Rightarrow> u64 \<Rightarrow> u64 \<Rightarrow> nat \<Rightarrow> nat option" where
  "stall_loop tsc Start Target n =
     (let Delta = HalReadTimestampCounter tsc n - Start in
      if Delta < Target then stall_loop tsc Start Target (Suc n) else Some (Suc n))"

text \<open>The number of reads when the loop ends.\<close>

definition HalStallExecution :: "(nat \<Rightarrow> u32 \<times> u32) \<Rightarrow> u32 \<Rightarrow> nat option" where
  "HalStallExecution tsc Microseconds =
     (if Microseconds = 0 then Some 0
      else stall_loop tsc (HalReadTimestampCounter tsc 0) (ucast Microseconds * 2500) 1)"

subsection \<open>The program of the smoke test\<close>

definition put32 :: "u32 \<Rightarrow> u8 list" where
  "put32 v = [ucast (v AND 0xFF), ucast (drop_bit 8 v AND 0xFF), ucast (drop_bit 16 v AND 0xFF), ucast (drop_bit 24 v AND 0xFF)]"

definition KiUserSmokeBuildCode :: "u32 \<Rightarrow> u8 list" where
  "KiUserSmokeBuildCode MessageLen =
     [0x48, 0x89, 0xFB] @ [0xC6, 0x03, 0x5A] @
     [0x48, 0xC7, 0xC0] @ put32 0 @ [0x48, 0x8D, 0xBB] @ put32 0x100 @ [0x48, 0xC7, 0xC6] @ put32 MessageLen @
     [0x48, 0x31, 0xD2] @ [0x4D, 0x31, 0xD2] @ [0x4D, 0x31, 0xC0] @ [0x4D, 0x31, 0xC9] @ [0xCD, 0x80] @
     [0x48, 0xC7, 0xC0] @ put32 1 @ [0x48, 0x31, 0xFF] @ [0x48, 0x31, 0xF6] @ [0x48, 0x31, 0xD2] @ [0x4D, 0x31, 0xD2] @
     [0x4D, 0x31, 0xC0] @ [0x4D, 0x31, 0xC9] @ [0xCD, 0x80] @
     [0x48, 0xC7, 0xC0] @ put32 1 @ [0xCD, 0x80] @
     [0x48, 0xC7, 0xC0] @ put32 5 @ [0x48, 0x31, 0xFF] @ [0xCD, 0x80] @
     [0xF4] @ [0xEB, 0xFD]"

subsection \<open>The instructions it uses\<close>

text \<open>The registers the program uses, and its effects in order: system calls and the byte it stores.\<close>

datatype user_effect =
    Syscall "u64 list"
  | StoreByte u64 u8

record user_state =
  u_rax :: u64
  u_rbx :: u64
  u_rdi :: u64
  u_rsi :: u64
  u_rdx :: u64
  u_r10 :: u64
  u_r8 :: u64
  u_r9 :: u64
  u_effects :: "user_effect list"

definition imm32 :: "u8 list \<Rightarrow> u32" where
  "imm32 bs = ucast (bs ! 0) OR push_bit 8 (ucast (bs ! 1)) OR push_bit 16 (ucast (bs ! 2)) OR push_bit 24 (ucast (bs ! 3))"

text \<open>One instruction at the front of the bytes: the state after it and its length.  Immediates are sign extended.  The
  result of a system call replaces \<^verbatim>\<open>rax\<close>; \<open>res\<close> gives the results.  \<open>None\<close> is the halt instruction or one that is not here.\<close>

definition user_instr :: "(u64 list \<Rightarrow> u64) \<Rightarrow> u8 list \<Rightarrow> user_state \<Rightarrow> (user_state \<times> nat) option" where
  "user_instr res bs u =
     (let op = take 3 bs; imm = scast (imm32 (drop 3 bs)) in
      if op = [0x48, 0x89, 0xFB] then Some (u\<lparr>u_rbx := u_rdi u\<rparr>, 3)
      else if take 2 bs = [0xC6, 0x03] then Some (u\<lparr>u_effects := u_effects u @ [StoreByte (u_rbx u) (bs ! 2)]\<rparr>, 3)
      else if op = [0x48, 0xC7, 0xC0] then Some (u\<lparr>u_rax := imm\<rparr>, 7)
      else if op = [0x48, 0xC7, 0xC6] then Some (u\<lparr>u_rsi := imm\<rparr>, 7)
      else if op = [0x48, 0x8D, 0xBB] then Some (u\<lparr>u_rdi := u_rbx u + imm\<rparr>, 7)
      else if op = [0x48, 0x31, 0xD2] then Some (u\<lparr>u_rdx := 0\<rparr>, 3)
      else if op = [0x48, 0x31, 0xFF] then Some (u\<lparr>u_rdi := 0\<rparr>, 3)
      else if op = [0x48, 0x31, 0xF6] then Some (u\<lparr>u_rsi := 0\<rparr>, 3)
      else if op = [0x4D, 0x31, 0xD2] then Some (u\<lparr>u_r10 := 0\<rparr>, 3)
      else if op = [0x4D, 0x31, 0xC0] then Some (u\<lparr>u_r8 := 0\<rparr>, 3)
      else if op = [0x4D, 0x31, 0xC9] then Some (u\<lparr>u_r9 := 0\<rparr>, 3)
      else if take 2 bs = [0xCD, 0x80] then
        let a = [u_rax u, u_rdi u, u_rsi u, u_rdx u, u_r10 u, u_r8 u, u_r9 u]
        in Some (u\<lparr>u_rax := res a, u_effects := u_effects u @ [Syscall a]\<rparr>, 2)
      else None)"

text \<open>The program from an offset on, until it halts; the number of instructions is the bound.\<close>

fun user_run :: "(u64 list \<Rightarrow> u64) \<Rightarrow> nat \<Rightarrow> u8 list \<Rightarrow> user_state \<Rightarrow> (user_state \<times> u8 list) option" where
  "user_run res 0 bs u = None"
| "user_run res (Suc k) bs u =
     (case user_instr res bs u of None \<Rightarrow> Some (u, bs) | Some (v, n) \<Rightarrow> user_run res k (drop n bs) v)"

section \<open>Immediates\<close>

lemma put32_imm32: "imm32 (put32 v @ bs) = v"
proof -
  have m: "(0xFF :: u32) = mask 8" by (simp add: mask_eq_exp_minus_1)
  show ?thesis
    unfolding put32_def imm32_def m
    apply (simp del: mask_numeral)
    apply (rule bit_word_eqI)
    subgoal for n by (cases "n < 8"; cases "n < 16"; cases "n < 24") (auto simp: bit_simps)
    done
qed

lemma length_put32 [simp]: "length (put32 v) = 4"
  by (simp add: put32_def)

text \<open>The instructions one at a time.\<close>

lemma user_run_ops:
  "user_run res (Suc k) (0x48 # 0x89 # 0xFB # bs) u = user_run res k bs (u\<lparr>u_rbx := u_rdi u\<rparr>)"
  "user_run res (Suc k) (0xC6 # 0x03 # b # bs) u = user_run res k bs (u\<lparr>u_effects := u_effects u @ [StoreByte (u_rbx u) b]\<rparr>)"
  "user_run res (Suc k) (0x48 # 0xC7 # 0xC0 # put32 v @ bs) u = user_run res k bs (u\<lparr>u_rax := scast v\<rparr>)"
  "user_run res (Suc k) (0x48 # 0xC7 # 0xC6 # put32 v @ bs) u = user_run res k bs (u\<lparr>u_rsi := scast v\<rparr>)"
  "user_run res (Suc k) (0x48 # 0x8D # 0xBB # put32 v @ bs) u = user_run res k bs (u\<lparr>u_rdi := u_rbx u + scast v\<rparr>)"
  "user_run res (Suc k) (0x48 # 0x31 # 0xD2 # bs) u = user_run res k bs (u\<lparr>u_rdx := 0\<rparr>)"
  "user_run res (Suc k) (0x48 # 0x31 # 0xFF # bs) u = user_run res k bs (u\<lparr>u_rdi := 0\<rparr>)"
  "user_run res (Suc k) (0x48 # 0x31 # 0xF6 # bs) u = user_run res k bs (u\<lparr>u_rsi := 0\<rparr>)"
  "user_run res (Suc k) (0x4D # 0x31 # 0xD2 # bs) u = user_run res k bs (u\<lparr>u_r10 := 0\<rparr>)"
  "user_run res (Suc k) (0x4D # 0x31 # 0xC0 # bs) u = user_run res k bs (u\<lparr>u_r8 := 0\<rparr>)"
  "user_run res (Suc k) (0x4D # 0x31 # 0xC9 # bs) u = user_run res k bs (u\<lparr>u_r9 := 0\<rparr>)"
  "user_run res (Suc k) (0xCD # 0x80 # bs) u =
    (let a = [u_rax u, u_rdi u, u_rsi u, u_rdx u, u_r10 u, u_r8 u, u_r9 u]
     in user_run res k bs (u\<lparr>u_rax := res a, u_effects := u_effects u @ [Syscall a]\<rparr>))"
  "user_run res (Suc k) (0xF4 # bs) u = Some (u, 0xF4 # bs)"
  by (simp_all add: user_instr_def Let_def put32_imm32)

section \<open>The stall loop\<close>

lemma stall_loop_returns:
  assumes "n \<le> m" "\<not> HalReadTimestampCounter tsc m - Start < Target"
  shows "\<exists>k. n \<le> k \<and> k \<le> m \<and> stall_loop tsc Start Target n = Some (Suc k) \<and> \<not> HalReadTimestampCounter tsc k - Start < Target"
  using assms
proof (induction "m - n" arbitrary: n)
  case 0
  then have "m = n" by simp
  with 0 show ?case by (subst stall_loop.simps) auto
next
  case (Suc d)
  show ?case
  proof (cases "HalReadTimestampCounter tsc n - Start < Target")
    case True
    with Suc.prems have "n \<noteq> m" by auto
    with Suc have "d = m - Suc n" "Suc n \<le> m" by simp_all
    from Suc.hyps(1) [OF this Suc.prems(2)] True show ?thesis by (subst stall_loop.simps) auto
  next
    case False
    then show ?thesis using Suc.prems by (subst stall_loop.simps) auto
  qed
qed

section \<open>Properties\<close>

text \<open>
  The stall returns as soon as the counter has advanced far enough, and not before 2500 cycles per microsecond have passed
  (the product does not overflow).
\<close>

theorem HalStallExecution_waits:
  assumes "us \<noteq> 0" and "1 \<le> m" and "unat us * 2500 \<le> unat (HalReadTimestampCounter tsc m - HalReadTimestampCounter tsc 0)"
  shows "\<exists>k. 1 \<le> k \<and> k \<le> m \<and> HalStallExecution tsc us = Some (Suc k) \<and>
    unat us * 2500 \<le> unat (HalReadTimestampCounter tsc k - HalReadTimestampCounter tsc 0)"
proof -
  have "unat us < 4294967296" using unsigned_less [of us, where 'a = nat] by simp
  then have "unat (ucast us :: u64) * 2500 < 2 ^ 64" by (simp add: unsigned_ucast_eq take_bit_nat_eq_self)
  then have t: "unat (ucast us * 2500 :: u64) = unat us * 2500"
    using \<open>unat us < 4294967296\<close> by (simp add: unat_word_ariths unsigned_ucast_eq take_bit_nat_eq_self)
  have "\<not> HalReadTimestampCounter tsc m - HalReadTimestampCounter tsc 0 < ucast us * 2500" using assms(3) t by (simp add: word_less_nat_alt)
  from stall_loop_returns [OF assms(2) this] show ?thesis
    using assms(1) t by (auto simp: HalStallExecution_def word_less_nat_alt not_less)
qed

theorem HalStallExecution_waits_witness: "\<exists>k. HalStallExecution (\<lambda>n. (of_nat (3000 * n), 0)) 1 = Some k"
proof -
  have "unat (1 :: u32) * 2500 \<le> unat (HalReadTimestampCounter (\<lambda>n. (of_nat (3000 * n), 0)) 1 - HalReadTimestampCounter (\<lambda>n. (of_nat (3000 * n), 0)) 0)"
    by (simp add: HalReadTimestampCounter_def)
  from HalStallExecution_waits [OF _ _ this] show ?thesis by auto
qed

text \<open>
  C31: the entry into user mode drops every privilege.  With the segments the HAL installs, the frame that enters user
  mode names a present 64-bit code segment and a present data segment, both of privilege level 3 and requested at level
  3; interrupts are on, and the program gets the entry point, stack and arguments asked for.
\<close>

theorem KiArchEnterUserMode_privilege:
  "let g = gAur64Gdt (HalpInitializeSegments lk Rsp t); e = KiArchEnterUserMode ip sp a0 a1 fl; f = ue_Frame e;
       seg = (\<lambda>sel. g (unat (drop_bit 3 sel))) in
   list_all (\<lambda>sel. sel AND 3 = 3 \<and> seg_present (seg sel) \<and> seg_dpl (seg sel) = 3) [if_Cs f, if_Ss f, ucast (ue_DataSegments e)] \<and>
   seg_code (seg (if_Cs f)) \<and> seg_long (seg (if_Cs f)) \<and> \<not> seg_code (seg (if_Ss f)) \<and> bit (if_Rflags f) 9 \<and>
   if_Rip f = ip \<and> if_Rsp f = sp \<and> ue_Rdi e = a0 \<and> ue_Rsi e = a1"
proof -
  have g: "gAur64Gdt (HalpInitializeSegments lk Rsp t) 3 = 0x008FF2000000FFFF" "gAur64Gdt (HalpInitializeSegments lk Rsp t) 4 = 0x00AFFA000000FFFF"
    by (simp_all add: HalpInitializeSegments_def Let_def segment_words split: prod.split)
  have "bit (0x200 :: u64) 9" by (simp add: bit_iff_odd)
  then have b: "bit (fl OR 0x200 :: u64) 9" by (simp only: bit_or_iff) simp
  show ?thesis
    using b by (simp add: Let_def KiArchEnterUserMode_def AUR64_USER_CODE_SELECTOR_def AUR64_USER_DATA_SELECTOR_def g seg_present_def seg_dpl_def
        seg_code_def seg_long_def bit_iff_odd drop_bit_eq_div)
qed

text \<open>
  The program of the smoke test.  Started with the base of its page in \<^verbatim>\<open>rdi\<close>, it stores 0x5A at the base, prints the message
  at offset 0x100 with its length, yields twice and ends its thread, and would then halt; its code ends before the message.
\<close>

theorem KiUserSmokeBuildCode_runs:
  assumes "unat len < 2 ^ 31"
  shows "length (KiUserSmokeBuildCode len) \<le> 0x100 \<and>
    (\<exists>v. user_run res 26 (KiUserSmokeBuildCode len) (u\<lparr>u_rdi := base, u_effects := []\<rparr>) = Some (v, [0xF4, 0xEB, 0xFD]) \<and>
       u_effects v = [StoreByte base 0x5A, Syscall [0, base + 0x100, ucast len, 0, 0, 0, 0], Syscall [1, 0, 0, 0, 0, 0, 0],
         Syscall [1, 0, 0, 0, 0, 0, 0], Syscall [5, 0, 0, 0, 0, 0, 0]])"
proof -
  have "take_bit 31 len = len" using assms by (simp add: word_unat_eq_iff unsigned_take_bit_eq take_bit_nat_eq_self)
  then have hi: "\<not> bit len n" if "31 \<le> n" for n using that bit_take_bit_iff [of 31 len n] by simp
  have sx: "(scast len :: u64) = ucast len"
    by (rule bit_word_eqI) (auto simp: bit_simps min_def hi)
  have n: "(26 :: nat) = Suc (Suc (Suc (Suc (Suc (Suc (Suc (Suc (Suc (Suc (Suc (Suc (Suc (Suc (Suc (Suc (Suc (Suc (Suc (Suc (Suc (Suc (Suc
      (Suc (Suc (Suc 0)))))))))))))))))))))))))" by simp
  show ?thesis
    unfolding KiUserSmokeBuildCode_def n
    by (simp add: user_run_ops sx Let_def del: user_run.simps)
qed

text \<open>The message of the test, \<^verbatim>\<open>[USR] hello from user mode\<close> and a line feed, has 27 characters.\<close>

definition demo_user :: user_state where
  "demo_user = \<lparr>u_rax = 0, u_rbx = 0, u_rdi = 0x40000000, u_rsi = 0, u_rdx = 0, u_r10 = 0, u_r8 = 0, u_r9 = 0, u_effects = []\<rparr>"

theorem KiUserSmokeBuildCode_runs_witness:
  "\<exists>v. user_run (\<lambda>_. 0) 26 (KiUserSmokeBuildCode 27) demo_user = Some (v, [0xF4, 0xEB, 0xFD]) \<and>
    Syscall [0, 0x40000100, 27, 0, 0, 0, 0] \<in> set (u_effects v)"
proof -
  have "demo_user\<lparr>u_rdi := 0x40000000, u_effects := []\<rparr> = demo_user" by (simp add: demo_user_def)
  then show ?thesis using KiUserSmokeBuildCode_runs [where len = 27 and res = "\<lambda>_. 0" and u = demo_user and base = "0x40000000"] by auto
qed

end
