(* ===== verification/NtxDemand.thy ===== *)
theory NtxDemand
  imports NtxUserCopy NtxMmSection
begin

text \<open>
  Demand paging seen by the code that runs: the walk of the processor agrees with the walk of the memory manager, so
  the page fault routine of \<^verbatim>\<open>kernel/mm/init.c\<close> makes the access that faulted succeed, on fresh zeroed memory for an
  anonymous region and on the shared page for a section.
\<close>

section \<open>The walk of the processor\<close>

lemma walk_index_page: "walk_index (MmpAlignDown va MM_PAGE_SIZE) L = walk_index va L" if "L \<le> 3"
proof -
  have m: "(4096 :: u64) - 1 = mask 12" by (simp add: mask_eq_decr_exp)
  have "drop_bit (39 - 9 * L) (va AND NOT (mask 12)) = drop_bit (39 - 9 * L) (va :: u64)"
    using that by (intro bit_word_eqI) (auto simp: bit_simps dest: bit_imp_le_length)
  then show ?thesis unfolding walk_index_def MmpAlignDown_def MM_PAGE_SIZE_def m by simp
qed

lemma pte_at_page: "pte_at s a (MmpAlignDown va MM_PAGE_SIZE) b = pte_at s a va b"
  unfolding pte_at_def by (auto intro: walk_path_index simp: walk_index_page)

lemma mmu_masked [simp]:
  "mmu_walk k L va (T AND MM_PTE_ADDR_MASK) s = mmu_walk k L va T s"
  "mmu_walk_writable k L va (T AND MM_PTE_ADDR_MASK) s = mmu_walk_writable k L va T s"
  "walk_cells k L va (T AND MM_PTE_ADDR_MASK) s = walk_cells k L va T s"
  by (cases k; simp)+

lemma mmu_path:
  assumes "walk_path s va L k a b"
  shows "mmu_walk (Suc k) L va a s = mmu_walk 1 (L + k) va b s \<and>
    mmu_walk_writable (Suc k) L va a s = (mmu_walk_writable k L va a s \<and> has_flag (hw_mem s (slot b (walk_index va (L + k)))) MM_PTE_WRITABLE)"
  using assms
proof (induction k arbitrary: L a)
  case (Suc k)
  let ?e = "hw_mem s (slot a (walk_index va L))"
  have e: "has_flag ?e MM_PTE_PRESENT" "\<not> has_flag ?e MM_PTE_LARGE"
    and p: "walk_path s va (Suc L) k (?e AND MM_PTE_ADDR_MASK) b"
    using Suc.prems by (auto simp: Let_def table_entry_def)
  have "mmu_walk (Suc (Suc k)) L va a s = mmu_walk (Suc k) (Suc L) va ?e s"
    using e by (subst mmu_walk.simps) (simp add: Let_def)
  moreover have "mmu_walk_writable (Suc n) L va a s = (has_flag ?e MM_PTE_WRITABLE \<and> mmu_walk_writable n (Suc L) va ?e s)" for n
    using e by (subst mmu_walk_writable.simps) (simp add: Let_def)
  ultimately show ?case using Suc.IH [OF p] by (simp del: mmu_walk.simps mmu_walk_writable.simps)
qed (simp add: Let_def)

text \<open>The cells of all page tables.\<close>

definition tables :: "levels \<Rightarrow> u64 set" where
  "tables lvl = {slot x j | x l j. lvl x = Some l \<and> j < 512}"

lemma path_cells:
  assumes "walk_path s va L k a b" "pt_inv lvl s" "lvl a = Some (4 - L)" "L + k = 3"
  shows "walk_cells (Suc k) L va a s \<subseteq> tables lvl"
  using assms(1,3,4)
proof (induction k arbitrary: L a)
  case 0
  then show ?case using walk_index_less [of va L] by (auto simp: tables_def Let_def)
next
  case (Suc k)
  let ?e = "hw_mem s (slot a (walk_index va L))"
  have te: "table_entry ?e" and p: "walk_path s va (Suc L) k (?e AND MM_PTE_ADDR_MASK) b"
    using Suc.prems(1) by (auto simp: Let_def)
  have l: "4 - L = Suc (3 - L)" "1 \<le> 3 - L" using Suc.prems(3) by auto
  have "lvl (?e AND MM_PTE_ADDR_MASK) = Some (4 - Suc L)"
    using assms(2) Suc.prems(2) te l walk_index_less [of va L] by (auto simp: pt_inv_def entries_ok_def)
  from Suc.IH [OF p this] Suc.prems(3) have "walk_cells (Suc k) (Suc L) va ?e s \<subseteq> tables lvl" by simp
  moreover have "slot a (walk_index va L) \<in> tables lvl"
    using Suc.prems(2) walk_index_less [of va L] by (auto simp: tables_def)
  ultimately show ?case by (subst walk_cells.simps) (simp add: Let_def)
qed

text \<open>What the processor finds at an address whose page table exists.\<close>

lemma mmu_at:
  assumes "as_ok lvl s a" "hw_cr3 s = as_root s a" "pte_at s a va b" "e = hw_mem s (slot b (walk_index va 3))"
  shows "mmu_translate va s = (if has_flag e MM_PTE_PRESENT then Some ((e AND MM_PTE_ADDR_MASK) + (va AND 0xFFF)) else None)"
    "store_allowed mc va s \<longleftrightarrow> (mc_wp mc \<longrightarrow> mmu_walk_writable 3 0 va (as_root s a) s \<and> has_flag e MM_PTE_WRITABLE)"
    "table_cells va s \<subseteq> tables lvl"
proof -
  have n: "4 = Suc 3" by simp
  note p = mmu_path [OF assms(3) [unfolded pte_at_def]]
  show "mmu_translate va s = (if has_flag e MM_PTE_PRESENT then Some ((e AND MM_PTE_ADDR_MASK) + (va AND 0xFFF)) else None)"
    unfolding mmu_translate_def n assms(2) p [THEN conjunct1] by (simp add: Let_def assms(4))
  show "store_allowed mc va s \<longleftrightarrow> (mc_wp mc \<longrightarrow> mmu_walk_writable 3 0 va (as_root s a) s \<and> has_flag e MM_PTE_WRITABLE)"
    unfolding store_allowed_def n assms(2) p [THEN conjunct2] by (simp add: assms(4))
  show "table_cells va s \<subseteq> tables lvl"
    unfolding table_cells_def n assms(2)
    using path_cells [OF assms(3) [unfolded pte_at_def], of lvl] assms(1) by (simp add: as_ok_def)
qed

section \<open>Bytes of a page\<close>

lemma page_cell:
  assumes "pa AND MM_PTE_ADDR_MASK = pa"
  shows "cell (pa + (va AND 0xFFF)) = slot pa (unat (va AND 0xFFF) div 8)" "unat (va AND 0xFFF) div 8 < 512"
proof -
  define o' where "o' = va AND 0xFFF"
  have o: "unat o' < 4096"
    using word_and_le1 [of va "0xFFF"] by (simp add: o'_def word_le_nat_alt)
  then show "unat (va AND 0xFFF) div 8 < 512" by (simp add: o'_def [symmetric] less_mult_imp_div_less)
  have p: "unat pa mod 4096 = 0" "unat pa + 4096 \<le> 2 ^ 52"
    using unat_addr_mask [of pa] unat_masked_bound [of pa] assms by simp_all
  then obtain q where q: "unat pa = 4096 * q" by (auto simp: mod_eq_0_iff_dvd elim: dvdE)
  have s: "unat (pa + o') = unat pa + unat o'" using p(2) o by (intro unat_add_u64) simp
  have m: "(7 :: u64) = mask 3" by (simp add: mask_eq_decr_exp)
  have "unat (cell (pa + o')) = (unat pa + unat o') div 8 * 8"
    unfolding cell_def m using unat_align [of 3 "pa + o'"] s by simp
  also have "\<dots> = unat pa + unat o' div 8 * 8"
  proof -
    have "(4096 * q + x) div 8 * 8 = 4096 * q + x div 8 * 8" for x :: nat
      using div_mult_self1 [of 8 x "512 * q"] by (simp add: algebra_simps)
    then show ?thesis by (simp add: q)
  qed
  also have "\<dots> = unat (slot pa (unat o' div 8))"
    using unat_slot [of "unat o' div 8" pa] o assms by (simp add: less_mult_imp_div_less)
  finally show "cell (pa + (va AND 0xFFF)) = slot pa (unat (va AND 0xFFF) div 8)"
    by (simp add: o'_def [symmetric] unsigned_word_eqI)
qed

lemma page_split: "va = MmpAlignDown va MM_PAGE_SIZE OR (va AND 0xFFF)"
proof -
  have "(4096 :: u64) - 1 = 0xFFF" by simp
  then show ?thesis unfolding MmpAlignDown_def MM_PAGE_SIZE_def by (intro bit_word_eqI) (auto simp: bit_simps)
qed

text \<open>A byte stored in a page that is no page table changes no table.\<close>

lemma data_cell:
  assumes "pt_inv lvl s" "pa AND MM_PTE_ADDR_MASK = pa" "lvl pa = None"
  shows "cell (pa + (va AND 0xFFF)) \<notin> tables lvl"
proof
  assume "cell (pa + (va AND 0xFFF)) \<in> tables lvl"
  then obtain x l j where x: "lvl x = Some l" "j < 512" "slot pa (unat (va AND 0xFFF) div 8) = slot x j"
    using page_cell(1) [OF assms(2)] by (auto simp: tables_def)
  then have "x AND MM_PTE_ADDR_MASK = x" using assms(1) by (auto simp: pt_inv_def levels_ok_def)
  with slot_inj(1) [OF x(3) page_cell(2) [OF assms(2)] x(2)] x(1) assms(2,3) show False by simp
qed

lemma store_keeps_tables:
  fixes s :: "'a MM_GLOBALS_scheme"
  assumes "as_ok lvl s a" "pa AND MM_PTE_ADDR_MASK = pa" "lvl pa = None"
    and t: "t = s\<lparr>hw_mem := with_byte (pa + (va AND 0xFFF)) v (hw_mem s)\<rparr>"
  shows "as_ok lvl t a" "c \<in> tables lvl \<Longrightarrow> hw_mem t c = hw_mem s c"
proof -
  have inv: "pt_inv lvl s" using assms(1) by (simp add: as_ok_def)
  have k: "hw_mem t c = hw_mem s c" if "c \<in> tables lvl" for c
    using that data_cell [OF inv assms(2,3), of va] by (auto simp: t with_byte_def)
  then show "c \<in> tables lvl \<Longrightarrow> hw_mem t c = hw_mem s c" .
  have "hw_mem t (slot x j) = hw_mem s (slot x j)" if "lvl x = Some l" "j < 512" for x l j
    using k that by (auto simp: tables_def)
  then show "as_ok lvl t a"
    using as_ok_transfer [OF assms(1), of t] inv by (simp add: t pt_inv_def)
qed

section \<open>Mapping a page that is absent\<close>

lemma mm_frame_cr3: "mm_frame s t \<Longrightarrow> hw_cr3 t = hw_cr3 s"
  by (auto simp: mm_frame_def)

text \<open>The walk keeps which of the existing paths may be written.\<close>

lemma walk_writable_kept:
  assumes "walk_path s va L k a b" "pt_inv lvl s" "lvl a = Some (4 - L)" "L + k = 3"
    and kept: "\<And>c l j. lvl c = Some l \<Longrightarrow> 2 \<le> l \<Longrightarrow> j < 512 \<Longrightarrow> same_target s t (slot c j)"
  shows "mmu_walk_writable k L va a t = mmu_walk_writable k L va a s"
  using assms(1,3,4)
proof (induction k arbitrary: L a)
  case (Suc k)
  let ?i = "slot a (walk_index va L)"
  have te: "table_entry (hw_mem s ?i)" and rest: "walk_path s va (Suc L) k (hw_mem s ?i AND MM_PTE_ADDR_MASK) b"
    using Suc.prems(1) by (auto simp: Let_def)
  have l: "4 - L = Suc (3 - L)" "1 \<le> 3 - L" using Suc.prems(3) by auto
  have lv: "lvl (hw_mem s ?i AND MM_PTE_ADDR_MASK) = Some (4 - Suc L)"
    using assms(2) Suc.prems(2) te l walk_index_less [of va L] by (auto simp: pt_inv_def entries_ok_def)
  have st: "same_target s t ?i" using kept [OF Suc.prems(2) _ walk_index_less] l by simp
  have "mmu_walk_writable k (Suc L) va (hw_mem t ?i) t = mmu_walk_writable k (Suc L) va (hw_mem t ?i AND MM_PTE_ADDR_MASK) t" by simp
  also have "\<dots> = mmu_walk_writable k (Suc L) va (hw_mem s ?i AND MM_PTE_ADDR_MASK) t"
    using st te by (simp only: same_target_def)
  also have "\<dots> = mmu_walk_writable k (Suc L) va (hw_mem s ?i) s"
    using Suc.IH [OF rest lv] Suc.prems(3) by simp
  finally show ?case using st te by (auto simp: Let_def same_target_def table_entry_def)
qed simp

text \<open>One page more: every path that existed still leads to its table, may be written as before, and finds the entry
  it found before unless that is the entry at \<open>c\<close>, which is now \<open>e\<close>; data pages in use keep their contents.\<close>

definition adds_entry :: "levels \<Rightarrow> levels \<Rightarrow> nat \<Rightarrow> u64 \<Rightarrow> u64 \<Rightarrow> 'a MM_GLOBALS_scheme \<Rightarrow> 'a MM_GLOBALS_scheme \<Rightarrow> bool" where
  "adds_entry lvl lvl' a c e s t \<longleftrightarrow> as_ok lvl' t a \<and> as_root t a = as_root s a \<and> hw_cr3 t = hw_cr3 s \<and>
     (\<forall>va b. pte_at s a va b \<longrightarrow> pte_at t a va b \<and>
        mmu_walk_writable 3 0 va (as_root s a) t = mmu_walk_writable 3 0 va (as_root s a) s \<and>
        hw_mem t (slot b (walk_index va 3)) = (if slot b (walk_index va 3) = c then e else hw_mem s (slot b (walk_index va 3)))) \<and>
     (\<forall>x. x AND MM_PTE_ADDR_MASK = x \<and> page_alloc s (unat x div 4096) \<and> lvl x = None \<longrightarrow>
        lvl' x = None \<and> page_alloc t (unat x div 4096) \<and> (\<forall>j<512. hw_mem t (slot x j) = hw_mem s (slot x j)))"

lemma map_adds:
  fixes s :: "'a MM_GLOBALS_scheme"
  assumes ok: "as_ok lvl s a" and va: "MmpIsCanonicalAddress va" "page_aligned va" and pa: "page_aligned pa"
    and path: "pte_at s a va b" and no: "\<not> has_flag (hw_mem s (slot b (walk_index va 3))) MM_PTE_PRESENT"
  obtains t lvl' where "MmAsMapPage (Some a) va pa fl s = Some (KSTATUS_SUCCESS, t)"
    "adds_entry lvl lvl' a (slot b (walk_index va 3)) (new_pte pa fl) s t" "mm_frame s t"
proof -
  let ?c = "slot b (walk_index va 3)"
  obtain s1 lvl' where w: "walk_step lvl lvl' 4 s s1" "lvl b = Some 1"
    and m0: "MmAsMapPage (Some a) va pa fl s = Some (KSTATUS_SUCCESS,
      (if has_flag (hw_mem s ?c) MM_PTE_PRESENT then MmpReleasePage (hw_mem s ?c AND MM_PTE_ADDR_MASK) s1 else s1)
      \<lparr>hw_mem := (hw_mem s1)(?c := new_pte pa fl)\<rparr>)"
    by (rule map_on_path [OF ok va pa path])
  note m = m0 [unfolded if_not_P [OF no]]
  let ?t = "s1\<lparr>hw_mem := (hw_mem s1)(?c := new_pte pa fl)\<rparr>"
  have inv: "pt_inv lvl s" "lvl (as_root s a) = Some 4" using ok by (auto simp: as_ok_def)
  note ok1 = walk_step_as [OF w(1) ok]
  have lb: "lvl' b = Some 1" using w by (auto simp: walk_step_def map_le_def dom_def)
  have mask: "x AND MM_PTE_ADDR_MASK = x" if "lvl' x = Some l" for x l
    using ok1(1) that by (auto simp: as_ok_def pt_inv_def levels_ok_def)
  have t_ne: "slot x j \<noteq> ?c" if "x AND MM_PTE_ADDR_MASK = x" "x \<noteq> b" "j < 512" for x j
    using slot_inj(1) [of x j b] that mask [OF lb] walk_index_less by metis
  have upper: "hw_mem ?t (slot x j) = hw_mem s1 (slot x j)" if "lvl' x = Some l" "2 \<le> l" "j < 512" for x l j
  proof -
    have "x \<noteq> b" using that(1,2) lb by auto
    with t_ne [OF mask [OF that(1)] _ that(3)] show ?thesis by simp
  qed
  have p: "pte_at ?t a va' c \<and> mmu_walk_writable 3 0 va' (as_root s a) ?t = mmu_walk_writable 3 0 va' (as_root s a) s \<and>
      hw_mem ?t (slot c (walk_index va' 3)) = (if slot c (walk_index va' 3) = ?c then new_pte pa fl else hw_mem s (slot c (walk_index va' 3)))"
    if "pte_at s a va' c" for va' c
  proof -
    have k: "walk_path s1 va' 0 3 (as_root s a) c" "lvl c = Some 1"
      using walk_path_kept [OF w(1) inv(1) that [unfolded pte_at_def]] inv(2) by auto
    have inv1: "pt_inv lvl' s1" "lvl' (as_root s a) = Some (4 - 0)" using ok1 by (simp_all add: as_ok_def)
    from walk_path_cong [OF k(1) inv1 _ upper] ok1(2) have "pte_at ?t a va' c" by (simp add: pte_at_def as_root_def)
    moreover have "mmu_walk_writable 3 0 va' (as_root s a) ?t = mmu_walk_writable 3 0 va' (as_root s a) s1"
      using walk_writable_kept [OF k(1) inv1, of ?t] upper by (simp add: same_target_def)
    moreover have "mmu_walk_writable 3 0 va' (as_root s a) s1 = mmu_walk_writable 3 0 va' (as_root s a) s"
      using walk_writable_kept [OF that [unfolded pte_at_def] inv(1), of s1] inv(2) w(1) by (simp add: walk_step_def)
    moreover have "hw_mem s1 (slot c (walk_index va' 3)) = hw_mem s (slot c (walk_index va' 3))"
      using walk_step_mem [OF w(1) k(2) walk_index_less] by simp
    ultimately show ?thesis by simp
  qed
  have fr: "mm_frame s ?t" using mm_frame_map [OF m] .
  have "as_ok lvl' ?t a"
    using as_ok_upper [OF ok1(1), of ?t] ok1(1) upper by (simp add: as_ok_def pt_inv_def page_alloc_def pages_wf_def)
  moreover have "lvl' x = None \<and> page_alloc ?t (unat x div 4096) \<and> (\<forall>j<512. hw_mem ?t (slot x j) = hw_mem s (slot x j))"
    if x: "x AND MM_PTE_ADDR_MASK = x" "page_alloc s (unat x div 4096)" "lvl x = None" for x
  proof -
    have "lvl' x = None" "page_alloc s1 (unat x div 4096)" "\<forall>j<512. hw_mem s1 (slot x j) = hw_mem s (slot x j)"
      using w(1) x by (auto simp: walk_step_def pages_kept_def)
    moreover from this(1) lb have "x \<noteq> b" by auto
    ultimately show ?thesis using t_ne [OF x(1)] by (simp add: page_alloc_def)
  qed
  moreover note mm_frame_cr3 [OF fr]
  moreover have "as_root ?t a = as_root s a" using ok1(2) by (simp add: as_root_def)
  ultimately have "adds_entry lvl lvl' a ?c (new_pte pa fl) s ?t" using p unfolding adds_entry_def by blast
  with m fr that show thesis by blast
qed

text \<open>The relation composes with changes that leave the tables and the data pages in use alone.\<close>

lemma adds_entry_prefix:
  assumes ok: "as_ok lvl s a" and e: "adds_entry lvl lvl' a c e s1 t"
    and same: "as_root s1 a = as_root s a" "hw_cr3 s1 = hw_cr3 s" "\<And>p. page_alloc s p \<Longrightarrow> page_alloc s1 p"
      "\<And>x j. x AND MM_PTE_ADDR_MASK = x \<Longrightarrow> page_alloc s (unat x div 4096) \<Longrightarrow> j < 512 \<Longrightarrow> hw_mem s1 (slot x j) = hw_mem s (slot x j)"
  shows "adds_entry lvl lvl' a c e s t"
proof -
  have inv: "pt_inv lvl s" "lvl (as_root s a) = Some (4 - 0)" using ok by (simp_all add: as_ok_def)
  have tb: "hw_mem s1 (slot x j) = hw_mem s (slot x j)" if "lvl x = Some l" "j < 512" for x l j
    using same(4) [OF _ _ that(2)] that(1) inv(1) by (auto simp: pt_inv_def levels_ok_def)
  have "pte_at s1 a va b" "hw_mem s1 (slot b (walk_index va 3)) = hw_mem s (slot b (walk_index va 3))"
    "mmu_walk_writable 3 0 va (as_root s a) s1 = mmu_walk_writable 3 0 va (as_root s a) s" if p: "pte_at s a va b" for va b
  proof -
    have "walk_path s1 va 0 3 (as_root s a) b" "lvl b = Some 1"
      using walk_path_cong [OF p [unfolded pte_at_def] inv _ tb] by auto
    then show "pte_at s1 a va b" "hw_mem s1 (slot b (walk_index va 3)) = hw_mem s (slot b (walk_index va 3))"
      using tb walk_index_less same(1) by (auto simp: pte_at_def)
    show "mmu_walk_writable 3 0 va (as_root s a) s1 = mmu_walk_writable 3 0 va (as_root s a) s"
      using walk_writable_kept [OF p [unfolded pte_at_def] inv, of s1] tb by (simp add: same_target_def)
  qed
  with e same show ?thesis unfolding adds_entry_def by (metis (full_types))
qed

lemma adds_entry_suffix:
  assumes e: "adds_entry lvl lvl' a c e s t" and same: "hw_mem t' = hw_mem t" "hw_cr3 t' = hw_cr3 t" "as_root t' a = as_root t a"
    "page_alloc t' = page_alloc t" "pages_wf t'" "gMmReady t'"
  shows "adds_entry lvl lvl' a c e s t'"
proof -
  have "as_ok lvl' t a" using e by (simp add: adds_entry_def)
  then have "as_ok lvl' t' a"
    using same unfolding as_ok_def pt_inv_def levels_ok_def entries_ok_def by simp
  moreover have "pte_at t' a va b = pte_at t a va b" "mmu_walk_writable 3 0 va x t' = mmu_walk_writable 3 0 va x t" for va b x
    using walk_path_mem_only [OF same(1)] mmu_walk_agree(2) [of 3 0 va x t t'] same(1,3) by (simp_all add: pte_at_def)
  ultimately show ?thesis using e same unfolding adds_entry_def by simp
qed

section \<open>Resolved faults\<close>

text \<open>What a fault that is resolved leaves: only memory, the state of the page allocator, the count of committed pages of
  one region and the trace change.\<close>

definition fault_frame :: "nat \<Rightarrow> nat \<Rightarrow> 'a MM_GLOBALS_scheme \<Rightarrow> 'a MM_GLOBALS_scheme \<Rightarrow> bool" where
  "fault_frame a r s t \<longleftrightarrow> (\<exists>m bm rc nx n x y. t = s\<lparr>hw_mem := m, gMmPageBitmap := bm, gMmPageRefCount := rc, gMmNextScanPage := nx,
     gMmAddressSpacePool := (gMmAddressSpacePool s)(a := (gMmAddressSpacePool s a)\<lparr>as_Regions := (as_Regions (gMmAddressSpacePool s a))
       (r := (region (gMmAddressSpacePool s a) r)\<lparr>reg_CommittedPages := n\<rparr>)\<rparr>),
     gMmFaultTrace := x, gMmFaultTraceNext := y\<rparr>)"

lemma fault_frame_commit:
  assumes "mm_frame s t"
  shows "fault_frame a r s (set_region a r (\<lambda>g. g\<lparr>reg_CommittedPages := reg_CommittedPages g + 1\<rparr>) t)"
proof -
  from assms obtain m bm rc nx where "t = s\<lparr>hw_mem := m, gMmPageBitmap := bm, gMmPageRefCount := rc, gMmNextScanPage := nx\<rparr>"
    by (auto simp: mm_frame_def)
  then show ?thesis
    unfolding fault_frame_def
    by (intro exI [of _ m] exI [of _ bm] exI [of _ rc] exI [of _ nx] exI [of _ "reg_CommittedPages (region (gMmAddressSpacePool s a) r) + 1"]
        exI [of _ "gMmFaultTrace s"] exI [of _ "gMmFaultTraceNext s"]) (simp add: set_region_def set_as_def)
qed

lemma fault_frame_mem:
  assumes "fault_frame a r s t"
  shows "fault_frame a r s (t\<lparr>hw_mem := m\<rparr>)"
proof -
  obtain m' bm rc nx n x y where "t = s\<lparr>hw_mem := m', gMmPageBitmap := bm, gMmPageRefCount := rc, gMmNextScanPage := nx,
     gMmAddressSpacePool := (gMmAddressSpacePool s)(a := (gMmAddressSpacePool s a)\<lparr>as_Regions := (as_Regions (gMmAddressSpacePool s a))
       (r := (region (gMmAddressSpacePool s a) r)\<lparr>reg_CommittedPages := n\<rparr>)\<rparr>),
     gMmFaultTrace := x, gMmFaultTraceNext := y\<rparr>"
    using assms by (auto simp: fault_frame_def)
  then show ?thesis
    unfolding fault_frame_def
    by (intro exI [of _ m] exI [of _ bm] exI [of _ rc] exI [of _ nx] exI [of _ n] exI [of _ x] exI [of _ y]) simp
qed

lemma commit_fields:
  "hw_mem (set_region a r f s) = hw_mem s" "hw_cr3 (set_region a r f s) = hw_cr3 s" "page_alloc (set_region a r f s) = page_alloc s"
  "pages_wf (set_region a r f s) = pages_wf s" "gMmReady (set_region a r f s) = gMmReady s" "as_root (set_region a r f s) a' = as_root s a'"
  by (simp_all add: set_region_def set_as_def page_alloc_def fun_eq_iff pages_wf_def as_root_def)

text \<open>A region after a fault is the same but for the count.\<close>

lemma fault_frame_regions:
  assumes "fault_frame a r s t"
  shows "rcount (gMmAddressSpacePool t a) = rcount (gMmAddressSpacePool s a)"
    "regions_wf (gMmAddressSpacePool t a) = regions_wf (gMmAddressSpacePool s a)"
    "in_region (gMmAddressSpacePool t a) i va = in_region (gMmAddressSpacePool s a) i va"
    "region_permits (region (gMmAddressSpacePool t a) i) err = region_permits (region (gMmAddressSpacePool s a) i) err"
    "reg_Type (region (gMmAddressSpacePool t a) i) = reg_Type (region (gMmAddressSpacePool s a) i)"
    "reg_Protection (region (gMmAddressSpacePool t a) i) = reg_Protection (region (gMmAddressSpacePool s a) i)"
    "reg_Flags (region (gMmAddressSpacePool t a) i) = reg_Flags (region (gMmAddressSpacePool s a) i)"
    "reg_Base (region (gMmAddressSpacePool t a) i) = reg_Base (region (gMmAddressSpacePool s a) i)"
    "reg_Size (region (gMmAddressSpacePool t a) i) = reg_Size (region (gMmAddressSpacePool s a) i)"
    "reg_BackingObject (region (gMmAddressSpacePool t a) i) = reg_BackingObject (region (gMmAddressSpacePool s a) i)"
    "reg_BackingOffset (region (gMmAddressSpacePool t a) i) = reg_BackingOffset (region (gMmAddressSpacePool s a) i)"
    "as_root t a' = as_root s a'" "hw_cr3 t = hw_cr3 s" "gMmSectionPool t = gMmSectionPool s" "gMmSectionInUse t = gMmSectionInUse s"
    "gHalPageFaultRoutine t = gHalPageFaultRoutine s"
proof -
  obtain m bm rc nx n x y where t: "t = s\<lparr>hw_mem := m, gMmPageBitmap := bm, gMmPageRefCount := rc, gMmNextScanPage := nx,
     gMmAddressSpacePool := (gMmAddressSpacePool s)(a := (gMmAddressSpacePool s a)\<lparr>as_Regions := (as_Regions (gMmAddressSpacePool s a))
       (r := (region (gMmAddressSpacePool s a) r)\<lparr>reg_CommittedPages := n\<rparr>)\<rparr>),
     gMmFaultTrace := x, gMmFaultTraceNext := y\<rparr>"
    using assms by (auto simp: fault_frame_def)
  show "rcount (gMmAddressSpacePool t a) = rcount (gMmAddressSpacePool s a)"
    "as_root t a' = as_root s a'" "hw_cr3 t = hw_cr3 s" "gMmSectionPool t = gMmSectionPool s" "gMmSectionInUse t = gMmSectionInUse s"
    "gHalPageFaultRoutine t = gHalPageFaultRoutine s"
    by (simp_all add: t as_root_def)
  show b: "reg_Base (region (gMmAddressSpacePool t a) i) = reg_Base (region (gMmAddressSpacePool s a) i)"
    "reg_Size (region (gMmAddressSpacePool t a) i) = reg_Size (region (gMmAddressSpacePool s a) i)"
    "reg_Type (region (gMmAddressSpacePool t a) i) = reg_Type (region (gMmAddressSpacePool s a) i)"
    "reg_Protection (region (gMmAddressSpacePool t a) i) = reg_Protection (region (gMmAddressSpacePool s a) i)"
    "reg_Flags (region (gMmAddressSpacePool t a) i) = reg_Flags (region (gMmAddressSpacePool s a) i)"
    "reg_BackingObject (region (gMmAddressSpacePool t a) i) = reg_BackingObject (region (gMmAddressSpacePool s a) i)"
    "reg_BackingOffset (region (gMmAddressSpacePool t a) i) = reg_BackingOffset (region (gMmAddressSpacePool s a) i)" for i
    by (simp_all add: t)
  show "regions_wf (gMmAddressSpacePool t a) = regions_wf (gMmAddressSpacePool s a)"
    unfolding regions_wf_def b by (simp add: t)
  show "in_region (gMmAddressSpacePool t a) i va = in_region (gMmAddressSpacePool s a) i va" by (simp only: in_region_def b)
  show "region_permits (region (gMmAddressSpacePool t a) i) err = region_permits (region (gMmAddressSpacePool s a) i) err"
    by (simp only: region_permits_def b)
qed

lemma find_section_frame: "fault_frame a r s t \<Longrightarrow> MmpFindSectionByHeader h t = MmpFindSectionByHeader h s"
  by (simp add: MmpFindSectionByHeader_def fault_frame_regions)

lemma current_space_frame:
  assumes "fault_frame a r s t"
  shows "current_space t = current_space (s :: 'a PS_GLOBALS_scheme)"
  using assms by (auto simp: fault_frame_def current_space_def PsGetCurrentProcess_def split: option.split)

text \<open>The two kinds of page a first access finds, with the entry that maps it.\<close>

lemma page_masked_aligned: "pa AND MM_PTE_ADDR_MASK = pa \<Longrightarrow> page_aligned pa"
proof -
  assume "pa AND MM_PTE_ADDR_MASK = pa"
  then have "unat pa mod 4096 = 0" using unat_addr_mask [of pa] by simp
  then have "unat (pa mod MM_PAGE_SIZE) = 0" by (simp add: unat_mod_distrib MM_PAGE_SIZE_def)
  then show ?thesis by (simp add: page_aligned_def unat_eq_zero)
qed

lemma anon_adds:
  fixes s :: "'a MM_GLOBALS_scheme"
  assumes ok: "as_ok lvl s a" and wf: "regions_wf (gMmAddressSpacePool s a)"
    and r: "r < rcount (gMmAddressSpacePool s a)" "in_region (gMmAddressSpacePool s a) r va"
    and g: "g = region (gMmAddressSpacePool s a) r" "region_permits g err" "\<not> has_flag err MM_PF_ERROR_PRESENT" "reg_Type g = MM_REGION_TYPE_ANON"
    and free: "0 < free_pages s" and path: "pte_at s a va b" and no: "\<not> has_flag (hw_mem s (slot b (walk_index va 3))) MM_PTE_PRESENT"
  obtains t lvl' pa where "MmHandlePageFault (Some a) va err s = Some (KSTATUS_SUCCESS, t)" "fault_frame a r s t"
    "adds_entry lvl lvl' a (slot b (walk_index va 3)) (new_pte pa (MmpProtectionToPte (reg_Protection g) (reg_Flags g))) s t"
    "pa AND MM_PTE_ADDR_MASK = pa" "lvl' pa = None" "page_alloc t (unat pa div 4096)" "\<forall>j<512. hw_mem t (slot pa j) = 0"
proof -
  define pg where "pg = MmpAlignDown va MM_PAGE_SIZE"
  define fl where "fl = MmpProtectionToPte (reg_Protection g) (reg_Flags g)"
  note pg = fault_page [OF wf r, folded pg_def]
  have h: "MmHandlePageFault (Some a) va err s = fault_anon a r pg s"
    using fault_dispatch [OF ok wf r] g by (simp add: pg_def Let_def) metis
  have i: "walk_index pg 3 = walk_index va 3" by (simp add: pg_def walk_index_page)
  have inv: "gMmReady s" "pages_wf s" using ok by (auto simp: as_ok_def pt_inv_def)
  obtain pa s1 where al: "MmAllocPage True s = (Inr pa, s1)"
    using alloc_internal_free [OF inv(2) free] MmAllocPage_ready [OF inv(1)] by metis
  define s2 where "s2 = zero_page (MmpPhysToVirtPage s1 pa) s1"
  note f1 = alloc_page_fresh [OF ok al]
  note f2 = fill_fresh [OF f1 s2_def [unfolded zero_page_def]]
  have fr2: "mm_frame s s2" using mm_frame_trans [OF mm_frame_alloc [OF al]] by (simp add: s2_def zero_page_def)
  have pa: "pa AND MM_PTE_ADDR_MASK = pa" "page_aligned pa" "lvl pa = None" "page_alloc s2 (unat pa div 4096)"
    using f2(1) by (simp_all add: fresh_page_def)
  note as2 = mm_frame_fields(1) [OF fr2]
  have p2: "pte_at s2 a pg b" using pte_at_cong [OF ok _ f2(1) as2] path by (simp add: pte_at_page pg_def)
  have mem2: "hw_mem s2 (slot x j) = hw_mem s (slot x j)" if "x AND MM_PTE_ADDR_MASK = x" "page_alloc s (unat x div 4096)" "j < 512" for x j
    using that f2(1) by (auto simp: fresh_page_def)
  have lb: "lvl b = Some 1"
    using walk_path_cong [of s va 0 3 "as_root s a" b lvl s] path ok by (simp add: pte_at_def as_ok_def)
  have "hw_mem s2 (slot b (walk_index pg 3)) = hw_mem s (slot b (walk_index va 3))"
    using mem2 [OF _ _ walk_index_less] lb ok i by (auto simp: as_ok_def pt_inv_def levels_ok_def)
  with no have no2: "\<not> has_flag (hw_mem s2 (slot b (walk_index pg 3))) MM_PTE_PRESENT" by simp
  obtain s3 lvl' where m: "MmAsMapPage (Some a) pg pa fl s2 = Some (KSTATUS_SUCCESS, s3)"
    and ae: "adds_entry lvl lvl' a (slot b (walk_index pg 3)) (new_pte pa fl) s2 s3" and fr: "mm_frame s2 s3"
    using map_adds [OF f2(2) pg pa(2) p2 no2] by metis
  define t where "t = set_region a r (\<lambda>g. g\<lparr>reg_CommittedPages := reg_CommittedPages g + 1\<rparr>) s3"
  have "MmHandlePageFault (Some a) va err s = Some (KSTATUS_SUCCESS, t)"
    using h al m as2 by (simp add: fault_anon_def Let_def s2_def [symmetric] fl_def g(1) commit_page_def t_def)
  moreover have "fault_frame a r s t" unfolding t_def by (rule fault_frame_commit [OF mm_frame_trans [OF fr2 fr]])
  moreover have "adds_entry lvl lvl' a (slot b (walk_index va 3)) (new_pte pa fl) s s3"
    using adds_entry_prefix [OF ok ae] mem2 f2(1) as2 mm_frame_cr3 [OF fr2] i by (simp add: as_root_def fresh_page_def)
  then have "adds_entry lvl lvl' a (slot b (walk_index va 3)) (new_pte pa fl) s t"
    by (rule adds_entry_suffix) (use ae in \<open>auto simp: t_def commit_fields adds_entry_def as_ok_def pt_inv_def\<close>)
  moreover have "lvl' pa = None" "page_alloc t (unat pa div 4096)" "\<forall>j<512. hw_mem t (slot pa j) = 0"
    using ae pa f2(3) by (auto simp: adds_entry_def t_def commit_fields)
  ultimately show thesis using that [of t lvl' pa] pa(1) by (simp add: fl_def)
qed

lemma section_adds:
  fixes s :: "'a MM_GLOBALS_scheme"
  assumes ok: "as_ok lvl s a" and wf: "regions_wf (gMmAddressSpacePool s a)"
    and r: "r < rcount (gMmAddressSpacePool s a)" "in_region (gMmAddressSpacePool s a) r va"
    and g: "g = region (gMmAddressSpacePool s a) r" "region_permits g err" "\<not> has_flag err MM_PF_ERROR_PRESENT" "reg_Type g = MM_REGION_TYPE_SECTION"
      "reg_BackingOffset g = 0" "unat (reg_Size g) \<le> 2 ^ 20"
    and sec: "MmpFindSectionByHeader (reg_BackingObject g) s = Some sec" "section_index g va < unat (sec_PageCount (gMmSectionPool s sec))"
      "pa = sec_Pages (gMmSectionPool s sec) (section_index g va)"
    and pa: "pa AND MM_PTE_ADDR_MASK = pa"
    and path: "pte_at s a va b" and no: "\<not> has_flag (hw_mem s (slot b (walk_index va 3))) MM_PTE_PRESENT"
  obtains t lvl' where "MmHandlePageFault (Some a) va err s = Some (KSTATUS_SUCCESS, t)" "fault_frame a r s t"
    "adds_entry lvl lvl' a (slot b (walk_index va 3)) (new_pte pa (MmpProtectionToPte (reg_Protection g) (reg_Flags g))) s t"
proof -
  define pg where "pg = MmpAlignDown va MM_PAGE_SIZE"
  define fl where "fl = MmpProtectionToPte (reg_Protection g) (reg_Flags g)"
  define i where "i = (ucast ((pg - reg_Base g + reg_BackingOffset g) div MM_PAGE_SIZE) :: u32)"
  have i: "unat i = section_index g va"
    unfolding i_def pg_def g(1) using wf r g by (intro section_offset) simp_all
  note pg = fault_page [OF wf r, folded pg_def]
  have ty: "MM_REGION_TYPE_SECTION \<noteq> MM_REGION_TYPE_ANON" "MM_REGION_TYPE_SECTION \<noteq> MM_REGION_TYPE_PHYS"
    by (simp_all add: MM_REGION_TYPE_SECTION_def MM_REGION_TYPE_ANON_def MM_REGION_TYPE_PHYS_def)
  have h: "MmHandlePageFault (Some a) va err s = fault_section a r pg s"
    using fault_dispatch [OF ok wf r] g ty by (simp add: pg_def Let_def) metis
  have wi: "walk_index pg 3 = walk_index va 3" by (simp add: pg_def walk_index_page)
  define s1 where "s1 = MmpRetainPage pa s"
  have f1: "hw_mem s1 = hw_mem s" "page_alloc s1 = page_alloc s"
    by (simp_all add: s1_def MmpRetainPage_def Let_def page_alloc_def fun_eq_iff)
  have fr1: "mm_frame s s1" unfolding s1_def by (rule mm_frame_retain)
  have ok1: "as_ok lvl s1 a"
    using as_ok_transfer [OF ok, of s1] f1 ok retain_pages_wf [of s pa] mm_frame_fields(1,2) [OF fr1] by (simp add: s1_def as_ok_def pt_inv_def)
  have p1: "pte_at s1 a pg b"
    unfolding pg_def pte_at_page
    using path walk_path_mem_only [OF f1(1)] mm_frame_fields(1) [OF fr1] by (simp add: pte_at_def as_root_def)
  obtain s3 lvl' where m: "MmAsMapPage (Some a) pg pa fl s1 = Some (KSTATUS_SUCCESS, s3)"
    and ae: "adds_entry lvl lvl' a (slot b (walk_index pg 3)) (new_pte pa fl) s1 s3" and fr: "mm_frame s1 s3"
    using map_adds [OF ok1 pg page_masked_aligned [OF pa] p1] no by (metis f1(1) wi)
  define t where "t = set_region a r (\<lambda>g. g\<lparr>reg_CommittedPages := reg_CommittedPages g + 1\<rparr>) s3"
  have "\<not> sec_PageCount (gMmSectionPool s sec) \<le> i" using sec(2) by (simp add: word_le_nat_alt i)
  then have "MmHandlePageFault (Some a) va err s = Some (KSTATUS_SUCCESS, t)"
    using h m sec(1,3) by (simp add: fault_section_def Let_def g(1) [symmetric] i_def [symmetric] i s1_def fl_def commit_page_def t_def)
  moreover have "fault_frame a r s t" unfolding t_def by (rule fault_frame_commit [OF mm_frame_trans [OF fr1 fr]])
  moreover have "adds_entry lvl lvl' a (slot b (walk_index va 3)) (new_pte pa fl) s s3"
    using adds_entry_prefix [OF ok ae] f1 mm_frame_fields(1) [OF fr1] mm_frame_cr3 [OF fr1] wi by (simp add: as_root_def)
  then have "adds_entry lvl lvl' a (slot b (walk_index va 3)) (new_pte pa fl) s t"
    by (rule adds_entry_suffix) (use ae in \<open>auto simp: t_def commit_fields adds_entry_def as_ok_def pt_inv_def\<close>)
  ultimately show thesis using that [of t lvl'] by (simp add: fl_def)
qed

section \<open>Accesses that fault once\<close>

lemma new_pte_address: "fl AND MM_PTE_ADDR_MASK = 0 \<Longrightarrow> new_pte pa fl AND MM_PTE_ADDR_MASK = (pa AND MM_PTE_ADDR_MASK)"
  by (simp add: new_pte_def and_or_distrib flag_and_mask)

lemma protection_flags: "MmpProtectionToPte prot fl AND MM_PTE_ADDR_MASK = 0"
  by (simp add: MmpProtectionToPte_def Let_def and_or_distrib flag_and_mask)

lemma new_pte_present: "has_flag (new_pte pa fl) MM_PTE_PRESENT"
  by (simp add: has_flag_def new_pte_def and_or_distrib MM_PTE_PRESENT_def)

lemma new_pte_writable: "has_flag fl MM_PTE_WRITABLE \<Longrightarrow> has_flag (new_pte pa fl) MM_PTE_WRITABLE"
  by (simp add: has_flag_def new_pte_def and_or_distrib or_eq_0_iff)

text \<open>A process runs in address space \<open>a\<close>: its tables are well formed and loaded, its regions laid out, and the page
  fault routine is registered.\<close>

definition runs_in :: "levels \<Rightarrow> 'a PS_GLOBALS_scheme \<Rightarrow> nat \<Rightarrow> bool" where
  "runs_in lvl s a \<longleftrightarrow> gHalPageFaultRoutine s = Some MmpOnPageFault_ptr \<and> current_space s = Some a \<and> as_ok lvl s a \<and>
     regions_wf (gMmAddressSpacePool s a) \<and> hw_cr3 s = as_root s a"

lemma runs_in_fault: "runs_in lvl s a \<Longrightarrow> fault_frame a r s t \<Longrightarrow> adds_entry lvl lvl' a c e s t \<Longrightarrow> runs_in lvl' t a"
  by (simp add: runs_in_def fault_frame_regions current_space_frame adds_entry_def)

lemma current_space_mem [simp]: "current_space (s\<lparr>hw_mem := m\<rparr>) = current_space s"
  by (simp add: current_space_def PsGetCurrentProcess_def split: option.split)

lemma runs_in_store:
  assumes "runs_in lvl s a" "pa AND MM_PTE_ADDR_MASK = pa" "lvl pa = None"
  shows "runs_in lvl (s\<lparr>hw_mem := with_byte (pa + (va AND 0xFFF)) v (hw_mem s)\<rparr>) a"
  using assms store_keeps_tables(1) [of lvl s a pa "s\<lparr>hw_mem := with_byte (pa + (va AND 0xFFF)) v (hw_mem s)\<rparr>" va v]
  by (simp add: runs_in_def as_root_def current_space_mem)

text \<open>An access whose fault adds the missing entry is repeated and succeeds.\<close>

lemma cpu_access_once:
  fixes s :: "'a PS_GLOBALS_scheme"
  assumes run: "runs_in lvl s a" and path: "pte_at s a va b" and no: "\<not> has_flag (hw_mem s (slot b (walk_index va 3))) MM_PTE_PRESENT"
    and h: "MmHandlePageFault (Some a) va (if w then MM_PF_ERROR_WRITE else 0) s = Some (KSTATUS_SUCCESS, t)"
    and fr: "fault_frame a r s t" and ae: "adds_entry lvl lvl' a (slot b (walk_index va 3)) (new_pte pa fl) s t"
    and wr: "w \<Longrightarrow> mc_wp mc \<Longrightarrow> mmu_walk_writable 3 0 va (as_root s a) s \<and> has_flag fl MM_PTE_WRITABLE"
  obtains u where "cpu_access mc w va s = Some u" "fault_frame a r s u" "hw_mem u = hw_mem t" "page_alloc u = page_alloc t"
    "adds_entry lvl lvl' a (slot b (walk_index va 3)) (new_pte pa fl) s u"
proof -
  let ?err = "if w then MM_PF_ERROR_WRITE else 0"
  define u where "u = MmpRecordFault (Some a) va ?err (mc_ip mc) KSTATUS_SUCCESS t"
  have trap: "HalHandlePageFaultTrap run_page_fault va ?err (mc_ip mc) s = Some u"
    using run h by (simp add: runs_in_def HalHandlePageFaultTrap_def run_page_fault_def MmpOnPageFault_def Let_def u_def)
  have fu: "fault_frame a r s u" using fr unfolding fault_frame_def u_def MmpRecordFault_def by (elim exE) (intro exI, simp)
  have m: "hw_mem u = hw_mem t" "hw_cr3 u = hw_cr3 t" "as_root u a = as_root t a" "page_alloc u = page_alloc t"
    by (simp_all add: u_def MmpRecordFault_def as_root_def page_alloc_def fun_eq_iff)
  have au: "adds_entry lvl lvl' a (slot b (walk_index va 3)) (new_pte pa fl) s u"
    using ae by (rule adds_entry_suffix)
      (use ae in \<open>simp_all add: m\<close>, simp_all add: u_def MmpRecordFault_def adds_entry_def as_ok_def pt_inv_def pages_wf_def page_alloc_def)
  have ru: "runs_in lvl' u a" by (rule runs_in_fault [OF run fu au])
  have pu: "pte_at u a va b" "hw_mem u (slot b (walk_index va 3)) = new_pte pa fl"
    "mmu_walk_writable 3 0 va (as_root u a) u = mmu_walk_writable 3 0 va (as_root s a) s"
    using au path by (auto simp: adds_entry_def)
  have au': "as_ok lvl' u a" "hw_cr3 u = as_root u a" using ru by (simp_all add: runs_in_def)
  note at = mmu_at [OF au' pu(1) pu(2) [symmetric]]
  have "access_fault mc w va u = None"
    unfolding access_fault_None at(1) using wr at(2) [of mc] pu(3) by (auto simp: new_pte_present new_pte_writable)
  then have "cpu_access mc w va u = Some u" by (rule cpu_access_resident)
  moreover have "mmu_translate va s = None"
    using run no mmu_at(1) [of lvl s a va b, OF _ _ path refl] by (simp add: runs_in_def)
  then have "access_fault mc w va s = Some ?err" by (simp add: access_fault_def)
  ultimately have "cpu_access mc w va s = Some u" using trap by (subst cpu_access.simps) simp
  with that fu m(1,4) au show thesis by blast
qed

lemma mmu_absent:
  assumes "runs_in lvl s a" "pte_at s a va b" "mmu_translate va s = None"
  shows "\<not> has_flag (hw_mem s (slot b (walk_index va 3))) MM_PTE_PRESENT"
  using assms mmu_at(1) [of lvl s a va b, OF _ _ assms(2) refl] by (auto simp: runs_in_def split: if_splits)

section \<open>Pages that are mapped\<close>

text \<open>Address \<open>va\<close> is mapped, for reading and writing, to the data page at \<open>pa\<close>, through the table at \<open>b\<close>.\<close>

definition maps_page :: "'d machine \<Rightarrow> levels \<Rightarrow> 'a PS_GLOBALS_scheme \<Rightarrow> nat \<Rightarrow> u64 \<Rightarrow> u64 \<Rightarrow> u64 \<Rightarrow> bool" where
  "maps_page mc lvl s a va b pa \<longleftrightarrow> runs_in lvl s a \<and> pte_at s a va b \<and>
     pa AND MM_PTE_ADDR_MASK = pa \<and> page_alloc s (unat pa div 4096) \<and> lvl pa = None \<and>
     (\<exists>fl. hw_mem s (slot b (walk_index va 3)) = new_pte pa fl \<and> fl AND MM_PTE_ADDR_MASK = 0 \<and> has_flag fl MM_PTE_WRITABLE) \<and>
     (mc_wp mc \<longrightarrow> mmu_walk_writable 3 0 va (as_root s a) s)"

lemma writable_index:
  "(\<And>j. j < L + k \<Longrightarrow> walk_index va' j = walk_index va j) \<Longrightarrow> mmu_walk_writable k L va' T s = mmu_walk_writable k L va T s"
  by (induction k arbitrary: L T) (auto simp: Let_def)

lemma maps_page_same:
  assumes "maps_page mc lvl s a va b pa" "MmpAlignDown va' MM_PAGE_SIZE = MmpAlignDown va MM_PAGE_SIZE"
  shows "maps_page mc lvl s a va' b pa"
proof -
  have wi: "walk_index va' j = walk_index va j" if "j \<le> 3" for j
    using walk_index_page [OF that, of va'] walk_index_page [OF that, of va] assms(2) by simp
  have "pte_at s a va' b = pte_at s a va b" using pte_at_page assms(2) by metis
  moreover have "mmu_walk_writable 3 0 va' x s = mmu_walk_writable 3 0 va x s" for x by (rule writable_index) (simp add: wi)
  ultimately show ?thesis using assms(1) wi by (simp add: maps_page_def)
qed

lemma maps_page_mmu:
  assumes "maps_page mc lvl s a va b pa"
  shows "mmu_translate va s = Some (pa + (va AND 0xFFF))" "access_fault mc w va s = None"
proof -
  obtain fl where e: "hw_mem s (slot b (walk_index va 3)) = new_pte pa fl" "fl AND MM_PTE_ADDR_MASK = 0" "has_flag fl MM_PTE_WRITABLE"
    and s: "as_ok lvl s a" "hw_cr3 s = as_root s a" "pte_at s a va b" "pa AND MM_PTE_ADDR_MASK = pa"
    "mc_wp mc \<longrightarrow> mmu_walk_writable 3 0 va (as_root s a) s"
    using assms by (auto simp: maps_page_def runs_in_def)
  note at = mmu_at [OF s(1-3) e(1) [symmetric]]
  show t: "mmu_translate va s = Some (pa + (va AND 0xFFF))" using at(1) e(2) s(4) by (simp add: new_pte_present new_pte_address)
  show "access_fault mc w va s = None" unfolding access_fault_None t using at(2) [of mc] e(3) s(5) by (simp add: new_pte_writable)
qed

lemma maps_page_ld: "maps_page mc lvl s a va b pa \<Longrightarrow> cpu_ld mc va s = Some (byte_at (pa + (va AND 0xFFF)) (hw_mem s), s)"
  by (simp add: cpu_ld_def cpu_access_resident maps_page_mmu user_ld_byte)

text \<open>A store whose access ends in a state where the page is mapped puts the byte there and leaves the mappings alone.\<close>

lemma maps_page_st:
  fixes s :: "'a PS_GLOBALS_scheme"
  assumes acc: "cpu_access mc True va s = Some u" and u: "maps_page mc lvl u a va b pa"
    and t: "t = u\<lparr>hw_mem := with_byte (pa + (va AND 0xFFF)) v (hw_mem u)\<rparr>"
  shows "cpu_st mc va v s = Some t" "maps_page mc lvl u a va' c q \<Longrightarrow> maps_page mc lvl t a va' c q"
    "pte_at u a va' c \<Longrightarrow> pte_at t a va' c \<and> hw_mem t (slot c (walk_index va' 3)) = hw_mem u (slot c (walk_index va' 3))"
    "pte_at u a va' c \<Longrightarrow> mmu_walk_writable 3 0 va' (as_root t a) t = mmu_walk_writable 3 0 va' (as_root u a) u"
proof -
  have run: "runs_in lvl u a" and ok: "as_ok lvl u a" and pa: "pa AND MM_PTE_ADDR_MASK = pa" "lvl pa = None"
    using u by (simp_all add: maps_page_def runs_in_def)
  show "cpu_st mc va v s = Some t" using acc maps_page_mmu(1) [OF u] by (simp add: cpu_st_def user_st_byte t)
  have rt: "runs_in lvl t a" unfolding t by (rule runs_in_store [OF run pa])
  note keep = store_keeps_tables(2) [OF ok pa t]
  have tb: "hw_mem t (slot x j) = hw_mem u (slot x j)" if "lvl x = Some l" "j < 512" for x l j
    using keep [of "slot x j"] that by (auto simp: tables_def)
  have inv: "pt_inv lvl u" "lvl (as_root u a) = Some (4 - 0)" and root: "as_root t a = as_root u a"
    using ok by (simp_all add: as_ok_def t as_root_def)
  show p: "pte_at u a va' c \<Longrightarrow> pte_at t a va' c \<and> hw_mem t (slot c (walk_index va' 3)) = hw_mem u (slot c (walk_index va' 3))" for va' c
  proof -
    assume c: "pte_at u a va' c"
    have "walk_path t va' 0 3 (as_root u a) c \<and> lvl c = Some 1"
      using walk_path_cong [OF c [unfolded pte_at_def] inv _ tb] by simp
    then show ?thesis using tb walk_index_less by (auto simp: pte_at_def root)
  qed
  show w: "pte_at u a va' c \<Longrightarrow> mmu_walk_writable 3 0 va' (as_root t a) t = mmu_walk_writable 3 0 va' (as_root u a) u" for va' c
    using walk_writable_kept [of u va' 0 3 "as_root u a" c lvl t] inv tb by (simp add: same_target_def root pte_at_def)
  show "maps_page mc lvl u a va' c q \<Longrightarrow> maps_page mc lvl t a va' c q"
    using rt p [of va' c] w [of va' c] by (auto simp: maps_page_def t page_alloc_def)
qed

text \<open>A fault elsewhere keeps a mapping and the contents of its page.\<close>

lemma maps_page_fault:
  assumes m: "maps_page mc lvl s a va b pa" and fr: "fault_frame a r s u" and ae: "adds_entry lvl lvl' a c e s u"
    and no: "\<not> has_flag (hw_mem s c) MM_PTE_PRESENT"
  shows "maps_page mc lvl' u a va b pa" "byte_at (pa + (x AND 0xFFF)) (hw_mem u) = byte_at (pa + (x AND 0xFFF)) (hw_mem s)"
proof -
  obtain fl where e: "hw_mem s (slot b (walk_index va 3)) = new_pte pa fl" "fl AND MM_PTE_ADDR_MASK = 0" "has_flag fl MM_PTE_WRITABLE"
    and s: "runs_in lvl s a" "pte_at s a va b" "pa AND MM_PTE_ADDR_MASK = pa" "page_alloc s (unat pa div 4096)" "lvl pa = None"
    "mc_wp mc \<longrightarrow> mmu_walk_writable 3 0 va (as_root s a) s"
    using m by (auto simp: maps_page_def)
  have ne: "slot b (walk_index va 3) \<noteq> c" using no e(1) new_pte_present by metis
  have u: "pte_at u a va b" "hw_mem u (slot b (walk_index va 3)) = new_pte pa fl"
    "mmu_walk_writable 3 0 va (as_root u a) u = mmu_walk_writable 3 0 va (as_root s a) s"
    "lvl' pa = None" "page_alloc u (unat pa div 4096)" "\<And>j. j < 512 \<Longrightarrow> hw_mem u (slot pa j) = hw_mem s (slot pa j)"
    using ae s e(1) ne by (simp_all add: adds_entry_def)
  show "maps_page mc lvl' u a va b pa"
    using runs_in_fault [OF s(1) fr ae] u e s by (auto simp: maps_page_def)
  show "byte_at (pa + (x AND 0xFFF)) (hw_mem u) = byte_at (pa + (x AND 0xFFF)) (hw_mem s)"
    using u(6) page_cell [OF s(3), of x] by (simp add: byte_at_def)
qed

section \<open>Properties\<close>


definition writable_region :: "MM_VA_REGION \<Rightarrow> bool" where
  "writable_region g \<longleftrightarrow> \<not> has_bits (reg_Flags g) MM_REGION_FLAG_GUARD \<and> has_bits (reg_Protection g) MM_PROT_WRITE \<and>
     \<not> has_bits (reg_Flags g) MM_REGION_FLAG_COW"

lemma writable_permits:
  assumes "writable_region g"
  shows "region_permits g MM_PF_ERROR_WRITE" "region_permits g 0" "has_flag (MmpProtectionToPte (reg_Protection g) (reg_Flags g)) MM_PTE_WRITABLE"
  using assms
  by (simp_all add: writable_region_def region_permits_def has_flag_def MM_PF_ERROR_WRITE_def MM_PF_ERROR_USER_def MM_PF_ERROR_INSTR_def
      MmpProtectionToPte_def Let_def and_or_distrib or_eq_0_iff MM_PTE_WRITABLE_def)

lemma not_present_codes: "\<not> has_flag MM_PF_ERROR_WRITE MM_PF_ERROR_PRESENT" "\<not> has_flag 0 MM_PF_ERROR_PRESENT"
  by (simp_all add: has_flag_def MM_PF_ERROR_WRITE_def MM_PF_ERROR_PRESENT_def)

text \<open>The first store to a page of a lazy region.\<close>

lemma lazy_store:
  fixes s :: "'a PS_GLOBALS_scheme"
  assumes run: "runs_in lvl s a" and r: "r < rcount (gMmAddressSpacePool s a)" "in_region (gMmAddressSpacePool s a) r va"
    and g: "g = region (gMmAddressSpacePool s a) r" "reg_Type g = MM_REGION_TYPE_ANON" "writable_region g"
    and free: "0 < free_pages s" and path: "pte_at s a va b" and absent: "mmu_translate va s = None"
    and wp: "mc_wp mc \<longrightarrow> mmu_walk_writable 3 0 va (as_root s a) s"
  obtains t lvl' pa where "cpu_st mc va v s = Some t" "fault_frame a r s t" "maps_page mc lvl' t a va b pa"
    "\<forall>x. byte_at (pa + (x AND 0xFFF)) (hw_mem t) = (if x AND 0xFFF = va AND 0xFFF then v else 0)"
proof -
  have ok: "as_ok lvl s a" "regions_wf (gMmAddressSpacePool s a)" using run by (simp_all add: runs_in_def)
  note no = mmu_absent [OF run path absent] and w = writable_permits [OF g(3)]
  let ?fl = "MmpProtectionToPte (reg_Protection g) (reg_Flags g)" and ?c = "slot b (walk_index va 3)"
  obtain t0 lvl' pa where t0: "MmHandlePageFault (Some a) va MM_PF_ERROR_WRITE s = Some (KSTATUS_SUCCESS, t0)" "fault_frame a r s t0"
    "adds_entry lvl lvl' a ?c (new_pte pa ?fl) s t0" and pa: "pa AND MM_PTE_ADDR_MASK = pa" "lvl' pa = None" "page_alloc t0 (unat pa div 4096)"
    and z: "\<forall>j<512. hw_mem t0 (slot pa j) = 0"
    by (rule anon_adds [OF ok r g(1) w(1) not_present_codes(1) g(2) free path no])
  obtain u where u: "cpu_access mc True va s = Some u" "fault_frame a r s u" "hw_mem u = hw_mem t0" "page_alloc u = page_alloc t0"
    "adds_entry lvl lvl' a ?c (new_pte pa ?fl) s u"
    by (rule cpu_access_once [OF run path no, of True t0 r lvl' pa ?fl mc]) (use t0 w(3) wp in simp_all)
  have "maps_page mc lvl' u a va b pa"
    using runs_in_fault [OF run u(2,5)] u(4,5) path pa protection_flags w(3) wp by (auto simp: maps_page_def adds_entry_def)
  note st = maps_page_st [OF u(1) this refl, where v = v]
  have "byte_at (pa + (x AND 0xFFF)) (hw_mem u) = 0" for x
    using z page_cell [OF pa(1), of x] u(3) by (simp add: byte_at_def)
  then show thesis
    using that [OF st(1) fault_frame_mem [OF u(2)] st(2)] \<open>maps_page mc lvl' u a va b pa\<close> by (simp add: byte_at_with)
qed

text \<open>A lazily mapped page behaves as memory that was there all along.  The first store to an address of a writable anonymous
  region faults, the fault routine maps a page, and the repeated store succeeds; afterwards every byte of the page can
  be read, the one that was stored with its value and all others as zero.\<close>

theorem cpu_st_lazy:
  fixes s :: "'a PS_GLOBALS_scheme"
  assumes "runs_in lvl s a" and "r < rcount (gMmAddressSpacePool s a)" and "in_region (gMmAddressSpacePool s a) r va"
    and "g = region (gMmAddressSpacePool s a) r" and "reg_Type g = MM_REGION_TYPE_ANON" and "writable_region g"
    and "0 < free_pages s" and "pte_at s a va b" and "mmu_translate va s = None"
    and "mc_wp mc \<longrightarrow> mmu_walk_writable 3 0 va (as_root s a) s"
  shows "\<exists>t. cpu_st mc va v s = Some t \<and>
    (\<forall>va'. MmpAlignDown va' MM_PAGE_SIZE = MmpAlignDown va MM_PAGE_SIZE \<longrightarrow> cpu_ld mc va' t = Some (if va' = va then v else 0, t))"
proof -
  obtain t lvl' pa where t: "cpu_st mc va v s = Some t" and _: "fault_frame a r s t" and m: "maps_page mc lvl' t a va b pa"
    and bytes: "\<forall>x. byte_at (pa + (x AND 0xFFF)) (hw_mem t) = (if x AND 0xFFF = va AND 0xFFF then v else 0)"
    by (rule lazy_store [OF assms, where v = v])
  have "cpu_ld mc va' t = Some (if va' = va then v else 0, t)" if pg: "MmpAlignDown va' MM_PAGE_SIZE = MmpAlignDown va MM_PAGE_SIZE" for va'
  proof -
    have "va' AND 0xFFF = va AND 0xFFF \<longleftrightarrow> va' = va" using page_split [of va'] page_split [of va] pg by metis
    then show ?thesis using maps_page_ld [OF maps_page_same [OF m pg]] bytes by simp
  qed
  with t show ?thesis by blast
qed

text \<open>The process of \<open>ps_user\<close> with its tables loaded, on a machine that enforces write protection.\<close>

definition ps_running :: PS_GLOBALS where
  "ps_running = ps_user\<lparr>hw_cr3 := 0x1000\<rparr>"

definition demo_wp :: "unit machine" where
  "demo_wp = \<lparr>mc_ports = demo_ports, mc_wp = True, mc_ip = 0\<rparr>"

text \<open>The tables of \<open>mm_paged\<close>: the two pages from \<open>0x40000000\<close> have a page table and no mapping.\<close>

lemma paged_absent:
  fixes s :: "'a PS_GLOBALS_scheme"
  assumes "as_ok lvl_paged s 0" "hw_mem s = hw_mem mm_paged" "as_root s 0 = 0x1000" "hw_cr3 s = 0x1000"
    and "MmpAlignDown va MM_PAGE_SIZE \<in> {0x40000000, 0x40001000}"
  shows "pte_at s 0 va 0x4000" "mmu_translate va s = None" "mmu_walk_writable 3 0 va (as_root s 0) s"
proof -
  have "walk_index p 0 = 0" "walk_index p (Suc 0) = 1" "walk_index p 2 = 0" if "p \<in> {0x40000000, 0x40001000}" for p :: u64
    using that by (elim insertE emptyE; simp add: walk_index_def)+
  from this [OF assms(5)] have i: "walk_index va 0 = 0" "walk_index va (Suc 0) = 1" "walk_index va 2 = 0" by (simp_all add: walk_index_page)
  have "slot 0x2007 1 = slot 0x2000 1" "slot 0x3007 0 = slot 0x3000 0" by (simp_all add: slot_def MM_PTE_ADDR_MASK_def)
  then have m: "hw_mem s (slot 0x1000 0) = 0x2007" "hw_mem s (slot 0x2007 1) = 0x3007" "hw_mem s (slot 0x3007 0) = 0x4007"
    by (simp_all add: assms(2) paged_mem)
  have w: "has_flag 0x2007 MM_PTE_WRITABLE" "has_flag 0x3007 MM_PTE_WRITABLE" "has_flag 0x4007 MM_PTE_WRITABLE"
    by (simp_all add: has_flag_def MM_PTE_WRITABLE_def)
  show "mmu_walk_writable 3 0 va (as_root s 0) s"
    unfolding numeral_3_eq_3 mmu_walk_writable.simps Let_def assms(3) i(1,2) i(3) [unfolded numeral_2_eq_2] m using w by simp
  have "walk_index va L = walk_index 0x40000000 L" if "L < 3" for L
    using that i paged_addr(1-3) by (auto simp: numeral_3_eq_3 numeral_2_eq_2 less_Suc_eq)
  moreover have "walk_path s 0x40000000 0 3 0x1000 0x4000"
    using paged_path walk_path_mem_only [OF assms(2)] by (simp add: pte_at_def as_root_def mm_paged_def)
  ultimately show p: "pte_at s 0 va 0x4000" using walk_path_index [of s "0x40000000" 0 3 "0x1000" "0x4000" va] assms(3) by (simp add: pte_at_def)
  show "mmu_translate va s = None"
    using mmu_at(1) [OF assms(1) _ p refl] assms(3,4) paged_mem [of "0x4000" "walk_index va 3"] walk_index_less [of va 3]
    by (simp add: assms(2) has_flag_def)
qed

lemma ps_running_ok: "runs_in lvl_paged ps_running 0" "0 < free_pages ps_running"
  "hw_mem ps_running = hw_mem mm_paged" "as_root ps_running 0 = 0x1000" "hw_cr3 ps_running = 0x1000"
proof -
  show root: "as_root ps_running 0 = 0x1000" "hw_cr3 ps_running = 0x1000"
    by (simp_all add: ps_running_def as_root_def ps_user_mm mm_user_def mm_paged_def)
  show "hw_mem ps_running = hw_mem mm_paged" by (simp add: ps_running_def ps_user_mm mm_user_def)
  have ok: "as_ok lvl_paged ps_running 0"
    using ps_user_ok(1) by (simp add: ps_running_def as_ok_def pt_inv_def levels_ok_def entries_ok_def as_root_def pages_wf_def page_alloc_def)
  have "current_space ps_running = current_space ps_user" "gHalPageFaultRoutine ps_running = gHalPageFaultRoutine ps_user"
    "gMmAddressSpacePool ps_running = gMmAddressSpacePool ps_user"
    by (simp_all add: ps_running_def current_space_def PsGetCurrentProcess_def split: option.split)
  moreover have "gHalPageFaultRoutine ps_user = Some MmpOnPageFault_ptr" by (simp add: ps_user_def)
  ultimately show "runs_in lvl_paged ps_running 0"
    using ok root ps_user_ok(4) user_regions(1) by (simp add: runs_in_def ps_user_mm)
  show "0 < free_pages ps_running" using ps_user_ok(2) by (simp add: ps_running_def)
qed

theorem cpu_st_lazy_witness:
  "\<exists>t. cpu_st demo_wp 0x40000123 0x5A ps_running = Some t \<and> cpu_ld demo_wp 0x40000123 t = Some (0x5A, t) \<and> cpu_ld demo_wp 0x40000FFF t = Some (0, t)"
proof -
  have al: "MmpAlignDown 0x40000123 MM_PAGE_SIZE = 0x40000000" "MmpAlignDown 0x40000FFF MM_PAGE_SIZE = 0x40000000"
    by (simp_all add: MmpAlignDown_def MM_PAGE_SIZE_def)
  define g where "g = region (gMmAddressSpacePool ps_running 0) 0"
  have g: "reg_Type g = MM_REGION_TYPE_ANON" "writable_region g"
    by (simp_all add: g_def ps_running_def ps_user_mm mm_user_def writable_region_def has_bits_def MM_REGION_FLAG_GUARD_def MM_REGION_FLAG_LAZY_def
        MM_PROT_WRITE_def MM_REGION_FLAG_COW_def)
  have rg: "0 < rcount (gMmAddressSpacePool ps_running 0)" "in_region (gMmAddressSpacePool ps_running 0) 0 0x40000123"
    using user_regions by (simp_all add: ps_running_def ps_user_mm)
  have ok: "as_ok lvl_paged ps_running 0" using ps_running_ok(1) by (simp add: runs_in_def)
  note ab = paged_absent [OF ok ps_running_ok(3-5), of "0x40000123"]
  from cpu_st_lazy [OF ps_running_ok(1) rg g_def g ps_running_ok(2) ab(1,2), of demo_wp "0x5A"] ab(3) al
  obtain t where "cpu_st demo_wp 0x40000123 0x5A ps_running = Some t"
    "\<And>va'. MmpAlignDown va' MM_PAGE_SIZE = 0x40000000 \<Longrightarrow> cpu_ld demo_wp va' t = Some (if va' = 0x40000123 then 0x5A else 0, t)"
    by auto
  then show ?thesis using al by auto
qed

text \<open>Address \<open>va\<close> lies in region \<open>r\<close>, a writable mapping of a section, on page \<open>i\<close> of the section.\<close>

definition shows_page :: "'a MM_GLOBALS_scheme \<Rightarrow> nat \<Rightarrow> nat \<Rightarrow> u64 \<Rightarrow> nat \<Rightarrow> nat \<Rightarrow> bool" where
  "shows_page s a r va sec i \<longleftrightarrow> (let g = region (gMmAddressSpacePool s a) r in
     r < rcount (gMmAddressSpacePool s a) \<and> in_region (gMmAddressSpacePool s a) r va \<and> reg_Type g = MM_REGION_TYPE_SECTION \<and> writable_region g \<and>
     reg_BackingOffset g = 0 \<and> unat (reg_Size g) \<le> 2 ^ 20 \<and> MmpFindSectionByHeader (reg_BackingObject g) s = Some sec \<and> section_index g va = i)"

lemma shows_page_frame: "fault_frame a r' s t \<Longrightarrow> shows_page t a r va sec i = shows_page s a r va sec i"
  by (simp add: shows_page_def Let_def fault_frame_regions find_section_frame section_index_def writable_region_def)

text \<open>A data page of a section: in use, and not a page table.\<close>

definition section_page :: "levels \<Rightarrow> 'a MM_GLOBALS_scheme \<Rightarrow> nat \<Rightarrow> nat \<Rightarrow> u64 \<Rightarrow> bool" where
  "section_page lvl s sec i pa \<longleftrightarrow> i < unat (sec_PageCount (gMmSectionPool s sec)) \<and> sec_Pages (gMmSectionPool s sec) i = pa \<and>
     pa AND MM_PTE_ADDR_MASK = pa \<and> page_alloc s (unat pa div 4096) \<and> lvl pa = None"

lemma section_page_frame:
  assumes "section_page lvl s sec i pa" "fault_frame a r s t" "adds_entry lvl lvl' a c e s t"
  shows "section_page lvl' t sec i pa"
  using assms by (simp add: section_page_def fault_frame_regions adds_entry_def)

text \<open>A first access to a section.\<close>

lemma section_access:
  fixes s :: "'a PS_GLOBALS_scheme"
  assumes run: "runs_in lvl s a" and va: "shows_page s a r va sec i" and pa: "section_page lvl s sec i pa"
    and path: "pte_at s a va b" and no: "\<not> has_flag (hw_mem s (slot b (walk_index va 3))) MM_PTE_PRESENT"
    and wp: "mc_wp mc \<longrightarrow> mmu_walk_writable 3 0 va (as_root s a) s"
  obtains u lvl' fl where "cpu_access mc w va s = Some u" "fault_frame a r s u" "fl AND MM_PTE_ADDR_MASK = 0" "has_flag fl MM_PTE_WRITABLE"
    "adds_entry lvl lvl' a (slot b (walk_index va 3)) (new_pte pa fl) s u" "maps_page mc lvl' u a va b pa"
proof -
  define g where "g = region (gMmAddressSpacePool s a) r"
  let ?fl = "MmpProtectionToPte (reg_Protection g) (reg_Flags g)" and ?err = "if w then MM_PF_ERROR_WRITE else 0"
  have g: "r < rcount (gMmAddressSpacePool s a)" "in_region (gMmAddressSpacePool s a) r va" "reg_Type g = MM_REGION_TYPE_SECTION"
    "reg_BackingOffset g = 0" "unat (reg_Size g) \<le> 2 ^ 20" "MmpFindSectionByHeader (reg_BackingObject g) s = Some sec" "section_index g va = i"
    and wr: "writable_region g"
    using va by (auto simp: shows_page_def g_def Let_def)
  have ok: "as_ok lvl s a" "regions_wf (gMmAddressSpacePool s a)" using run by (simp_all add: runs_in_def)
  have p: "section_index g va < unat (sec_PageCount (gMmSectionPool s sec))" "pa = sec_Pages (gMmSectionPool s sec) (section_index g va)"
    "pa AND MM_PTE_ADDR_MASK = pa"
    using pa g(7) by (auto simp: section_page_def)
  have err: "region_permits g ?err" "\<not> has_flag ?err MM_PF_ERROR_PRESENT" using writable_permits [OF wr] not_present_codes by simp_all
  note wf = protection_flags [of "reg_Protection g" "reg_Flags g"] writable_permits(3) [OF wr]
  obtain t lvl' where t: "MmHandlePageFault (Some a) va ?err s = Some (KSTATUS_SUCCESS, t)" "fault_frame a r s t"
    "adds_entry lvl lvl' a (slot b (walk_index va 3)) (new_pte pa ?fl) s t"
    by (rule section_adds [OF ok g(1,2) g_def err g(3-6) p path no])
  obtain u where u: "cpu_access mc w va s = Some u" "fault_frame a r s u" "adds_entry lvl lvl' a (slot b (walk_index va 3)) (new_pte pa ?fl) s u"
    by (rule cpu_access_once [OF run path no t, of mc]) (use wp wf in simp_all)
  have "maps_page mc lvl' u a va b pa"
    using runs_in_fault [OF run u(2,3)] u(3) path section_page_frame [OF pa u(2,3)] wf wp by (auto simp: maps_page_def adds_entry_def section_page_def)
  from that [OF u(1,2) wf u(3) this] show thesis .
qed

text \<open>The second of two views of a page, after the first was mapped and written.\<close>

lemma second_view:
  fixes s :: "'a PS_GLOBALS_scheme"
  assumes m: "maps_page mc lvl s a va b pa" and sp: "section_page lvl s sec i pa" and va': "shows_page s a r' va' sec i"
    and path: "pte_at s a va' b'" and e: "has_flag (hw_mem s (slot b' (walk_index va' 3))) MM_PTE_PRESENT \<Longrightarrow> maps_page mc lvl s a va' b' pa"
    and wp: "mc_wp mc \<longrightarrow> mmu_walk_writable 3 0 va' (as_root s a) s"
  obtains u lvl' where "cpu_ld mc va' s = Some (byte_at (pa + (va' AND 0xFFF)) (hw_mem s), u)" "maps_page mc lvl' u a va b pa"
    "maps_page mc lvl' u a va' b' pa" "\<forall>x. byte_at (pa + (x AND 0xFFF)) (hw_mem u) = byte_at (pa + (x AND 0xFFF)) (hw_mem s)"
proof (cases "has_flag (hw_mem s (slot b' (walk_index va' 3))) MM_PTE_PRESENT")
  case True
  with that [OF maps_page_ld [OF e] m e] show thesis by simp
next
  case False
  have run: "runs_in lvl s a" using m by (simp add: maps_page_def)
  obtain u lvl' fl where u: "cpu_access mc False va' s = Some u" "fault_frame a r' s u"
    and _: "fl AND MM_PTE_ADDR_MASK = 0" and _: "has_flag fl MM_PTE_WRITABLE"
    and ae: "adds_entry lvl lvl' a (slot b' (walk_index va' 3)) (new_pte pa fl) s u" and mu: "maps_page mc lvl' u a va' b' pa"
    by (rule section_access [OF run va' sp path False wp, where w = False])
  note k = maps_page_fault [OF m u(2) ae False]
  have "cpu_ld mc va' s = Some (byte_at (pa + (va' AND 0xFFF)) (hw_mem u), u)"
    using u(1) maps_page_mmu(1) [OF mu] by (simp add: cpu_ld_def user_ld_byte)
  from that [OF this [unfolded k(2)] k(1) mu] k(2) show thesis by blast
qed

text \<open>A store through the first view of a page, with what the second view needs.\<close>

lemma first_view:
  fixes s :: "'a PS_GLOBALS_scheme"
  assumes run: "runs_in lvl s a" and sp: "section_page lvl s sec i pa" and va: "shows_page s a r va sec i" and va': "shows_page s a r' va' sec i"
    and path: "pte_at s a va b" "mmu_translate va s = None" and path': "pte_at s a va' b'" "mmu_translate va' s = None"
    and wp: "mc_wp mc \<longrightarrow> mmu_walk_writable 3 0 va (as_root s a) s \<and> mmu_walk_writable 3 0 va' (as_root s a) s"
  obtains t lvl' where "cpu_st mc va v s = Some t" "maps_page mc lvl' t a va b pa" "section_page lvl' t sec i pa" "shows_page t a r' va' sec i"
    "pte_at t a va' b'" "has_flag (hw_mem t (slot b' (walk_index va' 3))) MM_PTE_PRESENT \<Longrightarrow> maps_page mc lvl' t a va' b' pa"
    "mc_wp mc \<longrightarrow> mmu_walk_writable 3 0 va' (as_root t a) t" "byte_at (pa + (va AND 0xFFF)) (hw_mem t) = v"
proof -
  let ?c = "slot b (walk_index va 3)" and ?c' = "slot b' (walk_index va' 3)"
  have no: "\<not> has_flag (hw_mem s ?c) MM_PTE_PRESENT" "\<not> has_flag (hw_mem s ?c') MM_PTE_PRESENT"
    using mmu_absent [OF run path] mmu_absent [OF run path'] .
  obtain u lvl' fl where u: "cpu_access mc True va s = Some u" "fault_frame a r s u"
    and fl: "fl AND MM_PTE_ADDR_MASK = 0" "has_flag fl MM_PTE_WRITABLE"
    and ae: "adds_entry lvl lvl' a ?c (new_pte pa fl) s u" and m: "maps_page mc lvl' u a va b pa"
    by (rule section_access [OF run va sp path(1) no(1), where w = True and mc = mc]) (use wp in simp_all)
  define t where "t = u\<lparr>hw_mem := with_byte (pa + (va AND 0xFFF)) v (hw_mem u)\<rparr>"
  note st = maps_page_st [OF u(1) m t_def]
  have ft: "fault_frame a r s t" unfolding t_def by (rule fault_frame_mem [OF u(2)])
  have sp': "section_page lvl' t sec i pa" using section_page_frame [OF sp u(2) ae] by (simp add: t_def section_page_def page_alloc_def)
  have pu: "pte_at u a va' b'" "hw_mem u ?c' = (if ?c' = ?c then new_pte pa fl else hw_mem s ?c')"
    "mmu_walk_writable 3 0 va' (as_root u a) u = mmu_walk_writable 3 0 va' (as_root s a) s"
    using ae path'(1) by (simp_all add: adds_entry_def)
  have wt: "mc_wp mc \<longrightarrow> mmu_walk_writable 3 0 va' (as_root t a) t" using st(4) [OF pu(1)] pu(3) wp by simp
  have "maps_page mc lvl' t a va' b' pa" if "has_flag (hw_mem t ?c') MM_PTE_PRESENT"
  proof -
    have "?c' = ?c" using that st(3) [OF pu(1)] pu(2) no(2) by (auto split: if_splits)
    then show ?thesis using st(2) [OF m] st(3) [OF pu(1)] pu(2) fl wt by (auto simp: maps_page_def)
  qed
  moreover have "shows_page t a r' va' sec i" using va' by (simp add: shows_page_frame [OF ft])
  ultimately show thesis
    using that [OF st(1) st(2) [OF m] sp' _ conjunct1 [OF st(3) [OF pu(1)]] _ wt] by (simp add: t_def byte_at_with)
qed

text \<open>C39: a section mapped twice is one memory.  In the running process, whose page tables are loaded and whose fault routine is registered, let two
  addresses with the same page offset lie in writable section regions over the same page of the same section (a page that is allocated and is no page
  table), let their page tables exist and let neither be mapped yet; on a machine that enforces write protection the upper table entries are writable.  A
  byte stored through the first address, which faults and maps the page, is then read back through the second, which faults in its turn, and neither access stops the machine.\<close>

theorem section_shared:
  fixes s :: "'a PS_GLOBALS_scheme"
  assumes "runs_in lvl s a" and "section_page lvl s sec i pa" and "shows_page s a r va sec i" and "shows_page s a r' va' sec i"
    and "va AND 0xFFF = va' AND 0xFFF" and "pte_at s a va b" and "mmu_translate va s = None"
    and "pte_at s a va' b'" and "mmu_translate va' s = None"
    and "mc_wp mc \<longrightarrow> mmu_walk_writable 3 0 va (as_root s a) s \<and> mmu_walk_writable 3 0 va' (as_root s a) s"
  shows "\<exists>t u. cpu_st mc va v s = Some t \<and> cpu_ld mc va' t = Some (v, u)"
proof -
  obtain t lvl' where t: "cpu_st mc va v s = Some t" "maps_page mc lvl' t a va b pa" "section_page lvl' t sec i pa" "shows_page t a r' va' sec i"
    "pte_at t a va' b'" and p: "has_flag (hw_mem t (slot b' (walk_index va' 3))) MM_PTE_PRESENT \<Longrightarrow> maps_page mc lvl' t a va' b' pa"
    and w: "mc_wp mc \<longrightarrow> mmu_walk_writable 3 0 va' (as_root t a) t" and v: "byte_at (pa + (va AND 0xFFF)) (hw_mem t) = v"
    by (rule first_view [OF assms(1-4,6-10), where v = v]) blast
  have "\<exists>u. cpu_ld mc va' t = Some (byte_at (pa + (va' AND 0xFFF)) (hw_mem t), u)"
    by (rule second_view [OF t(2-5) p w]) blast+
  with t(1) v assms(5) show ?thesis by auto
qed

text \<open>The process of \<open>ps_running\<close> with a one-page section mapped at \<open>0x40000000\<close> and at \<open>0x40001000\<close>.\<close>

definition ps_section :: PS_GLOBALS where
  "ps_section = ps_running\<lparr>gMmPageBitmap := (\<lambda>_. 0)(0 := 0x3F), gMmSectionInUse := (\<lambda>i. i = 0),
     gMmSectionPool := (\<lambda>_. \<lparr>sec_Header = Some 4, sec_PageCount = 1, sec_Pages = (\<lambda>_. 0x5000)\<rparr>),
     gMmAddressSpacePool := (\<lambda>a. (gMmAddressSpacePool mm_paged a)\<lparr>as_NextUserBase := 0x40002000, as_RegionCount := 2,
       as_Regions := (\<lambda>i. \<lparr>reg_Base = (if i = 0 then 0x40000000 else 0x40001000), reg_Size = 0x1000, reg_Type = MM_REGION_TYPE_SECTION, reg_Protection = 0xB,
         reg_Flags = MM_REGION_FLAG_LAZY, reg_CommittedPages = 0, reg_BackingPhysicalBase = 0, reg_BackingObject = Some 4,
         reg_BackingOffset = 0\<rparr>)\<rparr>)\<rparr>"

lemma ps_section_ok: "runs_in lvl_paged ps_section 0" "hw_mem ps_section = hw_mem mm_paged" "as_root ps_section 0 = 0x1000" "hw_cr3 ps_section = 0x1000"
  "page_alloc ps_section 5"
proof -
  show f: "hw_mem ps_section = hw_mem mm_paged" "as_root ps_section 0 = 0x1000" "hw_cr3 ps_section = 0x1000"
    using ps_running_ok(3,5) by (simp_all add: ps_section_def as_root_def mm_paged_def)
  have pa: "page_alloc ps_section p" if "p < 6" for p
  proof -
    have "(0x3F :: u64) = mask 6" by (simp add: mask_eq_decr_exp)
    then have "bit (0x3F :: u64) p" using that by (simp only: bit_mask_iff) simp
    then show ?thesis using that by (simp add: page_alloc_def ps_section_def)
  qed
  show "page_alloc ps_section 5" by (rule pa) simp
  have ok0: "as_ok lvl_paged mm_paged 0" by (rule paged_ok)
  have "levels_ok lvl_paged ps_section"
    using ok0 pa unfolding as_ok_def pt_inv_def levels_ok_def lvl_paged_def by (auto split: if_splits)
  moreover have "entries_ok lvl_paged ps_section" using ok0 by (simp add: as_ok_def pt_inv_def entries_ok_def f(1))
  moreover have "pages_wf ps_section" "gMmReady ps_section"
    by (simp_all add: ps_section_def ps_running_def ps_user_mm mm_user_def mm_paged_def pages_wf_def MM_MAX_TRACKED_PAGES_def mm_bss_eval)
  ultimately have "as_ok lvl_paged ps_section 0" using f(2) by (simp add: as_ok_def pt_inv_def lvl_paged_def)
  moreover have "regions_wf (gMmAddressSpacePool ps_section 0)"
  proof -
    have "i < 2 \<longleftrightarrow> i = 0 \<or> i = 1" for i :: nat by auto
    then show ?thesis by (auto simp: ps_section_def regions_wf_def user_bounds)
  qed
  moreover have "current_space ps_section = current_space ps_running" "gHalPageFaultRoutine ps_section = gHalPageFaultRoutine ps_running"
    by (simp_all add: ps_section_def current_space_def PsGetCurrentProcess_def split: option.split)
  ultimately show "runs_in lvl_paged ps_section 0" using ps_running_ok(1) f(2,3) by (simp add: runs_in_def)
qed

theorem section_shared_witness:
  "\<exists>t u. cpu_st demo_wp 0x40000010 0x34 ps_section = Some t \<and> cpu_ld demo_wp 0x40001010 t = Some (0x34, u)"
proof -
  have al: "MmpAlignDown 0x40000010 MM_PAGE_SIZE = 0x40000000" "MmpAlignDown 0x40001010 MM_PAGE_SIZE = 0x40001000"
    by (simp_all add: MmpAlignDown_def MM_PAGE_SIZE_def)
  have sp: "section_page lvl_paged ps_section 0 0 0x5000"
    using ps_section_ok(5) by (simp add: section_page_def MM_PTE_ADDR_MASK_def lvl_paged_def) (simp add: ps_section_def)
  have fs: "MmpFindSectionByHeader (Some 4) ps_section = Some 0"
    unfolding MmpFindSectionByHeader_def by (simp add: ps_section_def MM_MAX_SECTION_OBJECTS_def scan_first)
  have wr: "writable_region (region (gMmAddressSpacePool ps_section 0) i)" for i
    by (simp add: ps_section_def writable_region_def has_bits_def MM_REGION_FLAG_GUARD_def MM_REGION_FLAG_LAZY_def
        MM_PROT_WRITE_def MM_REGION_FLAG_COW_def)
  have rg: "as_RegionCount (gMmAddressSpacePool ps_section 0) = 2"
    "region (gMmAddressSpacePool ps_section 0) i = \<lparr>reg_Base = (if i = 0 then 0x40000000 else 0x40001000), reg_Size = 0x1000,
      reg_Type = MM_REGION_TYPE_SECTION, reg_Protection = 0xB, reg_Flags = MM_REGION_FLAG_LAZY, reg_CommittedPages = 0,
      reg_BackingPhysicalBase = 0, reg_BackingObject = Some 4, reg_BackingOffset = 0\<rparr>" for i
    by (simp_all add: ps_section_def)
  have sh: "shows_page ps_section 0 0 0x40000010 0 0" "shows_page ps_section 0 1 0x40001010 0 0"
    unfolding shows_page_def Let_def using wr [of 0] wr [of 1] fs by (simp_all add: rg in_region_def section_index_def)
  have ok: "as_ok lvl_paged ps_section 0" using ps_section_ok(1) by (simp add: runs_in_def)
  note ab = paged_absent [OF ok ps_section_ok(2-4)]
  from section_shared [OF ps_section_ok(1) sp sh _ ab(1,2) [of "0x40000010"] ab(1,2) [of "0x40001010"], of demo_wp "0x34"] ab(3) al
  show ?thesis by simp
qed

end
