(* ===== verification/NtxKernel.thy ===== *)
theory NtxKernel
  imports NtxExec NtxContext NtxDemand
begin

text \<open>
  The start of the kernel, \<^verbatim>\<open>kernel/ke/init.c\<close>, with the two phases of \<^verbatim>\<open>hal/aur64/hal_aur64.c\<close> it runs: from the
  jump of the boot loader to the idle loop, over the state of the whole machine: the kernel's globals, the
  descriptor tables, the console and the devices.  \<open>None\<close> is the halted machine.

  What the linker and the firmware decide is a parameter: the addresses of the handlers, the stack pointer, the
  pixels behind a framebuffer address, the bytes of an uninitialised message, the addresses of string literals and of
  local variables that a system call writes, and whether the kernel was compiled with \<^verbatim>\<open>NK_VALIDATE\<close>.

  Of the validation suite, \<^verbatim>\<open>kernel/ke/validate.c\<close>, the driver, the system call test and the two memory tests are here; the
  tests that start threads and wait for them are an argument of the driver.
\<close>

section \<open>Definitions\<close>

type_synonym ('a, 'd) kernel = "'a EX_GLOBALS_scheme \<times> AUR64_TABLES \<times> HAL_CONSOLE \<times> 'd"

record 'd platform =
  pf_machine :: "'d machine"
  pf_linkage :: linkage
  pf_rsp :: u64
  pf_screen :: "u64 \<Rightarrow> u32 \<Rightarrow> u32"
  pf_stack :: "u8 list"
  pf_text :: "string \<Rightarrow> u64"
  pf_local :: "string \<Rightarrow> u64"
  pf_validate :: bool

abbreviation pf_ports :: "'d platform \<Rightarrow> 'd ports" where
  "pf_ports pf \<equiv> mc_ports (pf_machine pf)"

definition nl :: string where "nl = [CHR 0x0A]"

definition say :: "'d platform \<Rightarrow> string \<Rightarrow> ('a, 'd) kernel \<Rightarrow> ('a, 'd) kernel" where
  "say pf t x = (case x of (s, tb, c, d) \<Rightarrow> case print (pf_ports pf) t (c, d) of (c1, d1) \<Rightarrow> (s, tb, c1, d1))"

subsection \<open>HAL phases\<close>

text \<open>The kernel stack pointer of the task state segment is in both records: \<open>gAur64Tss_Rsp0\<close> is the copy the scheduler updates.\<close>

definition HalInitializePhase0 :: "'d platform \<Rightarrow> BOOT_INFO option \<Rightarrow> ('a, 'd) kernel \<Rightarrow> ('a, 'd) kernel" where
  "HalInitializePhase0 pf BootInfo x =
     (case x of (s, tb, c, d) \<Rightarrow>
        let s1 = HalInitializePhase0_platform BootInfo s;
            d1 = HalpInitializeSerial (pf_ports pf) d;
            c1 = HalpInitializeFramebuffer (gHalBootInfo s1) (pf_screen pf) c;
            (tb1, d2) = HalpInitializeInterrupts (pf_ports pf) (pf_linkage pf) (pf_rsp pf) (tb, d1);
            s2 = s1\<lparr>gAur64Tss_Rsp0 := tss_Rsp0 (gAur64Tss tb1)\<rparr>;
            d3 = HalpInitializeTimer (pf_ports pf) d2
        in say pf (''[HAL] phase0 complete'' @ nl) (s2, tb1, c1, d3))"

definition HalInitializePhase1 :: "'d platform \<Rightarrow> ('a, 'd) kernel \<Rightarrow> ('a, 'd) kernel" where
  "HalInitializePhase1 pf x = (case x of (s, r) \<Rightarrow> say pf (''[HAL] phase1 complete'' @ nl) (HalEnableInterrupts s, r))"

subsection \<open>Kernel entry\<close>

text \<open>The polling loop of \<^verbatim>\<open>KiEarlySerialMarker\<close>: the last permitted read gives up whatever it returns.\<close>

fun early_wait :: "'d ports \<Rightarrow> nat \<Rightarrow> 'd \<Rightarrow> bool \<times> 'd" where
  "early_wait io 0 d = (False, d)"
| "early_wait io (Suc k) d =
     (case port_in io (HALP_COM1_PORT + 5) d of
        (v, d1) \<Rightarrow> if k = 0 then (False, d1) else if v AND 0x20 \<noteq> 0 then (True, d1) else early_wait io k d1)"

fun early_chars :: "'d ports \<Rightarrow> u8 list \<Rightarrow> 'd \<Rightarrow> 'd" where
  "early_chars io [] d = d"
| "early_chars io (ch # cs) d =
     (case early_wait io 1000000 d of
        (False, d1) \<Rightarrow> d1
      | (True, d1) \<Rightarrow>
          let d2 = port_out io HALP_COM1_PORT ch d1 in
          if ch = 0x0A then
            (case early_wait io 1000000 d2 of
               (False, d3) \<Rightarrow> d3
             | (True, d3) \<Rightarrow> early_chars io cs (port_out io HALP_COM1_PORT 0x0D d3))
          else early_chars io cs d2)"

definition early_text :: "u8 list" where
  "early_text = map of_char (''[KE] kernel entry reached'' @ nl)"

definition KiEarlySerialMarker :: "'d ports \<Rightarrow> 'd \<Rightarrow> 'd" where
  "KiEarlySerialMarker io d = early_chars io early_text d"

definition KiWriteStatusLine :: "string \<Rightarrow> KSTATUS \<Rightarrow> string option" where
  "KiWriteStatusLine Prefix Status = ObpWriteHexLine 96 Prefix (ucast (word_of_int (kstatus_value Status) :: u32))"

definition KiShowBootSplash :: "'d platform \<Rightarrow> ('a, 'd) kernel \<Rightarrow> ('a, 'd) kernel" where
  "KiShowBootSplash pf = say pf (nl @ ''========================================'' @ nl @ ''               Nova Kernel              '' @ nl @
     ''========================================'' @ nl @ ''Press ESC for verbose (pending input driver)'' @ nl)"

definition KiLaunchInitProcess :: "'d platform \<Rightarrow> ('a, 'd) kernel \<Rightarrow> ('a, 'd) kernel option" where
  "KiLaunchInitProcess pf x =
     (case say pf (''[KE] stage: loading '' @ init_kpe_path @ nl) x of (s, r) \<Rightarrow>
        (case IoOpenPath run_delete (Some init_kpe_path) IO_FILE_ACCESS_READ True s of
           (Inl Status, s1) \<Rightarrow> do {
             l \<leftarrow> KiWriteStatusLine ''[KE] init open status='' Status;
             Some (say pf (''[KE] init image not available'' @ nl @ l) (s1, r)) }
         | (Inr InitHandle, s1) \<Rightarrow>
             (case say pf (''[KE] stage: spawning init'' @ nl) (s1, r) of (s2, r2) \<Rightarrow> do {
                (q, s3) \<leftarrow> IoSpawnProcessFromFileHandle run_delete InitHandle s2;
                let s4 = snd (IoCloseFileHandle run_delete InitHandle s3);
                (case q of
                   Inl Status \<Rightarrow> do {
                     l \<leftarrow> KiWriteStatusLine ''[KE] init spawn status='' Status;
                     Some (say pf (''[KE] init spawn failed'' @ nl @ l) (s4, r2)) }
                 | Inr _ \<Rightarrow>
                     (case say pf (''[KE] init process launched'' @ nl @ ''[KE] CLI bridge online: user init.kpe on serial COM1'' @ nl) (s4, r2) of
                        (s5, tb, cd) \<Rightarrow> Some (s5, tb, HalClearDisplay (pf_ports pf) cd))) })))"

definition KiInitializeEarly :: "'d platform \<Rightarrow> BOOT_INFO option \<Rightarrow> ('a, 'd) kernel \<Rightarrow> KSTATUS \<times> ('a, 'd) kernel" where
  "KiInitializeEarly pf BootInfo x =
     (case BootInfo of
        None \<Rightarrow> (KSTATUS_INVALID_PARAMETER, x)
      | Some bi \<Rightarrow>
          if bi_Magic bi \<noteq> BOOTINFO_MAGIC then (KSTATUS_INVALID_PARAMETER, x)
          else (KSTATUS_SUCCESS, HalInitializePhase0 pf BootInfo x))"

text \<open>\<^verbatim>\<open>AsterKernelEntry\<close> up to the end of the bootstrap.\<close>

definition kernel_bootstrap :: "'d platform \<Rightarrow> (u64 \<times> BOOT_INFO) option \<Rightarrow> ('a, 'd) kernel \<Rightarrow> ('a, 'd) kernel option" where
  "kernel_bootstrap pf BootInfo x =
     (case x of (s, tb, c, d) \<Rightarrow>
        case KiInitializeEarly pf (map_option snd BootInfo) (s, tb, c, KiEarlySerialMarker (pf_ports pf) d) of
          (st0, x0) \<Rightarrow>
            if st0 \<noteq> KSTATUS_SUCCESS then None
            else case say pf (''[KE] stage: nucleus init'' @ nl) (KiShowBootSplash pf (say pf (''[KE] EARLY complete'' @ nl) x0)) of (s1, r1) \<Rightarrow>
              (case NkInitializeCore BootInfo s1 of
                 (st1, s2) \<Rightarrow>
                   if st1 \<noteq> KSTATUS_SUCCESS then None
                   else case say pf (''[KE] CORE complete'' @ nl @ ''[KE] stage: executive init'' @ nl) (s2, r1) of (s3, r3) \<Rightarrow> do {
                     (st2, s4) \<leftarrow> ExInitializeExecutive (pf_stack pf) s3;
                     if st2 \<noteq> KSTATUS_SUCCESS then None
                     else Some (say pf (''[KE] kernel bootstrap complete'' @ nl) (HalInitializePhase1 pf (s4, r3))) }))"

subsection \<open>The validation suite\<close>

record KE_VALIDATION_COUNTERS =
  vc_WorkerAIterations :: u32
  vc_WorkerBIterations :: u32
  vc_IpcIterations :: u32

datatype KE_TEST_ROUTINE =
    KeTestSyscall_ptr | KeTestScheduler_ptr | KeTestVmLazy_ptr | KeTestVmSection_ptr | KeTestUserModeSmoke_ptr | KeTestIpcPingPong_ptr

record KE_TEST_CASE =
  tc_Name :: string
  tc_Routine :: KE_TEST_ROUTINE

definition Tests :: "KE_TEST_CASE list" where
  "Tests = map (\<lambda>(n, r). \<lparr>tc_Name = n, tc_Routine = r\<rparr>)
     [(''syscall'', KeTestSyscall_ptr), (''scheduler'', KeTestScheduler_ptr), (''vm_lazy'', KeTestVmLazy_ptr),
      (''vm_section'', KeTestVmSection_ptr), (''user_smoke'', KeTestUserModeSmoke_ptr), (''ipc_pingpong'', KeTestIpcPingPong_ptr)]"

text \<open>A status as the 32-bit integer it is; the casts \<^verbatim>\<open>(KSTATUS)(int64_t)\<close> of a system call's result truncate to it.\<close>

definition kstatus_u32 :: "KSTATUS \<Rightarrow> u32" where
  "kstatus_u32 Status = word_of_int (kstatus_value Status)"

definition KeInvokeSyscall ::
    "'d platform \<Rightarrow> u64 \<Rightarrow> u64 \<Rightarrow> u64 \<Rightarrow> u64 \<Rightarrow> u64 \<Rightarrow> u64 \<Rightarrow> u64 \<Rightarrow> ('a, 'd) kernel \<Rightarrow> (u64 \<times> ('a, 'd) kernel) option" where
  "KeInvokeSyscall pf Number Arg0 Arg1 Arg2 Arg3 Arg4 Arg5 x =
     (case x of (s, tb, cd) \<Rightarrow> do {
        (v, s1, cd1) \<leftarrow> KiDispatchSystemCall (pf_machine pf) Number Arg0 Arg1 Arg2 Arg3 Arg4 Arg5 (s, cd);
        Some (v, s1, tb, cd1) })"

definition KeSysDebugPrint :: "'d platform \<Rightarrow> string \<Rightarrow> ('a, 'd) kernel \<Rightarrow> (u32 \<times> ('a, 'd) kernel) option" where
  "KeSysDebugPrint pf Text x = do {
     (v, y) \<leftarrow> KeInvokeSyscall pf 0 (pf_text pf Text) (of_nat (length Text)) 0 0 0 0 x;
     Some (ucast v, y) }"

text \<open>The payload of the ping-pong test, in a buffer of at least four bytes.\<close>

definition KeStoreU32 :: "u8 list \<Rightarrow> u32 \<Rightarrow> u8 list" where
  "KeStoreU32 Buffer Value = Buffer[0 := ucast (Value AND 0xFF), 1 := ucast (drop_bit 8 Value AND 0xFF),
     2 := ucast (drop_bit 16 Value AND 0xFF), 3 := ucast (drop_bit 24 Value AND 0xFF)]"

definition KeLoadU32 :: "u8 list \<Rightarrow> u32" where
  "KeLoadU32 Buffer = ucast (Buffer ! 0) OR push_bit 8 (ucast (Buffer ! 1)) OR push_bit 16 (ucast (Buffer ! 2)) OR push_bit 24 (ucast (Buffer ! 3))"

definition test_syscall_text :: string where "test_syscall_text = ''[KEVT] test syscall'' @ nl"

definition KeTestSyscall :: "'d platform \<Rightarrow> ('a, 'd) kernel \<Rightarrow> (u32 \<times> ('a, 'd) kernel) option" where
  "KeTestSyscall pf x = do {
     (Status, y) \<leftarrow> KeSysDebugPrint pf test_syscall_text x;
     if Status \<noteq> kstatus_u32 KSTATUS_SUCCESS then Some (Status, y)
     else do { (v, z) \<leftarrow> KeInvokeSyscall pf 1 0 0 0 0 0 0 y; Some (ucast v, z) } }"

definition KeTestVmLazy :: "'d platform \<Rightarrow> ('a, 'd) kernel \<Rightarrow> (u32 \<times> ('a, 'd) kernel) option" where
  "KeTestVmLazy pf x =
     (case PsGetCurrentProcess (fst x) of
        None \<Rightarrow> Some (kstatus_u32 KSTATUS_INVALID_PARAMETER, x)
      | Some CurrentProcess \<Rightarrow>
          if pr_AddressSpaceRoot (gPsProcessPool (fst x) CurrentProcess) = None then Some (kstatus_u32 KSTATUS_INVALID_PARAMETER, x)
          else do {
            (MappingBase, y) \<leftarrow> KeInvokeSyscall pf 4 MM_PAGE_SIZE 0 0 0 0 0 x;
            if MappingBase <s 0 then Some (ucast MappingBase, y)
            else case say pf (''[KEVT] touching lazy-mapped page'' @ nl) y of (s, tb, cd) \<Rightarrow> do {
              s1 \<leftarrow> cpu_st (pf_machine pf) MappingBase 0x5A s;
              s2 \<leftarrow> cpu_st (pf_machine pf) (MappingBase + (MM_PAGE_SIZE - 1)) 0xA5 s1;
              let AddressSpace = pr_AddressSpaceRoot (gPsProcessPool s2 CurrentProcess);
              l1 \<leftarrow> MmDumpAddressTranslation (map_option (\<lambda>a. as_RootTablePhysical (gMmAddressSpacePool s2 a)) AddressSpace) MappingBase s2;
              l2 \<leftarrow> MmDumpRecentFaults s2;
              Some (kstatus_u32 KSTATUS_SUCCESS, say pf (l1 @ l2) (s2, tb, cd)) } })"

text \<open>The section test.  Its handle and its two addresses are local variables that the system calls write.\<close>

definition store_local :: "'d platform \<Rightarrow> nat \<Rightarrow> string \<Rightarrow> u64 \<Rightarrow> ('a, 'd) kernel \<Rightarrow> ('a, 'd) kernel option" where
  "store_local pf n Name v x = (case x of (s, r) \<Rightarrow> map_option (\<lambda>s1. (s1, r)) (copy_out (pf_machine pf) (le_bytes n v) (pf_local pf Name) s))"

definition load_local :: "'d platform \<Rightarrow> nat \<Rightarrow> string \<Rightarrow> ('a, 'd) kernel \<Rightarrow> (u64 \<times> ('a, 'd) kernel) option" where
  "load_local pf n Name x = (case x of (s, r) \<Rightarrow> map_option (\<lambda>(bs, s1). (le bs, s1, r)) (copy_in (pf_machine pf) n (pf_local pf Name) s))"

definition map_view :: "'d platform \<Rightarrow> string \<Rightarrow> ('a, 'd) kernel \<Rightarrow> (u64 \<times> ('a, 'd) kernel) option" where
  "map_view pf Name x = do {
     (SectionHandle, y) \<leftarrow> load_local pf 4 ''SectionHandle'' x;
     KeInvokeSyscall pf 9 SectionHandle (ucast (MM_PROT_READ OR MM_PROT_WRITE)) (pf_local pf Name) 0 0 0 y }"

definition close_section :: "'d platform \<Rightarrow> ('a, 'd) kernel \<Rightarrow> ('a, 'd) kernel option" where
  "close_section pf x = do {
     (SectionHandle, y) \<leftarrow> load_local pf 4 ''SectionHandle'' x;
     map_option snd (KeInvokeSyscall pf 7 SectionHandle 0 0 0 0 0 y) }"

text \<open>The accesses through the two views \<open>A\<close> and \<open>B\<close>; the result is whether each saw what the other stored.\<close>

definition section_probe :: "'d machine \<Rightarrow> u64 \<Rightarrow> u64 \<Rightarrow> 'a PS_GLOBALS_scheme \<Rightarrow> (bool \<times> 'a PS_GLOBALS_scheme) option" where
  "section_probe mc A B s = do {
     s1 \<leftarrow> cpu_st mc A 0x34 s;
     s2 \<leftarrow> cpu_st mc (A + 1) 0x12 s1;
     (b0, s3) \<leftarrow> cpu_ld mc B s2;
     if b0 \<noteq> 0x34 then Some (False, s3)
     else do {
       (b1, s4) \<leftarrow> cpu_ld mc (B + 1) s3;
       if b1 \<noteq> 0x12 then Some (False, s4)
       else do {
         s5 \<leftarrow> cpu_st mc (B + (MM_PAGE_SIZE - 1)) 0xA7 s4;
         (b2, s6) \<leftarrow> cpu_ld mc (A + (MM_PAGE_SIZE - 1)) s5;
         Some (b2 = 0xA7, s6) } } }"

definition KeTestVmSection :: "'d platform \<Rightarrow> ('a, 'd) kernel \<Rightarrow> (u32 \<times> ('a, 'd) kernel) option" where
  "KeTestVmSection pf x = do {
     x1 \<leftarrow> store_local pf 4 ''SectionHandle'' 0 x;
     x2 \<leftarrow> store_local pf 8 ''VaA'' 0 x1;
     x3 \<leftarrow> store_local pf 8 ''VaB'' 0 x2;
     (Result, y) \<leftarrow> KeInvokeSyscall pf 8 MM_PAGE_SIZE (ucast MM_SECTION_ACCESS_ALL) (pf_local pf ''SectionHandle'') 0 0 0 x3;
     if Result <s 0 then Some (ucast Result, y)
     else do {
       (ResultA, y1) \<leftarrow> map_view pf ''VaA'' y;
       if ResultA <s 0 then map_option (\<lambda>z. (ucast ResultA, z)) (close_section pf y1)
       else do {
         (ResultB, y2) \<leftarrow> map_view pf ''VaB'' y1;
         if ResultB <s 0 then map_option (\<lambda>z. (ucast ResultB, z)) (close_section pf y2)
         else do {
           (A, y3) \<leftarrow> load_local pf 8 ''VaA'' y2;
           (B, s, r) \<leftarrow> load_local pf 8 ''VaB'' y3;
           (seen, s1) \<leftarrow> section_probe (pf_machine pf) A B s;
           map_option (\<lambda>z. (kstatus_u32 (if seen then KSTATUS_SUCCESS else KSTATUS_INIT_FAILED), z)) (close_section pf (s1, r)) } } } }"

definition KeShouldRunValidationMode :: "'d platform \<Rightarrow> 'a NK_GLOBALS_scheme \<Rightarrow> bool" where
  "KeShouldRunValidationMode pf s =
     (if pf_validate pf then True
      else case NkGetBootInfo s of None \<Rightarrow> False | Some (_, bi) \<Rightarrow> bi_Flags bi AND BOOTINFO_FLAG_VALIDATE \<noteq> 0)"

text \<open>The other tests, over the counters and the machine.\<close>

type_synonym ('a, 'd) test_run =
  "KE_TEST_ROUTINE \<Rightarrow> KE_VALIDATION_COUNTERS \<times> ('a, 'd) kernel \<Rightarrow> (u32 \<times> KE_VALIDATION_COUNTERS \<times> ('a, 'd) kernel) option"

definition run_test :: "'d platform \<Rightarrow> ('a, 'd) test_run \<Rightarrow> ('a, 'd) test_run" where
  "run_test pf others r cx =
     (case r of
        KeTestSyscall_ptr \<Rightarrow> (case cx of (c, x) \<Rightarrow> do { (st, y) \<leftarrow> KeTestSyscall pf x; Some (st, c, y) })
      | KeTestVmLazy_ptr \<Rightarrow> (case cx of (c, x) \<Rightarrow> do { (st, y) \<leftarrow> KeTestVmLazy pf x; Some (st, c, y) })
      | KeTestVmSection_ptr \<Rightarrow> (case cx of (c, x) \<Rightarrow> do { (st, y) \<leftarrow> KeTestVmSection pf x; Some (st, c, y) })
      | _ \<Rightarrow> others r cx)"

fun run_tests ::
    "'d platform \<Rightarrow> ('a, 'd) test_run \<Rightarrow> KE_TEST_CASE list \<Rightarrow> KE_VALIDATION_COUNTERS \<times> ('a, 'd) kernel \<Rightarrow>
     (KE_VALIDATION_COUNTERS \<times> ('a, 'd) kernel) option" where
  "run_tests pf others [] cx = Some cx"
| "run_tests pf others (tc # tcs) cx = do {
     (Status, c, x) \<leftarrow> run_test pf others (tc_Routine tc) (fst cx, say pf (''[KEVT] run '' @ tc_Name tc @ nl) (snd cx));
     if Status = kstatus_u32 KSTATUS_NOT_IMPLEMENTED then run_tests pf others tcs (c, say pf (''[KEVT] skip '' @ tc_Name tc @ nl) x)
     else if Status \<noteq> kstatus_u32 KSTATUS_SUCCESS then None
     else run_tests pf others tcs (c, say pf (''[KEVT] pass '' @ tc_Name tc @ nl) x) }"

definition KeRunValidationSuite :: "'d platform \<Rightarrow> ('a, 'd) test_run \<Rightarrow> ('a, 'd) kernel \<Rightarrow> (u32 \<times> ('a, 'd) kernel) option" where
  "KeRunValidationSuite pf others x =
     (if \<not> KeShouldRunValidationMode pf (fst x) then Some (kstatus_u32 KSTATUS_SUCCESS, x)
      else do {
        (c, y) \<leftarrow> run_tests pf others Tests
          (\<lparr>vc_WorkerAIterations = 0, vc_WorkerBIterations = 0, vc_IpcIterations = 0\<rparr>, say pf (''[KEVT] validation mode enabled'' @ nl) x);
        KeSysDebugPrint pf (''[KEVT] validation suite complete'' @ nl) y })"

text \<open>The whole entry, up to the idle loop.\<close>

definition AsterKernelEntry ::
    "'d platform \<Rightarrow> ('a, 'd) test_run \<Rightarrow> (u64 \<times> BOOT_INFO) option \<Rightarrow> ('a, 'd) kernel \<Rightarrow> ('a, 'd) kernel option" where
  "AsterKernelEntry pf others BootInfo x = do {
     x1 \<leftarrow> kernel_bootstrap pf BootInfo x;
     x2 \<leftarrow> KiLaunchInitProcess pf x1;
     (Status, x3) \<leftarrow> KeRunValidationSuite pf others x2;
     Some (say pf (if Status \<noteq> kstatus_u32 KSTATUS_SUCCESS then ''[KE] validation suite failed'' @ nl else ''[KE] validation suite passed'' @ nl) x3) }"

text \<open>The idle loop: the processor sleeps until an interrupt, whose handler runs, and then reaches the preemption point.\<close>

definition idle_pass :: "'a PS_GLOBALS_scheme \<Rightarrow> 'a PS_GLOBALS_scheme option" where
  "idle_pass s = PsHandlePreemptionPoint (HalTriggerSyntheticTimerTick run_timer_tick s)"

fun idle_loop :: "nat \<Rightarrow> 'a PS_GLOBALS_scheme \<Rightarrow> 'a PS_GLOBALS_scheme option" where
  "idle_loop 0 s = Some s"
| "idle_loop (Suc k) s = do { t \<leftarrow> idle_pass s; idle_loop k t }"

section \<open>What the start leaves alone\<close>

lemma say_state [simp]: "say pf t (s, tb, cd) = (s, tb, print (pf_ports pf) t cd)"
  by (cases cd) (simp add: say_def split: prod.split)

text \<open>The fields of the scheduler, and the boot information.\<close>

definition ps_view :: "'a PS_GLOBALS_scheme \<Rightarrow> (u64 \<times> BOOT_INFO) option \<times> bool \<times> (nat \<Rightarrow> KTHREAD) \<times> (nat \<Rightarrow> bool) \<times> ptr \<times> ptr \<times> ptr" where
  "ps_view s = (gNkBootInfo s, gPsReady s, gPsThreadPool s, gPsThreadInUse s, gPsCurrentThread s, gPsRunQueueHead s, gPsRunQueueTail s)"

lemma ps_view_sched: "ps_view t = ps_view s \<Longrightarrow> sched t q = sched s q \<and> gPsCurrentThread t = gPsCurrentThread s \<and> gNkBootInfo t = gNkBootInfo s"
  by (simp add: ps_view_def sched_def runnable_def)

lemma ps_view_simps [simp]:
  "ps_view (set_object i h s) = ps_view s" "ps_view (s\<lparr>gObObjectInUse := u\<rparr>) = ps_view s" "ps_view (HalEnableInterrupts s) = ps_view s"
  "ps_view (set_section j g s) = ps_view s" "ps_view (s\<lparr>gMmSectionInUse := v\<rparr>) = ps_view s"
  by (simp_all add: ps_view_def set_object_def HalEnableInterrupts_def set_section_def)

lemma ps_view_file [simp]: "ps_view (set_file i f s) = ps_view s" "ps_view (s\<lparr>gIoFileInUse := u\<rparr>) = ps_view s"
  by (simp_all add: ps_view_def set_file_def)

lemma ps_view_delete_pages: "ps_view (delete_pages_loop sec i k s) = ps_view s"
proof (induction k arbitrary: i s)
  case (Suc k)
  have "ps_view (snd (MmFreePage a u)) = ps_view u" for a and u :: "'a PS_GLOBALS_scheme"
    by (simp add: ps_view_def MmFreePage_def MmpReleasePage_def MmpSetPageFree_def Let_def)
  with Suc show ?case by (simp add: Let_def)
qed simp

lemma ps_view_delete_object:
  "ps_view (MmpDeleteSectionObject x s) = ps_view s" "ps_view (LpcpDeletePortObject x u) = ps_view u"
  by (simp add: MmpDeleteSectionObject_def Let_def ps_view_delete_pages split: option.split)
    (simp add: LpcpDeletePortObject_def set_port_def ps_view_def split: option.split)

lemma ps_view_delete: "ps_view (run_delete r obj s) = ps_view s"
  by (simp add: run_delete_def ps_view_delete_object IopDeleteFileObject_def PspProcessDeleteRoutine_def PspThreadDeleteRoutine_def
      split: OB_DELETE_ROUTINE.split option.split)

lemma ps_view_dereference: "ps_view (snd (ObDereferenceObject run_delete obj s)) = ps_view s"
  by (simp add: ObDereferenceObject_def Let_def ps_view_delete split: option.split)

lemma ps_view_create: "ObCreateObject ty nm acc fl out s = (r, t) \<Longrightarrow> ps_view t = ps_view s"
  by (auto simp: ObCreateObject_def Let_def ps_view_def set_object_def split: if_splits option.splits sum.splits)

lemma open_absent:
  assumes "gIoReady s" "boot_files_empty s" "acc AND IO_FILE_ACCESS_ALL \<noteq> 0"
  obtains st t where "IoOpenPath run_delete (Some p) acc True s = (Inl st, t)" "ps_view t = ps_view s"
proof (cases "IopAllocateFileSlot s")
  case (Pair fo s1)
  have v1: "ps_view s1 = ps_view s" "gIoBootFiles s1 = gIoBootFiles s"
    using Pair by (auto simp: IopAllocateFileSlot_def split: option.splits)
  show thesis
  proof (cases fo)
    case None
    then show ?thesis using that assms(1,3) Pair v1 by (simp add: IoOpenPath_def)
  next
    case (Some i)
    obtain r s2 where cr: "ObCreateObject (gIoFileType s1) (Some ''io.file'') IO_FILE_ACCESS_ALL 0 True s1 = (r, s2)" by fastforce
    have v2: "ps_view s2 = ps_view s" "gIoBootFiles s2 = gIoBootFiles s" using ps_view_create [OF cr] ob_ops_io(3) [OF cr] v1 by (simp_all add: io_part_def)
    then have "IopFsFatLookupFile p (set_file i f s2) = None" for f
      using assms(2) by (simp add: IopFsFatLookupFile_def boot_files_empty_def scan_None_iff)
    then show ?thesis
      using that assms(1,3) Pair Some cr v2(1)
      by (cases r) (simp_all add: IoOpenPath_def IopVfsOpen_def case_prod_beta ps_view_dereference)
  qed
qed

lemma launch_absent:
  fixes s :: "'a EX_GLOBALS_scheme"
  assumes "gIoReady s" "boot_files_empty s"
  obtains t r' where "KiLaunchInitProcess pf (s, r) = Some (t, r')" "ps_view t = ps_view s"
proof -
  obtain tb cd where r: "r = (tb, cd)" by (cases r) auto
  have "IO_FILE_ACCESS_READ AND IO_FILE_ACCESS_ALL \<noteq> 0" by (simp add: IO_FILE_ACCESS_READ_def IO_FILE_ACCESS_ALL_def)
  from open_absent [OF assms this] obtain st t where
    t: "IoOpenPath run_delete (Some init_kpe_path) IO_FILE_ACCESS_READ True s = (Inl st, t)" "ps_view t = ps_view s" .
  obtain l where "KiWriteStatusLine ''[KE] init open status='' st = Some l"
    by (simp add: KiWriteStatusLine_def ObpWriteHexLine_bounds c_str_def)
  with t(1) have "\<exists>r'. KiLaunchInitProcess pf (s, r) = Some (t, r')" by (simp add: KiLaunchInitProcess_def r)
  with that t(2) show thesis by blast
qed

section \<open>The bootstrap\<close>

lemma phase0_state:
  "fst (HalInitializePhase0 pf b (s, tb, c, d)) = (HalInitializePhase0_platform b s)\<lparr>gAur64Tss_Rsp0 := pf_rsp pf\<rparr>"
  by (simp add: HalInitializePhase0_def Let_def HalpInitializeInterrupts_def HalpInitializeSegments_def split: prod.split)

lemma bootstrap_ok:
  fixes s :: "'a EX_GLOBALS_scheme"
  assumes "cold s" and "bi_Magic bi = BOOTINFO_MAGIC" and "hw_cr3 s AND MM_PTE_ADDR_MASK \<noteq> 0"
    and "4 \<le> free_pages (boot_marked a bi (HalInitializePhase0_platform (Some bi) s))"
  obtains t r where "kernel_bootstrap pf (Some (a, bi)) (s, tb, c, d) = Some (t, r)" "hw_if t" "sched t []" "gPsCurrentThread t = Some 0"
    "gIoReady t" "init_image bi \<or> boot_files_empty t" "gNkBootInfo t = Some (a, bi)"
proof -
  define s0 where "s0 = (HalInitializePhase0_platform (Some bi) s)\<lparr>gAur64Tss_Rsp0 := pf_rsp pf\<rparr>"
  define s1 where "s1 = s0\<lparr>gNkBootInfo := Some (a, bi), gNkPortCount := 0, gNkServiceEndpointCount := 0\<rparr>"
  have pl: "\<exists>f g. HalInitializePhase0_platform (Some bi) s = s\<lparr>gHalBootInfo := f, gHalPlatformInfo := g\<rparr>"
    by (auto simp: HalInitializePhase0_platform_def Let_def)
  then have c: "cold s1" "hw_cr3 s1 = hw_cr3 s" using assms(1) by (auto simp: s1_def s0_def cold_def)
  have "free_pages (boot_marked a bi s1) = free_pages (boot_marked a bi (HalInitializePhase0_platform (Some bi) s))"
    by (rule boot_marked_cong) (simp_all add: s1_def s0_def)
  with assms(3,4) c(2) have p: "4 \<le> free_pages (boot_marked a bi s1)" "hw_cr3 s1 AND MM_PTE_ADDR_MASK \<noteq> 0" by simp_all
  have b: "gNkBootInfo s1 = Some (a, bi)" by (simp add: s1_def)
  obtain t where t: "ExInitializeExecutive (pf_stack pf) s1 = Some (KSTATUS_SUCCESS, t)" "gIoReady t" "sched t []" "gPsCurrentThread t = Some 0"
    "init_image bi \<or> boot_files_empty t" "gNkBootInfo t = Some (a, bi)"
    by (rule executive_ok [OF c(1) b assms(2) p])
  obtain tb0 cd0 where x0: "HalInitializePhase0 pf (Some bi) (s, tb, c, KiEarlySerialMarker (pf_ports pf) d) = (s0, tb0, cd0)"
    using phase0_state [of pf "Some bi" s tb c "KiEarlySerialMarker (pf_ports pf) d"] unfolding s0_def by (metis prod.collapse)
  have "\<exists>r. kernel_bootstrap pf (Some (a, bi)) (s, tb, c, d) = Some (HalEnableInterrupts t, r)"
    using assms(2) x0 t(1)
    by (simp add: kernel_bootstrap_def KiInitializeEarly_def KiShowBootSplash_def NkInitializeCore_def s1_def HalInitializePhase1_def)
  then obtain r where "kernel_bootstrap pf (Some (a, bi)) (s, tb, c, d) = Some (HalEnableInterrupts t, r)" ..
  then show thesis
    by (rule that)
      (use t(2-6) ps_view_sched [OF ps_view_simps(3), of t] in \<open>simp_all add: HalEnableInterrupts_def boot_files_empty_def\<close>)
qed

section \<open>The idle loop\<close>

lemma idle_pass_alone:
  assumes "sched s []" "gPsCurrentThread s = Some c"
  obtains t where "idle_pass s = Some t" "sched t []" "gPsCurrentThread t = Some c"
proof -
  define u where "u = HalTriggerSyntheticTimerTick run_timer_tick s"
  have cur: "gPsCurrentThread (PsOnTimerTick s) = Some c"
    using assms(2) by (simp add: PsOnTimerTick_def Let_def)
  have u: "sched u []" "gPsCurrentThread u = Some c"
    using tick_sched [OF assms(1)] cur assms
    by (auto simp: u_def HalTriggerSyntheticTimerTick_def run_timer_tick_def split: option.splits HAL_TIMER_TICK_ROUTINE.splits)
  have "PsHandlePreemptionPoint u = Some u \<or> PsHandlePreemptionPoint u = Some (u\<lparr>gPsReschedulePending := False\<rparr>)"
    using yield_sched [OF u] by (simp add: PsHandlePreemptionPoint_def)
  then show thesis
    using that u by (auto simp: idle_pass_def u_def [symmetric] sched_def runnable_def)
qed

lemma idle_loop_alone:
  assumes "sched s []" "gPsCurrentThread s = Some c"
  shows "\<exists>t. idle_loop k s = Some t \<and> sched t [] \<and> gPsCurrentThread t = Some c"
  using assms
proof (induction k arbitrary: s)
  case (Suc k)
  obtain t where "idle_pass s = Some t" "sched t []" "gPsCurrentThread t = Some c" by (rule idle_pass_alone [OF Suc.prems])
  with Suc.IH show ?case by simp
qed simp

section \<open>The first test\<close>

lemma starts_with_differs: "c_char p 0 \<noteq> NUL \<Longrightarrow> c_char t 0 \<noteq> c_char p 0 \<Longrightarrow> \<not> KipStartsWith t p"
  unfolding KipStartsWith_def by (subst KipStartsWith_loop.simps) simp

lemma no_command: "debug_command (CHR ''['' # t) s = Some (True, [])"
  by (simp add: debug_command_def is_command_def starts_with_differs c_char_def)

text \<open>The literal of the test as the processor sees it at the address it has.\<close>

definition literal_at :: "'d platform \<Rightarrow> string \<Rightarrow> 'a MM_GLOBALS_scheme \<Rightarrow> bool" where
  "literal_at pf t s \<longleftrightarrow> in_half (pf_text pf t, of_nat (length t)) \<and> readable (length t) (pf_text pf t) s \<and>
     buffer_bytes (length t) (pf_text pf t) s = map of_char t"

lemma debug_print_literal:
  assumes "literal_at pf (CHR ''['' # t) s" "length t < 500"
  shows "\<exists>cd'. KeSysDebugPrint pf (CHR ''['' # t) (s, tb, cd) = Some (0, s, tb, cd')"
proof -
  let ?n = "of_nat (Suc (length t)) :: u64"
  have n: "unat ?n = Suc (length t)" using assms(2) by (simp add: unsigned_of_nat take_bit_nat_eq_self del: of_nat_Suc)
  have "\<not> ?n > KI_SYSCALL_DEBUGPRINT_MAX" using assms(2) n by (simp add: KI_SYSCALL_DEBUGPRINT_MAX_def word_less_nat_alt del: of_nat_Suc)
  moreover have "KipIsRangeReadable (pf_text pf (CHR ''['' # t)) ?n" using assms(1) by (simp add: literal_at_def range_in_half)
  moreover have "copy_in (pf_machine pf) (Suc (length t)) (pf_text pf (CHR ''['' # t)) s = Some (map of_char (CHR ''['' # t), s)"
    using assms(1) copy_in_resident [of "Suc (length t)" "pf_text pf (CHR ''['' # t)" s] by (simp add: literal_at_def)
  moreover have "char_of (unat (of_char (CHR ''['') :: u8)) = CHR ''[''" by (simp add: char_of_def bit_iff_odd)
  ultimately show ?thesis
    by (simp add: KeSysDebugPrint_def KeInvokeSyscall_def KiDispatchSystemCall_def syscall_of_def syscall_numbers_def KipSysDebugPrint_def n
        no_command status_value_def del: of_nat_Suc copy_in.simps)
qed

section \<open>Properties\<close>

text \<open>
  C1: the kernel boots, when there is no initial program.  From a cold start, given a boot information block with the right magic number and without an initial
  program, with validation mode off in the build and in the flags of the block, a memory map that leaves four usable pages and a page table loaded, the
  entry point reaches the idle loop with the bootstrap thread running, and the loop runs for ever: no number of timer ticks stops the machine or takes the
  processor from that thread.
\<close>

theorem AsterKernelEntry_idles:
  fixes s :: "'a EX_GLOBALS_scheme"
  assumes "cold s" and "bi_Magic bi = BOOTINFO_MAGIC" and "\<not> init_image bi" and "hw_cr3 s AND MM_PTE_ADDR_MASK \<noteq> 0"
    and "4 \<le> free_pages (boot_marked a bi (HalInitializePhase0_platform (Some bi) s))"
    and "\<not> pf_validate pf" and "bi_Flags bi AND BOOTINFO_FLAG_VALIDATE = 0"
  shows "\<exists>t r. AsterKernelEntry pf others (Some (a, bi)) (s, tb, c, d) = Some (t, r) \<and>
    (\<forall>k. \<exists>u. idle_loop k t = Some u \<and> sched u [] \<and> gPsCurrentThread u = Some 0)"
proof -
  obtain s1 r1 where b: "kernel_bootstrap pf (Some (a, bi)) (s, tb, c, d) = Some (s1, r1)" "sched s1 []" "gPsCurrentThread s1 = Some 0"
    "gIoReady s1" "init_image bi \<or> boot_files_empty s1" "gNkBootInfo s1 = Some (a, bi)"
    by (rule bootstrap_ok [OF assms(1,2,4,5)])
  obtain t r2 where l: "KiLaunchInitProcess pf (s1, r1) = Some (t, r2)" "ps_view t = ps_view s1"
    by (rule launch_absent [of s1]) (use b(4,5) assms(3) in auto)
  have v: "sched t []" "gPsCurrentThread t = Some 0" "gNkBootInfo t = Some (a, bi)" using ps_view_sched [OF l(2)] b by simp_all
  have "KeRunValidationSuite pf others (t, r2) = Some (kstatus_u32 KSTATUS_SUCCESS, t, r2)"
    using v(3) assms(6,7) by (simp add: KeRunValidationSuite_def KeShouldRunValidationMode_def NkGetBootInfo_def)
  then have "\<exists>r. AsterKernelEntry pf others (Some (a, bi)) (s, tb, c, d) = Some (t, r)"
    using b(1) l(1) by (cases r2) (simp add: AsterKernelEntry_def)
  then show ?thesis using idle_loop_alone [OF v(1,2)] by blast
qed

text \<open>A platform with nothing attached, and the machine of \<open>mm_boot\<close> as the loader leaves it.\<close>

definition demo_platform :: "unit platform" where
  "demo_platform = \<lparr>pf_machine = demo_machine, pf_linkage = demo_linkage, pf_rsp = 0x9000, pf_screen = (\<lambda>_ _. 0), pf_stack = replicate 64 0,
     pf_text = (\<lambda>_. 0x5000), pf_local = (\<lambda>_. 0x6000), pf_validate = False\<rparr>"

theorem AsterKernelEntry_idles_witness:
  "\<exists>t r. AsterKernelEntry demo_platform (\<lambda>_ _. None) (Some (0x8000, demo_boot_info)) (ex_boot, demo_tables, demo_console, ()) = Some (t, r) \<and>
    idle_loop 1000 t \<noteq> None"
proof -
  have "gHalPlatformInfo (HalInitializePhase0_platform (Some demo_boot_info) ex_boot) = gHalPlatformInfo ex_boot"
    by (simp add: HalInitializePhase0_platform_def demo_boot_info_def ex_boot_eval)
  then have "free_pages (boot_marked 0x8000 demo_boot_info (HalInitializePhase0_platform (Some demo_boot_info) ex_boot)) =
      free_pages (boot_marked 0x8000 demo_boot_info mm_boot)"
    by (intro boot_marked_cong) (simp_all add: ex_boot_eval mm_boot_def, simp_all add: HalInitializePhase0_platform_def Let_def split: if_splits)
  then have p: "4 \<le> free_pages (boot_marked 0x8000 demo_boot_info (HalInitializePhase0_platform (Some demo_boot_info) ex_boot))"
    using mm_boot_free by simp
  have f: "hw_cr3 ex_boot AND MM_PTE_ADDR_MASK \<noteq> 0" "bi_Magic demo_boot_info = BOOTINFO_MAGIC" "\<not> init_image demo_boot_info"
    "\<not> pf_validate demo_platform" "bi_Flags demo_boot_info AND BOOTINFO_FLAG_VALIDATE = 0"
    by (simp_all add: ex_boot_eval MM_PTE_ADDR_MASK_def demo_boot_info_def init_image_def demo_platform_def)
  from AsterKernelEntry_idles [OF ex_boot_cold f(2,3,1) p f(4,5), of "\<lambda>_ _. None" demo_tables demo_console "()"] show ?thesis by blast
qed

text \<open>The payload of the ping-pong test survives its buffer.\<close>

theorem KeLoadU32_KeStoreU32:
  assumes "4 \<le> length Buffer"
  shows "KeLoadU32 (KeStoreU32 Buffer v) = v"
proof -
  obtain a b c d r where "Buffer = a # b # c # d # r" using assms by (auto simp: Suc_le_length_iff numeral_eq_Suc)
  then have "KeStoreU32 Buffer v = put32 v @ r" by (simp add: KeStoreU32_def put32_def eval_nat_numeral)
  then show ?thesis using put32_imm32 [of v r] by (simp add: KeLoadU32_def imm32_def)
qed

theorem KeLoadU32_KeStoreU32_witness: "KeLoadU32 (KeStoreU32 [0, 0, 0, 0] 0x01000005) = 0x01000005"
  by (rule KeLoadU32_KeStoreU32) simp

text \<open>
  C30: the validation suite needs a second thread.  When the bootstrap thread is alone, which is how the kernel arrives here
  without an initial program, the first test fails: \<^verbatim>\<open>PsYieldThread\<close> with an empty run queue returns
  \<^verbatim>\<open>KSTATUS_INIT_FAILED\<close>, the test returns that status, and the assertion in the driver stops the machine.
\<close>

theorem KeRunValidationSuite_alone:
  assumes "KeShouldRunValidationMode pf s" and "sched s []" and "gPsCurrentThread s = Some c" and "literal_at pf test_syscall_text s"
  shows "(\<exists>y. KeTestSyscall pf (s, tb, cd) = Some (kstatus_u32 KSTATUS_INIT_FAILED, y)) \<and> KeRunValidationSuite pf others (s, tb, cd) = None"
proof -
  have t: "test_syscall_text = CHR ''['' # tl test_syscall_text" by (simp add: test_syscall_text_def)
  have y: "PsYieldThread s = Some (KSTATUS_INIT_FAILED, s\<lparr>gPsReschedulePending := False\<rparr>)" using yield_sched [OF assms(2,3)] by simp
  have k: "\<exists>y. KeTestSyscall pf (s, tb, cd') = Some (kstatus_u32 KSTATUS_INIT_FAILED, y)" for cd'
  proof -
    obtain cd2 where "KeSysDebugPrint pf test_syscall_text (s, tb, cd') = Some (0, s, tb, cd2)"
      using debug_print_literal [of pf "tl test_syscall_text" s tb cd'] assms(4) t by (auto simp: test_syscall_text_def nl_def)
    moreover have "ucast (status_value KSTATUS_INIT_FAILED) = kstatus_u32 KSTATUS_INIT_FAILED" by (simp add: status_value_def kstatus_u32_def)
    ultimately show ?thesis
      using y by (simp add: KeTestSyscall_def kstatus_u32_def KeInvokeSyscall_def KiDispatchSystemCall_def syscall_of_def syscall_numbers_def
          lift_kernel_def KipSysYield_def)
  qed
  from k obtain z where "KeTestSyscall pf (s, tb, print (pf_ports pf) (''[KEVT] run syscall'' @ nl)
      (print (pf_ports pf) (''[KEVT] validation mode enabled'' @ nl) cd)) = Some (kstatus_u32 KSTATUS_INIT_FAILED, z)" by blast
  then have "KeRunValidationSuite pf others (s, tb, cd) = None"
    using assms(1) by (simp add: KeRunValidationSuite_def Tests_def run_test_def kstatus_u32_def)
  with k show ?thesis by blast
qed

text \<open>One thread, in validation mode, with the literal of the first test at address 0x5000 of a machine that maps its first
  gigabyte to itself.\<close>

definition ex_alone :: EX_GLOBALS where
  "ex_alone = (ex_bss (io_bss (lpc_bss ps_bss)))\<lparr>gNkBootInfo := Some (0x8000, demo_boot_info\<lparr>bi_Flags := 1\<rparr>), hw_cr3 := 0x1000,
     hw_mem := (\<lambda>a. if a = 0x1000 then 0x2003 else if a = 0x2000 then 0x83 else if a = 0x5000 then 0x74205D5456454B5B
       else if a = 0x5008 then 0x6373797320747365 else if a = 0x5010 then 0x0A6C6C61 else 0),
     gPsReady := True, gPsCurrentThread := Some 0, gPsThreadInUse := (\<lambda>t. t = 0),
     gPsThreadPool := (\<lambda>t. (thread ps_bss t)\<lparr>th_OwnerProcess := Some 0, th_State := (if t = 0 then PsThreadRunning else PsThreadReady)\<rparr>)\<rparr>"

lemma ex_alone_translate:
  assumes "va \<in> set [0x5000, 0x5001, 0x5002, 0x5003, 0x5004, 0x5005, 0x5006, 0x5007, 0x5008, 0x5009, 0x500A, 0x500B, 0x500C, 0x500D, 0x500E,
    0x500F, 0x5010, 0x5011, 0x5012, 0x5013]"
  shows "mmu_translate va ex_alone = Some va"
proof -
  have m: "hw_mem ex_alone 0x1000 = 0x2003" "hw_mem ex_alone 0x2000 = 0x83" "hw_cr3 ex_alone = 0x1000" by (simp_all add: ex_alone_def)
  have sl: "slot 0x1000 (walk_index va 0) = 0x1000" "slot 0x2003 (walk_index va 1) = 0x2000"
    using assms by (auto simp: walk_index_def slot_def MM_PTE_ADDR_MASK_def)
  have n: "(4 :: nat) = Suc (Suc 2)" by simp
  have "mmu_walk (Suc (Suc 2)) 0 va 0x1000 ex_alone = Some va"
    unfolding mmu_walk.simps using assms sl
    by (auto simp: m Let_def has_flag_def MM_PTE_PRESENT_def MM_PTE_LARGE_def MM_PTE_ADDR_MASK_def mask_eq_exp_minus_1)
  then show ?thesis unfolding mmu_translate_def m(3) n .
qed

lemma ex_alone_literal: "literal_at demo_platform test_syscall_text ex_alone"
proof -
  have t: "length test_syscall_text = 20" "pf_text demo_platform test_syscall_text = 0x5000"
    by (simp_all add: test_syscall_text_def nl_def demo_platform_def)
  have u: "[0..<20] = [0, 1, 2, 3, 4, 5, 6, 7, 8, 9, 10, 11, 12, 13, 14, 15, 16, 17, 18, 19 :: nat]" by (simp add: upt_rec)
  have "list_all (\<lambda>i. mmu_translate (0x5000 + of_nat i) ex_alone \<noteq> None) [0..<20]" by (simp add: u ex_alone_translate)
  then have "readable 20 0x5000 ex_alone" by (simp add: readable_def list_all_iff)
  moreover have "buffer_bytes 20 0x5000 ex_alone = map of_char test_syscall_text"
    by (simp add: buffer_bytes_def u user_ld_byte ex_alone_translate byte_at_def cell_def test_syscall_text_def nl_def)
      (simp add: ex_alone_def)
  ultimately show ?thesis by (simp add: literal_at_def t in_half_def)
qed

theorem KeRunValidationSuite_alone_witness: "KeRunValidationSuite demo_platform (\<lambda>_ _. None) (ex_alone, demo_tables, demo_console, ()) = None"
proof -
  have "KeShouldRunValidationMode demo_platform ex_alone"
    by (simp add: KeShouldRunValidationMode_def demo_platform_def NkGetBootInfo_def ex_alone_def BOOTINFO_FLAG_VALIDATE_def)
  moreover have "gPsRunQueueHead ex_alone = None" "gPsRunQueueTail ex_alone = None"
    by (simp_all add: ex_alone_def ex_bss_def io_bss_def lpc_bss_def ps_bss_def MM_GLOBALS.defs PS_GLOBALS.defs LPC_GLOBALS.defs
        IO_GLOBALS.defs EX_GLOBALS.defs)
  then have "sched ex_alone []" by (simp add: sched_def ex_alone_def runnable_def PS_MAX_THREADS_def)
  moreover have "gPsCurrentThread ex_alone = Some 0" by (simp add: ex_alone_def)
  ultimately show ?thesis using KeRunValidationSuite_alone [OF _ _ _ ex_alone_literal] by blast
qed

end
