(* ===== verification/NtxValidate.thy ===== *)
theory NtxValidate
  imports NtxKernel
begin

text \<open>
  The memory tests of the validation suite, \<^verbatim>\<open>kernel/ke/validate.c\<close>, over the whole kernel: the test of lazy mappings
  passes, and two views of a section agree on what the section test stores and reads.
\<close>

section \<open>Mapping memory through the system call\<close>

text \<open>The region the call appends and the state it leaves.\<close>

definition lazy_region :: "u64 \<Rightarrow> MM_VA_REGION" where
  "lazy_region base = \<lparr>reg_Base = base, reg_Size = 0x1000, reg_Type = MM_REGION_TYPE_ANON, reg_Protection = MM_PROT_READ OR MM_PROT_WRITE OR MM_PROT_USER,
     reg_Flags = MM_REGION_FLAG_LAZY, reg_CommittedPages = 0, reg_BackingPhysicalBase = 0, reg_BackingObject = None, reg_BackingOffset = 0\<rparr>"

definition with_region :: "nat \<Rightarrow> MM_VA_REGION \<Rightarrow> 'a MM_GLOBALS_scheme \<Rightarrow> 'a MM_GLOBALS_scheme" where
  "with_region a g s = s\<lparr>gMmAddressSpacePool := (gMmAddressSpacePool s)(a := append_region (gMmAddressSpacePool s a) g)\<rparr>"

lemma with_region_fields [simp]:
  "hw_mem (with_region a g s) = hw_mem s" "hw_cr3 (with_region a g s) = hw_cr3 s" "as_root (with_region a g s) a' = as_root s a'"
  "page_alloc (with_region a g s) = page_alloc s" "free_pages (with_region a g s) = free_pages s"
  "pte_at (with_region a g s) a' va b = pte_at s a' va b" "mmu_translate va (with_region a g s) = mmu_translate va s"
  "mmu_walk_writable k L va T (with_region a g s) = mmu_walk_writable k L va T s"
proof -
  show m: "hw_mem (with_region a g s) = hw_mem s" "hw_cr3 (with_region a g s) = hw_cr3 s" "as_root (with_region a g s) a' = as_root s a'" for a'
    by (simp_all add: with_region_def as_root_def)
  show "page_alloc (with_region a g s) = page_alloc s" "free_pages (with_region a g s) = free_pages s"
    by (simp_all add: with_region_def page_alloc_def fun_eq_iff free_pages_def)
  show "pte_at (with_region a g s) a' va b = pte_at s a' va b" by (simp add: pte_at_def m(3) walk_path_mem_only [OF m(1)])
  show "mmu_translate va (with_region a g s) = mmu_translate va s"
    using mmu_walk_agree(1) [of 4 0 va "hw_cr3 s" s "with_region a g s"] by (simp add: mmu_translate_def m)
  show "mmu_walk_writable k L va T (with_region a g s) = mmu_walk_writable k L va T s"
    using mmu_walk_agree(2) [of k L va T s "with_region a g s"] by (simp add: m)
qed

text \<open>A process with room for one more page of lazily mapped memory at \<open>base\<close>.\<close>

definition lazy_room :: "levels \<Rightarrow> 'a PS_GLOBALS_scheme \<Rightarrow> nat \<Rightarrow> u64 \<Rightarrow> bool" where
  "lazy_room lvl s a base \<longleftrightarrow> runs_in lvl s a \<and> rcount (gMmAddressSpacePool s a) < 128 \<and>
     as_NextUserBase (gMmAddressSpacePool s a) = base \<and> unat base + 4096 \<le> unat MM_USER_TOP"

lemma map_memory_call:
  assumes "lazy_room lvl s a base"
  shows "KipSysMapMemory MM_PAGE_SIZE s = Some (base, with_region a (lazy_region base) s)"
    "runs_in lvl (with_region a (lazy_region base) s) a"
proof -
  define as where "as = gMmAddressSpacePool s a"
  have run: "runs_in lvl s a" and room: "rcount as < 128" and base: "as_NextUserBase as = base" and top: "unat base + 4096 \<le> unat MM_USER_TOP"
    and wf: "regions_wf as"
    using assms by (simp_all add: lazy_room_def as_def runs_in_def)
  have rdy: "gMmReady s" "current_space s = Some a" "as_ok lvl s a" using run by (auto simp: runs_in_def as_ok_def pt_inv_def)
  have lim: "\<not> as_RegionCount as \<ge> MM_MAX_VA_REGIONS" "as_RegionCount as < MM_MAX_VA_REGIONS"
    using room by (auto simp: MM_MAX_VA_REGIONS_def word_le_nat_alt word_less_nat_alt)
  have z: "MmpAlignSizeToPage 0x1000 = 0x1000" by (simp add: MmpAlignSizeToPage_def MmpAlignUp_def MM_PAGE_SIZE_def)
  have al: "MmpAlignUp base 0x1000 = base" using align_next [OF wf] base by (simp add: MM_PAGE_SIZE_def)
  show "KipSysMapMemory MM_PAGE_SIZE s = Some (base, with_region a (lazy_region base) s)"
    using rdy lim
    by (simp add: KipSysMapMemory_def MmMapAnonymous_def Let_def as_def [symmetric] base al
        with_region_def lazy_region_def set_as_def set_region_def has_bits_def MM_REGION_FLAG_LAZY_def MM_REGION_FLAG_WIRED_def MM_PAGE_SIZE_def z or.assoc)
  let ?t = "with_region a (lazy_region base) s"
  have "regions_wf (append_region as (lazy_region base))"
    using wf room top base by (intro regions_wf_append) (simp_all add: lazy_region_def)
  then have "regions_wf (gMmAddressSpacePool ?t a)" by (simp add: with_region_def as_def)
  moreover have "as_ok lvl ?t a"
    using rdy(3) by (simp add: as_ok_def pt_inv_def levels_ok_def entries_ok_def) (simp add: with_region_def pages_wf_def page_alloc_def)
  moreover have "gHalPageFaultRoutine ?t = gHalPageFaultRoutine s" "current_space ?t = current_space s"
    by (simp_all add: with_region_def current_space_def PsGetCurrentProcess_def split: option.split)
  ultimately show "runs_in lvl ?t a" using run by (simp add: runs_in_def)
qed

section \<open>Dumps\<close>

text \<open>The dumps fit their line buffers.\<close>

lemma hex_lines_total: "list_all (\<lambda>(p, _). length p \<le> 76) ls \<Longrightarrow> \<exists>t. hex_lines ls = Some t"
proof (induction ls)
  case (Cons l ls)
  obtain p v where l: "l = (p, v)" by fastforce
  have "length (c_str p) \<le> length p" by (simp add: c_str_def length_takeWhile_le)
  with Cons.prems l have "length (c_str p) + 19 < 96" by simp
  moreover obtain t where "hex_lines ls = Some t" using Cons by auto
  ultimately show ?case by (simp add: l MmpWriteHexLine_def WriteHexLine_ok)
qed simp

lemma translation_prefixes:
  "list_all (\<lambda>(n, _). length n \<le> 8) ls \<Longrightarrow> list_all (\<lambda>(p, _). length p \<le> 76) (translation_lines ls va T s)"
  by (induction ls va T s rule: translation_lines.induct) (simp_all add: Let_def entry_lines_def)

lemma dump_translation_total: "\<exists>t. MmDumpAddressTranslation (Some root) va s = Some t"
  using translation_prefixes [of "[(''PML4E'', 0), (''PDPTE'', 1), (''PDE'', 2), (''PTE'', 3)]" va root s]
  unfolding MmDumpAddressTranslation_def option.case by (intro hex_lines_total) (simp del: translation_lines.simps)

lemma dump_faults_total: "\<exists>t. MmDumpRecentFaults s = Some t"
  unfolding MmDumpRecentFaults_def by (rule hex_lines_total) (auto simp: list_all_iff)

section \<open>Properties\<close>

lemma page_end:
  assumes "page_aligned base" "unat base + 4096 \<le> unat MM_USER_TOP" "o' \<le> 0xFFF"
  shows "MmpAlignDown (base + o') MM_PAGE_SIZE = MmpAlignDown base MM_PAGE_SIZE" "(base + o') AND 0xFFF = o'" "\<not> base <s 0"
    "unat (base + o') = unat base + unat o'"
proof -
  have o: "unat o' \<le> 4095" using assms(3) by (simp add: word_le_nat_alt)
  then show s: "unat (base + o') = unat base + unat o'" using assms(2) by (intro unat_add_u64) (simp add: user_bounds)
  have "unat (base mod MM_PAGE_SIZE) = 0" using assms(1) by (simp add: page_aligned_def)
  then have "unat base mod 4096 = 0" by (simp add: unat_mod_distrib MM_PAGE_SIZE_def)
  then obtain q where q: "unat base = 4096 * q" by (auto simp: mod_eq_0_iff_dvd elim: dvdE)
  have "unat (MmpAlignDown (base + o') MM_PAGE_SIZE) = unat (MmpAlignDown base MM_PAGE_SIZE)"
    unfolding align_down_4096 s q using o by simp
  then show "MmpAlignDown (base + o') MM_PAGE_SIZE = MmpAlignDown base MM_PAGE_SIZE" by (rule unsigned_word_eqI)
  have m: "(0xFFF :: u64) = mask 12" by (simp add: mask_eq_decr_exp)
  have "unat ((base + o') AND 0xFFF) = (unat base + unat o') mod 4096"
    unfolding m s [symmetric] by (simp flip: take_bit_eq_mask add: take_bit_eq_mod unat_mod_distrib)
  also have "\<dots> = unat o'" using o by (simp add: q)
  finally show "(base + o') AND 0xFFF = o'" by (rule unsigned_word_eqI)
  have "unat base < 2 ^ 63" using assms(2) by (simp add: user_bounds)
  then have "int (unat base) < int (2 ^ 63)" by (simp only: of_nat_less_iff)
  then have "uint base < 2 ^ 63" by (simp only: uint_nat of_nat_power of_nat_numeral)
  then have "uint base div 2 ^ 63 = 0" by (intro div_pos_pos_trivial) simp_all
  then have "\<not> bit (uint base) 63" by (simp add: bit_iff_odd)
  then show "\<not> base <s 0" by (simp add: word_sless_alt not_less sint_uint signed_take_bit_nonnegative_iff)
qed

text \<open>A page that is mapped takes another store.\<close>

lemma store_again:
  fixes s :: "'a PS_GLOBALS_scheme"
  assumes "maps_page mc lvl s a va b pa" "t = s\<lparr>hw_mem := with_byte (pa + (va AND 0xFFF)) v (hw_mem s)\<rparr>"
  shows "cpu_st mc va v s = Some t" "maps_page mc lvl s a va' c q \<Longrightarrow> maps_page mc lvl t a va' c q"
    "pte_at s a va' c \<Longrightarrow> pte_at t a va' c \<and> hw_mem t (slot c (walk_index va' 3)) = hw_mem s (slot c (walk_index va' 3))"
    "pte_at s a va' c \<Longrightarrow> mmu_walk_writable 3 0 va' (as_root t a) t = mmu_walk_writable 3 0 va' (as_root s a) s"
  using maps_page_st [OF cpu_access_resident [OF maps_page_mmu(2) [OF assms(1)]] assms] by blast+

text \<open>The lazy mapping test of the kernel passes.  In a process with room for a region, a free page and a page table for
  it, the test maps a page through the system call, stores its first and its last byte, of which the first faults, dumps the
  translation and the recent faults, and returns success.\<close>

theorem KeTestVmLazy_passes:
  assumes "lazy_room lvl s a base" and "0 < free_pages s" and "pte_at s a base b" and "mmu_translate base s = None"
    and "mc_wp (pf_machine pf) \<longrightarrow> mmu_walk_writable 3 0 base (as_root s a) s"
  shows "\<exists>y. KeTestVmLazy pf (s, tb, cd) = Some (kstatus_u32 KSTATUS_SUCCESS, y)"
proof -
  let ?mc = "pf_machine pf" and ?g = "lazy_region base" and ?s = "with_region a (lazy_region base) s" and ?r = "rcount (gMmAddressSpacePool s a)"
  note call = map_memory_call [OF assms(1)]
  have room: "runs_in lvl s a" "?r < 128" "as_NextUserBase (gMmAddressSpacePool s a) = base" "unat base + 4096 \<le> unat MM_USER_TOP"
    using assms(1) by (simp_all add: lazy_room_def)
  obtain p where p: "PsGetCurrentProcess s = Some p" "pr_AddressSpaceRoot (gPsProcessPool s p) = Some a"
    using room(1) by (auto simp: runs_in_def current_space_def split: option.splits)
  have al: "page_aligned base"
    using room(1,3) by (auto simp: runs_in_def regions_wf_def page_aligned_def MM_PAGE_SIZE_def unat_mod_distrib simp flip: unat_eq_zero)
  note pe = page_end [OF al room(4), of "0xFFF", simplified]
  have g: "?g = region (gMmAddressSpacePool ?s a) ?r" "?r < rcount (gMmAddressSpacePool ?s a)" "in_region (gMmAddressSpacePool ?s a) ?r base"
    using room(2) by (simp_all add: with_region_def in_region_def unat_word_ariths) (simp_all add: lazy_region_def)
  have w: "reg_Type ?g = MM_REGION_TYPE_ANON" "writable_region ?g"
    by (simp_all add: lazy_region_def writable_region_def has_bits_def MM_REGION_FLAG_GUARD_def MM_REGION_FLAG_LAZY_def MM_REGION_FLAG_COW_def
        MM_PROT_READ_def MM_PROT_WRITE_def MM_PROT_USER_def)
  obtain t lvl' pa where t: "cpu_st ?mc base 0x5A ?s = Some t" "fault_frame a ?r ?s t" and m: "maps_page ?mc lvl' t a base b pa"
    and _: "\<forall>x. byte_at (pa + (x AND 0xFFF)) (hw_mem t) = (if x AND 0xFFF = base AND 0xFFF then 0x5A else 0)"
    by (rule lazy_store [OF call(2) g(2,3,1) w, where mc = ?mc and b = b and v = "0x5A"]) (use assms(2-5) in simp_all)
  have "MmpAlignDown (base + 0xFFF) MM_PAGE_SIZE = MmpAlignDown base MM_PAGE_SIZE" using pe(1) .
  note st = store_again(1) [OF maps_page_same [OF m this] refl, of "0xA5"]
  have pr: "gPsProcessPool t = gPsProcessPool s" using t(2) by (auto simp: fault_frame_def with_region_def)
  obtain l1 l2 where "MmDumpAddressTranslation (Some (as_RootTablePhysical (gMmAddressSpacePool t a))) base
      (t\<lparr>hw_mem := with_byte (pa + ((base + 0xFFF) AND 0xFFF)) 0xA5 (hw_mem t)\<rparr>) = Some l1"
    "MmDumpRecentFaults (t\<lparr>hw_mem := with_byte (pa + ((base + 0xFFF) AND 0xFFF)) 0xA5 (hw_mem t)\<rparr>) = Some l2"
    using dump_translation_total dump_faults_total by metis
  moreover have "KeInvokeSyscall pf 4 MM_PAGE_SIZE 0 0 0 0 0 (s, tb, cd) = Some (base, ?s, tb, cd)"
    using call(1) by (simp add: KeInvokeSyscall_def KiDispatchSystemCall_def syscall_of_def syscall_numbers_def lift_kernel_def)
  ultimately show ?thesis using p t(1) st pe(3) pr by (simp add: KeTestVmLazy_def MM_PAGE_SIZE_def)
qed

text \<open>Two page-aligned views of a page of a section agree on everything the section test stores through one and reads through the
  other.\<close>

lemma shows_page_mem: "shows_page (s\<lparr>hw_mem := m\<rparr>) a r va sec i = shows_page s a r va sec i"
  by (simp add: shows_page_def MmpFindSectionByHeader_def)

theorem section_probe_agrees:
  fixes s :: "'a PS_GLOBALS_scheme"
  assumes "runs_in lvl s a" and "section_page lvl s sec i pa" and "shows_page s a r A sec i" and "shows_page s a r' B sec i"
    and "page_aligned A" and "page_aligned B" and "unat A + 4096 \<le> unat MM_USER_TOP" and "unat B + 4096 \<le> unat MM_USER_TOP"
    and "pte_at s a A b" and "mmu_translate A s = None" and "pte_at s a B b'" and "mmu_translate B s = None"
    and "mc_wp mc \<longrightarrow> mmu_walk_writable 3 0 A (as_root s a) s \<and> mmu_walk_writable 3 0 B (as_root s a) s"
  shows "\<exists>t. section_probe mc A B s = Some (True, t)"
proof -
  note A = page_end [OF assms(5,7)] and B = page_end [OF assms(6,8)]
  have off: "A AND 0xFFF = 0" "B AND 0xFFF = 0" using A(2) [of 0] B(2) [of 0] by simp_all
  obtain t lvl1 where t: "cpu_st mc A 0x34 s = Some t" "maps_page mc lvl1 t a A b pa" "section_page lvl1 t sec i pa" "shows_page t a r' B sec i"
    "pte_at t a B b'" and p: "has_flag (hw_mem t (slot b' (walk_index B 3))) MM_PTE_PRESENT \<Longrightarrow> maps_page mc lvl1 t a B b' pa"
    and w: "mc_wp mc \<longrightarrow> mmu_walk_writable 3 0 B (as_root t a) t" and v: "byte_at (pa + (A AND 0xFFF)) (hw_mem t) = 0x34"
    by (rule first_view [OF assms(1-4,9-13), where v = "0x34"]) blast
  define t2 where "t2 = t\<lparr>hw_mem := with_byte (pa + ((A + 1) AND 0xFFF)) 0x12 (hw_mem t)\<rparr>"
  note st2 = store_again [OF maps_page_same [OF t(2) A(1) [of 1]] t2_def, simplified]
  have v2: "byte_at pa (hw_mem t2) = 0x34" "byte_at (pa + 1) (hw_mem t2) = 0x12"
    using v off A(2) [of 1] by (simp_all add: t2_def byte_at_with)
  have sp2: "section_page lvl1 t2 sec i pa" "shows_page t2 a r' B sec i"
    using t(3,4) by (simp_all add: t2_def section_page_def page_alloc_def shows_page_mem)
  have p2: "has_flag (hw_mem t2 (slot b' (walk_index B 3))) MM_PTE_PRESENT \<Longrightarrow> maps_page mc lvl1 t2 a B b' pa"
    using p st2(2) st2(3) [OF t(5)] by simp
  have w2: "mc_wp mc \<longrightarrow> mmu_walk_writable 3 0 B (as_root t2 a) t2" using w st2(4) [OF t(5)] by simp
  obtain u lvl2 where u: "cpu_ld mc B t2 = Some (byte_at (pa + (B AND 0xFFF)) (hw_mem t2), u)" "maps_page mc lvl2 u a A b pa"
    "maps_page mc lvl2 u a B b' pa" "\<forall>x. byte_at (pa + (x AND 0xFFF)) (hw_mem u) = byte_at (pa + (x AND 0xFFF)) (hw_mem t2)"
    by (rule second_view [OF st2(2) [OF t(2)] sp2 conjunct1 [OF st2(3) [OF t(5)]] p2 w2])
  have l1: "cpu_ld mc (B + 1) u = Some (0x12, u)"
    using maps_page_ld [OF maps_page_same [OF u(3) B(1) [of 1]]] B(2) [of 1] v2(2) spec [OF u(4), of 1] by simp
  define x where "x = u\<lparr>hw_mem := with_byte (pa + ((B + 0xFFF) AND 0xFFF)) 0xA7 (hw_mem u)\<rparr>"
  note st3 = store_again [OF maps_page_same [OF u(3) B(1) [of "0xFFF"]] x_def, simplified]
  have "cpu_ld mc (A + 0xFFF) x = Some (0xA7, x)"
    using maps_page_ld [OF maps_page_same [OF st3(2) [OF u(2)] A(1) [of "0xFFF"]]] A(2) [of "0xFFF"] B(2) [of "0xFFF"]
    by (simp add: x_def byte_at_with)
  then show ?thesis
    using t(1) st2(1) u(1) l1 st3(1) off v2(1) by (simp add: section_probe_def MM_PAGE_SIZE_def)
qed

end
