(* ===== verification/NtxBoot.thy ===== *)
theory NtxBoot
  imports NtxKpe
begin

text \<open>
  The UEFI boot loader, \<^verbatim>\<open>boot/uefi/bootx64.c\<close>: validation and loading of the kernel image, the memory
  map snapshot, the boot information block and the exit from boot services, with the memory helpers
  of \<^verbatim>\<open>boot/uefi/efistub.c\<close>.

  The firmware is not part of the program: its services are arguments.  Page and pool allocation, the
  memory map and \<^verbatim>\<open>ExitBootServices\<close> act on a firmware state \<open>'fw\<close> about which nothing is assumed
  unless a theorem says so.  Memory is a function from addresses to bytes; files are byte lists, held
  in pool memory apart from the image.  Console and serial output and the splash screen are omitted.
\<close>

section \<open>Definitions\<close>

type_synonym EFI_STATUS = u64
type_synonym byte_mem = "u64 \<Rightarrow> u8"

definition EFI_SUCCESS :: EFI_STATUS where "EFI_SUCCESS = 0"
definition EFI_LOAD_ERROR :: EFI_STATUS where "EFI_LOAD_ERROR = 0x8000000000000001"
definition EFI_INVALID_PARAMETER :: EFI_STATUS where "EFI_INVALID_PARAMETER = 0x8000000000000002"
definition EFI_UNSUPPORTED :: EFI_STATUS where "EFI_UNSUPPORTED = 0x8000000000000003"
definition EFI_BUFFER_TOO_SMALL :: EFI_STATUS where "EFI_BUFFER_TOO_SMALL = 0x8000000000000005"
definition EFI_OUT_OF_RESOURCES :: EFI_STATUS where "EFI_OUT_OF_RESOURCES = 0x8000000000000009"

definition EFI_ERROR :: "EFI_STATUS \<Rightarrow> bool" where
  "EFI_ERROR Status \<longleftrightarrow> Status AND 0x8000000000000000 \<noteq> 0"

definition EFI_SIZE_TO_PAGES :: "u64 \<Rightarrow> u64" where "EFI_SIZE_TO_PAGES Size = drop_bit 12 (Size + 0xFFF)"
definition EFI_PAGES_TO_SIZE :: "u64 \<Rightarrow> u64" where "EFI_PAGES_TO_SIZE Pages = push_bit 12 Pages"

datatype EFI_ALLOCATE_TYPE = AllocateAnyPages | AllocateMaxAddress | AllocateAddress | MaxAllocateType

subsection \<open>Memory helpers\<close>

fun SetMem_loop :: "u64 \<Rightarrow> nat \<Rightarrow> u8 \<Rightarrow> u64 \<Rightarrow> byte_mem \<Rightarrow> byte_mem" where
  "SetMem_loop Dst 0 Value Index m = m"
| "SetMem_loop Dst (Suc k) Value Index m = SetMem_loop Dst k Value (Index + 1) (m(Dst + Index := Value))"

definition SetMem :: "u64 \<Rightarrow> u64 \<Rightarrow> u8 \<Rightarrow> byte_mem \<Rightarrow> byte_mem" where
  "SetMem Buffer Size Value m = SetMem_loop Buffer (unat Size) Value 0 m"

text \<open>\<^verbatim>\<open>CopyMem\<close> from a file buffer, given by the bytes from the source pointer on.\<close>

fun CopyMem_loop :: "u64 \<Rightarrow> nat \<Rightarrow> u8 list \<Rightarrow> u64 \<Rightarrow> byte_mem \<Rightarrow> byte_mem" where
  "CopyMem_loop Dst 0 Src Index m = m"
| "CopyMem_loop Dst (Suc k) Src Index m = CopyMem_loop Dst k Src (Index + 1) (m(Dst + Index := Src ! unat Index))"

definition CopyMem :: "u64 \<Rightarrow> u8 list \<Rightarrow> u64 \<Rightarrow> byte_mem \<Rightarrow> byte_mem" where
  "CopyMem Destination Source Size m = CopyMem_loop Destination (unat Size) Source 0 m"

definition AlignUp64 :: "u64 \<Rightarrow> u64 \<Rightarrow> u64" where
  "AlignUp64 Value Alignment = (if Alignment = 0 then Value else (Value + Alignment - 1) AND NOT (Alignment - 1))"

definition FileRangeValid :: "u64 \<Rightarrow> u64 \<Rightarrow> u64 \<Rightarrow> bool" where
  "FileRangeValid FileSize Offset Size = (if Offset > FileSize then False else if Size > FileSize - Offset then False else True)"

subsection \<open>Image loading\<close>

definition section_valid :: "u64 \<Rightarrow> KPE_NT_HEADERS64 \<Rightarrow> KPE_SECTION_HEADER \<Rightarrow> bool" where
  "section_valid ImageFileSize Nt Section =
     (let opt = nt_OptionalHeader Nt in
      if sh_VirtualAddress Section \<ge> opt_SizeOfImage opt then False
      else
        let VirtualSpan = AlignUp64 (ucast (sh_VirtualSize Section)) (ucast (opt_SectionAlignment opt)) in
        if ucast (sh_VirtualAddress Section) + VirtualSpan > ucast (opt_SizeOfImage opt) then False
        else if sh_SizeOfRawData Section = 0 then True
        else FileRangeValid ImageFileSize (ucast (sh_PointerToRawData Section)) (ucast (sh_SizeOfRawData Section)))"

definition ValidateKpeImage :: "u8 list \<Rightarrow> (KPE_NT_HEADERS64 \<times> KPE_SECTION_HEADER list) option" where
  "ValidateKpeImage f =
     (if length f < sizeof_KPE_DOS_HEADER then None
      else
        let Dos = read_dos_header f 0 in
        if dos_e_magic Dos \<noteq> KPE_DOS_MAGIC then None
        else if unat (dos_e_lfanew Dos) + sizeof_KPE_NT_HEADERS64 > length f then None
        else
          let Nt = read_nt_headers f (unat (dos_e_lfanew Dos)); fh = nt_FileHeader Nt; opt = nt_OptionalHeader Nt in
          if nt_Signature Nt \<noteq> KPE_SIGNATURE then None
          else if fh_Machine fh \<noteq> KPE_MACHINE_AUR64 then None
          else if fh_NumberOfSections fh = 0 then None
          else if unat (fh_SizeOfOptionalHeader fh) < sizeof_KPE_OPTIONAL_HEADER64 then None
          else if opt_Magic opt \<noteq> KPE_OPT_MAGIC_AUR64 then None
          else if opt_Subsystem opt \<noteq> KPE_SUBSYSTEM_NATIVE_KERNEL then None
          else if opt_SectionAlignment opt = 0 \<or> opt_FileAlignment opt = 0 then None
          else if opt_AddressOfEntryPoint opt \<ge> opt_SizeOfImage opt then None
          else if opt_NumberOfRvaAndSizes opt > KPE_NUMBEROF_DIRECTORY_ENTRIES then None
          else
            let SectionTableOffset = unat (dos_e_lfanew Dos) + 4 + sizeof_KPE_FILE_HEADER + unat (fh_SizeOfOptionalHeader fh) in
            if SectionTableOffset + unat (fh_NumberOfSections fh) * sizeof_KPE_SECTION_HEADER > length f then None
            else
              let Sections = map (\<lambda>Index. read_section_header f (SectionTableOffset + Index * sizeof_KPE_SECTION_HEADER))
                               [0..<unat (fh_NumberOfSections fh)] in
              if list_all (section_valid (of_nat (length f)) Nt) Sections then Some (Nt, Sections) else None)"

definition ImageRvaToPointer :: "u64 \<Rightarrow> u64 \<Rightarrow> u32 \<Rightarrow> u32 \<Rightarrow> u64 option" where
  "ImageRvaToPointer ImageBase ImageSize Rva Size =
     (let End = (ucast Rva :: u64) + ucast Size in if End > ImageSize then None else Some (ImageBase + ucast Rva))"

definition boot_ld :: "byte_mem \<Rightarrow> u64 \<Rightarrow> u8 option" where
  "boot_ld m a = Some (m a)"

definition boot_st :: "u64 \<Rightarrow> u8 \<Rightarrow> byte_mem \<Rightarrow> byte_mem option" where
  "boot_st a b m = Some (m(a := b))"

definition ApplyKpeBaseRelocations ::
    "u64 \<Rightarrow> KPE_NT_HEADERS64 option \<Rightarrow> byte_mem \<Rightarrow> (EFI_STATUS \<times> byte_mem) option" where
  "ApplyKpeBaseRelocations LoadedImageBase NtPtr m =
     (case NtPtr of
        None \<Rightarrow> Some (EFI_INVALID_PARAMETER, m)
      | Some Nt \<Rightarrow>
          let Delta = LoadedImageBase - opt_ImageBase (nt_OptionalHeader Nt) in
          if Delta = 0 then Some (EFI_SUCCESS, m)
          else
            let RelocDir = opt_DataDirectory (nt_OptionalHeader Nt) ! KPE_DIR_BASERELOC in
            if dd_VirtualAddress RelocDir = 0 \<or> dd_Size RelocDir < 8 then Some (EFI_UNSUPPORTED, m)
            else case ImageRvaToPointer LoadedImageBase (ucast (opt_SizeOfImage (nt_OptionalHeader Nt)))
                        (dd_VirtualAddress RelocDir) (dd_Size RelocDir) of
              None \<Rightarrow> Some (EFI_LOAD_ERROR, m)
            | Some Cursor \<Rightarrow>
                reloc_blocks boot_ld boot_st (\<lambda>_. True) EFI_SUCCESS EFI_LOAD_ERROR EFI_UNSUPPORTED EFI_LOAD_ERROR
                  LoadedImageBase (opt_SizeOfImage (nt_OptionalHeader Nt)) Delta (Cursor + ucast (dd_Size RelocDir)) Cursor m)"

fun load_sections :: "u8 list \<Rightarrow> u64 \<Rightarrow> KPE_SECTION_HEADER list \<Rightarrow> byte_mem \<Rightarrow> byte_mem" where
  "load_sections f ImageBase [] m = m"
| "load_sections f ImageBase (Section # Sections) m =
     (let Dest = ImageBase + ucast (sh_VirtualAddress Section);
          CopySize = sh_SizeOfRawData Section;
          m1 = (if CopySize > 0 then CopyMem Dest (drop (unat (sh_PointerToRawData Section)) f) (ucast CopySize) m else m);
          ClearSize = (if sh_VirtualSize Section > CopySize then sh_VirtualSize Section - CopySize else 0);
          m2 = (if ClearSize > 0 then SetMem (Dest + ucast CopySize) (ucast ClearSize) 0 m1 else m1)
      in load_sections f ImageBase Sections m2)"

text \<open>\<open>AllocatePages type pages base\<close>: the status and the base of the pages, by the firmware.  The result
  on success: image base, image size, entry address, relocation delta.\<close>

definition LoadKpeImage ::
    "(EFI_ALLOCATE_TYPE \<Rightarrow> u64 \<Rightarrow> u64 \<Rightarrow> EFI_STATUS \<times> u64) \<Rightarrow> u8 list \<Rightarrow> byte_mem \<Rightarrow>
     ((EFI_STATUS + u64 \<times> u64 \<times> u64 \<times> u64) \<times> byte_mem) option" where
  "LoadKpeImage AllocatePages f m =
     (case ValidateKpeImage f of
        None \<Rightarrow> Some (Inl EFI_LOAD_ERROR, m)
      | Some (Nt, Sections) \<Rightarrow>
          let opt = nt_OptionalHeader Nt;
              Pages = EFI_SIZE_TO_PAGES (ucast (opt_SizeOfImage opt));
              (Status, ImageBase) = AllocatePages AllocateAddress Pages (opt_ImageBase opt);
              (Status, ImageBase) =
                (if EFI_ERROR Status \<and> (opt_DllCharacteristics opt AND KPE_DLLCHAR_DYNAMIC_BASE) \<noteq> 0
                 then AllocatePages AllocateAnyPages Pages 0 else (Status, ImageBase))
          in if EFI_ERROR Status then Some (Inl Status, m)
             else
               let m1 = SetMem ImageBase (ucast (opt_SizeOfImage opt)) 0 m;
                   m2 = (if opt_SizeOfHeaders opt > 0
                         then CopyMem ImageBase f
                                (if ucast (opt_SizeOfHeaders opt) > (of_nat (length f) :: u64) then of_nat (length f)
                                 else ucast (opt_SizeOfHeaders opt)) m1
                         else m1);
                   m3 = load_sections f ImageBase Sections m2
               in do {
                 (Status, m4) \<leftarrow> ApplyKpeBaseRelocations ImageBase (Some Nt) m3;
                 Some (if EFI_ERROR Status then (Inl Status, m4)
                       else (Inr (ImageBase, ucast (opt_SizeOfImage opt), ImageBase + ucast (opt_AddressOfEntryPoint opt),
                                  ImageBase - opt_ImageBase opt), m4)) })"

section \<open>Filling, copying and loading\<close>

lemma unat_step: "unat (i :: u64) + Suc k < 2 ^ 64 \<Longrightarrow> unat (i + 1) = Suc (unat i)"
  by (simp add: unat_word_ariths)

lemma at_offset: "(a :: u64) = D + i \<longleftrightarrow> unat (a - D) = unat i"
proof -
  have "a = D + i \<longleftrightarrow> a - D = i" by (auto simp: algebra_simps)
  then show ?thesis by (simp add: word_eq_iff_unsigned [where 'a = nat])
qed

lemma SetMem_loop_eq:
  "unat i + k < 2 ^ 64 \<Longrightarrow> SetMem_loop D k V i m a = (if unat i \<le> unat (a - D) \<and> unat (a - D) < unat i + k then V else m a)"
proof (induction k arbitrary: i m)
  case (Suc k)
  then show ?case using unat_step [of i k] at_offset [of a D i] by (auto simp: le_eq_less_or_eq Suc_le_eq)
qed auto

lemma SetMem_eq: "SetMem D S V m a = (if unat (a - D) < unat S then V else m a)"
  using SetMem_loop_eq [of 0 "unat S" D V m a] unsigned_less [of S, where 'a = nat] by (simp add: SetMem_def)

lemma CopyMem_loop_eq:
  "unat i + k < 2 ^ 64 \<Longrightarrow>
   CopyMem_loop D k src i m a = (if unat i \<le> unat (a - D) \<and> unat (a - D) < unat i + k then src ! unat (a - D) else m a)"
proof (induction k arbitrary: i m)
  case (Suc k)
  then show ?case using unat_step [of i k] at_offset [of a D i] by (auto simp: le_eq_less_or_eq Suc_le_eq)
qed auto

lemma CopyMem_eq: "CopyMem D src S m a = (if unat (a - D) < unat S then src ! unat (a - D) else m a)"
  using CopyMem_loop_eq [of 0 "unat S" D src m a] unsigned_less [of S, where 'a = nat] by (simp add: CopyMem_def)

text \<open>A byte of a loaded image and where it lies relative to a section.\<close>

definition in_section :: "u64 \<Rightarrow> KPE_SECTION_HEADER \<Rightarrow> u64 \<Rightarrow> bool" where
  "in_section Base sec a \<longleftrightarrow> unat (a - (Base + ucast (sh_VirtualAddress sec))) < max (unat (sh_SizeOfRawData sec)) (unat (sh_VirtualSize sec))"

definition section_byte :: "u8 list \<Rightarrow> u64 \<Rightarrow> KPE_SECTION_HEADER \<Rightarrow> u64 \<Rightarrow> u8" where
  "section_byte f Base sec a =
     (let k = unat (a - (Base + ucast (sh_VirtualAddress sec))) in
      if k < unat (sh_SizeOfRawData sec) then f ! (unat (sh_PointerToRawData sec) + k) else 0)"

definition raw_in_file :: "u8 list \<Rightarrow> KPE_SECTION_HEADER \<Rightarrow> bool" where
  "raw_in_file f sec \<longleftrightarrow> sh_SizeOfRawData sec = 0 \<or> unat (sh_PointerToRawData sec) + unat (sh_SizeOfRawData sec) \<le> length f"

lemma clear_offset:
  fixes x :: u64 and c :: u32
  assumes "unat c \<le> unat x"
  shows "unat (x - ucast c) = unat x - unat c"
  using assms by (simp add: unat_sub word_le_nat_alt)

lemma wrap_offset:
  fixes x :: u64 and c :: u32
  assumes "unat x < unat c"
  shows "unat (x - ucast c) = 2 ^ 64 + unat x - unat c"
  using assms by (simp add: unat_sub_if')

lemma u32_gt0: "(c :: u32) > 0 \<longleftrightarrow> unat c > 0" "(v :: u32) > c \<Longrightarrow> unat (v - c) = unat v - unat c"
  by (simp_all add: word_less_nat_alt unat_sub word_le_nat_alt less_imp_le)

lemma load_section_byte:
  assumes "raw_in_file f sec"
  shows "load_sections f Base [sec] m a = (if in_section Base sec a then section_byte f Base sec a else m a)"
proof -
  let ?d = "Base + ucast (sh_VirtualAddress sec)" and ?c = "sh_SizeOfRawData sec" and ?v = "sh_VirtualSize sec"
  let ?k = "unat (a - ?d)"
  define m1 where "m1 = (if ?c > 0 then CopyMem ?d (drop (unat (sh_PointerToRawData sec)) f) (ucast ?c) m else m)"
  have m1: "m1 a = (if ?k < unat ?c then f ! (unat (sh_PointerToRawData sec) + ?k) else m a)"
    using assms by (auto simp: m1_def CopyMem_eq u32_gt0 raw_in_file_def)
  have off: "unat (a - (?d + ucast ?c)) = ?k - unat ?c" if "unat ?c \<le> ?k"
    using clear_offset [of ?c "a - ?d"] that by (simp add: diff_diff_eq)
  have far: "unat ?v - unat ?c \<le> unat (a - (?d + ucast ?c))" if "?k < unat ?c" "unat ?c < unat ?v"
  proof -
    have "unat (a - (?d + ucast ?c)) = 2 ^ 64 + ?k - unat ?c"
      using wrap_offset [OF that(1)] by (simp only: diff_diff_eq)
    then show ?thesis using unsigned_less [of ?v, where 'a = nat] by simp
  qed
  have "load_sections f Base [sec] m a = (if ?v > ?c then SetMem (?d + ucast ?c) (ucast (?v - ?c)) 0 m1 a else m1 a)"
    by (auto simp: Let_def m1_def word_neq_0_conv [symmetric])
  also have "\<dots> = (if unat ?c \<le> ?k \<and> ?k < unat ?v then 0 else m1 a)"
    using off far by (auto simp: SetMem_eq u32_gt0 word_less_nat_alt)
  finally show ?thesis by (auto simp: m1 in_section_def section_byte_def Let_def max_def)
qed

lemma load_sections_Cons: "load_sections f Base (sec # secs) m = load_sections f Base secs (load_sections f Base [sec] m)"
  by (simp add: Let_def)

lemma load_sections_append: "load_sections f Base (xs @ ys) m = load_sections f Base ys (load_sections f Base xs m)"
  by (induction xs arbitrary: m) (simp_all add: Let_def)

text \<open>Bytes outside every section keep their value, and a section no later section overlaps is in place.\<close>

lemma load_sections_frame:
  "\<forall>sec\<in>set secs. raw_in_file f sec \<Longrightarrow> \<forall>sec\<in>set secs. \<not> in_section Base sec a \<Longrightarrow> load_sections f Base secs m a = m a"
proof (induction secs arbitrary: m)
  case (Cons sec secs)
  then show ?case
    using load_section_byte [of f sec Base m a] by (subst load_sections_Cons) (simp del: load_sections.simps(2))
qed simp

lemma load_sections_byte:
  assumes "\<forall>sec\<in>set secs. raw_in_file f sec" "i < length secs" "in_section Base (secs ! i) a"
    "\<And>j. i < j \<Longrightarrow> j < length secs \<Longrightarrow> \<not> in_section Base (secs ! j) a"
  shows "load_sections f Base secs m a = section_byte f Base (secs ! i) a"
proof -
  have "secs = take i secs @ secs ! i # drop (Suc i) secs" using assms(2) by (rule id_take_nth_drop)
  then obtain m1 where m1: "load_sections f Base secs m = load_sections f Base (secs ! i # drop (Suc i) secs) m1"
    using load_sections_append by metis
  have "\<forall>sec\<in>set (drop (Suc i) secs). \<not> in_section Base sec a"
    using assms(4) by (auto simp: in_set_conv_nth)
  moreover have "\<forall>sec\<in>set (drop (Suc i) secs). raw_in_file f sec" "raw_in_file f (secs ! i)"
    using assms(1,2) by (auto dest: in_set_dropD)
  ultimately show ?thesis
    using m1 assms(3) load_sections_frame [of "drop (Suc i) secs" f Base a] load_section_byte [of f "secs ! i" Base m1 a]
    by (simp add: load_sections_Cons [of f Base "secs ! i" "drop (Suc i) secs"] del: load_sections.simps(2))
qed

section \<open>Relocation ends\<close>

lemma read_bytes_boot: "\<exists>bs. read_bytes boot_ld n a m = Some bs"
  by (induction n arbitrary: a) (simp_all add: boot_ld_def, metis bind.bind_lunit)

lemma mem_read_boot: "\<exists>v. mem_read boot_ld n a m = Some v"
  using read_bytes_boot [of n a m] by (auto simp: mem_read_def)

lemma write_bytes_boot: "\<exists>m'. write_bytes boot_st bs a m = Some m'"
  by (induction bs arbitrary: a m) (simp_all add: boot_st_def)

lemma reloc_entries_boot: "\<exists>r m'. reloc_entries boot_ld boot_st ty rv B S D C k i m = Some (r, m')"
proof (induction k arbitrary: i m)
  case (Suc k)
  obtain e :: u16 where e: "mem_read boot_ld 2 (C + 8 + 2 * of_nat i) m = Some e" using mem_read_boot by blast
  obtain va :: u32 where va: "mem_read boot_ld 4 C m = Some va" using mem_read_boot by blast
  define p where "p = va + ucast (e AND 0x0FFF)"
  obtain v :: u64 where v: "mem_read boot_ld 8 (B + ucast p) m = Some v" using mem_read_boot by blast
  obtain m1 where "write_bytes boot_st (le_bytes 8 (v + D)) (B + ucast p) m = Some m1" using write_bytes_boot by blast
  with e va v Suc.IH [of "Suc i" m] Suc.IH [of "Suc i" m1] show ?case by (simp add: Let_def p_def)
qed simp

lemma reloc_blocks_boot:
  assumes "unat End + 2 ^ 33 \<le> 2 ^ 64" "unat C \<le> unat End + 2 ^ 32"
  shows "\<exists>r. reloc_blocks boot_ld boot_st ok s1 s2 s3 s4 B S D End C m = Some r"
  using assms(2)
proof (induction "unat End + 2 ^ 32 - unat C" arbitrary: C m rule: less_induct)
  case less
  show ?case
  proof (cases "C + 8 \<le> End")
    case True
    obtain va :: u32 where va: "mem_read boot_ld 4 C m = Some va" using mem_read_boot by blast
    obtain sz :: u32 where sz: "mem_read boot_ld 4 (C + 4) m = Some sz" using mem_read_boot by blast
    obtain r m1 where e: "reloc_entries boot_ld boot_st s3 s4 B S D C (unat ((sz - 8) div 2)) 0 m = Some (r, m1)"
      using reloc_entries_boot [of s3 s4 B S D C "unat ((sz - 8) div 2)" 0 m] by blast
    obtain nx :: u32 where nx: "mem_read boot_ld 4 (C + 4) m1 = Some nx" using mem_read_boot by blast
    have c: "unat C + 8 \<le> unat End"
      using True assms(1) less.prems by (simp add: word_le_nat_alt unat_word_ariths)
    have x: "unat nx < 2 ^ 32" using unsigned_less [of nx, where 'a = nat] by simp
    have u: "unat (C + ucast nx) = unat C + unat nx" using c x assms(1) by (simp add: unat_word_ariths)
    have "\<exists>r. reloc_blocks boot_ld boot_st ok s1 s2 s3 s4 B S D End (C + ucast nx) m1 = Some r"
    proof (cases "nx = 0")
      case True
      obtain va' :: u32 where "mem_read boot_ld 4 C m1 = Some va'" using mem_read_boot by blast
      with nx True show ?thesis by (subst reloc_blocks.simps) simp
    next
      case False
      then have "0 < unat nx" by (simp add: unat_gt_0)
      then show ?thesis using less.hyps [of "C + ucast nx" m1] c x by (simp add: u)
    qed
    then show ?thesis
      by (subst reloc_blocks.simps) (auto simp: va sz e nx split: option.splits)
  qed (simp add: reloc_blocks.simps)
qed

section \<open>What validation establishes\<close>

lemma FileRangeValid_iff: "FileRangeValid sz off n \<longleftrightarrow> unat off + unat n \<le> unat sz"
  by (auto simp: FileRangeValid_def word_less_nat_alt unat_sub word_le_nat_alt not_less)

text \<open>Rounding up never goes below the value, also for an alignment that is not a power of two: clearing the bits of \<open>al - 1\<close> takes away at most
  \<open>al - 1\<close>.\<close>

lemma AlignUp64_bounds:
  fixes v :: u32 and al :: u32
  shows "unat v \<le> unat (AlignUp64 (ucast v) (ucast al))" "unat (AlignUp64 (ucast v) (ucast al)) < 2 ^ 33"
proof -
  define x m where "x = (ucast v :: u64) + ucast al - 1" and "m = (ucast al :: u64) - 1"
  have lt: "unat v < 2 ^ 32" "unat al < 2 ^ 32" using unsigned_less [of v, where 'a = nat] unsigned_less [of al, where 'a = nat] by simp_all
  have "unat v \<le> unat (AlignUp64 (ucast v) (ucast al)) \<and> unat (AlignUp64 (ucast v) (ucast al)) < 2 ^ 33"
  proof (cases "al = 0")
    case False
    then have "0 < unat al" by (simp add: unat_gt_0)
    then have nz: "(ucast al :: u64) \<noteq> 0" "0 < unat al" by (auto simp flip: unat_eq_zero)
    have m: "unat m = unat al - 1" using nz by (simp add: m_def unat_minus_one)
    have "unat ((ucast v :: u64) + ucast al) = unat v + unat al" using lt by (simp add: unat_word_ariths)
    then have x: "unat x = unat v + unat al - 1"
      using nz by (auto simp: x_def unat_minus_one unat_eq_zero [symmetric])
    have "NOT x AND (x AND m) = 0" "x AND NOT (x AND m) = x AND NOT m" by (auto intro: bit_eqI simp: bit_simps)
    then have e: "x AND NOT m = x - (x AND m)" using disjunctive_diff_eq_and_not [of x "x AND m"] by simp
    have "x AND m \<le> x" "x AND m \<le> m" by (simp_all add: word_and_le1 word_and_le2)
    then have "unat (x AND NOT m) = unat x - unat (x AND m)" "unat (x AND m) \<le> unat m"
      by (simp_all add: e unat_sub word_le_nat_alt)
    with x m nz lt have "unat v \<le> unat (x AND NOT m)" "unat (x AND NOT m) < 2 ^ 33" by simp_all
    then show ?thesis using nz by (simp add: AlignUp64_def x_def m_def)
  qed (use lt in \<open>simp add: AlignUp64_def\<close>)
  then show "unat v \<le> unat (AlignUp64 (ucast v) (ucast al))" "unat (AlignUp64 (ucast v) (ucast al)) < 2 ^ 33" by simp_all
qed

lemma ValidateKpeImage_SomeD:
  assumes "ValidateKpeImage f = Some (Nt, secs)" "length f < 2 ^ 64"
  shows "Nt = nt_of f" "secs = map (section_of f) [0..<section_count f]" "secs \<noteq> []"
    "nt_offset f + sizeof_KPE_NT_HEADERS64 \<le> length f"
    "section_table_offset f + section_count f * sizeof_KPE_SECTION_HEADER \<le> length f"
    "opt_AddressOfEntryPoint (nt_OptionalHeader Nt) < opt_SizeOfImage (nt_OptionalHeader Nt)"
    "\<forall>sec\<in>set secs. section_valid (of_nat (length f)) Nt sec" "\<forall>sec\<in>set secs. raw_in_file f sec"
proof -
  show v: "Nt = nt_of f" "secs = map (section_of f) [0..<section_count f]" "secs \<noteq> []"
    "nt_offset f + sizeof_KPE_NT_HEADERS64 \<le> length f"
    "section_table_offset f + section_count f * sizeof_KPE_SECTION_HEADER \<le> length f"
    "opt_AddressOfEntryPoint (nt_OptionalHeader Nt) < opt_SizeOfImage (nt_OptionalHeader Nt)"
    "\<forall>sec\<in>set secs. section_valid (of_nat (length f)) Nt sec"
    using assms(1)
    by (auto simp: ValidateKpeImage_def Let_def nt_of_def nt_offset_def section_of_def section_count_def section_table_offset_def
        list_all_iff unat_eq_zero split: if_splits)
  have "unat (of_nat (length f) :: u64) = length f" using assms(2) by (simp add: unsigned_of_nat take_bit_nat_eq_self)
  with v(7) show "\<forall>sec\<in>set secs. raw_in_file f sec"
    by (auto simp: section_valid_def raw_in_file_def FileRangeValid_iff Let_def split: if_splits)
qed

lemma valid_section_span:
  assumes "section_valid n Nt sec"
  shows "unat (sh_VirtualAddress sec) + unat (sh_VirtualSize sec) \<le> unat (opt_SizeOfImage (nt_OptionalHeader Nt))"
proof -
  let ?sp = "AlignUp64 (ucast (sh_VirtualSize sec)) (ucast (opt_SectionAlignment (nt_OptionalHeader Nt)))"
  note b = AlignUp64_bounds [of "sh_VirtualSize sec" "opt_SectionAlignment (nt_OptionalHeader Nt)"]
  have "unat (sh_VirtualAddress sec) < 2 ^ 32" using unsigned_less [of "sh_VirtualAddress sec", where 'a = nat] by simp
  with b(2) have "unat (ucast (sh_VirtualAddress sec) + ?sp) = unat (sh_VirtualAddress sec) + unat ?sp" by (simp add: unat_word_ariths)
  with assms b(1) show ?thesis
    by (auto simp: section_valid_def Let_def word_less_nat_alt split: if_splits)
qed

text \<open>The load of an image at the base it asks for: no relocation is applied.\<close>

definition image_of :: "u8 list \<Rightarrow> u64 \<Rightarrow> byte_mem \<Rightarrow> byte_mem" where
  "image_of f Base m =
     (let opt = nt_OptionalHeader (nt_of f) in
      load_sections f Base (map (section_of f) [0..<section_count f])
        (if opt_SizeOfHeaders opt > 0
         then CopyMem Base f (if ucast (opt_SizeOfHeaders opt) > (of_nat (length f) :: u64) then of_nat (length f)
                              else ucast (opt_SizeOfHeaders opt)) (SetMem Base (ucast (opt_SizeOfImage opt)) 0 m)
         else SetMem Base (ucast (opt_SizeOfImage opt)) 0 m))"

definition boot_pages :: "u8 list \<Rightarrow> u64" where
  "boot_pages f = EFI_SIZE_TO_PAGES (ucast (opt_SizeOfImage (nt_OptionalHeader (nt_of f))))"

text \<open>The base at which the firmware lets the image be loaded.\<close>

definition loads_at :: "(EFI_ALLOCATE_TYPE \<Rightarrow> u64 \<Rightarrow> u64 \<Rightarrow> EFI_STATUS \<times> u64) \<Rightarrow> u8 list \<Rightarrow> u64 \<Rightarrow> bool" where
  "loads_at AllocatePages f Base \<longleftrightarrow>
     (let opt = nt_OptionalHeader (nt_of f); (s1, b1) = AllocatePages AllocateAddress (boot_pages f) (opt_ImageBase opt);
          (s2, b2) = AllocatePages AllocateAnyPages (boot_pages f) 0 in
      \<not> EFI_ERROR s1 \<and> Base = b1 \<or>
      EFI_ERROR s1 \<and> (opt_DllCharacteristics opt AND KPE_DLLCHAR_DYNAMIC_BASE) \<noteq> 0 \<and> \<not> EFI_ERROR s2 \<and> Base = b2)"

lemma LoadKpeImage_unfold:
  assumes "ValidateKpeImage f = Some (Nt, secs)" "length f < 2 ^ 64" "loads_at AllocatePages f Base"
  shows "LoadKpeImage AllocatePages f m = do {
      (Status, m4) \<leftarrow> ApplyKpeBaseRelocations Base (Some Nt) (image_of f Base m);
      Some (if EFI_ERROR Status then (Inl Status, m4)
            else (Inr (Base, ucast (opt_SizeOfImage (nt_OptionalHeader (nt_of f))), Base + ucast (opt_AddressOfEntryPoint (nt_OptionalHeader (nt_of f))),
                       Base - opt_ImageBase (nt_OptionalHeader (nt_of f))), m4)) }"
proof -
  obtain s1 b1 where a: "AllocatePages AllocateAddress (boot_pages f) (opt_ImageBase (nt_OptionalHeader (nt_of f))) = (s1, b1)" by fastforce
  obtain s2 b2 where b: "AllocatePages AllocateAnyPages (boot_pages f) 0 = (s2, b2)" by fastforce
  note v = ValidateKpeImage_SomeD(1,2) [OF assms(1,2)]
  show ?thesis
    using assms(3) a b
    by (auto simp: LoadKpeImage_def assms(1) v loads_at_def boot_pages_def image_of_def size_of_image_def Let_def)
qed

lemma ApplyKpeBaseRelocations_same: "ApplyKpeBaseRelocations (opt_ImageBase (nt_OptionalHeader Nt)) (Some Nt) m = Some (EFI_SUCCESS, m)"
  by (simp add: ApplyKpeBaseRelocations_def)

lemma stores_in_boot: "stores_in boot_st P m m' \<Longrightarrow> \<not> P a \<Longrightarrow> m' a = m a"
  by (induction rule: stores_in.induct) (auto simp: boot_st_def)

lemma ApplyKpeBaseRelocations_safe:
  assumes "unat Base + 2 ^ 34 \<le> 2 ^ 64"
  shows "\<exists>st m'. ApplyKpeBaseRelocations Base (Some Nt) m = Some (st, m') \<and>
    stores_in boot_st (in_image Base (opt_SizeOfImage (nt_OptionalHeader Nt))) m m'"
proof -
  let ?S = "opt_SizeOfImage (nt_OptionalHeader Nt)" and ?d = "opt_DataDirectory (nt_OptionalHeader Nt) ! KPE_DIR_BASERELOC"
  let ?c = "Base + ucast (dd_VirtualAddress ?d)"
  have l: "unat (dd_VirtualAddress ?d) < 2 ^ 32" "unat (dd_Size ?d) < 2 ^ 32"
    using unsigned_less [of "dd_VirtualAddress ?d", where 'a = nat] unsigned_less [of "dd_Size ?d", where 'a = nat] by simp_all
  have c: "unat ?c = unat Base + unat (dd_VirtualAddress ?d)" using l assms by (simp add: unat_word_ariths)
  have e: "unat (?c + ucast (dd_Size ?d)) = unat ?c + unat (dd_Size ?d)" using l assms c by (simp add: unat_word_ariths)
  have "\<exists>r. reloc_blocks boot_ld boot_st (\<lambda>_. True) EFI_SUCCESS EFI_LOAD_ERROR EFI_UNSUPPORTED EFI_LOAD_ERROR
      Base ?S (Base - opt_ImageBase (nt_OptionalHeader Nt)) (?c + ucast (dd_Size ?d)) ?c m = Some r"
    using e c l assms by (intro reloc_blocks_boot) simp_all
  then obtain r where r: "reloc_blocks boot_ld boot_st (\<lambda>_. True) EFI_SUCCESS EFI_LOAD_ERROR EFI_UNSUPPORTED EFI_LOAD_ERROR
      Base ?S (Base - opt_ImageBase (nt_OptionalHeader Nt)) (?c + ucast (dd_Size ?d)) ?c m = Some r" by blast
  show ?thesis
    using r reloc_blocks_stores [OF r]
    by (cases r) (auto simp: ApplyKpeBaseRelocations_def ImageRvaToPointer_def Let_def intro: stores_in.none)
qed

text \<open>What the loader does not check: the headers and the raw data of every section fit in the image.\<close>

definition image_fits :: "u8 list \<Rightarrow> bool" where
  "image_fits f \<longleftrightarrow> opt_SizeOfHeaders (nt_OptionalHeader (nt_of f)) \<le> size_of_image f \<and>
     (\<forall>i < section_count f. unat (sh_VirtualAddress (section_of f i)) + unat (sh_SizeOfRawData (section_of f i)) \<le> unat (size_of_image f))"

lemma section_in_image:
  assumes "in_section Base sec a" "unat (sh_VirtualAddress sec) + unat (sh_SizeOfRawData sec) \<le> unat S"
    "unat (sh_VirtualAddress sec) + unat (sh_VirtualSize sec) \<le> unat (S :: u32)"
  shows "in_image Base S a"
proof -
  let ?v = "sh_VirtualAddress sec"
  have b: "unat (a - Base - ucast ?v) + unat ?v < unat S" using assms by (simp add: in_section_def diff_diff_eq max_def split: if_splits)
  define x where "x = a - Base - ucast ?v"
  have "unat (x + (ucast ?v :: u64)) = unat x + unat ?v"
    using b unsigned_less [of S, where 'a = nat] by (simp add: unat_word_ariths x_def [symmetric])
  then show ?thesis using b by (simp add: in_image_def x_def)
qed

lemma image_of_frame:
  assumes "ValidateKpeImage f = Some (Nt, secs)" "length f < 2 ^ 64" "image_fits f" "\<not> in_image Base (size_of_image f) a"
  shows "image_of f Base m a = m a"
proof -
  note v = ValidateKpeImage_SomeD [OF assms(1,2)]
  have "\<not> in_section Base sec a" if "sec \<in> set secs" for sec
  proof -
    from that v(2) obtain i where i: "i < section_count f" "sec = section_of f i" by auto
    have "section_valid (of_nat (length f)) Nt sec" using v(7) that by blast
    from valid_section_span [OF this] have "unat (sh_VirtualAddress sec) + unat (sh_VirtualSize sec) \<le> unat (size_of_image f)"
      by (simp add: v(1) size_of_image_def)
    moreover have "unat (sh_VirtualAddress sec) + unat (sh_SizeOfRawData sec) \<le> unat (size_of_image f)"
      using assms(3) i by (simp add: image_fits_def)
    ultimately show ?thesis using section_in_image assms(4) by blast
  qed
  then have "\<forall>sec\<in>set (map (section_of f) [0..<section_count f]). \<not> in_section Base sec a" using v(2) by simp
  then have "image_of f Base m a = (if opt_SizeOfHeaders (nt_OptionalHeader (nt_of f)) > 0
      then CopyMem Base f (if ucast (opt_SizeOfHeaders (nt_OptionalHeader (nt_of f))) > (of_nat (length f) :: u64) then of_nat (length f)
            else ucast (opt_SizeOfHeaders (nt_OptionalHeader (nt_of f)))) (SetMem Base (ucast (size_of_image f)) 0 m) a
      else SetMem Base (ucast (size_of_image f)) 0 m a)"
    using v(8) v(2) by (simp add: image_of_def Let_def load_sections_frame size_of_image_def del: load_sections.simps)
  moreover have "unat (a - Base) \<ge> unat (size_of_image f)" using assms(4) by (simp add: in_image_def)
  ultimately show ?thesis
    using assms(3) by (auto simp: CopyMem_eq SetMem_eq image_fits_def word_le_nat_alt word_less_nat_alt)
qed

lemma boot_image_valid: "r = 16 \<or> r = 24 \<Longrightarrow> ValidateKpeImage (demo_image r KPE_SUBSYSTEM_NATIVE_KERNEL) = Some (nt_of (demo_image r KPE_SUBSYSTEM_NATIVE_KERNEL), [section_of (demo_image r KPE_SUBSYSTEM_NATIVE_KERNEL) 0])"
  by (elim disjE) (simp_all add: ValidateKpeImage_def Let_def packed_image_headers packed_image_offsets packed_image_fields(1) sizeof_KPE_DOS_HEADER_def
      sizeof_KPE_NT_HEADERS64_def sizeof_KPE_OPTIONAL_HEADER64_def sizeof_KPE_FILE_HEADER_def sizeof_KPE_SECTION_HEADER_def
      KPE_NUMBEROF_DIRECTORY_ENTRIES_def section_valid_def AlignUp64_def FileRangeValid_iff)

lemma load_at_preferred:
  assumes "ValidateKpeImage f = Some (Nt, secs)" "length f < 2 ^ 64" "loads_at AllocatePages f (opt_ImageBase (nt_OptionalHeader Nt))"
  shows "LoadKpeImage AllocatePages f m = Some (Inr (opt_ImageBase (nt_OptionalHeader Nt), ucast (opt_SizeOfImage (nt_OptionalHeader Nt)),
      opt_ImageBase (nt_OptionalHeader Nt) + ucast (opt_AddressOfEntryPoint (nt_OptionalHeader Nt)), 0), image_of f (opt_ImageBase (nt_OptionalHeader Nt)) m)"
  using LoadKpeImage_unfold [OF assms] ValidateKpeImage_SomeD(1) [OF assms(1,2)]
  by (simp add: ApplyKpeBaseRelocations_same EFI_SUCCESS_def EFI_ERROR_def)

lemma image_of_byte:
  assumes "ValidateKpeImage f = Some (Nt, secs)" "length f < 2 ^ 64" "i < length secs" "in_section Base (secs ! i) a"
    "\<And>j. i < j \<Longrightarrow> j < length secs \<Longrightarrow> \<not> in_section Base (secs ! j) a"
  shows "image_of f Base m a = section_byte f Base (secs ! i) a"
proof -
  note v = ValidateKpeImage_SomeD [OF assms(1,2)]
  show ?thesis
    using load_sections_byte [OF v(8) assms(3-5)] unfolding image_of_def Let_def v(2) [symmetric] by blast
qed

section \<open>Properties\<close>

text \<open>C33: what the boot loader's validation guarantees of every image it accepts: the headers and the
  section table lie inside the file, so does the raw data of every section, the entry point lies inside
  the image, and so does the memory of every section, also when the section alignment is not a power of two (which is not checked).
  Files are shorter than $2^{64}$ bytes.\<close>

theorem ValidateKpeImage_sound:
  assumes "ValidateKpeImage f = Some (Nt, secs)" and "length f < 2 ^ 64"
  shows "sizeof_KPE_DOS_HEADER \<le> length f \<and> nt_offset f + sizeof_KPE_NT_HEADERS64 \<le> length f \<and> Nt = nt_of f \<and>
    section_table_offset f + length secs * sizeof_KPE_SECTION_HEADER \<le> length f \<and> secs = map (section_of f) [0..<length secs] \<and>
    in_image Base (opt_SizeOfImage (nt_OptionalHeader Nt)) (Base + ucast (opt_AddressOfEntryPoint (nt_OptionalHeader Nt))) \<and>
    (\<forall>sec\<in>set secs. raw_in_file f sec \<and>
       unat (sh_VirtualAddress sec) + unat (sh_VirtualSize sec) \<le> unat (opt_SizeOfImage (nt_OptionalHeader Nt)))"
proof -
  note v = ValidateKpeImage_SomeD [OF assms]
  have d: "sizeof_KPE_DOS_HEADER \<le> length f" using assms(1) by (auto simp: ValidateKpeImage_def split: if_splits)
  have l: "length secs = section_count f" by (simp add: v(2))
  have e: "in_image Base (opt_SizeOfImage (nt_OptionalHeader Nt)) (Base + ucast (opt_AddressOfEntryPoint (nt_OptionalHeader Nt)))"
    using v(6) by (simp add: in_image_def word_less_nat_alt)
  show ?thesis
    using d v(4,5,8) e valid_section_span [of "of_nat (length f)" Nt] v(7) v(1) v(2) unfolding l by blast
qed

theorem ValidateKpeImage_sound_witness:
  "nt_offset (demo_image 24 KPE_SUBSYSTEM_NATIVE_KERNEL) + 264 \<le> length (demo_image 24 KPE_SUBSYSTEM_NATIVE_KERNEL) \<and> raw_in_file (demo_image 24 KPE_SUBSYSTEM_NATIVE_KERNEL) (section_of (demo_image 24 KPE_SUBSYSTEM_NATIVE_KERNEL) 0)"
  using ValidateKpeImage_sound [OF boot_image_valid [of 24], of 0] by (simp add: packed_image_fields(1) sizeof_KPE_NT_HEADERS64_def)

text \<open>C34: loading an accepted image terminates and writes only inside the image, whatever the file's relocation
  directory says, provided the file satisfies the two things the loader itself does not check: the declared size of the headers is at most the
  size of the image, and the raw data of every section ends inside the image (\<open>image_fits\<close>).  The firmware grants the pages, and the
  image is at least 16 GiB below the top of the address space; the entry address returned lies inside the image.\<close>

theorem LoadKpeImage_safe:
  assumes "ValidateKpeImage f = Some (Nt, secs)" and "length f < 2 ^ 64" and "image_fits f"
    and "loads_at AllocatePages f Base" and "unat Base + 2 ^ 34 \<le> 2 ^ 64"
  shows "\<exists>r m'. LoadKpeImage AllocatePages f m = Some (r, m') \<and> (\<forall>a. \<not> in_image Base (size_of_image f) a \<longrightarrow> m' a = m a) \<and>
    (\<forall>b sz e d. r = Inr (b, sz, e, d) \<longrightarrow> b = Base \<and> in_image Base (size_of_image f) e)"
proof -
  note v = ValidateKpeImage_SomeD [OF assms(1,2)]
  obtain st m' where a: "ApplyKpeBaseRelocations Base (Some Nt) (image_of f Base m) = Some (st, m')"
    "stores_in boot_st (in_image Base (size_of_image f)) (image_of f Base m) m'"
    using ApplyKpeBaseRelocations_safe [OF assms(5), of Nt "image_of f Base m"] by (auto simp: v(1) size_of_image_def)
  have "m' x = m x" if "\<not> in_image Base (size_of_image f) x" for x
    using stores_in_boot [OF a(2) that] image_of_frame [OF assms(1-3) that, of m] by simp
  moreover have "in_image Base (size_of_image f) (Base + ucast (opt_AddressOfEntryPoint (nt_OptionalHeader (nt_of f))))"
    using v(6) by (simp add: in_image_def word_less_nat_alt v(1) size_of_image_def)
  ultimately show ?thesis
    using LoadKpeImage_unfold [OF assms(1,2,4), of m] a(1) by auto
qed

text \<open>C35: an image loaded at the base it asks for holds the file's bytes.  Every byte of a section that no
  later section covers is the byte of the section's raw data, and 0 beyond it.\<close>

theorem LoadKpeImage_contents:
  assumes "ValidateKpeImage f = Some (Nt, secs)" and "length f < 2 ^ 64" and "Base = opt_ImageBase (nt_OptionalHeader Nt)"
    and "loads_at AllocatePages f Base" and "i < length secs" and "in_section Base (secs ! i) a"
    and "\<forall>j. i < j \<and> j < length secs \<longrightarrow> \<not> in_section Base (secs ! j) a"
  shows "\<exists>m' e. LoadKpeImage AllocatePages f m = Some (Inr (Base, ucast (opt_SizeOfImage (nt_OptionalHeader Nt)), e, 0), m') \<and>
    m' a = section_byte f Base (secs ! i) a"
  using load_at_preferred [of f Nt secs AllocatePages m] image_of_byte [OF assms(1,2,5,6), of m] assms by simp

text \<open>An image whose section declares more raw data than memory: the bytes \<open>ds\<close> follow what fills the rest of its only page.\<close>

definition overrun_image :: "u8 list \<Rightarrow> u8 list" where
  "overrun_image ds = packed_image (of_nat (4080 + length ds)) KPE_SUBSYSTEM_NATIVE_KERNEL (replicate 4080 0 @ ds)"

lemma overrun_image_valid:
  assumes "length ds < 2 ^ 31"
  shows "ValidateKpeImage (overrun_image ds) = Some (nt_of (overrun_image ds), [section_of (overrun_image ds) 0])"
    "unat (sh_SizeOfRawData (section_of (overrun_image ds) 0)) = 4080 + length ds" "boot_pages (overrun_image ds) = 1"
    "length (overrun_image ds) < 2 ^ 64"
proof -
  show r: "unat (sh_SizeOfRawData (section_of (overrun_image ds) 0)) = 4080 + length ds"
    using assms by (simp add: overrun_image_def packed_image_offsets packed_image_headers unsigned_of_nat take_bit_nat_eq_self del: of_nat_add)
  show "length (overrun_image ds) < 2 ^ 64" using assms by (simp add: overrun_image_def packed_image_fields(1))
  show "boot_pages (overrun_image ds) = 1"
    by (simp add: boot_pages_def overrun_image_def packed_image_offsets packed_image_headers EFI_SIZE_TO_PAGES_def)
  have "FileRangeValid (of_nat (length (overrun_image ds))) 368 (ucast (sh_SizeOfRawData (section_of (overrun_image ds) 0)))"
    using r assms by (simp add: FileRangeValid_iff overrun_image_def packed_image_fields(1) unsigned_of_nat take_bit_nat_eq_self del: of_nat_add)
  then show "ValidateKpeImage (overrun_image ds) = Some (nt_of (overrun_image ds), [section_of (overrun_image ds) 0])"
    by (simp add: ValidateKpeImage_def Let_def overrun_image_def packed_image_headers packed_image_offsets packed_image_fields(1) sizeof_KPE_DOS_HEADER_def
      sizeof_KPE_NT_HEADERS64_def sizeof_KPE_OPTIONAL_HEADER64_def sizeof_KPE_FILE_HEADER_def sizeof_KPE_SECTION_HEADER_def
      KPE_NUMBEROF_DIRECTORY_ENTRIES_def section_valid_def AlignUp64_def del: of_nat_add)
qed

text \<open>C36: the boot loader can be made to overwrite the memory behind the pages it allocated.  Validation bounds a section's virtual size but not
  its raw data, and the raw data is what is copied.  For every list of fewer than $2^{31}$ bytes there is an image that validation accepts, for which
  the loader asks the firmware for a single page, and whose load succeeds and leaves exactly these bytes in the memory right
  after that page, on every firmware that grants the page at the image's base.\<close>

theorem LoadKpeImage_overrun:
  assumes "length ds < 2 ^ 31"
  shows "\<exists>f Nt secs. ValidateKpeImage f = Some (Nt, secs) \<and>
    (\<forall>AllocatePages m st. AllocatePages AllocateAddress 1 (opt_ImageBase (nt_OptionalHeader Nt)) = (st, opt_ImageBase (nt_OptionalHeader Nt)) \<and> \<not> EFI_ERROR st \<longrightarrow>
      (\<exists>r m'. LoadKpeImage AllocatePages f m = Some (Inr r, m') \<and>
        (\<forall>i<length ds. m' (opt_ImageBase (nt_OptionalHeader Nt) + 4096 + of_nat i) = ds ! i)))"
proof -
  let ?f = "overrun_image ds" and ?s = "section_of (overrun_image ds) 0" and ?b = "0x200000 :: u64"
  note o = overrun_image_valid [OF assms]
  have f: "opt_ImageBase (nt_OptionalHeader (nt_of ?f)) = ?b" "sh_VirtualAddress ?s = 16" "sh_PointerToRawData ?s = 368"
    by (simp_all add: overrun_image_def packed_image_offsets packed_image_headers)
  have "image_of ?f ?b m (?b + 4096 + of_nat i) = ds ! i" if "i < length ds" for i m
  proof -
    have k: "unat (?b + 4096 + of_nat i - (?b + ucast (sh_VirtualAddress ?s))) = 4080 + i"
      using that assms by (simp add: f(2) unat_word_ariths unsigned_of_nat take_bit_nat_eq_self)
    then have "in_section ?b ?s (?b + 4096 + of_nat i)" using that o(2) by (simp add: in_section_def)
    then have "image_of ?f ?b m (?b + 4096 + of_nat i) = section_byte ?f ?b ?s (?b + 4096 + of_nat i)"
      using image_of_byte [OF o(1,4), of 0 ?b] by simp
    also have "\<dots> = ?f ! (368 + (4080 + i))" using k that o(2) by (simp add: section_byte_def f(3))
    finally show ?thesis by (simp add: overrun_image_def packed_image_def nth_append)
  qed
  moreover have "loads_at AllocatePages ?f ?b" if "AllocatePages AllocateAddress 1 ?b = (st, ?b)" "\<not> EFI_ERROR st" for AllocatePages st
    using that by (simp add: loads_at_def o(3) f(1) Let_def split: prod.splits)
  ultimately show ?thesis
    using load_at_preferred [OF o(1,4), unfolded f(1)] o(1) f(1)
    by (intro exI [of _ ?f] exI [of _ "nt_of ?f"] exI [of _ "[?s]"]) fastforce
qed

text \<open>A firmware that grants every request at the address asked for.\<close>

definition granting :: "EFI_ALLOCATE_TYPE \<Rightarrow> u64 \<Rightarrow> u64 \<Rightarrow> EFI_STATUS \<times> u64" where
  "granting ty pages base = (EFI_SUCCESS, base)"

lemma boot_image_loads: "loads_at granting (demo_image r KPE_SUBSYSTEM_NATIVE_KERNEL) 0x200000"
  by (simp add: loads_at_def granting_def EFI_SUCCESS_def EFI_ERROR_def packed_image_offsets packed_image_headers)

theorem LoadKpeImage_safe_witness:
  "\<exists>r m'. LoadKpeImage granting (demo_image 16 KPE_SUBSYSTEM_NATIVE_KERNEL) (\<lambda>_. 7) = Some (r, m') \<and> m' 0x200020 = 7"
proof -
  have "image_fits (demo_image 16 KPE_SUBSYSTEM_NATIVE_KERNEL)"
    by (simp add: image_fits_def packed_image_offsets packed_image_headers)
  moreover have "\<not> in_image 0x200000 (size_of_image (demo_image 16 KPE_SUBSYSTEM_NATIVE_KERNEL)) 0x200020" by (simp add: in_image_def packed_image_offsets)
  ultimately show ?thesis
    using LoadKpeImage_safe [OF boot_image_valid [of 16] _ _ boot_image_loads, of "\<lambda>_. 7"]
    by (auto simp: packed_image_fields(1))
qed

theorem LoadKpeImage_contents_witness:
  "\<exists>m' e. LoadKpeImage granting (demo_image 24 KPE_SUBSYSTEM_NATIVE_KERNEL) (\<lambda>_. 7) = Some (Inr (0x200000, 32, e, 0), m') \<and> m' 0x200010 = 0xAA"
proof -
  have "(demo_image 24 KPE_SUBSYSTEM_NATIVE_KERNEL) ! 368 = 0xAA" by (simp add: packed_image_def nth_append)
  then show ?thesis
    using LoadKpeImage_contents [OF boot_image_valid [of 24], of "0x200000" granting 0 "0x200010" "\<lambda>_. 7"] boot_image_loads
    by (auto simp: packed_image_fields(1) packed_image_offsets packed_image_headers in_section_def section_byte_def)
qed

theorem LoadKpeImage_overrun_witness:
  "\<exists>f Nt secs r m'. ValidateKpeImage f = Some (Nt, secs) \<and> LoadKpeImage granting f (\<lambda>_. 7) = Some (Inr r, m') \<and>
    m' (opt_ImageBase (nt_OptionalHeader Nt) + 4096) = 0xCC"
proof -
  from LoadKpeImage_overrun [of "[0xCC]"] obtain f Nt secs where v: "ValidateKpeImage f = Some (Nt, secs)"
    and l: "\<forall>AllocatePages m st. AllocatePages AllocateAddress 1 (opt_ImageBase (nt_OptionalHeader Nt)) = (st, opt_ImageBase (nt_OptionalHeader Nt)) \<and>
        \<not> EFI_ERROR st \<longrightarrow> (\<exists>r m'. LoadKpeImage AllocatePages f m = Some (Inr r, m') \<and>
        (\<forall>i<length [0xCC]. m' (opt_ImageBase (nt_OptionalHeader Nt) + 4096 + of_nat i) = [0xCC] ! i))"
    by auto
  from l [rule_format, of granting EFI_SUCCESS] v show ?thesis
    by (fastforce simp: granting_def EFI_SUCCESS_def EFI_ERROR_def)
qed

end
