(* ===== verification/NtxBootMap.thy ===== *)
theory NtxBootMap
  imports NtxBoot NtxNk
begin

text \<open>
  The last phase of the boot loader, \<^verbatim>\<open>boot/uefi/bootx64.c\<close>: the memory map snapshot, its conversion to the
  kernel's format, the boot information block and the exit from boot services.

  The firmware services used are functions of a firmware state; the model keeps the list of the calls
  made, oldest first, because the UEFI contract the code states (no call between \<^verbatim>\<open>GetMemoryMap\<close> and
  \<^verbatim>\<open>ExitBootServices\<close>) is about that list.  The snapshot's two buffers are modelled by their addresses and
  their contents.
\<close>

section \<open>Definitions\<close>

text \<open>\<open>fw_GetMemoryMap size\<close>: status, size, map contents, key, descriptor size and version.\<close>

record 'fw firmware =
  fw_GetMemoryMap :: "u64 \<Rightarrow> 'fw \<Rightarrow> (EFI_STATUS \<times> u64 \<times> u8 list \<times> u64 \<times> u64 \<times> u32) \<times> 'fw"
  fw_AllocatePool :: "u64 \<Rightarrow> 'fw \<Rightarrow> (EFI_STATUS \<times> u64) \<times> 'fw"
  fw_FreePool :: "u64 \<Rightarrow> 'fw \<Rightarrow> 'fw"
  fw_ExitBootServices :: "u64 \<Rightarrow> 'fw \<Rightarrow> EFI_STATUS \<times> 'fw"

text \<open>The calls of the other phases of the loader are in the same list (\<open>NtxLoader\<close>).  Some entries also record what the firmware answered: the
  map key, the status and base of allocated pages, the handle of an opened file, and for a read the buffer and the bytes stored there.\<close>

datatype boot_call = Call_GetMemoryMap u64 | Call_AllocatePool u64 | Call_FreePool u64 | Call_ExitBootServices u64
  | Call_AllocatePages EFI_ALLOCATE_TYPE u64 u64 EFI_STATUS u64 | Call_HandleProtocol u64 | Call_LocateProtocol | Call_OpenVolume u64
  | Call_Open u64 "u16 list" u64 | Call_GetInfo u64 u64 | Call_Read u64 u64 u64 "u8 list" | Call_Close u64 | Call_OutputString "u16 list" | Call_Stall u64

record 'fw boot_world =
  bw_firmware :: 'fw
  bw_calls :: "boot_call list"

record BOOT_MEMORY_SNAPSHOT =
  sn_MapBuffer :: u64
  sn_Map :: "u8 list"
  sn_MapBufferSize :: u64
  sn_MapSize :: u64
  sn_MapKey :: u64
  sn_DescriptorSize :: u64
  sn_DescriptorVersion :: u32
  sn_Ranges :: u64
  sn_RangeArray :: "nat \<Rightarrow> PHYSICAL_MEMORY_RANGE"
  sn_RangeCapacity :: u64
  sn_RangeCount :: u64

definition call :: "boot_call \<Rightarrow> 'fw \<Rightarrow> 'fw boot_world \<Rightarrow> 'fw boot_world" where
  "call c fw w = w\<lparr>bw_firmware := fw, bw_calls := bw_calls w @ [c]\<rparr>"

text \<open>\<^verbatim>\<open>AllocatePool\<close> and \<^verbatim>\<open>FreePool\<close> of \<^verbatim>\<open>boot/uefi/efistub.c\<close>; a null pointer is 0.\<close>

definition AllocatePool :: "'fw firmware \<Rightarrow> u64 \<Rightarrow> 'fw boot_world \<Rightarrow> u64 \<times> 'fw boot_world" where
  "AllocatePool fw Size w =
     (case fw_AllocatePool fw Size (bw_firmware w) of
        ((Status, Buffer), f1) \<Rightarrow> (if Status \<noteq> EFI_SUCCESS then 0 else Buffer, call (Call_AllocatePool Size) f1 w))"

definition FreePool :: "'fw firmware \<Rightarrow> u64 \<Rightarrow> 'fw boot_world \<Rightarrow> 'fw boot_world" where
  "FreePool fw Buffer w =
     (if Buffer \<noteq> 0 then call (Call_FreePool Buffer) (fw_FreePool fw Buffer (bw_firmware w)) w else w)"

text \<open>A call of \<^verbatim>\<open>GetMemoryMap\<close> into the snapshot.  The map contents are written only on success.\<close>

definition get_memory_map ::
    "'fw firmware \<Rightarrow> u64 \<Rightarrow> BOOT_MEMORY_SNAPSHOT \<Rightarrow> 'fw boot_world \<Rightarrow> EFI_STATUS \<times> BOOT_MEMORY_SNAPSHOT \<times> 'fw boot_world" where
  "get_memory_map fw Size sn w =
     (case fw_GetMemoryMap fw Size (bw_firmware w) of
        ((Status, MapSize, Map, MapKey, DescriptorSize, DescriptorVersion), f1) \<Rightarrow>
          (Status,
           sn\<lparr>sn_MapSize := MapSize, sn_MapKey := MapKey, sn_DescriptorSize := DescriptorSize,
              sn_DescriptorVersion := DescriptorVersion, sn_Map := (if EFI_ERROR Status then sn_Map sn else Map)\<rparr>,
           call (Call_GetMemoryMap MapKey) f1 w))"

definition snapshot_zero :: "BOOT_MEMORY_SNAPSHOT \<Rightarrow> BOOT_MEMORY_SNAPSHOT" where
  "snapshot_zero sn = sn\<lparr>sn_MapBuffer := 0, sn_Map := [], sn_MapBufferSize := 0, sn_MapSize := 0, sn_MapKey := 0,
     sn_DescriptorSize := 0, sn_DescriptorVersion := 0, sn_Ranges := 0, sn_RangeCapacity := 0, sn_RangeCount := 0\<rparr>"

text \<open>\<open>None\<close> is the division by a descriptor size of 0, at which the processor traps.\<close>

definition SnapshotMemoryMap ::
    "'fw firmware \<Rightarrow> BOOT_MEMORY_SNAPSHOT \<Rightarrow> 'fw boot_world \<Rightarrow> (EFI_STATUS \<times> BOOT_MEMORY_SNAPSHOT \<times> 'fw boot_world) option" where
  "SnapshotMemoryMap fw Snapshot w =
     (case get_memory_map fw 0 (snapshot_zero Snapshot) w of
        (Status, sn0, w1) \<Rightarrow>
          let ProbedMapSize = sn_MapSize sn0; sn1 = sn0\<lparr>sn_MapSize := 0, sn_Map := []\<rparr> in
          if Status \<noteq> EFI_BUFFER_TOO_SMALL then Some (Status, sn1, w1)
          else
            let Size = ProbedMapSize + sn_DescriptorSize sn1 * 16;
                (Map, w2) = AllocatePool fw Size w1;
                sn2 = sn1\<lparr>sn_MapBufferSize := Size, sn_MapBuffer := Map\<rparr>
            in if Map = 0 then Some (EFI_OUT_OF_RESOURCES, sn2, w2)
               else if sn_DescriptorSize sn2 = 0 then None
               else
                 let Capacity = Size div sn_DescriptorSize sn2;
                     (Ranges, w3) = AllocatePool fw (sizeof_PHYSICAL_MEMORY_RANGE * Capacity) w2;
                     sn3 = sn2\<lparr>sn_Ranges := Ranges\<rparr>
                 in if Ranges = 0 then Some (EFI_OUT_OF_RESOURCES, sn3, w3)
                    else
                      let sn4 = sn3\<lparr>sn_RangeCapacity := Capacity\<rparr> in
                      case get_memory_map fw (sn_MapBufferSize sn4) sn4 w3 of
                        (Status, sn5, w4) \<Rightarrow> Some (if EFI_ERROR Status then Status else EFI_SUCCESS, sn5, w4))"

text \<open>One descriptor of the map at a byte offset.\<close>

definition range_at :: "u8 list \<Rightarrow> u64 \<Rightarrow> PHYSICAL_MEMORY_RANGE" where
  "range_at Map Offset = \<lparr>pmr_Base = fld Map (unat Offset + 8) 8, pmr_Length = EFI_PAGES_TO_SIZE (fld Map (unat Offset + 24) 8),
     pmr_Type = fld Map (unat Offset) 4, pmr_Attributes = ucast (fld Map (unat Offset + 32) 8 AND 0xFFFFFFFF :: u64)\<rparr>"

text \<open>The loop stores at most \<open>sn_RangeCapacity\<close> ranges, which bounds its iterations.\<close>

fun ConvertMemoryMap_loop :: "nat \<Rightarrow> u64 \<Rightarrow> BOOT_MEMORY_SNAPSHOT \<Rightarrow> BOOT_MEMORY_SNAPSHOT" where
  "ConvertMemoryMap_loop 0 Offset sn = sn"
| "ConvertMemoryMap_loop (Suc k) Offset sn =
     (if \<not> Offset < sn_MapSize sn then sn
      else if sn_RangeCount sn \<ge> sn_RangeCapacity sn then sn
      else ConvertMemoryMap_loop k (Offset + sn_DescriptorSize sn)
             (sn\<lparr>sn_RangeCount := sn_RangeCount sn + 1,
                 sn_RangeArray := (sn_RangeArray sn)(unat (sn_RangeCount sn) := range_at (sn_Map sn) Offset)\<rparr>))"

definition ConvertMemoryMap :: "BOOT_MEMORY_SNAPSHOT \<Rightarrow> BOOT_MEMORY_SNAPSHOT" where
  "ConvertMemoryMap sn = ConvertMemoryMap_loop (unat (sn_RangeCapacity sn)) 0 (sn\<lparr>sn_RangeCount := 0\<rparr>)"

text \<open>The graphics protocol: the status of the lookup and the mode it offers, if any.\<close>

definition CaptureVideoInfo :: "EFI_STATUS \<times> (u64 \<times> u64 \<times> u32 \<times> u32 \<times> u32 \<times> u32) option \<Rightarrow> BOOT_VIDEO_INFO" where
  "CaptureVideoInfo gop =
     (let zero = \<lparr>bv_FrameBufferBase = 0, bv_FrameBufferSize = 0, bv_Width = 0, bv_Height = 0, bv_PixelsPerScanLine = 0, bv_PixelFormat = 0\<rparr>
      in case gop of
           (Status, None) \<Rightarrow> zero
         | (Status, Some (FrameBufferBase, FrameBufferSize, Horizontal, Vertical, PixelsPerScanLine, PixelFormat)) \<Rightarrow>
             if EFI_ERROR Status then zero
             else \<lparr>bv_FrameBufferBase = FrameBufferBase, bv_FrameBufferSize = ucast FrameBufferSize, bv_Width = Horizontal,
                   bv_Height = Vertical, bv_PixelsPerScanLine = PixelsPerScanLine, bv_PixelFormat = PixelFormat\<rparr>)"

definition PopulateBootInfo ::
    "EFI_STATUS \<times> (u64 \<times> u64 \<times> u32 \<times> u32 \<times> u32 \<times> u32) option \<Rightarrow>
     u64 \<Rightarrow> u64 \<Rightarrow> u64 \<Rightarrow> u64 \<Rightarrow> u64 \<Rightarrow> u64 \<Rightarrow> BOOT_MEMORY_SNAPSHOT \<Rightarrow> bool \<Rightarrow> BOOT_INFO" where
  "PopulateBootInfo gop LoaderBase KernelBase KernelSize KernelEntry InitImageBuffer InitImageSize Snapshot VerboseBoot =
     \<lparr>bi_Magic = BOOTINFO_MAGIC, bi_Version = BOOTINFO_VERSION, bi_Size = ucast sizeof_BOOT_INFO,
      bi_Flags = (if InitImageBuffer \<noteq> 0 \<and> InitImageSize \<noteq> 0 then BOOTINFO_FLAG_INIT_IMAGE_PRESENT else 0) OR
                 (if VerboseBoot then BOOTINFO_FLAG_VERBOSE_BOOT else 0),
      bi_FirmwareType = 1, bi_LoaderBase = LoaderBase, bi_KernelBase = KernelBase, bi_KernelSize = KernelSize,
      bi_KernelEntry = KernelEntry, bi_InitImageBase = InitImageBuffer, bi_InitImageSize = InitImageSize,
      bi_MemoryMap = sn_Ranges Snapshot, bi_MemoryMapEntryCount = ucast (sn_RangeCount Snapshot),
      bi_MemoryMapEntrySize = ucast sizeof_PHYSICAL_MEMORY_RANGE, bi_Video = CaptureVideoInfo gop\<rparr>"

text \<open>The four attempts of \<^verbatim>\<open>ExitBootServicesRobust\<close>; \<open>Status\<close> is the status of the last one, and \<open>None\<close> again the division by 0.\<close>

fun exit_attempts ::
    "'fw firmware \<Rightarrow> nat \<Rightarrow> EFI_STATUS \<Rightarrow> BOOT_INFO \<Rightarrow> BOOT_MEMORY_SNAPSHOT \<Rightarrow> 'fw boot_world \<Rightarrow>
     (EFI_STATUS \<times> BOOT_INFO \<times> BOOT_MEMORY_SNAPSHOT \<times> 'fw boot_world) option" where
  "exit_attempts fw 0 Status BootInfo sn w = Some (Status, BootInfo, sn, w)"
| "exit_attempts fw (Suc k) _ BootInfo sn w =
     (case get_memory_map fw (sn_MapBufferSize sn) sn w of
        (Status, sn1, w1) \<Rightarrow>
          if Status = EFI_BUFFER_TOO_SMALL then
            (let NewBufferSize = sn_MapSize sn1 + sn_DescriptorSize sn1 * 16;
                 (NewMapBuffer, w2) = AllocatePool fw NewBufferSize w1
             in if NewMapBuffer = 0 then Some (EFI_OUT_OF_RESOURCES, BootInfo, sn1, w2)
                else if sn_DescriptorSize sn1 = 0 then None
                else
                  let NewRangeCapacity = NewBufferSize div sn_DescriptorSize sn1;
                      (NewRanges, w3) = AllocatePool fw (sizeof_PHYSICAL_MEMORY_RANGE * NewRangeCapacity) w2
                  in if NewRanges = 0 then Some (EFI_OUT_OF_RESOURCES, BootInfo, sn1, FreePool fw NewMapBuffer w3)
                     else
                       let w4 = FreePool fw (sn_Ranges sn1) (FreePool fw (sn_MapBuffer sn1) w3)
                       in exit_attempts fw k Status BootInfo
                            (sn1\<lparr>sn_MapBuffer := NewMapBuffer, sn_MapBufferSize := NewBufferSize, sn_Ranges := NewRanges,
                                 sn_RangeCapacity := NewRangeCapacity\<rparr>) w4)
          else if EFI_ERROR Status then Some (Status, BootInfo, sn1, w1)
          else
            (let sn2 = ConvertMemoryMap sn1;
                 BootInfo1 = BootInfo\<lparr>bi_MemoryMapEntryCount := ucast (sn_RangeCount sn2)\<rparr>;
                 (Status, f2) = fw_ExitBootServices fw (sn_MapKey sn2) (bw_firmware w1);
                 w2 = call (Call_ExitBootServices (sn_MapKey sn2)) f2 w1
             in if \<not> EFI_ERROR Status then Some (EFI_SUCCESS, BootInfo1, sn2, w2)
                else if Status \<noteq> EFI_INVALID_PARAMETER then Some (Status, BootInfo1, sn2, w2)
                else exit_attempts fw k Status BootInfo1 sn2 w2))"

definition ExitBootServicesRobust ::
    "'fw firmware \<Rightarrow> BOOT_INFO \<Rightarrow> BOOT_MEMORY_SNAPSHOT \<Rightarrow> 'fw boot_world \<Rightarrow>
     (EFI_STATUS \<times> BOOT_INFO \<times> BOOT_MEMORY_SNAPSHOT \<times> 'fw boot_world) option" where
  "ExitBootServicesRobust fw BootInfo Snapshot w = exit_attempts fw 4 EFI_INVALID_PARAMETER BootInfo Snapshot w"

section \<open>The conversion loop\<close>

lemma convert_loop_fields [simp]:
  "sn_MapKey (ConvertMemoryMap_loop k off sn) = sn_MapKey sn" "sn_Ranges (ConvertMemoryMap_loop k off sn) = sn_Ranges sn"
  by (induction k arbitrary: off sn) simp_all

lemma ConvertMemoryMap_fields [simp]:
  "sn_MapKey (ConvertMemoryMap sn) = sn_MapKey sn" "sn_Ranges (ConvertMemoryMap sn) = sn_Ranges sn"
  by (simp_all add: ConvertMemoryMap_def)

text \<open>\<open>j\<close> descriptors are done, \<open>k\<close> more fit.\<close>

lemma convert_loop:
  assumes "unat (sn_MapSize sn) = n * unat (sn_DescriptorSize sn)" "sn_DescriptorSize sn \<noteq> 0"
    "unat off = j * unat (sn_DescriptorSize sn)" "unat (sn_RangeCount sn) = j" "j + k = unat (sn_RangeCapacity sn)" "j \<le> n"
  shows "unat (sn_RangeCount (ConvertMemoryMap_loop k off sn)) = min n (unat (sn_RangeCapacity sn)) \<and>
    (\<forall>i. sn_RangeArray (ConvertMemoryMap_loop k off sn) i =
       (if j \<le> i \<and> i < min n (unat (sn_RangeCapacity sn)) then range_at (sn_Map sn) (of_nat i * sn_DescriptorSize sn) else sn_RangeArray sn i))"
  using assms
proof (induction k arbitrary: off sn j)
  case (Suc k)
  let ?d = "sn_DescriptorSize sn"
  have d: "0 < unat ?d" using Suc.prems(2) by (simp add: unat_gt_0)
  show ?case
  proof (cases "j < n")
    case False
    with Suc.prems have "\<not> off < sn_MapSize sn" "j = n" by (simp_all add: word_less_nat_alt)
    with Suc.prems show ?thesis by auto
  next
    case True
    then have "j * unat ?d + unat ?d \<le> n * unat ?d" using mult_le_mono1 [of "Suc j" n "unat ?d"] by simp
    then have fit: "j * unat ?d + unat ?d < 2 ^ 64" "off < sn_MapSize sn"
      using Suc.prems(1,3) d True unsigned_less [of "sn_MapSize sn", where 'a = nat] by (simp_all add: word_less_nat_alt)
    have room: "\<not> sn_RangeCount sn \<ge> sn_RangeCapacity sn" using Suc.prems(4,5) by (simp add: word_le_nat_alt)
    have inc: "unat (sn_RangeCount sn + 1) = Suc j"
      using Suc.prems(4,5) unsigned_less [of "sn_RangeCapacity sn", where 'a = nat] by (simp add: unat_word_ariths)
    have off: "unat (off + ?d) = Suc j * unat ?d" using fit(1) Suc.prems(3) by (simp add: unat_word_ariths)
    have "off = of_nat (unat off)" by simp
    also have "\<dots> = of_nat j * of_nat (unat ?d)" by (simp only: Suc.prems(3) of_nat_mult)
    finally have o: "off = of_nat j * ?d" by simp
    let ?sn = "sn\<lparr>sn_RangeCount := sn_RangeCount sn + 1, sn_RangeArray := (sn_RangeArray sn)(j := range_at (sn_Map sn) off)\<rparr>"
    have step: "ConvertMemoryMap_loop (Suc k) off sn = ConvertMemoryMap_loop k (off + ?d) ?sn"
      using fit(2) room Suc.prems(4) by simp
    have "unat (sn_RangeCount (ConvertMemoryMap_loop k (off + ?d) ?sn)) = min n (unat (sn_RangeCapacity sn)) \<and>
      (\<forall>i. sn_RangeArray (ConvertMemoryMap_loop k (off + ?d) ?sn) i =
         (if Suc j \<le> i \<and> i < min n (unat (sn_RangeCapacity sn)) then range_at (sn_Map sn) (of_nat i * ?d) else sn_RangeArray ?sn i))"
      using Suc.IH [of ?sn "off + ?d" "Suc j"] Suc.prems True inc off by simp
    moreover have "j < unat (sn_RangeCapacity sn)" using Suc.prems(5) by simp
    ultimately show ?thesis unfolding step using True o by (auto simp: le_eq_less_or_eq Suc_le_eq)
  qed
qed auto

section \<open>Properties\<close>

text \<open>The memory map handed to the kernel is the firmware's.  The conversion loop stores exactly one
  range per descriptor, in order, as long as they fit in the array, and never writes beyond it.\<close>

theorem ConvertMemoryMap_map:
  assumes "unat (sn_MapSize sn) = n * unat (sn_DescriptorSize sn)" and "sn_DescriptorSize sn \<noteq> 0"
  shows "unat (sn_RangeCount (ConvertMemoryMap sn)) = min n (unat (sn_RangeCapacity sn)) \<and>
    (\<forall>i. sn_RangeArray (ConvertMemoryMap sn) i =
       (if i < min n (unat (sn_RangeCapacity sn)) then range_at (sn_Map sn) (of_nat i * sn_DescriptorSize sn) else sn_RangeArray sn i))"
  using convert_loop [of "sn\<lparr>sn_RangeCount := 0\<rparr>" n 0 0 "unat (sn_RangeCapacity sn)"] assms
  by (simp add: ConvertMemoryMap_def)

definition demo_snapshot :: BOOT_MEMORY_SNAPSHOT where
  "demo_snapshot = \<lparr>sn_MapBuffer = 0x1000,
     sn_Map = [7, 0, 0, 0] @ replicate 4 0 @ [0, 0, 0x10, 0, 0, 0, 0, 0] @ replicate 8 0 @ [2, 0, 0, 0, 0, 0, 0, 0] @ replicate 8 0,
     sn_MapBufferSize = 640, sn_MapSize = 40, sn_MapKey = 5, sn_DescriptorSize = 40, sn_DescriptorVersion = 1, sn_Ranges = 0x2000,
     sn_RangeArray = (\<lambda>_. \<lparr>pmr_Base = 0, pmr_Length = 0, pmr_Type = 0, pmr_Attributes = 0\<rparr>), sn_RangeCapacity = 16, sn_RangeCount = 0\<rparr>"

theorem ConvertMemoryMap_map_witness:
  "unat (sn_RangeCount (ConvertMemoryMap demo_snapshot)) = 1 \<and>
   sn_RangeArray (ConvertMemoryMap demo_snapshot) 0 = \<lparr>pmr_Base = 0x100000, pmr_Length = 0x2000, pmr_Type = 7, pmr_Attributes = 0\<rparr>"
proof -
  have "unat (sn_MapSize demo_snapshot) = 1 * unat (sn_DescriptorSize demo_snapshot)" "sn_DescriptorSize demo_snapshot \<noteq> 0"
    by (simp_all add: demo_snapshot_def)
  from ConvertMemoryMap_map [OF this] show ?thesis
    by (simp add: demo_snapshot_def range_at_def fld_eval EFI_PAGES_TO_SIZE_def)
qed

lemma exit_attempts_key:
  assumes "exit_attempts fw k st bi sn w = Some (EFI_SUCCESS, bi', sn', w')" "st \<noteq> EFI_SUCCESS"
  shows "(\<exists>pre. bw_calls w' = pre @ [Call_GetMemoryMap (sn_MapKey sn'), Call_ExitBootServices (sn_MapKey sn')]) \<and>
    bi_MemoryMapEntryCount bi' = ucast (sn_RangeCount sn')"
  using assms
proof (induction k arbitrary: st bi sn w)
  case (Suc k)
  obtain s1 sn1 w1 where g: "get_memory_map fw (sn_MapBufferSize sn) sn w = (s1, sn1, w1)" by (metis prod_cases3)
  then obtain pre where pre: "bw_calls w1 = pre @ [Call_GetMemoryMap (sn_MapKey sn1)]"
    by (auto simp: get_memory_map_def call_def split: prod.splits)
  have ne: "EFI_BUFFER_TOO_SMALL \<noteq> EFI_SUCCESS" "EFI_INVALID_PARAMETER \<noteq> EFI_SUCCESS" "EFI_OUT_OF_RESOURCES \<noteq> EFI_SUCCESS"
    "\<not> EFI_ERROR EFI_SUCCESS"
    by (simp_all add: EFI_BUFFER_TOO_SMALL_def EFI_SUCCESS_def EFI_INVALID_PARAMETER_def EFI_OUT_OF_RESOURCES_def EFI_ERROR_def)
  show ?case
    using Suc.prems(1) ne pre
    by (auto simp: g Let_def call_def split: if_splits prod.splits dest!: Suc.IH)
qed simp

text \<open>When boot services have been left, the call before \<^verbatim>\<open>ExitBootServices\<close> was the \<^verbatim>\<open>GetMemoryMap\<close> that
  returned the key passed to it, with no other firmware call between the two, as the UEFI specification
  requires, and the entry count in the boot information is that of the last map.\<close>

theorem ExitBootServicesRobust_key:
  assumes "ExitBootServicesRobust fw BootInfo Snapshot w = Some (EFI_SUCCESS, bi, sn, w')"
  shows "(\<exists>pre. bw_calls w' = pre @ [Call_GetMemoryMap (sn_MapKey sn), Call_ExitBootServices (sn_MapKey sn)]) \<and>
    bi_MemoryMapEntryCount bi = ucast (sn_RangeCount sn)"
  using exit_attempts_key [of fw 4 EFI_INVALID_PARAMETER] assms
  by (simp add: ExitBootServicesRobust_def EFI_INVALID_PARAMETER_def EFI_SUCCESS_def)

text \<open>A firmware whose map has grown before the first call when it starts in state 0, and that grants
  everything afterwards.\<close>

definition demo_firmware :: "nat firmware" where
  "demo_firmware = \<lparr>
     fw_GetMemoryMap = (\<lambda>_ n. ((if n = 0 then EFI_BUFFER_TOO_SMALL else EFI_SUCCESS, 40, sn_Map demo_snapshot, 5, 40, 1), Suc n)),
     fw_AllocatePool = (\<lambda>_ n. ((EFI_SUCCESS, 0x9000 + of_nat n * 0x1000), Suc n)),
     fw_FreePool = (\<lambda>_ n. n), fw_ExitBootServices = (\<lambda>_ n. (EFI_SUCCESS, n))\<rparr>"

definition demo_boot_info :: BOOT_INFO where
  "demo_boot_info = PopulateBootInfo (EFI_LOAD_ERROR, None) 0 0x200000 32 0x200000 0 0 demo_snapshot False"

lemma ExitBootServicesRobust_four:
  "ExitBootServicesRobust fw bi sn w = exit_attempts fw (Suc (Suc (Suc (Suc 0)))) EFI_INVALID_PARAMETER bi sn w"
  by (simp only: ExitBootServicesRobust_def numeral_eq_Suc pred_numeral_simps BitM.simps numeral_One One_nat_def)

lemmas demo_firmware_eval = ExitBootServicesRobust_four demo_firmware_def get_memory_map_def AllocatePool_def FreePool_def
  call_def EFI_BUFFER_TOO_SMALL_def EFI_SUCCESS_def EFI_ERROR_def

theorem ExitBootServicesRobust_key_witness:
  "\<exists>bi sn w pre. ExitBootServicesRobust demo_firmware demo_boot_info demo_snapshot \<lparr>bw_firmware = 1, bw_calls = []\<rparr> = Some (EFI_SUCCESS, bi, sn, w) \<and>
     bw_calls w = pre @ [Call_GetMemoryMap (sn_MapKey sn), Call_ExitBootServices (sn_MapKey sn)]"
proof -
  let ?r = "ExitBootServicesRobust demo_firmware demo_boot_info demo_snapshot \<lparr>bw_firmware = 1, bw_calls = []\<rparr>"
  have "map_option fst ?r = Some EFI_SUCCESS" by (simp add: demo_firmware_eval Let_def)
  then obtain bi sn w where "?r = Some (EFI_SUCCESS, bi, sn, w)" by (cases ?r) auto
  with ExitBootServicesRobust_key [OF this] show ?thesis by blast
qed

lemma boot_calls_grow:
  "AllocatePool fw n w = (b, w') \<Longrightarrow> set (bw_calls w) \<subseteq> set (bw_calls w')"
  "get_memory_map fw n sn w = (st, sn', w') \<Longrightarrow> set (bw_calls w) \<subseteq> set (bw_calls w') \<and> sn_Ranges sn' = sn_Ranges sn"
  "set (bw_calls w) \<subseteq> set (bw_calls (FreePool fw b w))" "set (bw_calls w) \<subseteq> set (bw_calls (call c x w))"
  by (auto simp: AllocatePool_def get_memory_map_def FreePool_def call_def split: prod.splits)

lemma exit_attempts_frame:
  assumes "exit_attempts fw k st bi sn w = Some (st', bi', sn', w')"
  shows "bi_MemoryMap bi' = bi_MemoryMap bi \<and> set (bw_calls w) \<subseteq> set (bw_calls w')"
  using assms
proof (induction k arbitrary: st bi sn w)
  case (Suc k)
  obtain s1 sn1 w1 where g: "get_memory_map fw (sn_MapBufferSize sn) sn w = (s1, sn1, w1)" by (metis prod_cases3)
  note w1 = boot_calls_grow(2) [OF g]
  obtain b w2 where a: "AllocatePool fw (sn_MapSize sn1 + sn_DescriptorSize sn1 * 16) w1 = (b, w2)" by fastforce
  note w2 = boot_calls_grow(1) [OF a]
  obtain r w3 where a2: "AllocatePool fw (sizeof_PHYSICAL_MEMORY_RANGE *
      ((sn_MapSize sn1 + sn_DescriptorSize sn1 * 16) div sn_DescriptorSize sn1)) w2 = (r, w3)" by fastforce
  note w3 = boot_calls_grow(1) [OF a2]
  let ?w4 = "FreePool fw (sn_Ranges sn1) (FreePool fw (sn_MapBuffer sn1) w3)"
  have w4: "set (bw_calls w3) \<subseteq> set (bw_calls ?w4)"
    using boot_calls_grow(3) [of w3 fw "sn_MapBuffer sn1"] boot_calls_grow(3) [of "FreePool fw (sn_MapBuffer sn1) w3" fw "sn_Ranges sn1"] by blast
  have u: "set (bw_calls w) \<subseteq> set (bw_calls w2)" "set (bw_calls w) \<subseteq> set (bw_calls (FreePool fw b w3))"
    "set (bw_calls w) \<subseteq> set (bw_calls ?w4)" "set (bw_calls w) \<subseteq> set (bw_calls (call c x w1))" for c x
    using w1 w2 w3 w4 boot_calls_grow(3) [of w3 fw b] boot_calls_grow(4) [of w1 c x] by blast+
  note u = u [unfolded conjunct2 [OF w1]]
  show ?case
    using Suc.prems w1 by (auto simp: g a a2 Let_def split: if_splits prod.splits dest!: Suc.IH dest: subsetD [OF u(1)] subsetD [OF u(2)]
        subsetD [OF u(3)] subsetD [OF u(4)])
qed simp

text \<open>The boot information keeps the address of the old range array.  When the memory map has grown at the
  first attempt, the loader frees the array the boot information points to and converts the map into a new
  one, but only the entry count is updated: the kernel is started with a pointer to freed memory.\<close>

theorem ExitBootServicesRobust_stale_map:
  assumes "get_memory_map fw (sn_MapBufferSize Snapshot) Snapshot w = (EFI_BUFFER_TOO_SMALL, sn1, w1)"
    and "AllocatePool fw (sn_MapSize sn1 + sn_DescriptorSize sn1 * 16) w1 = (b, w2)" and "b \<noteq> 0"
    and "AllocatePool fw (sizeof_PHYSICAL_MEMORY_RANGE * ((sn_MapSize sn1 + sn_DescriptorSize sn1 * 16) div sn_DescriptorSize sn1)) w2 = (r, w3)"
    and "sn_DescriptorSize sn1 \<noteq> 0" and "r \<noteq> 0" and "bi_MemoryMap BootInfo = sn_Ranges Snapshot" and "sn_Ranges Snapshot \<noteq> 0"
    and "ExitBootServicesRobust fw BootInfo Snapshot w = Some (st, bi, sn, w')"
  shows "bi_MemoryMap bi = sn_Ranges Snapshot \<and> Call_FreePool (sn_Ranges Snapshot) \<in> set (bw_calls w')"
proof -
  let ?w4 = "FreePool fw (sn_Ranges sn1) (FreePool fw (sn_MapBuffer sn1) w3)"
  have e: "exit_attempts fw (Suc (Suc (Suc 0))) EFI_BUFFER_TOO_SMALL BootInfo
      (sn1\<lparr>sn_MapBuffer := b, sn_MapBufferSize := sn_MapSize sn1 + sn_DescriptorSize sn1 * 16, sn_Ranges := r,
           sn_RangeCapacity := (sn_MapSize sn1 + sn_DescriptorSize sn1 * 16) div sn_DescriptorSize sn1\<rparr>) ?w4 = Some (st, bi, sn, w')"
    using assms(9) assms(3,5,6) unfolding ExitBootServicesRobust_four exit_attempts.simps(2) assms(1) prod.case Let_def assms(2,4) by simp
  have "Call_FreePool (sn_Ranges Snapshot) \<in> set (bw_calls ?w4)"
    using boot_calls_grow(2) [OF assms(1)] assms(8) by (simp add: FreePool_def call_def)
  with exit_attempts_frame [OF e] assms(7) show ?thesis by auto
qed

theorem ExitBootServicesRobust_stale_map_witness:
  "\<exists>bi sn w. ExitBootServicesRobust demo_firmware demo_boot_info demo_snapshot \<lparr>bw_firmware = 0, bw_calls = []\<rparr> = Some (EFI_SUCCESS, bi, sn, w) \<and>
     bi_MemoryMap bi = 0x2000 \<and> Call_FreePool 0x2000 \<in> set (bw_calls w)"
proof -
  let ?w = "\<lparr>bw_firmware = 0 :: nat, bw_calls = []\<rparr>"
  let ?r = "ExitBootServicesRobust demo_firmware demo_boot_info demo_snapshot ?w"
  have "map_option fst ?r = Some EFI_SUCCESS" by (simp add: demo_firmware_eval Let_def)
  then obtain bi sn w where r: "?r = Some (EFI_SUCCESS, bi, sn, w)" by (cases ?r) auto
  have m: "bi_MemoryMap demo_boot_info = sn_Ranges demo_snapshot" "sn_Ranges demo_snapshot = 0x2000"
    by (simp_all add: demo_boot_info_def PopulateBootInfo_def demo_snapshot_def)
  obtain sn1 w1 where g: "get_memory_map demo_firmware (sn_MapBufferSize demo_snapshot) demo_snapshot ?w = (EFI_BUFFER_TOO_SMALL, sn1, w1)"
    and w1: "bw_firmware w1 = 1" "sn_DescriptorSize sn1 \<noteq> 0" by (simp add: get_memory_map_def demo_firmware_def call_def)
  have al: "\<exists>b w'. AllocatePool demo_firmware n x = (b, w') \<and> b = 0x9000 + of_nat (bw_firmware x) * 0x1000 \<and> bw_firmware w' = Suc (bw_firmware x)"
    for n x by (simp add: AllocatePool_def demo_firmware_def call_def)
  obtain b w2 where a: "AllocatePool demo_firmware (sn_MapSize sn1 + sn_DescriptorSize sn1 * 16) w1 = (b, w2)" "b \<noteq> 0" "bw_firmware w2 = 2"
    using al [of "sn_MapSize sn1 + sn_DescriptorSize sn1 * 16" w1] w1 by auto
  obtain r w3 where a2: "AllocatePool demo_firmware (sizeof_PHYSICAL_MEMORY_RANGE *
      ((sn_MapSize sn1 + sn_DescriptorSize sn1 * 16) div sn_DescriptorSize sn1)) w2 = (r, w3)" "r \<noteq> 0"
    using al [of "sizeof_PHYSICAL_MEMORY_RANGE * ((sn_MapSize sn1 + sn_DescriptorSize sn1 * 16) div sn_DescriptorSize sn1)" w2] a(3) by auto
  from ExitBootServicesRobust_stale_map [OF g a(1,2) a2(1) w1(2) a2(2) m(1) _ r] r m(2) show ?thesis by simp
qed

text \<open>The boot information the loader builds is accepted by the nucleus, and it announces an init image
  exactly when it carries one.\<close>

theorem PopulateBootInfo_accepted:
  "let bi = PopulateBootInfo gop lb kb ks ke init initsz sn verbose in
   fst (NkInitializeCore (Some (a, bi)) s) = KSTATUS_SUCCESS \<and>
   NkGetBootInfo (snd (NkInitializeCore (Some (a, bi)) s)) = Some (a, bi) \<and>
   (bi_Flags bi AND BOOTINFO_FLAG_INIT_IMAGE_PRESENT \<noteq> 0 \<longleftrightarrow> bi_InitImageBase bi \<noteq> 0 \<and> bi_InitImageSize bi \<noteq> 0)"
  by (simp add: Let_def NkInitializeCore_def NkGetBootInfo_def PopulateBootInfo_def BOOTINFO_FLAG_INIT_IMAGE_PRESENT_def
      BOOTINFO_FLAG_VERBOSE_BOOT_def)

end
