(* ===== verification/NtxBootText.thy ===== *)
theory NtxBootText
  imports NtxBootMap NtxConsole
begin

text \<open>
  What the boot loader prints: \<^verbatim>\<open>Print\<close> of \<^verbatim>\<open>boot/uefi/efistub.c\<close> with its two formats, and the serial trace of
  \<^verbatim>\<open>boot/uefi/bootx64.c\<close>.

  The services of the firmware beyond those of \<open>NtxBootMap\<close> are functions of the firmware state in the record
  \<open>services\<close>; a service whose pointer the code tests is \<open>None\<close> when the test fails.  The world of the loader is the
  firmware with the calls made, the memory, the pixels of the framebuffer and the devices behind the ports.  Strings
  are lists without their terminator.
\<close>

section \<open>Definitions\<close>

subsection \<open>The firmware and the world of the loader\<close>

text \<open>Of the structures of the firmware, the fields the loader reads.\<close>

record EFI_GRAPHICS_OUTPUT_MODE_INFORMATION =
  gi_HorizontalResolution :: u32
  gi_VerticalResolution :: u32
  gi_PixelFormat :: u32
  gi_PixelsPerScanLine :: u32

record EFI_GRAPHICS_OUTPUT_PROTOCOL_MODE =
  gm_Info :: EFI_GRAPHICS_OUTPUT_MODE_INFORMATION
  gm_FrameBufferBase :: u64
  gm_FrameBufferSize :: u64

record EFI_LOADED_IMAGE_PROTOCOL =
  li_DeviceHandle :: u64
  li_ImageBase :: u64

datatype EFI_GUID = gEfiLoadedImageProtocolGuid | gEfiSimpleFileSystemProtocolGuid | gEfiFileInfoGuid | gEfiGraphicsOutputProtocolGuid

text \<open>
  \<open>sv_LocateGop\<close>: the graphics protocol with its current mode, \<open>None\<close> when the protocol, its mode or the information of
  the mode is missing.  \<open>sv_GetInfo\<close>: status, size needed and \<^verbatim>\<open>FileSize\<close>.  \<open>sv_Read\<close>: status, bytes counted, bytes stored.
  \<open>sv_LoadedImage\<close> is what the loaded image protocol holds; the loader follows the pointer it got without a check, and a null interface is not modelled.
\<close>

record 'fw services =
  sv_boot :: "'fw firmware"
  sv_OutputString :: "(u16 list \<Rightarrow> 'fw \<Rightarrow> 'fw) option"
  sv_Stall :: "(u64 \<Rightarrow> 'fw \<Rightarrow> 'fw) option"
  sv_LocateGop :: "'fw \<Rightarrow> (EFI_STATUS \<times> EFI_GRAPHICS_OUTPUT_PROTOCOL_MODE option) \<times> 'fw"
  sv_AllocatePages :: "EFI_ALLOCATE_TYPE \<Rightarrow> u64 \<Rightarrow> u64 \<Rightarrow> 'fw \<Rightarrow> (EFI_STATUS \<times> u64) \<times> 'fw"
  sv_HandleProtocol :: "u64 \<Rightarrow> EFI_GUID \<Rightarrow> 'fw \<Rightarrow> (EFI_STATUS \<times> u64) \<times> 'fw"
  sv_LoadedImage :: "u64 \<Rightarrow> 'fw \<Rightarrow> EFI_LOADED_IMAGE_PROTOCOL"
  sv_OpenVolume :: "u64 \<Rightarrow> 'fw \<Rightarrow> (EFI_STATUS \<times> u64) \<times> 'fw"
  sv_Open :: "u64 \<Rightarrow> u16 list \<Rightarrow> 'fw \<Rightarrow> (EFI_STATUS \<times> u64) \<times> 'fw"
  sv_GetInfo :: "u64 \<Rightarrow> u64 \<Rightarrow> 'fw \<Rightarrow> (EFI_STATUS \<times> u64 \<times> u64) \<times> 'fw"
  sv_Read :: "u64 \<Rightarrow> u64 \<Rightarrow> 'fw \<Rightarrow> (EFI_STATUS \<times> u64 \<times> u8 list) \<times> 'fw"
  sv_Close :: "u64 \<Rightarrow> 'fw \<Rightarrow> 'fw"

record ('fw, 'd) loader_world =
  lw_boot :: "'fw boot_world"
  lw_mem :: byte_mem
  lw_fb :: "u32 \<Rightarrow> u32"
  lw_dev :: 'd

text \<open>A call of a service: its result, and the call, with what is recorded of the result, at the end of the list.\<close>

definition service :: "('r \<Rightarrow> boot_call) \<Rightarrow> ('fw \<Rightarrow> 'r \<times> 'fw) \<Rightarrow> ('fw, 'd) loader_world \<Rightarrow> 'r \<times> ('fw, 'd) loader_world" where
  "service c f w = (case f (bw_firmware (lw_boot w)) of (r, x) \<Rightarrow> (r, w\<lparr>lw_boot := call (c r) x (lw_boot w)\<rparr>))"

definition service_unit :: "boot_call \<Rightarrow> ('fw \<Rightarrow> 'fw) \<Rightarrow> ('fw, 'd) loader_world \<Rightarrow> ('fw, 'd) loader_world" where
  "service_unit c f w = w\<lparr>lw_boot := call c (f (bw_firmware (lw_boot w))) (lw_boot w)\<rparr>"

subsection \<open>Print\<close>

definition wide :: "string \<Rightarrow> u16 list" where "wide t = map of_char t"

definition EfiOutput :: "'fw services \<Rightarrow> u16 list \<Rightarrow> ('fw, 'd) loader_world \<Rightarrow> ('fw, 'd) loader_world" where
  "EfiOutput sv Text w = (case sv_OutputString sv of None \<Rightarrow> w | Some f \<Rightarrow> service_unit (Call_OutputString Text) (f Text) w)"

definition EfiHex :: "u16 list" where
  "EfiHex = wide ''0123456789ABCDEF''"

definition hex_status :: "EFI_STATUS \<Rightarrow> u16 list" where
  "hex_status Status = wide ''0x'' @ map (\<lambda>Index. EfiHex ! unat (drop_bit ((15 - Index) * 4) Status AND 0xF)) [0..<16]"

definition EfiWriteHexStatus :: "'fw services \<Rightarrow> EFI_STATUS \<Rightarrow> ('fw, 'd) loader_world \<Rightarrow> ('fw, 'd) loader_world" where
  "EfiWriteHexStatus sv Status w = EfiOutput sv (hex_status Status) w"

text \<open>The digits in the order they are stored, lowest first; the buffer takes \<open>k\<close> more.\<close>

fun unsigned_digits :: "nat \<Rightarrow> u64 \<Rightarrow> u16 list" where
  "unsigned_digits 0 Value = []"
| "unsigned_digits (Suc k) Value = (if Value \<noteq> 0 then (0x30 + ucast (Value mod 10)) # unsigned_digits k (Value div 10) else [])"

text \<open>The loop that swaps the two ends.\<close>

definition swap_ends :: "'a list \<Rightarrow> nat \<Rightarrow> 'a list" where
  "swap_ends b Start = (let Tmp = b ! Start; j = length b - 1 - Start in b[Start := b ! j, j := Tmp])"

definition reverse_in_place :: "'a list \<Rightarrow> 'a list" where
  "reverse_in_place b = foldl swap_ends b [0..<length b div 2]"

definition unsigned_text :: "u64 \<Rightarrow> u16 list" where
  "unsigned_text Value = (if Value = 0 then wide ''0'' else reverse_in_place (unsigned_digits 31 Value))"

definition EfiWriteUnsigned :: "'fw services \<Rightarrow> u64 \<Rightarrow> ('fw, 'd) loader_world \<Rightarrow> ('fw, 'd) loader_world" where
  "EfiWriteUnsigned sv Value w = EfiOutput sv (unsigned_text Value) w"

text \<open>\<^verbatim>\<open>Print\<close>: the count of plain characters.  \<open>None\<close> when the format asks for more arguments than there are.\<close>

fun Print_loop :: "'fw services \<Rightarrow> u16 list \<Rightarrow> u64 list \<Rightarrow> u64 \<Rightarrow> ('fw, 'd) loader_world \<Rightarrow> (u64 \<times> ('fw, 'd) loader_world) option" where
  "Print_loop sv [] Args Written w = Some (Written, w)"
| "Print_loop sv (c # Cursor) Args Written w =
     (if c = 0x25 \<and> Cursor \<noteq> [] \<and> hd Cursor = 0x72 then
        (case Args of [] \<Rightarrow> None | Status # Rest \<Rightarrow> Print_loop sv (tl Cursor) Rest Written (EfiWriteHexStatus sv Status w))
      else if c = 0x25 \<and> Cursor \<noteq> [] \<and> hd Cursor = 0x75 then
        (case Args of [] \<Rightarrow> None | Value # Rest \<Rightarrow> Print_loop sv (tl Cursor) Rest Written (EfiWriteUnsigned sv Value w))
      else Print_loop sv Cursor Args (Written + 1) (EfiOutput sv [c] w))"

definition Print :: "'fw services \<Rightarrow> u16 list option \<Rightarrow> u64 list \<Rightarrow> ('fw, 'd) loader_world \<Rightarrow> (u64 \<times> ('fw, 'd) loader_world) option" where
  "Print sv Format Args w = (case Format of None \<Rightarrow> Some (0, w) | Some f \<Rightarrow> Print_loop sv f Args 0 w)"

text \<open>A line of the loader: the text, a carriage return and a line feed.\<close>

definition print_line :: "'fw services \<Rightarrow> string \<Rightarrow> u64 list \<Rightarrow> ('fw, 'd) loader_world \<Rightarrow> ('fw, 'd) loader_world option" where
  "print_line sv t Args w = map_option snd (Print sv (Some (wide t @ [0x0D, 0x0A])) Args w)"

definition gBootVerbose :: bool where "gBootVerbose = True"

definition BOOT_VERBOSE_PRINT :: "'fw services \<Rightarrow> string \<Rightarrow> u64 list \<Rightarrow> ('fw, 'd) loader_world \<Rightarrow> ('fw, 'd) loader_world option" where
  "BOOT_VERBOSE_PRINT sv t Args w = (if gBootVerbose then print_line sv t Args w else Some w)"

subsection \<open>Serial trace\<close>

definition BOOT_COM1_BASE :: u16 where "BOOT_COM1_BASE = 0x3F8"

definition BootSerialInit :: "'d ports \<Rightarrow> 'd \<Rightarrow> 'd" where
  "BootSerialInit io d = fold (\<lambda>(p, v). port_out io (BOOT_COM1_BASE + p) v)
     [(1, 0x00), (3, 0x80), (0, 0x01), (1, 0x00), (3, 0x03), (2, 0xC7), (4, 0x03)] d"

text \<open>The polling loop: whether the transmitter became ready within \<open>k\<close> readings.\<close>

fun boot_serial_wait :: "'d ports \<Rightarrow> nat \<Rightarrow> 'd \<Rightarrow> bool \<times> 'd" where
  "boot_serial_wait io 0 d = (False, d)"
| "boot_serial_wait io (Suc k) d =
     (case port_in io (BOOT_COM1_BASE + 5) d of (v, d1) \<Rightarrow> if v AND 0x20 = 0 then boot_serial_wait io k d1 else (True, d1))"

definition BootSerialWriteChar :: "'d ports \<Rightarrow> u8 \<Rightarrow> 'd \<Rightarrow> 'd" where
  "BootSerialWriteChar io Ch d =
     (case boot_serial_wait io 2000001 d of (ready, d1) \<Rightarrow> if ready then port_out io BOOT_COM1_BASE Ch d1 else d1)"

definition BootSerialWriteAscii :: "'d ports \<Rightarrow> u8 list option \<Rightarrow> 'd \<Rightarrow> 'd" where
  "BootSerialWriteAscii io Text d =
     (case Text of
        None \<Rightarrow> d
      | Some t \<Rightarrow> fold (\<lambda>c x. BootSerialWriteChar io c (if c = 0x0A then BootSerialWriteChar io 0x0D x else x)) t d)"

definition hex_char :: "u8 \<Rightarrow> u8" where
  "hex_char Nibble = (if Nibble < 10 then 0x30 + Nibble else 0x41 + (Nibble - 10))"

definition BootSerialWriteHex64 :: "'d ports \<Rightarrow> u64 \<Rightarrow> 'd \<Rightarrow> 'd" where
  "BootSerialWriteHex64 io Value d =
     fold (\<lambda>Shift. BootSerialWriteChar io (hex_char (ucast (drop_bit ((15 - Shift) * 4) Value AND 0xF))))
       [0..<16] (BootSerialWriteAscii io (Some (map of_char ''0x'')) d)"

definition BootSerialWriteHex8 :: "'d ports \<Rightarrow> u8 \<Rightarrow> 'd \<Rightarrow> 'd" where
  "BootSerialWriteHex8 io Value d =
     BootSerialWriteChar io (hex_char (Value AND 0x0F)) (BootSerialWriteChar io (hex_char (drop_bit 4 Value)) d)"

definition BootSerialDumpBytes :: "'d ports \<Rightarrow> u8 list option \<Rightarrow> u8 list \<Rightarrow> 'd \<Rightarrow> 'd" where
  "BootSerialDumpBytes io Prefix Data d =
     BootSerialWriteAscii io (Some [0x0A])
       (fold (\<lambda>Index x. let x1 = BootSerialWriteHex8 io (Data ! Index) x
                        in if Index + 1 < length Data then BootSerialWriteChar io 0x20 x1 else x1)
          [0..<length Data] (BootSerialWriteAscii io Prefix d))"

definition on_serial :: "('d \<Rightarrow> 'd) \<Rightarrow> ('fw, 'd) loader_world \<Rightarrow> ('fw, 'd) loader_world" where
  "on_serial f w = w\<lparr>lw_dev := f (lw_dev w)\<rparr>"


section \<open>What is printed\<close>

subsection \<open>Numbers\<close>

text \<open>The loop that swaps the ends reverses.\<close>

lemma length_swap_ends [simp]: "length (swap_ends b i) = length b"
  by (simp add: swap_ends_def Let_def)

lemma swap_loop:
  assumes "n \<le> length b div 2"
  shows "length (foldl swap_ends b [0..<n]) = length b \<and>
    (\<forall>i < length b. foldl swap_ends b [0..<n] ! i = (if i < n \<or> length b - n \<le> i then b ! (length b - 1 - i) else b ! i))"
  using assms
proof (induction n)
  case (Suc n)
  let ?c = "foldl swap_ends b [0..<n]"
  have ih: "length ?c = length b" "\<And>i. i < length b \<Longrightarrow> ?c ! i = (if i < n \<or> length b - n \<le> i then b ! (length b - 1 - i) else b ! i)"
    using Suc by auto
  have n: "Suc (2 * n) < length b" using Suc.prems by simp
  have "swap_ends ?c n ! i = (if i < Suc n \<or> length b - Suc n \<le> i then b ! (length b - 1 - i) else b ! i)" if "i < length b" for i
  proof -
    consider "i = n" | "i = length b - 1 - n" | "i \<noteq> n" "i \<noteq> length b - 1 - n" by blast
    then show ?thesis
      using n that by cases (auto simp: swap_ends_def Let_def ih nth_list_update)
  qed
  with ih(1) show ?case by simp
qed simp

lemma reverse_in_place: "reverse_in_place b = rev b"
proof (rule nth_equalityI)
  note l = swap_loop [of "length b div 2" b]
  show "length (reverse_in_place b) = length (rev b)" using l by (simp add: reverse_in_place_def)
  fix i assume "i < length (reverse_in_place b)"
  then have i: "i < length b" using l by (simp add: reverse_in_place_def)
  have "i < length b div 2 \<or> length b - length b div 2 \<le> i \<or> i = length b - 1 - i" using i by arith
  then show "reverse_in_place b ! i = rev b ! i" using l i by (auto simp: reverse_in_place_def rev_nth)
qed

text \<open>A decimal number, lowest digit first.\<close>

fun digits_value :: "u16 list \<Rightarrow> nat" where
  "digits_value [] = 0"
| "digits_value (c # cs) = unat (c - 0x30) + 10 * digits_value cs"

definition is_digit :: "u16 \<Rightarrow> bool" where
  "is_digit c \<longleftrightarrow> 0x30 \<le> c \<and> c \<le> 0x39"

lemma unat_digit: "unat (ucast (v mod 10 :: u64) :: u16) = unat v mod 10"
proof -
  have "unat v mod 10 < 2 ^ 16" using mod_less_divisor [of 10 "unat v"] by simp
  then show ?thesis by (simp add: unsigned_ucast_eq unat_mod take_bit_nat_eq_self)
qed

lemma is_digit_mod: "is_digit (0x30 + ucast (v mod 10 :: u64))"
proof -
  have "unat v mod 10 < 10" by simp
  then show ?thesis
    unfolding is_digit_def word_le_nat_alt unat_word_ariths unat_digit by simp
qed

lemma unsigned_digits_0 [simp]: "unsigned_digits k 0 = []"
  by (cases k) simp_all

lemma unsigned_digits_ok:
  "unat v < 10 ^ k \<Longrightarrow> digits_value (unsigned_digits k v) = unat v \<and> list_all is_digit (unsigned_digits k v) \<and>
     (v \<noteq> 0 \<longrightarrow> unsigned_digits k v \<noteq> [] \<and> last (unsigned_digits k v) \<noteq> 0x30)"
proof (induction k arbitrary: v)
  case (Suc k)
  have "unat (v div 10) < 10 ^ k" using Suc.prems by (simp add: unat_div)
  note ih = Suc.IH [OF this]
  show ?case
  proof (cases "v = 0")
    case False
    have top: "0x30 + ucast (v mod 10) \<noteq> (0x30 :: u16)" if "v div 10 = 0"
    proof -
      have "unat v div 10 = 0" using arg_cong [OF that, of unat] by (simp add: unat_div)
      then have "unat v mod 10 \<noteq> 0" using False by (auto simp: div_eq_0_iff unat_eq_zero)
      then have "(ucast (v mod 10) :: u16) \<noteq> 0" using unat_digit [of v] by auto
      then show ?thesis by simp
    qed
    have "unat (v div 10) = unat v div 10" by (simp add: unat_div)
    then show ?thesis using False ih is_digit_mod [of v] top by (cases "v div 10 = 0") (simp_all add: unat_digit)
  qed simp
qed (simp add: unat_eq_zero)

text \<open>The text of a number: decimal digits without a leading zero whose value is the number.  Twenty digits are the most
  a 64-bit number has, so the 31 places of the buffer are enough.\<close>

lemma unsigned_text_ok:
  "digits_value (rev (unsigned_text v)) = unat v \<and> list_all is_digit (unsigned_text v) \<and> unsigned_text v \<noteq> [] \<and>
     (v \<noteq> 0 \<longrightarrow> hd (unsigned_text v) \<noteq> 0x30)"
proof (cases "v = 0")
  case False
  have "unat v < 2 ^ 64" using unsigned_less [of v, where 'a = nat] by simp
  also have "(2 :: nat) ^ 64 < 10 ^ 31" by simp
  finally show ?thesis
    using unsigned_digits_ok [of v 31] False by (simp add: unsigned_text_def reverse_in_place hd_rev)
qed (simp add: unsigned_text_def wide_def is_digit_def of_char_def)

subsection \<open>Formatted text\<close>

text \<open>The reference: the text of a format, and how many arguments it takes.\<close>

fun formatted :: "u16 list \<Rightarrow> u64 list \<Rightarrow> u16 list" where
  "formatted [] Args = []"
| "formatted (c # cs) Args =
     (if c = 0x25 \<and> cs \<noteq> [] \<and> hd cs = 0x72 then hex_status (hd Args) @ formatted (tl cs) (tl Args)
      else if c = 0x25 \<and> cs \<noteq> [] \<and> hd cs = 0x75 then unsigned_text (hd Args) @ formatted (tl cs) (tl Args)
      else c # formatted cs Args)"

fun format_args :: "u16 list \<Rightarrow> nat" where
  "format_args [] = 0"
| "format_args (c # cs) = (if c = 0x25 \<and> cs \<noteq> [] \<and> hd cs \<in> {0x72, 0x75} then Suc (format_args (tl cs)) else format_args cs)"

text \<open>A step of the loader that only prints: memory, pixels and devices stay, the calls made are output of the text.\<close>

definition outputs :: "'fw services \<Rightarrow> u16 list \<Rightarrow> ('fw, 'd) loader_world \<Rightarrow> ('fw, 'd) loader_world \<Rightarrow> bool" where
  "outputs sv t w w' \<longleftrightarrow> lw_mem w' = lw_mem w \<and> lw_fb w' = lw_fb w \<and> lw_dev w' = lw_dev w \<and>
     (\<exists>ts. bw_calls (lw_boot w') = bw_calls (lw_boot w) @ map Call_OutputString ts \<and> (sv_OutputString sv \<noteq> None \<longrightarrow> concat ts = t))"

lemma outputs_refl [simp]: "outputs sv [] w w"
  by (auto simp: outputs_def)

lemma outputs_trans: "outputs sv t w w' \<Longrightarrow> outputs sv u w' w'' \<Longrightarrow> outputs sv (t @ u) w w''"
proof -
  assume a: "outputs sv t w w'" "outputs sv u w' w''"
  then obtain ts us where
    "bw_calls (lw_boot w') = bw_calls (lw_boot w) @ map Call_OutputString ts" "sv_OutputString sv \<noteq> None \<longrightarrow> concat ts = t"
    "bw_calls (lw_boot w'') = bw_calls (lw_boot w') @ map Call_OutputString us" "sv_OutputString sv \<noteq> None \<longrightarrow> concat us = u"
    by (auto simp: outputs_def)
  with a show ?thesis by (auto simp: outputs_def intro!: exI [of _ "ts @ us"])
qed

lemma EfiOutput_outputs: "outputs sv t w (EfiOutput sv t w)"
  by (auto simp: outputs_def EfiOutput_def service_unit_def call_def split: option.splits intro: exI [of _ "[t]"])

lemma Print_loop_outputs:
  assumes "format_args f \<le> length Args"
  shows "\<exists>n w'. Print_loop sv f Args k w = Some (n, w') \<and> outputs sv (formatted f Args) w w'"
  using assms
proof (induction f Args arbitrary: k w rule: formatted.induct)
  case (2 c cs Args)
  let ?r = "c = 0x25 \<and> cs \<noteq> [] \<and> hd cs = 0x72" and ?u = "c = 0x25 \<and> cs \<noteq> [] \<and> hd cs = 0x75"
  consider "?r" | "\<not> ?r" "?u" | "\<not> ?r" "\<not> ?u" by blast
  then show ?case
  proof cases
    case 1
    with 2(4) obtain a as where A: "Args = a # as" "format_args (tl cs) \<le> length as" by (cases Args) auto
    with 2(1) [OF 1, of k "EfiWriteHexStatus sv a w"] 1 show ?thesis
      by (auto simp: EfiWriteHexStatus_def intro: outputs_trans [OF EfiOutput_outputs])
  next
    case 2
    with \<open>format_args (c # cs) \<le> length Args\<close> obtain a as where A: "Args = a # as" "format_args (tl cs) \<le> length as"
      by (cases Args) auto
    with "2.IH"(2) [OF 2, of k "EfiWriteUnsigned sv a w"] 2 show ?thesis
      by (auto simp: EfiWriteUnsigned_def intro: outputs_trans [OF EfiOutput_outputs])
  next
    case 3
    then have "format_args cs \<le> length Args" using \<open>format_args (c # cs) \<le> length Args\<close> by (auto split: if_splits)
    from "2.IH"(3) [OF 3 this, of "k + 1" "EfiOutput sv [c] w"] 3 show ?thesis
      using outputs_trans [OF EfiOutput_outputs [of sv "[c]" w]] by auto
  qed
qed simp

lemma print_line_outputs:
  assumes "format_args (wide t @ [0x0D, 0x0A]) \<le> length Args"
  obtains w' where "print_line sv t Args w = Some w'" "outputs sv (formatted (wide t @ [0x0D, 0x0A]) Args) w w'"
  using Print_loop_outputs [OF assms, of sv 0 w] by (auto simp: print_line_def Print_def)

end
