(* ===== verification/NtxSplash.thy ===== *)
theory NtxSplash
  imports NtxBootText
begin

text \<open>
  The splash screen of the boot loader, \<^verbatim>\<open>boot/uefi/bootx64.c\<close>: pixels, glyphs and the animation.  The framebuffer is the
  array of pixels behind \<^verbatim>\<open>FrameBufferBase\<close>, indexed by the 32-bit index the code computes; characters are bytes.
\<close>

section \<open>Definitions\<close>

type_synonym fb = "u32 \<Rightarrow> u32"

definition BOOT_GLYPH_W :: u32 where "BOOT_GLYPH_W = 8"
definition BOOT_GLYPH_H :: u32 where "BOOT_GLYPH_H = 16"
definition BOOT_GLYPH_ADV :: u32 where "BOOT_GLYPH_ADV = 9"

definition BootSleepUs :: "'fw services \<Rightarrow> u64 \<Rightarrow> ('fw, 'd) loader_world \<Rightarrow> ('fw, 'd) loader_world" where
  "BootSleepUs sv Microseconds w =
     (case sv_Stall sv of None \<Rightarrow> w | Some Stall \<Rightarrow> service_unit (Call_Stall Microseconds) (Stall Microseconds) w)"

definition BootLocateGop :: "'fw services \<Rightarrow> ('fw, 'd) loader_world \<Rightarrow> EFI_GRAPHICS_OUTPUT_PROTOCOL_MODE option \<times> ('fw, 'd) loader_world" where
  "BootLocateGop sv w =
     (case service (\<lambda>_. Call_LocateProtocol) (sv_LocateGop sv) w of
        ((Status, Gop), w1) \<Rightarrow> (if EFI_ERROR Status then None else Gop, w1))"

definition BootMakePixel :: "EFI_GRAPHICS_OUTPUT_PROTOCOL_MODE \<Rightarrow> u8 \<Rightarrow> u8 \<Rightarrow> u8 \<Rightarrow> u32" where
  "BootMakePixel Gop R G B =
     (if gi_PixelFormat (gm_Info Gop) = 1 then push_bit 16 (ucast R) OR push_bit 8 (ucast G) OR ucast B
      else push_bit 16 (ucast B) OR push_bit 8 (ucast G) OR ucast R)"

definition BootDrawPixel :: "EFI_GRAPHICS_OUTPUT_PROTOCOL_MODE \<Rightarrow> u32 \<Rightarrow> u32 \<Rightarrow> u32 \<Rightarrow> fb \<Rightarrow> fb" where
  "BootDrawPixel Gop X Y Pixel f =
     (if X \<ge> gi_HorizontalResolution (gm_Info Gop) \<or> Y \<ge> gi_VerticalResolution (gm_Info Gop) then f
      else f(Y * gi_PixelsPerScanLine (gm_Info Gop) + X := Pixel))"

definition BootFillRect :: "EFI_GRAPHICS_OUTPUT_PROTOCOL_MODE \<Rightarrow> u32 \<Rightarrow> u32 \<Rightarrow> u32 \<Rightarrow> u32 \<Rightarrow> u32 \<Rightarrow> fb \<Rightarrow> fb" where
  "BootFillRect Gop X Y W H Pixel f =
     fold (\<lambda>Row. fold (\<lambda>Col. BootDrawPixel Gop (X + of_nat Col) (Y + of_nat Row) Pixel) [0..<unat W]) [0..<unat H] f"

definition boot_glyphs :: "(u8 \<times> u8 list) list" where
  "boot_glyphs = [
     (0x41, [0x0E, 0x11, 0x11, 0x1F, 0x11, 0x11, 0x11]),
     (0x42, [0x1E, 0x11, 0x11, 0x1E, 0x11, 0x11, 0x1E]),
     (0x44, [0x1E, 0x11, 0x11, 0x11, 0x11, 0x11, 0x1E]),
     (0x45, [0x1F, 0x10, 0x10, 0x1E, 0x10, 0x10, 0x1F]),
     (0x4C, [0x10, 0x10, 0x10, 0x10, 0x10, 0x10, 0x1F]),
     (0x4E, [0x11, 0x19, 0x15, 0x13, 0x11, 0x11, 0x11]),
     (0x4F, [0x0E, 0x11, 0x11, 0x11, 0x11, 0x11, 0x0E]),
     (0x50, [0x1E, 0x11, 0x11, 0x1E, 0x10, 0x10, 0x10]),
     (0x52, [0x1E, 0x11, 0x11, 0x1E, 0x14, 0x12, 0x11]),
     (0x54, [0x1F, 0x04, 0x04, 0x04, 0x04, 0x04, 0x04]),
     (0x55, [0x11, 0x11, 0x11, 0x11, 0x11, 0x11, 0x0E]),
     (0x56, [0x11, 0x11, 0x11, 0x11, 0x11, 0x0A, 0x04]),
     (0x57, [0x11, 0x11, 0x11, 0x15, 0x15, 0x15, 0x0A]),
     (0x58, [0x11, 0x11, 0x0A, 0x04, 0x0A, 0x11, 0x11]),
     (0x59, [0x11, 0x11, 0x0A, 0x04, 0x04, 0x04, 0x04])]"

definition BootGlyphRow5x7 :: "u8 \<Rightarrow> u32 \<Rightarrow> u8" where
  "BootGlyphRow5x7 Ch Row = (case map_of boot_glyphs Ch of Some R \<Rightarrow> R ! unat Row | None \<Rightarrow> 0x00)"

definition BootGlyphRow8x16 :: "u8 \<Rightarrow> u32 \<Rightarrow> u8" where
  "BootGlyphRow8x16 Ch0 Row =
     (let Ch = (if Ch0 \<ge> 0x61 \<and> Ch0 \<le> 0x7A then Ch0 - 0x61 + 0x41 else Ch0) in
      if Row = 0 \<or> Row \<ge> 15 then 0
      else push_bit 1 (BootGlyphRow5x7 Ch (drop_bit 1 (Row - 1)) AND 0x1F))"

definition BootTextChars :: "u8 list \<Rightarrow> u32" where
  "BootTextChars Text = of_nat (length Text)"

definition BootTextWidth :: "u8 list \<Rightarrow> u32 \<Rightarrow> u32" where
  "BootTextWidth Text Scale = (let Count = of_nat (length Text) in if Count = 0 then 0 else Count * (BOOT_GLYPH_ADV * Scale))"

definition BootDrawTextChars :: "EFI_GRAPHICS_OUTPUT_PROTOCOL_MODE \<Rightarrow> u32 \<Rightarrow> u32 \<Rightarrow> u8 list \<Rightarrow> u32 \<Rightarrow> u32 \<Rightarrow> u32 \<Rightarrow> fb \<Rightarrow> fb" where
  "BootDrawTextChars Gop X Y Text CharCount Scale Pixel f =
     fold (\<lambda>ChIndex. fold (\<lambda>Row. fold (\<lambda>Col f1.
         if BootGlyphRow8x16 (Text ! ChIndex) (of_nat Row) AND push_bit (7 - Col) 1 \<noteq> 0
         then BootFillRect Gop (X + (of_nat ChIndex * BOOT_GLYPH_ADV + of_nat Col) * Scale) (Y + of_nat Row * Scale) Scale Scale Pixel f1
         else f1) [0..<8]) [0..<16])
       [0..<min (length Text) (unat CharCount)] f"

definition BootDrawText :: "EFI_GRAPHICS_OUTPUT_PROTOCOL_MODE \<Rightarrow> u32 \<Rightarrow> u32 \<Rightarrow> u8 list \<Rightarrow> u32 \<Rightarrow> u32 \<Rightarrow> fb \<Rightarrow> fb" where
  "BootDrawText Gop X Y Text Scale Pixel f = BootDrawTextChars Gop X Y Text (of_nat (length Text)) Scale Pixel f"

definition on_fb :: "(fb \<Rightarrow> fb) \<Rightarrow> ('fw, 'd) loader_world \<Rightarrow> ('fw, 'd) loader_world" where
  "on_fb f w = w\<lparr>lw_fb := f (lw_fb w)\<rparr>"

definition BootClearFramebufferEarly :: "'fw services \<Rightarrow> ('fw, 'd) loader_world \<Rightarrow> ('fw, 'd) loader_world" where
  "BootClearFramebufferEarly sv w =
     (case BootLocateGop sv w of
        (None, w1) \<Rightarrow> w1
      | (Some Gop, w1) \<Rightarrow>
          on_fb (BootFillRect Gop 0 0 (gi_HorizontalResolution (gm_Info Gop)) (gi_VerticalResolution (gm_Info Gop))
                   (BootMakePixel Gop 0 0 0)) w1)"

text \<open>The scale of the main line: smaller until it fits, but not below 3.\<close>

function main_scale :: "u8 list \<Rightarrow> u32 \<Rightarrow> u32 \<Rightarrow> u32" where
  "main_scale Main Width MainScale =
     (if BootTextWidth Main MainScale > Width - 40 \<and> MainScale > 3 then main_scale Main Width (MainScale - 1) else MainScale)"
  by auto
termination
proof (relation "measure (\<lambda>(_, _, s). unat s)")
  fix Main :: "u8 list" and Width MainScale :: u32
  assume "Width - 40 < BootTextWidth Main MainScale \<and> 3 < MainScale"
  then have "MainScale \<noteq> 0" by auto
  then show "((Main, Width, MainScale - 1), (Main, Width, MainScale)) \<in> measure (\<lambda>(_, _, s). unat s)"
    by (simp add: unat_minus_one unat_gt_0)
qed simp

record splash_layout =
  sp_MainScale :: u32
  sp_SubScale :: u32
  sp_MainW :: u32
  sp_SubW :: u32
  sp_MainH :: u32
  sp_SubH :: u32
  sp_MainX :: u32
  sp_MainY :: u32
  sp_SubX :: u32
  sp_SubY :: u32

definition splash_Main :: "u8 list" where "splash_Main = map of_char ''NOVA TARANTULA''"
definition splash_Sub :: "u8 list" where "splash_Sub = map of_char ''POWERED BY NTX''"
definition splash_Fade :: "u8 list" where "splash_Fade = [0x30, 0x50, 0x70, 0x90, 0xB0, 0xD0]"

definition splash_layout_of :: "u32 \<Rightarrow> u32 \<Rightarrow> splash_layout" where
  "splash_layout_of Width Height =
     (let MainScale = main_scale splash_Main Width 8; SubScale = 4;
          MainW = BootTextWidth splash_Main MainScale; SubW = BootTextWidth splash_Sub SubScale;
          MainH = BOOT_GLYPH_H * MainScale; SubH = BOOT_GLYPH_H * SubScale; MainY = Height div 2 - MainH
      in \<lparr>sp_MainScale = MainScale, sp_SubScale = SubScale, sp_MainW = MainW, sp_SubW = SubW, sp_MainH = MainH, sp_SubH = SubH,
          sp_MainX = (if Width > MainW then (Width - MainW) div 2 else 0), sp_MainY = MainY,
          sp_SubX = (if Width > SubW then (Width - SubW) div 2 else 0), sp_SubY = MainY + MainH + 24\<rparr>)"

definition shadow_offset :: "u32 \<Rightarrow> u32" where
  "shadow_offset Scale = (if Scale > 1 then Scale div 2 else 1)"

text \<open>One step of each of the two animations.\<close>

definition splash_main_step :: "'fw services \<Rightarrow> EFI_GRAPHICS_OUTPUT_PROTOCOL_MODE \<Rightarrow> splash_layout \<Rightarrow> nat \<Rightarrow> ('fw, 'd) loader_world \<Rightarrow> ('fw, 'd) loader_world" where
  "splash_main_step sv Gop l StepChars w =
     (let sc = sp_MainScale l; d = shadow_offset sc in
      BootSleepUs sv 35000
        (on_fb (\<lambda>f. BootDrawTextChars Gop (sp_MainX l) (sp_MainY l) splash_Main (of_nat StepChars) sc (BootMakePixel Gop 0xEA 0xEA 0xEA)
          (BootDrawTextChars Gop (sp_MainX l + d) (sp_MainY l + d) splash_Main (of_nat StepChars) sc (BootMakePixel Gop 0x18 0x24 0x38)
            (BootFillRect Gop (sp_MainX l) (sp_MainY l) (sp_MainW l + sc + 2) (sp_MainH l + sc + 2) (BootMakePixel Gop 0 0 0) f))) w))"

definition splash_sub_step :: "'fw services \<Rightarrow> EFI_GRAPHICS_OUTPUT_PROTOCOL_MODE \<Rightarrow> splash_layout \<Rightarrow> u8 \<Rightarrow> ('fw, 'd) loader_world \<Rightarrow> ('fw, 'd) loader_world" where
  "splash_sub_step sv Gop l Fade w =
     (let sc = sp_SubScale l; d = shadow_offset sc in
      BootSleepUs sv 85000
        (on_fb (\<lambda>f. BootDrawText Gop (sp_SubX l) (sp_SubY l) splash_Sub sc (BootMakePixel Gop Fade Fade Fade)
          (BootDrawText Gop (sp_SubX l + d) (sp_SubY l + d) splash_Sub sc (BootMakePixel Gop 0x10 0x18 0x28)
            (BootFillRect Gop (sp_SubX l) (sp_SubY l) (sp_SubW l + sc + 2) (sp_SubH l + sc + 2) (BootMakePixel Gop 0 0 0) f))) w))"

definition BootShowSplash :: "'fw services \<Rightarrow> ('fw, 'd) loader_world \<Rightarrow> ('fw, 'd) loader_world option" where
  "BootShowSplash sv w =
     (case BootLocateGop sv w of
        (None, w1) \<Rightarrow> do { w2 \<leftarrow> print_line sv ''Nova Tarantula'' [] w1; print_line sv ''Powered by NTX'' [] w2 }
      | (Some Gop, w1) \<Rightarrow>
          let Width = gi_HorizontalResolution (gm_Info Gop); Height = gi_VerticalResolution (gm_Info Gop);
              l = splash_layout_of Width Height;
              w2 = on_fb (BootFillRect Gop 0 0 Width Height (BootMakePixel Gop 0 0 0)) w1;
              w3 = fold (splash_main_step sv Gop l) [1..<Suc (unat (BootTextChars splash_Main))] w2;
              w4 = fold (splash_sub_step sv Gop l) splash_Fade w3;
              w5 = BootSleepUs sv 1800000 w4
          in if gBootVerbose then print_line sv ''[BOOT] verbose mode enabled (default)'' [] w5 else Some w5)"

section \<open>What drawing changes\<close>

definition pixel_visible :: "EFI_GRAPHICS_OUTPUT_PROTOCOL_MODE \<Rightarrow> u32 \<Rightarrow> bool" where
  "pixel_visible Gop i \<longleftrightarrow>
     (\<exists>x y. x < gi_HorizontalResolution (gm_Info Gop) \<and> y < gi_VerticalResolution (gm_Info Gop) \<and>
        i = y * gi_PixelsPerScanLine (gm_Info Gop) + x)"

text \<open>A drawing: pixels that are not visible stay as they are, and what a visible pixel becomes depends on visible pixels only.\<close>

definition drawing :: "EFI_GRAPHICS_OUTPUT_PROTOCOL_MODE \<Rightarrow> (fb \<Rightarrow> fb) \<Rightarrow> bool" where
  "drawing Gop g \<longleftrightarrow> (\<forall>f i. \<not> pixel_visible Gop i \<longrightarrow> g f i = f i) \<and>
     (\<forall>f f'. (\<forall>i. pixel_visible Gop i \<longrightarrow> f i = f' i) \<longrightarrow> (\<forall>i. pixel_visible Gop i \<longrightarrow> g f i = g f' i))"

lemma drawing_id [simp]: "drawing Gop (\<lambda>f. f)"
  by (simp add: drawing_def)

lemma drawing_comp: "drawing Gop g \<Longrightarrow> drawing Gop h \<Longrightarrow> drawing Gop (\<lambda>f. g (h f))"
  unfolding drawing_def by (intro conjI allI impI) (simp, blast)

lemma drawing_fold: "(\<And>x. x \<in> set xs \<Longrightarrow> drawing Gop (g x)) \<Longrightarrow> drawing Gop (fold g xs)"
proof (induction xs)
  case (Cons x xs)
  then show ?case using drawing_comp [of Gop "fold g xs" "g x"] by (simp add: comp_def)
qed (simp add: id_def)

lemma drawing_pixel: "drawing Gop (BootDrawPixel Gop x y p)"
  by (auto simp: drawing_def BootDrawPixel_def pixel_visible_def not_le)

lemma drawing_fill: "drawing Gop (BootFillRect Gop x y w h p)"
  unfolding BootFillRect_def by (intro drawing_fold drawing_pixel)

lemma drawing_text: "drawing Gop (BootDrawTextChars Gop x y t n sc p)"
proof -
  have "drawing Gop (\<lambda>f. if b then BootFillRect Gop x' y' sc sc p f else f)" for b x' y' by (cases b) (simp_all add: drawing_fill)
  then show ?thesis unfolding BootDrawTextChars_def by (intro drawing_fold)
qed

text \<open>The whole screen is filled: every visible pixel has the colour.\<close>

lemma fill_row:
  assumes "i = (Y :: u32) * pitch + X" "X < W" "Y < H" "pitch = gi_PixelsPerScanLine (gm_Info Gop)"
    "W = gi_HorizontalResolution (gm_Info Gop)" "H = gi_VerticalResolution (gm_Info Gop)" "unat X < k"
  shows "fold (\<lambda>Col. BootDrawPixel Gop (0 + of_nat Col) Y p) [0..<k] f i = p"
  using assms(7)
proof (induction k)
  case (Suc k)
  then show ?case using assms(1-6) by (cases "unat X = k") (auto simp: BootDrawPixel_def)
qed simp

lemma fill_keeps_colour: "f i = p \<Longrightarrow> fold (\<lambda>Col. BootDrawPixel Gop (x Col) y p) cs f i = p"
  by (induction cs arbitrary: f) (simp_all add: BootDrawPixel_def)

lemma fill_screen:
  assumes "pixel_visible Gop i"
  shows "BootFillRect Gop 0 0 (gi_HorizontalResolution (gm_Info Gop)) (gi_VerticalResolution (gm_Info Gop)) p f i = p"
proof -
  obtain X Y where v: "X < gi_HorizontalResolution (gm_Info Gop)" "Y < gi_VerticalResolution (gm_Info Gop)"
    "i = Y * gi_PixelsPerScanLine (gm_Info Gop) + X" using assms by (auto simp: pixel_visible_def)
  let ?row = "\<lambda>Row. fold (\<lambda>Col. BootDrawPixel Gop (0 + of_nat Col) (0 + of_nat Row) p) [0..<unat (gi_HorizontalResolution (gm_Info Gop))]"
  have "unat Y < k \<Longrightarrow> fold ?row [0..<k] f i = p" for k
  proof (induction k)
    case (Suc k)
    show ?case
    proof (cases "unat Y = k")
      case True
      then have "of_nat k = Y" by auto
      with fill_row [OF v(3,1,2) refl refl refl, of "unat (gi_HorizontalResolution (gm_Info Gop))" p "fold ?row [0..<k] f"] v(1)
      show ?thesis by (simp add: word_less_nat_alt)
    next
      case False
      with Suc show ?thesis by (simp add: fill_keeps_colour)
    qed
  qed simp
  from this [of "unat (gi_VerticalResolution (gm_Info Gop))"] v(2) show ?thesis
    by (simp add: BootFillRect_def word_less_nat_alt)
qed

text \<open>A step that draws: it changes visible pixels and makes firmware calls, nothing else.\<close>

definition paints :: "EFI_GRAPHICS_OUTPUT_PROTOCOL_MODE \<Rightarrow> ('fw, 'd) loader_world \<Rightarrow> ('fw, 'd) loader_world \<Rightarrow> bool" where
  "paints Gop w w' \<longleftrightarrow> lw_mem w' = lw_mem w \<and> lw_dev w' = lw_dev w \<and> (\<forall>i. \<not> pixel_visible Gop i \<longrightarrow> lw_fb w' i = lw_fb w i)"

lemma paints_refl [simp]: "paints Gop w w"
  by (simp add: paints_def)

lemma paints_trans: "paints Gop w w' \<Longrightarrow> paints Gop w' w'' \<Longrightarrow> paints Gop w w''"
  by (simp add: paints_def)

lemma paints_fold: "(\<And>x w. x \<in> set xs \<Longrightarrow> paints Gop w (g x w)) \<Longrightarrow> paints Gop w (fold g xs w)"
  by (induction xs arbitrary: w) (simp_all, blast intro: paints_trans)

lemma paints_on_fb: "drawing Gop g \<Longrightarrow> paints Gop w (on_fb g w)"
  by (simp add: paints_def on_fb_def drawing_def)

lemma paints_sleep: "paints Gop w (BootSleepUs sv n w)"
  by (simp add: paints_def BootSleepUs_def service_unit_def split: option.split)

lemma paints_outputs: "outputs sv t w w' \<Longrightarrow> paints Gop w w'"
  by (simp add: paints_def outputs_def)

lemma drawing_whole_text: "drawing Gop (BootDrawText Gop x y t sc p)"
  unfolding BootDrawText_def [abs_def] by (rule drawing_text)

lemma paints_main_step: "paints Gop w (splash_main_step sv Gop l n w)"
  unfolding splash_main_step_def Let_def
  by (rule paints_trans [OF paints_on_fb [OF drawing_comp [OF drawing_text drawing_comp [OF drawing_text drawing_fill]]] paints_sleep])

lemma paints_sub_step: "paints Gop w (splash_sub_step sv Gop l v w)"
  unfolding splash_sub_step_def Let_def
  by (rule paints_trans [OF paints_on_fb [OF drawing_comp [OF drawing_whole_text drawing_comp [OF drawing_whole_text drawing_fill]]] paints_sleep])

lemma locate_gop: "lw_mem (snd (BootLocateGop sv w)) = lw_mem w" "lw_fb (snd (BootLocateGop sv w)) = lw_fb w"
  "lw_dev (snd (BootLocateGop sv w)) = lw_dev w"
  by (simp_all add: BootLocateGop_def service_def split: prod.split)

section \<open>The splash screen\<close>

text \<open>Two worlds that differ at most in pixels that are not visible.\<close>

definition agree :: "EFI_GRAPHICS_OUTPUT_PROTOCOL_MODE \<Rightarrow> ('fw, 'd) loader_world \<Rightarrow> ('fw, 'd) loader_world \<Rightarrow> bool" where
  "agree Gop w w' \<longleftrightarrow> lw_boot w' = lw_boot w \<and> lw_mem w' = lw_mem w \<and> lw_dev w' = lw_dev w \<and>
     (\<forall>i. pixel_visible Gop i \<longrightarrow> lw_fb w' i = lw_fb w i)"

lemma agree_on_fb: "drawing Gop g \<Longrightarrow> agree Gop w w' \<Longrightarrow> agree Gop (on_fb g w) (on_fb g w')"
  unfolding agree_def on_fb_def drawing_def by auto

lemma agree_sleep: "agree Gop w w' \<Longrightarrow> agree Gop (BootSleepUs sv n w) (BootSleepUs sv n w')"
  by (auto simp: agree_def BootSleepUs_def service_unit_def split: option.split)

lemma agree_fold: "(\<And>x w w'. agree Gop w w' \<Longrightarrow> agree Gop (g x w) (g x w')) \<Longrightarrow> agree Gop w w' \<Longrightarrow> agree Gop (fold g xs w) (fold g xs w')"
  by (induction xs arbitrary: w w') simp_all

lemma agree_main_step: "agree Gop w w' \<Longrightarrow> agree Gop (splash_main_step sv Gop l n w) (splash_main_step sv Gop l n w')"
  unfolding splash_main_step_def Let_def
  by (intro agree_sleep agree_on_fb [OF drawing_comp [OF drawing_text drawing_comp [OF drawing_text drawing_fill]]])

lemma agree_sub_step: "agree Gop w w' \<Longrightarrow> agree Gop (splash_sub_step sv Gop l v w) (splash_sub_step sv Gop l v w')"
  unfolding splash_sub_step_def Let_def
  by (intro agree_sleep agree_on_fb [OF drawing_comp [OF drawing_whole_text drawing_comp [OF drawing_whole_text drawing_fill]]])

lemma agree_filled:
  "agree Gop (on_fb (BootFillRect Gop 0 0 (gi_HorizontalResolution (gm_Info Gop)) (gi_VerticalResolution (gm_Info Gop)) p) w)
     (on_fb (BootFillRect Gop 0 0 (gi_HorizontalResolution (gm_Info Gop)) (gi_VerticalResolution (gm_Info Gop)) p) (w\<lparr>lw_fb := f\<rparr>))"
  by (auto simp: agree_def on_fb_def fill_screen)

lemma no_format_args: "format_args (wide ''Nova Tarantula'' @ [0x0D, 0x0A]) = 0" "format_args (wide ''Powered by NTX'' @ [0x0D, 0x0A]) = 0"
  "format_args (wide ''[BOOT] verbose mode enabled (default)'' @ [0x0D, 0x0A]) = 0"
  by (simp_all add: wide_def of_char_def)

lemma locate_gop_fb: "BootLocateGop sv (w\<lparr>lw_fb := f\<rparr>) = apsnd (\<lambda>w. w\<lparr>lw_fb := f\<rparr>) (BootLocateGop sv w)"
  by (simp add: BootLocateGop_def service_def split: prod.split)

text \<open>The splash screen draws on the screen and nowhere else, and what it leaves there does not depend on what was there:
  it returns, only visible pixels change, memory and devices stay as they are, and two runs that differ in the
  pixels before show the same afterwards.\<close>

theorem BootShowSplash_screen:
  assumes "fst (BootLocateGop sv w) = Some Gop"
  shows "\<exists>w'. BootShowSplash sv w = Some w' \<and> paints Gop w w' \<and>
    (\<forall>f. \<exists>w2. BootShowSplash sv (w\<lparr>lw_fb := f\<rparr>) = Some w2 \<and> (\<forall>i. pixel_visible Gop i \<longrightarrow> lw_fb w2 i = lw_fb w' i))"
proof -
  obtain w1 where w1: "BootLocateGop sv w = (Some Gop, w1)" using assms by (cases "BootLocateGop sv w") simp
  let ?l = "splash_layout_of (gi_HorizontalResolution (gm_Info Gop)) (gi_VerticalResolution (gm_Info Gop))"
  let ?a = "on_fb (BootFillRect Gop 0 0 (gi_HorizontalResolution (gm_Info Gop)) (gi_VerticalResolution (gm_Info Gop)) (BootMakePixel Gop 0 0 0))"
  let ?b = "\<lambda>w. BootSleepUs sv 1800000 (fold (splash_sub_step sv Gop ?l) splash_Fade
    (fold (splash_main_step sv Gop ?l) [1..<Suc (unat (BootTextChars splash_Main))] w))"
  have print: "\<exists>w'. print_line sv ''[BOOT] verbose mode enabled (default)'' [] w = Some w' \<and> paints Gop w w' \<and> lw_fb w' = lw_fb w" for w :: "('a, 'b) loader_world"
  proof -
    obtain w' where "print_line sv ''[BOOT] verbose mode enabled (default)'' [] w = Some w'"
      and o: "outputs sv (formatted (wide ''[BOOT] verbose mode enabled (default)'' @ [0x0D, 0x0A]) []) w w'"
      using print_line_outputs [OF eq_imp_le [OF trans [OF no_format_args(3) list.size(3) [symmetric]]]] .
    with paints_outputs [OF o, of Gop] o show ?thesis by (simp add: outputs_def)
  qed
  have run: "\<exists>w2. BootShowSplash sv (w\<lparr>lw_fb := f\<rparr>) = Some w2 \<and> paints Gop (?b (?a (w1\<lparr>lw_fb := f\<rparr>))) w2 \<and>
      lw_fb w2 = lw_fb (?b (?a (w1\<lparr>lw_fb := f\<rparr>)))" for f
    using print [of "?b (?a (w1\<lparr>lw_fb := f\<rparr>))"]
    by (simp add: BootShowSplash_def locate_gop_fb w1 gBootVerbose_def Let_def)
  have same: "agree Gop (?b (?a w1)) (?b (?a (w1\<lparr>lw_fb := f\<rparr>)))" for f
    by (intro agree_sleep agree_fold [OF agree_sub_step] agree_fold [OF agree_main_step] agree_filled)
  have "paints Gop w w1" using locate_gop [of sv w] w1 by (simp add: paints_def)
  then have p: "paints Gop w (?b (?a w1))"
    by (intro paints_trans [OF _ paints_sleep] paints_trans [OF _ paints_fold [OF paints_sub_step]]
        paints_trans [OF _ paints_fold [OF paints_main_step]] paints_trans [OF _ paints_on_fb [OF drawing_fill]])
  have f: "w\<lparr>lw_fb := lw_fb w\<rparr> = w" "w1\<lparr>lw_fb := lw_fb w\<rparr> = w1" using locate_gop(2) [of sv w] w1 by simp_all
  obtain w' where w': "BootShowSplash sv w = Some w'" "paints Gop (?b (?a w1)) w'" "lw_fb w' = lw_fb (?b (?a w1))"
    using run [of "lw_fb w"] unfolding f by blast
  have "\<exists>w2. BootShowSplash sv (w\<lparr>lw_fb := g\<rparr>) = Some w2 \<and> (\<forall>i. pixel_visible Gop i \<longrightarrow> lw_fb w2 i = lw_fb w' i)" for g
    using run [of g] same [of g] w'(3) by (auto simp: agree_def)
  with w' paints_trans [OF p w'(2)] show ?thesis by blast
qed

end
