(* ===== verification/NtxLoader.thy ===== *)
theory NtxLoader
  imports NtxSplash
begin

text \<open>
  The boot loader from its entry to the jump into the kernel, \<^verbatim>\<open>efi_main\<close> of \<^verbatim>\<open>boot/uefi/bootx64.c\<close>, with the file access
  it uses.

  A phase of the loader returns a status or a value, and the world; \<open>None\<close> stands for a relocation loop that does not
  end and for a division by a descriptor size of 0.  A file read into memory is the bytes at its buffer.  The snapshot and the boot information are the records of
  \<open>NtxBootMap\<close>; the firmware keeps the blocks it hands out apart.
\<close>

section \<open>Definitions\<close>

subsection \<open>Files\<close>

definition pool_alloc :: "'fw services \<Rightarrow> u64 \<Rightarrow> ('fw, 'd) loader_world \<Rightarrow> u64 \<times> ('fw, 'd) loader_world" where
  "pool_alloc sv Size w = (case AllocatePool (sv_boot sv) Size (lw_boot w) of (Buffer, b) \<Rightarrow> (Buffer, w\<lparr>lw_boot := b\<rparr>))"

definition pool_free :: "'fw services \<Rightarrow> u64 \<Rightarrow> ('fw, 'd) loader_world \<Rightarrow> ('fw, 'd) loader_world" where
  "pool_free sv Buffer w = w\<lparr>lw_boot := FreePool (sv_boot sv) Buffer (lw_boot w)\<rparr>"

definition handle_protocol :: "'fw services \<Rightarrow> u64 \<Rightarrow> EFI_GUID \<Rightarrow> ('fw, 'd) loader_world \<Rightarrow> (EFI_STATUS \<times> u64) \<times> ('fw, 'd) loader_world" where
  "handle_protocol sv Handle Protocol w = service (\<lambda>_. Call_HandleProtocol Handle) (sv_HandleProtocol sv Handle Protocol) w"

definition OpenRootVolume :: "'fw services \<Rightarrow> u64 \<Rightarrow> ('fw, 'd) loader_world \<Rightarrow> (EFI_STATUS + u64) \<times> ('fw, 'd) loader_world" where
  "OpenRootVolume sv ImageHandle w =
     (case handle_protocol sv ImageHandle gEfiLoadedImageProtocolGuid w of
        ((Status, LoadedImage), w1) \<Rightarrow>
          if EFI_ERROR Status then (Inl Status, w1)
          else
            case handle_protocol sv (li_DeviceHandle (sv_LoadedImage sv LoadedImage (bw_firmware (lw_boot w1)))) gEfiSimpleFileSystemProtocolGuid w1 of
              ((Status, SimpleFs), w2) \<Rightarrow>
                if EFI_ERROR Status then (Inl Status, w2)
                else
                  case service (\<lambda>_. Call_OpenVolume SimpleFs) (sv_OpenVolume sv SimpleFs) w2 of
                    ((Status, Root), w3) \<Rightarrow> (if EFI_ERROR Status then Inl Status else Inr Root, w3))"

definition SIZE_OF_EFI_FILE_INFO :: u64 where "SIZE_OF_EFI_FILE_INFO = 80"

definition close_file :: "'fw services \<Rightarrow> u64 \<Rightarrow> ('fw, 'd) loader_world \<Rightarrow> ('fw, 'd) loader_world" where
  "close_file sv File w = service_unit (Call_Close File) (sv_Close sv File) w"

definition get_info :: "'fw services \<Rightarrow> u64 \<Rightarrow> u64 \<Rightarrow> ('fw, 'd) loader_world \<Rightarrow> (EFI_STATUS \<times> u64 \<times> u64) \<times> ('fw, 'd) loader_world" where
  "get_info sv File InfoSize w = service (\<lambda>_. Call_GetInfo File InfoSize) (sv_GetInfo sv File InfoSize) w"

text \<open>The file information: its buffer and \<^verbatim>\<open>FileSize\<close>.  On an error the file has been closed and the buffer freed.\<close>

definition read_info :: "'fw services \<Rightarrow> u64 \<Rightarrow> ('fw, 'd) loader_world \<Rightarrow> (EFI_STATUS + u64 \<times> u64) \<times> ('fw, 'd) loader_world" where
  "read_info sv File w =
     (let finish = (\<lambda>Status Info FileSize w. if EFI_ERROR Status then (Inl Status, close_file sv File (pool_free sv Info w)) else (Inr (Info, FileSize), w)) in
      case pool_alloc sv (SIZE_OF_EFI_FILE_INFO + 256) w of
        (Info, w1) \<Rightarrow>
          if Info = 0 then (Inl EFI_OUT_OF_RESOURCES, close_file sv File w1)
          else
            case get_info sv File (SIZE_OF_EFI_FILE_INFO + 256) w1 of
              ((Status, InfoSize, FileSize), w2) \<Rightarrow>
                if Status = EFI_BUFFER_TOO_SMALL then
                  (case pool_alloc sv InfoSize (pool_free sv Info w2) of
                     (Info, w3) \<Rightarrow>
                       if Info = 0 then (Inl EFI_OUT_OF_RESOURCES, close_file sv File w3)
                       else case get_info sv File InfoSize w3 of ((Status, _, FileSize), w4) \<Rightarrow> finish Status Info FileSize w4)
                else finish Status Info FileSize w2)"

definition ReadWholeFile ::
    "'fw services \<Rightarrow> u64 \<Rightarrow> u16 list \<Rightarrow> ('fw, 'd) loader_world \<Rightarrow> (EFI_STATUS + u64 \<times> u64) \<times> ('fw, 'd) loader_world" where
  "ReadWholeFile sv Root Path w =
     (case service (\<lambda>(_, File). Call_Open Root Path File) (sv_Open sv Root Path) w of
        ((Status, File), w1) \<Rightarrow>
          if EFI_ERROR Status then (Inl Status, w1)
          else
            case read_info sv File w1 of
              (Inl Status, w2) \<Rightarrow> (Inl Status, w2)
            | (Inr (Info, ReadSize), w2) \<Rightarrow>
                case pool_alloc sv ReadSize w2 of
                  (FileBuffer, w3) \<Rightarrow>
                    if FileBuffer = 0 then (Inl EFI_OUT_OF_RESOURCES, close_file sv File (pool_free sv Info w3))
                    else
                      case service (\<lambda>(_, Count, Data). Call_Read File FileBuffer Count Data) (sv_Read sv File ReadSize) w3 of
                        ((Status, ReadSize, Data), w4) \<Rightarrow>
                          let w5 = w4\<lparr>lw_mem := CopyMem FileBuffer Data (of_nat (length Data)) (lw_mem w4)\<rparr>;
                              w6 = pool_free sv Info (close_file sv File w5)
                          in if EFI_ERROR Status then (Inl Status, pool_free sv FileBuffer w6)
                             else (Inr (FileBuffer, ReadSize), w6))"

definition file_bytes :: "byte_mem \<Rightarrow> u64 \<Rightarrow> u64 \<Rightarrow> u8 list" where
  "file_bytes m Buffer Size = map (\<lambda>i. m (Buffer + of_nat i)) [0..<unat Size]"

subsection \<open>Loading the kernel\<close>

text \<open>
  \<open>LoadKpeImage\<close> with the page allocation of the firmware: one call at the preferred base, and one anywhere when that fails
  and the image can be relocated.
\<close>

definition alloc_pages :: "'fw services \<Rightarrow> EFI_ALLOCATE_TYPE \<Rightarrow> u64 \<Rightarrow> u64 \<Rightarrow> ('fw, 'd) loader_world \<Rightarrow> (EFI_STATUS \<times> u64) \<times> ('fw, 'd) loader_world" where
  "alloc_pages sv Type Pages Base w = service (\<lambda>(Status, Granted). Call_AllocatePages Type Pages Base Status Granted) (sv_AllocatePages sv Type Pages Base) w"

definition load_image ::
    "'fw services \<Rightarrow> u8 list \<Rightarrow> ('fw, 'd) loader_world \<Rightarrow> ((EFI_STATUS + u64 \<times> u64 \<times> u64 \<times> u64) \<times> ('fw, 'd) loader_world) option" where
  "load_image sv File w =
     (case ValidateKpeImage File of
        None \<Rightarrow> Some (Inl EFI_LOAD_ERROR, w)
      | Some (Nt, _) \<Rightarrow>
          let opt = nt_OptionalHeader Nt; Pages = EFI_SIZE_TO_PAGES (ucast (opt_SizeOfImage opt));
              (first, w1) = alloc_pages sv AllocateAddress Pages (opt_ImageBase opt) w;
              (any, w2) = (if EFI_ERROR (fst first) \<and> (opt_DllCharacteristics opt AND KPE_DLLCHAR_DYNAMIC_BASE) \<noteq> 0
                           then alloc_pages sv AllocateAnyPages Pages 0 w1 else (first, w1))
          in do {
            (r, m) \<leftarrow> LoadKpeImage (\<lambda>Type _ _. if Type = AllocateAddress then first else any) File (lw_mem w2);
            Some (r, w2\<lparr>lw_mem := m\<rparr>) })"

subsection \<open>The phases of the loader\<close>

definition ascii_line :: "string \<Rightarrow> u8 list option" where
  "ascii_line t = Some (map of_char t @ [0x0A])"

definition boot_fail :: "'fw services \<Rightarrow> string \<Rightarrow> u64 list \<Rightarrow> EFI_STATUS \<Rightarrow> ('fw, 'd) loader_world \<Rightarrow> ((EFI_STATUS + 'a) \<times> ('fw, 'd) loader_world) option" where
  "boot_fail sv t Args Status w = do { w1 \<leftarrow> print_line sv t Args w; Some (Inl Status, w1) }"

definition kernel_path :: "u16 list" where
  "kernel_path = [0x5C] @ wide ''kernel'' @ [0x5C] @ wide ''ntxkrnl.kpe''"

definition init_path :: "u16 list" where
  "init_path = [0x5C] @ wide ''System'' @ [0x5C] @ wide ''init.kpe''"

text \<open>The kernel file and the initial program, which may be missing.\<close>

definition boot_files ::
    "'fw services \<Rightarrow> 'd ports \<Rightarrow> u64 \<Rightarrow> ('fw, 'd) loader_world \<Rightarrow> ((EFI_STATUS + (u64 \<times> u64) \<times> u64 \<times> u64) \<times> ('fw, 'd) loader_world) option" where
  "boot_files sv io ImageHandle w = do {
     w1 \<leftarrow> BOOT_VERBOSE_PRINT sv ''NTX Boot: UEFI boot begin'' []
       (on_serial (BootSerialWriteAscii io (ascii_line ''[BL] efi_main entered'')) (on_serial (BootSerialInit io) w));
     (case OpenRootVolume sv ImageHandle w1 of
        (Inl Status, w2) \<Rightarrow> boot_fail sv ''AsterLoader: root volume open failed: %r'' [Status] Status w2
      | (Inr Root, w2) \<Rightarrow> do {
          w3 \<leftarrow> BOOT_VERBOSE_PRINT sv ''AsterLoader: root volume open ok'' [] w2;
          (case ReadWholeFile sv Root kernel_path w3 of
             (Inl Status, w4) \<Rightarrow> boot_fail sv ''AsterLoader: kernel file read failed: %r'' [Status] Status w4
           | (Inr (KernelBuffer, KernelFileSize), w4) \<Rightarrow> do {
               w5 \<leftarrow> BOOT_VERBOSE_PRINT sv ''AsterLoader: kernel file bytes=%u'' [KernelFileSize] w4;
               (case ReadWholeFile sv Root init_path w5 of
                  (Inl _, w6) \<Rightarrow> do {
                    w7 \<leftarrow> print_line sv ''AsterLoader: init.kpe not found, continuing without init'' [] w6;
                    Some (Inr ((KernelBuffer, KernelFileSize), 0, 0), w7) }
                | (Inr (InitBuffer, InitFileSize), w6) \<Rightarrow> do {
                    w7 \<leftarrow> print_line sv ''AsterLoader: init.kpe loaded (%u bytes)'' [InitFileSize] w6;
                    Some (Inr ((KernelBuffer, KernelFileSize), InitBuffer, InitFileSize), w7) }) }) }) }"

text \<open>The image and its entry address, which is checked again.\<close>

definition boot_load ::
    "'fw services \<Rightarrow> u64 \<Rightarrow> u64 \<Rightarrow> ('fw, 'd) loader_world \<Rightarrow> ((EFI_STATUS + u64 \<times> u64 \<times> u64) \<times> ('fw, 'd) loader_world) option" where
  "boot_load sv KernelBuffer KernelFileSize w = do {
     w1 \<leftarrow> BOOT_VERBOSE_PRINT sv ''AsterLoader: stage load kernel image'' [] w;
     (r, w2) \<leftarrow> load_image sv (file_bytes (lw_mem w1) KernelBuffer KernelFileSize) w1;
     (case r of
        Inl Status \<Rightarrow> boot_fail sv ''AsterLoader: kernel load failed: %r'' [Status] Status w2
      | Inr (KernelBase, KernelImageSize, KernelEntry, KernelRelocationDelta) \<Rightarrow> do {
          w3 \<leftarrow> BOOT_VERBOSE_PRINT sv ''AsterLoader: stage kernel image ready'' [] w2;
          w4 \<leftarrow> BOOT_VERBOSE_PRINT sv ''AsterLoader: kernel image bytes=%u'' [KernelImageSize] w3;
          w5 \<leftarrow> BOOT_VERBOSE_PRINT sv ''AsterLoader: kernel base=%r'' [KernelBase] w4;
          w6 \<leftarrow> BOOT_VERBOSE_PRINT sv ''AsterLoader: kernel entry=%r'' [KernelEntry] w5;
          w7 \<leftarrow> BOOT_VERBOSE_PRINT sv ''AsterLoader: kernel entry offset=%r'' [KernelEntry - KernelBase] w6;
          w8 \<leftarrow> BOOT_VERBOSE_PRINT sv ''AsterLoader: kernel reloc delta=%r'' [KernelRelocationDelta] w7;
          if KernelEntry < KernelBase \<or> KernelEntry \<ge> KernelBase + KernelImageSize
          then boot_fail sv ''AsterLoader: kernel entry out of range'' [] EFI_LOAD_ERROR w8
          else Some (Inr (KernelBase, KernelImageSize, KernelEntry), w8) }) }"

definition gop_tuple :: "EFI_GRAPHICS_OUTPUT_PROTOCOL_MODE \<Rightarrow> u64 \<times> u64 \<times> u32 \<times> u32 \<times> u32 \<times> u32" where
  "gop_tuple Gop = (gm_FrameBufferBase Gop, gm_FrameBufferSize Gop, gi_HorizontalResolution (gm_Info Gop),
     gi_VerticalResolution (gm_Info Gop), gi_PixelsPerScanLine (gm_Info Gop), gi_PixelFormat (gm_Info Gop))"

text \<open>The boot information: its address and contents, and the snapshot.  \<open>Snapshot0\<close> is what the stack held.\<close>

definition boot_info ::
    "'fw services \<Rightarrow> u64 \<Rightarrow> BOOT_MEMORY_SNAPSHOT \<Rightarrow> u64 \<times> u64 \<times> u64 \<Rightarrow> u64 \<times> u64 \<Rightarrow> ('fw, 'd) loader_world \<Rightarrow>
     ((EFI_STATUS + u64 \<times> BOOT_INFO \<times> BOOT_MEMORY_SNAPSHOT) \<times> ('fw, 'd) loader_world) option" where
  "boot_info sv ImageHandle Snapshot0 kimage init w =
     (case kimage of (KernelBase, KernelImageSize, KernelEntry) \<Rightarrow> do {
        w1 \<leftarrow> BOOT_VERBOSE_PRINT sv ''AsterLoader: stage loader protocol'' [] w;
        (case handle_protocol sv ImageHandle gEfiLoadedImageProtocolGuid w1 of
           ((Status, LoadedImage), w2) \<Rightarrow>
             if EFI_ERROR Status then boot_fail sv ''AsterLoader: image protocol missing: %r'' [Status] Status w2
             else
               case pool_alloc sv sizeof_BOOT_INFO w2 of
                 (BootInfo, w3) \<Rightarrow>
                   if BootInfo = 0 then Some (Inl EFI_OUT_OF_RESOURCES, w3)
                   else do {
                     w4 \<leftarrow> BOOT_VERBOSE_PRINT sv ''AsterLoader: stage snapshot memory map'' [] w3;
                     (Status, sn, b) \<leftarrow> SnapshotMemoryMap (sv_boot sv) Snapshot0 (lw_boot w4);
                     let w5 = w4\<lparr>lw_boot := b\<rparr>;
                     if EFI_ERROR Status then boot_fail sv ''AsterLoader: memory map snapshot failed: %r'' [Status] Status w5
                     else do {
                       let sn1 = ConvertMemoryMap sn;
                       w6 \<leftarrow> BOOT_VERBOSE_PRINT sv ''AsterLoader: stage boot info ready'' [] w5;
                       w7 \<leftarrow> BOOT_VERBOSE_PRINT sv ''AsterLoader: mmap entries=%u'' [sn_RangeCount sn1] w6;
                       let LoaderBase = li_ImageBase (sv_LoadedImage sv LoadedImage (bw_firmware (lw_boot w7)));
                       let (gop, w8) = service (\<lambda>_. Call_LocateProtocol) (sv_LocateGop sv) w7;
                       Some (Inr (BootInfo,
                         PopulateBootInfo (apsnd (map_option gop_tuple) gop) LoaderBase KernelBase KernelImageSize KernelEntry
                           (fst init) (snd init) sn1 gBootVerbose, sn1), w8) } }) })"

text \<open>The way out: the splash screen, the exit from boot services, and the trace up to the jump.\<close>

definition boot_exit ::
    "'fw services \<Rightarrow> 'd ports \<Rightarrow> u64 \<Rightarrow> BOOT_INFO \<Rightarrow> BOOT_MEMORY_SNAPSHOT \<Rightarrow> ('fw, 'd) loader_world \<Rightarrow>
     ((EFI_STATUS + BOOT_INFO) \<times> ('fw, 'd) loader_world) option" where
  "boot_exit sv io Address BootInfo Snapshot w = do {
     w1 \<leftarrow> BootShowSplash sv (BootClearFramebufferEarly sv w);
     w2 \<leftarrow> BOOT_VERBOSE_PRINT sv ''AsterLoader: stage exit boot services'' [] w1;
     let w3 = on_serial (BootSerialWriteAscii io (ascii_line ''[BL] about to ExitBootServices'')) w2;
     (Status, bi, sn, b) \<leftarrow> ExitBootServicesRobust (sv_boot sv) BootInfo Snapshot (lw_boot w3);
     let w4 = w3\<lparr>lw_boot := b\<rparr>;
     (if EFI_ERROR Status then boot_fail sv ''AsterLoader: exit boot services failed: %r'' [Status] Status w4
      else
            let d1 = BootSerialWriteAscii io (ascii_line ''[BL] ExitBootServices OK'') (lw_dev w4);
                d2 = BootSerialWriteHex64 io (bi_KernelEntry bi) (BootSerialWriteAscii io (Some (map of_char ''[BL] jumping kernel entry='')) d1);
                d3 = BootSerialWriteHex64 io Address (BootSerialWriteAscii io (Some (map of_char '' boot_info='')) d2);
                d4 = BootSerialDumpBytes io (Some (map of_char ''[BL] entry bytes: '')) (file_bytes (lw_mem w4) (bi_KernelEntry bi) 16)
                       (BootSerialWriteAscii io (Some [0x0A]) d3)
            in Some (Inr bi, w4\<lparr>lw_dev := d4\<rparr>)) }"

text \<open>How the loader ends: it returns to the firmware, or it calls the kernel with interrupts off.\<close>

datatype boot_outcome = Boot_Returned EFI_STATUS | Boot_Call u64 u64 BOOT_INFO

definition boot_then ::
    "((EFI_STATUS + 'a) \<times> 'w) option \<Rightarrow> ('a \<Rightarrow> 'w \<Rightarrow> (boot_outcome \<times> 'w) option) \<Rightarrow> (boot_outcome \<times> 'w) option" where
  "boot_then x k = do { (r, w) \<leftarrow> x; (case r of Inl Status \<Rightarrow> Some (Boot_Returned Status, w) | Inr a \<Rightarrow> k a w) }"

definition BootCallKernel :: "u64 \<Rightarrow> u64 \<Rightarrow> BOOT_INFO \<Rightarrow> boot_outcome" where
  "BootCallKernel EntryAddress Address BootInfo = Boot_Call EntryAddress Address BootInfo"

definition efi_main ::
    "'fw services \<Rightarrow> 'd ports \<Rightarrow> u64 \<Rightarrow> BOOT_MEMORY_SNAPSHOT \<Rightarrow> ('fw, 'd) loader_world \<Rightarrow> (boot_outcome \<times> ('fw, 'd) loader_world) option" where
  "efi_main sv io ImageHandle Snapshot0 w =
     boot_then (boot_files sv io ImageHandle w) (\<lambda>files w1. case files of ((KernelBuffer, KernelFileSize), init) \<Rightarrow>
     boot_then (boot_load sv KernelBuffer KernelFileSize w1) (\<lambda>kimage w2.
     boot_then (boot_info sv ImageHandle Snapshot0 kimage init w2) (\<lambda>info w3. case info of (Address, BootInfo, Snapshot) \<Rightarrow>
     boot_then (boot_exit sv io Address BootInfo Snapshot w3) (\<lambda>bi w4.
       Some (BootCallKernel (bi_KernelEntry bi) Address bi, w4)))))"

text \<open>Should the kernel return, the loader says so and halts.\<close>

definition boot_kernel_returned :: "'d ports \<Rightarrow> ('fw, 'd) loader_world \<Rightarrow> ('fw, 'd) loader_world" where
  "boot_kernel_returned io w = on_serial (BootSerialWriteAscii io (ascii_line ''[BL] kernel returned unexpectedly'')) w"

section \<open>What the steps keep\<close>

text \<open>What the firmware's reads in a list of calls have stored.\<close>

fun delivered :: "boot_call list \<Rightarrow> byte_mem \<Rightarrow> byte_mem" where
  "delivered [] m = m"
| "delivered (c # cs) m = delivered cs (case c of Call_Read _ Buffer _ Data \<Rightarrow> CopyMem Buffer Data (of_nat (length Data)) m | _ \<Rightarrow> m)"

lemma delivered_append: "delivered (xs @ ys) m = delivered ys (delivered xs m)"
  by (induction xs arbitrary: m) simp_all

text \<open>A step that leaves memory alone and neither opens nor reads a file.\<close>

definition file_call :: "boot_call \<Rightarrow> bool" where
  "file_call c \<longleftrightarrow> (case c of Call_Open _ _ _ \<Rightarrow> True | Call_Read _ _ _ _ \<Rightarrow> True | _ \<Rightarrow> False)"

lemma file_call_simps [simp]:
  "file_call (Call_Open r p f)" "file_call (Call_Read f b n D)" "\<not> file_call (Call_HandleProtocol h)" "\<not> file_call (Call_OpenVolume v)"
  "\<not> file_call (Call_GetInfo f z)" "\<not> file_call (Call_Close f)" "\<not> file_call (Call_OutputString x)" "\<not> file_call (Call_AllocatePool z)"
  "\<not> file_call (Call_FreePool b)" "\<not> file_call (Call_AllocatePages t q b st g)" "\<not> file_call Call_LocateProtocol"
  by (simp_all add: file_call_def)

lemma delivered_other: "\<forall>c\<in>set cs. \<not> file_call c \<Longrightarrow> delivered cs m = m"
  by (induction cs arbitrary: m) (auto simp: file_call_def split: boot_call.splits)

definition quiet :: "('fw, 'd) loader_world \<Rightarrow> ('fw, 'd) loader_world \<Rightarrow> bool" where
  "quiet w w' \<longleftrightarrow> lw_mem w' = lw_mem w \<and> (\<exists>tr. bw_calls (lw_boot w') = bw_calls (lw_boot w) @ tr \<and> (\<forall>c\<in>set tr. \<not> file_call c))"

lemma quiet_mem: "quiet w w' \<Longrightarrow> lw_mem w' = lw_mem w"
  by (simp add: quiet_def)

lemma quiet_calls: "quiet w w' \<Longrightarrow> set (bw_calls (lw_boot w)) \<subseteq> set (bw_calls (lw_boot w'))"
  by (auto simp: quiet_def)

lemma quiet_trans: "quiet w w' \<Longrightarrow> quiet w' w'' \<Longrightarrow> quiet w w''"
  by (fastforce simp: quiet_def)

lemma quiet_refl [simp]: "quiet w w"
  by (simp add: quiet_def)

lemma quiet_service: "service c f w = (r, w') \<Longrightarrow> \<not> file_call (c r) \<Longrightarrow> quiet w w'" "\<not> file_call d \<Longrightarrow> quiet w (service_unit d g w)"
  by (auto simp: service_def service_unit_def quiet_def call_def split: prod.splits)

lemma quiet_pool: "pool_alloc sv n w = (b, w') \<Longrightarrow> quiet w w'" "quiet w (pool_free sv b w)" "quiet w (close_file sv h w)"
  by (auto simp: pool_alloc_def pool_free_def close_file_def service_unit_def AllocatePool_def FreePool_def quiet_def call_def split: prod.splits)

lemma quiet_then: "quiet w w' \<Longrightarrow> quiet w (pool_free sv b w')" "quiet w w' \<Longrightarrow> quiet w (close_file sv h w')"
  using quiet_pool quiet_trans by blast+

lemma quiet_serial: "quiet w (on_serial f w)"
  by (simp add: on_serial_def quiet_def)

lemma quiet_output: "quiet w (EfiOutput sv t w)"
  by (simp add: EfiOutput_def quiet_service split: option.split)

lemma quiet_write: "quiet w (EfiWriteHexStatus sv v w)" "quiet w (EfiWriteUnsigned sv v w)"
  by (simp_all add: EfiWriteHexStatus_def EfiWriteUnsigned_def quiet_output)

lemma quiet_print_loop: "Print_loop sv f Args k w = Some (n, w') \<Longrightarrow> quiet w w'"
proof (induction sv f Args k w arbitrary: n w' rule: Print_loop.induct)
  case (2 sv c cs Args k w)
  from 2(4) show ?case
    by (auto split: if_splits list.splits
        intro: quiet_trans [OF quiet_write(1) 2(1)] quiet_trans [OF quiet_write(2) 2(2)] quiet_trans [OF quiet_output 2(3)])
qed simp

lemma quiet_print: "print_line sv t Args w = Some w' \<Longrightarrow> quiet w w'" "BOOT_VERBOSE_PRINT sv t Args w = Some w' \<Longrightarrow> quiet w w'"
  by (auto simp: print_line_def Print_def BOOT_VERBOSE_PRINT_def quiet_print_loop split: if_splits)

lemma quiet_fail: "boot_fail sv t Args st w = Some (r, w') \<Longrightarrow> quiet w w' \<and> r = Inl st"
  by (auto simp: boot_fail_def quiet_print split: bind_splits)

lemma boot_fail_Inr [simp]: "boot_fail sv t Args st w \<noteq> Some (Inr x, w')"
  by (simp add: boot_fail_def split: bind_splits)

text \<open>The splash screen leaves memory alone.\<close>

lemma paints_mem: "paints Gop w w' \<Longrightarrow> lw_mem w' = lw_mem w"
  by (simp add: paints_def)

lemma locate_mem: "BootLocateGop sv w = (g, w') \<Longrightarrow> lw_mem w' = lw_mem w"
  using locate_gop [of sv w] by simp

lemma clear_mem: "lw_mem (BootClearFramebufferEarly sv w) = lw_mem w"
  unfolding BootClearFramebufferEarly_def
  by (auto simp: on_fb_def split: prod.split option.split dest: locate_mem)

lemma splash_mem:
  assumes "BootShowSplash sv w = Some w'"
  shows "lw_mem w' = lw_mem w"
proof (cases "BootLocateGop sv w")
  case (Pair g w1)
  note q = locate_mem [OF Pair]
  show ?thesis
  proof (cases g)
    case None
    with assms Pair q show ?thesis
      by (auto simp: BootShowSplash_def split: bind_splits dest!: quiet_print quiet_mem)
  next
    case (Some Gop)
    let ?l = "splash_layout_of (gi_HorizontalResolution (gm_Info Gop)) (gi_VerticalResolution (gm_Info Gop))"
    have "paints Gop w1 (BootSleepUs sv 1800000 (fold (splash_sub_step sv Gop ?l) splash_Fade
        (fold (splash_main_step sv Gop ?l) [1..<Suc (unat (BootTextChars splash_Main))]
          (on_fb (BootFillRect Gop 0 0 (gi_HorizontalResolution (gm_Info Gop)) (gi_VerticalResolution (gm_Info Gop)) (BootMakePixel Gop 0 0 0)) w1))))"
      by (intro paints_trans [OF _ paints_sleep] paints_trans [OF _ paints_fold [OF paints_sub_step]]
          paints_trans [OF _ paints_fold [OF paints_main_step]] paints_on_fb drawing_fill)
    from paints_mem [OF this] q show ?thesis
      using assms Pair Some by (auto simp: BootShowSplash_def Let_def gBootVerbose_def dest!: quiet_print quiet_mem)
  qed
qed

section \<open>What each phase establishes\<close>

lemma errors [simp]: "EFI_ERROR EFI_LOAD_ERROR" "EFI_ERROR EFI_OUT_OF_RESOURCES" "EFI_ERROR EFI_INVALID_PARAMETER" "EFI_ERROR EFI_BUFFER_TOO_SMALL"
  "\<not> EFI_ERROR EFI_SUCCESS"
  by (simp_all add: EFI_ERROR_def EFI_LOAD_ERROR_def EFI_OUT_OF_RESOURCES_def EFI_INVALID_PARAMETER_def EFI_BUFFER_TOO_SMALL_def EFI_SUCCESS_def)

lemma load_image_Inr:
  assumes "load_image sv f w = Some (Inr (base, sz, entry, delta), w')"
  shows "\<exists>AllocatePages. LoadKpeImage AllocatePages f (lw_mem w) = Some (Inr (base, sz, entry, delta), lw_mem w') \<and>
    (\<exists>t b st. Call_AllocatePages t (boot_pages f) b st base \<in> set (bw_calls (lw_boot w')) \<and> \<not> EFI_ERROR st)"
proof -
  obtain Nt secs where v: "ValidateKpeImage f = Some (Nt, secs)" using assms by (auto simp: load_image_def split: option.splits)
  let ?o = "nt_OptionalHeader Nt" and ?q = "EFI_SIZE_TO_PAGES (ucast (opt_SizeOfImage (nt_OptionalHeader Nt)))"
  have q: "?q = boot_pages f"
    using v by (auto simp: ValidateKpeImage_def Let_def boot_pages_def nt_of_def nt_offset_def split: if_splits)
  obtain s1 b1 w1 where 1: "alloc_pages sv AllocateAddress ?q (opt_ImageBase ?o) w = ((s1, b1), w1)" by (metis surj_pair)
  obtain s2 b2 w2 where 2: "(if EFI_ERROR s1 \<and> (opt_DllCharacteristics ?o AND KPE_DLLCHAR_DYNAMIC_BASE) \<noteq> 0
      then alloc_pages sv AllocateAnyPages ?q 0 w1 else ((s1, b1), w1)) = ((s2, b2), w2)" by (metis surj_pair)
  let ?a = "\<lambda>Type (_ :: u64) (_ :: u64). if Type = AllocateAddress then (s1, b1) else (s2, b2)"
  have l: "LoadKpeImage ?a f (lw_mem w2) = Some (Inr (base, sz, entry, delta), lw_mem w')" "lw_boot w' = lw_boot w2"
    using assms v 1 2 by (auto simp: load_image_def Let_def split: if_splits bind_splits)
  have m: "lw_mem w2 = lw_mem w"
    using 1 2 by (auto simp: alloc_pages_def service_def split: if_splits prod.splits)
  have b: "if EFI_ERROR s1 then \<not> EFI_ERROR s2 \<and> base = b2 \<and> (opt_DllCharacteristics ?o AND KPE_DLLCHAR_DYNAMIC_BASE) \<noteq> 0 else base = b1"
    using l(1) v by (auto simp: LoadKpeImage_def Let_def split: if_splits bind_splits)
  have c1: "Call_AllocatePages AllocateAddress ?q (opt_ImageBase ?o) s1 b1 \<in> set (bw_calls (lw_boot w1))"
    using 1 by (auto simp: alloc_pages_def service_def call_def split: prod.splits)
  have "\<exists>t x st. Call_AllocatePages t ?q x st base \<in> set (bw_calls (lw_boot w2)) \<and> \<not> EFI_ERROR st"
  proof (cases "EFI_ERROR s1")
    case True
    with b 2 have "alloc_pages sv AllocateAnyPages ?q 0 w1 = ((s2, b2), w2)" by simp
    then have "Call_AllocatePages AllocateAnyPages ?q 0 s2 b2 \<in> set (bw_calls (lw_boot w2))"
      by (auto simp: alloc_pages_def service_def call_def split: prod.splits)
    with True b show ?thesis by auto
  next
    case False
    with b 2 c1 show ?thesis by auto
  qed
  then show ?thesis using l m q by auto
qed

lemma boot_load_Inr:
  assumes "boot_load sv kb ks w = Some (Inr (base, sz, entry), w')"
  shows "\<exists>AllocatePages delta. LoadKpeImage AllocatePages (file_bytes (lw_mem w) kb ks) (lw_mem w) = Some (Inr (base, sz, entry, delta), lw_mem w') \<and>
    (\<exists>t b st. Call_AllocatePages t (boot_pages (file_bytes (lw_mem w) kb ks)) b st base \<in> set (bw_calls (lw_boot w')) \<and> \<not> EFI_ERROR st) \<and>
    base \<le> entry \<and> entry < base + sz"
proof -
  obtain w1 r w2 where 1: "BOOT_VERBOSE_PRINT sv ''AsterLoader: stage load kernel image'' [] w = Some w1"
    and 2: "load_image sv (file_bytes (lw_mem w1) kb ks) w1 = Some (r, w2)"
    using assms by (auto simp: boot_load_def split: bind_splits)
  from assms 1 2 obtain delta w3 w4 w5 w6 w7 where r: "r = Inr (base, sz, entry, delta)"
    and p: "BOOT_VERBOSE_PRINT sv ''AsterLoader: stage kernel image ready'' [] w2 = Some w3"
    "BOOT_VERBOSE_PRINT sv ''AsterLoader: kernel image bytes=%u'' [sz] w3 = Some w4"
    "BOOT_VERBOSE_PRINT sv ''AsterLoader: kernel base=%r'' [base] w4 = Some w5"
    "BOOT_VERBOSE_PRINT sv ''AsterLoader: kernel entry=%r'' [entry] w5 = Some w6"
    "BOOT_VERBOSE_PRINT sv ''AsterLoader: kernel entry offset=%r'' [entry - base] w6 = Some w7"
    "BOOT_VERBOSE_PRINT sv ''AsterLoader: kernel reloc delta=%r'' [delta] w7 = Some w'"
    and e: "base \<le> entry" "entry < base + sz"
    by (auto simp: boot_load_def not_less not_le split: bind_splits sum.splits if_splits)
  have q: "quiet w2 w'" using p [THEN quiet_print(2)] by (blast intro: quiet_trans)
  have "lw_mem w1 = lw_mem w" using quiet_mem [OF quiet_print(2) [OF 1]] .
  with load_image_Inr [OF 2 [unfolded r]] obtain A t b st where
    "LoadKpeImage A (file_bytes (lw_mem w) kb ks) (lw_mem w) = Some (Inr (base, sz, entry, delta), lw_mem w2)"
    "Call_AllocatePages t (boot_pages (file_bytes (lw_mem w) kb ks)) b st base \<in> set (bw_calls (lw_boot w2))" "\<not> EFI_ERROR st" by auto
  then show ?thesis
    using quiet_mem [OF q] quiet_calls [OF q] e by (intro exI [of _ A] exI [of _ delta]) auto
qed

lemma boot_info_Inr:
  assumes "boot_info sv h sn0 (base, sz, entry) init w = Some (Inr (a, bi, sn), w')"
  shows "a \<noteq> 0 \<and> lw_mem w' = lw_mem w \<and>
    (\<exists>gop lb. bi = PopulateBootInfo gop lb base sz entry (fst init) (snd init) sn gBootVerbose)"
proof -
  obtain w1 where 1: "BOOT_VERBOSE_PRINT sv ''AsterLoader: stage loader protocol'' [] w = Some w1"
    using assms by (auto simp: boot_info_def split: bind_splits)
  obtain st li w2 where 2: "handle_protocol sv h gEfiLoadedImageProtocolGuid w1 = ((st, li), w2)" by (metis surj_pair)
  then have "\<not> EFI_ERROR st" using assms 1 by (auto simp: boot_info_def)
  obtain b w3 where 3: "pool_alloc sv sizeof_BOOT_INFO w2 = (b, w3)" by fastforce
  obtain w4 where 4: "BOOT_VERBOSE_PRINT sv ''AsterLoader: stage snapshot memory map'' [] w3 = Some w4" and b: "b \<noteq> 0"
    using assms 1 2 3 \<open>\<not> EFI_ERROR st\<close> by (auto simp: boot_info_def split: bind_splits if_splits)
  obtain st' sn' bw where 5: "SnapshotMemoryMap (sv_boot sv) sn0 (lw_boot w4) = Some (st', sn', bw)"
    using assms 1 2 3 4 \<open>\<not> EFI_ERROR st\<close> b by (auto simp: boot_info_def split: bind_splits)
  have "quiet w w4"
    using quiet_print(2) [OF 1] quiet_service(1) [OF 2 [unfolded handle_protocol_def]] quiet_pool(1) [OF 3] quiet_print(2) [OF 4]
    by (auto intro: quiet_trans)
  from quiet_mem [OF this] show ?thesis
    using assms 1 2 3 4 5 \<open>\<not> EFI_ERROR st\<close> b
    by (auto simp: boot_info_def Let_def split: bind_splits if_splits prod.splits dest!: quiet_print(2) quiet_service(1) quiet_mem) blast
qed

lemma exit_attempts_status:
  "EFI_ERROR st \<Longrightarrow> exit_attempts fw k st bi sn w = Some (st', bi', sn', w') \<Longrightarrow>
     (EFI_ERROR st' \<or> st' = EFI_SUCCESS) \<and> (\<exists>n. bi' = bi\<lparr>bi_MemoryMapEntryCount := n\<rparr>)"
proof (induction k arbitrary: st bi sn w)
  case 0
  then show ?case by (auto intro: exI [of _ "bi_MemoryMapEntryCount bi"])
next
  case (Suc k)
  obtain s1 sn1 w1 where g: "get_memory_map fw (sn_MapBufferSize sn) sn w = (s1, sn1, w1)" by (metis prod_cases3)
  obtain b w2 where a: "AllocatePool fw (sn_MapSize sn1 + sn_DescriptorSize sn1 * 16) w1 = (b, w2)" by fastforce
  obtain r w3 where a2: "AllocatePool fw (sizeof_PHYSICAL_MEMORY_RANGE * ((sn_MapSize sn1 + sn_DescriptorSize sn1 * 16) div sn_DescriptorSize sn1)) w2 = (r, w3)"
    by fastforce
  obtain s2 f2 where e: "fw_ExitBootServices fw (sn_MapKey (ConvertMemoryMap sn1)) (bw_firmware w1) = (s2, f2)" by fastforce
  have count: "\<exists>n. bi = bi\<lparr>bi_MemoryMapEntryCount := n\<rparr>" by (rule exI [of _ "bi_MemoryMapEntryCount bi"]) simp
  have upd: "\<exists>n. bi\<lparr>bi_MemoryMapEntryCount := x\<rparr> = bi\<lparr>bi_MemoryMapEntryCount := n\<rparr>" for x by blast
  note ih = Suc.IH [OF errors(3)] Suc.IH [OF errors(4)]
  show ?case
    using Suc.prems(2) count upd e
    by (auto simp: g a a2 e Let_def split: if_splits dest!: ih)
qed

lemma boot_exit_Inr:
  assumes "boot_exit sv io a bi sn w = Some (Inr bi', w')"
  shows "lw_mem w' = lw_mem w \<and> (\<exists>n. bi' = bi\<lparr>bi_MemoryMapEntryCount := n\<rparr>) \<and>
    (\<exists>pre k. bw_calls (lw_boot w') = pre @ [Call_GetMemoryMap k, Call_ExitBootServices k])"
proof -
  obtain w1 w2 where 1: "BootShowSplash sv (BootClearFramebufferEarly sv w) = Some w1"
    and 2: "BOOT_VERBOSE_PRINT sv ''AsterLoader: stage exit boot services'' [] w1 = Some w2"
    using assms by (auto simp: boot_exit_def split: bind_splits)
  let ?w3 = "on_serial (BootSerialWriteAscii io (ascii_line ''[BL] about to ExitBootServices'')) w2"
  obtain st bi2 sn2 b where 3: "exit_attempts (sv_boot sv) 4 EFI_INVALID_PARAMETER bi sn (lw_boot ?w3) = Some (st, bi2, sn2, b)"
    using assms 1 2 by (cases "exit_attempts (sv_boot sv) 4 EFI_INVALID_PARAMETER bi sn (lw_boot ?w3)")
      (auto simp: boot_exit_def ExitBootServicesRobust_def simp del: exit_attempts.simps)
  have st: "\<not> EFI_ERROR st" and w': "lw_boot w' = b" "lw_mem w' = lw_mem w2" "bi' = bi2"
    using assms 1 2 3 by (auto simp: boot_exit_def ExitBootServicesRobust_def Let_def on_serial_def split: if_splits)
  have "lw_mem w2 = lw_mem w"
    using clear_mem [of sv w] splash_mem [OF 1] quiet_mem [OF quiet_print(2) [OF 2]] by simp
  moreover have "st = EFI_SUCCESS" "\<exists>n. bi2 = bi\<lparr>bi_MemoryMapEntryCount := n\<rparr>" using exit_attempts_status [OF errors(3) 3] st by auto
  moreover have "EFI_INVALID_PARAMETER \<noteq> EFI_SUCCESS" using errors by metis
  ultimately show ?thesis using exit_attempts_key 3 w' by metis
qed

text \<open>Reading a file: the calls made, and that memory changes by what the firmware stored in them.  A file that was read has been opened
  under its path and then read once, into the buffer returned.\<close>

definition reads :: "('fw, 'd) loader_world \<Rightarrow> boot_call list \<Rightarrow> ('fw, 'd) loader_world \<Rightarrow> bool" where
  "reads w tr w' \<longleftrightarrow> bw_calls (lw_boot w') = bw_calls (lw_boot w) @ tr \<and> lw_mem w' = delivered tr (lw_mem w)"

lemma reads_trans: "reads w xs w' \<Longrightarrow> reads w' ys w'' \<Longrightarrow> reads w (xs @ ys) w''"
  by (simp add: reads_def delivered_append)

lemma quiet_reads: "quiet w w' \<Longrightarrow> \<exists>tr. reads w tr w' \<and> (\<forall>c\<in>set tr. \<not> file_call c)"
  by (auto simp: quiet_def reads_def delivered_other)

lemma quiet_info: "read_info sv File w = (r, w') \<Longrightarrow> quiet w w'"
  by (auto simp: read_info_def get_info_def Let_def split: prod.splits if_splits
      dest!: quiet_pool(1) quiet_service(1) intro!: quiet_then intro: quiet_trans [OF _ quiet_trans [OF quiet_pool(2)]] quiet_trans)

lemma read_file_reads:
  assumes "ReadWholeFile sv Root Path w = (r, w')"
  shows "\<exists>tr. reads w tr w' \<and> (\<forall>b n. r = Inr (b, n) \<longrightarrow> (\<exists>File D ys zs. tr = Call_Open Root Path File # ys @ Call_Read File b n D # zs \<and>
    (\<forall>c\<in>set ys \<union> set zs. \<not> file_call c)))"
proof -
  obtain st File w1 where 1: "service (\<lambda>(_, File). Call_Open Root Path File) (sv_Open sv Root Path) w = ((st, File), w1)" by (metis surj_pair)
  have o: "reads w [Call_Open Root Path File] w1"
    using 1 by (auto simp: service_def reads_def call_def split: prod.splits)
  obtain q w2 where 2: "read_info sv File w1 = (q, w2)" by fastforce
  obtain ys where ys: "reads w1 ys w2" "\<forall>c\<in>set ys. \<not> file_call c" using quiet_reads [OF quiet_info [OF 2]] by blast
  note o2 = reads_trans [OF o ys(1)]
  show ?thesis
  proof (cases "EFI_ERROR st")
    case True
    with assms 1 o show ?thesis by (auto simp: ReadWholeFile_def)
  next
    case ok: False
    show ?thesis
    proof (cases q)
      case (Inl e)
      with assms 1 2 ok o2 show ?thesis by (auto simp: ReadWholeFile_def)
    next
      case (Inr v)
      obtain Info z where v: "v = (Info, z)" by fastforce
      obtain b w3 where 3: "pool_alloc sv z w2 = (b, w3)" by fastforce
      obtain xs where xs: "reads w2 xs w3" "\<forall>c\<in>set xs. \<not> file_call c" using quiet_reads [OF quiet_pool(1) [OF 3]] by blast
      note o3 = reads_trans [OF o2 xs(1)]
      show ?thesis
      proof (cases "b = 0")
        case True
        have "quiet w3 (close_file sv File (pool_free sv Info w3))" by (rule quiet_trans [OF quiet_pool(2,3)])
        from quiet_reads [OF this] reads_trans [OF o3] show ?thesis
          using assms 1 2 3 ok Inr v True by (auto simp: ReadWholeFile_def)
      next
        case False
        obtain st' n D w4 where 4: "service (\<lambda>(_, Count, Data). Call_Read File b Count Data) (sv_Read sv File z) w3 = ((st', n, D), w4)" by (metis surj_pair)
        let ?w5 = "w4\<lparr>lw_mem := CopyMem b D (of_nat (length D)) (lw_mem w4)\<rparr>"
        let ?w6 = "pool_free sv Info (close_file sv File ?w5)"
        have r: "reads w3 [Call_Read File b n D] ?w5" using 4 by (auto simp: service_def reads_def call_def split: prod.splits)
        have w': "(r, w') = (if EFI_ERROR st' then (Inl st', pool_free sv b ?w6) else (Inr (b, n), ?w6))"
          using assms 1 2 3 4 ok Inr v False by (auto simp: ReadWholeFile_def Let_def)
        have "quiet ?w5 w'" using w' by (auto intro!: quiet_then split: if_splits)
        then obtain zs where zs: "reads ?w5 zs w'" "\<forall>c\<in>set zs. \<not> file_call c" using quiet_reads by blast
        from reads_trans [OF reads_trans [OF o3 r] zs(1)]
        have t: "reads w (Call_Open Root Path File # (ys @ xs) @ Call_Read File b n D # zs) w'" by simp
        show ?thesis
        proof (intro exI conjI allI impI)
          show "reads w (Call_Open Root Path File # (ys @ xs) @ Call_Read File b n D # zs) w'" by (rule t)
          fix b' n' assume "r = Inr (b', n')"
          with w' have "b' = b" "n' = n" by (auto split: if_splits)
          then show "Call_Open Root Path File # (ys @ xs) @ Call_Read File b n D # zs = Call_Open Root Path File # (ys @ xs) @ Call_Read File b' n' D # zs" by simp
          show "\<forall>c\<in>set (ys @ xs) \<union> set zs. \<not> file_call c" using ys(2) xs(2) zs(2) by auto
        qed
      qed
    qed
  qed
qed

text \<open>The file phase: the calls before the kernel file is opened, its read, and the calls after it.\<close>

lemma quiet_root: "OpenRootVolume sv h w = (r, w') \<Longrightarrow> quiet w w'"
  by (auto simp: OpenRootVolume_def handle_protocol_def split: prod.splits if_splits dest!: quiet_service(1) intro: quiet_trans)

lemma boot_files_Inr:
  assumes "boot_files sv io h w = Some (Inr ((kb, ks), init), w')"
  shows "\<exists>Root File D xs ys zs. reads w (xs @ Call_Open Root kernel_path File # ys @ Call_Read File kb ks D # zs) w' \<and>
    (\<forall>c\<in>set xs \<union> set ys. \<not> file_call c)"
proof -
  let ?w0 = "on_serial (BootSerialWriteAscii io (ascii_line ''[BL] efi_main entered'')) (on_serial (BootSerialInit io) w)"
  from assms obtain w1 Root w2 w3 w4 w5 r6 w6 where 1: "BOOT_VERBOSE_PRINT sv ''NTX Boot: UEFI boot begin'' [] ?w0 = Some w1"
    and 2: "OpenRootVolume sv h w1 = (Inr Root, w2)" and 3: "BOOT_VERBOSE_PRINT sv ''AsterLoader: root volume open ok'' [] w2 = Some w3"
    and 4: "ReadWholeFile sv Root kernel_path w3 = (Inr (kb, ks), w4)"
    and 5: "BOOT_VERBOSE_PRINT sv ''AsterLoader: kernel file bytes=%u'' [ks] w4 = Some w5" and 6: "ReadWholeFile sv Root init_path w5 = (r6, w6)"
    and 7: "quiet w6 w'"
    by (auto simp: boot_files_def split: bind_splits sum.splits prod.splits dest: quiet_print(1))
  have "quiet w w3"
    using quiet_serial quiet_print(2) [OF 1] quiet_root [OF 2] quiet_print(2) [OF 3] by (blast intro: quiet_trans)
  then obtain xs where xs: "reads w xs w3" "\<forall>c\<in>set xs. \<not> file_call c" using quiet_reads by blast
  obtain File D ys zs where t: "reads w3 (Call_Open Root kernel_path File # ys @ Call_Read File kb ks D # zs) w4" "\<forall>c\<in>set ys. \<not> file_call c"
    using read_file_reads [OF 4] by auto
  obtain t5 t6 t7 where "reads w4 t5 w5" "reads w5 t6 w6" "reads w6 t7 w'"
    using quiet_reads [OF quiet_print(2) [OF 5]] read_file_reads [OF 6] quiet_reads [OF 7] by blast
  from reads_trans [OF reads_trans [OF reads_trans [OF reads_trans [OF xs(1) t(1)] this(1)] this(2)] this(3)]
  have "reads w (xs @ Call_Open Root kernel_path File # ys @ Call_Read File kb ks D # (zs @ t5 @ t6 @ t7)) w'" by simp
  with xs(2) t(2) show ?thesis by blast
qed

text \<open>Every status a phase fails with is an error.\<close>

lemma fails_with_error:
  "OpenRootVolume sv h w = (Inl st, w') \<Longrightarrow> EFI_ERROR st" "read_info sv f w = (Inl st, w') \<Longrightarrow> EFI_ERROR st"
  by (auto simp: OpenRootVolume_def read_info_def Let_def split: prod.splits if_splits)

lemma read_file_error: "ReadWholeFile sv r p w = (Inl st, w') \<Longrightarrow> EFI_ERROR st"
  by (auto simp: ReadWholeFile_def Let_def split: prod.splits if_splits sum.splits dest: fails_with_error)

lemma load_kpe_error: "LoadKpeImage AllocatePages f m = Some (Inl st, m') \<Longrightarrow> EFI_ERROR st"
  by (auto simp: LoadKpeImage_def Let_def split: option.splits prod.splits if_splits bind_splits)

lemma load_image_error: "load_image sv f w = Some (Inl st, w') \<Longrightarrow> EFI_ERROR st"
  by (auto simp: load_image_def Let_def split: option.splits prod.splits if_splits bind_splits dest: load_kpe_error)

lemma boot_fail_Inl: "boot_fail sv t Args st w = Some (Inl e, w') \<Longrightarrow> e = st"
  by (auto dest: quiet_fail)

lemma phase_error:
  "boot_files sv io h w = Some (Inl st, w') \<Longrightarrow> EFI_ERROR st"
  "boot_load sv kb ks w = Some (Inl st, w') \<Longrightarrow> EFI_ERROR st"
  "boot_info sv h sn0 k init w = Some (Inl st, w') \<Longrightarrow> EFI_ERROR st"
  "boot_exit sv io a bi sn w = Some (Inl st, w') \<Longrightarrow> EFI_ERROR st"
  subgoal by (auto simp: boot_files_def split: bind_splits sum.splits prod.splits dest!: boot_fail_Inl dest: fails_with_error read_file_error)
  subgoal by (auto simp: boot_load_def split: bind_splits sum.splits prod.splits if_splits dest!: boot_fail_Inl dest: load_image_error)
  subgoal by (auto simp: boot_info_def Let_def split: bind_splits prod.splits if_splits dest!: boot_fail_Inl)
  subgoal by (auto simp: boot_exit_def Let_def split: bind_splits prod.splits if_splits dest!: boot_fail_Inl)
  done

lemma boot_then_cases:
  assumes "boot_then x k = Some (o', w')"
  obtains st where "x = Some (Inl st, w')" "o' = Boot_Returned st" | a w where "x = Some (Inr a, w)" "k a w = Some (o', w')"
  using assms by (auto simp: boot_then_def split: bind_splits sum.splits)

lemma boot_then_Call:
  assumes "boot_then x k = Some (Boot_Call e a bi, w')"
  obtains v w where "x = Some (Inr v, w)" "k v w = Some (Boot_Call e a bi, w')"
  using assms by (rule boot_then_cases) auto

text \<open>A run that calls the kernel went through every phase.\<close>

lemma efi_main_phases:
  assumes "efi_main sv io ImageHandle Snapshot0 w = Some (Boot_Call entry a bi, w')"
  shows "\<exists>kb ks init wa base sz e wb bi1 sn wc.
    boot_files sv io ImageHandle w = Some (Inr ((kb, ks), init), wa) \<and> boot_load sv kb ks wa = Some (Inr (base, sz, e), wb) \<and>
    boot_info sv ImageHandle Snapshot0 (base, sz, e) init wb = Some (Inr (a, bi1, sn), wc) \<and>
    boot_exit sv io a bi1 sn wc = Some (Inr bi, w') \<and> entry = bi_KernelEntry bi"
proof -
  obtain kb ks init wa where f: "boot_files sv io ImageHandle w = Some (Inr ((kb, ks), init), wa)"
    and 1: "boot_then (boot_load sv kb ks wa) (\<lambda>kimage w2. boot_then (boot_info sv ImageHandle Snapshot0 kimage init w2)
      (\<lambda>info w3. case info of (Address, BootInfo, Snapshot) \<Rightarrow> boot_then (boot_exit sv io Address BootInfo Snapshot w3)
        (\<lambda>bi w4. Some (BootCallKernel (bi_KernelEntry bi) Address bi, w4)))) = Some (Boot_Call entry a bi, w')"
    using assms unfolding efi_main_def by (rule boot_then_Call) (auto split: prod.splits)
  obtain base sz e wb where l: "boot_load sv kb ks wa = Some (Inr (base, sz, e), wb)"
    and 2: "boot_then (boot_info sv ImageHandle Snapshot0 (base, sz, e) init wb)
      (\<lambda>info w3. case info of (Address, BootInfo, Snapshot) \<Rightarrow> boot_then (boot_exit sv io Address BootInfo Snapshot w3)
        (\<lambda>bi w4. Some (BootCallKernel (bi_KernelEntry bi) Address bi, w4))) = Some (Boot_Call entry a bi, w')"
    using 1 by (rule boot_then_Call) auto
  obtain a' bi1 sn wc where i: "boot_info sv ImageHandle Snapshot0 (base, sz, e) init wb = Some (Inr (a', bi1, sn), wc)"
    and 3: "boot_then (boot_exit sv io a' bi1 sn wc) (\<lambda>bi w4. Some (BootCallKernel (bi_KernelEntry bi) a' bi, w4)) = Some (Boot_Call entry a bi, w')"
    using 2 by (rule boot_then_Call) (auto split: prod.splits)
  have "a' = a" "boot_exit sv io a' bi1 sn wc = Some (Inr bi, w')" "entry = bi_KernelEntry bi"
    using 3 by (auto simp: BootCallKernel_def elim!: boot_then_Call)
  with f l i show ?thesis by blast
qed

subsection \<open>The loader ends\<close>

text \<open>The arguments of every format are there, so no print fails.\<close>

definition printed_line :: "'fw services \<Rightarrow> string \<Rightarrow> u64 list \<Rightarrow> ('fw, 'd) loader_world \<Rightarrow> ('fw, 'd) loader_world" where
  "printed_line sv t Args w = the (print_line sv t Args w)"

lemma print_line_Some:
  "format_args (wide t @ [0x0D, 0x0A]) \<le> length Args \<Longrightarrow> print_line sv t Args w = Some (printed_line sv t Args w)"
  "format_args (wide t @ [0x0D, 0x0A]) \<le> length Args \<Longrightarrow> BOOT_VERBOSE_PRINT sv t Args w = Some (printed_line sv t Args w)"
  "format_args (wide t @ [0x0D, 0x0A]) \<le> length Args \<Longrightarrow> boot_fail sv t Args st w = Some (Inl st, printed_line sv t Args w)"
  using Print_loop_outputs [of "wide t @ [0x0D, 0x0A]" Args sv 0 w]
  by (auto simp: printed_line_def print_line_def Print_def BOOT_VERBOSE_PRINT_def gBootVerbose_def boot_fail_def)

lemma of_char_digits [simp]: "of_char (Char b0 b1 b2 b3 b4 b5 b6 b7) =
   (of_bool b0 + 2 * (of_bool b1 + 2 * (of_bool b2 + 2 * (of_bool b3 + 2 * (of_bool b4 + 2 * (of_bool b5 + 2 * (of_bool b6 + 2 * of_bool b7)))))) :: u16)"
  by (simp add: of_char_def)

lemma boot_files_total: "\<exists>r w'. boot_files sv io h w = Some (r, w')"
  by (simp add: boot_files_def print_line_Some wide_def split: sum.split prod.split)

text \<open>A firmware that answers that a buffer is too small also says how large a descriptor is.\<close>

definition map_sized :: "'fw services \<Rightarrow> bool" where
  "map_sized sv \<longleftrightarrow> (\<forall>n x st z D key ds v y. fw_GetMemoryMap (sv_boot sv) n x = ((st, z, D, key, ds, v), y) \<and> st = EFI_BUFFER_TOO_SMALL \<longrightarrow> ds \<noteq> 0)"

lemma get_map_sized:
  assumes "map_sized sv" "get_memory_map (sv_boot sv) n sn w = (EFI_BUFFER_TOO_SMALL, sn1, w1)"
  shows "sn_DescriptorSize sn1 \<noteq> 0"
  using assms by (auto simp: map_sized_def get_memory_map_def split: prod.splits) metis

lemma snapshot_total:
  assumes "map_sized sv"
  shows "\<exists>st sn' w'. SnapshotMemoryMap (sv_boot sv) sn w = Some (st, sn', w')"
proof -
  obtain st sn0 w1 where g: "get_memory_map (sv_boot sv) 0 (snapshot_zero sn) w = (st, sn0, w1)" by (metis prod_cases3)
  have "st = EFI_BUFFER_TOO_SMALL \<Longrightarrow> sn_DescriptorSize sn0 \<noteq> 0" using get_map_sized [OF assms] g by blast
  with g show ?thesis by (auto simp: SnapshotMemoryMap_def Let_def split: prod.split)
qed

lemma exit_attempts_total:
  assumes "map_sized sv"
  shows "\<exists>st' bi' sn' w'. exit_attempts (sv_boot sv) k st bi sn w = Some (st', bi', sn', w')"
proof (induction k arbitrary: st bi sn w)
  case (Suc k)
  obtain st sn1 w1 where g: "get_memory_map (sv_boot sv) (sn_MapBufferSize sn) sn w = (st, sn1, w1)" by (metis prod_cases3)
  have "st = EFI_BUFFER_TOO_SMALL \<Longrightarrow> sn_DescriptorSize sn1 \<noteq> 0" using get_map_sized [OF assms] g by blast
  with g Suc.IH show ?case by (auto simp: Let_def split: prod.split)
qed simp

lemma boot_info_total:
  assumes "map_sized sv"
  shows "\<exists>r w'. boot_info sv h sn0 (base, sz, e) init w = Some (r, w')"
proof -
  obtain st sn b where s: "SnapshotMemoryMap (sv_boot sv) sn0 x = Some (st x, sn x, b x)" for x
    using snapshot_total [OF assms, of sn0] by metis
  show ?thesis by (simp add: boot_info_def print_line_Some wide_def Let_def s split: prod.split)
qed

lemma splash_total: "\<exists>w'. BootShowSplash sv w = Some w'"
  by (simp add: BootShowSplash_def print_line_Some wide_def Let_def split: prod.split option.split)

lemma boot_exit_total:
  assumes "map_sized sv"
  shows "\<exists>r w'. boot_exit sv io a bi sn w = Some (r, w')"
proof -
  obtain st bi' sn' b where x: "ExitBootServicesRobust (sv_boot sv) bi sn x = Some (st x, bi' x, sn' x, b x)" for x
    using exit_attempts_total [OF assms] unfolding ExitBootServicesRobust_def by metis
  show ?thesis
    using splash_total [of sv "BootClearFramebufferEarly sv w"]
    by (auto simp: boot_exit_def print_line_Some wide_def Let_def x)
qed

text \<open>Pages the firmware grants leave room for the relocation table below the end of the address space.\<close>

definition pages_low :: "'fw services \<Rightarrow> bool" where
  "pages_low sv \<longleftrightarrow> (\<forall>t p b x. \<not> EFI_ERROR (fst (fst (sv_AllocatePages sv t p b x))) \<longrightarrow> unat (snd (fst (sv_AllocatePages sv t p b x))) + 2 ^ 34 \<le> 2 ^ 64)"

lemma load_kpe_total:
  assumes "\<And>t p b. \<not> EFI_ERROR (fst (AllocatePages t p b)) \<Longrightarrow> unat (snd (AllocatePages t p b)) + 2 ^ 34 \<le> 2 ^ 64"
  shows "\<exists>r m'. LoadKpeImage AllocatePages f m = Some (r, m')"
proof (cases "ValidateKpeImage f")
  case (Some v)
  obtain Nt secs where v: "v = (Nt, secs)" by fastforce
  have reloc: "\<exists>g. \<forall>m1. ApplyKpeBaseRelocations B (Some Nt) m1 = Some (g m1)" if "AllocatePages t q b = (st, B)" "\<not> EFI_ERROR st" for B t q b st
  proof -
    have "unat B + 2 ^ 34 \<le> 2 ^ 64" using assms [of t q b] that by simp
    from ApplyKpeBaseRelocations_safe [OF this] have "\<forall>m1. \<exists>y. ApplyKpeBaseRelocations B (Some Nt) m1 = Some y" by blast
    then show ?thesis by (rule choice)
  qed
  let ?q = "EFI_SIZE_TO_PAGES (ucast (opt_SizeOfImage (nt_OptionalHeader Nt)))"
  obtain s1 b1 where 1: "AllocatePages AllocateAddress ?q (opt_ImageBase (nt_OptionalHeader Nt)) = (s1, b1)" by fastforce
  obtain s2 b2 where 2: "AllocatePages AllocateAnyPages ?q 0 = (s2, b2)" by fastforce
  obtain g1 where g1: "\<not> EFI_ERROR s1 \<Longrightarrow> ApplyKpeBaseRelocations b1 (Some Nt) m1 = Some (g1 m1)" for m1 using reloc [OF 1] by blast
  obtain g2 where g2: "\<not> EFI_ERROR s2 \<Longrightarrow> ApplyKpeBaseRelocations b2 (Some Nt) m1 = Some (g2 m1)" for m1 using reloc [OF 2] by blast
  show ?thesis
    using Some v g1 g2 by (cases "EFI_ERROR s1"; cases "EFI_ERROR s2") (auto simp: LoadKpeImage_def Let_def 1 2 split: prod.splits)
qed (simp add: LoadKpeImage_def)

lemma load_image_total:
  assumes "pages_low sv"
  shows "\<exists>r w'. load_image sv f w = Some (r, w')"
proof -
  have low: "unat B + 2 ^ 34 \<le> 2 ^ 64" if "alloc_pages sv t q b x = ((st, B), y)" "\<not> EFI_ERROR st" for t q b x st B y
    using that assms by (auto simp: alloc_pages_def service_def pages_low_def split: prod.splits) (metis fst_conv snd_conv)
  show ?thesis
  proof (cases "ValidateKpeImage f")
    case (Some v)
    let ?o = "nt_OptionalHeader (fst v)" and ?q = "EFI_SIZE_TO_PAGES (ucast (opt_SizeOfImage (nt_OptionalHeader (fst v))))"
    obtain s1 b1 w1 where 1: "alloc_pages sv AllocateAddress ?q (opt_ImageBase ?o) w = ((s1, b1), w1)" by (metis surj_pair)
    obtain s2 b2 w2 where 2: "(if EFI_ERROR s1 \<and> (opt_DllCharacteristics ?o AND KPE_DLLCHAR_DYNAMIC_BASE) \<noteq> 0
        then alloc_pages sv AllocateAnyPages ?q 0 w1 else ((s1, b1), w1)) = ((s2, b2), w2)" by (metis surj_pair)
    have "\<exists>r m'. LoadKpeImage (\<lambda>Type _ _. if Type = AllocateAddress then (s1, b1) else (s2, b2)) f (lw_mem w2) = Some (r, m')"
    proof (rule load_kpe_total)
      show "unat (snd (if t = AllocateAddress then (s1, b1) else (s2, b2))) + 2 ^ 34 \<le> 2 ^ 64"
        if "\<not> EFI_ERROR (fst (if t = AllocateAddress then (s1, b1) else (s2, b2)))" for t
        using that low [OF 1] low 2 by (auto split: if_splits)
    qed
    then show ?thesis using Some 1 2 by (cases v) (auto simp: load_image_def Let_def split: if_splits)
  qed (simp add: load_image_def)
qed

lemma boot_load_total:
  assumes "pages_low sv"
  shows "\<exists>r w'. boot_load sv kb ks w = Some (r, w')"
proof -
  let ?w = "printed_line sv ''AsterLoader: stage load kernel image'' [] w"
  obtain r w' where "load_image sv (file_bytes (lw_mem ?w) kb ks) ?w = Some (r, w')" using load_image_total [OF assms] by blast
  then show ?thesis by (simp add: boot_load_def print_line_Some wide_def split: sum.split)
qed

lemma boot_then_total:
  assumes "\<exists>r w'. x = Some (r, w')" and "\<And>v w. x = Some (Inr v, w) \<Longrightarrow> \<exists>o' w'. k v w = Some (o', w') \<and> P o'" and "\<And>st w. x = Some (Inl st, w) \<Longrightarrow> P (Boot_Returned st)"
  shows "\<exists>o' w'. boot_then x k = Some (o', w') \<and> P o'"
  using assms by (auto simp: boot_then_def split: sum.splits)

section \<open>A machine that boots\<close>

text \<open>What a file leaves in memory is its contents.\<close>

lemma file_bytes_read:
  assumes "length Data < 2 ^ 64"
  shows "file_bytes (CopyMem Buffer Data (of_nat (length Data)) m) Buffer (of_nat (length Data)) = Data"
proof (rule nth_equalityI)
  have n: "unat (of_nat (length Data) :: u64) = length Data" using assms by (simp add: unsigned_of_nat take_bit_nat_eq_self)
  then show "length (file_bytes (CopyMem Buffer Data (of_nat (length Data)) m) Buffer (of_nat (length Data))) = length Data"
    by (simp add: file_bytes_def)
  fix i assume "i < length (file_bytes (CopyMem Buffer Data (of_nat (length Data)) m) Buffer (of_nat (length Data)))"
  then have i: "i < length Data" by (simp add: file_bytes_def n)
  then have "unat (of_nat i :: u64) = i" using assms by (simp add: unsigned_of_nat take_bit_nat_eq_self)
  with i show "file_bytes (CopyMem Buffer Data (of_nat (length Data)) m) Buffer (of_nat (length Data)) ! i = Data ! i"
    by (simp add: file_bytes_def n CopyMem_eq)
qed

lemma silent_loop: "sv_OutputString sv = None \<Longrightarrow> format_args f \<le> length Args \<Longrightarrow> \<exists>n. Print_loop sv f Args k w = Some (n, w)"
proof (induction f Args arbitrary: k rule: formatted.induct)
  case (2 c cs Args)
  have id: "EfiOutput sv t w = w" for t using 2(4) by (simp add: EfiOutput_def)
  show ?case
    using 2 by (cases Args) (auto simp: EfiWriteHexStatus_def EfiWriteUnsigned_def id split: if_splits)
qed simp

text \<open>A firmware without console and screen, with one volume that holds the kernel only, and with free memory everywhere.\<close>

definition demo_kernel :: "u8 list" where
  "demo_kernel = demo_image 16 KPE_SUBSYSTEM_NATIVE_KERNEL"

definition demo_services :: "nat services" where
  "demo_services = \<lparr>
     sv_boot = \<lparr>fw_GetMemoryMap = (\<lambda>size n. ((if size < 40 then EFI_BUFFER_TOO_SMALL else EFI_SUCCESS, 40, sn_Map demo_snapshot, 5, 40, 1), n)),
       fw_AllocatePool = (\<lambda>size n. ((EFI_SUCCESS, 0x100000 + of_nat n * 0x10000), Suc n)), fw_FreePool = (\<lambda>b n. n),
       fw_ExitBootServices = (\<lambda>key n. (EFI_SUCCESS, n))\<rparr>,
     sv_OutputString = None, sv_Stall = None, sv_LocateGop = (\<lambda>n. ((EFI_UNSUPPORTED, None), n)),
     sv_AllocatePages = (\<lambda>t p b n. ((if b < 0x80000000 then EFI_SUCCESS else EFI_OUT_OF_RESOURCES, b), n)),
     sv_HandleProtocol = (\<lambda>h g n. ((EFI_SUCCESS, 1), n)), sv_LoadedImage = (\<lambda>i n. \<lparr>li_DeviceHandle = 2, li_ImageBase = 0x5000\<rparr>),
     sv_OpenVolume = (\<lambda>v n. ((EFI_SUCCESS, 3), n)), sv_Open = (\<lambda>r p n. ((if p = kernel_path then EFI_SUCCESS else EFI_LOAD_ERROR, 4), n)),
     sv_GetInfo = (\<lambda>f sz n. ((EFI_SUCCESS, 80, of_nat (length demo_kernel)), n)),
     sv_Read = (\<lambda>f sz n. ((EFI_SUCCESS, sz, demo_kernel), n)), sv_Close = (\<lambda>f n. n)\<rparr>"

definition demo_world :: "(nat, unit) loader_world" where
  "demo_world = \<lparr>lw_boot = \<lparr>bw_firmware = 0, bw_calls = []\<rparr>, lw_mem = (\<lambda>_. 7), lw_fb = (\<lambda>_. 0), lw_dev = ()\<rparr>"

lemma demo_select:
  "sv_boot demo_services = \<lparr>fw_GetMemoryMap = (\<lambda>size n. ((if size < 40 then EFI_BUFFER_TOO_SMALL else EFI_SUCCESS, 40, sn_Map demo_snapshot, 5, 40, 1), n)),
       fw_AllocatePool = (\<lambda>size n. ((EFI_SUCCESS, 0x100000 + of_nat n * 0x10000), Suc n)), fw_FreePool = (\<lambda>b n. n),
       fw_ExitBootServices = (\<lambda>key n. (EFI_SUCCESS, n))\<rparr>"
  "sv_LocateGop demo_services n = ((EFI_UNSUPPORTED, None), n)"
  "sv_AllocatePages demo_services t p b n = ((if b < 0x80000000 then EFI_SUCCESS else EFI_OUT_OF_RESOURCES, b), n)"
  "sv_HandleProtocol demo_services h g n = ((EFI_SUCCESS, 1), n)"
  "sv_LoadedImage demo_services i n = \<lparr>li_DeviceHandle = 2, li_ImageBase = 0x5000\<rparr>"
  "sv_OpenVolume demo_services h n = ((EFI_SUCCESS, 3), n)"
  "sv_Open demo_services h q n = ((if q = kernel_path then EFI_SUCCESS else EFI_LOAD_ERROR, 4), n)"
  "sv_GetInfo demo_services h sz n = ((EFI_SUCCESS, 80, of_nat (length demo_kernel)), n)"
  "sv_Read demo_services h sz n = ((EFI_SUCCESS, sz, demo_kernel), n)" "sv_Close demo_services h n = n"
  by (simp_all add: demo_services_def)

lemma silent:
  "format_args (wide t @ [0x0D, 0x0A]) \<le> length Args \<Longrightarrow> print_line demo_services t Args w = Some w"
  "format_args (wide t @ [0x0D, 0x0A]) \<le> length Args \<Longrightarrow> BOOT_VERBOSE_PRINT demo_services t Args w = Some w"
  using silent_loop [of demo_services "wide t @ [0x0D, 0x0A]" Args 0 w]
  by (auto simp: print_line_def Print_def BOOT_VERBOSE_PRINT_def gBootVerbose_def demo_services_def)

lemma success [simp]: "\<not> EFI_ERROR 0" "EFI_SUCCESS = 0" "EFI_BUFFER_TOO_SMALL \<noteq> 0" "EFI_ERROR EFI_UNSUPPORTED"
  by (simp_all add: EFI_ERROR_def EFI_SUCCESS_def EFI_BUFFER_TOO_SMALL_def EFI_UNSUPPORTED_def)

lemma on_serial_unit [simp]: "on_serial f (w :: ('fw, unit) loader_world) = w"
  by (simp add: on_serial_def)

lemma init_path_differs [simp]: "init_path \<noteq> kernel_path"
  by (simp add: init_path_def kernel_path_def wide_def)

lemmas demo_calls = handle_protocol_def service_def service_unit_def pool_alloc_def pool_free_def close_file_def get_info_def alloc_pages_def
  AllocatePool_def FreePool_def call_def demo_select demo_world_def

lemma demo_root: "\<exists>cs. OpenRootVolume demo_services 1 demo_world = (Inr 3, demo_world\<lparr>lw_boot := \<lparr>bw_firmware = 0, bw_calls = cs\<rparr>\<rparr>)"
  by (simp add: OpenRootVolume_def demo_calls)

lemma demo_read:
  "\<exists>cs'. ReadWholeFile demo_services 3 kernel_path (demo_world\<lparr>lw_boot := \<lparr>bw_firmware = 0, bw_calls = cs\<rparr>\<rparr>) =
     (Inr (0x110000, of_nat (length demo_kernel)), demo_world\<lparr>lw_boot := \<lparr>bw_firmware = 2, bw_calls = cs'\<rparr>,
       lw_mem := CopyMem 0x110000 demo_kernel (of_nat (length demo_kernel)) (\<lambda>_. 7)\<rparr>)"
  by (simp add: ReadWholeFile_def read_info_def Let_def demo_calls)

lemma demo_no_init:
  "\<exists>cs'. ReadWholeFile demo_services 3 init_path (w\<lparr>lw_boot := \<lparr>bw_firmware = n, bw_calls = cs\<rparr>\<rparr>) =
     (Inl EFI_LOAD_ERROR, w\<lparr>lw_boot := \<lparr>bw_firmware = n, bw_calls = cs'\<rparr>\<rparr>)"
  by (simp add: ReadWholeFile_def Let_def demo_calls) blast

lemma demo_files:
  "\<exists>cs. boot_files demo_services demo_ports 1 demo_world =
     Some (Inr ((0x110000, of_nat (length demo_kernel)), 0, 0), demo_world\<lparr>lw_boot := \<lparr>bw_firmware = 2, bw_calls = cs\<rparr>,
       lw_mem := CopyMem 0x110000 demo_kernel (of_nat (length demo_kernel)) (\<lambda>_. 7)\<rparr>)"
proof -
  obtain c1 where 1: "OpenRootVolume demo_services 1 demo_world = (Inr 3, demo_world\<lparr>lw_boot := \<lparr>bw_firmware = 0, bw_calls = c1\<rparr>\<rparr>)"
    using demo_root by blast
  obtain c2 where 2: "ReadWholeFile demo_services 3 kernel_path (demo_world\<lparr>lw_boot := \<lparr>bw_firmware = 0, bw_calls = c1\<rparr>\<rparr>) =
     (Inr (0x110000, of_nat (length demo_kernel)), demo_world\<lparr>lw_boot := \<lparr>bw_firmware = 2, bw_calls = c2\<rparr>,
       lw_mem := CopyMem 0x110000 demo_kernel (of_nat (length demo_kernel)) (\<lambda>_. 7)\<rparr>)" using demo_read by blast
  obtain c3 where 3: "ReadWholeFile demo_services 3 init_path (demo_world\<lparr>lw_boot := \<lparr>bw_firmware = 2, bw_calls = c2\<rparr>,
       lw_mem := CopyMem 0x110000 demo_kernel (of_nat (length demo_kernel)) (\<lambda>_. 7)\<rparr>) = (Inl EFI_LOAD_ERROR,
     demo_world\<lparr>lw_boot := \<lparr>bw_firmware = 2, bw_calls = c3\<rparr>, lw_mem := CopyMem 0x110000 demo_kernel (of_nat (length demo_kernel)) (\<lambda>_. 7)\<rparr>)"
    using demo_no_init [where w = "demo_world\<lparr>lw_mem := CopyMem 0x110000 demo_kernel (of_nat (length demo_kernel)) (\<lambda>_. 7)\<rparr>" and n = 2 and cs = c2] by (auto simp: demo_world_def)
  show ?thesis by (simp add: boot_files_def silent wide_def 1 2 3) blast
qed

lemma demo_load:
  assumes "file_bytes (lw_mem w) kb ks = demo_kernel"
  shows "\<exists>w'. boot_load demo_services kb ks w = Some (Inr (0x200000, 32, 0x200000), w') \<and> bw_firmware (lw_boot w') = bw_firmware (lw_boot w)"
proof -
  have "loads_at (\<lambda>Type _ _. (0, 0x200000)) demo_kernel 0x200000"
    by (simp add: loads_at_def demo_kernel_def packed_image_offsets packed_image_headers)
  then have "LoadKpeImage (\<lambda>Type _ _. (0, 0x200000)) demo_kernel m = Some (Inr (0x200000, 32, 0x200000, 0), image_of demo_kernel 0x200000 m)" for m
    using load_at_preferred [OF boot_image_valid [of 16], of "\<lambda>Type _ _. (0, 0x200000)" m]
    by (simp add: demo_kernel_def packed_image_fields(1) packed_image_offsets packed_image_headers)
  then have "\<exists>w'. load_image demo_services demo_kernel w = Some (Inr (0x200000, 32, 0x200000, 0), w') \<and> bw_firmware (lw_boot w') = bw_firmware (lw_boot w)"
    using boot_image_valid [of 16]
    by (simp add: load_image_def demo_kernel_def demo_calls Let_def packed_image_offsets packed_image_headers cong: if_cong)
  then show ?thesis by (auto simp: boot_load_def silent wide_def assms)
qed

lemma convert_buffer_size [simp]: "sn_MapBufferSize (ConvertMemoryMap sn) = sn_MapBufferSize sn"
proof -
  have "sn_MapBufferSize (ConvertMemoryMap_loop k off sn) = sn_MapBufferSize sn" for k off sn by (induction k arbitrary: off sn) simp_all
  then show ?thesis by (simp add: ConvertMemoryMap_def)
qed

lemma demo_info:
  assumes "bw_firmware (lw_boot w) = 2"
  shows "\<exists>a bi sn w'. boot_info demo_services 1 demo_snapshot (base, sz, e) init w = Some (Inr (a, bi, sn), w') \<and> sn_MapBufferSize sn = 680"
  using assms by (simp add: boot_info_def silent wide_def SnapshotMemoryMap_def get_memory_map_def snapshot_zero_def Let_def demo_calls)

lemma demo_exit:
  assumes "sn_MapBufferSize sn = 680"
  shows "\<exists>bi' w'. boot_exit demo_services demo_ports a bi sn w = Some (Inr bi', w')"
proof -
  have "\<exists>bi' sn' b'. ExitBootServicesRobust (sv_boot demo_services) bi sn b = Some (0, bi', sn', b')" for b
    using assms by (simp add: ExitBootServicesRobust_four get_memory_map_def demo_calls Let_def)
  then obtain bi' sn' b' where x: "ExitBootServicesRobust (sv_boot demo_services) bi sn b = Some (0, bi' b, sn' b, b' b)" for b by metis
  moreover obtain w1 where "BootShowSplash demo_services (BootClearFramebufferEarly demo_services w) = Some w1" using splash_total by blast
  ultimately show ?thesis by (simp add: boot_exit_def silent wide_def Let_def)
qed

lemma demo_boots: "\<exists>e a bi w'. efi_main demo_services demo_ports 1 demo_snapshot demo_world = Some (Boot_Call e a bi, w')"
proof -
  obtain cs where f: "boot_files demo_services demo_ports 1 demo_world =
     Some (Inr ((0x110000, of_nat (length demo_kernel)), 0, 0), demo_world\<lparr>lw_boot := \<lparr>bw_firmware = 2, bw_calls = cs\<rparr>,
       lw_mem := CopyMem 0x110000 demo_kernel (of_nat (length demo_kernel)) (\<lambda>_. 7)\<rparr>)" (is "_ = Some (_, ?w1)") using demo_files by blast
  have "length demo_kernel < 2 ^ 64" by (simp add: demo_kernel_def packed_image_fields(1))
  then obtain w2 where l: "boot_load demo_services 0x110000 (of_nat (length demo_kernel)) ?w1 = Some (Inr (0x200000, 32, 0x200000), w2)"
    and w2: "bw_firmware (lw_boot w2) = 2" using demo_load [of ?w1 "0x110000" "of_nat (length demo_kernel)"] file_bytes_read by auto
  obtain a bi sn w3 where i: "boot_info demo_services 1 demo_snapshot (0x200000, 32, 0x200000) (0, 0) w2 = Some (Inr (a, bi, sn), w3)"
    and sn: "sn_MapBufferSize sn = 680" using demo_info [OF w2] by blast
  obtain bi' w' where "boot_exit demo_services demo_ports a bi sn w3 = Some (Inr bi', w')" using demo_exit [OF sn] by blast
  with f l i show ?thesis by (simp add: efi_main_def boot_then_def BootCallKernel_def)
qed

section \<open>Properties\<close>

text \<open>C21: the loader always ends, and it never returns success.  Assume of the firmware that the pages it grants lie at least 16 GiB below the end
  of the address space, and that it reports a descriptor size other than 0 when it says that the memory map buffer is too small (the code divides by it).
  Then, whatever else it answers, no loop of the loader runs forever and no division traps, and the loader either calls the kernel or
  returns an error status to the firmware.\<close>

theorem efi_main_ends:
  assumes "pages_low sv" and "map_sized sv"
  shows "\<exists>o' w'. efi_main sv io ImageHandle Snapshot0 w = Some (o', w') \<and> (\<forall>st. o' = Boot_Returned st \<longrightarrow> EFI_ERROR st)"
  unfolding efi_main_def
proof (rule boot_then_total [OF boot_files_total], goal_cases)
  case (1 v w1)
  obtain kb ks init where v: "v = ((kb, ks), init)" by (metis surj_pair)
  show ?case unfolding v prod.case
  proof (rule boot_then_total [OF boot_load_total [OF assms(1)]], goal_cases)
    case (1 v w2)
    obtain base sz e where v: "v = (base, sz, e)" by (metis surj_pair)
    show ?case unfolding v
    proof (rule boot_then_total [OF boot_info_total [OF assms(2)]], goal_cases)
      case (1 v w3)
      obtain a bi sn where v: "v = (a, bi, sn)" by (metis surj_pair)
      show ?case unfolding v prod.case
        by (rule boot_then_total [OF boot_exit_total [OF assms(2)]]) (auto simp: BootCallKernel_def dest: phase_error)
    qed (auto dest: phase_error)
  qed (auto dest: phase_error)
qed (auto dest: phase_error)

theorem efi_main_ends_witness:
  "\<exists>o' w'. efi_main demo_services demo_ports 1 demo_snapshot demo_world = Some (o', w') \<and> (\<forall>st. o' = Boot_Returned st \<longrightarrow> EFI_ERROR st)"
proof (rule efi_main_ends)
  have "unat (b :: u64) + 2 ^ 34 \<le> 2 ^ 64" if "b < 0x80000000" for b using that by (simp add: word_less_nat_alt)
  then show "pages_low demo_services" by (auto simp: pages_low_def demo_services_def split: if_splits)
  show "map_sized demo_services" by (simp add: map_sized_def demo_services_def)
qed

text \<open>Where later reads leave a buffer alone, it holds what the firmware stored there.\<close>

definition spared :: "u64 \<Rightarrow> u8 list \<Rightarrow> boot_call list \<Rightarrow> bool" where
  "spared Buffer Data cs \<longleftrightarrow> (\<forall>f b n D. Call_Read f b n D \<in> set cs \<longrightarrow> (\<forall>i<length Data. length D \<le> unat (Buffer + of_nat i - b)))"

lemma delivered_spared:
  assumes "spared Buffer Data cs" "i < length Data"
  shows "delivered cs m (Buffer + of_nat i) = m (Buffer + of_nat i)"
  using assms(1)
proof (induction cs arbitrary: m)
  case (Cons c cs)
  have "(case c of Call_Read _ b _ D \<Rightarrow> CopyMem b D (of_nat (length D)) m | _ \<Rightarrow> m) (Buffer + of_nat i) = m (Buffer + of_nat i)"
  proof (cases c)
    case (Call_Read f b n D)
    with Cons.prems assms(2) have "length D \<le> unat (Buffer + of_nat i - b)" by (simp add: spared_def)
    moreover have "unat (of_nat (length D) :: u64) \<le> length D" by (simp add: unsigned_of_nat)
    ultimately show ?thesis by (simp add: Call_Read CopyMem_eq)
  qed simp_all
  with Cons show ?case by (simp add: spared_def)
qed simp

lemma file_bytes_spared:
  assumes "spared Buffer Data cs" "length Data = unat Size"
  shows "file_bytes (delivered cs (CopyMem Buffer Data (of_nat (length Data)) m)) Buffer Size = Data"
proof -
  have "length Data < 2 ^ 64" using assms(2) unsigned_less [of Size, where 'a = nat] by simp
  moreover have "Size = of_nat (length Data)" using assms(2) by simp
  ultimately have "file_bytes (CopyMem Buffer Data (of_nat (length Data)) m) Buffer Size = Data" using file_bytes_read by metis
  moreover have "file_bytes (delivered cs x) Buffer Size = file_bytes x Buffer Size" for x
    using delivered_spared [OF assms(1), of _ x] assms(2) by (simp add: file_bytes_def)
  ultimately show ?thesis by simp
qed

text \<open>C37: what is in memory when the loader calls the kernel.  The run has opened the kernel file on the root volume before any other file, read it once
  into a buffer, and memory at the start of the load phase is the initial memory with everything the firmware's reads stored.  The
  kernel image is what \<^verbatim>\<open>LoadKpeImage\<close> makes of the bytes then in that buffer, at a base the firmware granted in this run for its
  number of pages, and it is still there at the end.  These bytes are the ones the firmware stored for the kernel file if it stored as many as it counted and its
  later reads (the initial program) left them alone.  The entry address lies in the image, the boot information names its base,
  size and entry and is accepted by the kernel, and the last two firmware calls of the whole run are the memory map call and the exit from
  boot services with the key it returned.\<close>

theorem efi_main_enters:
  fixes w :: "('fw, 'd) loader_world"
  assumes "efi_main sv io ImageHandle Snapshot0 w = Some (Boot_Call entry a bi, w')"
  shows "\<exists>kb ks init wa wb Root File Data xs ys zs AllocatePages delta t b st pre k.
    boot_files sv io ImageHandle w = Some (Inr ((kb, ks), init), wa) \<and>
    reads w (xs @ Call_Open Root kernel_path File # ys @ Call_Read File kb ks Data # zs) wa \<and> (\<forall>c\<in>set xs \<union> set ys. \<not> file_call c) \<and>
    (length Data = unat ks \<and> spared kb Data zs \<longrightarrow> file_bytes (lw_mem wa) kb ks = Data) \<and>
    boot_load sv kb ks wa = Some (Inr (bi_KernelBase bi, bi_KernelSize bi, entry), wb) \<and>
    LoadKpeImage AllocatePages (file_bytes (lw_mem wa) kb ks) (lw_mem wa) = Some (Inr (bi_KernelBase bi, bi_KernelSize bi, entry, delta), lw_mem w') \<and>
    Call_AllocatePages t (boot_pages (file_bytes (lw_mem wa) kb ks)) b st (bi_KernelBase bi) \<in> set (bw_calls (lw_boot wb)) \<and> \<not> EFI_ERROR st \<and>
    bi_KernelBase bi \<le> entry \<and> entry < bi_KernelBase bi + bi_KernelSize bi \<and> bi_KernelEntry bi = entry \<and> a \<noteq> 0 \<and>
    fst (NkInitializeCore (Some (a, bi)) s) = KSTATUS_SUCCESS \<and>
    bw_calls (lw_boot w') = pre @ [Call_GetMemoryMap k, Call_ExitBootServices k]"
proof -
  obtain kb ks init wa base sz e wb bi1 sn wc where f: "boot_files sv io ImageHandle w = Some (Inr ((kb, ks), init), wa)"
    and l: "boot_load sv kb ks wa = Some (Inr (base, sz, e), wb)"
    and i: "boot_info sv ImageHandle Snapshot0 (base, sz, e) init wb = Some (Inr (a, bi1, sn), wc)"
    and x: "boot_exit sv io a bi1 sn wc = Some (Inr bi, w')" and e: "entry = bi_KernelEntry bi"
    using efi_main_phases [OF assms] by metis
  obtain Root File Data xs ys zs where r: "reads w (xs @ Call_Open Root kernel_path File # ys @ Call_Read File kb ks Data # zs) wa"
    "\<forall>c\<in>set xs \<union> set ys. \<not> file_call c" using boot_files_Inr [OF f] by blast
  have d: "file_bytes (lw_mem wa) kb ks = Data" if "length Data = unat ks" "spared kb Data zs"
    using file_bytes_spared [OF that(2,1)] r(1) by (simp add: reads_def delivered_append)
  obtain AllocatePages delta t b st where
    k: "LoadKpeImage AllocatePages (file_bytes (lw_mem wa) kb ks) (lw_mem wa) = Some (Inr (base, sz, e, delta), lw_mem wb)"
    "Call_AllocatePages t (boot_pages (file_bytes (lw_mem wa) kb ks)) b st base \<in> set (bw_calls (lw_boot wb))" "\<not> EFI_ERROR st" "base \<le> e" "e < base + sz"
    using boot_load_Inr [OF l] by blast
  obtain gop lb where p: "a \<noteq> 0" "lw_mem wc = lw_mem wb" "bi1 = PopulateBootInfo gop lb base sz e (fst init) (snd init) sn gBootVerbose"
    using boot_info_Inr [OF i] by blast
  obtain n pre key where o: "lw_mem w' = lw_mem wc" "bi = bi1\<lparr>bi_MemoryMapEntryCount := n\<rparr>"
    "bw_calls (lw_boot w') = pre @ [Call_GetMemoryMap key, Call_ExitBootServices key]"
    using boot_exit_Inr [OF x] by blast
  have bi: "bi_Magic bi = BOOTINFO_MAGIC" "bi_KernelBase bi = base" "bi_KernelSize bi = sz" "bi_KernelEntry bi = e"
    by (simp_all add: o(2) p(3) PopulateBootInfo_def)
  have "fst (NkInitializeCore (Some (a, bi)) s) = KSTATUS_SUCCESS" by (simp add: NkInitializeCore_def bi)
  then show ?thesis
    unfolding e bi(2-4) o(1) p(2) using f r d l k p(1) o(3) by blast
qed

theorem efi_main_enters_witness:
  "\<exists>e a bi w'. efi_main demo_services demo_ports 1 demo_snapshot demo_world = Some (Boot_Call e a bi, w') \<and>
     (\<exists>AllocatePages m delta. LoadKpeImage AllocatePages demo_kernel m = Some (Inr (bi_KernelBase bi, bi_KernelSize bi, e, delta), lw_mem w')) \<and>
     fst (NkInitializeCore (Some (a, bi)) nk_bss) = KSTATUS_SUCCESS \<and>
     (\<exists>pre k. bw_calls (lw_boot w') = pre @ [Call_GetMemoryMap k, Call_ExitBootServices k])"
proof -
  obtain e a bi w' where r: "efi_main demo_services demo_ports 1 demo_snapshot demo_world = Some (Boot_Call e a bi, w')" using demo_boots by blast
  from efi_main_enters [OF r, of nk_bss] obtain kb ks init wa AllocatePages delta pre k where
    f: "boot_files demo_services demo_ports 1 demo_world = Some (Inr ((kb, ks), init), wa)"
    and l: "LoadKpeImage AllocatePages (file_bytes (lw_mem wa) kb ks) (lw_mem wa) = Some (Inr (bi_KernelBase bi, bi_KernelSize bi, e, delta), lw_mem w')"
    and n: "fst (NkInitializeCore (Some (a, bi)) nk_bss) = KSTATUS_SUCCESS" "bw_calls (lw_boot w') = pre @ [Call_GetMemoryMap k, Call_ExitBootServices k]"
    by blast
  have "length demo_kernel < 2 ^ 64" by (simp add: demo_kernel_def packed_image_fields(1))
  then have "file_bytes (lw_mem wa) kb ks = demo_kernel" using demo_files f file_bytes_read by auto
  with r l n show ?thesis by auto
qed

end
