(* ===== verification/NtxRtl.thy ===== *)
theory NtxRtl
  imports NtxPrelude
begin

text \<open>
  The run time memory routines, \<^verbatim>\<open>kernel/rtl/memory.c\<close>, over a memory of bytes.  Pointers are 64-bit
  addresses; a size is a 64-bit word.
\<close>

section \<open>Definitions\<close>

type_synonym rtl_mem = "u64 \<Rightarrow> u8"

fun memcpy_loop :: "u64 \<Rightarrow> u64 \<Rightarrow> u64 \<Rightarrow> nat \<Rightarrow> rtl_mem \<Rightarrow> rtl_mem" where
  "memcpy_loop dst src i 0 m = m"
| "memcpy_loop dst src i (Suc k) m = memcpy_loop dst src (i + 1) k (m(dst + i := m (src + i)))"

definition memcpy :: "u64 \<Rightarrow> u64 \<Rightarrow> u64 \<Rightarrow> rtl_mem \<Rightarrow> rtl_mem" where
  "memcpy Destination Source Size m = memcpy_loop Destination Source 0 (unat Size) m"

text \<open>The descending loop, \<open>i\<close> counting down from the size to 1.\<close>

fun memmove_down :: "u64 \<Rightarrow> u64 \<Rightarrow> nat \<Rightarrow> rtl_mem \<Rightarrow> rtl_mem" where
  "memmove_down dst src 0 m = m"
| "memmove_down dst src (Suc k) m = memmove_down dst src k (m(dst + of_nat k := m (src + of_nat k)))"

definition memmove :: "u64 \<Rightarrow> u64 \<Rightarrow> u64 \<Rightarrow> rtl_mem \<Rightarrow> rtl_mem" where
  "memmove Destination Source Size m =
     (if Destination = Source \<or> Size = 0 then m
      else if Destination < Source then memcpy_loop Destination Source 0 (unat Size) m
      else memmove_down Destination Source (unat Size) m)"

fun memset_loop :: "u64 \<Rightarrow> u8 \<Rightarrow> u64 \<Rightarrow> nat \<Rightarrow> rtl_mem \<Rightarrow> rtl_mem" where
  "memset_loop dst v i 0 m = m"
| "memset_loop dst v i (Suc k) m = memset_loop dst v (i + 1) k (m(dst + i := v))"

definition memset :: "u64 \<Rightarrow> 32 word \<Rightarrow> u64 \<Rightarrow> rtl_mem \<Rightarrow> rtl_mem" where
  "memset Destination Value Size m = memset_loop Destination (ucast Value) 0 (unat Size) m"

fun memcmp_loop :: "u64 \<Rightarrow> u64 \<Rightarrow> u64 \<Rightarrow> nat \<Rightarrow> rtl_mem \<Rightarrow> int" where
  "memcmp_loop lhs rhs i 0 m = 0"
| "memcmp_loop lhs rhs i (Suc k) m =
     (if m (lhs + i) \<noteq> m (rhs + i) then uint (m (lhs + i)) - uint (m (rhs + i)) else memcmp_loop lhs rhs (i + 1) k m)"

definition memcmp :: "u64 \<Rightarrow> u64 \<Rightarrow> u64 \<Rightarrow> rtl_mem \<Rightarrow> int" where
  "memcmp LeftBuf RightBuf Size m = memcmp_loop LeftBuf RightBuf 0 (unat Size) m"

section \<open>Ranges of addresses\<close>

text \<open>\<open>off d a\<close>: the distance from \<open>d\<close> up to \<open>a\<close>, around the end of the address space.\<close>

definition off :: "u64 \<Rightarrow> u64 \<Rightarrow> nat" where
  "off d a = unat (a - d)"

lemma off_add: "k < 2 ^ 64 \<Longrightarrow> off d (d + of_nat k) = k"
  by (simp add: off_def unsigned_of_nat take_bit_nat_eq_self)

lemma off_inj: "a = d + of_nat (off d a)"
  by (simp add: off_def)

lemma off_eq: "k < 2 ^ 64 \<Longrightarrow> a = d + of_nat k \<longleftrightarrow> off d a = k"
  using off_add off_inj by metis

text \<open>The bytes a finished copy leaves: those of \<open>src\<close> in \<open>m\<close> inside the destination, \<open>m\<close> outside.\<close>

definition copied :: "u64 \<Rightarrow> u64 \<Rightarrow> nat \<Rightarrow> nat \<Rightarrow> rtl_mem \<Rightarrow> rtl_mem" where
  "copied dst src lo hi m a = (if lo \<le> off dst a \<and> off dst a < hi then m (src + of_nat (off dst a)) else m a)"

text \<open>The ascending loop copies what was there before when no store lands on a source byte still to be read.\<close>

lemma copy_up:
  assumes "i + k \<le> 2 ^ 64" and clear: "\<And>x y. i \<le> x \<Longrightarrow> x < y \<Longrightarrow> y < i + k \<Longrightarrow> src + of_nat y \<noteq> dst + of_nat x"
  shows "memcpy_loop dst src (of_nat i) k m = copied dst src i (i + k) m"
  using assms
proof (induction k arbitrary: i m)
  case 0
  then show ?case by (auto simp: copied_def fun_eq_iff)
next
  case (Suc k)
  let ?m = "m(dst + of_nat i := m (src + of_nat i))"
  have "memcpy_loop dst src (of_nat i) (Suc k) m = memcpy_loop dst src (of_nat (Suc i)) k ?m" by (simp add: add.commute)
  also have "\<dots> = copied dst src (Suc i) (Suc i + k) ?m" by (rule Suc.IH) (use Suc.prems in auto)
  also have "\<dots> = copied dst src i (i + Suc k) m"
  proof
    fix a
    have i: "i < 2 ^ 64" using Suc.prems(1) by simp
    consider "off dst a = i" | "Suc i \<le> off dst a" "off dst a < i + Suc k" | "off dst a < i \<or> i + Suc k \<le> off dst a" by linarith
    then show "copied dst src (Suc i) (Suc i + k) ?m a = copied dst src i (i + Suc k) m a"
    proof cases
      case 1
      then have "a = dst + of_nat i" using off_eq [OF i] by simp
      with 1 show ?thesis by (simp add: copied_def)
    next
      case 2
      then have "src + of_nat (off dst a) \<noteq> dst + of_nat i" using Suc.prems(2) [of i "off dst a"] by simp
      with 2 show ?thesis by (simp add: copied_def)
    next
      case 3
      then have "a \<noteq> dst + of_nat i" using off_eq [OF i] by auto
      with 3 show ?thesis by (auto simp: copied_def)
    qed
  qed
  finally show ?case .
qed

lemma copy_down:
  assumes "k \<le> 2 ^ 64" and clear: "\<And>x y. y < x \<Longrightarrow> x < k \<Longrightarrow> src + of_nat y \<noteq> dst + of_nat x"
  shows "memmove_down dst src k m = copied dst src 0 k m"
  using assms
proof (induction k arbitrary: m)
  case 0
  then show ?case by (simp add: copied_def fun_eq_iff)
next
  case (Suc k)
  let ?m = "m(dst + of_nat k := m (src + of_nat k))"
  have "memmove_down dst src (Suc k) m = copied dst src 0 k ?m" using Suc by simp
  also have "\<dots> = copied dst src 0 (Suc k) m"
  proof
    fix a
    have k: "k < 2 ^ 64" using Suc.prems(1) by simp
    consider "off dst a = k" | "off dst a < k" | "k < off dst a" by linarith
    then show "copied dst src 0 k ?m a = copied dst src 0 (Suc k) m a"
    proof cases
      case 1
      then have "a = dst + of_nat k" using off_eq [OF k] by simp
      with 1 show ?thesis by (simp add: copied_def)
    next
      case 2
      then have "src + of_nat (off dst a) \<noteq> dst + of_nat k" using Suc.prems(2) [of "off dst a" k] by simp
      with 2 show ?thesis by (simp add: copied_def)
    next
      case 3
      then have "a \<noteq> dst + of_nat k" using off_eq [OF k] by auto
      with 3 show ?thesis by (auto simp: copied_def)
    qed
  qed
  finally show ?case .
qed

lemma no_wrap_add: "unat (p :: u64) + k < 2 ^ 64 \<Longrightarrow> unat (p + of_nat k) = unat p + k"
  by (subst unat_add_lem [THEN iffD1]) (simp_all add: unsigned_of_nat take_bit_nat_eq_self)

lemma ranges_clear:
  assumes "unat (p :: u64) + n \<le> 2 ^ 64" "unat q + n \<le> 2 ^ 64" "x < n" "y < n" "unat p + y \<noteq> unat q + x"
  shows "p + of_nat y \<noteq> q + of_nat x"
  using assms no_wrap_add [of p y] no_wrap_add [of q x] by (metis add_less_cancel_left order_less_le_trans)

lemma memset_effect:
  assumes "i + k \<le> 2 ^ 64"
  shows "memset_loop dst v (of_nat i) k m = (\<lambda>a. if i \<le> off dst a \<and> off dst a < i + k then v else m a)"
  using assms
proof (induction k arbitrary: i m)
  case (Suc k)
  have i: "i < 2 ^ 64" using Suc.prems by simp
  have "memset_loop dst v (of_nat i) (Suc k) m = memset_loop dst v (of_nat (Suc i)) k (m(dst + of_nat i := v))" by (simp add: add.commute)
  also have "\<dots> = (\<lambda>a. if Suc i \<le> off dst a \<and> off dst a < Suc i + k then v else (m(dst + of_nat i := v)) a)"
    by (rule Suc.IH) (use Suc.prems in simp)
  also have "\<dots> = (\<lambda>a. if i \<le> off dst a \<and> off dst a < i + Suc k then v else m a)"
    using off_eq [OF i, of _ dst] by (auto simp: fun_eq_iff)
  finally show ?case .
qed (auto simp: fun_eq_iff)

section \<open>Properties\<close>

text \<open>C40: \<^verbatim>\<open>memmove\<close> copies overlapping ranges correctly: for ranges that do not run over the end of the address space,
  every byte of the destination afterwards is the byte the source held before, and nothing else
  changes.  \<^verbatim>\<open>memcpy\<close> does the same when the destination starts at or below the source or the ranges are
  disjoint.\<close>

theorem memmove_copies:
  assumes "unat dst + unat n \<le> 2 ^ 64" and "unat src + unat n \<le> 2 ^ 64"
  shows "memmove dst src n m = copied dst src 0 (unat n) m \<and>
    (dst \<le> src \<or> unat src + unat n \<le> unat dst \<longrightarrow> memcpy dst src n m = copied dst src 0 (unat n) m)"
proof -
  have up: "memcpy_loop dst src 0 (unat n) m = copied dst src 0 (unat n) m" if "dst \<le> src \<or> unat src + unat n \<le> unat dst"
  proof -
    have "src + of_nat y \<noteq> dst + of_nat x" if "x < y" "y < unat n" for x y
      by (rule ranges_clear [OF assms(2,1)]) (use that \<open>dst \<le> src \<or> _\<close> in \<open>auto simp: word_le_nat_alt\<close>)
    with copy_up [of 0 "unat n" src dst m] assms(1) show ?thesis by simp
  qed
  have "memmove_down dst src (unat n) m = copied dst src 0 (unat n) m" if "src \<le> dst"
  proof (rule copy_down)
    show "src + of_nat y \<noteq> dst + of_nat x" if "y < x" "x < unat n" for x y
      by (rule ranges_clear [OF assms(2,1)]) (use that \<open>src \<le> dst\<close> in \<open>auto simp: word_le_nat_alt\<close>)
  qed (use assms in simp)
  moreover have "copied dst dst 0 (unat n) m = m" by (simp add: copied_def fun_eq_iff off_inj [symmetric])
  moreover have "copied dst src 0 0 m = m" by (simp add: copied_def fun_eq_iff)
  ultimately show ?thesis using up by (auto simp: memmove_def memcpy_def less_le)
qed

theorem memmove_copies_witness:
  "map (memmove 101 100 3 (\<lambda>a. ucast a)) [100, 101, 102, 103, 104] = [100, 100, 101, 102, 104]"
proof -
  have "memmove 101 100 3 (\<lambda>a. ucast a) = copied 101 100 0 (unat (3 :: u64)) (\<lambda>a. ucast a)"
    using memmove_copies [of 101 3 100 "\<lambda>a. ucast a"] by simp
  moreover have "unat (- 1 :: u64) = 2 ^ 64 - 1" by (simp add: unsigned_minus_1_eq_mask mask_eq_exp_minus_1)
  ultimately show ?thesis by (simp add: copied_def off_def)
qed

text \<open>\<^verbatim>\<open>memcmp\<close> orders byte strings: the result is 0 exactly when the two ranges hold the same bytes, and otherwise its sign is
  that of the first pair of bytes that differ, compared as unsigned numbers.\<close>

theorem memcmp_orders:
  "case find (\<lambda>i. m (lhs + of_nat i) \<noteq> m (rhs + of_nat i)) [0..<unat n] of
     None \<Rightarrow> memcmp lhs rhs n m = 0
   | Some i \<Rightarrow> sgn (memcmp lhs rhs n m) = (if m (lhs + of_nat i) < m (rhs + of_nat i) then -1 else 1)"
proof -
  have "case find (\<lambda>j. m (lhs + of_nat j) \<noteq> m (rhs + of_nat j)) [i..<i + k] of
     None \<Rightarrow> memcmp_loop lhs rhs (of_nat i) k m = 0
   | Some j \<Rightarrow> sgn (memcmp_loop lhs rhs (of_nat i) k m) = (if m (lhs + of_nat j) < m (rhs + of_nat j) then -1 else 1)" for i k
  proof (induction k arbitrary: i)
    case (Suc k)
    have e: "[i..<i + Suc k] = i # [Suc i..<Suc i + k]" by (simp add: upt_conv_Cons)
    show ?case
    proof (cases "m (lhs + of_nat i) = m (rhs + of_nat i)")
      case True
      then have l: "memcmp_loop lhs rhs (of_nat i) (Suc k) m = memcmp_loop lhs rhs (of_nat (Suc i)) k m" by (simp add: add.commute)
      show ?thesis using Suc [of "Suc i"] True unfolding e l by simp
    next
      case False
      then show ?thesis unfolding e by (auto simp: sgn_if word_less_def word_uint_eq_iff)
    qed
  qed simp
  from this [of 0 "unat n"] show ?thesis by (simp add: memcmp_def split: option.splits)
qed

end
