(* ===== verification/NtxInit.thy ===== *)
theory NtxInit
  imports NtxSyscall
begin

text \<open>
  The first user program, \<^verbatim>\<open>user/init/init.c\<close>: a line editor over the system calls.

  The program keeps its locals in \<open>INIT_STATE\<close>.  A pass of its endless loop reads at most one character; what the
  console call returned and what it stored in \<^verbatim>\<open>Ch\<close> (0 when it stored nothing) is the argument of the pass.  A pass
  gives the system calls it made, each with the bytes its buffer argument covers, and \<open>None\<close> when it reads or
  writes outside an array.  The reference is a terminal and an editor of finite lines.
\<close>

section \<open>Definitions\<close>

datatype INIT_SYSCALL = InitSysDebugPrint | InitSysYield | InitSysExitThread | InitSysReadConsole

primrec init_number :: "INIT_SYSCALL \<Rightarrow> u64" where
  "init_number InitSysDebugPrint = 0"
| "init_number InitSysYield = 1"
| "init_number InitSysExitThread = 5"
| "init_number InitSysReadConsole = 15"

text \<open>The call instruction: the registers the trap finds.  \<^verbatim>\<open>r11\<close> is not set by the program.\<close>

definition nk_syscall ::
    "'d machine \<Rightarrow> u64 \<Rightarrow> u64 \<Rightarrow> u64 \<Rightarrow> u64 \<Rightarrow> u64 \<Rightarrow> u64 \<Rightarrow> u64 \<Rightarrow> u64 \<Rightarrow> ('a, 'd) system \<Rightarrow> (u64 \<times> ('a, 'd) system) option" where
  "nk_syscall mc r11 Number Arg0 Arg1 Arg2 Arg3 Arg4 Arg5 x = do {
     (Frame, y) \<leftarrow> HalpHandleSyscallTrap mc
       \<lparr>sf_R11 = r11, sf_R10 = Arg3, sf_R9 = Arg5, sf_R8 = Arg4, sf_Rdx = Arg2, sf_Rsi = Arg1, sf_Rdi = Arg0, sf_Rax = Number\<rparr> x;
     Some (sf_Rax Frame, y) }"

fun nk_strlen_loop :: "u8 list \<Rightarrow> u64 \<Rightarrow> u64 option" where
  "nk_strlen_loop [] Length = None"
| "nk_strlen_loop (c # cs) Length = (if c \<noteq> 0 then nk_strlen_loop cs (Length + 1) else Some Length)"

definition nk_strlen :: "u8 list \<Rightarrow> u64 option" where
  "nk_strlen Text = nk_strlen_loop Text 0"

text \<open>The constant strings, with their final NUL.\<close>

definition ascii :: "string \<Rightarrow> u8 list" where "ascii t = map of_char t"

definition Banner :: "u8 list" where "Banner = ascii ''init.kpe online'' @ [0x0A, 0]"
definition Prompt :: "u8 list" where "Prompt = ascii ''NK> '' @ [0]"
definition Hint :: "u8 list" where "Hint = ascii ''type '' @ [0x27] @ ascii ''help'' @ [0x27] @ ascii '' for debug commands'' @ [0x0A, 0]"
definition Newline :: "u8 list" where "Newline = [0x0A, 0]"
definition CursorOn :: "u8 list" where "CursorOn = ascii ''_'' @ [0]"
definition CursorOff :: "u8 list" where "CursorOff = [0x08, 0x20, 0x08, 0]"
definition Bs :: "u8 list" where "Bs = [0x08, 0x20, 0x08, 0]"

record INIT_STATE =
  in_Line :: "u8 list"
  in_LineLen :: u64
  in_PromptShown :: u32
  in_CursorShown :: u32

type_synonym init_call = "INIT_SYSCALL \<times> u8 list"

text \<open>A print of the first \<open>n\<close> bytes of an array; the kernel reads no more than the array holds or the access is wrong.\<close>

definition print_bytes :: "u8 list \<Rightarrow> u64 \<Rightarrow> init_call option" where
  "print_bytes Text n = (if unat n \<le> length Text then Some (InitSysDebugPrint, take (unat n) Text) else None)"

definition print_string :: "u8 list \<Rightarrow> init_call option" where
  "print_string Text = do { n \<leftarrow> nk_strlen Text; print_bytes Text n }"

definition show_prompt :: "INIT_STATE \<Rightarrow> (INIT_STATE \<times> init_call list) option" where
  "show_prompt s =
     (if in_LineLen s = 0 \<and> in_PromptShown s = 0
      then do { c \<leftarrow> print_string Prompt; Some (s\<lparr>in_PromptShown := 1\<rparr>, [c]) }
      else Some (s, []))"

definition show_cursor :: "INIT_STATE \<Rightarrow> (INIT_STATE \<times> init_call list) option" where
  "show_cursor s =
     (if in_PromptShown s \<noteq> 0 \<and> in_CursorShown s = 0
      then do { c \<leftarrow> print_bytes CursorOn 1; Some (s\<lparr>in_CursorShown := 1\<rparr>, [c]) }
      else Some (s, []))"

definition hide_cursor :: "INIT_STATE \<Rightarrow> (INIT_STATE \<times> init_call list) option" where
  "hide_cursor s =
     (if in_CursorShown s \<noteq> 0
      then do { c \<leftarrow> print_bytes CursorOff 3; Some (s\<lparr>in_CursorShown := 0\<rparr>, [c]) }
      else Some (s, []))"

definition store_line :: "u64 \<Rightarrow> u8 \<Rightarrow> INIT_STATE \<Rightarrow> INIT_STATE option" where
  "store_line i v s = (if unat i < length (in_Line s) then Some (s\<lparr>in_Line := (in_Line s)[unat i := v]\<rparr>) else None)"

text \<open>The two parts of a pass: up to the read, and what is done with the character.\<close>

definition init_prepare :: "INIT_STATE \<Rightarrow> (INIT_STATE \<times> init_call list) option" where
  "init_prepare s = do { (s1, p1) \<leftarrow> show_prompt s; (s2, p2) \<leftarrow> show_cursor s1; Some (s2, p1 @ p2) }"

definition end_line :: "INIT_STATE \<Rightarrow> (INIT_STATE \<times> init_call list) option" where
  "end_line s = do {
     nl \<leftarrow> print_bytes Newline 1;
     (s1, p) \<leftarrow> (if in_LineLen s \<noteq> 0
        then do {
          s1 \<leftarrow> store_line (in_LineLen s) 0 s;
          ln \<leftarrow> print_bytes (in_Line s1) (in_LineLen s1);
          Some (s1, [nl, ln, nl]) }
        else Some (s, [nl]));
     Some (s1\<lparr>in_LineLen := 0, in_PromptShown := 0\<rparr>, p) }"

definition add_char :: "u8 \<Rightarrow> INIT_STATE \<Rightarrow> (INIT_STATE \<times> init_call list) option" where
  "add_char Ch s =
     (if in_LineLen s + 1 < of_nat (length (in_Line s)) \<and> word_sle 0x20 Ch \<and> word_sle Ch 0x7E
      then do {
        s1 \<leftarrow> store_line (in_LineLen s) Ch s;
        c \<leftarrow> print_bytes [Ch] 1;
        Some (s1\<lparr>in_LineLen := in_LineLen s1 + 1\<rparr>, [c]) }
      else Some (s, []))"

definition init_char :: "u8 \<Rightarrow> INIT_STATE \<Rightarrow> (INIT_STATE \<times> init_call list) option" where
  "init_char Ch s =
     (if Ch = 0x0D \<or> Ch = 0x0A then end_line s
      else if (Ch = 0x08 \<or> Ch = 0x7F) \<and> in_LineLen s > 0
      then do { c \<leftarrow> print_bytes Bs 3; Some (s\<lparr>in_LineLen := in_LineLen s - 1\<rparr>, [c]) }
      else do { (s1, p1) \<leftarrow> add_char Ch s; (s2, p2) \<leftarrow> show_cursor s1; Some (s2, p1 @ p2) })"

definition init_pass :: "u64 \<times> u8 \<Rightarrow> INIT_STATE \<Rightarrow> (INIT_STATE \<times> init_call list) option" where
  "init_pass e s = do {
     (s1, p1) \<leftarrow> init_prepare s;
     let p2 = p1 @ [(InitSysReadConsole, [])];
     if fst e = 0 then Some (s1, p2 @ [(InitSysYield, [])])
     else do { (s3, p3) \<leftarrow> hide_cursor s1; (s4, p4) \<leftarrow> init_char (snd e) s3; Some (s4, p2 @ p3 @ p4) } }"

text \<open>The program: the banner, then a pass for each answer of the console.  \<open>Line0\<close> is what the stack held.\<close>

fun init_loop :: "(u64 \<times> u8) list \<Rightarrow> INIT_STATE \<Rightarrow> (INIT_STATE \<times> init_call list) option" where
  "init_loop [] s = Some (s, [])"
| "init_loop (e # es) s = do { (s1, p1) \<leftarrow> init_pass e s; (s2, p2) \<leftarrow> init_loop es s1; Some (s2, p1 @ p2) }"

definition init_start :: "u8 list \<Rightarrow> (u64 \<times> u8) list \<Rightarrow> (INIT_STATE \<times> init_call list) option" where
  "init_start Line0 es = do {
     c1 \<leftarrow> print_string Banner;
     c2 \<leftarrow> print_string Hint;
     (s, p) \<leftarrow> init_loop es \<lparr>in_Line = Line0, in_LineLen = 0, in_PromptShown = 0, in_CursorShown = 0\<rparr>;
     Some (s, c1 # c2 # p) }"

section \<open>The reference: a terminal and an editor\<close>

text \<open>A terminal without an edge: a byte is stored at the cursor, backspace moves left, line feed to the start of the next row.\<close>

record terminal =
  te_cell :: "nat \<Rightarrow> nat \<Rightarrow> u8"
  te_row :: nat
  te_col :: nat

definition te_blank :: terminal where "te_blank = \<lparr>te_cell = (\<lambda>i j. 0x20), te_row = 0, te_col = 0\<rparr>"

definition te_put :: "u8 \<Rightarrow> terminal \<Rightarrow> terminal" where
  "te_put c t =
     (if c = 0x0A then t\<lparr>te_row := te_row t + 1, te_col := 0\<rparr>
      else if c = 0x08 then t\<lparr>te_col := te_col t - 1\<rparr>
      else t\<lparr>te_cell := (\<lambda>i j. if i = te_row t \<and> j = te_col t then c else te_cell t i j), te_col := te_col t + 1\<rparr>)"

definition printed :: "init_call list \<Rightarrow> u8 list" where
  "printed p = concat (map snd p)"

definition te_show :: "init_call list \<Rightarrow> terminal" where
  "te_show p = fold te_put (printed p) te_blank"

definition row_cell :: "u8 list \<Rightarrow> nat \<Rightarrow> u8" where
  "row_cell l j = (if j < length l then l ! j else 0x20)"

text \<open>The terminal holds the rows \<open>d\<close> and, where the cursor stands at its end, the row \<open>l\<close>; all else is blank.\<close>

definition displays :: "terminal \<Rightarrow> u8 list list \<Rightarrow> u8 list \<Rightarrow> bool" where
  "displays t d l \<longleftrightarrow> te_row t = length d \<and> te_col t = length l \<and>
     (\<forall>i j. te_cell t i j = (if i < length d then row_cell (d ! i) j else if i = length d then row_cell l j else 0x20))"

text \<open>The editor: the rows above the input line and the input line.\<close>

definition edit :: "u64 \<times> u8 \<Rightarrow> u8 list list \<times> u8 list \<Rightarrow> u8 list list \<times> u8 list" where
  "edit e x =
     (case x of (d, b) \<Rightarrow>
        if fst e = 0 then (d, b)
        else if snd e = 0x0D \<or> snd e = 0x0A then (d @ [ascii ''NK> '' @ b] @ (if b = [] then [] else [b]), [])
        else if (snd e = 0x08 \<or> snd e = 0x7F) \<and> b \<noteq> [] then (d, butlast b)
        else if 0x20 \<le> snd e \<and> snd e \<le> 0x7E \<and> length b < 127 then (d, b @ [snd e])
        else (d, b))"

definition first_rows :: "u8 list list" where
  "first_rows = [ascii ''init.kpe online'', ascii ''type '' @ [0x27] @ ascii ''help'' @ [0x27] @ ascii '' for debug commands'']"

section \<open>The calls reach the kernel\<close>

text \<open>The numbers are those of the kernel, and a call enters the dispatcher with its arguments in order.\<close>

lemma init_number_syscall:
  "syscall_of (init_number c) =
     Some (case c of InitSysDebugPrint \<Rightarrow> NkSysDebugPrint | InitSysYield \<Rightarrow> NkSysYield
       | InitSysExitThread \<Rightarrow> NkSysExitThread | InitSysReadConsole \<Rightarrow> NkSysReadConsole)"
  by (cases c) (simp_all add: syscall_of_def syscall_numbers_def)

lemma nk_syscall_dispatch:
  "nk_syscall mc r11 Number Arg0 Arg1 Arg2 Arg3 Arg4 Arg5 x = KiDispatchSystemCall mc Number Arg0 Arg1 Arg2 Arg3 Arg4 Arg5 x"
  by (auto simp: nk_syscall_def HalpHandleSyscallTrap_def split: bind_splits)

section \<open>What the terminal shows\<close>

definition printable :: "u8 \<Rightarrow> bool" where
  "printable c \<longleftrightarrow> 0x20 \<le> c \<and> c \<le> 0x7E"

lemma printableD: "printable c \<Longrightarrow> c \<noteq> 0x0A \<and> c \<noteq> 0x08"
  by (auto simp: printable_def)

lemma printable_signed: "word_sle 0x20 c \<and> word_sle c 0x7E \<longleftrightarrow> printable c"
proof -
  have "\<forall>c \<in> set (map (word_of_int :: int \<Rightarrow> u8) [0..255]). (word_sle 0x20 c \<and> word_sle c 0x7E) = (0x20 \<le> c \<and> c \<le> 0x7E)"
    by code_simp
  moreover have "c = word_of_int (uint c)" "uint c \<in> set [0..255]"
    using uint_lt2p [of c] by simp_all
  ultimately show ?thesis unfolding printable_def by (metis image_eqI set_map)
qed

lemma displays_char: "displays t d l \<Longrightarrow> printable c \<Longrightarrow> displays (te_put c t) d (l @ [c])"
  by (auto simp: displays_def te_put_def row_cell_def nth_append dest: printableD)

lemma displays_chars: "displays t d l \<Longrightarrow> list_all printable cs \<Longrightarrow> displays (fold te_put cs t) d (l @ cs)"
proof (induction cs arbitrary: t l)
  case (Cons c cs)
  then show ?case using Cons.IH [of "te_put c t" "l @ [c]"] by (simp add: displays_char)
qed simp

lemma displays_newline: "displays t d l \<Longrightarrow> displays (te_put 0x0A t) (d @ [l]) []"
  by (auto simp: displays_def te_put_def row_cell_def nth_append)

lemma displays_erase: "displays t d (l @ [c]) \<Longrightarrow> displays (fold te_put [0x08, 0x20, 0x08] t) d l"
  by (auto simp: displays_def te_put_def row_cell_def nth_append fun_eq_iff)

lemma displays_blank: "displays te_blank [] []"
  by (simp add: displays_def te_blank_def row_cell_def)

lemmas displays_step = displays_char displays_chars displays_newline displays_erase

section \<open>The program refines the editor\<close>

text \<open>Between two steps: the input line is in the array, and the terminal shows it behind the prompt, with or without the
  cursor mark; with no prompt shown the line is empty and the cursor stands on a new row.\<close>

definition line_ok :: "INIT_STATE \<Rightarrow> u8 list \<Rightarrow> bool" where
  "line_ok s b \<longleftrightarrow> length (in_Line s) = 128 \<and> in_LineLen s = of_nat (length b) \<and> length b \<le> 127 \<and>
     take (length b) (in_Line s) = b \<and> list_all printable b"

definition shown :: "INIT_STATE \<Rightarrow> terminal \<Rightarrow> u8 list list \<Rightarrow> u8 list \<Rightarrow> bool" where
  "shown s t d b \<longleftrightarrow>
     (if in_PromptShown s = 0 then b = [] \<and> in_CursorShown s = 0 \<and> displays t d []
      else displays t d (ascii ''NK> '' @ b @ (if in_CursorShown s = 0 then [] else ascii ''_'')))"

definition editing :: "INIT_STATE \<Rightarrow> terminal \<Rightarrow> u8 list list \<times> u8 list \<Rightarrow> bool" where
  "editing s t x \<longleftrightarrow> line_ok s (snd x) \<and> shown s t (fst x) (snd x)"

abbreviation te_calls :: "init_call list \<Rightarrow> terminal \<Rightarrow> terminal" where
  "te_calls p t \<equiv> fold te_put (printed p) t"

text \<open>Every call the program makes is one the kernel accepts: a print has at least one byte and at most the limit.\<close>

definition call_ok :: "init_call \<Rightarrow> bool" where
  "call_ok c \<longleftrightarrow> (case c of (n, d) \<Rightarrow> n \<noteq> InitSysExitThread \<and>
     (if n = InitSysDebugPrint then 1 \<le> length d \<and> length d \<le> unat KI_SYSCALL_DEBUGPRINT_MAX else d = []))"

lemma printed_simps [simp]:
  "printed [] = []" "printed ((n, b) # p) = b @ printed p" "printed (p @ q) = printed p @ printed q"
  by (simp_all add: printed_def)

lemma line_ok_upd [simp]:
  "line_ok (s\<lparr>in_PromptShown := x\<rparr>) b = line_ok s b" "line_ok (s\<lparr>in_CursorShown := y\<rparr>) b = line_ok s b"
  by (simp_all add: line_ok_def)

lemma LineLen_eq_0: "line_ok s b \<Longrightarrow> in_LineLen s = 0 \<longleftrightarrow> b = []"
  by (auto simp: line_ok_def word_arith_nat_defs(7) unsigned_of_nat take_bit_nat_eq_self dest!: arg_cong [of _ _ unat])

lemma unat_LineLen: "line_ok s b \<Longrightarrow> unat (in_LineLen s) = length b"
  by (simp add: line_ok_def unsigned_of_nat take_bit_nat_eq_self)

lemma print_constants:
  "print_string Banner = Some (InitSysDebugPrint, first_rows ! 0 @ [0x0A])"
  "print_string Hint = Some (InitSysDebugPrint, first_rows ! 1 @ [0x0A])"
  "print_string Prompt = Some (InitSysDebugPrint, ascii ''NK> '')"
  "print_bytes CursorOn 1 = Some (InitSysDebugPrint, ascii ''_'')"
  "print_bytes CursorOff 3 = Some (InitSysDebugPrint, [0x08, 0x20, 0x08])"
  "print_bytes Bs 3 = Some (InitSysDebugPrint, [0x08, 0x20, 0x08])"
  "print_bytes Newline 1 = Some (InitSysDebugPrint, [0x0A])"
  "print_bytes [c] 1 = Some (InitSysDebugPrint, [c])"
  by (simp_all add: print_string_def print_bytes_def nk_strlen_def Banner_def Hint_def Prompt_def CursorOn_def CursorOff_def
      Bs_def Newline_def ascii_def first_rows_def of_char_def)

lemma ascii_printable: "list_all printable (ascii ''NK> '')" "list_all printable (ascii ''_'')"
  "list_all printable (first_rows ! 0)" "list_all printable (first_rows ! 1)"
  by (simp_all add: ascii_def printable_def first_rows_def of_char_def)

text \<open>A step succeeds, makes calls the kernel accepts, and keeps program, terminal and editor together.\<close>

definition does :: "(INIT_STATE \<times> init_call list) option \<Rightarrow> terminal \<Rightarrow> u8 list list \<times> u8 list \<Rightarrow> (INIT_STATE \<Rightarrow> bool) \<Rightarrow> bool" where
  "does r t x Q \<longleftrightarrow> (\<exists>s p. r = Some (s, p) \<and> editing s (te_calls p t) x \<and> list_all call_ok p \<and> Q s)"

lemma doesI: "editing s (te_calls p t) x \<Longrightarrow> list_all call_ok p \<Longrightarrow> Q s \<Longrightarrow> does (Some (s, p)) t x Q"
  by (simp add: does_def)

lemma doesE:
  assumes "does r t x Q"
  obtains s p where "r = Some (s, p)" "editing s (te_calls p t) x" "list_all call_ok p" "Q s"
  using assms by (auto simp: does_def)

text \<open>The states of a pass: waiting for a character, and handling one.\<close>

definition waiting :: "INIT_STATE \<Rightarrow> bool" where
  "waiting s \<longleftrightarrow> in_PromptShown s \<noteq> 0 \<and> in_CursorShown s \<noteq> 0"

definition handling :: "INIT_STATE \<Rightarrow> bool" where
  "handling s \<longleftrightarrow> in_PromptShown s \<noteq> 0 \<and> in_CursorShown s = 0"

lemma call_ok_constants [simp]:
  "call_ok (InitSysDebugPrint, ascii ''NK> '')" "call_ok (InitSysDebugPrint, ascii ''_'')"
  "call_ok (InitSysDebugPrint, [a, b, c])" "call_ok (InitSysDebugPrint, [a])"
  "call_ok (InitSysReadConsole, [])" "call_ok (InitSysYield, [])"
  by (simp_all add: call_ok_def ascii_def KI_SYSCALL_DEBUGPRINT_MAX_def)

lemma handling_shown: "handling s \<Longrightarrow> shown s t d b = displays t d (ascii ''NK> '' @ b)"
  by (simp add: handling_def shown_def)

lemma waiting_shown: "waiting s \<Longrightarrow> shown s t d b = displays t d (ascii ''NK> '' @ b @ ascii ''_'')"
  by (simp add: waiting_def shown_def)

lemma show_prompt_does: "editing s t x \<Longrightarrow> does (show_prompt s) t x (\<lambda>s. in_PromptShown s \<noteq> 0)"
  using displays_chars [OF _ ascii_printable(1), of t "fst x" "[]"]
  by (auto simp: show_prompt_def print_constants editing_def shown_def LineLen_eq_0 split: if_splits intro!: doesI)

lemma show_cursor_does:
  assumes "editing s t x" and "in_PromptShown s \<noteq> 0"
  shows "does (show_cursor s) t x waiting"
proof (cases "in_CursorShown s = 0")
  case True
  then have "displays (fold te_put (ascii ''_'') t) (fst x) ((ascii ''NK> '' @ snd x) @ ascii ''_'')"
    using assms by (intro displays_chars ascii_printable) (simp add: editing_def shown_def)
  then show ?thesis
    using assms True by (auto simp: show_cursor_def print_constants editing_def waiting_def shown_def intro!: doesI)
qed (use assms in \<open>auto simp: show_cursor_def waiting_def intro!: doesI\<close>)

lemma hide_cursor_does:
  assumes "editing s t x" and "waiting s"
  shows "does (hide_cursor s) t x handling"
proof -
  have "displays t (fst x) ((ascii ''NK> '' @ snd x) @ [0x5F])"
    using assms by (simp add: editing_def waiting_shown) (simp add: ascii_def of_char_def)
  from displays_erase [OF this] show ?thesis
    using assms by (auto simp: hide_cursor_def print_constants editing_def waiting_def handling_def shown_def intro!: doesI)
qed

lemma does_seq:
  assumes "does r t x Q" and "\<And>s t. editing s t x \<Longrightarrow> Q s \<Longrightarrow> does (f s) t y R"
  shows "does (do { (s1, p1) \<leftarrow> r; (s2, p2) \<leftarrow> f s1; Some (s2, p1 @ p2) }) t y R"
proof -
  obtain s p where 1: "r = Some (s, p)" "editing s (te_calls p t) x" "list_all call_ok p" "Q s"
    using assms(1) by (rule doesE)
  obtain s' q where "f s = Some (s', q)" "editing s' (te_calls q (te_calls p t)) y" "list_all call_ok q" "R s'"
    using assms(2) [OF 1(2,4)] by (rule doesE)
  with 1 show ?thesis by (auto intro!: doesI)
qed

lemma init_prepare_does: "editing s t x \<Longrightarrow> does (init_prepare s) t x waiting"
  unfolding init_prepare_def by (rule does_seq [OF show_prompt_does]) (assumption, rule show_cursor_does)

text \<open>The three things a character can do.\<close>

lemma handling_upd [simp]: "handling (s\<lparr>in_Line := l\<rparr>) = handling s" "handling (s\<lparr>in_LineLen := n\<rparr>) = handling s"
  by (simp_all add: handling_def)

lemma end_line_does:
  assumes "editing s t (d, b)" and "handling s"
  shows "does (end_line s) t (d @ [ascii ''NK> '' @ b] @ (if b = [] then [] else [b]), []) (\<lambda>s. True)"
proof -
  have ok: "line_ok s b" and d: "displays t d (ascii ''NK> '' @ b)" and c: "in_CursorShown s = 0"
    using assms by (simp_all add: editing_def handling_shown handling_def)
  note nl = displays_newline [OF d]
  show ?thesis
  proof (cases "b = []")
    case True
    then show ?thesis using ok nl c
      by (auto simp: end_line_def print_constants LineLen_eq_0 [OF ok] editing_def shown_def line_ok_def intro!: doesI)
  next
    case False
    have "take (length b) ((in_Line s)[length b := 0]) = b" and "list_all printable b" and "length b \<le> 127" and "length (in_Line s) = 128"
      using ok by (simp_all add: line_ok_def)
    moreover from displays_newline [OF displays_chars [OF nl \<open>list_all printable b\<close>]]
    have "displays (te_put 0x0A (fold te_put b (te_put 0x0A t))) (d @ [ascii ''NK> '' @ b, b]) []" by simp
    ultimately show ?thesis using False c
      by (auto simp: end_line_def print_constants LineLen_eq_0 [OF ok] store_line_def unat_LineLen [OF ok] print_bytes_def [of "(in_Line s)[length b := 0]"]
          editing_def shown_def line_ok_def call_ok_def KI_SYSCALL_DEBUGPRINT_MAX_def Suc_le_eq intro!: doesI)
  qed
qed

lemma backspace_does:
  assumes "editing s t (d, b)" and "handling s" and "b \<noteq> []"
  shows "does (do { c \<leftarrow> print_bytes Bs 3; Some (s\<lparr>in_LineLen := in_LineLen s - 1\<rparr>, [c]) }) t (d, butlast b) (\<lambda>s. True)"
proof -
  have ok: "line_ok s b" and "displays t d ((ascii ''NK> '' @ butlast b) @ [last b])"
    using assms by (simp_all add: editing_def handling_shown)
  note displays_erase [OF this(2)]
  moreover have "line_ok (s\<lparr>in_LineLen := in_LineLen s - 1\<rparr>) (butlast b)"
    using ok \<open>b \<noteq> []\<close> by (cases b rule: rev_cases) (auto simp: line_ok_def take_Suc_conv_app_nth)
  ultimately show ?thesis
    using assms by (auto simp: print_constants editing_def handling_shown intro!: doesI)
qed

lemma add_char_does:
  assumes "editing s t (d, b)" and "handling s"
  shows "does (add_char Ch s) t (if printable Ch \<and> length b < 127 then (d, b @ [Ch]) else (d, b)) (\<lambda>s. in_PromptShown s \<noteq> 0)"
proof -
  have ok: "line_ok s b" and d: "displays t d (ascii ''NK> '' @ b)"
    using assms by (simp_all add: editing_def handling_shown)
  have len: "length (in_Line s) = 128" using ok by (simp add: line_ok_def)
  have room: "in_LineLen s + 1 < 128 \<longleftrightarrow> length b < 127"
  proof -
    have "in_LineLen s + 1 = of_nat (Suc (length b))" using ok by (simp add: line_ok_def)
    then show ?thesis using ok by (simp add: line_ok_def word_less_nat_alt unsigned_of_nat take_bit_nat_eq_self del: of_nat_Suc)
  qed
  show ?thesis
  proof (cases "printable Ch \<and> length b < 127")
    case True
    then have "displays (te_put Ch t) d (ascii ''NK> '' @ b @ [Ch])" using displays_char [OF d, of Ch] by simp
    moreover have "line_ok (s\<lparr>in_Line := (in_Line s)[length b := Ch], in_LineLen := in_LineLen s + 1\<rparr>) (b @ [Ch])"
      using ok True by (auto simp: line_ok_def take_Suc_conv_app_nth)
    ultimately show ?thesis
      using True assms(2) by (simp add: add_char_def len room printable_signed store_line_def unat_LineLen [OF ok] print_constants)
        (rule doesI, simp_all add: editing_def handling_shown, simp add: handling_def)
  qed (use assms in \<open>auto simp: add_char_def len room printable_signed handling_def intro!: doesI\<close>)
qed

lemma init_char_does:
  assumes "editing s t (d, b)" and "handling s" and "n \<noteq> 0"
  shows "does (init_char Ch s) t (edit (n, Ch) (d, b)) (\<lambda>s. True)"
proof -
  have ok: "line_ok s b" using assms by (simp add: editing_def)
  consider "Ch = 0x0D \<or> Ch = 0x0A" | "Ch \<noteq> 0x0D \<and> Ch \<noteq> 0x0A" "(Ch = 0x08 \<or> Ch = 0x7F) \<and> b \<noteq> []"
    | "Ch \<noteq> 0x0D \<and> Ch \<noteq> 0x0A" "\<not> ((Ch = 0x08 \<or> Ch = 0x7F) \<and> b \<noteq> [])" by blast
  then show ?thesis
  proof cases
    case 1
    with end_line_does [OF assms(1,2)] assms(3) show ?thesis by (simp add: init_char_def edit_def)
  next
    case 2
    with backspace_does [OF assms(1,2)] assms(3) LineLen_eq_0 [OF ok] show ?thesis
      by (simp add: init_char_def edit_def word_gt_0)
  next
    case 3
    then have "init_char Ch s = do { (s1, p1) \<leftarrow> add_char Ch s; (s2, p2) \<leftarrow> show_cursor s1; Some (s2, p1 @ p2) }"
      using LineLen_eq_0 [OF ok] by (auto simp: init_char_def word_gt_0)
    moreover have "edit (n, Ch) (d, b) = (if printable Ch \<and> length b < 127 then (d, b @ [Ch]) else (d, b))"
      using 3 assms(3) by (auto simp: edit_def printable_def)
    moreover have "does (do { (s1, p1) \<leftarrow> add_char Ch s; (s2, p2) \<leftarrow> show_cursor s1; Some (s2, p1 @ p2) }) t
        (if printable Ch \<and> length b < 127 then (d, b @ [Ch]) else (d, b)) waiting"
      by (rule does_seq [OF add_char_does [OF assms(1,2)]]) (rule show_cursor_does)
    ultimately show ?thesis by (simp only:) (auto simp: does_def)
  qed
qed

lemma init_pass_does:
  assumes "editing s t x"
  shows "does (init_pass e s) t (edit e x) (\<lambda>s. True)"
proof (cases "fst e = 0")
  case True
  with init_prepare_does [OF assms] show ?thesis
    by (auto simp: init_pass_def edit_def elim!: doesE intro!: doesI split: prod.splits)
next
  case False
  obtain s1 p1 where 1: "init_prepare s = Some (s1, p1)" "editing s1 (te_calls p1 t) x" "list_all call_ok p1" "waiting s1"
    using init_prepare_does [OF assms] by (rule doesE)
  have "does (do { (s3, p3) \<leftarrow> hide_cursor s1; (s4, p4) \<leftarrow> init_char (snd e) s3; Some (s4, p3 @ p4) }) (te_calls p1 t) (edit e x) (\<lambda>s. True)"
    using init_char_does [of _ _ "fst x" "snd x" "fst e" "snd e"] False
    by (intro does_seq [OF hide_cursor_does [OF 1(2,4)]]) simp
  then show ?thesis using 1 False
    by (elim doesE) (auto simp: init_pass_def intro!: doesI split: bind_splits)
qed

lemma init_loop_does: "editing s t x \<Longrightarrow> does (init_loop es s) t (fold edit es x) (\<lambda>s. True)"
proof (induction es arbitrary: s t x)
  case (Cons e es)
  show ?case
    unfolding init_loop.simps fold_simps
    by (rule does_seq [OF init_pass_does [OF Cons.prems]]) (rule Cons.IH)
qed (simp add: does_def)

lemma editing_start:
  assumes "length Line0 = 128"
  shows "editing \<lparr>in_Line = Line0, in_LineLen = 0, in_PromptShown = 0, in_CursorShown = 0\<rparr>
    (te_calls [(InitSysDebugPrint, first_rows ! 0 @ [0x0A]), (InitSysDebugPrint, first_rows ! 1 @ [0x0A])] te_blank) (first_rows, [])"
proof -
  have "displays (te_calls [(InitSysDebugPrint, first_rows ! 0 @ [0x0A])] te_blank) [first_rows ! 0] []"
    using displays_newline [OF displays_chars [OF displays_blank ascii_printable(3)]] by simp
  from displays_newline [OF displays_chars [OF this ascii_printable(4)]]
  have "displays (te_calls [(InitSysDebugPrint, first_rows ! 0 @ [0x0A]), (InitSysDebugPrint, first_rows ! 1 @ [0x0A])] te_blank) first_rows []"
    by (simp add: first_rows_def)
  then show ?thesis using assms by (simp add: editing_def line_ok_def shown_def)
qed

section \<open>Well-formed states\<close>

definition init_wf :: "INIT_STATE \<Rightarrow> bool" where
  "init_wf s \<longleftrightarrow> length (in_Line s) = 128 \<and> in_LineLen s < 128 \<and> list_all printable (take (unat (in_LineLen s)) (in_Line s)) \<and>
     in_PromptShown s \<le> 1 \<and> in_CursorShown s \<le> 1 \<and> (in_PromptShown s = 0 \<longrightarrow> in_LineLen s = 0 \<and> in_CursorShown s = 0)"

definition flags_ok :: "INIT_STATE \<Rightarrow> bool" where
  "flags_ok s \<longleftrightarrow> in_PromptShown s \<le> 1 \<and> in_CursorShown s \<le> 1"

text \<open>A terminal that shows one row.\<close>

definition te_row_of :: "u8 list \<Rightarrow> terminal" where
  "te_row_of l = \<lparr>te_cell = (\<lambda>i. if i = 0 then row_cell l else (\<lambda>j. 0x20)), te_row = 0, te_col = length l\<rparr>"

lemma displays_row_of: "displays (te_row_of l) [] l"
  by (simp add: displays_def te_row_of_def)

lemma init_wf_editing: "init_wf s \<longleftrightarrow> flags_ok s \<and> (\<exists>t d b. editing s t (d, b))"
proof
  assume w: "init_wf s"
  let ?b = "take (unat (in_LineLen s)) (in_Line s)"
  let ?l = "if in_PromptShown s = 0 then [] else ascii ''NK> '' @ ?b @ (if in_CursorShown s = 0 then [] else ascii ''_'')"
  have "line_ok s ?b" using w by (simp add: init_wf_def line_ok_def word_less_nat_alt min_def)
  then have "editing s (te_row_of ?l) ([], ?b)"
    using w by (simp add: editing_def shown_def init_wf_def displays_row_of)
  then show "flags_ok s \<and> (\<exists>t d b. editing s t (d, b))" using w by (auto simp: flags_ok_def init_wf_def)
next
  assume "flags_ok s \<and> (\<exists>t d b. editing s t (d, b))"
  then obtain t d b where f: "flags_ok s" and e: "line_ok s b" "shown s t d b" by (auto simp: editing_def)
  then show "init_wf s"
    using unat_LineLen [OF e(1)] LineLen_eq_0 [OF e(1)]
    by (auto simp: init_wf_def flags_ok_def line_ok_def shown_def word_less_nat_alt)
qed

lemma flags_step:
  "flags_ok s \<Longrightarrow> show_prompt s = Some (s', p) \<Longrightarrow> flags_ok s'"
  "flags_ok s \<Longrightarrow> show_cursor s = Some (s', p) \<Longrightarrow> flags_ok s'"
  "flags_ok s \<Longrightarrow> hide_cursor s = Some (s', p) \<Longrightarrow> flags_ok s'"
  "flags_ok s \<Longrightarrow> end_line s = Some (s', p) \<Longrightarrow> flags_ok s'"
  "flags_ok s \<Longrightarrow> add_char c s = Some (s', p) \<Longrightarrow> flags_ok s'"
  subgoal by (auto simp: flags_ok_def show_prompt_def print_constants split: if_splits)
  subgoal by (auto simp: flags_ok_def show_cursor_def print_constants split: if_splits)
  subgoal by (auto simp: flags_ok_def hide_cursor_def print_constants split: if_splits)
  subgoal by (auto simp: flags_ok_def end_line_def print_constants store_line_def split: if_splits bind_splits)
  subgoal by (auto simp: flags_ok_def add_char_def print_constants store_line_def split: if_splits)
  done

lemma flags_LineLen [simp]: "flags_ok (s\<lparr>in_LineLen := n\<rparr>) = flags_ok s"
  by (simp add: flags_ok_def)

lemma flags_char: "flags_ok s \<Longrightarrow> init_char c s = Some (s', p) \<Longrightarrow> flags_ok s'"
  by (auto simp: init_char_def print_constants split: if_splits bind_splits intro: flags_step(4))
    (blast intro: flags_step(2) [OF flags_step(5)])+

lemma init_pass_flags: "flags_ok s \<Longrightarrow> init_pass e s = Some (s', p) \<Longrightarrow> flags_ok s'"
  by (auto simp: init_pass_def init_prepare_def Let_def split: if_splits bind_splits)
    (blast intro: flags_step(2) [OF flags_step(1)] flags_char [OF flags_step(3) [OF flags_step(2) [OF flags_step(1)]]])+

section \<open>Properties\<close>

text \<open>C19: the state of the program is well-formed forever and the program never gets stuck.  From a state whose array has
  its 128 bytes, whose length is below that, whose first bytes up to the length are printable, whose flags are 0 or 1
  and which shows the cursor only behind a prompt, and a prompt whenever the line is not empty, a pass over any answer
  of the console succeeds and ends in such a state.\<close>

theorem init_pass_typed:
  assumes "init_wf s"
  shows "\<exists>s' p. init_pass e s = Some (s', p) \<and> init_wf s' \<and> list_all call_ok p"
proof -
  obtain t d b where f: "flags_ok s" and "editing s t (d, b)" using assms unfolding init_wf_editing by blast
  from init_pass_does [OF this(2), of e] obtain s' p where
    1: "init_pass e s = Some (s', p)" "editing s' (te_calls p t) (edit e (d, b))" "list_all call_ok p" by (rule doesE)
  moreover have "init_wf s'" using init_pass_flags [OF f 1(1)] 1(2) unfolding init_wf_editing by (metis surj_pair)
  ultimately show ?thesis by blast
qed

theorem init_pass_typed_witness:
  "\<exists>s' p. init_pass (1, 0x41) \<lparr>in_Line = replicate 128 0x20, in_LineLen = 127, in_PromptShown = 1, in_CursorShown = 1\<rparr> = Some (s', p) \<and>
     init_wf s' \<and> list_all call_ok p"
  by (rule init_pass_typed) (simp add: init_wf_def printable_def list_all_iff)

text \<open>C25: whatever the console delivers, the first user program refines the line editor.  It never leaves its arrays,
  every print it makes is one the kernel accepts, and whenever it waits for the next character the terminal shows the
  finished rows of the editor and below them the prompt, exactly the characters of the current line and the cursor
  mark, while the array holds that line with its length below the size of the array.\<close>

theorem init_refines_editor:
  assumes "length Line0 = 128" and "fold edit es (first_rows, []) = (d, b)"
  shows "\<exists>s p s' q. init_start Line0 es = Some (s, p) \<and> init_prepare s = Some (s', q) \<and>
    displays (te_show (p @ q)) d (ascii ''NK> '' @ b @ ascii ''_'') \<and>
    take (unat (in_LineLen s')) (in_Line s') = b \<and> in_LineLen s' < 128 \<and> length (in_Line s') = 128 \<and> list_all call_ok (p @ q)"
proof -
  obtain s p where 1: "init_loop es \<lparr>in_Line = Line0, in_LineLen = 0, in_PromptShown = 0, in_CursorShown = 0\<rparr> = Some (s, p)"
    "editing s (te_calls ((InitSysDebugPrint, first_rows ! 0 @ [0x0A]) # (InitSysDebugPrint, first_rows ! 1 @ [0x0A]) # p) te_blank) (d, b)"
    "list_all call_ok p"
    using init_loop_does [OF editing_start [OF assms(1)], of es] unfolding assms(2) by (rule doesE) simp
  obtain s' q where 2: "init_prepare s = Some (s', q)"
    "editing s' (te_calls q (te_calls ((InitSysDebugPrint, first_rows ! 0 @ [0x0A]) # (InitSysDebugPrint, first_rows ! 1 @ [0x0A]) # p) te_blank)) (d, b)"
    "list_all call_ok q" "waiting s'"
    using init_prepare_does [OF 1(2)] by (rule doesE)
  have ok: "line_ok s' b" using 2(2) by (simp add: editing_def)
  have "in_LineLen s' < 128" using ok unat_LineLen [OF ok] by (simp add: line_ok_def word_less_nat_alt)
  moreover have "call_ok (InitSysDebugPrint, first_rows ! 0 @ [0x0A])" "call_ok (InitSysDebugPrint, first_rows ! 1 @ [0x0A])"
    by (simp_all add: call_ok_def first_rows_def ascii_def KI_SYSCALL_DEBUGPRINT_MAX_def)
  ultimately show ?thesis
    using 1 2 ok unat_LineLen [OF ok]
    by (simp add: init_start_def print_constants te_show_def editing_def waiting_shown line_ok_def)
qed

theorem init_refines_editor_witness:
  "\<exists>s p s' q. init_start (replicate 128 7) [(1, 0x68), (0, 0), (1, 0x69), (1, 0x08), (1, 0x0D), (1, 0x79)] = Some (s, p) \<and> init_prepare s = Some (s', q) \<and>
    displays (te_show (p @ q)) (first_rows @ [ascii ''NK> '' @ [0x68], [0x68]]) (ascii ''NK> '' @ [0x79] @ ascii ''_'') \<and>
    take (unat (in_LineLen s')) (in_Line s') = [0x79] \<and> in_LineLen s' < 128 \<and> length (in_Line s') = 128 \<and> list_all call_ok (p @ q)"
  by (rule init_refines_editor) (simp_all add: edit_def)

end
