(* ===== verification/Spec2Isabelle.thy ===== *)
theory Spec2Isabelle
  imports NtxValidate NtxLoader NtxRtl NtxInit
begin

text \<open>
  A verification library for the NTX kernel, a small preemptive kernel for x86-64 written in C, and its UEFI
  boot loader.

  \<^bold>\<open>The program.\<close>  The loader (\<^verbatim>\<open>boot/uefi\<close>) reads the kernel image, checks, places and relocates it, records the
  firmware's memory map in the boot information block, leaves boot services and jumps to the kernel.  The kernel
  (\<^verbatim>\<open>kernel/ke/init.c\<close>) initialises the hardware layer (\<^verbatim>\<open>hal/aur64\<close>), the nucleus (\<^verbatim>\<open>kernel/nk\<close>) and then the modules of the
  executive (\<^verbatim>\<open>kernel/ex\<close>): the object manager, security, the memory manager, the cache policy, files, processes and local
  ports.  Afterwards the processor runs threads: they enter the kernel through system calls, page faults and timer
  interrupts, which call the modules.  The object manager calls back into the modules when an object dies.

  \<^bold>\<open>The state.\<close>  The globals of the kernel are one record per component, each extending the one before: \<open>HAL_GLOBALS\<close>,
  \<open>NK_GLOBALS\<close>, \<open>OB_GLOBALS\<close>, \<open>MM_GLOBALS\<close>, \<open>PS_GLOBALS\<close>, \<open>LPC_GLOBALS\<close>, \<open>IO_GLOBALS\<close>, \<open>EX_GLOBALS\<close>.  An operation is a function on
  every record that has its component's globals, so it runs unchanged in the state of the whole kernel.  The console
  with the devices, and the descriptor tables, are records of their own beside it.

  \<^bold>\<open>Conventions.\<close>
  \<^item> Integers keep their width: \<open>u8\<close>, \<open>u16\<close>, \<open>u32\<close>, \<open>u64\<close> are words, and arithmetic wraps as in C.
  \<^item> A pointer into a static pool is the index of the slot, \<open>None\<close> the null pointer; an out-parameter is a flag (was a
    pointer passed) and the value written through it is part of the result; a flag of 0 and 1 is a \<open>bool\<close>.
  \<^item> An operation that can fail returns \<open>KSTATUS + 'v\<close> (\<open>Inl\<close> the status) and the state; \<open>None\<close> is a machine that has
    halted (\<^verbatim>\<open>HalHalt\<close>, a failed \<^verbatim>\<open>NK_ASSERT\<close>) or a loop that does not end, and in the loader also a division by zero.
  \<^item> Physical memory is a function from addresses to 64-bit cells (\<open>hw_mem\<close>).  Page tables live in it, as in the
    code; user memory is reached through the page walk of the processor (\<open>mmu_translate\<close>) and an access that is not
    mapped raises the page fault the handler of the kernel serves (\<open>cpu_access\<close>).
  \<^item> Loops over arrays are \<open>scan\<close> and structural recursion with the array's bound; loops that may not end are
    \<open>partial_function (option)\<close>: \<open>receive_loop\<close>, \<open>spawn_read\<close>, \<open>cpu_access\<close>, \<open>stall_loop\<close>, and the run queue walk of the dump.  Loops the
    code bounds itself (polling a port, the retries of leaving boot services) carry that bound.
  \<^item> Function pointers are constructors of a datatype and the routine behind each is looked up by a function
    (\<open>run_delete\<close>, \<open>run_page_fault\<close>, \<open>run_timer_tick\<close>, \<open>run_initialize\<close>).
  \<^item> What is decided outside the sources is a parameter: the firmware, the device ports, the addresses the linker chooses
    (\<open>link_...\<close>), the content of uninitialised locals.
  \<^item> Text on the debug console is modelled where it is the purpose of an operation: the dumps, the console itself, the
    debug system call, the kernel's entry.  Traces the modules print on the way are left out.

  \<^bold>\<open>The theories.\<close>
  \<^item> \<open>NtxPrelude\<close>: types, status codes, \<open>scan\<close>, array fills, linked queues (locale \<open>linked_queue\<close>) and slot pools (locale
    \<open>slot_pool\<close>), which the schedulers, wait queues and pools interpret.  \<open>NtxText\<close>: the copies of the hexadecimal
    formatter and the bounded string routines every file carries.
  \<^item> \<open>NtxHal\<close>: boot protocol, platform information, registered routines (\<^verbatim>\<open>hal_aur64.c\<close>).  \<open>NtxConsole\<close>: serial port, keyboard, font
    and framebuffer console; the cursor stays on the screen and only visible pixels change.  \<open>NtxIntr\<close>: descriptor tables, interrupt controller and
    handlers (\<^verbatim>\<open>hal_intr.c\<close>); every vector has the gate it is meant to have.  \<open>NtxContext\<close>: the rest of \<^verbatim>\<open>context.c\<close>; the entry into user mode drops
    privilege, and the program of the smoke test does what it is built for.
  \<^item> \<open>NtxNk\<close> (\<^verbatim>\<open>nk/core.c\<close>): ports and service endpoints.  The locale \<open>bounded_fifo\<close> states what a message queue promises; the ring
    buffer is an interpretation and refines a list of messages.
  \<^item> \<open>NtxOb\<close> (\<^verbatim>\<open>ob/init.c\<close>): types, objects, reference counts and handles.  The invariant \<open>ob_inv\<close> (handles name live objects, values are
    distinct, counts are exact) holds after every sequence of operations, for every set of delete routines that keeps the
    contract of the locale \<open>ob_delete_routines\<close>; \<open>NtxObjects\<close> interprets it with the kernel's own routines and follows a file from open to close.
  \<^item> \<open>NtxMmPhys\<close>, \<open>NtxMmPaging\<close>, \<open>NtxMmVm\<close>, \<open>NtxMmFault\<close>, \<open>NtxMmSection\<close>, \<open>NtxMmTrace\<close> (\<^verbatim>\<open>mm/init.c\<close>): the page allocator, the four level
    walk and the mappings it makes, initialisation and address spaces, page faults, sections, fault records and dumps.
    The lemmas show that pages are handed out once, that mapping one page changes exactly the entry of that page (which address spaces may share, since
    they share tables), what every branch of a fault does, exactly when a fault is resolved, with the pages its tables cost, and that regions stay
    sorted and disjoint.
  \<^item> \<open>NtxPs\<close>, \<open>NtxSched\<close>, \<open>NtxPsInit\<close> (\<^verbatim>\<open>ps/init.c\<close>): processes, threads and the scheduler; the invariant \<open>sched\<close> over every sequence of
    scheduler operations (an inductive step relation), round robin order, time slices, and initialisation.  \<open>NtxKpe\<close> and \<open>NtxUserImage\<close>: the image format,
    base relocations, and the loader of user programs, which writes only inside the image.
  \<^item> \<open>NtxLpc\<close> (\<^verbatim>\<open>lpc/init.c\<close>) and \<open>NtxIo\<close> (\<^verbatim>\<open>io/init.c\<close>): ports by handle, which refine the same queue as the nucleus, and files by handle.
  \<^item> \<open>NtxUserCopy\<close>, \<open>NtxSyscall\<close> (\<^verbatim>\<open>ke/syscall.c\<close>): copying from and to the memory of the caller with the page faults on the way, every
    system call, and the dispatcher.
  \<^item> \<open>NtxDemand\<close>: demand paging seen by the code that runs.  The walk of the processor agrees with the walk of the memory manager, so the first access to a
    lazy page finds zeroed memory, and two views of a section are one memory.  \<open>NtxValidate\<close> (\<^verbatim>\<open>ke/validate.c\<close>): the memory tests of the kernel's own suite; the test
    of lazy mappings passes, and the two views of the section test agree.
  \<^item> \<open>NtxExec\<close> (\<^verbatim>\<open>ex\<close>, \<^verbatim>\<open>se\<close>, \<^verbatim>\<open>cc\<close>, \<^verbatim>\<open>nk/assert.c\<close>) and \<open>NtxKernel\<close> (\<^verbatim>\<open>ke/init.c\<close>, part of \<^verbatim>\<open>ke/validate.c\<close>): the composition.  From a cold start with the stated
    resources all modules initialise; without an initial program and with validation off the kernel reaches the idle loop and stays there.
  \<^item> \<open>NtxBoot\<close>, \<open>NtxBootMap\<close>, \<open>NtxBootText\<close>, \<open>NtxSplash\<close>, \<open>NtxLoader\<close> (\<^verbatim>\<open>boot/uefi\<close>): the boot loader over a firmware given as a record of
    functions: validation and loading of the kernel image, the memory map and leaving boot services, formatted prints and the
    serial trace, the splash screen, and the whole of \<^verbatim>\<open>efi_main\<close>.  With firmware that grants pages below the top of memory and
    reports descriptors of nonzero size the loader ends and returns only errors; it calls the kernel only with the image loaded from the
    bytes the firmware delivered for the kernel file, a boot information the kernel accepts and boot services left behind.
  \<^item> \<open>NtxInit\<close> (\<^verbatim>\<open>user/init/init.c\<close>): the first user program, which refines a line editor on a terminal.  \<open>NtxRtl\<close> (\<^verbatim>\<open>rtl/memory.c\<close>): the byte loops.

  \<^bold>\<open>Properties that describe defects.\<close>  Some theorems state what the code does where it is not what it is meant to do: the
  double release of a copied page, a blocked thread that keeps running, a waiting receive that blocks every
  thread, section data copied past the kernel image, an anonymous mapping that is not checked against the top of the user half, system calls that accept kernel addresses, and a self test
  that stops the machine when the bootstrap thread is alone.

  \<^bold>\<open>Not modelled.\<close>  Interrupts that arrive in the middle of an operation: a handler runs between operations.  The code of a
  thread between two switches is not a program of the model; an operation that switches returns the state in
  which the next thread runs, and the self tests that start threads and wait for them are an argument.  The
  instructions that load descriptor tables and save registers at the system call entry; processor caches and the
  translation buffer; build scripts.
\<close>

end
